(* ===== verification/Prelude.thy ===== *)
theory Prelude
  imports Main "HOL-Library.Word"
begin

text \<open>
  The vocabulary shared by every component: the machine integers of the firmware, the error
  codes of ESP-IDF, byte buffers (\<open>u8 list\<close>) with the two ways the C code touches them
  (\<open>bslice\<close> for a pointer into a buffer, \<open>poke\<close> for a \<open>memcpy\<close> or a store), the big-endian
  integer encodings of the wire formats, and \<open>size_t\<close> arithmetic.

  Conventions of the whole development.
  \<^item> Unsigned C integers are words (\<open>u8\<close>, \<open>u16\<close>, \<open>u32\<close>, \<open>u64\<close>); signed ones are \<open>int\<close>, and
    a cast that narrows is written out.
  \<^item> A \<open>size_t\<close> is a \<open>nat\<close>; a subtraction that the code does not guard is \<open>size_sub\<close>, which
    wraps at 32 bits as it does on the target.
  \<^item> A pointer argument that every caller under src/ passes as the address of an object is a
    value of the model; where a caller passes NULL the argument is an \<open>option\<close>.
  \<^item> Where a parser or a composer could leave its buffer, it reads with \<open>rd16\<close> and \<open>rd_slice\<close>
    and writes with \<open>wr\<close>, whose \<open>None\<close> is the undefined behaviour of C: that it is never
    reached is proved, not assumed.
  \<^item> Logging is not modelled.
\<close>

unbundle bit_operations_syntax

type_synonym u8 = "8 word"
type_synonym u16 = "16 word"
type_synonym u32 = "32 word"
type_synonym u64 = "64 word"
type_synonym bytes = "8 word list"

datatype esp_err =
    ESP_OK
  | ESP_FAIL
  | ESP_ERR_NO_MEM
  | ESP_ERR_INVALID_ARG
  | ESP_ERR_INVALID_STATE
  | ESP_ERR_INVALID_SIZE
  | ESP_ERR_NOT_FOUND
  | ESP_ERR_NOT_SUPPORTED
  | ESP_ERR_TIMEOUT
  | ESP_ERR_INVALID_RESPONSE
  | ESP_ERR_INVALID_CRC
  | ESP_ERR_INVALID_VERSION
  | ESP_ERR_NVS_NOT_FOUND
  | ESP_ERR_OTHER nat

named_theorems bytes_simps \<open>reading back what was written to a buffer\<close>
named_theorems length_simps \<open>lengths of encodings and buffers\<close>

subsection \<open>size_t\<close>

definition size_sub :: "nat \<Rightarrow> nat \<Rightarrow> nat" where
  "size_sub a b = (if b \<le> a then a - b else a + 2 ^ 32 - b)"

lemma size_sub_le [simp]: "b \<le> a \<Longrightarrow> size_sub a b = a - b"
  by (simp add: size_sub_def)

subsection \<open>Signed integers\<close>

text \<open>Division truncates toward zero, its remainder has the sign of the dividend, and a result has to fit.\<close>

definition quot :: "int \<Rightarrow> int \<Rightarrow> int" where
  "quot a b = sgn a * sgn b * (\<bar>a\<bar> div \<bar>b\<bar>)"

definition crem :: "int \<Rightarrow> int \<Rightarrow> int" where
  "crem a b = a - b * quot a b"

definition in_int64 :: "int \<Rightarrow> bool" where
  "in_int64 i \<longleftrightarrow> - (2 ^ 63) \<le> i \<and> i < 2 ^ 63"

subsection \<open>Buffers\<close>

definition bslice :: "bytes \<Rightarrow> nat \<Rightarrow> nat \<Rightarrow> bytes" where
  "bslice buf off n = take n (drop off buf)"

definition poke :: "bytes \<Rightarrow> nat \<Rightarrow> bytes \<Rightarrow> bytes" where
  "poke buf off bs = take off buf @ bs @ drop (off + length bs) buf"

lemma length_bslice [simp, length_simps]:
  "off + n \<le> length buf \<Longrightarrow> length (bslice buf off n) = n"
  by (simp add: bslice_def)

lemma length_poke [simp, length_simps]:
  "off + length bs \<le> length buf \<Longrightarrow> length (poke buf off bs) = length buf"
  by (simp add: poke_def)

lemma bslice_poke_same [simp, bytes_simps]:
  "off + length bs \<le> length buf \<Longrightarrow> bslice (poke buf off bs) off (length bs) = bs"
  by (simp add: bslice_def poke_def)

lemma take_poke [simp, bytes_simps]:
  "n \<le> off \<Longrightarrow> off \<le> length buf \<Longrightarrow> take n (poke buf off bs) = take n buf"
  by (simp add: poke_def min_def)

lemma take_poke_end [simp, bytes_simps]:
  "off \<le> length buf \<Longrightarrow> take (off + length bs) (poke buf off bs) = take off buf @ bs"
  by (simp add: poke_def)

lemma poke_append: "off = length xs \<Longrightarrow> poke (xs @ ys) off bs = xs @ bs @ drop (length bs) ys"
  by (simp add: poke_def)

lemma poke_next:
  "off + length a + length b \<le> length buf \<Longrightarrow> poke (poke buf off a) (off + length a) b = poke buf off (a @ b)"
  by (cases a) (auto simp: poke_def min_def add_ac)

lemma bslice_append_left [simp, bytes_simps]:
  "off + n \<le> length xs \<Longrightarrow> bslice (xs @ ys) off n = bslice xs off n"
  by (simp add: bslice_def)

lemma bslice_append_right [bytes_simps]:
  "length xs \<le> off \<Longrightarrow> bslice (xs @ ys) off n = bslice ys (off - length xs) n"
  by (simp add: bslice_def)

lemma bslice_whole [simp, bytes_simps]: "bslice xs 0 (length xs) = xs"
  by (simp add: bslice_def)

lemma bslice_join: "bslice d a m @ bslice d (a + m) n = bslice d a (m + n)"
  by (simp add: bslice_def take_add add.commute)

lemma bslice_zero [simp, bytes_simps]: "bslice xs off 0 = []"
  by (simp add: bslice_def)

subsection \<open>Big-endian integers\<close>

definition be16 :: "u16 \<Rightarrow> bytes" where
  "be16 v = [ucast (drop_bit 8 v), ucast v]"

definition be32 :: "u32 \<Rightarrow> bytes" where
  "be32 v = [ucast (drop_bit 24 v), ucast (drop_bit 16 v), ucast (drop_bit 8 v), ucast v]"

definition be64 :: "u64 \<Rightarrow> bytes" where
  "be64 v = map (\<lambda>i. ucast (drop_bit (8 * i) v)) [7, 6, 5, 4, 3, 2, 1, 0]"

definition de_be16 :: "bytes \<Rightarrow> u16" where
  "de_be16 d = push_bit 8 (ucast (d ! 0)) OR ucast (d ! 1)"

definition de_be32 :: "bytes \<Rightarrow> u32" where
  "de_be32 d = push_bit 24 (ucast (d ! 0)) OR push_bit 16 (ucast (d ! 1)) OR
               push_bit 8 (ucast (d ! 2)) OR ucast (d ! 3)"

definition de_be64 :: "bytes \<Rightarrow> u64" where
  "de_be64 d = foldl (\<lambda>v i. push_bit 8 v OR ucast (d ! i)) 0 [0, 1, 2, 3, 4, 5, 6, 7]"

lemma length_be [simp, length_simps]:
  "length (be16 a) = 2" "length (be32 b) = 4" "length (be64 c) = 8"
  by (simp_all add: be16_def be32_def be64_def)

lemma de_be16_be16 [simp, bytes_simps]: "de_be16 (be16 v @ r) = v"
  by (rule bit_word_eqI) (auto simp: de_be16_def be16_def bit_simps)

lemma byte_interval: "n < 8 \<or> (8 \<le> n \<and> n < 16) \<or> (16 \<le> n \<and> n < 24) \<or> (24 \<le> n \<and> n < 32) \<or>
    (32 \<le> n \<and> n < 40) \<or> (40 \<le> n \<and> n < 48) \<or> (48 \<le> n \<and> n < 56) \<or> (56 \<le> n \<and> n < 64)"
  if "n < 64" for n :: nat
  using that by linarith

lemma de_be32_be32 [simp, bytes_simps]: "de_be32 (be32 v @ r) = v"
proof (rule bit_word_eqI)
  fix n assume "n < LENGTH(32)"
  then have n: "n < 64" "n < 32" by simp_all
  show "bit (de_be32 (be32 v @ r)) n \<longleftrightarrow> bit v n"
    using n byte_interval [OF n(1)]
    by (elim disjE conjE) (simp_all add: de_be32_def be32_def bit_simps less_diff_conv2)
qed

lemma de_be64_be64 [simp, bytes_simps]: "de_be64 (be64 v @ r) = v"
proof (rule bit_word_eqI)
  fix n assume "n < LENGTH(64)"
  then have n: "n < 64" by simp
  show "bit (de_be64 (be64 v @ r)) n \<longleftrightarrow> bit v n"
    using n byte_interval [OF n]
    by (elim disjE conjE) (simp_all add: de_be64_def be64_def bit_simps less_diff_conv2)
qed

lemma poke_replicate [simp, bytes_simps]:
  "length xs = off \<Longrightarrow> length bs \<le> n \<Longrightarrow>
   poke (xs @ replicate n c) off bs = (xs @ bs) @ replicate (n - length bs) c"
  by (simp add: poke_def)

lemma de_be16_append: "2 \<le> length d \<Longrightarrow> de_be16 (d @ e) = de_be16 d"
  by (cases d) (auto simp: de_be16_def nth_append)

subsection \<open>Checked access\<close>

definition rd16 :: "bytes \<Rightarrow> nat \<Rightarrow> u16 option" where
  "rd16 buf off = (if off + 2 \<le> length buf then Some (de_be16 (drop off buf)) else None)"

definition rd_slice :: "bytes \<Rightarrow> nat \<Rightarrow> nat \<Rightarrow> bytes option" where
  "rd_slice buf off n = (if off + n \<le> length buf then Some (bslice buf off n) else None)"

definition wr :: "bytes \<Rightarrow> nat \<Rightarrow> bytes \<Rightarrow> bytes option" where
  "wr buf off bs = (if off + length bs \<le> length buf then Some (poke buf off bs) else None)"

lemma checked_in_range [simp]:
  "off + 2 \<le> length buf \<Longrightarrow> rd16 buf off = Some (de_be16 (drop off buf))"
  "off + n \<le> length buf \<Longrightarrow> rd_slice buf off n = Some (bslice buf off n)"
  "off + length bs \<le> length buf \<Longrightarrow> wr buf off bs = Some (poke buf off bs)"
  by (simp_all add: rd16_def rd_slice_def wr_def)

lemma rd16_Some: "rd16 buf off = Some v \<longleftrightarrow> off + 2 \<le> length buf \<and> v = de_be16 (drop off buf)"
  by (auto simp: rd16_def)

lemma rd_slice_Some: "rd_slice buf off n = Some v \<longleftrightarrow> off + n \<le> length buf \<and> v = bslice buf off n"
  by (auto simp: rd_slice_def)

lemma unat_and_3: "unat (w AND 3) = unat w mod 4" for w :: u16
proof -
  have "w AND 3 = take_bit 2 w" by (simp only: take_bit_eq_mask mask_numeral) simp
  then have "unat (w AND 3) = take_bit 2 (unat w)" by (simp only: unsigned_take_bit_eq)
  then show ?thesis by (simp add: take_bit_eq_mod)
qed

lemma and_3_eq_0: "w AND 3 = 0 \<longleftrightarrow> unat w mod 4 = 0" for w :: u16
  by (simp add: unat_and_3 [symmetric] unat_eq_0)

subsection \<open>Serving a sequence of requests\<close>

fun run_steps :: "('s \<Rightarrow> 'r \<Rightarrow> 'o \<times> 's) \<Rightarrow> 's \<Rightarrow> 'r list \<Rightarrow> 'o list \<times> 's" where
  "run_steps step s [] = ([], s)"
| "run_steps step s (r # rs) =
     (let (out, s') = step s r; (outs, s'') = run_steps step s' rs in (out # outs, s''))"

lemma run_steps_Cons [simp]:
  "fst (run_steps step s (r # rs)) = fst (step s r) # fst (run_steps step (snd (step s r)) rs)"
  "snd (run_steps step s (r # rs)) = snd (run_steps step (snd (step s r)) rs)"
  by (simp_all add: case_prod_beta)

declare run_steps.simps(2) [simp del]

lemma run_steps_append:
  "run_steps step s (xs @ ys) =
     (fst (run_steps step s xs) @ fst (run_steps step (snd (run_steps step s xs)) ys),
      snd (run_steps step (snd (run_steps step s xs)) ys))"
  by (induction xs arbitrary: s) (auto intro!: prod_eqI)

lemma length_run_steps [simp, length_simps]: "length (fst (run_steps step s rs)) = length rs"
  by (induction rs arbitrary: s) auto

text \<open>An invariant of one step is an invariant of every run.\<close>

lemma run_steps_invariant:
  assumes "I s" and "\<And>s r. I s \<Longrightarrow> r \<in> set rs \<Longrightarrow> I (snd (step s r))"
  shows "I (snd (run_steps step s rs))"
  using assms
proof (induction rs arbitrary: s)
  case Nil
  then show ?case by simp
next
  case (Cons r rs)
  have "I (snd (run_steps step (snd (step s r)) rs))"
    using Cons.prems by (intro Cons.IH) auto
  then show ?case by simp
qed

subsection \<open>Octets\<close>

lemma and_mask_u8:
  fixes x :: u8
  assumes "unat x < 2 ^ n"
  shows "x AND mask n = x"
proof -
  have "unat (take_bit n x) = unat x"
    using assms by (simp add: unsigned_take_bit_eq take_bit_nat_eq_self)
  then show ?thesis by (simp add: take_bit_eq_mask [symmetric] word_unat_eq_iff)
qed

lemma and_mask_small [simp]:
  "(x :: u8) < 4 \<Longrightarrow> x AND 3 = x" "(x :: u8) < 8 \<Longrightarrow> x AND 7 = x"
  using and_mask_u8 [of x 2] and_mask_u8 [of x 3] by (simp_all add: mask_numeral word_less_nat_alt)

lemma u8_eqI:
  fixes a b :: u8
  assumes "\<And>n. n \<in> {0, 1, 2, 3, 4, 5, 6, 7} \<Longrightarrow> bit a n = bit b n"
  shows "a = b"
proof (rule bit_word_eqI)
  fix n :: nat
  assume "n < LENGTH(8)"
  then have "n < 8" by simp
  then have "n = 0 \<or> n = 1 \<or> n = 2 \<or> n = 3 \<or> n = 4 \<or> n = 5 \<or> n = 6 \<or> n = 7" by linarith
  then show "bit a n = bit b n" using assms by blast
qed

lemma bit_u8_ge [simp]: "8 \<le> n \<Longrightarrow> bit (b :: u8) n = False"
  by (auto dest: bit_imp_le_length)

lemma be16_de_be16: "length d = 2 \<Longrightarrow> be16 (de_be16 d) = d"
  by (cases d; cases "tl d")
    (auto simp: be16_def de_be16_def bit_simps intro!: bit_word_eqI)

lemma be32_de_be32: "be32 (de_be32 [a, b, c, d]) = [a, b, c, d]"
  by (simp add: be32_def de_be32_def) (intro conjI bit_word_eqI; simp add: bit_simps)

lemma be64_de_be64: "length d = 8 \<Longrightarrow> be64 (de_be64 d) = d"
proof -
  assume "length d = 8"
  then obtain b0 b1 b2 b3 b4 b5 b6 b7 where d: "d = [b0, b1, b2, b3, b4, b5, b6, b7]"
    by (auto simp: length_Suc_conv numeral_eq_Suc)
  show ?thesis
    by (simp add: d be64_def de_be64_def) (intro conjI bit_word_eqI; simp add: bit_simps)
qed

lemma be16_de_be16_drop: "off + 2 \<le> length d \<Longrightarrow> be16 (de_be16 (drop off d)) = bslice d off 2"
  using be16_de_be16 [of "take 2 (drop off d)"] by (simp add: de_be16_def bslice_def)

lemma be32_de_be32_length: "length d = 4 \<Longrightarrow> be32 (de_be32 d) = d"
  using be32_de_be32 by (auto simp: length_Suc_conv numeral_eq_Suc)

lemma be32_de_be32_drop: "off + 4 \<le> length d \<Longrightarrow> be32 (de_be32 (drop off d)) = bslice d off 4"
  using be32_de_be32_length [of "take 4 (drop off d)"] by (simp add: de_be32_def bslice_def)

lemma be64_de_be64_drop: "off + 8 \<le> length d \<Longrightarrow> be64 (de_be64 (drop off d)) = bslice d off 8"
  using be64_de_be64 [of "take 8 (drop off d)"] by (simp add: de_be64_def bslice_def)

subsection \<open>Widening\<close>

lemma uint_ucast_widen:
  "uint (ucast (x :: u32) :: u64) = uint x" "uint (ucast (y :: u16) :: u32) = uint y"
  "uint (ucast (y :: u16) :: u64) = uint y" "uint (ucast (z :: u8) :: u32) = uint z"
  "uint (ucast (z :: u8) :: u16) = uint z"
  using uint_lt2p [of x] uint_lt2p [of y] uint_lt2p [of z]
  by (simp_all add: unsigned_ucast_eq) (simp_all add: take_bit_int_eq_self)

end
