(* ===== verification/Ntp_Packet.thy ===== *)
theory Ntp_Packet
  imports Prelude
begin

text \<open>
  main/ntp_packet.c and main/ntp_types.h: the 48-byte NTP header, its parser and its builder.
  A packet is the list of the received bytes; \<open>ntp_packet_build\<close> writes into the caller's
  buffer and returns it. The lemmas: the builder writes exactly the 48 bytes
  \<open>ntp_packet_bytes\<close>, parsing them gives the fields back, and parsing then building a
  received header changes the poll octet only.
\<close>

abbreviation NTP_PACKET_SIZE :: nat where "NTP_PACKET_SIZE \<equiv> 48"

abbreviation NTP_LI_NO_WARNING :: u8 where "NTP_LI_NO_WARNING \<equiv> 0"
abbreviation NTP_LI_ADD_SECOND :: u8 where "NTP_LI_ADD_SECOND \<equiv> 1"
abbreviation NTP_LI_DELETE_SECOND :: u8 where "NTP_LI_DELETE_SECOND \<equiv> 2"
abbreviation NTP_LI_UNSYNCED :: u8 where "NTP_LI_UNSYNCED \<equiv> 3"
abbreviation NTP_VERSION_4 :: u8 where "NTP_VERSION_4 \<equiv> 4"
abbreviation NTP_MODE_CLIENT :: u8 where "NTP_MODE_CLIENT \<equiv> 3"
abbreviation NTP_MODE_SERVER :: u8 where "NTP_MODE_SERVER \<equiv> 4"
abbreviation NTP_STRATUM_KOD :: u8 where "NTP_STRATUM_KOD \<equiv> 0"
abbreviation NTP_STRATUM_PRIMARY :: u8 where "NTP_STRATUM_PRIMARY \<equiv> 1"
abbreviation NTP_STRATUM_SECONDARY :: u8 where "NTP_STRATUM_SECONDARY \<equiv> 2"
abbreviation NTP_STRATUM_UNSYNCED :: u8 where "NTP_STRATUM_UNSYNCED \<equiv> 16"

record ntp_timestamp =
  seconds :: u32
  fraction :: u32

text \<open>\<open>precision\<close> is an \<open>int8_t\<close>; every other field is unsigned.\<close>

record ntp_packet_fields =
  leap_indicator :: u8
  version :: u8
  mode :: u8
  stratum :: u8
  precision :: int
  root_delay :: u32
  root_dispersion :: u32
  reference_id :: u32
  reference_timestamp :: ntp_timestamp
  origin_timestamp :: ntp_timestamp
  receive_timestamp :: ntp_timestamp
  transmit_timestamp :: ntp_timestamp

definition zero_timestamp :: ntp_timestamp where
  "zero_timestamp = \<lparr>seconds = 0, fraction = 0\<rparr>"

definition zero_packet :: ntp_packet_fields where
  "zero_packet = \<lparr>leap_indicator = 0, version = 0, mode = 0, stratum = 0, precision = 0,
     root_delay = 0, root_dispersion = 0, reference_id = 0,
     reference_timestamp = zero_timestamp, origin_timestamp = zero_timestamp,
     receive_timestamp = zero_timestamp, transmit_timestamp = zero_timestamp\<rparr>"

subsection \<open>The code\<close>

definition read_timestamp :: "bytes \<Rightarrow> ntp_timestamp" where
  "read_timestamp d = \<lparr>seconds = de_be32 d, fraction = de_be32 (drop 4 d)\<rparr>"

definition write_timestamp :: "bytes \<Rightarrow> nat \<Rightarrow> ntp_timestamp \<Rightarrow> bytes" where
  "write_timestamp buf off t =
     poke (poke buf off (be32 (seconds t))) (off + 4) (be32 (fraction t))"

definition ntp_packet_parse :: "bytes \<Rightarrow> ntp_packet_fields option" where
  "ntp_packet_parse buffer =
     (if length buffer < NTP_PACKET_SIZE then None
      else
        let first_octet = buffer ! 0 in
        Some \<lparr>leap_indicator = drop_bit 6 first_octet AND 3,
              version = drop_bit 3 first_octet AND 7,
              mode = first_octet AND 7,
              stratum = buffer ! 1,
              precision = sint (buffer ! 3),
              root_delay = de_be32 (drop 4 buffer),
              root_dispersion = de_be32 (drop 8 buffer),
              reference_id = de_be32 (drop 12 buffer),
              reference_timestamp = read_timestamp (drop 16 buffer),
              origin_timestamp = read_timestamp (drop 24 buffer),
              receive_timestamp = read_timestamp (drop 32 buffer),
              transmit_timestamp = read_timestamp (drop 40 buffer)\<rparr>)"

definition first_octet_of :: "ntp_packet_fields \<Rightarrow> u8" where
  "first_octet_of p =
     push_bit 6 (leap_indicator p AND 3) OR push_bit 3 (version p AND 7) OR (mode p AND 7)"

definition ntp_packet_build :: "bytes \<Rightarrow> ntp_packet_fields \<Rightarrow> bytes" where
  "ntp_packet_build out_buffer packet =
     (let b = poke out_buffer 0 (replicate NTP_PACKET_SIZE 0);
          b = poke b 0 [first_octet_of packet];
          b = poke b 1 [stratum packet];
          b = poke b 2 [6];
          b = poke b 3 [word_of_int (precision packet)];
          b = poke b 4 (be32 (root_delay packet));
          b = poke b 8 (be32 (root_dispersion packet));
          b = poke b 12 (be32 (reference_id packet));
          b = write_timestamp b 16 (reference_timestamp packet);
          b = write_timestamp b 24 (origin_timestamp packet);
          b = write_timestamp b 32 (receive_timestamp packet);
          b = write_timestamp b 40 (transmit_timestamp packet)
      in b)"

definition ntp_packet_refid_from_text :: "string \<Rightarrow> u32" where
  "ntp_packet_refid_from_text text =
     push_bit 24 (of_char (text ! 0)) OR push_bit 16 (of_char (text ! 1)) OR
     push_bit 8 (of_char (text ! 2)) OR of_char (text ! 3)"

subsection \<open>The builder writes a fixed layout\<close>

definition timestamp_bytes :: "ntp_timestamp \<Rightarrow> bytes" where
  "timestamp_bytes t = be32 (seconds t) @ be32 (fraction t)"

definition ntp_packet_bytes :: "ntp_packet_fields \<Rightarrow> bytes" where
  "ntp_packet_bytes p =
     [first_octet_of p, stratum p, 6, word_of_int (precision p)] @
     be32 (root_delay p) @ be32 (root_dispersion p) @ be32 (reference_id p) @
     timestamp_bytes (reference_timestamp p) @ timestamp_bytes (origin_timestamp p) @
     timestamp_bytes (receive_timestamp p) @ timestamp_bytes (transmit_timestamp p)"

lemma length_timestamp_bytes [simp, length_simps]: "length (timestamp_bytes t) = 8"
  by (simp add: timestamp_bytes_def)

lemma length_ntp_packet_bytes [simp, length_simps]: "length (ntp_packet_bytes p) = 48"
  by (simp add: ntp_packet_bytes_def)

lemma poke_fill:
  "length xs = off \<Longrightarrow> length bs \<le> n \<Longrightarrow>
   poke (xs @ replicate n c @ r) off bs = (xs @ bs) @ replicate (n - length bs) c @ r"
  by (simp add: poke_def)

lemma write_timestamp_fill:
  "length xs = off \<Longrightarrow> 8 \<le> n \<Longrightarrow>
   write_timestamp (xs @ replicate n c @ r) off t =
     (xs @ timestamp_bytes t) @ replicate (n - 8) c @ r"
  by (simp add: write_timestamp_def timestamp_bytes_def poke_fill del: append_assoc)

lemma ntp_packet_build_eq:
  assumes "48 \<le> length out"
  shows "ntp_packet_build out p = ntp_packet_bytes p @ drop 48 out"
proof -
  have start: "poke out 0 (replicate 48 0) = [] @ replicate 48 0 @ drop 48 out"
    using assms by (simp add: poke_def)
  have "ntp_packet_build out p =
      ([] @ [first_octet_of p] @ [stratum p] @ [6] @ [word_of_int (precision p)] @
       be32 (root_delay p) @ be32 (root_dispersion p) @ be32 (reference_id p) @
       timestamp_bytes (reference_timestamp p) @ timestamp_bytes (origin_timestamp p) @
       timestamp_bytes (receive_timestamp p) @ timestamp_bytes (transmit_timestamp p)) @
      drop 48 out"
    unfolding ntp_packet_build_def Let_def start
    by (simp add: poke_fill write_timestamp_fill del: append_assoc append_Nil append_Cons)
  then show ?thesis by (simp add: ntp_packet_bytes_def)
qed


definition wf_fields :: "ntp_packet_fields \<Rightarrow> bool" where
  "wf_fields p \<longleftrightarrow> leap_indicator p < 4 \<and> version p < 8 \<and> mode p < 8 \<and>
     -128 \<le> precision p \<and> precision p < 128"

lemma first_octet_fields:
  "drop_bit 6 (first_octet_of p) AND 3 = leap_indicator p AND 3"
  "drop_bit 3 (first_octet_of p) AND 7 = version p AND 7"
  "first_octet_of p AND 7 = mode p AND 7"
  unfolding first_octet_of_def by (rule u8_eqI; auto simp: bit_simps bit_numeral_rec)+

lemma first_octet_rebuild:
  "push_bit 6 (drop_bit 6 x AND 3) OR push_bit 3 (drop_bit 3 x AND 7) OR (x AND 7) = (x :: u8)"
  by (rule u8_eqI; auto simp: bit_simps bit_numeral_rec)

lemma read_timestamp_bytes [simp, bytes_simps]: "read_timestamp (timestamp_bytes t @ r) = t"
  by (simp add: read_timestamp_def timestamp_bytes_def)

lemma parse_ntp_packet_bytes:
  assumes "wf_fields p"
  shows "ntp_packet_parse (ntp_packet_bytes p @ r) = Some p"
proof -
  have sp: "sint (word_of_int (precision p) :: u8) = precision p"
    using assms by (simp add: wf_fields_def int_word_sint mod_pos_pos_trivial)
  show ?thesis
    using assms
    by (simp add: ntp_packet_parse_def ntp_packet_bytes_def Let_def first_octet_fields sp
        wf_fields_def)
qed

lemma four_bytes:
  assumes "4 \<le> length d"
  obtains a b c e r where "d = a # b # c # e # r"
  using assms by (auto simp: numeral_eq_Suc Suc_le_length_iff)

lemma be32_de_be32_take: "4 \<le> length d \<Longrightarrow> be32 (de_be32 d) = take 4 d"
proof -
  assume "4 \<le> length d"
  then obtain a b c e r where "d = a # b # c # e # r" by (rule four_bytes)
  then show ?thesis using be32_de_be32 [of a b c e] by (simp add: de_be32_def)
qed

lemma timestamp_bytes_read: "8 \<le> length d \<Longrightarrow> timestamp_bytes (read_timestamp d) = take 8 d"
  by (simp add: timestamp_bytes_def read_timestamp_def be32_de_be32_take take_add [of 4 4, simplified])

lemma split_header:
  assumes "48 \<le> length b"
  shows "take 48 b = [b ! 0, b ! 1, b ! 2, b ! 3] @ take 4 (drop 4 b) @ take 4 (drop 8 b) @
    take 4 (drop 12 b) @ take 8 (drop 16 b) @ take 8 (drop 24 b) @ take 8 (drop 32 b) @
    take 8 (drop 40 b)"
proof -
  have "take 4 b = [b ! 0, b ! 1, b ! 2, b ! 3]"
    by (rule four_bytes [of b]) (use assms in simp_all)
  moreover have "take 48 b = take 4 b @ take 4 (drop 4 b) @ take 4 (drop 8 b) @
    take 4 (drop 12 b) @ take 8 (drop 16 b) @ take 8 (drop 24 b) @ take 8 (drop 32 b) @
    take 8 (drop 40 b)"
    by (simp add: take_add [of 4, symmetric] take_add [of 8, symmetric] take_add [symmetric]
        flip: append_assoc)
  ultimately show ?thesis by simp
qed

subsection \<open>Properties\<close>

text \<open>
  C7: What the builder writes for well-formed header fields, the parser reads back: every field
  of the 48-byte header survives the wire, whatever the output buffer held before.
\<close>
theorem ntp_packet_roundtrip:
  assumes "wf_fields p" and "48 \<le> length out"
  shows "ntp_packet_parse (ntp_packet_build out p) = Some p"
  using assms by (simp add: ntp_packet_build_eq parse_ntp_packet_bytes)

definition sample_packet :: ntp_packet_fields where
  "sample_packet = zero_packet\<lparr>leap_indicator := 1, version := 4, mode := 3, precision := -20,
     root_delay := 0x01020304, transmit_timestamp := \<lparr>seconds = 0xDEADBEEF, fraction = 7\<rparr>\<rparr>"

theorem ntp_packet_roundtrip_witness:
  "wf_fields sample_packet \<and>
   ntp_packet_parse (ntp_packet_build (replicate 60 0xFF) sample_packet) = Some sample_packet"
proof -
  have wf: "wf_fields sample_packet" by (simp add: wf_fields_def sample_packet_def zero_packet_def)
  show ?thesis
    using wf ntp_packet_roundtrip [OF wf, of "replicate 60 0xFF"] by simp
qed

text \<open>
  Parsing loses one octet only: building a packet from the fields parsed out of any
  received header reproduces its 48 bytes except the poll octet (offset 2), which the builder
  sets to 6, and leaves the rest of the buffer alone.
\<close>
theorem ntp_packet_rebuild:
  assumes parse: "ntp_packet_parse b = Some p" and out: "48 \<le> length out"
  shows "ntp_packet_build out p = (take 48 b)[2 := 6] @ drop 48 out"
proof -
  have len: "48 \<le> length b"
    using parse by (simp add: ntp_packet_parse_def split: if_splits)
  have oct: "first_octet_of p = b ! 0"
    using parse len first_octet_rebuild [of "b ! 0"]
    by (auto simp: ntp_packet_parse_def Let_def first_octet_of_def)
  show ?thesis
    unfolding ntp_packet_build_eq [OF out] ntp_packet_bytes_def oct split_header [OF len]
    using parse len
    by (auto simp: ntp_packet_parse_def Let_def be32_de_be32_take timestamp_bytes_read)
qed

theorem ntp_packet_rebuild_witness:
  "\<exists>p. ntp_packet_parse (replicate 48 0x1B) = Some p \<and>
       ntp_packet_build (replicate 48 0) p = (replicate 48 0x1B)[2 := 6]"
proof -
  obtain p where some: "ntp_packet_parse (replicate 48 0x1B) = Some p"
    by (simp add: ntp_packet_parse_def Let_def)
  then show ?thesis using ntp_packet_rebuild [OF some, of "replicate 48 0"] by simp
qed

end
