(* ===== verification/Interfaces.thy ===== *)
theory Interfaces
  imports Prelude
begin

text \<open>
  The contracts between components, as locales: what a client relies on, stated once, with the
  client's lemmas proved from it. Each is interpreted on the model's own operations in the
  theory of the component that provides them.
\<close>

subsection \<open>Credit: an operation that can be granted only as often as credit accrues\<close>

text \<open>
  A server \<open>step\<close> answers requests; each request has a time, and some of them are charged. The
  credit left never goes below zero, grows by at most \<open>rate\<close> per unit of time, and a granted
  charged request costs \<open>cost\<close>.
\<close>

locale credit_scheme =
  fixes inv :: "'s \<Rightarrow> int \<Rightarrow> bool"
    and valid :: "'r \<Rightarrow> bool"
    and step :: "'s \<Rightarrow> 'r \<Rightarrow> bool \<times> 's"
    and time :: "'r \<Rightarrow> int"
    and charged :: "'r \<Rightarrow> bool"
    and credit :: "'s \<Rightarrow> int \<Rightarrow> int"
    and cost :: int
    and rate :: int
  assumes step_inv: "inv s t \<Longrightarrow> valid r \<Longrightarrow> t \<le> time r \<Longrightarrow> inv (snd (step s r)) (time r)"
    and step_credit: "inv s t \<Longrightarrow> valid r \<Longrightarrow> t \<le> time r \<Longrightarrow>
      (if charged r \<and> fst (step s r) then cost else 0) + credit (snd (step s r)) (time r)
        \<le> credit s t + rate * (time r - t)"
    and credit_nonneg: "inv s t \<Longrightarrow> 0 \<le> credit s t"
begin

definition granted :: "'s \<Rightarrow> 'r list \<Rightarrow> int" where
  "granted s rs = int (length (filter (\<lambda>(r, g). charged r \<and> g)
     (zip rs (fst (run_steps step s rs)))))"

lemma granted_Nil [simp]: "granted s [] = 0"
  by (simp add: granted_def)

lemma granted_Cons [simp]:
  "granted s (r # rs) = (if charged r \<and> fst (step s r) then 1 else 0) + granted (snd (step s r)) rs"
  by (simp add: granted_def)

lemma run_inv:
  assumes "inv s t" and "\<forall>r \<in> set rs. valid r" and "sorted (t # map time rs)"
  shows "inv (snd (run_steps step s rs)) (last (t # map time rs))"
  using assms
proof (induction rs arbitrary: s t)
  case Nil
  then show ?case by simp
next
  case (Cons r rs)
  then have "inv (snd (step s r)) (time r)" by (auto intro: step_inv)
  then show ?case using Cons.IH [of "snd (step s r)" "time r"] Cons.prems by simp
qed

lemma run_bound:
  assumes "inv s t" and "\<forall>r \<in> set rs. valid r" and "sorted (t # map time rs)"
  shows "cost * granted s rs \<le> credit s t + rate * (last (t # map time rs) - t)"
  using assms
proof (induction rs arbitrary: s t)
  case Nil
  then show ?case by (simp add: credit_nonneg)
next
  case (Cons r rs)
  let ?s = "snd (step s r)"
  have le: "t \<le> time r" using Cons.prems by simp
  have "inv ?s (time r)" using Cons.prems by (auto intro: step_inv)
  then have "cost * granted ?s rs \<le> credit ?s (time r) + rate * (last (time r # map time rs) - time r)"
    using Cons.prems by (intro Cons.IH) auto
  moreover have "(if charged r \<and> fst (step s r) then cost else 0) + credit ?s (time r)
      \<le> credit s t + rate * (time r - t)"
    using Cons.prems le by (intro step_credit) auto
  moreover have "cost * granted s (r # rs) =
      (if charged r \<and> fst (step s r) then cost else 0) + cost * granted ?s rs"
    by (auto simp: algebra_simps)
  moreover have "last (t # map time (r # rs)) = last (time r # map time rs)" by simp
  ultimately show ?case by (simp only: right_diff_distrib)
qed

end

subsection \<open>Authenticated encryption, and records sealed with it\<close>

text \<open>
  Authenticated encryption with associated data, over a provider \<open>P\<close> of the primitives that is
  \<open>good\<close> (its calls succeed): sealing and opening are inverse partial functions, so an opened
  message is exactly one that sealing produces.
\<close>

locale aead =
  fixes good :: "'p \<Rightarrow> bool"
    and seal :: "'p \<Rightarrow> 'k \<Rightarrow> 'a \<Rightarrow> 'n \<Rightarrow> 'm \<Rightarrow> 'c option"
    and open_sealed :: "'p \<Rightarrow> 'k \<Rightarrow> 'a \<Rightarrow> 'n \<Rightarrow> 'c \<Rightarrow> 'm option"
    and wf_key :: "'k \<Rightarrow> bool"
  assumes seal_total: "good P \<Longrightarrow> wf_key k \<Longrightarrow> \<exists>c. seal P k a n m = Some c"
    and open_seal: "good P \<Longrightarrow> wf_key k \<Longrightarrow> seal P k a n m = Some c \<Longrightarrow> open_sealed P k a n c = Some m"
    and seal_open: "good P \<Longrightarrow> wf_key k \<Longrightarrow> open_sealed P k a n c = Some m \<Longrightarrow> seal P k a n m = Some c"
begin

lemma seal_inj:
  "good P \<Longrightarrow> wf_key k \<Longrightarrow> seal P k a n m = Some c \<Longrightarrow> seal P k a n m' = Some c \<Longrightarrow> m = m'"
  using open_seal by (metis option.inject)

lemma open_iff_seal:
  "good P \<Longrightarrow> wf_key k \<Longrightarrow> open_sealed P k a n c = Some m \<longleftrightarrow> seal P k a n m = Some c"
  using open_seal seal_open by blast

end

text \<open>A record put into bytes and sealed; opened and read back it is the same record.\<close>

locale sealed_codec = aead good seal open_sealed wf_key
  for good :: "'p \<Rightarrow> bool"
    and seal :: "'p \<Rightarrow> 'k \<Rightarrow> 'a \<Rightarrow> 'n \<Rightarrow> 'm \<Rightarrow> 'c option"
    and open_sealed :: "'p \<Rightarrow> 'k \<Rightarrow> 'a \<Rightarrow> 'n \<Rightarrow> 'c \<Rightarrow> 'm option"
    and wf_key :: "'k \<Rightarrow> bool" +
  fixes encode :: "'x \<Rightarrow> 'm" and decode :: "'m \<Rightarrow> 'x option" and wf :: "'x \<Rightarrow> bool"
  assumes decode_encode: "wf x \<Longrightarrow> decode (encode x) = Some x"
begin

definition unbox :: "'p \<Rightarrow> 'k \<Rightarrow> 'a \<Rightarrow> 'n \<Rightarrow> 'c \<Rightarrow> 'x option" where
  "unbox P k a n c = Option.bind (open_sealed P k a n c) decode"

lemma unbox_sealed:
  assumes "good P" "wf_key k" "wf x" "seal P k a n (encode x) = Some c"
  shows "unbox P k a n c = Some x"
  using assms by (simp add: unbox_def open_seal decode_encode)

lemma box_exists: "good P \<Longrightarrow> wf_key k \<Longrightarrow> wf x \<Longrightarrow> \<exists>c. unbox P k a n c = Some x"
  using seal_total unbox_sealed by metis

lemma unbox_genuine:
  "good P \<Longrightarrow> wf_key k \<Longrightarrow> unbox P k a n c = Some x \<Longrightarrow>
   \<exists>m. seal P k a n m = Some c \<and> decode m = Some x"
  by (auto simp: unbox_def bind_eq_Some_conv open_iff_seal)

end

subsection \<open>A store that keeps one value\<close>

text \<open>
  What the users of a persistent store rely on, over a backend \<open>P\<close> that keeps its promises: a
  load leaves what the next load returns alone, and after a save that reported success a load
  that succeeds returns the saved value.
\<close>

locale value_store =
  fixes lawful :: "'p \<Rightarrow> bool"
    and save :: "'p \<Rightarrow> 'v \<Rightarrow> 's \<Rightarrow> esp_err \<times> 's"
    and load :: "'p \<Rightarrow> 's \<Rightarrow> (esp_err + 'v) \<times> 's"
    and holds :: "'p \<Rightarrow> 's \<Rightarrow> 'v \<Rightarrow> bool"
  assumes save_holds: "lawful P \<Longrightarrow> save P v s = (ESP_OK, t) \<Longrightarrow> holds P t v"
    and load_holds: "lawful P \<Longrightarrow> load P s = (r, t) \<Longrightarrow> holds P s v \<longleftrightarrow> holds P t v"
    and load_value: "lawful P \<Longrightarrow> holds P s v \<Longrightarrow> load P s = (Inr w, t) \<Longrightarrow> w = v"
    and load_Inr_holds: "lawful P \<Longrightarrow> load P s = (Inr w, t) \<Longrightarrow> holds P s w"
begin

lemma load_after_save:
  "lawful P \<Longrightarrow> save P v s = (ESP_OK, t) \<Longrightarrow> load P t = (Inr w, u) \<Longrightarrow> w = v"
  using save_holds load_value by blast

lemma load_twice:
  "lawful P \<Longrightarrow> load P s = (Inr v, t) \<Longrightarrow> load P t = (Inr w, u) \<Longrightarrow> w = v"
  using load_Inr_holds load_holds load_value by blast

lemma holds_unique: "lawful P \<Longrightarrow> load P s = (Inr v, t) \<Longrightarrow> holds P s w \<Longrightarrow> w = v"
  using load_value by blast

end

end
