(* ===== verification/Rate_Limit.thy ===== *)
theory Rate_Limit
  imports Interfaces
begin

text \<open>
  main/ntp_rate_limit.c: the table of 32 per-client token buckets (burst 8, 30 tokens per
  minute). The table \<open>s_clients\<close> is a list of records; a request is a client address with the
  value \<open>esp_timer_get_time()\<close> returns while it is served. The lemmas: the table invariant
  (32 slots, the slots in use are a prefix, no address twice, no more than 8 tokens), which slot
  the search finds, and the bound on the requests granted to one client in any time window.
\<close>

abbreviation APP_NTP_MAX_CLIENTS :: nat where "APP_NTP_MAX_CLIENTS \<equiv> 32"
abbreviation APP_NTP_RATE_BURST :: u32 where "APP_NTP_RATE_BURST \<equiv> 8"

record ntp_rate_client =
  in_use :: bool
  client_ipv4 :: u32
  tokens :: u32
  last_refill_us :: int
  last_seen_us :: int

definition zero_client :: ntp_rate_client where
  "zero_client = \<lparr>in_use = False, client_ipv4 = 0, tokens = 0, last_refill_us = 0,
     last_seen_us = 0\<rparr>"

subsection \<open>The code\<close>

definition refill_client :: "ntp_rate_client \<Rightarrow> int \<Rightarrow> ntp_rate_client" where
  "refill_client c now_us =
     (if last_refill_us c = 0 then
        c\<lparr>last_refill_us := now_us, tokens := APP_NTP_RATE_BURST\<rparr>
      else
        let elapsed_us = now_us - last_refill_us c in
        if elapsed_us \<le> 0 then c
        else
          let tokens_to_add = ((word_of_int elapsed_us :: u64) * 30) div 60000000 in
          if tokens_to_add = 0 then c
          else
            let updated_tokens = ucast (tokens c) + tokens_to_add;
                updated_tokens = (if updated_tokens > 8 then 8 else updated_tokens)
            in c\<lparr>tokens := ucast updated_tokens, last_refill_us := now_us\<rparr>)"

text \<open>The scan of \<open>find_or_allocate_client\<close>: which slot, and why.\<close>

datatype slot_choice = Existing nat | Fresh nat | Evict nat

fun find_slot :: "ntp_rate_client list \<Rightarrow> u32 \<Rightarrow> nat \<Rightarrow> nat \<Rightarrow> nat \<Rightarrow> slot_choice" where
  "find_slot cs ip oldest index 0 = Evict oldest"
| "find_slot cs ip oldest index (Suc remaining) =
     (let candidate = cs ! index in
      if in_use candidate \<and> client_ipv4 candidate = ip then Existing index
      else if \<not> in_use candidate then Fresh index
      else find_slot cs ip
             (if last_seen_us candidate < last_seen_us (cs ! oldest) then index else oldest)
             (Suc index) remaining)"

definition fresh_client :: "u32 \<Rightarrow> int \<Rightarrow> ntp_rate_client" where
  "fresh_client ip now_us = \<lparr>in_use = True, client_ipv4 = ip, tokens = APP_NTP_RATE_BURST,
     last_refill_us = now_us, last_seen_us = now_us\<rparr>"

definition find_or_allocate_client ::
  "ntp_rate_client list \<Rightarrow> u32 \<Rightarrow> int \<Rightarrow> nat \<times> ntp_rate_client list" where
  "find_or_allocate_client cs ip now_us =
     (case find_slot cs ip 0 0 APP_NTP_MAX_CLIENTS of
        Existing i \<Rightarrow> (i, cs)
      | Fresh i \<Rightarrow> (i, cs[i := fresh_client ip now_us])
      | Evict i \<Rightarrow> (i, cs[i := fresh_client ip now_us]))"

definition ntp_rate_limit_init :: "ntp_rate_client list" where
  "ntp_rate_limit_init = replicate APP_NTP_MAX_CLIENTS zero_client"

text \<open>The result: may the request be served, must a RATE kiss-o'-death be sent, and the table.\<close>

definition ntp_rate_limit_allow ::
  "ntp_rate_client list \<Rightarrow> u32 \<Rightarrow> int \<Rightarrow> (bool \<times> bool) \<times> ntp_rate_client list" where
  "ntp_rate_limit_allow cs ip now_us =
     (let (i, cs) = find_or_allocate_client cs ip now_us;
          client = (refill_client (cs ! i) now_us)\<lparr>last_seen_us := now_us\<rparr>
      in if tokens client > 0
         then ((True, False), cs[i := client\<lparr>tokens := tokens client - 1\<rparr>])
         else ((False, True), cs[i := client]))"

subsection \<open>Which slot the search finds\<close>

definition table_ok :: "ntp_rate_client list \<Rightarrow> bool" where
  "table_ok cs \<longleftrightarrow>
     length cs = APP_NTP_MAX_CLIENTS \<and>
     (\<forall>i j. i < j \<longrightarrow> j < 32 \<longrightarrow> in_use (cs ! j) \<longrightarrow> in_use (cs ! i)) \<and>
     (\<forall>i j. i < 32 \<longrightarrow> j < 32 \<longrightarrow> in_use (cs ! i) \<longrightarrow> in_use (cs ! j) \<longrightarrow>
        client_ipv4 (cs ! i) = client_ipv4 (cs ! j) \<longrightarrow> i = j) \<and>
     (\<forall>c \<in> set cs. tokens c \<le> APP_NTP_RATE_BURST)"

lemma table_prefix: "table_ok cs \<Longrightarrow> i < j \<Longrightarrow> j < 32 \<Longrightarrow> in_use (cs ! j) \<Longrightarrow> in_use (cs ! i)"
  unfolding table_ok_def by blast

lemma table_unique:
  "table_ok cs \<Longrightarrow> i < 32 \<Longrightarrow> j < 32 \<Longrightarrow> in_use (cs ! i) \<Longrightarrow> in_use (cs ! j) \<Longrightarrow>
     client_ipv4 (cs ! i) = client_ipv4 (cs ! j) \<Longrightarrow> i = j"
  unfolding table_ok_def by blast

lemma table_tokens: "table_ok cs \<Longrightarrow> i < 32 \<Longrightarrow> tokens (cs ! i) \<le> 8"
  unfolding table_ok_def by simp

lemma find_slot_cases:
  assumes "find_slot cs ip oldest index k = ch"
    and "oldest < index \<or> index = 0 \<and> oldest = 0 \<and> 0 < k"
    and "\<forall>j < index. in_use (cs ! j) \<and> client_ipv4 (cs ! j) \<noteq> ip \<and>
           last_seen_us (cs ! oldest) \<le> last_seen_us (cs ! j)"
  shows "(case ch of
      Existing i \<Rightarrow> i < index + k \<and> in_use (cs ! i) \<and> client_ipv4 (cs ! i) = ip
    | Fresh i \<Rightarrow> i < index + k \<and> \<not> in_use (cs ! i) \<and>
        (\<forall>j < i. in_use (cs ! j) \<and> client_ipv4 (cs ! j) \<noteq> ip)
    | Evict i \<Rightarrow> i < index + k \<and>
        (\<forall>j < index + k. in_use (cs ! j) \<and> client_ipv4 (cs ! j) \<noteq> ip \<and>
           last_seen_us (cs ! i) \<le> last_seen_us (cs ! j)))"
  using assms
proof (induction k arbitrary: oldest index)
  case 0
  then show ?case by auto
next
  case (Suc k)
  show ?case
  proof (cases "in_use (cs ! index) \<and> client_ipv4 (cs ! index) \<noteq> ip")
    case True
    let ?oldest = "if last_seen_us (cs ! index) < last_seen_us (cs ! oldest) then index else oldest"
    have "find_slot cs ip ?oldest (Suc index) k = ch"
      using Suc.prems(1) True by (simp add: Let_def)
    moreover have "?oldest < Suc index \<or> Suc index = 0 \<and> ?oldest = 0 \<and> 0 < k"
      using Suc.prems(2) by auto
    moreover have "\<forall>j < Suc index. in_use (cs ! j) \<and> client_ipv4 (cs ! j) \<noteq> ip \<and>
        last_seen_us (cs ! ?oldest) \<le> last_seen_us (cs ! j)"
      using Suc.prems(2,3) True by (auto simp: less_Suc_eq)
    ultimately show ?thesis
      using Suc.IH [of ?oldest "Suc index"] by (cases ch) auto
  next
    case False
    then show ?thesis using Suc.prems by (auto simp: Let_def)
  qed
qed

lemma find_slot_Existing:
  "find_slot cs ip 0 0 32 = Existing i \<Longrightarrow> i < 32 \<and> in_use (cs ! i) \<and> client_ipv4 (cs ! i) = ip"
  by (drule find_slot_cases) auto

lemma find_slot_Fresh:
  "find_slot cs ip 0 0 32 = Fresh i \<Longrightarrow>
     i < 32 \<and> \<not> in_use (cs ! i) \<and> (\<forall>j < i. in_use (cs ! j) \<and> client_ipv4 (cs ! j) \<noteq> ip)"
  by (drule find_slot_cases) auto

lemma find_slot_Evict:
  "find_slot cs ip 0 0 32 = Evict i \<Longrightarrow>
     i < 32 \<and> (\<forall>j < 32. in_use (cs ! j) \<and> client_ipv4 (cs ! j) \<noteq> ip \<and>
       last_seen_us (cs ! i) \<le> last_seen_us (cs ! j))"
  by (drule find_slot_cases) auto

lemma find_slot_existing_iff:
  assumes "table_ok cs"
  shows "(\<exists>i. find_slot cs ip 0 0 32 = Existing i) \<longleftrightarrow>
    (\<exists>i < 32. in_use (cs ! i) \<and> client_ipv4 (cs ! i) = ip)"
proof
  assume "\<exists>i < 32. in_use (cs ! i) \<and> client_ipv4 (cs ! i) = ip"
  then obtain i where i: "i < 32" "in_use (cs ! i)" "client_ipv4 (cs ! i) = ip" by blast
  show "\<exists>i. find_slot cs ip 0 0 32 = Existing i"
  proof (cases "find_slot cs ip 0 0 32")
    case (Fresh j)
    then have "\<not> in_use (cs ! j)" "j \<noteq> i"
      using i find_slot_Fresh [OF Fresh] by auto
    then have "j < i \<or> i < j" by linarith
    then show ?thesis
      using assms i find_slot_Fresh [OF Fresh] by (auto simp: table_ok_def)
  qed (use i find_slot_Evict in blast)+
qed (use find_slot_Existing in blast)

subsection \<open>One request\<close>

lemma in_use_fresh [simp]: "in_use (fresh_client ip now)" "client_ipv4 (fresh_client ip now) = ip"
  "tokens (fresh_client ip now) = 8" "last_refill_us (fresh_client ip now) = now"
  by (simp_all add: fresh_client_def)

lemma refill_client_frame [simp]:
  "in_use (refill_client c now) = in_use c" "client_ipv4 (refill_client c now) = client_ipv4 c"
  by (simp_all add: refill_client_def Let_def)

lemma refill_client_tokens:
  assumes "tokens c \<le> 8"
  shows "tokens (refill_client c now) \<le> 8"
proof -
  have "ucast (if x > 8 then 8 else x) \<le> (8 :: u32)" for x :: u64
    by (auto simp: word_le_nat_alt word_less_nat_alt unsigned_ucast_eq take_bit_nat_less_eq_self
        intro: order_trans [OF take_bit_nat_less_eq_self])
  then show ?thesis
    using assms by (auto simp: refill_client_def Let_def)
qed

text \<open>
  What \<open>find_or_allocate_client\<close> returns: the client's own bucket when it has one, a fresh
  bucket in the first free slot otherwise, and the least recently seen slot when none is free.
\<close>

lemma find_or_allocate_spec:
  assumes "table_ok cs" and "find_or_allocate_client cs ip now = (i, cs')"
  shows "i < 32 \<and> length cs' = 32 \<and> in_use (cs' ! i) \<and> client_ipv4 (cs' ! i) = ip \<and>
    (\<forall>j < 32. j \<noteq> i \<longrightarrow> cs' ! j = cs ! j) \<and>
    (cs' ! i = cs ! i \<or> cs' ! i = fresh_client ip now \<and>
      (\<forall>j < 32. \<not> (in_use (cs ! j) \<and> client_ipv4 (cs ! j) = ip)) \<and>
      (\<forall>j < i. in_use (cs ! j)))"
proof (cases "find_slot cs ip 0 0 32")
  case (Existing k)
  then show ?thesis
    using assms find_slot_Existing [OF Existing]
    by (auto simp: find_or_allocate_client_def table_ok_def)
next
  case (Fresh k)
  then have "\<not> (\<exists>j. find_slot cs ip 0 0 32 = Existing j)" by simp
  then have "\<forall>j < 32. \<not> (in_use (cs ! j) \<and> client_ipv4 (cs ! j) = ip)"
    using find_slot_existing_iff [OF assms(1)] by blast
  then show ?thesis
    using Fresh assms find_slot_Fresh [OF Fresh]
    by (auto simp: find_or_allocate_client_def table_ok_def)
next
  case (Evict k)
  then show ?thesis
    using assms find_slot_Evict [OF Evict]
    by (auto simp: find_or_allocate_client_def table_ok_def)
qed

lemma allow_unfold:
  assumes "find_or_allocate_client cs ip now = (i, cs')"
  shows "ntp_rate_limit_allow cs ip now =
    (let c = (refill_client (cs' ! i) now)\<lparr>last_seen_us := now\<rparr>
     in if tokens c > 0 then ((True, False), cs'[i := c\<lparr>tokens := tokens c - 1\<rparr>])
        else ((False, True), cs'[i := c]))"
  using assms by (simp add: ntp_rate_limit_allow_def Let_def)

lemma table_ok_update:
  assumes ok: "table_ok cs" and len: "length cs' = 32" and i: "i < 32"
    and others: "\<forall>j < 32. j \<noteq> i \<longrightarrow> cs' ! j = cs ! j"
    and new: "in_use (cs' ! i)" "tokens (cs' ! i) \<le> 8"
    and ip: "in_use (cs ! i) \<and> client_ipv4 (cs' ! i) = client_ipv4 (cs ! i) \<or>
      (\<forall>j < 32. \<not> (in_use (cs ! j) \<and> client_ipv4 (cs ! j) = client_ipv4 (cs' ! i))) \<and>
      (\<forall>j < i. in_use (cs ! j))"
  shows "table_ok cs'"
proof -
  have pre: "in_use (cs ! j)" if "j < i" for j
    using ip that table_prefix [OF ok that i] by blast
  have mono: "in_use (cs' ! j)" if "in_use (cs ! j)" "j < 32" for j
    using that others new by (cases "j = i") auto
  have clash: "j = i" if "j < 32" "in_use (cs ! j)" "client_ipv4 (cs ! j) = client_ipv4 (cs' ! i)" for j
    using ip that i table_unique [OF ok that(1) i] by auto
  have "in_use (cs' ! j)" if "j < k" "k < 32" "in_use (cs' ! k)" for j k
  proof (cases "k = i")
    case True
    then show ?thesis using that pre mono i by simp
  next
    case False
    then show ?thesis using that others mono table_prefix [OF ok that(1,2)] by simp
  qed
  moreover have "j = k" if "j < 32" "k < 32" "in_use (cs' ! j)" "in_use (cs' ! k)"
    "client_ipv4 (cs' ! j) = client_ipv4 (cs' ! k)" for j k
  proof (cases "j = i")
    case True
    then show ?thesis using that others clash [of k] by (cases "k = i") auto
  next
    case False
    then show ?thesis
      using that others clash [of j] table_unique [OF ok that(1,2)] by (cases "k = i") auto
  qed
  moreover have "tokens (cs' ! j) \<le> 8" if "j < 32" for j
    using that table_tokens [OF ok that] others new(2) by (cases "j = i") auto
  then have "\<forall>c \<in> set cs'. tokens c \<le> 8"
    using len by (auto simp: in_set_conv_nth)
  ultimately show ?thesis
    using len unfolding table_ok_def by blast
qed

lemma table_ok_allow:
  assumes "table_ok cs"
  shows "table_ok (snd (ntp_rate_limit_allow cs ip now))"
proof -
  obtain i cs' where f: "find_or_allocate_client cs ip now = (i, cs')" by (cases "find_or_allocate_client cs ip now")
  note spec = find_or_allocate_spec [OF assms f]
  have t8: "tokens (cs' ! i) \<le> 8"
    using spec table_tokens [OF assms] in_use_fresh(3) [of ip now] by (metis order_refl)
  have "table_ok (cs'[i := c])" if "in_use c" "client_ipv4 c = ip" "tokens c \<le> 8" for c
  proof (rule table_ok_update [OF assms, of _ i])
    show "in_use (cs ! i) \<and> client_ipv4 (cs'[i := c] ! i) = client_ipv4 (cs ! i) \<or>
      (\<forall>j < 32. \<not> (in_use (cs ! j) \<and> client_ipv4 (cs ! j) = client_ipv4 (cs'[i := c] ! i))) \<and>
      (\<forall>j < i. in_use (cs ! j))"
      using spec that by auto
  qed (use spec that in auto)
  moreover have "tokens (refill_client (cs' ! i) now) - 1 \<le> 8"
    if "0 < tokens (refill_client (cs' ! i) now)"
    using refill_client_tokens [OF t8, of now] that by unat_arith
  ultimately show ?thesis
    using spec refill_client_tokens [OF t8, of now]
    by (auto simp: allow_unfold [OF f] Let_def)
qed

lemma table_ok_init: "table_ok ntp_rate_limit_init"
  by (auto simp: table_ok_def ntp_rate_limit_init_def zero_client_def)

subsection \<open>Credit\<close>

text \<open>
  The credit of a bucket, in units of a 60,000,000th of a token: what it holds and what has
  accrued since its last refill, capped where the burst limit caps it.
\<close>

definition raw_credit :: "ntp_rate_client \<Rightarrow> int \<Rightarrow> int" where
  "raw_credit c t = 60000000 * int (unat (tokens c)) + 30 * (t - last_refill_us c)"

definition bucket_credit :: "ntp_rate_client \<Rightarrow> int \<Rightarrow> int" where
  "bucket_credit c t = min 540000000 (raw_credit c t)"

definition time_bound :: int where
  "time_bound = 2 ^ 58"

lemma tokens_to_add_eq:
  assumes "0 < e" "e < time_bound"
  shows "unat (((word_of_int e :: u64) * 30) div 60000000) = nat (30 * e) div 60000000"
proof -
  have "unat (word_of_int e :: u64) = nat e"
    using assms by (simp add: time_bound_def unat_eq_nat_uint uint_word_of_int)
  moreover have "nat e * 30 < 2 ^ 64" using assms by (simp add: time_bound_def)
  ultimately have "unat ((word_of_int e :: u64) * 30) = nat e * 30"
    by (subst unat_mult_lem [THEN iffD1]) simp_all
  moreover have "nat (30 * e) = nat e * 30" using assms by simp
  ultimately show ?thesis by (simp add: unat_div)
qed

lemma credit_arith:
  fixes a b q n l now :: int
  assumes "60000000 * q \<le> n" "a \<le> b + q" "a \<le> 8" "n = 30 * (now - l)" "0 < l" "l \<le> now"
  shows "60000000 * a + 30 * (now - now) \<le> 60000000 * b + 30 * (now - l) \<and>
    60000000 * a + 30 * (now - now) < 540000000 \<and> 0 < now \<and> now \<le> now"
  using assms by auto

lemma refill_credit:
  assumes "tokens c \<le> 8" "0 < last_refill_us c" "last_refill_us c \<le> now" "now < time_bound"
  shows "raw_credit (refill_client c now) now \<le> raw_credit c now"
    "raw_credit (refill_client c now) now < 540000000"
    "0 < last_refill_us (refill_client c now)" "last_refill_us (refill_client c now) \<le> now"
proof -
  let ?e = "now - last_refill_us c"
  let ?add = "((word_of_int ?e :: u64) * 30) div 60000000"
  let ?c = "refill_client c now"
  have t8: "unat (tokens c) \<le> 8" using assms(1) by (simp add: word_le_nat_alt)
  moreover have "uint (tokens c) = int (unat (tokens c))" by simp
  ultimately have i8: "uint (tokens c) \<le> 8" by linarith
  have goal: "raw_credit ?c now \<le> raw_credit c now \<and> raw_credit ?c now < 540000000 \<and>
    0 < last_refill_us ?c \<and> last_refill_us ?c \<le> now"
  proof (cases "0 < ?e")
    case False
    then have "?c = c" and "now = last_refill_us c"
      using assms by (auto simp: refill_client_def Let_def)
    then show ?thesis using assms i8 by (simp add: raw_credit_def)
  next
    case True
    have add: "unat ?add = nat (30 * ?e) div 60000000"
      using True assms by (intro tokens_to_add_eq) auto
    show ?thesis
    proof (cases "?add = 0")
      case True
      then have "nat (30 * ?e) div 60000000 = 0" using add by simp
      then have "30 * ?e < 60000000" by linarith
      moreover have "?c = c" using True assms by (auto simp: refill_client_def Let_def)
      ultimately show ?thesis using assms i8 by (simp add: raw_credit_def)
    next
      case False
      let ?u = "ucast (tokens c) + ?add"
      let ?m = "if ?u > 8 then 8 else ?u"
      have c: "?c = c\<lparr>tokens := ucast ?m, last_refill_us := now\<rparr>"
        using True False assms by (simp add: refill_client_def Let_def)
      have "nat (30 * ?e) div 60000000 < 2 ^ 60"
        using assms by (simp add: time_bound_def)
      then have u: "unat ?u = unat (tokens c) + nat (30 * ?e) div 60000000"
        using t8 add by (simp add: unat_word_ariths unsigned_ucast_eq take_bit_nat_eq_self)
      have "unat ?m \<le> 8" and "unat ?m \<le> unat ?u"
        by (auto simp: word_less_nat_alt)
      moreover have "unat (ucast ?m :: u32) = unat ?m"
        using \<open>unat ?m \<le> 8\<close> by (simp add: unsigned_ucast_eq take_bit_nat_eq_self)
      ultimately have m: "unat (tokens ?c) \<le> 8"
        "unat (tokens ?c) \<le> unat (tokens c) + nat (30 * ?e) div 60000000"
        using u by (simp_all add: c)
      obtain N where N: "int N = 30 * ?e" "nat (30 * ?e) = N"
        using True by (metis int_nat_eq less_imp_le mult_nonneg_nonneg zero_le_numeral)
      have "60000000 * (N div 60000000) \<le> N" by simp
      then have "60000000 * int (N div 60000000) \<le> int N"
        by (metis of_nat_le_iff of_nat_mult of_nat_numeral)
      moreover have "int (unat (tokens ?c)) \<le> int (unat (tokens c)) + int (N div 60000000)"
        "int (unat (tokens ?c)) \<le> 8"
        using m [unfolded N(2)] by linarith+
      moreover have "last_refill_us ?c = now" by (simp add: c)
      ultimately show ?thesis
        unfolding raw_credit_def using N(1) assms by (metis credit_arith)
    qed
  qed
  then show "raw_credit ?c now \<le> raw_credit c now" "raw_credit ?c now < 540000000"
    "0 < last_refill_us ?c" "last_refill_us ?c \<le> now" by simp_all
qed

subsection \<open>The table as a credit scheme\<close>

definition find_bucket :: "ntp_rate_client list \<Rightarrow> u32 \<Rightarrow> ntp_rate_client option" where
  "find_bucket cs ip = find (\<lambda>c. in_use c \<and> client_ipv4 c = ip) cs"

definition client_credit :: "u32 \<Rightarrow> ntp_rate_client list \<Rightarrow> int \<Rightarrow> int" where
  "client_credit ip cs t =
     (case find_bucket cs ip of None \<Rightarrow> 480000000 | Some c \<Rightarrow> bucket_credit c t)"

text \<open>
  The state of a run at time \<open>t\<close>: a well-formed table whose buckets were refilled no later than
  \<open>t\<close> and whose clients all belong to the population \<open>S\<close>.
\<close>

definition run_ok :: "u32 set \<Rightarrow> ntp_rate_client list \<Rightarrow> int \<Rightarrow> bool" where
  "run_ok S cs t \<longleftrightarrow> table_ok cs \<and> 0 < t \<and>
     (\<forall>j < 32. in_use (cs ! j) \<longrightarrow>
        client_ipv4 (cs ! j) \<in> S \<and> 0 < last_refill_us (cs ! j) \<and> last_refill_us (cs ! j) \<le> t)"

definition serve :: "ntp_rate_client list \<Rightarrow> u32 \<times> int \<Rightarrow> bool \<times> ntp_rate_client list" where
  "serve cs r = (let ((allowed, kod), cs') = ntp_rate_limit_allow cs (fst r) (snd r) in (allowed, cs'))"

lemma find_bucket_Some:
  assumes "table_ok cs" "i < 32" "in_use (cs ! i)" "client_ipv4 (cs ! i) = ip"
  shows "find_bucket cs ip = Some (cs ! i)"
proof -
  have "\<not> (in_use (cs ! j) \<and> client_ipv4 (cs ! j) = ip)" if "j < i" for j
    using that assms table_unique [OF assms(1), of j i] by auto
  moreover have "i < length cs" using assms by (simp add: table_ok_def)
  ultimately show ?thesis
    using assms unfolding find_bucket_def find_Some_iff by blast
qed

lemma find_bucket_None:
  assumes "table_ok cs" "\<forall>j < 32. \<not> (in_use (cs ! j) \<and> client_ipv4 (cs ! j) = ip)"
  shows "find_bucket cs ip = None"
  using assms by (auto simp: find_bucket_def find_None_iff in_set_conv_nth table_ok_def)

lemma find_bucket_same:
  assumes "table_ok cs" "table_ok cs'"
    and "\<forall>j < 32. (in_use (cs ! j) \<and> client_ipv4 (cs ! j) = ip) \<longleftrightarrow>
      (in_use (cs' ! j) \<and> client_ipv4 (cs' ! j) = ip)"
    and "\<forall>j < 32. in_use (cs ! j) \<and> client_ipv4 (cs ! j) = ip \<longrightarrow> cs' ! j = cs ! j"
  shows "find_bucket cs' ip = find_bucket cs ip"
proof (cases "\<exists>j < 32. in_use (cs ! j) \<and> client_ipv4 (cs ! j) = ip")
  case True
  then obtain j where "j < 32" "in_use (cs ! j)" "client_ipv4 (cs ! j) = ip" by blast
  then show ?thesis
    using find_bucket_Some [OF assms(1)] find_bucket_Some [OF assms(2)] assms(3,4) by metis
next
  case False
  then show ?thesis
    using find_bucket_None [OF assms(1)] find_bucket_None [OF assms(2)] assms(3) by metis
qed

text \<open>A population of at most 32 addresses never needs an eviction.\<close>

lemma no_eviction:
  assumes "run_ok S cs t" "ip \<in> S" "finite S" "card S \<le> 32"
  shows "find_slot cs ip 0 0 32 \<noteq> Evict i"
proof
  assume "find_slot cs ip 0 0 32 = Evict i"
  then have all: "\<forall>j < 32. in_use (cs ! j) \<and> client_ipv4 (cs ! j) \<noteq> ip"
    using find_slot_Evict by blast
  have ok: "table_ok cs" using assms(1) by (simp add: run_ok_def)
  let ?f = "\<lambda>j. client_ipv4 (cs ! j)"
  have "inj_on ?f {..<32}"
    using all table_unique [OF ok] by (intro inj_onI) auto
  then have "card (?f ` {..<32}) = 32" by (simp add: card_image)
  moreover have "?f ` {..<32} \<subseteq> S - {ip}" using all assms(1) by (auto simp: run_ok_def)
  then have "card (?f ` {..<32}) \<le> card (S - {ip})" using assms(3) by (intro card_mono) auto
  ultimately show False using assms(2,3,4) by simp
qed

lemma bucket_credit_later: "t \<le> t' \<Longrightarrow> bucket_credit c t' \<le> bucket_credit c t + 30 * (t' - t)"
  by (simp add: bucket_credit_def raw_credit_def)

text \<open>One request without an eviction: which slot changes, and into what.\<close>

lemma serve_slot:
  assumes ok: "run_ok S cs t" and S: "ip \<in> S" "finite S" "card S \<le> 32"
    and now: "t \<le> now" "now < time_bound"
  obtains i c where "i < 32"
    and "in_use (cs ! i) \<and> client_ipv4 (cs ! i) = ip \<and> c = cs ! i \<or>
         \<not> in_use (cs ! i) \<and> c = fresh_client ip now \<and> find_bucket cs ip = None"
    and "in_use c" "client_ipv4 c = ip" "tokens c \<le> 8" "0 < last_refill_us c" "last_refill_us c \<le> now"
    and "ntp_rate_limit_allow cs ip now =
      (let c' = (refill_client c now)\<lparr>last_seen_us := now\<rparr>
       in if tokens c' > 0 then ((True, False), cs[i := c'\<lparr>tokens := tokens c' - 1\<rparr>])
          else ((False, True), cs[i := c']))"
proof -
  have tab: "table_ok cs" and t: "0 < t" using ok by (auto simp: run_ok_def)
  have len: "length cs = 32" using tab by (simp add: table_ok_def)
  show thesis
  proof (cases "find_slot cs ip 0 0 32")
    case (Existing i)
    note e = find_slot_Existing [OF Existing]
    have "find_or_allocate_client cs ip now = (i, cs)"
      using Existing by (simp add: find_or_allocate_client_def)
    then show thesis
      using e ok now table_tokens [OF tab, of i]
      by (intro that [of i "cs ! i"]) (auto simp: allow_unfold run_ok_def)
  next
    case (Fresh i)
    note f = find_slot_Fresh [OF Fresh]
    have none: "\<forall>j < 32. \<not> (in_use (cs ! j) \<and> client_ipv4 (cs ! j) = ip)"
      using Fresh find_slot_existing_iff [OF tab, of ip] by auto
    have "find_or_allocate_client cs ip now = (i, cs[i := fresh_client ip now])"
      using Fresh by (simp add: find_or_allocate_client_def)
    then have "ntp_rate_limit_allow cs ip now =
      (let c' = (refill_client (fresh_client ip now) now)\<lparr>last_seen_us := now\<rparr>
       in if tokens c' > 0 then ((True, False), cs[i := c'\<lparr>tokens := tokens c' - 1\<rparr>])
          else ((False, True), cs[i := c']))"
      using f len by (simp add: allow_unfold Let_def)
    then show thesis
      using f t now find_bucket_None [OF tab none]
      by (intro that [of i "fresh_client ip now"]) auto
  next
    case (Evict i)
    then show thesis using no_eviction [OF ok S] by blast
  qed
qed

lemma serve_run_ok:
  assumes "run_ok S cs t" "ip \<in> S" "finite S" "card S \<le> 32" "t \<le> now" "now < time_bound"
  shows "run_ok S (snd (serve cs (ip, now))) now"
proof -
  obtain i c where ic: "i < 32"
    "in_use (cs ! i) \<and> client_ipv4 (cs ! i) = ip \<and> c = cs ! i \<or>
     \<not> in_use (cs ! i) \<and> c = fresh_client ip now \<and> find_bucket cs ip = None"
    "in_use c" "client_ipv4 c = ip" "tokens c \<le> 8" "0 < last_refill_us c" "last_refill_us c \<le> now"
    "ntp_rate_limit_allow cs ip now =
      (let c' = (refill_client c now)\<lparr>last_seen_us := now\<rparr>
       in if tokens c' > 0 then ((True, False), cs[i := c'\<lparr>tokens := tokens c' - 1\<rparr>])
          else ((False, True), cs[i := c']))"
    by (rule serve_slot [OF assms])
  have tab: "table_ok cs" using assms(1) by (simp add: run_ok_def)
  have "length cs = 32" using tab by (simp add: table_ok_def)
  then have upd: "cs[i := x] ! j = (if j = i then x else cs ! j)" if "j < 32" for j x
    using that by (simp add: nth_list_update)
  let ?cs = "snd (ntp_rate_limit_allow cs ip now)"
  have "in_use (?cs ! j) \<longrightarrow> client_ipv4 (?cs ! j) \<in> S \<and> 0 < last_refill_us (?cs ! j) \<and>
      last_refill_us (?cs ! j) \<le> now" if "j < 32" for j
    using that assms ic upd refill_credit [OF ic(5,6,7) assms(6)]
    by (auto simp: run_ok_def Let_def)
  moreover have "0 < now" using assms by (auto simp: run_ok_def)
  ultimately show ?thesis
    using table_ok_allow [OF tab, of ip now]
    by (simp add: run_ok_def serve_def Let_def case_prod_beta)
qed

lemma serve_credit:
  assumes "run_ok S cs t" "ip' \<in> S" "finite S" "card S \<le> 32" "t \<le> now" "now < time_bound"
  shows "(if ip' = ip \<and> fst (serve cs (ip', now)) then 60000000 else 0) +
      client_credit ip (snd (serve cs (ip', now))) now \<le> client_credit ip cs t + 30 * (now - t)"
proof -
  obtain i c where ic: "i < 32"
    "in_use (cs ! i) \<and> client_ipv4 (cs ! i) = ip' \<and> c = cs ! i \<or>
     \<not> in_use (cs ! i) \<and> c = fresh_client ip' now \<and> find_bucket cs ip' = None"
    "in_use c" "client_ipv4 c = ip'" "tokens c \<le> 8" "0 < last_refill_us c" "last_refill_us c \<le> now"
    "ntp_rate_limit_allow cs ip' now =
      (let c' = (refill_client c now)\<lparr>last_seen_us := now\<rparr>
       in if tokens c' > 0 then ((True, False), cs[i := c'\<lparr>tokens := tokens c' - 1\<rparr>])
          else ((False, True), cs[i := c']))"
    by (rule serve_slot [OF assms])
  have tab: "table_ok cs" using assms(1) by (simp add: run_ok_def)
  have len: "length cs = 32" using tab by (simp add: table_ok_def)
  let ?cs = "snd (serve cs (ip', now))"
  have tab': "table_ok ?cs"
    using table_ok_allow [OF tab, of ip' now] by (simp add: serve_def Let_def case_prod_beta)
  let ?r = "refill_client c now"
  note refill = refill_credit [OF ic(5,6,7) assms(6)]
  show ?thesis
  proof (cases "ip' = ip")
    case True
    have start: "min 540000000 (raw_credit c now) \<le> client_credit ip cs t + 30 * (now - t)"
    proof (cases "in_use (cs ! i)")
      case True
      then have "find_bucket cs ip = Some c"
        using ic find_bucket_Some [OF tab ic(1)] \<open>ip' = ip\<close> by auto
      then show ?thesis
        using bucket_credit_later [OF assms(5), of c] by (simp add: client_credit_def bucket_credit_def)
    next
      case False
      then show ?thesis
        using ic assms(5) \<open>ip' = ip\<close> by (simp add: client_credit_def raw_credit_def)
    qed
    have bucket: "find_bucket ?cs ip = Some (?cs ! i)"
      using ic len True
      by (intro find_bucket_Some [OF tab' ic(1)]) (auto simp: serve_def Let_def case_prod_beta)
    have "60000000 + raw_credit (?r\<lparr>last_seen_us := now, tokens := tokens ?r - 1\<rparr>) now
        = raw_credit ?r now" if "0 < tokens ?r"
    proof -
      have "unat (tokens ?r - 1) = unat (tokens ?r) - 1" "0 < unat (tokens ?r)"
        using that by (simp_all add: unat_minus_one unat_gt_0 word_neq_0_conv)
      then have "int (unat (tokens ?r - 1)) = int (unat (tokens ?r)) - 1" by linarith
      then show ?thesis unfolding raw_credit_def by simp
    qed
    moreover have "raw_credit (?r\<lparr>last_seen_us := now\<rparr>) now = raw_credit ?r now"
      by (simp add: raw_credit_def)
    ultimately show ?thesis
      using start refill(1,2) ic(1,8) len True bucket
      by (auto simp: serve_def Let_def case_prod_beta client_credit_def bucket_credit_def)
  next
    case False
    have "find_bucket ?cs ip = find_bucket cs ip"
      using ic len False
      by (intro find_bucket_same [OF tab tab'])
        (auto simp: serve_def Let_def case_prod_beta nth_list_update)
    then show ?thesis
      using False bucket_credit_later [OF assms(5)] assms(5)
      by (auto simp: client_credit_def split: option.splits)
  qed
qed

definition population :: "u32 set \<Rightarrow> u32 \<times> int \<Rightarrow> bool" where
  "population S r \<longleftrightarrow> fst r \<in> S \<and> finite S \<and> card S \<le> 32 \<and> snd r < time_bound"

interpretation rate: credit_scheme "run_ok S" "population S" serve snd "\<lambda>r. fst r = ip"
  "client_credit ip" 60000000 30 for S :: "u32 set" and ip :: u32
proof unfold_locales
  fix cs t and r :: "u32 \<times> int"
  assume a: "run_ok S cs t" "population S r" "t \<le> snd r"
  then show "run_ok S (snd (serve cs r)) (snd r)"
    using serve_run_ok [of S cs t "fst r" "snd r"] by (simp add: population_def)
  show "(if fst r = ip \<and> fst (serve cs r) then 60000000 else 0) +
      client_credit ip (snd (serve cs r)) (snd r) \<le> client_credit ip cs t + 30 * (snd r - t)"
    using a serve_credit [of S cs t "fst r" "snd r" ip] by (simp add: population_def)
next
  fix cs t
  assume a: "run_ok S cs t"
  have "0 \<le> bucket_credit c t" if "find_bucket cs ip = Some c" for c
    using that a
    by (auto simp: find_bucket_def find_Some_iff run_ok_def table_ok_def bucket_credit_def raw_credit_def)
  then show "0 \<le> client_credit ip cs t"
    by (simp add: client_credit_def split: option.split)
qed

lemma client_credit_cap: "client_credit ip cs t \<le> 540000000"
  by (simp add: client_credit_def bucket_credit_def split: option.split)

lemma run_ok_init: "0 < t \<Longrightarrow> run_ok S ntp_rate_limit_init t"
  by (simp add: run_ok_def table_ok_init) (simp add: ntp_rate_limit_init_def zero_client_def)

lemma run_ok_later: "run_ok S cs t \<Longrightarrow> t \<le> t' \<Longrightarrow> run_ok S cs t'"
  by (fastforce simp: run_ok_def)

definition grants :: "u32 \<Rightarrow> (u32 \<times> int) list \<Rightarrow> bool list \<Rightarrow> int" where
  "grants ip rs outs = int (length (filter (\<lambda>(r, g). fst r = ip \<and> g) (zip rs outs)))"

lemma window_arith: "60000000 * g \<le> 540000000 + 30 * d \<Longrightarrow> g \<le> 9 + (30 * d) div 60000000"
  for g d :: int
  by linarith

lemma grants_rate: "grants ip rs (fst (run_steps serve cs rs)) = rate.granted ip cs rs"
  by (simp add: grants_def rate.granted_def)

subsection \<open>Patient clients\<close>

text \<open>Every bucket was last refilled no later than some request of its client.\<close>

definition seen_by :: "(u32 \<times> int) set \<Rightarrow> ntp_rate_client list \<Rightarrow> bool" where
  "seen_by H cs \<longleftrightarrow> table_ok cs \<and>
     (\<forall>j < 32. in_use (cs ! j) \<longrightarrow>
        (\<exists>t. (client_ipv4 (cs ! j), t) \<in> H \<and> 0 < last_refill_us (cs ! j) \<and> last_refill_us (cs ! j) \<le> t))"

lemma refill_last: "last_refill_us c \<le> now \<Longrightarrow> 0 < last_refill_us c \<Longrightarrow>
    0 < last_refill_us (refill_client c now) \<and> last_refill_us (refill_client c now) \<le> now"
  by (simp add: refill_client_def Let_def)

lemma seen_by_allow:
  assumes H: "seen_by H cs" and times: "\<forall>r \<in> H. snd r \<le> now" "0 < now"
  shows "seen_by (insert (ip, now) H) (snd (ntp_rate_limit_allow cs ip now))"
proof -
  obtain i cs' where f: "find_or_allocate_client cs ip now = (i, cs')"
    by (cases "find_or_allocate_client cs ip now")
  have tab: "table_ok cs" using H by (simp add: seen_by_def)
  note spec = find_or_allocate_spec [OF tab f]
  have old: "\<exists>t. (client_ipv4 (cs ! j), t) \<in> H \<and> 0 < last_refill_us (cs ! j) \<and>
      last_refill_us (cs ! j) \<le> t" if "in_use (cs ! j)" "j < 32" for j
    using H that by (auto simp: seen_by_def)
  have slot: "0 < last_refill_us (cs' ! i) \<and> last_refill_us (cs' ! i) \<le> now"
  proof (cases "cs' ! i = cs ! i")
    case True
    then show ?thesis using spec old [of i] times(1) by fastforce
  qed (use spec times(2) in auto)
  have "\<exists>t. (client_ipv4 (cs'[i := c] ! j), t) \<in> insert (ip, now) H \<and>
      0 < last_refill_us (cs'[i := c] ! j) \<and> last_refill_us (cs'[i := c] ! j) \<le> t"
    if "j < 32" "in_use (cs'[i := c] ! j)" "client_ipv4 c = ip" "0 < last_refill_us c"
      "last_refill_us c \<le> now" for j c
    using that spec old [of j] by (cases "j = i") auto
  then show ?thesis
    using table_ok_allow [OF tab, of ip now] spec refill_last [of "cs' ! i" now] slot
    by (auto simp: seen_by_def allow_unfold [OF f] Let_def)
qed

lemma seen_by_init: "seen_by H ntp_rate_limit_init"
  by (simp add: seen_by_def table_ok_init) (simp add: ntp_rate_limit_init_def zero_client_def)

lemma seen_by_run:
  assumes "seen_by H cs" "\<forall>r \<in> H. snd r \<le> t" "0 < t" "sorted (t # map snd rs)"
  shows "seen_by (set rs \<union> H) (snd (run_steps serve cs rs))"
  using assms
proof (induction rs arbitrary: cs H t)
  case Nil
  then show ?case by simp
next
  case (Cons r rs)
  have "seen_by (insert r H) (snd (serve cs r))"
    using Cons.prems seen_by_allow [of H cs "snd r" "fst r"]
    by (fastforce simp: serve_def Let_def case_prod_beta)
  then have "seen_by (set rs \<union> insert r H) (snd (run_steps serve (snd (serve cs r)) rs))"
    using Cons.prems by (intro Cons.IH [of _ _ "snd r"]) fastforce+
  then show ?case by simp
qed

lemma refill_grants:
  assumes "tokens c \<le> 8" "0 < last_refill_us c" "last_refill_us c + 2000000 \<le> now" "now < time_bound"
  shows "0 < tokens (refill_client c now)"
proof -
  let ?e = "now - last_refill_us c"
  let ?add = "((word_of_int ?e :: u64) * 30) div 60000000"
  let ?u = "ucast (tokens c) + ?add"
  have t8: "unat (tokens c) \<le> 8" using assms(1) by (simp add: word_le_nat_alt)
  have add: "unat ?add = nat (30 * ?e) div 60000000"
    using assms by (intro tokens_to_add_eq) auto
  have "60000000 \<le> nat (30 * ?e)" using assms by (subst le_nat_iff) auto
  then have "1 \<le> unat ?add" unfolding add by (simp add: Suc_le_eq div_greater_zero_iff)
  moreover have "unat ?add < 2 ^ 60" unfolding add using assms by (simp add: time_bound_def)
  moreover have "1 \<le> unat (ucast (tokens c) + a) \<and> a \<noteq> 0" if "1 \<le> unat a" "unat a < 2 ^ 60" for a :: u64
    using t8 that by (auto simp: unat_word_ariths unsigned_ucast_eq take_bit_nat_eq_self)
  ultimately have "?add \<noteq> 0" and "1 \<le> unat ?u" by blast+
  let ?m = "if ?u > 8 then 8 else ?u"
  have "1 \<le> unat ?m" "unat ?m \<le> 8"
    using \<open>1 \<le> unat ?u\<close> by (auto simp: word_less_nat_alt)
  moreover have "unat (ucast ?m :: u32) = unat ?m"
    using \<open>unat ?m \<le> 8\<close> by (simp add: unsigned_ucast_eq take_bit_nat_eq_self)
  moreover have "refill_client c now = c\<lparr>tokens := ucast ?m, last_refill_us := now\<rparr>"
    using assms \<open>?add \<noteq> 0\<close> by (simp add: refill_client_def Let_def)
  ultimately show ?thesis by (simp add: word_less_nat_alt)
qed

subsection \<open>Properties\<close>

text \<open>
  The bound needs the hypothesis on the number of addresses. With 33 of them the table is full: a new client takes the slot
  of the one seen least recently, which comes back with a full burst. Here client 1 has spent its burst (the ninth request
  is refused), 32 others send a request each, and client 1 is granted eight more within three microseconds.
\<close>

lemma eviction_refills_burst:
  "let rs = replicate 9 (1, 1) @ map (\<lambda>i. (of_nat i, 2)) [2..<34] @ replicate 8 (1, 3)
   in grants 1 rs (fst (run_steps serve ntp_rate_limit_init rs)) = 16"
  by code_simp

text \<open>
  C3: The rate limit holds. In a population of at most 32 client addresses, whatever requests
  came before, at times that are positive, in order and below 2 to the 58 microseconds,
  in any window of consecutive requests no client is granted more than nine
  requests plus one for every two seconds the window lasts (burst 8 and 30 a minute; the ninth
  is the token that had almost accrued when the window opened).
\<close>
theorem rate_limit_window:
  assumes S: "finite S" "card S \<le> 32"
    and reqs: "\<forall>r \<in> set (before @ r0 # win). fst r \<in> S \<and> 0 < snd r \<and> snd r < 2 ^ 58"
    and times: "sorted (map snd (before @ r0 # win))"
  shows "grants ip (r0 # win)
      (fst (run_steps serve (snd (run_steps serve ntp_rate_limit_init before)) (r0 # win)))
    \<le> 9 + (30 * (snd (last (r0 # win)) - snd r0)) div 60000000"
proof -
  let ?cs = "snd (run_steps serve ntp_rate_limit_init before)"
  have pop: "\<forall>r \<in> set (before @ r0 # win). population S r"
    using S reqs by (simp add: population_def time_bound_def)
  have "run_ok S ?cs (last (1 # map snd before))"
    using reqs times pop
    by (intro rate.run_inv [OF run_ok_init])
      (fastforce simp: sorted_append int_one_le_iff_zero_less)+
  moreover have "last (1 # map snd before) \<le> snd r0"
    using reqs times by (cases before rule: rev_cases) (auto simp: sorted_append)
  ultimately have "run_ok S ?cs (snd r0)" by (rule run_ok_later)
  then have bound: "60000000 * rate.granted ip ?cs (r0 # win) \<le>
      client_credit ip ?cs (snd r0) + 30 * (last (snd r0 # map snd (r0 # win)) - snd r0)"
    using pop times by (intro rate.run_bound [where S = S]) (auto simp: sorted_append)
  have last: "last (snd r0 # map snd (r0 # win)) = snd (last (r0 # win))"
    by (simp add: last_map)
  show ?thesis
    unfolding grants_rate
    by (rule window_arith, rule order_trans [OF bound [unfolded last]], rule add_right_mono,
        rule client_credit_cap)
qed

theorem rate_limit_window_witness:
  "grants 7 ((7, 2) # replicate 50 (7, 1000000))
     (fst (run_steps serve (snd (run_steps serve ntp_rate_limit_init [(9, 1)]))
        ((7, 2) # replicate 50 (7, 1000000)))) \<le> 9"
proof -
  have "sorted (map snd ([(9, 1)] @ (7, 2) # replicate 50 (7 :: u32, 1000000 :: int)))"
    by (simp add: sorted_replicate map_replicate_const)
  from rate_limit_window [OF _ _ _ this, of "{7, 9}" 7] show ?thesis
    by (simp add: last_replicate split: if_splits)
qed

text \<open>
  C8: A patient client is never refused. Whatever the table has been through, evictions
  included, a request is granted when none of the same client's earlier requests is less than
  two seconds old.
\<close>
theorem rate_limit_patient:
  assumes times: "sorted (map snd before)" "\<forall>r \<in> set before. 0 < snd r \<and> snd r \<le> now"
    and now: "0 < now" "now < 2 ^ 58"
    and patient: "\<forall>r \<in> set before. fst r = ip \<longrightarrow> snd r + 2000000 \<le> now"
  shows "fst (fst (ntp_rate_limit_allow (snd (run_steps serve ntp_rate_limit_init before)) ip now))"
proof -
  let ?cs = "snd (run_steps serve ntp_rate_limit_init before)"
  have "seen_by (set before \<union> {}) ?cs"
    using times now by (intro seen_by_run [OF seen_by_init, of _ 1]) fastforce+
  then have seen: "seen_by (set before) ?cs" by simp
  then have tab: "table_ok ?cs" by (simp add: seen_by_def)
  obtain i cs' where f: "find_or_allocate_client ?cs ip now = (i, cs')"
    by (cases "find_or_allocate_client ?cs ip now")
  note spec = find_or_allocate_spec [OF tab f]
  have "0 < tokens (refill_client (cs' ! i) now)"
  proof (cases "cs' ! i = ?cs ! i")
    case True
    then obtain t where t: "(ip, t) \<in> set before" "0 < last_refill_us (cs' ! i)"
      "last_refill_us (cs' ! i) \<le> t"
      using seen spec by (auto simp: seen_by_def)
    then show ?thesis
      using True spec table_tokens [OF tab] patient now
      by (intro refill_grants) (auto simp: time_bound_def)
  next
    case False
    then show ?thesis
      using spec now by (auto simp: refill_client_def)
  qed
  then show ?thesis by (simp add: allow_unfold [OF f] Let_def)
qed

theorem rate_limit_patient_witness:
  "fst (fst (ntp_rate_limit_allow
     (snd (run_steps serve ntp_rate_limit_init [(7, 5), (9, 6), (7, 10)])) 7 2000010))"
  by (rule rate_limit_patient) simp_all

text \<open>
  The table stays sound under every sequence of requests: 32 slots, the used ones a prefix
  (so the scan never stops at a free slot before a client's own bucket), one bucket per client
  address, at most eight tokens in each.
\<close>
theorem rate_limit_table_invariant: "table_ok (snd (run_steps serve ntp_rate_limit_init rs))"
  by (rule run_steps_invariant [where I = table_ok])
    (simp_all add: table_ok_init table_ok_allow serve_def Let_def case_prod_beta)

end
