(* ===== verification/Binary64.thy ===== *)
theory Binary64
  imports Interfaces Complex_Main "HOL-Library.Log_Nat"
begin

text \<open>
  C's \<open>double\<close>. A finite double is the rational it denotes, and every arithmetic operation of the
  code is the exact operation followed by \<open>b64\<close>, the IEEE 754 rounding to binary64 (nearest, ties
  to even, with gradual underflow). No value of the clock code comes near the overflow threshold
  (all start from 64-bit integers), so infinities and NaNs do not occur. The locale \<open>rounding\<close> is
  what the clock's proofs use of it; \<open>b64\<close> is an instance.
\<close>

subsection \<open>What the clients rely on\<close>

locale rounding =
  fixes fl :: "rat \<Rightarrow> rat"
  assumes mono: "x \<le> y \<Longrightarrow> fl x \<le> fl y"
    and exact: "\<bar>m\<bar> \<le> 2 ^ 53 \<Longrightarrow> -1074 \<le> e \<Longrightarrow> fl (of_int m * 2 powi e) = of_int m * 2 powi e"
    and representable: "\<exists>m e. \<bar>m\<bar> \<le> 2 ^ 53 \<and> -1074 \<le> e \<and> fl x = of_int m * 2 powi e"
begin

lemma of_int_exact: "\<bar>n\<bar> \<le> 2 ^ 53 \<Longrightarrow> fl (of_int n) = of_int n"
  using exact [of n 0] by simp

lemma zero [simp]: "fl 0 = 0"
  using of_int_exact [of 0] by simp

lemma one [simp]: "fl 1 = 1"
  using of_int_exact [of 1] by simp

lemma nonneg: "0 \<le> x \<Longrightarrow> 0 \<le> fl x"
  using mono [of 0 x] by simp

lemma idem [simp]: "fl (fl x) = fl x"
  using representable [of x] exact by auto

lemma le_of_int: "\<bar>n\<bar> \<le> 2 ^ 53 \<Longrightarrow> x \<le> of_int n \<Longrightarrow> fl x \<le> of_int n"
  using mono [of x "of_int n"] of_int_exact [of n] by simp

lemma ge_of_int: "\<bar>n\<bar> \<le> 2 ^ 53 \<Longrightarrow> of_int n \<le> x \<Longrightarrow> of_int n \<le> fl x"
  using mono [of "of_int n" x] of_int_exact [of n] by simp

text \<open>A double minus its integer part is exact, and a fraction of one.\<close>

lemma frac_exact:
  assumes u: "fl u = u" "0 \<le> u"
  shows "fl (of_int \<lfloor>u\<rfloor>) = of_int \<lfloor>u\<rfloor>" and "fl (u - of_int \<lfloor>u\<rfloor>) = u - of_int \<lfloor>u\<rfloor>"
proof -
  obtain m e where m: "\<bar>m\<bar> \<le> 2 ^ 53" "-1074 \<le> e" "u = of_int m * 2 powi e"
    using representable [of u] u(1) by auto
  have "(0 :: rat) < 2 powi e" by (simp add: zero_less_power_int)
  then have m0: "0 \<le> m"
    using u(2) m(3) mult_neg_pos [of "of_int m" "2 powi e :: rat"] by (cases "0 \<le> m") auto
  have "fl (of_int \<lfloor>u\<rfloor>) = of_int \<lfloor>u\<rfloor> \<and> fl (u - of_int \<lfloor>u\<rfloor>) = u - of_int \<lfloor>u\<rfloor>"
  proof (cases "0 \<le> e")
    case True
    then have "u = of_int (m * 2 ^ nat e)" using m(3) by (simp add: power_int_def)
    then have eq: "of_int \<lfloor>u\<rfloor> = u" by (metis floor_of_int)
    show ?thesis unfolding eq using u by simp
  next
    case False
    define k where "k = nat (- e)"
    have ek: "2 powi e = 1 / (2 ^ k :: rat)"
      using False by (simp add: k_def power_int_def inverse_eq_divide power_one_over)
    have uk: "u = of_int m / 2 ^ k" using m(3) ek by simp
    have fl_u: "\<lfloor>u\<rfloor> = m div 2 ^ k"
      unfolding uk using floor_divide_of_int_eq [of m "2 ^ k", where ?'a = rat] by simp
    have "m div 2 ^ k \<le> m" using m0 zdiv_mono2 [of m 1 "2 ^ k"] by simp
    then have "\<bar>\<lfloor>u\<rfloor>\<bar> \<le> 2 ^ 53" using m(1) m0 fl_u by (simp add: pos_imp_zdiv_nonneg_iff)
    then have one: "fl (of_int \<lfloor>u\<rfloor>) = of_int \<lfloor>u\<rfloor>" by (rule of_int_exact)
    have "u - of_int \<lfloor>u\<rfloor> = of_int (m mod 2 ^ k) / 2 ^ k"
    proof -
      have "m = (m div 2 ^ k) * 2 ^ k + m mod 2 ^ k" by (rule div_mult_mod_eq [symmetric])
      then have "of_int m = of_int (m div 2 ^ k) * 2 ^ k + (of_int (m mod 2 ^ k) :: rat)"
        by (metis of_int_add of_int_mult of_int_numeral of_int_power)
      then show ?thesis unfolding uk fl_u [unfolded uk] by (simp add: field_simps)
    qed
    moreover have "\<bar>m mod 2 ^ k\<bar> \<le> 2 ^ 53"
      using m(1) m0 zmod_le_nonneg_dividend [of m "2 ^ k"] by simp
    ultimately have "fl (u - of_int \<lfloor>u\<rfloor>) = u - of_int \<lfloor>u\<rfloor>"
      using exact [of "m mod 2 ^ k" e] m(2) by (simp add: ek)
    with one show ?thesis by simp
  qed
  then show "fl (of_int \<lfloor>u\<rfloor>) = of_int \<lfloor>u\<rfloor>" and "fl (u - of_int \<lfloor>u\<rfloor>) = u - of_int \<lfloor>u\<rfloor>"
    by simp_all
qed

end

subsection \<open>Rounding to binary64\<close>

definition ilog2 :: "rat \<Rightarrow> int" where
  "ilog2 x = (let (n, d) = quotient_of x; e = bitlen n - bitlen d
              in if 2 powi e \<le> x then e else e - 1)"

definition round_even :: "rat \<Rightarrow> int" where
  "round_even x =
     (let f = \<lfloor>x\<rfloor>; r = x - of_int f
      in if r < 1 / 2 then f else if r > 1 / 2 then f + 1 else if even f then f else f + 1)"

definition ulp_exp :: "rat \<Rightarrow> int" where
  "ulp_exp x = max (ilog2 \<bar>x\<bar>) (-1022) - 52"

definition b64 :: "rat \<Rightarrow> rat" where
  "b64 x = (if x = 0 then 0
            else of_int (round_even (x / 2 powi ulp_exp x)) * 2 powi ulp_exp x)"

lemma ilog2_bounds:
  assumes "0 < x"
  shows "2 powi (ilog2 x) \<le> x" and "x < 2 powi (ilog2 x + 1)"
proof -
  obtain n d where q: "quotient_of x = (n, d)" by (cases "quotient_of x")
  have d: "0 < d" using q by (rule quotient_of_denom_pos)
  have x: "x = of_int n / of_int d" using q by (rule quotient_of_div)
  have n: "0 < n" using assms d x by (simp add: zero_less_divide_iff)
  define a b where "a = bitlen n" and "b = bitlen d"
  have bpos: "0 < bitlen k" if "0 < k" for k
  proof (rule ccontr)
    assume "\<not> 0 < bitlen k"
    then have "nat (bitlen k) = 0" by simp
    then show False using bitlen_bounds [OF that] that by simp
  qed
  have pos: "0 < a" "0 < b" using n d by (simp_all add: a_def b_def bpos)
  have pw: "of_int (2 ^ nat k) = (2 powi k :: rat)" if "0 \<le> k" for k
    using that by (simp add: power_int_def)
  have nb: "2 powi (a - 1) \<le> (of_int n :: rat)" "(of_int n :: rat) < 2 powi a"
    using bitlen_bounds [OF n] pos pw [of "a - 1"] pw [of a]
    by (simp_all add: a_def flip: pw)
  have db: "2 powi (b - 1) \<le> (of_int d :: rat)" "(of_int d :: rat) < 2 powi b"
    using bitlen_bounds [OF d] pos pw [of "b - 1"] pw [of b]
    by (simp_all add: b_def flip: pw)
  have lo: "2 powi (a - b - 1) < x"
  proof -
    have "2 powi (a - b - 1) * of_int d < 2 powi (a - b - 1) * (2 powi b :: rat)"
      using db by simp
    also have "\<dots> = 2 powi (a - 1)" by (simp flip: power_int_add)
    finally show ?thesis using nb(1) d unfolding x by (simp add: field_simps)
  qed
  have hi: "x < 2 powi (a - b + 1)"
  proof -
    have "(of_int n :: rat) < 2 powi (a - b + 1) * 2 powi (b - 1)"
      using nb(2) by (simp flip: power_int_add)
    also have "\<dots> \<le> 2 powi (a - b + 1) * of_int d" using db by simp
    finally show ?thesis using d unfolding x by (simp add: field_simps)
  qed
  show "2 powi (ilog2 x) \<le> x" "x < 2 powi (ilog2 x + 1)"
    using lo hi by (auto simp: ilog2_def q Let_def a_def [symmetric] b_def [symmetric])
qed

lemma ilog2_eq:
  assumes "2 powi e \<le> x" "x < 2 powi (e + 1)"
  shows "ilog2 x = e"
proof -
  have "0 < x" using assms(1) zero_less_power_int [of "2 :: rat" e] by linarith
  note b = ilog2_bounds [OF this]
  have lt: "i < j" if "2 powi i < (2 powi j :: rat)" for i j
    using that power_int_increasing [of j i "2 :: rat"] by (cases "i < j") auto
  have "ilog2 x < e + 1" using b(1) assms(2) by (intro lt) linarith
  moreover have "e < ilog2 x + 1" using b(2) assms(1) by (intro lt) linarith
  ultimately show ?thesis by simp
qed

lemma round_even_of_int [simp]: "round_even (of_int n) = n"
  by (simp add: round_even_def Let_def)

lemma round_even_mono: "x \<le> y \<Longrightarrow> round_even x \<le> round_even y"
proof -
  assume le: "x \<le> y"
  show ?thesis
  proof (cases "\<lfloor>x\<rfloor> = \<lfloor>y\<rfloor>")
    case True
    then show ?thesis using le by (auto simp: round_even_def Let_def)
  next
    case False
    then have "\<lfloor>x\<rfloor> + 1 \<le> \<lfloor>y\<rfloor>" using floor_mono [OF le] by simp
    moreover have "round_even x \<le> \<lfloor>x\<rfloor> + 1" "\<lfloor>y\<rfloor> \<le> round_even y"
      by (auto simp: round_even_def Let_def)
    ultimately show ?thesis by simp
  qed
qed

lemma round_even_minus: "round_even (- x) = - round_even x"
proof (cases "of_int \<lfloor>x\<rfloor> = x")
  case True
  then show ?thesis by (metis of_int_minus round_even_of_int)
next
  case False
  then have "of_int \<lfloor>x\<rfloor> < x" using of_int_floor_le [of x] by linarith
  then have fm: "\<lfloor>- x\<rfloor> = - \<lfloor>x\<rfloor> - 1"
    by (intro floor_unique) (simp_all, linarith)
  show ?thesis unfolding round_even_def Let_def fm by (auto simp: field_simps)
qed

lemma ilog2_mono: "0 < x \<Longrightarrow> x \<le> y \<Longrightarrow> ilog2 x \<le> ilog2 y"
proof -
  assume a: "0 < x" "x \<le> y"
  have "2 powi (ilog2 x) < (2 powi (ilog2 y + 1) :: rat)"
    using ilog2_bounds(1) [OF a(1)] ilog2_bounds(2) [of y] a by linarith
  then show ?thesis
    using power_int_increasing [of "ilog2 y + 1" "ilog2 x" "2 :: rat"] by (cases "ilog2 x \<le> ilog2 y") auto
qed

lemma b64_minus: "b64 (- x) = - b64 x"
  by (simp add: b64_def ulp_exp_def round_even_minus)

lemma powi_pos [simp]: "(0 :: rat) < 2 powi e"
  by (simp add: zero_less_power_int)

lemma powi_split: "(2 :: rat) powi (a + b) = 2 powi a * 2 powi b"
  by (simp add: power_int_add)

lemma powi_of_int: "0 \<le> k \<Longrightarrow> (2 :: rat) powi k = of_int (2 ^ nat k)"
  by (simp add: power_int_def)

text \<open>On the grid of its exponent a number is a double already.\<close>

lemma b64_grid: "x = of_int n * 2 powi ulp_exp x \<Longrightarrow> b64 x = x"
proof -
  assume x: "x = of_int n * 2 powi ulp_exp x"
  have "x / 2 powi ulp_exp x = of_int n"
    by (subst x) (simp add: less_imp_neq [OF powi_pos, symmetric])
  then show ?thesis using x by (simp add: b64_def)
qed

lemma b64_powi: assumes "-1074 \<le> e" shows "b64 (2 powi e) = 2 powi e"
proof (rule b64_grid)
  have "ilog2 (2 powi e) = e" by (rule ilog2_eq) (simp_all add: powi_split)
  then have "ulp_exp (2 powi e) = max e (-1022) - 52"
    by (simp add: ulp_exp_def abs_of_pos)
  then have "0 \<le> e - ulp_exp (2 powi e)" using assms by auto
  then show "(2 :: rat) powi e = of_int (2 ^ nat (e - ulp_exp (2 powi e))) * 2 powi ulp_exp (2 powi e)"
    using powi_split [of "e - ulp_exp (2 powi e)" "ulp_exp (2 powi e)"] by (simp add: powi_of_int)
qed

lemma ulp_exp_mono: "0 < x \<Longrightarrow> x \<le> y \<Longrightarrow> ulp_exp x \<le> ulp_exp y"
  using ilog2_mono [of x y] by (simp add: ulp_exp_def)

lemma b64_same_exp: "x \<le> y \<Longrightarrow> x \<noteq> 0 \<Longrightarrow> y \<noteq> 0 \<Longrightarrow> ulp_exp x = ulp_exp y \<Longrightarrow> b64 x \<le> b64 y"
  by (simp add: b64_def divide_right_mono less_imp_le round_even_mono)

lemma b64_nonneg: "0 < x \<Longrightarrow> 0 \<le> b64 x"
  using round_even_mono [of 0 "x / 2 powi ulp_exp x"] round_even_of_int [of 0]
  by (simp add: b64_def less_imp_le)

lemma b64_le_powi:
  assumes "0 < x" "x \<le> 2 powi k" "ulp_exp x \<le> k"
  shows "b64 x \<le> 2 powi k"
proof -
  have "x / 2 powi ulp_exp x \<le> 2 powi (k - ulp_exp x)"
    using assms(2) by (simp add: power_int_diff divide_right_mono less_imp_le)
  then have "round_even (x / 2 powi ulp_exp x) \<le> 2 ^ nat (k - ulp_exp x)"
    using round_even_mono [of "x / 2 powi ulp_exp x" "of_int (2 ^ nat (k - ulp_exp x))"] assms(3)
    by (simp add: powi_of_int del: of_int_power)
  then have "of_int (round_even (x / 2 powi ulp_exp x)) \<le> (2 :: rat) powi (k - ulp_exp x)"
    using assms(3) by (simp only: powi_of_int of_int_le_iff diff_ge_0_iff_ge)
  then have "of_int (round_even (x / 2 powi ulp_exp x)) * 2 powi ulp_exp x
      \<le> (2 :: rat) powi (k - ulp_exp x) * 2 powi ulp_exp x"
    by (simp add: mult_right_mono less_imp_le)
  then show ?thesis using assms(1) by (simp add: b64_def flip: powi_split)
qed

lemma b64_ge_powi:
  assumes "2 powi k \<le> x" "ulp_exp x \<le> k"
  shows "2 powi k \<le> b64 x"
proof -
  have x: "0 < x" using assms(1) powi_pos [of k] by linarith
  have "2 powi (k - ulp_exp x) \<le> x / 2 powi ulp_exp x"
    using assms(1) by (simp add: power_int_diff divide_right_mono less_imp_le)
  then have "2 ^ nat (k - ulp_exp x) \<le> round_even (x / 2 powi ulp_exp x)"
    using round_even_mono [of "of_int (2 ^ nat (k - ulp_exp x))" "x / 2 powi ulp_exp x"] assms(2)
    by (simp add: powi_of_int del: of_int_power)
  then have "(2 :: rat) powi (k - ulp_exp x) \<le> of_int (round_even (x / 2 powi ulp_exp x))"
    using assms(2) by (simp only: powi_of_int of_int_le_iff diff_ge_0_iff_ge)
  then have "(2 :: rat) powi (k - ulp_exp x) * 2 powi ulp_exp x
      \<le> of_int (round_even (x / 2 powi ulp_exp x)) * 2 powi ulp_exp x"
    by (simp add: mult_right_mono less_imp_le)
  then show ?thesis using x by (simp add: b64_def flip: powi_split)
qed

lemma b64_mono_pos: "0 < x \<Longrightarrow> x \<le> y \<Longrightarrow> b64 x \<le> b64 y"
proof -
  assume a: "0 < x" "x \<le> y"
  show ?thesis
  proof (cases "ulp_exp x = ulp_exp y")
    case True
    then show ?thesis using a by (intro b64_same_exp) auto
  next
    case False
    then have lt: "ulp_exp x < ulp_exp y" using ulp_exp_mono [OF a] by simp
    then have uy: "ulp_exp y = ilog2 y - 52" and ix: "ilog2 x < ilog2 y"
      using a by (auto simp: ulp_exp_def max_def split: if_splits)
    have "x \<le> 2 powi (ilog2 x + 1)" using ilog2_bounds(2) [OF a(1)] by simp
    also have "\<dots> \<le> 2 powi (ilog2 y)" using ix by (intro power_int_increasing) auto
    finally have "b64 x \<le> 2 powi (ilog2 y)" using a lt uy by (intro b64_le_powi) auto
    also have "\<dots> \<le> b64 y" using a uy ilog2_bounds(1) [of y] by (intro b64_ge_powi) auto
    finally show ?thesis .
  qed
qed


lemma b64_zero [simp]: "b64 0 = 0"
  by (simp add: b64_def)

lemma b64_mono: "x \<le> y \<Longrightarrow> b64 x \<le> b64 y"
proof -
  assume le: "x \<le> y"
  consider "0 < x" | "x \<le> 0" "0 \<le> y" | "y < 0" by linarith
  then show ?thesis
  proof cases
    case 1
    then show ?thesis using le by (rule b64_mono_pos)
  next
    case 2
    have "b64 x \<le> 0" using 2 b64_nonneg [of "- x"] by (cases "x = 0") (simp_all add: b64_minus)
    moreover have "0 \<le> b64 y" using 2 b64_nonneg [of y] by (cases "y = 0") simp_all
    ultimately show ?thesis by simp
  next
    case 3
    then show ?thesis using le b64_mono_pos [of "- y" "- x"] by (simp add: b64_minus)
  qed
qed

lemma b64_exact_pos:
  assumes m: "0 < m" "m \<le> 2 ^ 53" and e: "-1074 \<le> e"
  shows "b64 (of_int m * 2 powi e) = of_int m * 2 powi e"
proof (cases "m = 2 ^ 53")
  case True
  have "of_int m * 2 powi e = (2 :: rat) powi (53 + e)"
    using True powi_split [of 53 e] powi_of_int [of 53] by simp
  then show ?thesis using b64_powi [of "53 + e"] e by simp
next
  case False
  define x where "x = (of_int m * 2 powi e :: rat)"
  have x: "0 < x" using m by (simp add: x_def)
  have "(of_int m :: rat) < 2 ^ 53" using False m by (simp add: less_le of_int_le_iff [symmetric] del: of_int_le_iff)
  then have "x < 2 powi (53 + e)" using powi_split [of 53 e] powi_of_int [of 53] by (simp add: x_def)
  then have "(2 :: rat) powi (ilog2 x) < 2 powi (53 + e)" using ilog2_bounds(1) [OF x] by linarith
  then have "ilog2 x < 53 + e"
    using power_int_increasing [of "53 + e" "ilog2 x" "2 :: rat"] by (cases "ilog2 x < 53 + e") auto
  then have u: "ulp_exp x \<le> e" using e x by (simp add: ulp_exp_def)
  have "x = of_int (m * 2 ^ nat (e - ulp_exp x)) * 2 powi ulp_exp x"
    using u powi_split [of "e - ulp_exp x" "ulp_exp x"] powi_of_int [of "e - ulp_exp x"]
    by (simp add: x_def)
  then have "b64 x = x" by (rule b64_grid)
  then show ?thesis by (simp add: x_def)
qed

lemma b64_exact:
  assumes "\<bar>m\<bar> \<le> 2 ^ 53" "-1074 \<le> e"
  shows "b64 (of_int m * 2 powi e) = of_int m * 2 powi e"
proof -
  consider "m = 0" | "0 < m" | "m < 0" by linarith
  then show ?thesis
  proof cases
    case 3
    then show ?thesis using b64_exact_pos [of "- m" e] assms by (simp add: b64_minus)
  qed (use assms b64_exact_pos [of m e] in simp_all)
qed

lemma round_even_bound:
  assumes "\<bar>x\<bar> \<le> of_int n"
  shows "\<bar>round_even x\<bar> \<le> n"
proof -
  have "round_even x \<le> round_even (of_int n)" "round_even (of_int (- n)) \<le> round_even x"
    using assms by (intro round_even_mono; simp)+
  then show ?thesis unfolding round_even_of_int by simp
qed

lemma b64_representable: "\<exists>m e. \<bar>m\<bar> \<le> 2 ^ 53 \<and> -1074 \<le> e \<and> b64 x = of_int m * 2 powi e"
proof (cases "x = 0")
  case True
  then show ?thesis by (intro exI [of _ 0]) simp
next
  case False
  then have "\<bar>x\<bar> \<le> 2 powi (ilog2 \<bar>x\<bar> + 1)" using ilog2_bounds(2) [of "\<bar>x\<bar>"] by simp
  also have "\<dots> \<le> 2 powi (53 + ulp_exp x)"
    by (rule power_int_increasing) (simp_all add: ulp_exp_def)
  also have "\<dots> = 2 ^ 53 * 2 powi ulp_exp x"
    using powi_split [of 53 "ulp_exp x"] powi_of_int [of 53] by simp
  finally have "\<bar>x / 2 powi ulp_exp x\<bar> \<le> of_int (2 ^ 53)"
    by (simp add: abs_divide divide_le_eq abs_of_pos)
  then have "\<bar>round_even (x / 2 powi ulp_exp x)\<bar> \<le> 2 ^ 53" by (rule round_even_bound)
  moreover have "-1074 \<le> ulp_exp x" by (simp add: ulp_exp_def)
  ultimately show ?thesis using False by (auto simp: b64_def)
qed

interpretation b64: rounding b64
  by unfold_locales (fact b64_mono b64_exact b64_representable)+


subsection \<open>The rounding error\<close>

lemma round_even_error: "\<bar>of_int (round_even x) - x\<bar> \<le> 1 / 2"
proof -
  have "of_int \<lfloor>x\<rfloor> \<le> x" "x < of_int \<lfloor>x\<rfloor> + 1" by linarith+
  then show ?thesis unfolding round_even_def Let_def by (auto simp: abs_le_iff)
qed

lemma b64_ulp_error: "\<bar>b64 x - x\<bar> \<le> 2 powi ulp_exp x / 2"
proof (cases "x = 0")
  case False
  let ?u = "2 powi ulp_exp x :: rat"
  have u: "0 < ?u" by simp
  have x: "x = x / ?u * ?u" using less_imp_neq [OF u] by simp
  have "b64 x - x = (of_int (round_even (x / ?u)) - x / ?u) * ?u"
    using False x by (simp add: b64_def left_diff_distrib)
  then have "\<bar>b64 x - x\<bar> = \<bar>of_int (round_even (x / ?u)) - x / ?u\<bar> * ?u"
    using u by (simp add: abs_mult)
  also have "\<dots> \<le> 1 / 2 * ?u" using round_even_error u by (intro mult_right_mono) auto
  finally show ?thesis by simp
qed simp

lemma b64_error:
  assumes "\<bar>x\<bar> \<le> 2 powi k" "-1021 \<le> k"
  shows "\<bar>b64 x - x\<bar> \<le> 2 powi (k - 54)"
proof (cases "x = 0 \<or> \<bar>x\<bar> = 2 powi k")
  case True
  then consider "x = 0" | "x = 2 powi k" | "x = - (2 powi k)" by linarith
  then have "b64 x = x"
    by cases (use assms(2) b64_powi [of k] in \<open>simp_all add: b64_minus\<close>)
  then show ?thesis by (simp add: less_imp_le)
next
  case False
  then have "2 powi (ilog2 \<bar>x\<bar>) < (2 powi k :: rat)"
    using ilog2_bounds(1) [of "\<bar>x\<bar>"] assms(1) by simp
  then have "ilog2 \<bar>x\<bar> < k"
    using power_int_increasing [of k "ilog2 \<bar>x\<bar>" "2 :: rat"] by (cases "ilog2 \<bar>x\<bar> < k") auto
  then have "ulp_exp x \<le> k - 53" using assms(2) by (simp add: ulp_exp_def)
  then have "2 powi ulp_exp x \<le> (2 powi (k - 53) :: rat)" by (intro power_int_increasing) auto
  moreover have "(2 powi (k - 53) :: rat) = 2 * 2 powi (k - 54)"
    using powi_split [of 1 "k - 54"] by simp
  ultimately show ?thesis using b64_ulp_error [of x] by linarith
qed

lemma b64_error_nat: "\<bar>x\<bar> \<le> 2 ^ n \<Longrightarrow> \<bar>b64 x - x\<bar> \<le> 2 ^ n / 2 ^ 54"
  using b64_error [of x "int n"] by (simp add: power_int_diff)

end
