(* ===== verification/App_State.thy ===== *)
theory App_State
  imports Prelude Complex_Main
begin

text \<open>
  \<open>src/main/app_state.c\<close>: the snapshot of the whole device that the components publish to and the
  diagnostics and the console read. One record, one operation per setter; the critical sections
  make each operation atomic, so an operation is a function of the state. A \<open>double\<close> is the
  rational it denotes; the host name is the contents of its character array up to the final NUL.
\<close>

datatype app_leap_indicator =
    APP_LEAP_NO_WARNING | APP_LEAP_ADD_SECOND | APP_LEAP_DELETE_SECOND | APP_LEAP_UNKNOWN

datatype app_clock_state =
    APP_CLOCK_UNSYNCHRONIZED | APP_CLOCK_ACQUIRING | APP_CLOCK_SYNCHRONIZED
  | APP_CLOCK_HOLDOVER | APP_CLOCK_FAIL_CLOSED

record app_state =
  as_initialized :: bool
  as_device_hostname :: bytes
  as_ipv4_ready :: bool
  as_gnss_valid :: bool
  as_gnss_utc_seconds :: int
  as_leap_indicator :: app_leap_indicator
  as_gnss_age_us :: int
  as_pps_valid :: bool
  as_pps_last_capture_us :: u64
  as_pps_period_us :: u32
  as_pps_jitter_us :: u32
  as_pps_edge_count :: u32
  as_pps_queue_drops :: u32
  as_pps_age_us :: int
  as_clock_state :: app_clock_state
  as_clock_solution_valid :: bool
  as_phase_error_ns :: int
  as_frequency_ppm :: rat
  as_accepted_samples :: u32
  as_rejected_samples :: u32
  as_holdover_seconds :: u32
  as_root_dispersion_16_16 :: u32

definition APP_DEVICE_HOSTNAME_MAX_LENGTH :: nat where
  "APP_DEVICE_HOSTNAME_MAX_LENGTH = 63"

definition app_state_init :: app_state where
  "app_state_init =
    \<lparr> as_initialized = True, as_device_hostname = [], as_ipv4_ready = False,
      as_gnss_valid = False, as_gnss_utc_seconds = 0, as_leap_indicator = APP_LEAP_UNKNOWN,
      as_gnss_age_us = 0,
      as_pps_valid = False, as_pps_last_capture_us = 0, as_pps_period_us = 0,
      as_pps_jitter_us = 0, as_pps_edge_count = 0, as_pps_queue_drops = 0, as_pps_age_us = 0,
      as_clock_state = APP_CLOCK_UNSYNCHRONIZED, as_clock_solution_valid = False,
      as_phase_error_ns = 0, as_frequency_ppm = 0, as_accepted_samples = 0,
      as_rejected_samples = 0, as_holdover_seconds = 0, as_root_dispersion_16_16 = 0 \<rparr>"

text \<open>\<open>snprintf\<close> with \<open>%s\<close> copies the string up to its NUL, cut to the size of the array less one.\<close>

definition c_string :: "bytes \<Rightarrow> bytes" where
  "c_string s = takeWhile (\<lambda>c. c \<noteq> 0) s"

definition app_state_set_device_hostname :: "bytes option \<Rightarrow> app_state \<Rightarrow> app_state" where
  "app_state_set_device_hostname hostname st = (case hostname of
      None \<Rightarrow> st
    | Some h \<Rightarrow> st\<lparr>as_device_hostname := take APP_DEVICE_HOSTNAME_MAX_LENGTH (c_string h)\<rparr>)"

definition app_state_set_ipv4_ready :: "bool \<Rightarrow> app_state \<Rightarrow> app_state" where
  "app_state_set_ipv4_ready ready st = st\<lparr>as_ipv4_ready := ready\<rparr>"

definition app_state_set_gnss_valid ::
    "bool \<Rightarrow> int \<Rightarrow> app_leap_indicator \<Rightarrow> int \<Rightarrow> app_state \<Rightarrow> app_state" where
  "app_state_set_gnss_valid valid utc_seconds leap_indicator age_us st =
     st\<lparr>as_gnss_valid := valid, as_gnss_utc_seconds := utc_seconds,
        as_leap_indicator := leap_indicator, as_gnss_age_us := age_us\<rparr>"

definition app_state_set_pps_status ::
    "bool \<Rightarrow> u64 \<Rightarrow> u32 \<Rightarrow> u32 \<Rightarrow> u32 \<Rightarrow> u32 \<Rightarrow> int \<Rightarrow> app_state \<Rightarrow> app_state" where
  "app_state_set_pps_status valid last_capture_us period_us jitter_us edge_count queue_drops age_us st =
     st\<lparr>as_pps_valid := valid, as_pps_last_capture_us := last_capture_us,
        as_pps_period_us := period_us, as_pps_jitter_us := jitter_us,
        as_pps_edge_count := edge_count, as_pps_queue_drops := queue_drops,
        as_pps_age_us := age_us\<rparr>"

definition app_state_set_clock_solution ::
    "app_clock_state \<Rightarrow> bool \<Rightarrow> int \<Rightarrow> rat \<Rightarrow> u32 \<Rightarrow> u32 \<Rightarrow> u32 \<Rightarrow> u32 \<Rightarrow> app_state \<Rightarrow> app_state" where
  "app_state_set_clock_solution state solution_valid phase_error_ns frequency_ppm accepted_samples
       rejected_samples holdover_seconds root_dispersion_16_16 st =
     st\<lparr>as_clock_state := state, as_clock_solution_valid := solution_valid,
        as_phase_error_ns := phase_error_ns, as_frequency_ppm := frequency_ppm,
        as_accepted_samples := accepted_samples, as_rejected_samples := rejected_samples,
        as_holdover_seconds := holdover_seconds,
        as_root_dispersion_16_16 := root_dispersion_16_16\<rparr>"

definition app_state_get_clock_state :: "app_state \<Rightarrow> app_clock_state" where
  "app_state_get_clock_state st = as_clock_state st"

text \<open>The snapshot is a copy of the whole record; \<open>False\<close> is the code's NULL argument.\<close>

definition app_state_get_snapshot :: "bool \<Rightarrow> app_state \<Rightarrow> app_state option" where
  "app_state_get_snapshot has_out st = (if has_out then Some st else None)"

text \<open>The host name always fits its array with the terminating NUL, and holds no NUL itself.\<close>

definition hostname_ok :: "app_state \<Rightarrow> bool" where
  "hostname_ok st \<longleftrightarrow> length (as_device_hostname st) \<le> APP_DEVICE_HOSTNAME_MAX_LENGTH \<and>
                     0 \<notin> set (as_device_hostname st)"

lemma c_string_no_nul: "0 \<notin> set (c_string s)"
  by (auto simp: c_string_def dest: set_takeWhileD)

lemma hostname_ok_set [intro]: "hostname_ok st \<Longrightarrow> hostname_ok (app_state_set_device_hostname h st)"
  using c_string_no_nul set_take_subset
  by (fastforce simp: hostname_ok_def app_state_set_device_hostname_def split: option.splits)

lemma hostname_ok_others [simp]:
  "hostname_ok (app_state_set_ipv4_ready r st) = hostname_ok st"
  "hostname_ok (app_state_set_gnss_valid v u l a st) = hostname_ok st"
  "hostname_ok (app_state_set_pps_status v lc p j e q a st) = hostname_ok st"
  "hostname_ok (app_state_set_clock_solution s v ph f ac rj h d st) = hostname_ok st"
  "hostname_ok app_state_init"
  by (simp_all add: hostname_ok_def app_state_set_ipv4_ready_def app_state_set_gnss_valid_def
      app_state_set_pps_status_def app_state_set_clock_solution_def app_state_init_def)

end
