(* ===== verification/Pps_Service.thy ===== *)
theory Pps_Service
  imports Prelude
begin

text \<open>
  \<open>src/main/pps_service.c\<close>: the hardware-latched pulse-per-second captures. The general purpose
  timer, the event matrix and the FreeRTOS queue are not under src/; what they answer is an
  argument of the operation that asks (\<open>None\<close> or an error code where they fail). The state is
  the static variables: the timer and queue handles (present or NULL), the status record and
  the previous capture.
\<close>

definition APP_PPS_TIMER_RESOLUTION_HZ :: u64 where "APP_PPS_TIMER_RESOLUTION_HZ = 1000000"
definition APP_PPS_NOMINAL_INTERVAL_US :: u64 where "APP_PPS_NOMINAL_INTERVAL_US = 1000000"
definition APP_PPS_MIN_INTERVAL_US :: u64 where "APP_PPS_MIN_INTERVAL_US = 800000"
definition APP_PPS_MAX_INTERVAL_US :: u64 where "APP_PPS_MAX_INTERVAL_US = 1200000"

record pps_capture_event =
  capture_us :: u64
  capture_ticks :: u64

record pps_status =
  ps_initialized :: bool
  ps_etm_active :: bool
  ps_interval_valid :: bool
  ps_last_capture_us :: u64
  ps_period_us :: u32
  ps_jitter_us :: u32
  ps_edge_count :: u32
  ps_valid_interval_count :: u32
  ps_invalid_interval_count :: u32
  ps_queue_drops :: u32
  ps_age_us :: int

record pps_state =
  pps_gptimer :: bool
  pps_capture_queue :: bool
  pps_stat :: pps_status
  pps_previous_capture_us :: u64

definition pps_zero_status :: pps_status where
  "pps_zero_status =
    \<lparr> ps_initialized = False, ps_etm_active = False, ps_interval_valid = False,
      ps_last_capture_us = 0, ps_period_us = 0, ps_jitter_us = 0, ps_edge_count = 0,
      ps_valid_interval_count = 0, ps_invalid_interval_count = 0, ps_queue_drops = 0,
      ps_age_us = 0 \<rparr>"

definition pps_boot :: pps_state where
  "pps_boot = \<lparr> pps_gptimer = False, pps_capture_queue = False, pps_stat = pps_zero_status,
                pps_previous_capture_us = 0 \<rparr>"

definition ticks_to_us :: "u64 \<Rightarrow> u64" where
  "ticks_to_us ticks = (ticks * 1000000) div APP_PPS_TIMER_RESOLUTION_HZ"

text \<open>
  The interrupt: \<open>captured\<close> is the latched count (\<open>None\<close>: the driver failed), \<open>sent\<close> whether the
  queue had room. The result is the event handed to the queue, if any.
\<close>

definition pps_gpio_isr ::
    "u64 option \<Rightarrow> bool \<Rightarrow> pps_state \<Rightarrow> pps_capture_event option \<times> pps_state" where
  "pps_gpio_isr captured sent p =
    (if \<not> pps_gptimer p \<or> \<not> pps_capture_queue p then (None, p)
     else case captured of
       None \<Rightarrow> (None, p)
     | Some ticks \<Rightarrow>
         let event = \<lparr> capture_us = ticks_to_us ticks, capture_ticks = ticks \<rparr>
         in if sent then (Some event, p)
            else (None, p\<lparr>pps_stat := (pps_stat p)\<lparr>ps_queue_drops := ps_queue_drops (pps_stat p) + 1\<rparr>\<rparr>))"

text \<open>
  Configuration. The outcome of each driver call, in the order the code makes them; a
  configuration function stops at the first that fails (\<open>ESP_RETURN_ON_ERROR\<close>).
\<close>

fun first_error :: "esp_err list \<Rightarrow> esp_err" where
  "first_error [] = ESP_OK"
| "first_error (e # es) = (if e \<noteq> ESP_OK then e else first_error es)"

record pps_drivers =
  pd_queue_create :: bool
  pd_gptimer_new :: esp_err
  pd_gptimer_enable :: esp_err
  pd_gptimer_start :: esp_err
  pd_new_etm_event :: esp_err
  pd_bind_gpio :: esp_err
  pd_new_etm_task :: esp_err
  pd_new_channel :: esp_err
  pd_channel_connect :: esp_err
  pd_channel_enable :: esp_err
  pd_gpio_config :: esp_err
  pd_install_isr_service :: esp_err
  pd_isr_handler_add :: esp_err

definition pps_configure_gptimer :: "pps_drivers \<Rightarrow> pps_state \<Rightarrow> esp_err \<times> pps_state" where
  "pps_configure_gptimer d p =
    (if pd_gptimer_new d \<noteq> ESP_OK then (pd_gptimer_new d, p)
     else (first_error [pd_gptimer_enable d, pd_gptimer_start d], p\<lparr>pps_gptimer := True\<rparr>))"

definition pps_configure_etm_capture :: "pps_drivers \<Rightarrow> esp_err" where
  "pps_configure_etm_capture d = first_error
     [pd_new_etm_event d, pd_bind_gpio d, pd_new_etm_task d, pd_new_channel d,
      pd_channel_connect d, pd_channel_enable d]"

definition pps_configure_gpio_interrupt :: "pps_drivers \<Rightarrow> esp_err" where
  "pps_configure_gpio_interrupt d =
    (if pd_gpio_config d \<noteq> ESP_OK then pd_gpio_config d
     else if pd_install_isr_service d \<noteq> ESP_OK \<and> pd_install_isr_service d \<noteq> ESP_ERR_INVALID_STATE
     then pd_install_isr_service d
     else pd_isr_handler_add d)"

definition pps_service_init :: "pps_drivers \<Rightarrow> pps_state \<Rightarrow> esp_err \<times> pps_state" where
  "pps_service_init d p =
    (if ps_initialized (pps_stat p) then (ESP_OK, p)
     else if \<not> pd_queue_create d then (ESP_ERR_NO_MEM, p\<lparr>pps_capture_queue := False\<rparr>)
     else
       let (e1, p1) = pps_configure_gptimer d (p\<lparr>pps_capture_queue := True\<rparr>) in
       if e1 \<noteq> ESP_OK then (e1, p1)
       else
         let e2 = pps_configure_etm_capture d in
         if e2 \<noteq> ESP_OK then (e2, p1)
         else
           let e3 = pps_configure_gpio_interrupt d in
           if e3 \<noteq> ESP_OK then (e3, p1)
           else (ESP_OK, p1\<lparr>pps_stat := (pps_stat p1)
                   \<lparr>ps_initialized := True, ps_etm_active := True, ps_interval_valid := False\<rparr>\<rparr>))"

text \<open>
  Taking a capture from the queue: \<open>received\<close> is what \<open>xQueueReceive\<close> delivers within the
  timeout.
\<close>

definition pps_classify :: "u64 \<Rightarrow> u64 \<Rightarrow> bool \<times> bool \<times> u32 \<times> u32" where
  "pps_classify previous capture =
    (if previous = 0 then (True, False, 0, 0)
     else if previous < capture then
       let period_64 = capture - previous in
       if period_64 \<le> 0xFFFFFFFF then
         if APP_PPS_MIN_INTERVAL_US \<le> period_64 \<and> period_64 \<le> APP_PPS_MAX_INTERVAL_US
         then (False, True, ucast period_64,
               word_of_int \<bar>uint period_64 - uint APP_PPS_NOMINAL_INTERVAL_US\<bar>)
         else (False, False, ucast period_64, 0)
       else (False, False, 0, 0)
     else (False, False, 0, 0))"

definition pps_service_wait_for_capture ::
    "pps_capture_event option \<Rightarrow> pps_state \<Rightarrow> pps_capture_event option \<times> pps_state" where
  "pps_service_wait_for_capture received p =
    (if \<not> pps_capture_queue p then (None, p)
     else case received of
       None \<Rightarrow> (None, p)
     | Some ev \<Rightarrow>
         let (first_capture, interval_valid, period_us, jitter_us) =
               pps_classify (pps_previous_capture_us p) (capture_us ev);
             s = (pps_stat p)\<lparr>ps_last_capture_us := capture_us ev, ps_period_us := period_us,
                  ps_jitter_us := jitter_us, ps_edge_count := ps_edge_count (pps_stat p) + 1\<rparr>;
             s' = (if first_capture then s\<lparr>ps_interval_valid := False\<rparr>
                   else if interval_valid
                   then s\<lparr>ps_interval_valid := True,
                          ps_valid_interval_count := ps_valid_interval_count s + 1\<rparr>
                   else s\<lparr>ps_interval_valid := False,
                          ps_invalid_interval_count := ps_invalid_interval_count s + 1\<rparr>)
         in (Some ev, p\<lparr>pps_previous_capture_us := capture_us ev, pps_stat := s'\<rparr>))"

text \<open>\<open>raw\<close> is the timer's count (\<open>None\<close>: the driver failed).\<close>

definition pps_service_get_monotonic_us :: "u64 option \<Rightarrow> pps_state \<Rightarrow> u64 option" where
  "pps_service_get_monotonic_us raw p =
    (if \<not> pps_gptimer p then None else map_option ticks_to_us raw)"

definition pps_service_get_status :: "u64 option \<Rightarrow> pps_state \<Rightarrow> pps_status" where
  "pps_service_get_status raw p =
    (case pps_service_get_monotonic_us raw p of
       Some now \<Rightarrow>
         if ps_last_capture_us (pps_stat p) \<noteq> 0 \<and> ps_last_capture_us (pps_stat p) \<le> now
         then (pps_stat p)\<lparr>ps_age_us := sint (now - ps_last_capture_us (pps_stat p))\<rparr>
         else (pps_stat p)\<lparr>ps_age_us := -1\<rparr>
     | None \<Rightarrow> (pps_stat p)\<lparr>ps_age_us := -1\<rparr>)"


subsection \<open>The captured status\<close>

inductive pps_step :: "pps_state \<Rightarrow> pps_state \<Rightarrow> bool" where
  init: "pps_step p (snd (pps_service_init d p))"
| isr: "pps_step p (snd (pps_gpio_isr captured sent p))"
| capture: "pps_step p (snd (pps_service_wait_for_capture received p))"

inductive pps_reachable :: "pps_state \<Rightarrow> bool" where
  boot: "pps_reachable pps_boot"
| step: "pps_reachable p \<Longrightarrow> pps_step p q \<Longrightarrow> pps_reachable q"

definition pps_status_ok :: "pps_state \<Rightarrow> bool" where
  "pps_status_ok p \<longleftrightarrow>
     ps_last_capture_us (pps_stat p) = pps_previous_capture_us p \<and>
     (if ps_interval_valid (pps_stat p)
      then 800000 \<le> uint (ps_period_us (pps_stat p)) \<and> uint (ps_period_us (pps_stat p)) \<le> 1200000 \<and>
           uint (ps_jitter_us (pps_stat p)) = \<bar>uint (ps_period_us (pps_stat p)) - 1000000\<bar>
      else True)"

lemma ucast_small_u64: "(x :: u64) \<le> 0xFFFFFFFF \<Longrightarrow> uint (ucast x :: u32) = uint x"
  by (simp add: word_le_def unsigned_ucast_eq take_bit_int_eq_self_iff)

lemma pps_classify_valid:
  assumes "pps_classify previous capture = (f, True, period, jitter)"
  shows "f = False" and "previous < capture" and "uint period = uint capture - uint previous"
    and "800000 \<le> uint period" and "uint period \<le> 1200000"
    and "uint jitter = \<bar>uint period - 1000000\<bar>"
proof -
  have lt: "previous < capture" and f: "f = False"
    and band: "800000 \<le> capture - previous" "capture - previous \<le> 1200000"
    and p: "period = ucast (capture - previous)"
    and j: "jitter = word_of_int \<bar>uint (capture - previous) - 1000000\<bar>"
    using assms by (auto simp: pps_classify_def Let_def APP_PPS_MIN_INTERVAL_US_def
        APP_PPS_MAX_INTERVAL_US_def APP_PPS_NOMINAL_INTERVAL_US_def split: if_splits)
  have d: "uint (capture - previous) = uint capture - uint previous"
    using lt by (simp add: uint_minus_simple_alt [symmetric] less_imp_le)
  have b: "800000 \<le> uint (capture - previous)" "uint (capture - previous) \<le> 1200000"
    using band by (simp_all add: word_le_def)
  have up: "uint period = uint (capture - previous)"
    unfolding p using band(2) by (intro ucast_small_u64) (simp add: word_le_def)
  show "f = False" by (fact f)
  show "previous < capture" by (fact lt)
  show "uint period = uint capture - uint previous" using up d by simp
  show "800000 \<le> uint period" "uint period \<le> 1200000" using up b by simp_all
  show "uint jitter = \<bar>uint period - 1000000\<bar>"
    unfolding j up using b by (simp add: unsigned_of_int take_bit_int_eq_self_iff)
qed

lemma pps_step_status_ok: "pps_step p q \<Longrightarrow> pps_status_ok p \<Longrightarrow> pps_status_ok q"
proof (induction rule: pps_step.induct)
  case (init p d)
  then show ?case
    by (auto simp: pps_status_ok_def pps_service_init_def pps_configure_gptimer_def Let_def
        split: if_splits)
next
  case (isr p captured sent)
  then show ?case
    by (auto simp: pps_status_ok_def pps_gpio_isr_def Let_def split: option.splits if_splits)
next
  case (capture p received)
  then show ?case
  proof (cases "pps_capture_queue p \<and> received \<noteq> None")
    case True
    then obtain ev where ev: "received = Some ev" by auto
    obtain f v pe ji where c: "pps_classify (pps_previous_capture_us p) (capture_us ev) = (f, v, pe, ji)"
      by (metis prod_cases4)
    show ?thesis
      using True ev c pps_classify_valid [of "pps_previous_capture_us p" "capture_us ev" f pe ji]
      by (auto simp: pps_status_ok_def pps_service_wait_for_capture_def Let_def)
  next
    case False
    then show ?thesis using capture by (auto simp: pps_service_wait_for_capture_def split: option.splits)
  qed
qed

lemma pps_reachable_status_ok: "pps_reachable p \<Longrightarrow> pps_status_ok p"
proof (induction rule: pps_reachable.induct)
  case boot
  show ?case by (simp add: pps_status_ok_def pps_boot_def pps_zero_status_def)
next
  case (step p q)
  then show ?case by (blast intro: pps_step_status_ok)
qed

subsection \<open>Properties\<close>

text \<open>
  The microsecond clock. Up to a count of 18446744073709 ticks (about 213 days of uptime)
  the conversion of the 1 MHz timer's count to microseconds is the identity, so the clock is
  monotone; one tick later the product with 1000000 exceeds 64 bits and the clock jumps back
  to zero.
\<close>
theorem ticks_to_us_uptime:
  "(\<forall>ticks \<le> 18446744073709. ticks_to_us ticks = ticks) \<and> ticks_to_us 18446744073710 = 0"
proof (intro conjI allI impI)
  fix ticks :: u64
  assume "ticks \<le> 18446744073709"
  then have "unat ticks \<le> 18446744073709" by (simp add: word_le_nat_alt)
  then have "unat ticks * unat (1000000 :: u64) < 2 ^ LENGTH(64)" by simp
  then have "unat (ticks * 1000000) = unat ticks * 1000000" by (simp only: unat_mult_lem) simp
  then have "unat (ticks_to_us ticks) = unat ticks"
    by (simp add: ticks_to_us_def APP_PPS_TIMER_RESOLUTION_HZ_def unat_div)
  then show "ticks_to_us ticks = ticks" by (simp add: word_unat_eq_iff)
next
  show "ticks_to_us 18446744073710 = 0"
    by (simp add: ticks_to_us_def APP_PPS_TIMER_RESOLUTION_HZ_def)
qed

theorem ticks_to_us_uptime_witness:
  "ticks_to_us 123456789 = 123456789"
  using ticks_to_us_uptime by (auto simp: word_le_nat_alt)

text \<open>
  The status the clock discipline trusts. In every reachable state a status marked
  \<open>interval_valid\<close> carries a period within 800..1200 ms, the jitter is the period's distance from
  the nominal second, and the capture it reports is the one the next interval is measured from.
\<close>
theorem pps_valid_interval:
  assumes "pps_reachable p" and "ps_interval_valid (pps_service_get_status raw p)"
  shows "800000 \<le> uint (ps_period_us (pps_service_get_status raw p)) \<and>
         uint (ps_period_us (pps_service_get_status raw p)) \<le> 1200000 \<and>
         uint (ps_jitter_us (pps_service_get_status raw p)) =
           \<bar>uint (ps_period_us (pps_service_get_status raw p)) - 1000000\<bar> \<and>
         ps_last_capture_us (pps_service_get_status raw p) = pps_previous_capture_us p"
  using pps_reachable_status_ok [OF assms(1)] assms(2)
  by (auto simp: pps_status_ok_def pps_service_get_status_def split: option.splits if_splits)

definition pps_ready :: pps_state where
  "pps_ready = \<lparr> pps_gptimer = True, pps_capture_queue = True,
     pps_stat = pps_zero_status\<lparr>ps_initialized := True, ps_etm_active := True\<rparr>,
     pps_previous_capture_us = 0 \<rparr>"

definition pps_drivers_ok :: pps_drivers where
  "pps_drivers_ok = \<lparr> pd_queue_create = True, pd_gptimer_new = ESP_OK, pd_gptimer_enable = ESP_OK,
     pd_gptimer_start = ESP_OK, pd_new_etm_event = ESP_OK, pd_bind_gpio = ESP_OK,
     pd_new_etm_task = ESP_OK, pd_new_channel = ESP_OK, pd_channel_connect = ESP_OK,
     pd_channel_enable = ESP_OK, pd_gpio_config = ESP_OK,
     pd_install_isr_service = ESP_ERR_INVALID_STATE, pd_isr_handler_add = ESP_OK \<rparr>"

lemmas pps_eval =
  pps_boot_def pps_zero_status_def pps_ready_def pps_drivers_ok_def pps_service_init_def
  pps_configure_gptimer_def pps_configure_etm_capture_def pps_configure_gpio_interrupt_def
  pps_service_wait_for_capture_def pps_classify_def APP_PPS_MIN_INTERVAL_US_def
  APP_PPS_MAX_INTERVAL_US_def APP_PPS_NOMINAL_INTERVAL_US_def pps_service_get_status_def
  pps_service_get_monotonic_us_def ticks_to_us_def APP_PPS_TIMER_RESOLUTION_HZ_def

definition pps_two_edges :: pps_state where
  "pps_two_edges =
     snd (pps_service_wait_for_capture (Some \<lparr>capture_us = 3000007, capture_ticks = 3000007\<rparr>)
       (snd (pps_service_wait_for_capture (Some \<lparr>capture_us = 2000000, capture_ticks = 2000000\<rparr>)
         (snd (pps_service_init pps_drivers_ok pps_boot)))))"

lemma pps_two_edges_reachable: "pps_reachable pps_two_edges"
  unfolding pps_two_edges_def
  by (intro pps_reachable.step [OF _ pps_step.capture] pps_reachable.step [OF _ pps_step.init]
      pps_reachable.boot)

theorem pps_valid_interval_witness:
  "uint (ps_jitter_us (pps_service_get_status (Some 3000100) pps_two_edges)) = 7 \<and>
   uint (ps_period_us (pps_service_get_status (Some 3000100) pps_two_edges)) \<le> 1200000"
proof -
  have "ps_interval_valid (pps_service_get_status (Some 3000100) pps_two_edges)"
    and "ps_period_us (pps_service_get_status (Some 3000100) pps_two_edges) = 1000007"
    by (simp_all add: pps_two_edges_def pps_eval)
  with pps_valid_interval [OF pps_two_edges_reachable this(1)] show ?thesis by simp
qed

text \<open>
  What one capture does. After the first edge, a capture makes the interval valid exactly when
  it lies 800..1200 ms after the previous one; the period is then their exact distance, one of
  the two interval counters moves and the edge counter always does; the very first edge moves
  neither interval counter.
\<close>
theorem pps_capture_functional:
  assumes "pps_capture_queue p"
  shows "let s = pps_stat p; prev = pps_previous_capture_us p;
             q = snd (pps_service_wait_for_capture (Some ev) p); t = pps_stat q;
             good = prev \<noteq> 0 \<and> uint prev + 800000 \<le> uint (capture_us ev) \<and>
                    uint (capture_us ev) \<le> uint prev + 1200000
         in fst (pps_service_wait_for_capture (Some ev) p) = Some ev \<and>
            ps_interval_valid t = good \<and>
            (if good then uint (ps_period_us t) = uint (capture_us ev) - uint prev
             else ps_jitter_us t = 0) \<and>
            ps_edge_count t = ps_edge_count s + 1 \<and>
            ps_valid_interval_count t = ps_valid_interval_count s + (if good then 1 else 0) \<and>
            ps_invalid_interval_count t =
              ps_invalid_interval_count s + (if good \<or> prev = 0 then 0 else 1) \<and>
            pps_previous_capture_us q = capture_us ev"
proof -
  let ?prev = "pps_previous_capture_us p" and ?c = "capture_us ev"
  let ?good = "?prev \<noteq> 0 \<and> uint ?prev + 800000 \<le> uint ?c \<and> uint ?c \<le> uint ?prev + 1200000"
  obtain f v pe ji where c: "pps_classify ?prev ?c = (f, v, pe, ji)" by (metis prod_cases4)
  have f: "f = (?prev = 0)" using c by (auto simp: pps_classify_def Let_def split: if_splits)
  have j: "\<not> v \<Longrightarrow> ji = 0" using c by (auto simp: pps_classify_def Let_def split: if_splits)
  have v: "v = ?good"
  proof (cases "?prev < ?c")
    case True
    then have d: "uint (?c - ?prev) = uint ?c - uint ?prev"
      by (simp add: uint_minus_simple_alt [symmetric] less_imp_le)
    have "?c - ?prev \<le> 1200000 \<Longrightarrow> ?c - ?prev \<le> 0xFFFFFFFF" by (simp add: word_le_def)
    then have "v = (?prev \<noteq> 0 \<and> 800000 \<le> ?c - ?prev \<and> ?c - ?prev \<le> 1200000)"
      using c True by (auto simp: pps_classify_def Let_def APP_PPS_MIN_INTERVAL_US_def
          APP_PPS_MAX_INTERVAL_US_def split: if_splits)
    then show ?thesis by (auto simp: word_le_def d)
  next
    case False
    then show ?thesis using c by (auto simp: pps_classify_def word_less_def split: if_splits)
  qed
  have p: "v \<Longrightarrow> uint pe = uint ?c - uint ?prev"
    using pps_classify_valid(3) [of ?prev ?c f pe ji] c by simp
  show ?thesis
    using assms f v j p by (auto simp: pps_service_wait_for_capture_def c Let_def)
qed

theorem pps_capture_functional_witness:
  "ps_interval_valid (pps_stat (snd (pps_service_wait_for_capture
       (Some \<lparr>capture_us = 2000000, capture_ticks = 2000000\<rparr>)
       (pps_ready\<lparr>pps_previous_capture_us := 1000000\<rparr>))))"
  using pps_capture_functional [of "pps_ready\<lparr>pps_previous_capture_us := 1000000\<rparr>"
      "\<lparr>capture_us = 2000000, capture_ticks = 2000000\<rparr>"]
  by (simp add: pps_ready_def Let_def)

end
