(* ===== verification/Gnss_Status.thy ===== *)
theory Gnss_Status
  imports App_State
begin

text \<open>
  The status record of the GNSS service (\<open>src/main/gnss_service.h\<close>), which the clock discipline
  reads: the interface between the receiver and the clock.
\<close>

record gnss_status =
  gs_initialized :: bool
  gs_utc_valid :: bool
  gs_utc_from_ubx_pvt :: bool
  gs_utc_seconds :: int
  gs_utc_age_us :: int
  gs_gnss_fix_valid :: bool
  gs_gnss_time_fully_resolved :: bool
  gs_fix_type :: u8
  gs_satellites_used :: u8
  gs_leap_indicator :: app_leap_indicator
  gs_leap_information_valid :: bool
  gs_current_leap_seconds :: int
  gs_pending_leap_change :: int
  gs_seconds_to_leap_event :: int
  gs_timing_pulse_valid :: bool
  gs_timing_week :: u16
  gs_timing_tow_ms :: u32
  gs_timing_tow_sub_ms :: int
  gs_timing_quantization_error_ns :: int
  gs_timing_pulse_flags :: u8
  gs_timing_pulse_age_us :: int
  gs_ubx_configuration_attempted :: bool
  gs_ubx_configuration_complete :: bool
  gs_ubx_timepulse_configuration_attempted :: bool
  gs_ubx_timepulse_configuration_complete :: bool
  gs_ubx_ack_count :: u32
  gs_ubx_nak_count :: u32
  gs_ubx_configuration_failures :: u32
  gs_ubx_frames_valid :: u32
  gs_ubx_frames_invalid_checksum :: u32
  gs_ubx_frames_invalid_length :: u32
  gs_ubx_frames_unsupported :: u32
  gs_ubx_nav_pvt_messages :: u32
  gs_ubx_nav_timels_messages :: u32
  gs_ubx_tim_tp_messages :: u32
  gs_valid_zda_messages :: u32
  gs_invalid_messages :: u32
  gs_uart_bytes_received :: u32
  gs_receiver_identity_valid :: bool
  gs_receiver_model :: bytes
  gs_receiver_software_version :: bytes
  gs_receiver_hardware_version :: bytes

definition gnss_zero_status :: gnss_status where
  "gnss_zero_status =
    \<lparr> gs_initialized = False, gs_utc_valid = False, gs_utc_from_ubx_pvt = False,
      gs_utc_seconds = 0, gs_utc_age_us = 0, gs_gnss_fix_valid = False,
      gs_gnss_time_fully_resolved = False, gs_fix_type = 0, gs_satellites_used = 0,
      gs_leap_indicator = APP_LEAP_NO_WARNING, gs_leap_information_valid = False,
      gs_current_leap_seconds = 0, gs_pending_leap_change = 0, gs_seconds_to_leap_event = 0,
      gs_timing_pulse_valid = False, gs_timing_week = 0, gs_timing_tow_ms = 0,
      gs_timing_tow_sub_ms = 0, gs_timing_quantization_error_ns = 0, gs_timing_pulse_flags = 0,
      gs_timing_pulse_age_us = 0, gs_ubx_configuration_attempted = False,
      gs_ubx_configuration_complete = False, gs_ubx_timepulse_configuration_attempted = False,
      gs_ubx_timepulse_configuration_complete = False, gs_ubx_ack_count = 0,
      gs_ubx_nak_count = 0, gs_ubx_configuration_failures = 0, gs_ubx_frames_valid = 0,
      gs_ubx_frames_invalid_checksum = 0, gs_ubx_frames_invalid_length = 0,
      gs_ubx_frames_unsupported = 0, gs_ubx_nav_pvt_messages = 0,
      gs_ubx_nav_timels_messages = 0, gs_ubx_tim_tp_messages = 0, gs_valid_zda_messages = 0,
      gs_invalid_messages = 0, gs_uart_bytes_received = 0, gs_receiver_identity_valid = False,
      gs_receiver_model = [], gs_receiver_software_version = [],
      gs_receiver_hardware_version = [] \<rparr>"

end
