(* ===== verification/Clock.thy ===== *)
theory Clock
  imports Binary64 App_State Pps_Service Gnss_Status
begin

text \<open>
  \<open>src/main/clock_discipline.c\<close>: the clock that PPS edges and GNSS seconds discipline. The state
  is the static \<open>s_clock\<close>, the mutex (created or not), the last time pulse consumed and the
  device snapshot it publishes to. The mutex wait (\<open>got\<close>), the timer (\<open>now\<close>, the result of
  \<open>pps_service_get_monotonic_us\<close>), the two status queries and the value of \<open>llround\<close> on an
  argument that does not fit 64 bits (\<open>oor\<close>; C leaves it unspecified) are arguments. A
  \<open>double\<close> is a rational and each operation on doubles ends in \<open>b64\<close>. Logging is left out.
\<close>

definition GPS_EPOCH_UNIX_SECONDS :: int where "GPS_EPOCH_UNIX_SECONDS = 315964800"
definition GPS_WEEK_SECONDS :: int where "GPS_WEEK_SECONDS = 604800"
definition GPS_WEEK_MILLISECONDS :: u32 where "GPS_WEEK_MILLISECONDS = 604800000"
definition CLOCK_TIM_TP_WAIT_TIMEOUT_MS :: int where "CLOCK_TIM_TP_WAIT_TIMEOUT_MS = 750"
definition CLOCK_TIM_TP_MAX_AGE_US :: int where "CLOCK_TIM_TP_MAX_AGE_US = 1500000"

text \<open>
  The next two are settings of the build, with the values of \<open>Kconfig.projbuild\<close>, which \<open>sdkconfig.defaults\<close> leaves as they are.
  \<open>app_config.h\<close> has 8 and 300 for a build without the settings.
\<close>

definition APP_CLOCK_LOCK_SAMPLES :: u32 where "APP_CLOCK_LOCK_SAMPLES = 32"
definition APP_HOLDOVER_MAX_SECONDS :: u32 where "APP_HOLDOVER_MAX_SECONDS = 3600"
definition APP_PPS_TIMEOUT_MS :: int where "APP_PPS_TIMEOUT_MS = 2500"
definition APP_CLOCK_MAX_PPS_JITTER_US :: u32 where "APP_CLOCK_MAX_PPS_JITTER_US = 250"
definition APP_CLOCK_MAX_TIMING_QERR_NS :: int where "APP_CLOCK_MAX_TIMING_QERR_NS = 50000"
definition APP_CLOCK_MAX_CONSECUTIVE_REJECTS :: u32 where "APP_CLOCK_MAX_CONSECUTIVE_REJECTS = 3"
definition APP_CLOCK_BASE_DISPERSION_NS :: int where "APP_CLOCK_BASE_DISPERSION_NS = 100000"
definition APP_CLOCK_HOLDOVER_WANDER_PPM :: rat where "APP_CLOCK_HOLDOVER_WANDER_PPM = 20"
definition APP_CLOCK_MAX_HOLDOVER_DISPERSION_NS :: int where
  "APP_CLOCK_MAX_HOLDOVER_DISPERSION_NS = 1000000000"
definition APP_CLOCK_MAX_ACCEPTABLE_ERROR_NS :: int where
  "APP_CLOCK_MAX_ACCEPTABLE_ERROR_NS = 250000000"
definition APP_CLOCK_MAX_FREQUENCY_PPM :: rat where "APP_CLOCK_MAX_FREQUENCY_PPM = 200"
definition APP_CLOCK_FREQUENCY_FILTER_GAIN :: rat where "APP_CLOCK_FREQUENCY_FILTER_GAIN = 1 / 8"
definition APP_NTP_EPOCH_DELTA :: u64 where "APP_NTP_EPOCH_DELTA = 2208988800"

subsection \<open>State\<close>

record clock_context =
  ck_initialized :: bool
  ck_solution_valid :: bool
  ck_anchor_capture_us :: u64
  ck_anchor_utc_seconds :: int
  ck_last_sample_capture_us :: u64
  ck_last_sample_utc_seconds :: int
  ck_reference_timestamp_valid :: bool
  ck_reference_capture_us :: u64
  ck_reference_utc_seconds :: int
  ck_last_phase_error_ns :: int
  ck_frequency_ppm :: rat
  ck_accepted_samples :: u32
  ck_rejected_samples :: u32
  ck_consecutive_rejects :: u32
  ck_leap_indicator :: app_leap_indicator
  ck_state :: app_clock_state

record clock_gnss_sample =
  gsm_week :: u16
  gsm_tow_ms :: u32
  gsm_utc_seconds :: int
  gsm_quantization_error_ns :: int
  gsm_leap_indicator :: app_leap_indicator

record clock_sys =
  s_clock :: clock_context
  s_clock_mutex :: bool
  s_last_tim_tp_valid :: bool
  s_last_tim_tp_week :: u16
  s_last_tim_tp_tow_ms :: u32
  s_app :: app_state

record clock_ntp_timestamp =
  ct_seconds :: u32
  ct_fraction :: u32

record clock_status =
  cs_initialized :: bool
  cs_solution_valid :: bool
  cs_state :: app_clock_state
  cs_phase_error_ns :: int
  cs_frequency_ppm :: rat
  cs_accepted_samples :: u32
  cs_rejected_samples :: u32
  cs_holdover_seconds :: u32
  cs_root_dispersion_16_16 :: u32
  cs_reference_timestamp_valid :: bool
  cs_reference_utc_seconds :: int
  cs_reference_age_seconds :: u32

definition clock_zero :: clock_context where
  "clock_zero =
    \<lparr> ck_initialized = False, ck_solution_valid = False, ck_anchor_capture_us = 0,
      ck_anchor_utc_seconds = 0, ck_last_sample_capture_us = 0, ck_last_sample_utc_seconds = 0,
      ck_reference_timestamp_valid = False, ck_reference_capture_us = 0,
      ck_reference_utc_seconds = 0, ck_last_phase_error_ns = 0, ck_frequency_ppm = 0,
      ck_accepted_samples = 0, ck_rejected_samples = 0, ck_consecutive_rejects = 0,
      ck_leap_indicator = APP_LEAP_NO_WARNING, ck_state = APP_CLOCK_UNSYNCHRONIZED \<rparr>"

definition clock_boot :: clock_sys where
  "clock_boot =
    \<lparr> s_clock = clock_zero, s_clock_mutex = False, s_last_tim_tp_valid = False,
      s_last_tim_tp_week = 0, s_last_tim_tp_tow_ms = 0, s_app = app_state_init \<rparr>"

definition lock_clock :: "bool \<Rightarrow> clock_sys \<Rightarrow> bool" where
  "lock_clock got s \<longleftrightarrow> s_clock_mutex s \<and> got"

subsection \<open>Arithmetic\<close>

text \<open>The conversions of C: a 64-bit integer to \<open>double\<close>, and \<open>llround\<close> (halves away from zero).\<close>

definition double_of_u64 :: "u64 \<Rightarrow> rat" where
  "double_of_u64 w = b64 (of_int (uint w))"

definition double_of_int :: "int \<Rightarrow> rat" where
  "double_of_int i = b64 (of_int i)"

definition llround :: "(rat \<Rightarrow> int) \<Rightarrow> rat \<Rightarrow> int" where
  "llround oor x =
    (if - (2 ^ 63) \<le> x \<and> x < 2 ^ 63 then if 0 \<le> x then \<lfloor>x + 1 / 2\<rfloor> else - \<lfloor>- x + 1 / 2\<rfloor>
     else oor x)"

definition calculate_holdover_seconds_locked :: "clock_context \<Rightarrow> u64 \<Rightarrow> u32" where
  "calculate_holdover_seconds_locked c now_capture_us =
    (if \<not> ck_solution_valid c \<or> now_capture_us < ck_last_sample_capture_us c then 0
     else ucast ((now_capture_us - ck_last_sample_capture_us c) div 1000000))"

definition calculate_dispersion_16_16_locked :: "clock_context \<Rightarrow> u32 \<Rightarrow> u32" where
  "calculate_dispersion_16_16_locked c holdover_seconds =
    (let d0 = APP_CLOCK_BASE_DISPERSION_NS + \<bar>ck_last_phase_error_ns c\<bar>;
         wander_ns = b64 (b64 (APP_CLOCK_HOLDOVER_WANDER_PPM * 1000) *
                          double_of_int (uint holdover_seconds));
         d1 = (if wander_ns > 0 then d0 + \<lfloor>wander_ns\<rfloor> else d0);
         d2 = (if d1 > APP_CLOCK_MAX_HOLDOVER_DISPERSION_NS
               then APP_CLOCK_MAX_HOLDOVER_DISPERSION_NS else d1);
         result = (word_of_int d2 * 65536 :: u64) div 1000000000
     in if result > 0xFFFFFFFF then 0xFFFFFFFF else ucast result)"

subsection \<open>Publishing\<close>

definition now_or :: "u64 option \<Rightarrow> u64 \<Rightarrow> u64" where
  "now_or now d = (case now of Some n \<Rightarrow> n | None \<Rightarrow> d)"

definition publish_state_locked :: "u64 option \<Rightarrow> clock_sys \<Rightarrow> clock_sys" where
  "publish_state_locked now s =
    (let c = s_clock s;
         now_capture_us = now_or now (ck_last_sample_capture_us c);
         holdover_seconds = calculate_holdover_seconds_locked c now_capture_us
     in s\<lparr>s_app := app_state_set_clock_solution (ck_state c) (ck_solution_valid c)
            (ck_last_phase_error_ns c) (ck_frequency_ppm c) (ck_accepted_samples c)
            (ck_rejected_samples c) holdover_seconds
            (calculate_dispersion_16_16_locked c holdover_seconds) (s_app s)\<rparr>)"

definition pps_status_usable :: "pps_status \<Rightarrow> bool" where
  "pps_status_usable st \<longleftrightarrow>
     ps_interval_valid st \<and> 0 \<le> ps_age_us st \<and> ps_age_us st \<le> APP_PPS_TIMEOUT_MS * 1000 \<and>
     APP_PPS_MIN_INTERVAL_US \<le> ucast (ps_period_us st) \<and>
     ucast (ps_period_us st) \<le> APP_PPS_MAX_INTERVAL_US \<and>
     ps_jitter_us st \<le> APP_CLOCK_MAX_PPS_JITTER_US"

text \<open>\<open>pps_service_get_status\<close> answers whenever its argument is not NULL, as it is here.\<close>

definition publish_pps_status :: "pps_status \<Rightarrow> clock_sys \<Rightarrow> clock_sys" where
  "publish_pps_status st s =
     s\<lparr>s_app := app_state_set_pps_status (pps_status_usable st) (ps_last_capture_us st)
         (ps_period_us st) (ps_jitter_us st) (ps_edge_count st) (ps_queue_drops st)
         (ps_age_us st) (s_app s)\<rparr>"

subsection \<open>The GNSS second that belongs to an edge\<close>

definition tim_tp_is_new :: "gnss_status \<Rightarrow> clock_sys \<Rightarrow> bool" where
  "tim_tp_is_new st s =
    (if \<not> gs_timing_pulse_valid st then False
     else if \<not> s_last_tim_tp_valid s then True
     else gs_timing_week st \<noteq> s_last_tim_tp_week s \<or> gs_timing_tow_ms st \<noteq> s_last_tim_tp_tow_ms s)"

definition tim_tp_to_utc :: "gnss_status \<Rightarrow> int option" where
  "tim_tp_to_utc st =
    (if \<not> gs_timing_pulse_valid st \<or> \<not> gs_leap_information_valid st \<or>
        gs_current_leap_seconds st < 0 \<or> gs_current_leap_seconds st > 64 \<or>
        GPS_WEEK_MILLISECONDS \<le> gs_timing_tow_ms st
     then None
     else Some (GPS_EPOCH_UNIX_SECONDS + uint (gs_timing_week st) * GPS_WEEK_SECONDS +
                uint (gs_timing_tow_ms st) div 1000 - gs_current_leap_seconds st))"

text \<open>C's integer division truncates toward zero.\<close>

definition cdiv :: "int \<Rightarrow> int \<Rightarrow> int" where
  "cdiv a b = (if 0 \<le> a then a div b else - ((- a) div b))"

definition gnss_sample_ready :: "gnss_status \<Rightarrow> clock_sys \<Rightarrow> bool" where
  "gnss_sample_ready st s \<longleftrightarrow>
     gs_utc_valid st \<and> gs_utc_from_ubx_pvt st \<and> gs_gnss_fix_valid st \<and>
     gs_gnss_time_fully_resolved st \<and> gs_leap_information_valid st \<and> gs_timing_pulse_valid st \<and>
     0 \<le> gs_timing_pulse_age_us st \<and> gs_timing_pulse_age_us st \<le> CLOCK_TIM_TP_MAX_AGE_US \<and>
     tim_tp_is_new st s"

text \<open>
  The poll loop. \<open>obs i\<close> is what the i-th round sees: the timer and the answer of
  \<open>gnss_service_get_status\<close>. The result is \<open>None\<close> when the fuel ends first.
\<close>

fun gnss_poll ::
    "nat \<Rightarrow> (nat \<Rightarrow> int \<times> gnss_status option) \<Rightarrow> nat \<Rightarrow> int \<Rightarrow> clock_sys
      \<Rightarrow> clock_gnss_sample option option" where
  "gnss_poll 0 obs i deadline_us s = None"
| "gnss_poll (Suc fuel) obs i deadline_us s =
    (if \<not> fst (obs i) < deadline_us then Some None
     else case snd (obs i) of
       None \<Rightarrow> gnss_poll fuel obs (Suc i) deadline_us s
     | Some st \<Rightarrow>
         if \<not> gnss_sample_ready st s then gnss_poll fuel obs (Suc i) deadline_us s
         else case tim_tp_to_utc st of
           None \<Rightarrow> Some None
         | Some utc_seconds \<Rightarrow>
             let qerr_ns = cdiv (gs_timing_quantization_error_ns st) 1000
             in if \<bar>qerr_ns\<bar> > APP_CLOCK_MAX_TIMING_QERR_NS then Some None
                else Some (Some \<lparr> gsm_week = gs_timing_week st, gsm_tow_ms = gs_timing_tow_ms st,
                                  gsm_utc_seconds = utc_seconds,
                                  gsm_quantization_error_ns = qerr_ns,
                                  gsm_leap_indicator = gs_leap_indicator st \<rparr>))"

definition wait_for_gnss_sample ::
    "nat \<Rightarrow> int \<Rightarrow> (nat \<Rightarrow> int \<times> gnss_status option) \<Rightarrow> clock_sys
      \<Rightarrow> clock_gnss_sample option option" where
  "wait_for_gnss_sample fuel start_us obs s =
     gnss_poll fuel obs 0 (start_us + CLOCK_TIM_TP_WAIT_TIMEOUT_MS * 1000) s"

subsection \<open>The state machine\<close>

definition gnss_ready :: "gnss_status \<Rightarrow> bool" where
  "gnss_ready st \<longleftrightarrow>
     gs_utc_valid st \<and> gs_utc_from_ubx_pvt st \<and> gs_gnss_fix_valid st \<and>
     gs_gnss_time_fully_resolved st \<and> gs_leap_information_valid st \<and> gs_timing_pulse_valid st"

definition update_reference_state ::
    "gnss_status option \<Rightarrow> pps_status \<Rightarrow> bool \<Rightarrow> u64 option \<Rightarrow> clock_sys \<Rightarrow> clock_sys" where
  "update_reference_state gnss pps got now s =
    (case gnss of
       None \<Rightarrow> s
     | Some g \<Rightarrow>
         if \<not> lock_clock got s then s
         else
           let c = s_clock s;
               c' = (if \<not> ck_solution_valid c \<and> gnss_ready g \<and> pps_status_usable pps
                     then c\<lparr>ck_state := APP_CLOCK_ACQUIRING\<rparr>
                     else if \<not> ck_solution_valid c \<and> (\<not> gnss_ready g \<or> \<not> pps_status_usable pps)
                     then c\<lparr>ck_state := APP_CLOCK_UNSYNCHRONIZED\<rparr>
                     else c)
           in publish_state_locked now (s\<lparr>s_clock := c'\<rparr>))"

definition enforce_holdover_policy :: "bool \<Rightarrow> u64 option \<Rightarrow> u64 option \<Rightarrow> clock_sys \<Rightarrow> clock_sys" where
  "enforce_holdover_policy got now now' s =
    (if \<not> lock_clock got s then s
     else if \<not> ck_solution_valid (s_clock s) then publish_state_locked now' s
     else case now of
       None \<Rightarrow> s
     | Some now_capture_us \<Rightarrow>
         let c = s_clock s;
             holdover_seconds = calculate_holdover_seconds_locked c now_capture_us;
             c' = (if holdover_seconds > APP_HOLDOVER_MAX_SECONDS
                   then c\<lparr>ck_solution_valid := False, ck_state := APP_CLOCK_FAIL_CLOSED\<rparr>
                   else if holdover_seconds > 0 \<and> ck_state c = APP_CLOCK_SYNCHRONIZED
                   then c\<lparr>ck_state := APP_CLOCK_HOLDOVER\<rparr>
                   else c)
         in publish_state_locked now' (s\<lparr>s_clock := c'\<rparr>))"

definition reject_sample_locked :: "u64 option \<Rightarrow> clock_sys \<Rightarrow> clock_sys" where
  "reject_sample_locked now s =
    (let c = (s_clock s)\<lparr>ck_rejected_samples := ck_rejected_samples (s_clock s) + 1,
                         ck_consecutive_rejects := ck_consecutive_rejects (s_clock s) + 1\<rparr>;
         c' = (if APP_CLOCK_MAX_CONSECUTIVE_REJECTS \<le> ck_consecutive_rejects c
               then c\<lparr>ck_solution_valid := False, ck_state := APP_CLOCK_ACQUIRING,
                      ck_accepted_samples := 0, ck_frequency_ppm := 0\<rparr>
               else c)
     in publish_state_locked now (s\<lparr>s_clock := c'\<rparr>))"

text \<open>The filter step: a measured interval against the seconds it should have lasted.\<close>

definition filtered_frequency_ppm :: "rat \<Rightarrow> u64 \<Rightarrow> int \<Rightarrow> rat" where
  "filtered_frequency_ppm frequency_ppm local_elapsed_us utc_elapsed_seconds =
    (let expected_elapsed_us = b64 (double_of_int utc_elapsed_seconds * 1000000);
         measured_period_error_ppm =
           b64 (b64 (b64 (double_of_u64 local_elapsed_us - expected_elapsed_us) / expected_elapsed_us)
                * 1000000);
         target_frequency_ppm = - measured_period_error_ppm;
         f = b64 (b64 (b64 (1 - APP_CLOCK_FREQUENCY_FILTER_GAIN) * frequency_ppm) +
                  b64 (APP_CLOCK_FREQUENCY_FILTER_GAIN * target_frequency_ppm))
     in if f > APP_CLOCK_MAX_FREQUENCY_PPM then APP_CLOCK_MAX_FREQUENCY_PPM
        else if f < - APP_CLOCK_MAX_FREQUENCY_PPM then - APP_CLOCK_MAX_FREQUENCY_PPM
        else f)"

text \<open>The clock reading: the anchor second plus the elapsed count, corrected in rate.\<close>

definition utc_reading :: "int \<Rightarrow> u64 \<Rightarrow> rat \<Rightarrow> rat" where
  "utc_reading anchor_utc_seconds elapsed_us frequency_ppm =
     b64 (double_of_int anchor_utc_seconds +
          b64 (b64 (double_of_u64 elapsed_us / 1000000) * b64 (1 + b64 (frequency_ppm / 1000000))))"

definition phase_error_of :: "(rat \<Rightarrow> int) \<Rightarrow> int \<Rightarrow> rat \<Rightarrow> int \<Rightarrow> int" where
  "phase_error_of oor utc_seconds predicted_utc_seconds qerr_ns =
     llround oor (b64 (b64 (double_of_int utc_seconds - predicted_utc_seconds) * 1000000000)) + qerr_ns"

text \<open>What the three outcomes of a sample write: the first one, one out of phase, a good one.\<close>

definition take_first_sample ::
    "u64 \<Rightarrow> int \<Rightarrow> int \<Rightarrow> app_leap_indicator \<Rightarrow> clock_context \<Rightarrow> clock_context" where
  "take_first_sample pps_capture_us utc_seconds qerr_ns leap c = c\<lparr>
     ck_anchor_capture_us := pps_capture_us, ck_anchor_utc_seconds := utc_seconds,
     ck_last_sample_capture_us := pps_capture_us, ck_last_sample_utc_seconds := utc_seconds,
     ck_reference_timestamp_valid := True, ck_reference_capture_us := pps_capture_us,
     ck_reference_utc_seconds := utc_seconds, ck_last_phase_error_ns := qerr_ns,
     ck_frequency_ppm := 0, ck_accepted_samples := 1, ck_rejected_samples := 0,
     ck_consecutive_rejects := 0, ck_leap_indicator := leap,
     ck_state := APP_CLOCK_ACQUIRING, ck_solution_valid := True\<rparr>"

definition take_phase_reject :: "u64 \<Rightarrow> int \<Rightarrow> int \<Rightarrow> clock_context \<Rightarrow> clock_context" where
  "take_phase_reject pps_capture_us utc_seconds phase_error_ns c = c\<lparr>
     ck_anchor_capture_us := pps_capture_us, ck_anchor_utc_seconds := utc_seconds,
     ck_last_sample_capture_us := pps_capture_us, ck_last_sample_utc_seconds := utc_seconds,
     ck_last_phase_error_ns := phase_error_ns, ck_frequency_ppm := 0,
     ck_accepted_samples := 1\<rparr>"

definition take_sample ::
    "u64 \<Rightarrow> int \<Rightarrow> int \<Rightarrow> app_leap_indicator \<Rightarrow> rat \<Rightarrow> clock_context \<Rightarrow> clock_context" where
  "take_sample pps_capture_us utc_seconds phase_error_ns leap frequency_ppm c = c\<lparr>
     ck_frequency_ppm := frequency_ppm,
     ck_anchor_capture_us := pps_capture_us, ck_anchor_utc_seconds := utc_seconds,
     ck_last_sample_capture_us := pps_capture_us, ck_last_sample_utc_seconds := utc_seconds,
     ck_reference_timestamp_valid := True, ck_reference_capture_us := pps_capture_us,
     ck_reference_utc_seconds := utc_seconds, ck_last_phase_error_ns := phase_error_ns,
     ck_leap_indicator := leap, ck_accepted_samples := ck_accepted_samples c + 1,
     ck_consecutive_rejects := 0,
     ck_state := (if APP_CLOCK_LOCK_SAMPLES \<le> ck_accepted_samples c + 1
                  then APP_CLOCK_SYNCHRONIZED else APP_CLOCK_ACQUIRING)\<rparr>"

definition clock_discipline_submit_sample ::
    "(rat \<Rightarrow> int) \<Rightarrow> bool \<Rightarrow> u64 option \<Rightarrow> u64 \<Rightarrow> int \<Rightarrow> int \<Rightarrow> app_leap_indicator
      \<Rightarrow> clock_sys \<Rightarrow> esp_err \<times> clock_sys" where
  "clock_discipline_submit_sample oor got now pps_capture_us utc_seconds qerr_ns leap s =
    (let c = s_clock s in
     if \<not> ck_initialized c \<or> pps_capture_us = 0 \<or> utc_seconds \<le> 0 then (ESP_ERR_INVALID_ARG, s)
     else if \<bar>qerr_ns\<bar> > APP_CLOCK_MAX_TIMING_QERR_NS then
       (ESP_ERR_INVALID_RESPONSE, if lock_clock got s then reject_sample_locked now s else s)
     else if \<not> lock_clock got s then (ESP_ERR_TIMEOUT, s)
     else if \<not> ck_solution_valid c then
       (ESP_OK, publish_state_locked now
          (s\<lparr>s_clock := take_first_sample pps_capture_us utc_seconds qerr_ns leap c\<rparr>))
     else if pps_capture_us \<le> ck_last_sample_capture_us c \<or>
             utc_seconds \<le> ck_last_sample_utc_seconds c then
       (ESP_ERR_INVALID_STATE, reject_sample_locked now s)
     else
       let local_elapsed_us = pps_capture_us - ck_last_sample_capture_us c;
           utc_elapsed_seconds = utc_seconds - ck_last_sample_utc_seconds c in
       if utc_elapsed_seconds \<le> 0 then (ESP_ERR_INVALID_STATE, reject_sample_locked now s)
       else
         let frequency_ppm =
               filtered_frequency_ppm (ck_frequency_ppm c) local_elapsed_us utc_elapsed_seconds;
             anchor_elapsed_us = pps_capture_us - ck_anchor_capture_us c;
             predicted_utc_seconds =
               utc_reading (ck_anchor_utc_seconds c) anchor_elapsed_us frequency_ppm;
             phase_error_ns = phase_error_of oor utc_seconds predicted_utc_seconds qerr_ns in
         if \<bar>phase_error_ns\<bar> > APP_CLOCK_MAX_ACCEPTABLE_ERROR_NS then
           (ESP_ERR_INVALID_RESPONSE, reject_sample_locked now
              (s\<lparr>s_clock := take_phase_reject pps_capture_us utc_seconds phase_error_ns c\<rparr>))
         else
           (ESP_OK, publish_state_locked now
              (s\<lparr>s_clock := take_sample pps_capture_us utc_seconds phase_error_ns leap
                   frequency_ppm c\<rparr>)))"

subsection \<open>The task and the initialisation\<close>

text \<open>What one round of \<open>clock_monitor_task\<close> sees, in the order it asks.\<close>

record clock_env =
  ce_event :: "pps_capture_event option"
  ce_publish_pps :: pps_status
  ce_sample_pps :: pps_status
  ce_poll_start :: int
  ce_poll :: "nat \<Rightarrow> int \<times> gnss_status option"
  ce_poll_fuel :: nat
  ce_submit_got :: bool
  ce_submit_now :: "u64 option"
  ce_gnss :: "gnss_status option"
  ce_update_pps :: pps_status
  ce_update_got :: bool
  ce_update_now :: "u64 option"
  ce_enforce_got :: bool
  ce_enforce_now :: "u64 option"
  ce_enforce_publish :: "u64 option"

definition consume_sample ::
    "(rat \<Rightarrow> int) \<Rightarrow> clock_env \<Rightarrow> pps_capture_event \<Rightarrow> clock_gnss_sample \<Rightarrow> clock_sys \<Rightarrow> clock_sys" where
  "consume_sample oor e ev g s =
    (let (err, s') = clock_discipline_submit_sample oor (ce_submit_got e) (ce_submit_now e)
           (capture_us ev) (gsm_utc_seconds g) (gsm_quantization_error_ns g)
           (gsm_leap_indicator g) s
     in if err = ESP_OK
        then s'\<lparr>s_last_tim_tp_valid := True, s_last_tim_tp_week := gsm_week g,
                s_last_tim_tp_tow_ms := gsm_tow_ms g\<rparr>
        else s')"

text \<open>One round; \<open>None\<close> is the poll loop out of fuel.\<close>

definition clock_monitor_round ::
    "(rat \<Rightarrow> int) \<Rightarrow> clock_env \<Rightarrow> clock_sys \<Rightarrow> clock_sys option" where
  "clock_monitor_round oor e s =
    (let s1 = publish_pps_status (ce_publish_pps e) s;
         polled = (case ce_event e of
             None \<Rightarrow> Some s1
           | Some ev \<Rightarrow>
               if pps_status_usable (ce_sample_pps e) then
                 (case wait_for_gnss_sample (ce_poll_fuel e) (ce_poll_start e) (ce_poll e) s1 of
                    None \<Rightarrow> None
                  | Some None \<Rightarrow> Some s1
                  | Some (Some g) \<Rightarrow> Some (consume_sample oor e ev g s1))
               else Some s1)
     in map_option (\<lambda>s2.
          enforce_holdover_policy (ce_enforce_got e) (ce_enforce_now e) (ce_enforce_publish e)
            (update_reference_state (ce_gnss e) (ce_update_pps e) (ce_update_got e)
               (ce_update_now e) s2)) polled)"

text \<open>
  \<open>mutex\<close> and \<open>task\<close> say whether FreeRTOS could create them. The initialisation has two steps: once the task is created it
  runs, and the snapshot is written after that.
\<close>

definition clock_init_task :: "bool \<Rightarrow> bool \<Rightarrow> clock_sys \<Rightarrow> esp_err \<times> clock_sys" where
  "clock_init_task mutex task s =
    (if ck_initialized (s_clock s) then (ESP_OK, s)
     else if \<not> mutex then (ESP_ERR_NO_MEM, s\<lparr>s_clock_mutex := False\<rparr>)
     else
       let s1 = s\<lparr>s_clock_mutex := True,
                  s_clock := clock_zero\<lparr>ck_initialized := True,
                    ck_state := APP_CLOCK_UNSYNCHRONIZED, ck_leap_indicator := APP_LEAP_UNKNOWN\<rparr>,
                  s_last_tim_tp_valid := False, s_last_tim_tp_week := 0, s_last_tim_tp_tow_ms := 0\<rparr>
       in if \<not> task then (ESP_ERR_NO_MEM, s1\<lparr>s_clock_mutex := False\<rparr>) else (ESP_OK, s1))"

definition clock_init_publish :: "clock_sys \<Rightarrow> clock_sys" where
  "clock_init_publish s =
     s\<lparr>s_app := app_state_set_clock_solution APP_CLOCK_UNSYNCHRONIZED False 0 0 0 0 0 0 (s_app s)\<rparr>"

definition clock_discipline_init :: "bool \<Rightarrow> bool \<Rightarrow> clock_sys \<Rightarrow> esp_err \<times> clock_sys" where
  "clock_discipline_init mutex task s =
    (let (err, s1) = clock_init_task mutex task s
     in (err, if err = ESP_OK \<and> \<not> ck_initialized (s_clock s) then clock_init_publish s1 else s1))"

text \<open>
  \<open>enter_fail_closed\<close> of \<open>src/main/app_main.c\<close>, which the start-up calls when a component cannot be initialised: it writes the
  snapshot only, and from the diagnostics on the task of the clock is already running then.
\<close>

definition enter_fail_closed :: "clock_sys \<Rightarrow> clock_sys" where
  "enter_fail_closed s =
     s\<lparr>s_app := app_state_set_clock_solution APP_CLOCK_FAIL_CLOSED False 0 0 0 0 0 0 (s_app s)\<rparr>"

subsection \<open>Reading the clock\<close>

definition servable :: "clock_context \<Rightarrow> bool" where
  "servable c \<longleftrightarrow>
     ck_solution_valid c \<and> (ck_state c = APP_CLOCK_SYNCHRONIZED \<or> ck_state c = APP_CLOCK_HOLDOVER)"

definition clock_discipline_get_ntp_timestamp ::
    "bool \<Rightarrow> u64 option \<Rightarrow> clock_sys \<Rightarrow> clock_ntp_timestamp option" where
  "clock_discipline_get_ntp_timestamp got now s =
    (let c = s_clock s in
     if \<not> ck_initialized c then None
     else if \<not> lock_clock got s then None
     else if \<not> servable c then None
     else case now of
       None \<Rightarrow> None
     | Some now_capture_us \<Rightarrow>
         if now_capture_us < ck_anchor_capture_us c then None
         else
           let elapsed_us = now_capture_us - ck_anchor_capture_us c;
               utc_seconds = utc_reading (ck_anchor_utc_seconds c) elapsed_us (ck_frequency_ppm c) in
           if utc_seconds < 0 then None
           else
             let integer_seconds = (word_of_int \<lfloor>utc_seconds\<rfloor> :: u64);
                 fractional_seconds = b64 (utc_seconds - double_of_u64 integer_seconds)
             in Some \<lparr> ct_seconds = ucast (integer_seconds + APP_NTP_EPOCH_DELTA),
                       ct_fraction = word_of_int \<lfloor>b64 (fractional_seconds * 4294967296)\<rfloor> \<rparr>)"

definition clamp_u32 :: "u64 \<Rightarrow> u32" where
  "clamp_u32 x = (if x > 0xFFFFFFFF then 0xFFFFFFFF else ucast x)"

definition clock_discipline_get_reference_timestamp ::
    "bool \<Rightarrow> u64 option \<Rightarrow> clock_sys \<Rightarrow> (clock_ntp_timestamp \<times> u32) option" where
  "clock_discipline_get_reference_timestamp got now s =
    (let c = s_clock s in
     if \<not> ck_initialized c then None
     else if \<not> lock_clock got s then None
     else if \<not> servable c \<or> \<not> ck_reference_timestamp_valid c \<or> ck_reference_utc_seconds c \<le> 0
     then None
     else case now of
       None \<Rightarrow> None
     | Some now_capture_us \<Rightarrow>
         if now_capture_us < ck_reference_capture_us c then None
         else Some (\<lparr> ct_seconds = ucast (word_of_int (ck_reference_utc_seconds c) + APP_NTP_EPOCH_DELTA),
                      ct_fraction = 0 \<rparr>,
                    clamp_u32 ((now_capture_us - ck_reference_capture_us c) div 1000000)))"

definition clock_discipline_get_status :: "bool \<Rightarrow> u64 option \<Rightarrow> clock_sys \<Rightarrow> clock_status option" where
  "clock_discipline_get_status got now s =
    (let c = s_clock s in
     if \<not> ck_initialized c then None
     else if \<not> lock_clock got s then None
     else
       let now_capture_us = now_or now (ck_last_sample_capture_us c);
           holdover_seconds = calculate_holdover_seconds_locked c now_capture_us;
           reference_valid = (ck_reference_timestamp_valid c \<and> servable c)
       in Some \<lparr> cs_initialized = ck_initialized c, cs_solution_valid = ck_solution_valid c,
                 cs_state = ck_state c, cs_phase_error_ns = ck_last_phase_error_ns c,
                 cs_frequency_ppm = ck_frequency_ppm c,
                 cs_accepted_samples = ck_accepted_samples c,
                 cs_rejected_samples = ck_rejected_samples c,
                 cs_holdover_seconds = holdover_seconds,
                 cs_root_dispersion_16_16 = calculate_dispersion_16_16_locked c holdover_seconds,
                 cs_reference_timestamp_valid = reference_valid,
                 cs_reference_utc_seconds = ck_reference_utc_seconds c,
                 cs_reference_age_seconds =
                   (if reference_valid \<and> ck_reference_capture_us c \<le> now_capture_us
                    then clamp_u32 ((now_capture_us - ck_reference_capture_us c) div 1000000)
                    else 0) \<rparr>)"

end
