(* ===== verification/Clock_Theory.thy ===== *)
theory Clock_Theory
  imports Clock
begin

text \<open>
  What the clock discipline guarantees: the invariant of its state machine over every interleaving
  of its operations, the bounds on frequency, phase and dispersion, and the accuracy and
  monotonicity of the timestamps it serves. The arithmetic lemmas are the ones of the
  \<open>rounding\<close> locale at \<open>b64\<close>, with the rounding error of \<open>Binary64\<close>.
\<close>

subsection \<open>Reachable states\<close>

text \<open>
  The operations that write the clock or its snapshot, in any order: the two steps of the initialisation, the start-up that
  gives up, samples, the parts of a round of the task.
\<close>

inductive clock_step :: "clock_sys \<Rightarrow> clock_sys \<Rightarrow> bool" where
  init_task: "clock_step s (snd (clock_init_task mutex task s))"
| init_publish: "ck_initialized (s_clock s) \<Longrightarrow> clock_step s (clock_init_publish s)"
| fail_closed: "clock_step s (enter_fail_closed s)"
| submit: "clock_step s (snd (clock_discipline_submit_sample oor got now cap utc qerr leap s))"
| update: "clock_step s (update_reference_state gnss pps got now s)"
| enforce: "clock_step s (enforce_holdover_policy got now now' s)"
| publish: "clock_step s (publish_pps_status st s)"
| consumed: "clock_step s (s\<lparr>s_last_tim_tp_valid := v, s_last_tim_tp_week := w, s_last_tim_tp_tow_ms := t\<rparr>)"

inductive clock_reachable :: "clock_sys \<Rightarrow> bool" where
  boot: "clock_reachable clock_boot"
| step: "clock_reachable s \<Longrightarrow> clock_step s t \<Longrightarrow> clock_reachable t"

definition clock_ok :: "clock_context \<Rightarrow> bool" where
  "clock_ok c \<longleftrightarrow>
     \<bar>ck_frequency_ppm c\<bar> \<le> 200 \<and> b64 (ck_frequency_ppm c) = ck_frequency_ppm c \<and>
     (ck_state c = APP_CLOCK_SYNCHRONIZED \<or> ck_state c = APP_CLOCK_HOLDOVER \<longrightarrow>
        ck_solution_valid c) \<and>
     (ck_solution_valid c \<longrightarrow>
        ck_initialized c \<and> ck_state c \<noteq> APP_CLOCK_UNSYNCHRONIZED \<and>
        ck_state c \<noteq> APP_CLOCK_FAIL_CLOSED \<and>
        ck_anchor_capture_us c = ck_last_sample_capture_us c \<and>
        ck_anchor_utc_seconds c = ck_last_sample_utc_seconds c \<and>
        ck_reference_timestamp_valid c \<and>
        0 < ck_reference_utc_seconds c \<and> ck_reference_utc_seconds c \<le> ck_anchor_utc_seconds c \<and>
        ck_reference_capture_us c \<le> ck_anchor_capture_us c \<and>
        uint (ck_consecutive_rejects c) < 3)"

text \<open>What the device snapshot says of the clock is what the clock's state says.\<close>

definition published :: "clock_sys \<Rightarrow> bool" where
  "published s \<longleftrightarrow>
     as_clock_state (s_app s) = ck_state (s_clock s) \<and>
     as_clock_solution_valid (s_app s) = ck_solution_valid (s_clock s) \<and>
     as_frequency_ppm (s_app s) = ck_frequency_ppm (s_clock s) \<and>
     as_phase_error_ns (s_app s) = ck_last_phase_error_ns (s_clock s) \<and>
     as_accepted_samples (s_app s) = ck_accepted_samples (s_clock s) \<and>
     as_rejected_samples (s_app s) = ck_rejected_samples (s_clock s)"

text \<open>
  What the initialisation and the start-up write instead. The snapshot shows either.
\<close>

definition no_solution_shown :: "app_state \<Rightarrow> bool" where
  "no_solution_shown a \<longleftrightarrow>
     as_clock_state a \<in> {APP_CLOCK_UNSYNCHRONIZED, APP_CLOCK_FAIL_CLOSED} \<and> \<not> as_clock_solution_valid a \<and>
     as_frequency_ppm a = 0 \<and> as_phase_error_ns a = 0 \<and> as_accepted_samples a = 0 \<and> as_rejected_samples a = 0"

definition shown :: "clock_sys \<Rightarrow> bool" where
  "shown s \<longleftrightarrow> published s \<or> no_solution_shown (s_app s)"

subsection \<open>Frequency\<close>

lemma b64_200 [simp]: "b64 200 = 200" "b64 (- 200) = - 200"
  using b64.of_int_exact [of 200] b64.of_int_exact [of "-200"] by simp_all

lemma filtered_frequency_bounds [simp, intro]:
  "\<bar>filtered_frequency_ppm f l u\<bar> \<le> 200"
  "b64 (filtered_frequency_ppm f l u) = filtered_frequency_ppm f l u"
  by (auto simp: filtered_frequency_ppm_def Let_def APP_CLOCK_MAX_FREQUENCY_PPM_def)

lemma zero_frequency [simp]: "b64 0 = 0" by simp

subsection \<open>The invariant\<close>

lemma publish_clock [simp]:
  "s_clock (publish_state_locked now s) = s_clock s"
  "s_clock_mutex (publish_state_locked now s) = s_clock_mutex s"
  "s_clock (publish_pps_status st s) = s_clock s"
  by (simp_all add: publish_state_locked_def publish_pps_status_def Let_def)

lemma published_publish [simp]: "published (publish_state_locked now s)"
  by (simp add: published_def publish_state_locked_def Let_def app_state_set_clock_solution_def)

lemma shown_publish [simp]: "shown (publish_state_locked now s)"
  by (simp add: shown_def)

lemma shown_other [simp]:
  "shown (publish_pps_status st s) = shown s"
  "shown (s\<lparr>s_last_tim_tp_valid := v, s_last_tim_tp_week := w, s_last_tim_tp_tow_ms := t\<rparr>) = shown s"
  "shown (clock_init_publish s)" "shown (enter_fail_closed s)"
  by (simp_all add: shown_def published_def no_solution_shown_def publish_pps_status_def app_state_set_pps_status_def
      clock_init_publish_def enter_fail_closed_def app_state_set_clock_solution_def)

lemma u32_incr_lt: "uint (x :: u32) < 3 \<Longrightarrow> uint (x + 1) = uint x + 1"
  by (simp add: uint_word_ariths)

definition rejected_once :: "clock_context \<Rightarrow> clock_context" where
  "rejected_once c = c\<lparr>ck_rejected_samples := ck_rejected_samples c + 1,
                       ck_consecutive_rejects := ck_consecutive_rejects c + 1\<rparr>"

definition reacquiring :: "clock_context \<Rightarrow> clock_context" where
  "reacquiring c = c\<lparr>ck_solution_valid := False, ck_state := APP_CLOCK_ACQUIRING,
                     ck_accepted_samples := 0, ck_frequency_ppm := 0\<rparr>"

lemma s_clock_reject:
  "s_clock (reject_sample_locked now s) =
     (if 3 \<le> ck_consecutive_rejects (s_clock s) + 1 then reacquiring (rejected_once (s_clock s))
      else rejected_once (s_clock s))"
  by (simp add: reject_sample_locked_def Let_def rejected_once_def reacquiring_def
      APP_CLOCK_MAX_CONSECUTIVE_REJECTS_def)

lemma clock_ok_reacquiring [simp]: "clock_ok (reacquiring c)"
  by (simp add: clock_ok_def reacquiring_def)

lemma clock_ok_rejected_once:
  "clock_ok c \<Longrightarrow> \<not> 3 \<le> ck_consecutive_rejects c + 1 \<Longrightarrow> clock_ok (rejected_once c)"
  unfolding word_le_def by (auto simp: clock_ok_def rejected_once_def)

lemma reject_clock_ok: "clock_ok (s_clock s) \<Longrightarrow> clock_ok (s_clock (reject_sample_locked now s))"
  by (simp add: s_clock_reject clock_ok_rejected_once)

lemma shown_reject [simp]: "shown (reject_sample_locked now s)"
  by (simp add: reject_sample_locked_def Let_def)

lemma take_first_ok: "ck_initialized c \<Longrightarrow> 0 < utc \<Longrightarrow> clock_ok (take_first_sample cap utc q leap c)"
  by (simp add: clock_ok_def take_first_sample_def)

lemma take_sample_ok:
  "clock_ok c \<Longrightarrow> ck_solution_valid c \<Longrightarrow> 0 < utc \<Longrightarrow>
   clock_ok (take_sample cap utc ph leap (filtered_frequency_ppm f l u) c)"
  by (auto simp: clock_ok_def take_sample_def)

lemma take_phase_reject_ok:
  "clock_ok c \<Longrightarrow> ck_solution_valid c \<Longrightarrow> ck_last_sample_capture_us c < cap \<Longrightarrow>
   ck_last_sample_utc_seconds c < utc \<Longrightarrow> clock_ok (take_phase_reject cap utc ph c)"
  by (auto simp: clock_ok_def take_phase_reject_def)

text \<open>The outcomes of a submission: what it returns and what becomes of the clock.\<close>

lemma submit_cases:
  assumes "clock_discipline_submit_sample oor got now cap utc q leap s = (err, t)"
  obtains (unchanged) "err = ESP_ERR_INVALID_ARG \<or> err = ESP_ERR_INVALID_RESPONSE \<or> err = ESP_ERR_TIMEOUT" "t = s"
  | (rejected) "err = ESP_ERR_INVALID_RESPONSE \<or> err = ESP_ERR_INVALID_STATE" "t = reject_sample_locked now s"
  | (first) "err = ESP_OK" "ck_initialized (s_clock s)" "0 < utc" "\<not> ck_solution_valid (s_clock s)"
      "\<bar>q\<bar> \<le> 50000"
      "t = publish_state_locked now (s\<lparr>s_clock := take_first_sample cap utc q leap (s_clock s)\<rparr>)"
  | (phase) ph where "err = ESP_ERR_INVALID_RESPONSE" "ck_solution_valid (s_clock s)"
      "ck_last_sample_capture_us (s_clock s) < cap" "ck_last_sample_utc_seconds (s_clock s) < utc"
      "250000000 < \<bar>ph\<bar>"
      "t = reject_sample_locked now (s\<lparr>s_clock := take_phase_reject cap utc ph (s_clock s)\<rparr>)"
  | (accepted) ph l u where "err = ESP_OK" "ck_solution_valid (s_clock s)" "0 < utc"
      "ck_last_sample_capture_us (s_clock s) < cap" "ck_last_sample_utc_seconds (s_clock s) < utc"
      "\<bar>ph\<bar> \<le> 250000000"
      "t = publish_state_locked now (s\<lparr>s_clock := take_sample cap utc ph leap
             (filtered_frequency_ppm (ck_frequency_ppm (s_clock s)) l u) (s_clock s)\<rparr>)"
proof -
  let ?c = "s_clock s"
  define fr where "fr = filtered_frequency_ppm (ck_frequency_ppm ?c)
    (cap - ck_last_sample_capture_us ?c) (utc - ck_last_sample_utc_seconds ?c)"
  define ph where "ph = phase_error_of oor utc
    (utc_reading (ck_anchor_utc_seconds ?c) (cap - ck_anchor_capture_us ?c) fr) q"
  note d = assms [unfolded clock_discipline_submit_sample_def Let_def
      APP_CLOCK_MAX_TIMING_QERR_NS_def APP_CLOCK_MAX_ACCEPTABLE_ERROR_NS_def,
      folded fr_def, folded ph_def]
  show thesis
  proof (cases "\<not> ck_initialized ?c \<or> cap = 0 \<or> utc \<le> 0")
    case True
    then show thesis using d by (intro unchanged) simp_all
  next
    case False
    note a = this
    show thesis
    proof (cases "\<bar>q\<bar> > 50000")
      case True
      then show thesis using a d by (cases "lock_clock got s") (intro unchanged rejected; simp)+
    next
      case False
      note b = this
      show thesis
      proof (cases "lock_clock got s \<and> ck_solution_valid ?c")
        case False
        then show thesis using a b d
          by (cases "lock_clock got s") (intro unchanged first; simp)+
      next
        case True
        note v = this
        consider "cap \<le> ck_last_sample_capture_us ?c \<or> utc \<le> ck_last_sample_utc_seconds ?c"
          | "ck_last_sample_capture_us ?c < cap" "ck_last_sample_utc_seconds ?c < utc" "250000000 < \<bar>ph\<bar>"
          | "ck_last_sample_capture_us ?c < cap" "ck_last_sample_utc_seconds ?c < utc" "\<bar>ph\<bar> \<le> 250000000"
          by fastforce
        then show thesis
        proof cases
          case 1
          then show thesis using a b v d by (intro rejected) simp_all
        next
          case 2
          then show thesis using a b v d 2(1) [unfolded not_le [symmetric]] by (intro phase) auto
        next
          case 3
          then show thesis using a b v d 3(1) [unfolded not_le [symmetric]] unfolding fr_def
            by (intro accepted) auto
        qed
      qed
    qed
  qed
qed

lemma submit_ok:
  assumes "clock_ok (s_clock s)" "shown s"
  shows "clock_ok (s_clock (snd (clock_discipline_submit_sample oor got now cap utc q leap s)))"
    and "shown (snd (clock_discipline_submit_sample oor got now cap utc q leap s))"
proof -
  obtain err t where e: "clock_discipline_submit_sample oor got now cap utc q leap s = (err, t)"
    by fastforce
  have "clock_ok (s_clock t) \<and> shown t"
    using e
  proof (cases rule: submit_cases)
    case unchanged
    then show ?thesis using assms by simp
  next
    case rejected
    then show ?thesis using reject_clock_ok [OF assms(1)] by simp
  next
    case first
    then show ?thesis by (simp add: take_first_ok)
  next
    case (phase ph)
    then show ?thesis using assms
      by (auto intro!: reject_clock_ok take_phase_reject_ok)
  next
    case (accepted ph l u)
    then show ?thesis using assms by (simp add: take_sample_ok)
  qed
  then show "clock_ok (s_clock (snd (clock_discipline_submit_sample oor got now cap utc q leap s)))"
    and "shown (snd (clock_discipline_submit_sample oor got now cap utc q leap s))"
    using e by simp_all
qed

lemma update_ok:
  assumes "clock_ok (s_clock s)" "shown s"
  shows "clock_ok (s_clock (update_reference_state gnss pps got now s)) \<and>
         shown (update_reference_state gnss pps got now s)"
  using assms
  by (auto simp: update_reference_state_def Let_def clock_ok_def split: option.splits)

lemma enforce_ok:
  assumes "clock_ok (s_clock s)" "shown s"
  shows "clock_ok (s_clock (enforce_holdover_policy got now now' s)) \<and>
         shown (enforce_holdover_policy got now now' s)"
  using assms
  by (auto simp: enforce_holdover_policy_def Let_def clock_ok_def split: option.splits)

lemma boot_ok: "clock_ok (s_clock clock_boot)" "shown clock_boot"
  by (simp_all add: clock_ok_def shown_def published_def clock_boot_def clock_zero_def app_state_init_def)

definition clock_sys_ok :: "clock_sys \<Rightarrow> bool" where
  "clock_sys_ok s \<longleftrightarrow> clock_ok (s_clock s) \<and> shown s \<and>
     (s_clock_mutex s \<longrightarrow> ck_initialized (s_clock s)) \<and>
     (\<not> ck_initialized (s_clock s) \<longrightarrow> s_clock s = clock_zero)"

lemma initialized_kept [simp]:
  "ck_initialized (s_clock (reject_sample_locked now s)) = ck_initialized (s_clock s)"
  "s_clock_mutex (reject_sample_locked now s) = s_clock_mutex s"
  "ck_initialized (take_first_sample cap utc q leap c) = ck_initialized c"
  "ck_initialized (take_sample cap utc ph leap f c) = ck_initialized c"
  "ck_initialized (take_phase_reject cap utc ph c) = ck_initialized c"
  by (simp_all add: reject_sample_locked_def Let_def take_first_sample_def take_sample_def
      take_phase_reject_def)

lemma submit_frame:
  "s_clock_mutex (snd (clock_discipline_submit_sample oor got now cap utc q leap s)) = s_clock_mutex s"
  "ck_initialized (s_clock (snd (clock_discipline_submit_sample oor got now cap utc q leap s)))
     = ck_initialized (s_clock s)"
  "\<not> ck_initialized (s_clock s) \<Longrightarrow>
     clock_discipline_submit_sample oor got now cap utc q leap s = (ESP_ERR_INVALID_ARG, s)"
  by (simp_all add: clock_discipline_submit_sample_def Let_def)

lemma update_frame:
  "s_clock_mutex (update_reference_state gnss pps got now s) = s_clock_mutex s"
  "ck_initialized (s_clock (update_reference_state gnss pps got now s)) = ck_initialized (s_clock s)"
  "\<not> s_clock_mutex s \<Longrightarrow> update_reference_state gnss pps got now s = s"
  by (simp_all add: update_reference_state_def Let_def lock_clock_def split: option.splits)

lemma enforce_frame:
  "s_clock_mutex (enforce_holdover_policy got now now' s) = s_clock_mutex s"
  "ck_initialized (s_clock (enforce_holdover_policy got now now' s)) = ck_initialized (s_clock s)"
  "\<not> s_clock_mutex s \<Longrightarrow> enforce_holdover_policy got now now' s = s"
  by (simp_all add: enforce_holdover_policy_def Let_def lock_clock_def split: option.splits)

lemma init_sys_ok: "clock_sys_ok s \<Longrightarrow> clock_sys_ok (snd (clock_init_task mutex task s))"
  by (auto simp: clock_sys_ok_def clock_init_task_def Let_def clock_ok_def shown_def published_def clock_zero_def)

lemma clock_step_sys_ok: "clock_step s t \<Longrightarrow> clock_sys_ok s \<Longrightarrow> clock_sys_ok t"
proof (induction rule: clock_step.induct)
  case (init_task s mutex task)
  then show ?case by (rule init_sys_ok)
next
  case (init_publish s)
  then show ?case by (simp add: clock_sys_ok_def) (simp add: clock_init_publish_def)
next
  case (fail_closed s)
  then show ?case by (simp add: clock_sys_ok_def) (simp add: enter_fail_closed_def)
next
  case (submit s oor got now cap utc qerr leap)
  show ?case
  proof (cases "ck_initialized (s_clock s)")
    case True
    then show ?thesis using submit submit_ok [of s oor got now cap utc qerr leap]
      by (simp add: clock_sys_ok_def submit_frame(1,2))
  next
    case False
    show ?thesis using submit submit_frame(3) [OF False] by simp
  qed
next
  case (update s gnss pps got now)
  then show ?case
    using update_ok [of s gnss pps got now] update_frame(3) [of s gnss pps got now]
    by (cases "s_clock_mutex s") (simp_all add: clock_sys_ok_def update_frame(1,2))
next
  case (enforce s got now now')
  then show ?case
    using enforce_ok [of s got now now'] enforce_frame(3) [of s got now now']
    by (cases "s_clock_mutex s") (simp_all add: clock_sys_ok_def enforce_frame(1,2))
next
  case (publish s st)
  then show ?case by (simp add: clock_sys_ok_def) (simp add: publish_pps_status_def)
next
  case (consumed s v w t)
  then show ?case by (simp add: clock_sys_ok_def)
qed

lemma clock_reachable_sys_ok: "clock_reachable s \<Longrightarrow> clock_sys_ok s"
proof (induction rule: clock_reachable.induct)
  case boot
  show ?case using boot_ok by (simp add: clock_sys_ok_def) (simp add: clock_boot_def)
next
  case (step s t)
  then show ?case by (blast intro: clock_step_sys_ok)
qed

lemma clock_reachable_ok: "clock_reachable s \<Longrightarrow> clock_ok (s_clock s)"
  using clock_reachable_sys_ok by (simp add: clock_sys_ok_def)

text \<open>A round of the task is a sequence of these steps.\<close>

lemma consume_reachable: "clock_reachable s \<Longrightarrow> clock_reachable (consume_sample oor e ev g s)"
proof -
  assume r: "clock_reachable s"
  obtain err t where e: "clock_discipline_submit_sample oor (ce_submit_got e) (ce_submit_now e)
       (capture_us ev) (gsm_utc_seconds g) (gsm_quantization_error_ns g) (gsm_leap_indicator g) s = (err, t)"
    by fastforce
  have t: "clock_reachable t"
    using clock_reachable.step [OF r clock_step.submit] e by (metis snd_conv)
  show ?thesis
    using t clock_reachable.step [OF t clock_step.consumed] by (simp add: consume_sample_def e)
qed

lemma round_reachable:
  "clock_reachable s \<Longrightarrow> clock_monitor_round oor e s = Some t \<Longrightarrow> clock_reachable t"
proof -
  assume r: "clock_reachable s" and m: "clock_monitor_round oor e s = Some t"
  let ?s1 = "publish_pps_status (ce_publish_pps e) s"
  have s1: "clock_reachable ?s1" using clock_reachable.step [OF r clock_step.publish] .
  have fin: "clock_reachable (enforce_holdover_policy a b c (update_reference_state g p h i s2))"
    if "clock_reachable s2" for s2 a b c g p h i
    using clock_reachable.step [OF clock_reachable.step [OF that clock_step.update] clock_step.enforce] .
  show ?thesis
    using m s1 consume_reachable [OF s1]
    by (auto simp: clock_monitor_round_def Let_def split: option.splits if_splits intro!: fin)
qed

subsection \<open>The poll loop ends\<close>

lemma gnss_poll_ends:
  assumes "0 < d" and "\<And>i. fst (obs i) + int d \<le> fst (obs (Suc i))"
    and "deadline \<le> fst (obs i) + int d * int fuel"
  shows "gnss_poll (Suc fuel) obs i deadline s \<noteq> None"
  using assms(3)
proof (induction fuel arbitrary: i)
  case 0
  then show ?case by simp
next
  case (Suc fuel)
  have "deadline \<le> fst (obs (Suc i)) + int d * int fuel"
    using Suc.prems assms(2) [of i] by (simp add: algebra_simps)
  then have "gnss_poll (Suc fuel) obs (Suc i) deadline s \<noteq> None" by (rule Suc.IH)
  then show ?case by (simp add: Let_def split: option.splits)
qed

lemma gnss_poll_sample:
  "gnss_poll fuel obs i deadline s = Some (Some g) \<Longrightarrow>
   \<exists>j st. snd (obs j) = Some st \<and> fst (obs j) < deadline \<and> gnss_sample_ready st s \<and>
     tim_tp_to_utc st = Some (gsm_utc_seconds g) \<and> \<bar>gsm_quantization_error_ns g\<bar> \<le> 50000 \<and>
     gsm_week g = gs_timing_week st \<and> gsm_tow_ms g = gs_timing_tow_ms st"
proof (induction fuel arbitrary: i)
  case (Suc fuel)
  then show ?case
    by (auto simp: Let_def APP_CLOCK_MAX_TIMING_QERR_NS_def split: if_splits option.splits) metis+
qed simp

subsection \<open>Dispersion\<close>

declare of_int_uint [simp del]

lemma wander_exact:
  "b64 (b64 (APP_CLOCK_HOLDOVER_WANDER_PPM * 1000) * double_of_int (uint (h :: u32)))
     = of_int (20000 * uint h)"
proof -
  have h: "0 \<le> uint h" "uint h < 2 ^ 32" using uint_lt2p [of h] by simp_all
  have "b64 20000 = 20000" using b64.of_int_exact [of 20000] by simp
  moreover have "double_of_int (uint h) = of_int (uint h)"
    unfolding double_of_int_def using h by (intro b64.of_int_exact) simp
  moreover have "b64 (of_int (20000 * uint h)) = of_int (20000 * uint h)"
    using h by (intro b64.of_int_exact) simp
  ultimately show ?thesis by (simp add: APP_CLOCK_HOLDOVER_WANDER_PPM_def)
qed

lemma dispersion_value:
  assumes "0 \<le> d" "d \<le> 1000000000"
  shows "uint ((word_of_int d * 65536 :: u64) div 1000000000) = d * 65536 div 1000000000"
proof -
  have "uint (word_of_int d :: u64) = d"
    using assms by (simp add: unsigned_of_int take_bit_int_eq_self_iff)
  then have "uint (word_of_int d * 65536 :: u64) = d * 65536"
    using assms by (simp add: uint_word_ariths)
  then show ?thesis by (simp add: uint_div)
qed

lemma dispersion_closed_form:
  "uint (calculate_dispersion_16_16_locked c h) =
     min 1000000000 (100000 + \<bar>ck_last_phase_error_ns c\<bar> + 20000 * uint h) * 65536 div 1000000000"
proof -
  let ?d1 = "100000 + \<bar>ck_last_phase_error_ns c\<bar> + 20000 * uint h"
  define d2 where "d2 = min 1000000000 ?d1"
  have d2: "0 \<le> d2" "d2 \<le> 1000000000" by (auto simp: d2_def)
  have wander: "(if of_int (20000 * uint h) > (0 :: rat)
      then 100000 + \<bar>ck_last_phase_error_ns c\<bar> + \<lfloor>of_int (20000 * uint h) :: rat\<rfloor>
      else 100000 + \<bar>ck_last_phase_error_ns c\<bar>) = ?d1"
    using uint_nonnegative [of h] by (cases "uint h = 0") (auto simp: less_le simp del: of_int_mult)
  have r: "uint ((word_of_int d2 * 65536 :: u64) div 1000000000) = d2 * 65536 div 1000000000"
    by (rule dispersion_value [OF d2])
  have le: "d2 * 65536 div 1000000000 \<le> 65536" using d2 by linarith
  then have small: "(word_of_int d2 * 65536 :: u64) div 1000000000 \<le> 0xFFFFFFFF"
    unfolding word_le_def r by simp
  have clip: "(if ?d1 > 1000000000 then 1000000000 else ?d1) = d2" by (simp add: d2_def)
  have "calculate_dispersion_16_16_locked c h = ucast ((word_of_int d2 * 65536 :: u64) div 1000000000)"
    unfolding calculate_dispersion_16_16_locked_def Let_def wander_exact
      APP_CLOCK_BASE_DISPERSION_NS_def wander APP_CLOCK_MAX_HOLDOVER_DISPERSION_NS_def clip
    using small by (simp only: not_less [symmetric] if_False)
  then show ?thesis using ucast_small_u64 [OF small] r by (simp add: d2_def)
qed

subsection \<open>The reading of the clock\<close>

lemma double_of_u64_exact: "uint w \<le> 2 ^ 53 \<Longrightarrow> double_of_u64 w = of_int (uint w)"
  unfolding double_of_u64_def by (intro b64.of_int_exact) simp

lemma double_of_int_exact: "\<bar>i\<bar> \<le> 2 ^ 53 \<Longrightarrow> double_of_int i = of_int i"
  unfolding double_of_int_def by (rule b64.of_int_exact)

text \<open>The rate factor is within 200 ppm of one, up to the rounding.\<close>

lemma rate_factor:
  assumes "\<bar>f\<bar> \<le> 200"
  shows "\<bar>b64 (1 + b64 (f / 1000000)) - 1\<bar> \<le> 2 / 10000 + 3 / 2 ^ 54"
    and "0 \<le> b64 (1 + b64 (f / 1000000))"
proof -
  let ?g = "b64 (f / 1000000)"
  have f: "\<bar>f / 1000000\<bar> \<le> 2 / 10000" using assms by simp
  have "\<bar>?g - f / 1000000\<bar> \<le> 2 ^ 0 / 2 ^ 54" using f by (intro b64_error_nat) simp
  then have "\<bar>?g - f / 1000000\<bar> + \<bar>f / 1000000\<bar> \<le> 2 ^ 0 / 2 ^ 54 + 2 / 10000"
    using f by (rule add_mono)
  then have g: "\<bar>?g\<bar> \<le> 2 / 10000 + 1 / 2 ^ 54"
    using abs_triangle_ineq [of "?g - f / 1000000" "f / 1000000"] by simp
  then have "\<bar>b64 (1 + ?g) - (1 + ?g)\<bar> \<le> 2 ^ 1 / 2 ^ 54" by (intro b64_error_nat) simp
  then show d: "\<bar>b64 (1 + ?g) - 1\<bar> \<le> 2 / 10000 + 3 / 2 ^ 54"
    using g abs_triangle_ineq [of "b64 (1 + ?g) - (1 + ?g)" ?g] by simp
  show "0 \<le> b64 (1 + ?g)" using abs_le_D2 [OF d] by simp
qed


lemma reading_arith:
  fixes x X G P u a :: rat
  assumes "0 \<le> x" "x \<le> 2 ^ 14" and X: "\<bar>X - x\<bar> \<le> 2 ^ 14 / 2 ^ 54"
    and G: "\<bar>G - 1\<bar> \<le> 2 / 10000 + 3 / 2 ^ 54"
    and P: "\<bar>P - X * G\<bar> \<le> 2 ^ 15 / 2 ^ 54" and u: "\<bar>u - (a + P)\<bar> \<le> 2 ^ 33 / 2 ^ 54"
  shows "\<bar>u - (a + x)\<bar> \<le> x * (2 / 10000) + 1 / 2000000"
proof -
  have "\<bar>X * (G - 1)\<bar> \<le> (x + 2 ^ 14 / 2 ^ 54) * (2 / 10000 + 3 / 2 ^ 54)"
    unfolding abs_mult using X G assms(1) by (intro mult_mono) linarith+
  also have "\<dots> = x * (2 / 10000) + x * (3 / 2 ^ 54) + (2 ^ 14 / 2 ^ 54) * (2 / 10000 + 3 / 2 ^ 54)"
    by (simp add: algebra_simps)
  also have "\<dots> \<le> x * (2 / 10000) + 2 ^ 14 * (3 / 2 ^ 54) + (2 ^ 14 / 2 ^ 54) * (2 / 10000 + 3 / 2 ^ 54)"
    using assms(2) by (intro add_mono mult_right_mono) auto
  finally have m: "\<bar>X * G - X\<bar> \<le> x * (2 / 10000) + 2 ^ 14 * (3 / 2 ^ 54)
      + (2 ^ 14 / 2 ^ 54) * (2 / 10000 + 3 / 2 ^ 54)"
    by (simp add: algebra_simps)
  have "\<bar>u - (a + x)\<bar> \<le> \<bar>u - (a + P)\<bar> + \<bar>P - X * G\<bar> + \<bar>X * G - X\<bar> + \<bar>X - x\<bar>" by linarith
  also have "\<dots> \<le> 2 ^ 33 / 2 ^ 54 + 2 ^ 15 / 2 ^ 54 + (x * (2 / 10000) + 2 ^ 14 * (3 / 2 ^ 54)
      + (2 ^ 14 / 2 ^ 54) * (2 / 10000 + 3 / 2 ^ 54)) + 2 ^ 14 / 2 ^ 54"
    using X P u m by (intro add_mono)
  also have "\<dots> \<le> x * (2 / 10000) + 1 / 2000000" by simp
  finally show ?thesis .
qed

lemma utc_reading_error:
  assumes a: "0 \<le> a" "a < 2 ^ 32" and e: "uint e \<le> 2 ^ 33" and f: "\<bar>f\<bar> \<le> 200"
  shows "\<bar>utc_reading a e f - (of_int a + of_int (uint e) / 1000000)\<bar>
           \<le> of_int (uint e) / 1000000 * (2 / 10000) + 1 / 2000000"
proof -
  define x :: rat where "x = of_int (uint e) / 1000000"
  define X where "X = b64 (double_of_u64 e / 1000000)"
  define G where "G = b64 (1 + b64 (f / 1000000))"
  define P where "P = b64 (X * G)"
  have "(of_int (uint e) :: rat) \<le> 2 ^ 33" using e of_int_le_iff [of "uint e" "2 ^ 33", where ?'a = rat] by simp
  then have x: "0 \<le> x" "x \<le> 2 ^ 14" by (simp_all add: x_def)
  have "double_of_u64 e = of_int (uint e)" using e by (intro double_of_u64_exact) simp
  then have Xx: "X = b64 x" by (simp only: X_def x_def)
  have X: "\<bar>X - x\<bar> \<le> 2 ^ 14 / 2 ^ 54"
    unfolding Xx using x by (intro b64_error_nat) simp
  have G: "\<bar>G - 1\<bar> \<le> 2 / 10000 + 3 / 2 ^ 54" "0 \<le> G"
    unfolding G_def using rate_factor [OF f] by simp_all
  have X': "0 \<le> X" "X \<le> 16385"
    using b64.nonneg [OF x(1)] b64.le_of_int [of 16385 x] x unfolding Xx by simp_all
  have "G \<le> 3 / 2" using abs_le_D1 [OF G(1)] by simp
  then have "X * G \<le> 16385 * (3 / 2)" using X' G by (intro mult_mono) auto
  then have XG: "\<bar>X * G\<bar> \<le> 2 ^ 15" using X' G by (simp add: abs_mult)
  then have P: "\<bar>P - X * G\<bar> \<le> 2 ^ 15 / 2 ^ 54" unfolding P_def by (rule b64_error_nat)
  have ra: "(of_int a :: rat) \<le> 2 ^ 32" "0 \<le> (of_int a :: rat)"
    using a of_int_le_iff [of a "2 ^ 32", where ?'a = rat] by simp_all
  have "\<bar>P\<bar> \<le> 2 ^ 15 + 1" using P XG abs_triangle_ineq [of "P - X * G" "X * G"] by simp
  then have "\<bar>of_int a + P\<bar> \<le> 2 ^ 33"
    using ra abs_triangle_ineq [of "of_int a" P] by simp
  then have "\<bar>b64 (of_int a + P) - (of_int a + P)\<bar> \<le> 2 ^ 33 / 2 ^ 54" by (rule b64_error_nat)
  moreover have "utc_reading a e f = b64 (of_int a + P)"
    using a by (simp add: utc_reading_def P_def X_def G_def double_of_int_exact)
  ultimately show ?thesis unfolding x_def [symmetric]
    using x X G P by (intro reading_arith [of x X G P]) simp_all
qed


subsection \<open>Served timestamps\<close>

definition ts_units :: "clock_ntp_timestamp \<Rightarrow> int" where
  "ts_units t = uint (ct_seconds t) * 2 ^ 32 + uint (ct_fraction t)"

text \<open>Scaling by a power of two is exact.\<close>

lemma b64_scale32: "b64 x = x \<Longrightarrow> b64 (x * 4294967296) = x * 4294967296"
proof -
  assume x: "b64 x = x"
  obtain m e where m: "\<bar>m\<bar> \<le> 2 ^ 53" "-1074 \<le> e" "x = of_int m * 2 powi e"
    using b64.representable [of x] x by auto
  then have eq: "x * 4294967296 = of_int m * 2 powi (e + 32)" by (simp add: powi_split)
  show ?thesis unfolding eq using m by (intro b64.exact) simp_all
qed

lemma floor_split:
  fixes u :: rat
  shows "\<lfloor>u * 4294967296\<rfloor> = \<lfloor>u\<rfloor> * 4294967296 + \<lfloor>(u - of_int \<lfloor>u\<rfloor>) * 4294967296\<rfloor>"
proof -
  have "u * 4294967296 = of_int (\<lfloor>u\<rfloor> * 4294967296) + (u - of_int \<lfloor>u\<rfloor>) * 4294967296"
    by (simp add: algebra_simps)
  then show ?thesis by (metis floor_add_int add.commute)
qed

lemma mod_2_64_split:
  fixes q r :: int
  assumes "0 \<le> r" "r < 2 ^ 32"
  shows "(q * 2 ^ 32 + r) mod 2 ^ 64 = (q mod 2 ^ 32) * 2 ^ 32 + r"
proof -
  let ?q = "q mod 2 ^ 32"
  have "q * 4294967296 + r = (q mod 4294967296 * 4294967296 + r)
      + 18446744073709551616 * (q div 4294967296)"
    using mult_div_mod_eq [of "4294967296" q] by linarith
  then have "q * 2 ^ 32 + r = (?q * 2 ^ 32 + r) + 2 ^ 64 * (q div 2 ^ 32)" by simp
  then have "(q * 2 ^ 32 + r) mod 2 ^ 64 = (?q * 2 ^ 32 + r) mod 2 ^ 64"
    by (simp only: mod_mult_self2)
  also have "\<dots> = ?q * 2 ^ 32 + r"
    using assms pos_mod_bound [of "2 ^ 32" q] pos_mod_sign [of "2 ^ 32" q]
    by (intro mod_pos_pos_trivial) simp_all
  finally show ?thesis .
qed

lemma timestamp_units:
  assumes u: "0 \<le> u" "u < 2 ^ 34" "b64 u = u"
  shows "let i = (word_of_int \<lfloor>u\<rfloor> :: u64)
         in ts_units \<lparr> ct_seconds = ucast (i + APP_NTP_EPOCH_DELTA),
              ct_fraction = word_of_int \<lfloor>b64 (b64 (u - double_of_u64 i) * 4294967296)\<rfloor> \<rparr>
            = (\<lfloor>u * 4294967296\<rfloor> + 2208988800 * 2 ^ 32) mod 2 ^ 64"
proof -
  let ?i = "word_of_int \<lfloor>u\<rfloor> :: u64" and ?fr = "u - of_int \<lfloor>u\<rfloor>"
  have fl: "0 \<le> \<lfloor>u\<rfloor>" "\<lfloor>u\<rfloor> < 2 ^ 34" using u by (simp_all add: floor_less_iff)
  have ui: "uint ?i = \<lfloor>u\<rfloor>" using fl by (simp add: unsigned_of_int take_bit_int_eq_self_iff)
  have "double_of_u64 ?i = of_int \<lfloor>u\<rfloor>"
    using fl ui by (subst double_of_u64_exact) simp_all
  moreover have "b64 ?fr = ?fr" using b64.frac_exact(2) [OF u(3,1)] .
  ultimately have frac: "b64 (b64 (u - double_of_u64 ?i) * 4294967296) = ?fr * 4294967296"
    by (simp only: b64_scale32)
  have "0 \<le> ?fr" "?fr < 1" by linarith+
  then have fr: "0 \<le> \<lfloor>?fr * 4294967296\<rfloor>" "\<lfloor>?fr * 4294967296\<rfloor> < 2 ^ 32"
    by (simp_all add: floor_less_iff)
  then have cf: "uint (word_of_int \<lfloor>?fr * 4294967296\<rfloor> :: u32) = \<lfloor>?fr * 4294967296\<rfloor>"
    by (simp add: unsigned_of_int take_bit_int_eq_self_iff)
  have "uint (?i + APP_NTP_EPOCH_DELTA) = \<lfloor>u\<rfloor> + 2208988800"
    using fl ui by (simp add: uint_word_ariths APP_NTP_EPOCH_DELTA_def)
  then have cs: "uint (ucast (?i + APP_NTP_EPOCH_DELTA) :: u32) = (\<lfloor>u\<rfloor> + 2208988800) mod 2 ^ 32"
    by (simp add: unsigned_ucast_eq take_bit_eq_mod)
  have "\<lfloor>u * 4294967296\<rfloor> + 2208988800 * 2 ^ 32 = (\<lfloor>u\<rfloor> + 2208988800) * 2 ^ 32 + \<lfloor>?fr * 4294967296\<rfloor>"
    by (simp only: floor_split [of u]) simp
  then have "(\<lfloor>u * 4294967296\<rfloor> + 2208988800 * 2 ^ 32) mod 2 ^ 64
      = ((\<lfloor>u\<rfloor> + 2208988800) mod 2 ^ 32) * 2 ^ 32 + \<lfloor>?fr * 4294967296\<rfloor>"
    by (simp only: mod_2_64_split [OF fr])
  then show ?thesis
    unfolding Let_def ts_units_def frac clock_ntp_timestamp.simps cf cs by (simp only:)
qed

lemma served_reading:
  assumes "clock_ok (s_clock s)" and "ck_anchor_utc_seconds (s_clock s) < 2 ^ 32"
    and "clock_discipline_get_ntp_timestamp got (Some now) s = Some t"
    and "uint now - uint (ck_anchor_capture_us (s_clock s)) \<le> 2 ^ 33"
  defines "e \<equiv> now - ck_anchor_capture_us (s_clock s)"
    and "u \<equiv> utc_reading (ck_anchor_utc_seconds (s_clock s)) (now - ck_anchor_capture_us (s_clock s))
              (ck_frequency_ppm (s_clock s))"
  shows "uint e = uint now - uint (ck_anchor_capture_us (s_clock s))"
    and "ts_units t = (\<lfloor>u * 4294967296\<rfloor> + 2208988800 * 2 ^ 32) mod 2 ^ 64"
    and "\<bar>u - (of_int (ck_anchor_utc_seconds (s_clock s)) + of_int (uint e) / 1000000)\<bar>
           \<le> of_int (uint e) / 1000000 * (2 / 10000) + 1 / 2000000"
    and "0 \<le> u" and "u < 2 ^ 34"
proof -
  let ?c = "s_clock s"
  have g: "servable ?c" "ck_anchor_capture_us ?c \<le> now" "0 \<le> u"
    and t: "t = (let i = (word_of_int \<lfloor>u\<rfloor> :: u64)
         in \<lparr> ct_seconds = ucast (i + APP_NTP_EPOCH_DELTA),
              ct_fraction = word_of_int \<lfloor>b64 (b64 (u - double_of_u64 i) * 4294967296)\<rfloor> \<rparr>)"
    using assms(3) unfolding u_def
    by (simp_all add: clock_discipline_get_ntp_timestamp_def Let_def not_less split: if_splits)
  show e: "uint e = uint now - uint (ck_anchor_capture_us ?c)"
    unfolding e_def using g(2) by (simp add: uint_minus_simple_alt [symmetric])
  have ok: "0 < ck_anchor_utc_seconds ?c" "\<bar>ck_frequency_ppm ?c\<bar> \<le> 200"
    using assms(1) g(1) by (auto simp: clock_ok_def servable_def)
  show err: "\<bar>u - (of_int (ck_anchor_utc_seconds ?c) + of_int (uint e) / 1000000)\<bar>
           \<le> of_int (uint e) / 1000000 * (2 / 10000) + 1 / 2000000"
    unfolding u_def e_def using ok assms(2,4) e unfolding e_def by (intro utc_reading_error) simp_all
  show "0 \<le> u" by (fact g(3))
  have "(of_int (uint e) :: rat) \<le> 2 ^ 33"
    using e assms(4) of_int_le_iff [of "uint e" "2 ^ 33", where ?'a = rat] by simp
  moreover have "(of_int (ck_anchor_utc_seconds ?c) :: rat) \<le> 2 ^ 32"
    using assms(2) of_int_le_iff [of "ck_anchor_utc_seconds ?c" "2 ^ 32", where ?'a = rat] by simp
  ultimately show lt: "u < 2 ^ 34" using abs_le_D1 [OF err] by simp
  have "b64 u = u" by (simp add: u_def utc_reading_def)
  then show "ts_units t = (\<lfloor>u * 4294967296\<rfloor> + 2208988800 * 2 ^ 32) mod 2 ^ 64"
    using timestamp_units [OF g(3) lt] unfolding t Let_def by simp
qed


subsection \<open>A concrete history\<close>

text \<open>
  A clock that sees perfect seconds: the edge comes exactly 1000000 microseconds after the last
  one, with the next UTC second. The correction stays zero and the phase error is the receiver's
  quantization error. Thirty-two of them lock the clock; the witnesses use the history
  \<open>clock_locked\<close>.
\<close>

lemma b64_int_simps [simp]: "b64 1000000 = 1000000" "b64 (1 :: rat) = 1"
  using b64.of_int_exact [of 1000000] by simp_all

lemma perfect_frequency: "filtered_frequency_ppm 0 1000000 1 = 0"
  by (simp add: filtered_frequency_ppm_def Let_def double_of_int_def double_of_u64_def
      APP_CLOCK_MAX_FREQUENCY_PPM_def of_int_uint)

lemma reading_whole_seconds:
  assumes "\<bar>a\<bar> < 2 ^ 52" "n < 2 ^ 20"
  shows "utc_reading a (of_nat (1000000 * n)) 0 = of_int (a + int n)"
proof -
  have "uint (of_nat (1000000 * n) :: u64) = 1000000 * int n"
    using assms(2) by (simp only: unsigned_of_nat) (simp add: take_bit_nat_eq_self)
  then have "double_of_u64 (of_nat (1000000 * n)) / 1000000 = of_int (int n)"
    using assms(2) by (simp add: double_of_u64_exact)
  moreover have "b64 (of_int (int n)) = of_int (int n)" using assms(2) by (intro b64.of_int_exact) simp
  moreover have "b64 (of_int a + of_int (int n)) = of_int a + of_int (int n)"
    using assms b64.of_int_exact [of "a + int n"] by simp
  moreover have "double_of_int a = of_int a" using assms by (intro double_of_int_exact) simp
  ultimately show ?thesis by (simp add: utc_reading_def)
qed

definition perfect_second :: "clock_sys \<Rightarrow> clock_sys" where
  "perfect_second s = snd (clock_discipline_submit_sample floor True None
     (ck_last_sample_capture_us (s_clock s) + 1000000) (ck_last_sample_utc_seconds (s_clock s) + 1)
     12 APP_LEAP_NO_WARNING s)"

definition perfect_clock :: "nat \<Rightarrow> int \<Rightarrow> nat \<Rightarrow> clock_sys \<Rightarrow> bool" where
  "perfect_clock k u j s \<longleftrightarrow>
     s_clock_mutex s \<and> ck_initialized (s_clock s) \<and> ck_solution_valid (s_clock s) \<and>
     ck_frequency_ppm (s_clock s) = 0 \<and>
     ck_anchor_capture_us (s_clock s) = of_nat (1000000 * k) \<and>
     ck_last_sample_capture_us (s_clock s) = of_nat (1000000 * k) \<and>
     ck_anchor_utc_seconds (s_clock s) = u \<and> ck_last_sample_utc_seconds (s_clock s) = u \<and>
     ck_reference_timestamp_valid (s_clock s) \<and> ck_reference_utc_seconds (s_clock s) = u \<and>
     ck_reference_capture_us (s_clock s) = of_nat (1000000 * k) \<and>
     ck_consecutive_rejects (s_clock s) = 0 \<and>
     ck_accepted_samples (s_clock s) = of_nat j"

lemma perfect_second_clock:
  assumes p: "perfect_clock k u j s" and b: "0 < k" "k < 2 ^ 19" "0 < u" "u < 2 ^ 51"
  shows "perfect_second s = publish_state_locked None
     (s\<lparr>s_clock := take_sample (of_nat (1000000 * Suc k)) (u + 1) 12 APP_LEAP_NO_WARNING 0 (s_clock s)\<rparr>)"
proof -
  let ?l = "of_nat (1000000 * k) :: u64" and ?n = "of_nat (1000000 * Suc k) :: u64"
  have n: "?l + 1000000 = ?n" by (simp add: algebra_simps)
  have ul: "uint ?l = 1000000 * int k" "uint ?n = 1000000 * int k + 1000000"
    using b by (simp_all only: unsigned_of_nat) (simp_all add: take_bit_nat_eq_self)
  have ne: "?n \<noteq> 0" "\<not> ?n \<le> ?l" "?n - ?l = 1000000"
    using ul n by (auto simp: word_le_def simp flip: n)
  have rd: "utc_reading u 1000000 0 = of_int (u + 1)"
    using reading_whole_seconds [of u 1] b by simp
  have ph: "phase_error_of floor (u + 1) (of_int (u + 1)) 12 = 12"
  proof -
    have "\<lfloor>1 / 2 :: rat\<rfloor> = 0" by (rule floor_unique) simp_all
    then show ?thesis using b by (simp add: phase_error_of_def llround_def double_of_int_exact)
  qed
  show ?thesis
    using p b ne rd ph
    unfolding perfect_second_def clock_discipline_submit_sample_def Let_def perfect_clock_def n
    by (simp add: n perfect_frequency lock_clock_def APP_CLOCK_MAX_TIMING_QERR_NS_def
        APP_CLOCK_MAX_ACCEPTABLE_ERROR_NS_def del: of_nat_mult of_nat_Suc of_int_add)
qed

lemma perfect_clock_step:
  assumes "perfect_clock k u j s" "0 < k" "k < 2 ^ 19" "0 < u" "u < 2 ^ 51"
  shows "perfect_clock (Suc k) (u + 1) (Suc j) (perfect_second s)"
  using assms unfolding perfect_second_clock [OF assms]
  by (simp add: perfect_clock_def take_sample_def publish_state_locked_def Let_def add.commute)

lemma perfect_clock_steps:
  assumes "perfect_clock k u j s" "0 < k" "k + n < 2 ^ 19" "0 < u" "u + int n < 2 ^ 51"
  shows "perfect_clock (k + n) (u + int n) (j + n) ((perfect_second ^^ n) s)"
  using assms(3,5)
proof (induction n)
  case 0
  then show ?case using assms(1) by simp
next
  case (Suc n)
  then have "perfect_clock (k + n) (u + int n) (j + n) ((perfect_second ^^ n) s)" by simp
  from perfect_clock_step [OF this] show ?case
    using Suc.prems assms by (simp add: add.commute add.left_commute)
qed

definition clock_started :: clock_sys where
  "clock_started = snd (clock_discipline_init True True clock_boot)"

definition clock_first_fix :: clock_sys where
  "clock_first_fix = snd (clock_discipline_submit_sample floor True None 5000000 1749999976 12
     APP_LEAP_NO_WARNING clock_started)"

definition clock_locked :: clock_sys where
  "clock_locked = (perfect_second ^^ 31) clock_first_fix"

lemma clock_started_reachable: "clock_reachable clock_started"
proof -
  let ?s = "snd (clock_init_task True True clock_boot)"
  have i: "ck_initialized (s_clock ?s)" by (simp add: clock_init_task_def clock_boot_def clock_zero_def Let_def)
  have "clock_started = clock_init_publish ?s"
    by (simp add: clock_started_def clock_discipline_init_def clock_init_task_def clock_boot_def clock_zero_def Let_def)
  then show ?thesis
    using clock_reachable.step [OF clock_reachable.step [OF clock_reachable.boot clock_step.init_task] clock_step.init_publish [OF i]]
    by simp
qed

lemma clock_first_fix_reachable: "clock_reachable clock_first_fix"
  unfolding clock_first_fix_def
  by (intro clock_reachable.step [OF clock_started_reachable clock_step.submit])

lemma perfect_reachable: "clock_reachable s \<Longrightarrow> clock_reachable ((perfect_second ^^ n) s)"
proof (induction n)
  case (Suc n)
  then have "clock_reachable ((perfect_second ^^ n) s)" by simp
  then have "clock_reachable (perfect_second ((perfect_second ^^ n) s))"
    unfolding perfect_second_def by (rule clock_reachable.step [OF _ clock_step.submit])
  then show ?case by simp
qed simp

lemma clock_locked_reachable: "clock_reachable clock_locked"
  unfolding clock_locked_def by (intro perfect_reachable clock_first_fix_reachable)

lemma clock_first_fix_perfect: "perfect_clock 5 1749999976 1 clock_first_fix"
  by (simp add: perfect_clock_def clock_first_fix_def clock_started_def clock_boot_def clock_zero_def
      clock_discipline_init_def clock_init_task_def clock_init_publish_def clock_discipline_submit_sample_def Let_def lock_clock_def
      take_first_sample_def publish_state_locked_def APP_CLOCK_MAX_TIMING_QERR_NS_def)

lemma clock_locked_perfect: "perfect_clock 36 1750000007 32 clock_locked"
  using perfect_clock_steps [OF clock_first_fix_perfect, of 31] by (simp add: clock_locked_def)

lemma clock_locked_state: "ck_state (s_clock clock_locked) = APP_CLOCK_SYNCHRONIZED"
proof -
  let ?s = "(perfect_second ^^ 30) clock_first_fix"
  have p: "perfect_clock 35 1750000006 31 ?s"
    using perfect_clock_steps [OF clock_first_fix_perfect, of 30] by simp
  have eq: "clock_locked = perfect_second ?s" using funpow.simps(2) [of 30 perfect_second] by (simp add: clock_locked_def)
  have "ck_accepted_samples (s_clock ?s) = 31" using p by (simp add: perfect_clock_def)
  then show ?thesis
    unfolding eq using perfect_second_clock [OF p]
    by (simp add: take_sample_def APP_CLOCK_LOCK_SAMPLES_def)
qed

subsection \<open>Properties\<close>

text \<open>
  C1: The clock's state machine. In every state that any interleaving of the two steps of the
  initialisation, samples, reference updates, holdover enforcement, publishing and a start-up that
  gives up can reach: the clock claims to be synchronised or in holdover only with a valid solution; a
  valid solution has a reference second no later than its anchor, fewer than three rejected samples in
  a row, and is never in the unsynchronised or fail-closed state; the frequency correction is a double
  within 200 ppm. The device snapshot shows exactly the clock, or, after the initialisation or the
  start-up has written it, no solution; so it never shows a solution the clock does not have, and
  the next holdover check that gets the mutex and the time makes it show the clock again.
\<close>
theorem clock_state_invariant:
  assumes "clock_reachable s"
  shows "let c = s_clock s in
    (ck_state c \<in> {APP_CLOCK_SYNCHRONIZED, APP_CLOCK_HOLDOVER} \<longrightarrow> ck_solution_valid c) \<and>
    (ck_solution_valid c \<longrightarrow>
       ck_state c \<notin> {APP_CLOCK_UNSYNCHRONIZED, APP_CLOCK_FAIL_CLOSED} \<and>
       ck_reference_timestamp_valid c \<and> 0 < ck_reference_utc_seconds c \<and>
       ck_reference_utc_seconds c \<le> ck_anchor_utc_seconds c \<and>
       uint (ck_consecutive_rejects c) < 3) \<and>
    \<bar>ck_frequency_ppm c\<bar> \<le> 200 \<and> b64 (ck_frequency_ppm c) = ck_frequency_ppm c \<and>
    (published s \<or> no_solution_shown (s_app s)) \<and>
    (as_clock_solution_valid (s_app s) \<longrightarrow>
       ck_solution_valid c \<and> as_clock_state (s_app s) = ck_state c \<and> as_frequency_ppm (s_app s) = ck_frequency_ppm c) \<and>
    (lock_clock got s \<longrightarrow> published (enforce_holdover_policy got (Some now) now' s))"
proof -
  have ok: "clock_ok (s_clock s)" "shown s" using clock_reachable_sys_ok [OF assms] by (simp_all add: clock_sys_ok_def)
  have "lock_clock got s \<longrightarrow> published (enforce_holdover_policy got (Some now) now' s)"
    by (simp add: enforce_holdover_policy_def Let_def)
  moreover have "as_clock_solution_valid (s_app s) \<longrightarrow> published s" using ok(2) by (auto simp: shown_def no_solution_shown_def)
  ultimately show ?thesis using ok(1) ok(2) [unfolded shown_def]
    unfolding Let_def clock_ok_def published_def by blast
qed

theorem clock_state_invariant_witness:
  "ck_solution_valid (s_clock clock_locked) \<and> published (enforce_holdover_policy True (Some 38000000) None clock_locked)"
  using clock_state_invariant [OF clock_locked_reachable, of True 38000000 None] clock_locked_state clock_locked_perfect
  by (simp add: Let_def perfect_clock_def lock_clock_def)

text \<open>
  C5: Holdover. When the monitor takes the mutex and reads the timer, an age of the last sample of
  3601 s or more (with the 3600 s the build is configured for) makes the clock fail closed: the solution is dropped and neither the time nor the
  reference time can be read from it. Below that a clock that could serve keeps serving: it is in
  holdover once the sample is a second old.
\<close>
theorem clock_holdover_policy:
  assumes "lock_clock got s" and "ck_solution_valid (s_clock s)"
    and "uint now = uint (ck_last_sample_capture_us (s_clock s)) + age" and "0 \<le> age"
    and "age < 4294967296000000"
  shows "let t = enforce_holdover_policy got (Some now) now' s in
    (3601000000 \<le> age \<longrightarrow>
       ck_state (s_clock t) = APP_CLOCK_FAIL_CLOSED \<and> \<not> ck_solution_valid (s_clock t) \<and>
       (\<forall>g n. clock_discipline_get_ntp_timestamp g n t = None \<and>
              clock_discipline_get_reference_timestamp g n t = None)) \<and>
    (age < 3601000000 \<and> servable (s_clock s) \<longrightarrow>
       servable (s_clock t) \<and> (1000000 \<le> age \<longrightarrow> ck_state (s_clock t) = APP_CLOCK_HOLDOVER))"
proof -
  let ?c = "s_clock s"
  have nl: "\<not> now < ck_last_sample_capture_us ?c" using assms(3,4) by (simp add: word_less_def)
  then have "uint (now - ck_last_sample_capture_us ?c) = uint now - uint (ck_last_sample_capture_us ?c)"
    by (simp add: uint_minus_simple_alt [symmetric] not_less)
  then have d: "uint (now - ck_last_sample_capture_us ?c) = age" using assms(3) by simp
  have q: "uint ((now - ck_last_sample_capture_us ?c) div 1000000) = age div 1000000"
    using d by (simp add: uint_div)
  have "(now - ck_last_sample_capture_us ?c) div 1000000 \<le> 0xFFFFFFFF"
    unfolding word_le_def q using assms(4,5) by simp
  from ucast_small_u64 [OF this]
  have h: "uint (calculate_holdover_seconds_locked ?c now) = age div 1000000"
    using assms(2) nl q by (simp add: calculate_holdover_seconds_locked_def)
  have g: "calculate_holdover_seconds_locked ?c now > 3600 \<longleftrightarrow> 3601000000 \<le> age"
    "calculate_holdover_seconds_locked ?c now > 0 \<longleftrightarrow> 1000000 \<le> age"
    unfolding word_less_def h by auto
  show ?thesis
    using assms(1,2) g
    by (auto simp: enforce_holdover_policy_def Let_def APP_HOLDOVER_MAX_SECONDS_def servable_def
        clock_discipline_get_ntp_timestamp_def clock_discipline_get_reference_timestamp_def)
qed

theorem clock_holdover_policy_witness:
  "ck_state (s_clock (enforce_holdover_policy True (Some 3637000000) None clock_locked)) = APP_CLOCK_FAIL_CLOSED \<and>
   ck_state (s_clock (enforce_holdover_policy True (Some 38000000) None clock_locked)) = APP_CLOCK_HOLDOVER"
  using clock_holdover_policy [of True clock_locked 3637000000 3601000000 None]
    clock_holdover_policy [of True clock_locked 38000000 2000000 None]
    clock_locked_perfect clock_locked_state
  by (simp add: Let_def perfect_clock_def lock_clock_def servable_def)

text \<open>
  C2: The accuracy of the time served. A timestamp read within 8589 s (2 to the 33 microseconds)
  of the last sample, on a clock whose anchor lies before 2106, is the anchor second plus the
  local time elapsed since, in NTP era arithmetic, up to the frequency correction the clock
  applies (at most 200 ppm of the elapsed time) and one microsecond of rounding. The 3601 s a
  holdover can last therefore add at most 720.2 ms.
\<close>
theorem clock_served_accuracy:
  assumes "clock_reachable s" and "ck_anchor_utc_seconds (s_clock s) < 2 ^ 32"
    and "clock_discipline_get_ntp_timestamp got (Some now) s = Some t"
    and "uint now - uint (ck_anchor_capture_us (s_clock s)) \<le> 2 ^ 33"
  shows "\<exists>v. ts_units t = v mod 2 ^ 64 \<and>
    (let elapsed = of_int (uint now - uint (ck_anchor_capture_us (s_clock s))) / 1000000 :: rat
     in \<bar>of_int v / 2 ^ 32 - (of_int (ck_anchor_utc_seconds (s_clock s)) + 2208988800 + elapsed)\<bar>
          \<le> elapsed * (2 / 10000) + 1 / 1000000)"
proof -
  note r = served_reading [OF clock_reachable_ok [OF assms(1)] assms(2-4)]
  define u where "u = utc_reading (ck_anchor_utc_seconds (s_clock s))
     (now - ck_anchor_capture_us (s_clock s)) (ck_frequency_ppm (s_clock s))"
  define x :: rat where "x = of_int (uint now - uint (ck_anchor_capture_us (s_clock s))) / 1000000"
  define k where "k = \<lfloor>u * 4294967296\<rfloor>"
  have e: "\<bar>u - (of_int (ck_anchor_utc_seconds (s_clock s)) + x)\<bar> \<le> x * (2 / 10000) + 1 / 2000000"
    using r(3) unfolding r(1) u_def [symmetric] x_def [symmetric] .
  have "of_int k \<le> u * 4294967296" "u * 4294967296 < of_int k + 1"
    unfolding k_def by linarith+
  then have "\<bar>of_int k / 4294967296 - u\<bar> \<le> 1 / 4294967296" by (simp add: abs_le_iff field_simps)
  with e have "\<bar>of_int k / 4294967296 - u\<bar> + \<bar>u - (of_int (ck_anchor_utc_seconds (s_clock s)) + x)\<bar>
      \<le> 1 / 4294967296 + (x * (2 / 10000) + 1 / 2000000)" by (intro add_mono)
  then have "\<bar>of_int k / 4294967296 - (of_int (ck_anchor_utc_seconds (s_clock s)) + x)\<bar>
      \<le> x * (2 / 10000) + 1 / 1000000"
    using abs_triangle_ineq [of "of_int k / 4294967296 - u"
        "u - (of_int (ck_anchor_utc_seconds (s_clock s)) + x)"] by simp
  then show ?thesis
    using r(2) unfolding u_def [symmetric] k_def [symmetric] x_def [symmetric] Let_def
    by (intro exI [of _ "k + 2208988800 * 2 ^ 32"] conjI) (simp_all add: add_divide_distrib)
qed

lemma clock_locked_serves:
  "clock_discipline_get_ntp_timestamp True (Some (of_nat (1000000 * (36 + n)))) clock_locked
     = Some \<lparr> ct_seconds = of_nat (3958988807 + n), ct_fraction = 0 \<rparr>" if "n < 1000"
proof -
  define N :: u64 where "N = of_nat (1000000 * (36 + n))"
  have d: "N - 36000000 = of_nat (1000000 * n)" by (simp add: N_def)
  have "uint N = 36000000 + 1000000 * int n"
    unfolding N_def using that by (simp only: unsigned_of_nat) (simp add: take_bit_nat_eq_self)
  then have le: "\<not> N < 36000000" by (simp add: word_less_def)
  have rd: "utc_reading 1750000007 (of_nat (1000000 * n)) 0 = of_int (1750000007 + int n)"
    using that by (intro reading_whole_seconds) simp_all
  have ui: "uint (word_of_int (1750000007 + int n) :: u64) = 1750000007 + int n"
    using that by (simp only: unsigned_of_int) (simp add: take_bit_int_eq_self_iff)
  have dd: "double_of_u64 (word_of_int (1750000007 + int n)) = of_int (1750000007 + int n)"
    using double_of_u64_exact [of "word_of_int (1750000007 + int n)", unfolded ui] that by simp
  have un: "uint (of_nat n :: u64) = int n" "uint (of_nat n :: u32) = int n"
    using that by (simp_all only: unsigned_of_nat) (simp_all add: take_bit_nat_eq_self)
  have cs: "ucast ((word_of_int (1750000007 + int n) :: u64) + APP_NTP_EPOCH_DELTA)
      = (of_nat (3958988807 + n) :: u32)"
    using that un by (simp add: APP_NTP_EPOCH_DELTA_def word_uint_eq_iff uint_word_ariths
        unsigned_ucast_eq take_bit_eq_mod mod_pos_pos_trivial)
  show ?thesis
    using clock_locked_perfect clock_locked_state that le
    unfolding clock_discipline_get_ntp_timestamp_def Let_def perfect_clock_def N_def [symmetric]
    by (simp add: lock_clock_def servable_def d rd dd cs del: of_nat_mult of_nat_add of_int_add)
qed

theorem clock_served_accuracy_witness:
  "\<exists>v. ts_units \<lparr> ct_seconds = 3958989107, ct_fraction = 0 \<rparr> = v mod 2 ^ 64 \<and>
       \<bar>of_int v / 2 ^ 32 - (3958989107 :: rat)\<bar> \<le> 6 / 100 + 1 / 1000000"
  using clock_served_accuracy [OF clock_locked_reachable _ clock_locked_serves [of 300]]
    clock_locked_perfect
  by (simp add: perfect_clock_def)

subsection \<open>Between two samples\<close>








subsection \<open>Monotonicity and the rejected sample\<close>









text \<open>
  C6: A sample out of phase. On a synchronised clock (or one in holdover) with at most one
  rejected sample before it, a sample more than 250 ms off the prediction is reported as
  rejected, yet its capture and its UTC second become the new anchor with the state left as it
  was: at once the clock serves the rejected second.
\<close>
theorem clock_phase_reject_is_served:
  assumes "clock_reachable s" and "servable (s_clock s)" and "lock_clock got s"
    and "clock_discipline_submit_sample oor got now cap utc q leap s = (ESP_ERR_INVALID_RESPONSE, t)"
    and "\<bar>q\<bar> \<le> 50000" and "ck_consecutive_rejects (s_clock s) < 2" and "utc < 2 ^ 32"
    and "cap \<noteq> 0" and "0 < utc"
  shows "ck_state (s_clock t) = ck_state (s_clock s) \<and> 250000000 < \<bar>ck_last_phase_error_ns (s_clock t)\<bar> \<and>
    clock_discipline_get_ntp_timestamp got (Some cap) t =
      Some \<lparr> ct_seconds = ucast (word_of_int utc + APP_NTP_EPOCH_DELTA), ct_fraction = 0 \<rparr>"
proof -
  let ?c = "s_clock s"
  have v: "ck_initialized ?c" "ck_solution_valid ?c"
    using clock_reachable_ok [OF assms(1)] assms(2) by (auto simp: clock_ok_def servable_def)
  obtain ph where ph: "250000000 < \<bar>ph\<bar>"
    "t = reject_sample_locked now (s\<lparr>s_clock := take_phase_reject cap utc ph ?c\<rparr>)"
    using assms(3,4,5,8,9) v
    by (auto simp: clock_discipline_submit_sample_def Let_def APP_CLOCK_MAX_TIMING_QERR_NS_def
        APP_CLOCK_MAX_ACCEPTABLE_ERROR_NS_def split: if_splits)
  have "uint (ck_consecutive_rejects ?c + 1) = uint (ck_consecutive_rejects ?c) + 1"
    using assms(6) by (intro u32_incr_lt) (simp add: word_less_def)
  then have "\<not> 3 \<le> ck_consecutive_rejects ?c + 1" using assms(6) by (simp add: word_less_def word_le_def)
  then have c: "s_clock t = rejected_once (take_phase_reject cap utc ph ?c)"
    unfolding ph(2) by (simp add: s_clock_reject take_phase_reject_def)
  have m: "s_clock_mutex t = s_clock_mutex s" unfolding ph(2) by simp
  have rd: "utc_reading utc 0 0 = of_int utc"
    using reading_whole_seconds [of utc 0] assms(7,9) by simp
  have "uint (word_of_int utc :: u64) = utc"
    using assms(7,9) by (simp add: unsigned_of_int take_bit_int_eq_self_iff)
  then have dd: "double_of_u64 (word_of_int utc) = of_int utc"
    using double_of_u64_exact [of "word_of_int utc"] assms(7) by simp
  show ?thesis
    using v assms(2,3) ph(1) m assms(9)
    by (simp add: clock_discipline_get_ntp_timestamp_def c rejected_once_def take_phase_reject_def
        servable_def lock_clock_def rd dd)
qed

text \<open>A sample an hour ahead is out of phase whatever the correction.\<close>

lemma phase_error_hour:
  assumes a: "0 \<le> a" "a < 2 ^ 31" and f: "\<bar>f\<bar> \<le> 200"
  shows "250000000 < phase_error_of oor (a + 3601) (utc_reading a 1000000 f) 0"
proof -
  let ?p = "utc_reading a 1000000 f" and ?u = "of_int (a + 3601) :: rat"
  have "\<bar>?p - (of_int a + 1)\<bar> \<le> 2 / 10000 + 1 / 2000000"
    using utc_reading_error [of a 1000000 f] assms by simp
  then have "\<bar>?p - (of_int a + 1)\<bar> \<le> 1" by simp
  then have p: "3599 \<le> ?u - ?p" "?u - ?p \<le> 3601" by (auto simp: abs_le_iff)
  have d1: "3599 \<le> b64 (?u - ?p)" "b64 (?u - ?p) \<le> 3601"
    using p b64.ge_of_int [of 3599 "?u - ?p"] b64.le_of_int [of 3601 "?u - ?p"] by simp_all
  then have "3599000000000 \<le> b64 (?u - ?p) * 1000000000" "b64 (?u - ?p) * 1000000000 \<le> 3601000000000"
    by simp_all
  then have d2: "3599000000000 \<le> b64 (b64 (?u - ?p) * 1000000000)"
    "b64 (b64 (?u - ?p) * 1000000000) \<le> 3601000000000"
    using b64.ge_of_int [of 3599000000000 "b64 (?u - ?p) * 1000000000"]
      b64.le_of_int [of 3601000000000 "b64 (?u - ?p) * 1000000000"] by simp_all
  define x where "x = b64 (b64 (?u - ?p) * 1000000000)"
  have x: "3599000000000 \<le> x" "x < 2 ^ 63" "- (2 ^ 63) \<le> x" using d2 by (simp_all add: x_def)
  then have "3599000000000 \<le> \<lfloor>x + 1 / 2\<rfloor>" by (simp add: le_floor_iff)
  moreover have du: "double_of_int (a + 3601) = ?u" using a by (intro double_of_int_exact) simp
  moreover have "phase_error_of oor (a + 3601) ?p 0 = llround oor x"
    unfolding phase_error_of_def du x_def by simp
  ultimately show ?thesis using x by (simp add: llround_def)
qed

lemma clock_locked_jump:
  "fst (clock_discipline_submit_sample floor True None 37000000 1750003608 0 APP_LEAP_NO_WARNING clock_locked)
     = ESP_ERR_INVALID_RESPONSE"
proof -
  let ?f = "filtered_frequency_ppm 0 1000000 3601"
  have "250000000 < phase_error_of floor (1750000007 + 3601) (utc_reading 1750000007 1000000 ?f) 0"
    by (intro phase_error_hour) simp_all
  then have "250000000 < \<bar>phase_error_of floor 1750003608 (utc_reading 1750000007 1000000 ?f) 0\<bar>" by simp
  then show ?thesis
    using clock_locked_perfect
    by (simp add: perfect_clock_def clock_discipline_submit_sample_def Let_def lock_clock_def
        APP_CLOCK_MAX_TIMING_QERR_NS_def APP_CLOCK_MAX_ACCEPTABLE_ERROR_NS_def)
qed

theorem clock_phase_reject_is_served_witness:
  "clock_discipline_get_ntp_timestamp True (Some 37000000)
     (snd (clock_discipline_submit_sample floor True None 37000000 1750003608 0 APP_LEAP_NO_WARNING clock_locked))
   = Some \<lparr> ct_seconds = 3958992408, ct_fraction = 0 \<rparr>"
proof -
  obtain t where t: "clock_discipline_submit_sample floor True None 37000000 1750003608 0
      APP_LEAP_NO_WARNING clock_locked = (ESP_ERR_INVALID_RESPONSE, t)"
    using clock_locked_jump by (metis prod.collapse)
  have "servable (s_clock clock_locked)" "lock_clock True clock_locked"
    "ck_consecutive_rejects (s_clock clock_locked) < 2"
    using clock_locked_perfect clock_locked_state
    by (simp_all add: perfect_clock_def servable_def lock_clock_def)
  from clock_phase_reject_is_served [OF clock_locked_reachable this(1,2) t _ this(3)]
  show ?thesis by (simp add: t APP_NTP_EPOCH_DELTA_def)
qed

text \<open>
  Root dispersion. The 16.16 value the server reports, computed through doubles, is exactly
  the integer formula 100 us + |phase error| + 20 us per second of holdover, capped at one
  second; so it is at most 65536 (one second), at least 6, and grows with the holdover time.
\<close>
theorem clock_dispersion_exact:
  "uint (calculate_dispersion_16_16_locked c h) =
     min 1000000000 (100000 + \<bar>ck_last_phase_error_ns c\<bar> + 20000 * uint h) * 65536 div 1000000000 \<and>
   6 \<le> uint (calculate_dispersion_16_16_locked c h) \<and>
   uint (calculate_dispersion_16_16_locked c h) \<le> 65536 \<and>
   calculate_dispersion_16_16_locked c h \<le> calculate_dispersion_16_16_locked c (max h h')"
proof -
  define v where "v k = min 1000000000 (100000 + \<bar>ck_last_phase_error_ns c\<bar> + 20000 * uint k)" for k :: u32
  have "uint h \<le> uint (max h h')" by (simp add: max_def word_le_def)
  then have "v h \<le> v (max h h')" by (simp add: v_def)
  moreover have "100000 \<le> v h" "v h \<le> 1000000000"
    using uint_nonnegative [of h] by (simp_all add: v_def)
  ultimately have "6 \<le> v h * 65536 div 1000000000 \<and> v h * 65536 div 1000000000 \<le> 65536 \<and>
      v h * 65536 div 1000000000 \<le> v (max h h') * 65536 div 1000000000"
    by linarith
  then show ?thesis unfolding word_le_def dispersion_closed_form v_def [symmetric] by simp
qed

text \<open>
  The monitor task always gets on. If each poll of the receiver takes some time (at least
  \<open>d\<close> microseconds), the poll loop leaves at its 750 ms deadline, so a round of the task with that
  much fuel always completes, and it takes a reachable clock to a reachable clock.
\<close>
theorem clock_monitor_round_completes:
  assumes "0 < d" and "\<And>i. fst (ce_poll e i) + int d \<le> fst (ce_poll e (Suc i))"
    and "ce_poll_start e \<le> fst (ce_poll e 0)" and "750000 \<le> int d * int fuel"
    and "ce_poll_fuel e = Suc fuel" and "clock_reachable s"
  shows "\<exists>t. clock_monitor_round oor e s = Some t \<and> clock_reachable t"
proof -
  have "wait_for_gnss_sample (ce_poll_fuel e) (ce_poll_start e) (ce_poll e) s' \<noteq> None" for s'
    unfolding wait_for_gnss_sample_def assms(5)
    using assms(1-4) by (intro gnss_poll_ends [of d]) (simp_all add: CLOCK_TIM_TP_WAIT_TIMEOUT_MS_def)
  from this [of "publish_pps_status (ce_publish_pps e) s"] have "clock_monitor_round oor e s \<noteq> None"
    by (auto simp: clock_monitor_round_def Let_def split: option.splits)
  then show ?thesis using round_reachable [OF assms(6)] by blast
qed

definition quiet_env :: clock_env where
  "quiet_env =
    \<lparr> ce_event = Some \<lparr>capture_us = 37000000, capture_ticks = 37000000\<rparr>,
      ce_publish_pps = pps_zero_status, ce_sample_pps = pps_zero_status\<lparr>
        ps_interval_valid := True, ps_period_us := 1000000\<rparr>,
      ce_poll_start = 0, ce_poll = (\<lambda>i. (10000 * int i, None)), ce_poll_fuel = 76,
      ce_submit_got = True, ce_submit_now = None, ce_gnss = None,
      ce_update_pps = pps_zero_status, ce_update_got = True, ce_update_now = None,
      ce_enforce_got = True, ce_enforce_now = Some 37000000, ce_enforce_publish = None \<rparr>"

theorem clock_monitor_round_completes_witness:
  "\<exists>t. clock_monitor_round floor quiet_env clock_locked = Some t \<and> clock_reachable t"
  using clock_monitor_round_completes [of 10000 quiet_env 75 clock_locked floor] clock_locked_reachable
  by (simp add: quiet_env_def)

text \<open>
  The second an edge is labelled with. A sample the poll loop returns comes from a status seen
  before the deadline with a fresh, not yet consumed time pulse on a resolved fix; its UTC second
  is the GPS week and time of week less the leap seconds, and its correction is within 50 us.
\<close>
theorem gnss_sample_provenance:
  assumes "wait_for_gnss_sample fuel start obs s = Some (Some g)"
  shows "\<exists>j st. snd (obs j) = Some st \<and> fst (obs j) < start + 750000 \<and>
     gs_utc_valid st \<and> gs_gnss_fix_valid st \<and> gs_gnss_time_fully_resolved st \<and>
     0 \<le> gs_timing_pulse_age_us st \<and> gs_timing_pulse_age_us st \<le> 1500000 \<and>
     (s_last_tim_tp_valid s \<longrightarrow>
        (gs_timing_week st, gs_timing_tow_ms st) \<noteq> (s_last_tim_tp_week s, s_last_tim_tp_tow_ms s)) \<and>
     gsm_utc_seconds g = 315964800 + 604800 * uint (gs_timing_week st) +
        uint (gs_timing_tow_ms st) div 1000 - gs_current_leap_seconds st \<and>
     uint (gs_timing_tow_ms st) < 604800000 \<and>
     \<bar>gsm_quantization_error_ns g\<bar> \<le> 50000"
proof -
  obtain j st where o: "snd (obs j) = Some st" "fst (obs j) < start + 750000" "gnss_sample_ready st s"
    "tim_tp_to_utc st = Some (gsm_utc_seconds g)" "\<bar>gsm_quantization_error_ns g\<bar> \<le> 50000"
    using gnss_poll_sample assms
    unfolding wait_for_gnss_sample_def CLOCK_TIM_TP_WAIT_TIMEOUT_MS_def by fastforce
  show ?thesis
    by (rule exI [of _ j], rule exI [of _ st])
      (use o in \<open>auto simp: gnss_sample_ready_def tim_tp_to_utc_def tim_tp_is_new_def
        CLOCK_TIM_TP_MAX_AGE_US_def GPS_EPOCH_UNIX_SECONDS_def GPS_WEEK_SECONDS_def
        GPS_WEEK_MILLISECONDS_def word_le_def split: if_splits\<close>)
qed

definition tp_status :: gnss_status where
  "tp_status = gnss_zero_status\<lparr> gs_utc_valid := True, gs_utc_from_ubx_pvt := True,
     gs_gnss_fix_valid := True, gs_gnss_time_fully_resolved := True,
     gs_leap_information_valid := True, gs_current_leap_seconds := 18, gs_timing_pulse_valid := True,
     gs_timing_week := 2370, gs_timing_tow_ms := 1000, gs_timing_quantization_error_ns := -2500 \<rparr>"

definition tp_sample :: clock_gnss_sample where
  "tp_sample = \<lparr> gsm_week = 2370, gsm_tow_ms = 1000, gsm_utc_seconds = 1749340783,
     gsm_quantization_error_ns = -2, gsm_leap_indicator = APP_LEAP_NO_WARNING \<rparr>"

lemma tp_sample_polled:
  "wait_for_gnss_sample (Suc (Suc (Suc 0))) 0 (\<lambda>i. (10000 * int i, if i = 0 then None else Some tp_status)) clock_boot
     = Some (Some tp_sample)"
  by (simp add: wait_for_gnss_sample_def CLOCK_TIM_TP_WAIT_TIMEOUT_MS_def
      gnss_sample_ready_def tim_tp_is_new_def tim_tp_to_utc_def tp_status_def gnss_zero_status_def
      clock_boot_def CLOCK_TIM_TP_MAX_AGE_US_def GPS_EPOCH_UNIX_SECONDS_def GPS_WEEK_SECONDS_def
      GPS_WEEK_MILLISECONDS_def APP_CLOCK_MAX_TIMING_QERR_NS_def cdiv_def tp_sample_def Let_def)

theorem gnss_sample_provenance_witness:
  "\<bar>gsm_quantization_error_ns tp_sample\<bar> \<le> 50000"
  using gnss_sample_provenance [OF tp_sample_polled] by blast

end
