(* ===== verification/Aes_Siv.thy ===== *)
theory Aes_Siv
  imports Interfaces
begin

text \<open>
  \<open>src/main/nts_aes_siv.c\<close>: AEAD_AES_SIV_CMAC_256 (RFC 5297) built on the PSA library's CMAC and
  CTR mode. PSA is not under src/; it is the record \<open>psa\<close>: what each call answers, as a function
  of its arguments, and \<open>malloc\<close>. \<open>psa_healthy\<close> states the documented behaviour the round trip
  relies on: the calls succeed, a CMAC is 16 octets, and CTR mode is its own inverse.
  Buffers that an operation writes are passed in and returned, so what a failure leaves behind
  is part of the model.
\<close>

definition NTS_AES_SIV_KEY_LEN :: nat where "NTS_AES_SIV_KEY_LEN = 32"
definition NTS_AES_SIV_TAG_LEN :: nat where "NTS_AES_SIV_TAG_LEN = 16"
definition NTS_AES_SIV_NONCE_LEN :: nat where "NTS_AES_SIV_NONCE_LEN = 16"

datatype psa_status =
    PSA_SUCCESS | PSA_ERROR_NOT_SUPPORTED | PSA_ERROR_INVALID_ARGUMENT | PSA_ERROR_INVALID_HANDLE
  | PSA_ERROR_BUFFER_TOO_SMALL | PSA_ERROR_INSUFFICIENT_MEMORY | PSA_ERROR_INSUFFICIENT_STORAGE
  | PSA_ERROR_OTHER nat

fun psa_to_esp :: "psa_status \<Rightarrow> esp_err" where
  "psa_to_esp PSA_SUCCESS = ESP_OK"
| "psa_to_esp PSA_ERROR_NOT_SUPPORTED = ESP_ERR_NOT_SUPPORTED"
| "psa_to_esp PSA_ERROR_INVALID_ARGUMENT = ESP_ERR_INVALID_ARG"
| "psa_to_esp PSA_ERROR_INVALID_HANDLE = ESP_ERR_INVALID_ARG"
| "psa_to_esp PSA_ERROR_BUFFER_TOO_SMALL = ESP_ERR_INVALID_SIZE"
| "psa_to_esp PSA_ERROR_INSUFFICIENT_MEMORY = ESP_ERR_NO_MEM"
| "psa_to_esp PSA_ERROR_INSUFFICIENT_STORAGE = ESP_ERR_NO_MEM"
| "psa_to_esp (PSA_ERROR_OTHER _) = ESP_FAIL"

record psa =
  psa_crypto_init :: psa_status
  psa_import_cmac :: "bytes \<Rightarrow> psa_status"
  psa_import_ctr :: "bytes \<Rightarrow> psa_status"
  psa_mac_compute :: "bytes \<Rightarrow> bytes \<Rightarrow> psa_status \<times> bytes"
  psa_encrypt_setup :: "bytes \<Rightarrow> psa_status"
  psa_set_iv :: "bytes \<Rightarrow> bytes \<Rightarrow> psa_status"
  psa_update :: "bytes \<Rightarrow> bytes \<Rightarrow> bytes \<Rightarrow> psa_status \<times> bytes"
  psa_finish :: "bytes \<Rightarrow> bytes \<Rightarrow> bytes \<Rightarrow> psa_status \<times> bytes"
  malloc_ok :: "nat \<Rightarrow> bool"

subsection \<open>Blocks\<close>

definition secure_zero :: "bytes \<Rightarrow> nat \<Rightarrow> bytes" where
  "secure_zero buffer n = poke buffer 0 (replicate n 0)"

definition xor_block :: "bytes \<Rightarrow> bytes \<Rightarrow> bytes" where
  "xor_block left right = map2 (XOR) left right"

text \<open>The loop of \<open>dbl_block\<close> runs from the last octet to the first with a carry.\<close>

fun shift_octets :: "bytes \<Rightarrow> bytes \<times> u8" where
  "shift_octets [] = ([], 0)"
| "shift_octets (b # bs) =
     (let (out, carry) = shift_octets bs
      in ((push_bit 1 b OR carry) # out, drop_bit 7 b AND 1))"

definition dbl_block :: "bytes \<Rightarrow> bytes" where
  "dbl_block input =
    (let (out, carry) = shift_octets input
     in if carry \<noteq> 0 then out[15 := out ! 15 XOR 0x87] else out)"

definition constant_time_equal :: "bytes \<Rightarrow> bytes \<Rightarrow> nat \<Rightarrow> bool" where
  "constant_time_equal left right n =
     (foldl (\<lambda>difference i. difference OR (left ! i XOR right ! i)) 0 [0..<n] = 0)"

subsection \<open>CMAC and CTR through PSA\<close>

definition import_cmac_key :: "psa \<Rightarrow> bytes \<Rightarrow> esp_err" where
  "import_cmac_key P key = psa_to_esp (psa_import_cmac P key)"

definition import_ctr_key :: "psa \<Rightarrow> bytes \<Rightarrow> esp_err" where
  "import_ctr_key P key = psa_to_esp (psa_import_ctr P key)"

definition cmac_128 :: "psa \<Rightarrow> bytes \<Rightarrow> bytes \<Rightarrow> esp_err + bytes" where
  "cmac_128 P key input =
    (if import_cmac_key P key \<noteq> ESP_OK then Inl (import_cmac_key P key)
     else
       let (status, mac) = psa_mac_compute P key input in
       if status \<noteq> PSA_SUCCESS then Inl (psa_to_esp status)
       else if length mac \<noteq> 16 then Inl ESP_FAIL
       else Inr mac)"

text \<open>The counter block: the synthetic IV with the top bits of its last two 32-bit words cleared.\<close>

definition ctr_iv :: "bytes \<Rightarrow> bytes" where
  "ctr_iv siv = (let iv = take 16 siv in (iv[8 := iv ! 8 AND 0x7F])[12 := iv ! 12 AND 0x7F])"

definition aes_ctr_crypt :: "psa \<Rightarrow> bytes \<Rightarrow> bytes \<Rightarrow> bytes \<Rightarrow> bytes \<Rightarrow> esp_err \<times> bytes" where
  "aes_ctr_crypt P ctr_key siv input output =
    (if import_ctr_key P ctr_key \<noteq> ESP_OK then (import_ctr_key P ctr_key, output)
     else
       let iv = ctr_iv siv;
           s1 = psa_encrypt_setup P ctr_key in
       if s1 \<noteq> PSA_SUCCESS then (psa_to_esp s1, output)
       else
         let s2 = psa_set_iv P ctr_key iv in
         if s2 \<noteq> PSA_SUCCESS then (psa_to_esp s2, output)
         else
           let (s3, o3) = psa_update P ctr_key iv input;
               output1 = poke output 0 o3 in
           if s3 \<noteq> PSA_SUCCESS then (psa_to_esp s3, output1)
           else
             let (s4, o4) = psa_finish P ctr_key iv input;
                 output2 = poke output1 (length o3) o4 in
             if s4 \<noteq> PSA_SUCCESS then (psa_to_esp s4, output2)
             else if length o3 + length o4 \<noteq> length input then (ESP_FAIL, output2)
             else (ESP_OK, output2))"

subsection \<open>S2V\<close>

text \<open>One step of S2V over a component: \<open>D = dbl(D) XOR CMAC(S)\<close>.\<close>

definition s2v_component :: "psa \<Rightarrow> bytes \<Rightarrow> bytes \<Rightarrow> bytes \<Rightarrow> esp_err + bytes" where
  "s2v_component P cmac_key s d =
    (case cmac_128 P cmac_key s of
       Inl err \<Rightarrow> Inl err
     | Inr cmac_value \<Rightarrow> Inr (xor_block (dbl_block d) cmac_value))"

definition s2v_final :: "psa \<Rightarrow> bytes \<Rightarrow> bytes \<Rightarrow> bytes \<Rightarrow> esp_err + bytes" where
  "s2v_final P cmac_key plaintext d =
    (if 16 \<le> length plaintext then
       if \<not> malloc_ok P (length plaintext) then Inl ESP_ERR_NO_MEM
       else
         let start = length plaintext - 16;
             buffer = poke plaintext start (xor_block (drop start plaintext) d)
         in cmac_128 P cmac_key buffer
     else
       let padded = (poke (replicate 16 0) 0 plaintext)[length plaintext := 0x80]
       in cmac_128 P cmac_key (xor_block padded (dbl_block d)))"

definition aes_siv_s2v :: "psa \<Rightarrow> bytes \<Rightarrow> bytes \<Rightarrow> bytes \<Rightarrow> bytes \<Rightarrow> esp_err + bytes" where
  "aes_siv_s2v P cmac_key associated_data nonce plaintext =
    (case cmac_128 P cmac_key (replicate 16 0) of
       Inl err \<Rightarrow> Inl err
     | Inr d0 \<Rightarrow>
         (case (if 0 < length associated_data then s2v_component P cmac_key associated_data d0
                else Inr d0) of
            Inl err \<Rightarrow> Inl err
          | Inr d1 \<Rightarrow>
              (case s2v_component P cmac_key nonce d1 of
                 Inl err \<Rightarrow> Inl err
               | Inr d2 \<Rightarrow> s2v_final P cmac_key plaintext d2)))"

subsection \<open>Sealing and opening\<close>

definition nts_aes_siv_init :: "psa \<Rightarrow> esp_err" where
  "nts_aes_siv_init P = psa_to_esp (psa_crypto_init P)"

text \<open>Both return the error, the length cell and the output buffer.\<close>

definition nts_aes_siv_encrypt ::
    "psa \<Rightarrow> bytes \<Rightarrow> bytes \<Rightarrow> bytes \<Rightarrow> bytes \<Rightarrow> nat \<Rightarrow> bytes \<Rightarrow> esp_err \<times> nat \<times> bytes" where
  "nts_aes_siv_encrypt P key associated_data nonce plaintext output_len output =
    (let required_len = NTS_AES_SIV_TAG_LEN + length plaintext in
     if output_len < required_len then (ESP_ERR_INVALID_SIZE, required_len, output)
     else if nts_aes_siv_init P \<noteq> ESP_OK then (nts_aes_siv_init P, output_len, output)
     else case aes_siv_s2v P (take 16 key) associated_data nonce plaintext of
       Inl err \<Rightarrow> (err, output_len, output)
     | Inr tag \<Rightarrow>
         let output1 = poke output 0 tag;
             (err, ct) = aes_ctr_crypt P (drop 16 key) tag plaintext (drop NTS_AES_SIV_TAG_LEN output1);
             output2 = poke output1 NTS_AES_SIV_TAG_LEN ct
         in if err \<noteq> ESP_OK then (err, output_len, secure_zero output2 required_len)
            else (ESP_OK, required_len, output2))"

definition nts_aes_siv_decrypt ::
    "psa \<Rightarrow> bytes \<Rightarrow> bytes \<Rightarrow> bytes \<Rightarrow> bytes \<Rightarrow> nat \<Rightarrow> bytes \<Rightarrow> esp_err \<times> nat \<times> bytes" where
  "nts_aes_siv_decrypt P key associated_data nonce input plaintext_len plaintext =
    (if length input < NTS_AES_SIV_TAG_LEN then (ESP_ERR_INVALID_SIZE, plaintext_len, plaintext)
     else
       let ciphertext_len = length input - NTS_AES_SIV_TAG_LEN in
       if plaintext_len < ciphertext_len then (ESP_ERR_INVALID_SIZE, ciphertext_len, plaintext)
       else if nts_aes_siv_init P \<noteq> ESP_OK then (nts_aes_siv_init P, plaintext_len, plaintext)
       else
         let received_tag = take NTS_AES_SIV_TAG_LEN input;
             ciphertext = drop NTS_AES_SIV_TAG_LEN input;
             (err, plaintext1) = aes_ctr_crypt P (drop 16 key) received_tag ciphertext plaintext in
         if err \<noteq> ESP_OK then (err, plaintext_len, secure_zero plaintext1 ciphertext_len)
         else case aes_siv_s2v P (take 16 key) associated_data nonce (take ciphertext_len plaintext1) of
           Inl err \<Rightarrow> (err, plaintext_len, secure_zero plaintext1 ciphertext_len)
         | Inr expected_tag \<Rightarrow>
             if \<not> constant_time_equal received_tag expected_tag 16
             then (ESP_ERR_INVALID_CRC, plaintext_len, secure_zero plaintext1 ciphertext_len)
             else (ESP_OK, ciphertext_len, plaintext1))"

subsection \<open>Doubling in the field\<close>

primrec octets_int :: "bytes \<Rightarrow> int" where
  "octets_int [] = 0"
| "octets_int (b # bs) = uint b * 256 ^ length bs + octets_int bs"

lemma octets_int_bounds: "0 \<le> octets_int bs \<and> octets_int bs < 256 ^ length bs"
proof (induction bs)
  case (Cons b bs)
  have "uint b \<le> 255" using uint_lt2p [of b] by simp
  then have "uint b * 256 ^ length bs \<le> 255 * 256 ^ length bs" by (intro mult_right_mono) auto
  then have "uint b * 256 ^ length bs + octets_int bs < 255 * 256 ^ length bs + 256 ^ length bs"
    using Cons by (intro add_le_less_mono) auto
  then show ?case using Cons by simp
qed simp

lemma octets_int_zeros [simp]: "octets_int (replicate n 0) = 0"
  by (induction n) simp_all

lemma octets_int_append: "octets_int (xs @ ys) = octets_int xs * 256 ^ length ys + octets_int ys"
  by (induction xs) (simp_all add: algebra_simps power_add)

lemma shift_octet:
  fixes b c :: u8
  assumes "c = 0 \<or> c = 1"
  shows "uint (push_bit 1 b OR c) + 256 * uint (drop_bit 7 b AND 1) = 2 * uint b + uint c"
    and "drop_bit 7 b AND 1 = 0 \<or> drop_bit 7 b AND 1 = 1"
proof -
  have b: "0 \<le> uint b" "uint b < 256" using uint_lt2p [of b] by simp_all
  have d: "uint (drop_bit 7 b) = uint b div 128" by (simp add: drop_bit_eq_div uint_div)
  have r: "uint b div 128 = 0 \<or> uint b div 128 = 1" using b by linarith
  have "drop_bit 7 b AND 1 = drop_bit 7 b"
    using r d by (auto simp: and_one_eq word_uint_eq_iff uint_mod)
  then have carry: "uint (drop_bit 7 b AND 1) = uint b div 128" using d by simp
  show "drop_bit 7 b AND 1 = 0 \<or> drop_bit 7 b AND 1 = 1"
    using r carry by (auto simp: word_uint_eq_iff)
  have "push_bit 1 b OR c = push_bit 1 b + c"
    using assms by (intro disjunctive_add [symmetric]) (auto simp: bit_simps bit_0)
  then have or: "uint (push_bit 1 b OR c) = (2 * uint b mod 256 + uint c) mod 256"
    by (simp add: push_bit_eq_mult uint_word_ariths mult.commute)
  have c: "uint c = 0 \<or> uint c = 1" using assms by auto
  show "uint (push_bit 1 b OR c) + 256 * uint (drop_bit 7 b AND 1) = 2 * uint b + uint c"
  proof -
    have t: "2 * uint b mod 256 = 2 * (uint b mod 128)"
      using mult_mod_right [of 2 "uint b" 128] by simp
    have "uint b mod 128 < 128" "0 \<le> uint b mod 128" by simp_all
    then have "(2 * (uint b mod 128) + uint c) mod 256 = 2 * (uint b mod 128) + uint c"
      using c by (intro mod_pos_pos_trivial) auto
    then show ?thesis unfolding or carry t using mult_div_mod_eq [of 128 "uint b"] by linarith
  qed
qed

lemma shift_octets_carry: "snd (shift_octets bs) = 0 \<or> snd (shift_octets bs) = 1"
  using shift_octet(2) [of 0] by (cases bs) (simp_all add: case_prod_beta)

lemma length_shift_octets [simp]: "length (fst (shift_octets bs)) = length bs"
  by (induction bs) (simp_all add: case_prod_beta)

lemma shift_octets_value:
  "octets_int (fst (shift_octets bs)) + uint (snd (shift_octets bs)) * 256 ^ length bs = 2 * octets_int bs"
proof (induction bs)
  case (Cons b bs)
  let ?c = "snd (shift_octets bs)" and ?w = "256 ^ length bs :: int"
  note s = shift_octet(1) [OF shift_octets_carry [of bs], of b]
  have "octets_int (fst (shift_octets (b # bs))) + uint (snd (shift_octets (b # bs))) * 256 ^ length (b # bs)
      = (uint (push_bit 1 b OR ?c) + 256 * uint (drop_bit 7 b AND 1)) * ?w + octets_int (fst (shift_octets bs))"
    by (simp add: case_prod_beta algebra_simps)
  also have "\<dots> = (2 * uint b + uint ?c) * ?w + octets_int (fst (shift_octets bs))" by (simp only: s)
  also have "\<dots> = 2 * octets_int (b # bs)" using Cons by (simp add: algebra_simps)
  finally show ?case .
qed simp

lemma length_dbl_block [simp]: "length (dbl_block bs) = length bs"
  by (simp add: dbl_block_def case_prod_beta)

lemma xor_low_octet:
  fixes b w :: u8
  shows "q * 256 + uint (b XOR w) = (q * 256 + uint b) XOR uint w"
proof -
  have eq: "q * 256 + uint x = push_bit 8 q OR uint x" for x :: u8
  proof -
    have "push_bit 8 q OR uint x = push_bit 8 q + uint x"
      by (rule disjunctive_add [symmetric]) (auto simp: bit_simps dest: bit_imp_le_length)
    then show ?thesis by (simp add: push_bit_eq_mult)
  qed
  show ?thesis
    unfolding eq by (rule bit_eqI) (auto simp: bit_simps dest: bit_imp_le_length)
qed

lemma dbl_block_value:
  assumes "length b = 16"
  shows "octets_int (dbl_block b) =
    (let n = octets_int b in (2 * n mod 2 ^ 128) XOR (if 2 ^ 127 \<le> n then 0x87 else 0))"
proof -
  define out c where "out = fst (shift_octets b)" and "c = snd (shift_octets b)"
  have out: "length out = 16" using assms by (simp add: out_def)
  have v: "octets_int out + uint c * 2 ^ 128 = 2 * octets_int b"
    using shift_octets_value [of b] assms by (simp add: out_def c_def)
  have b: "0 \<le> octets_int out" "octets_int out < 2 ^ 128"
    using octets_int_bounds [of out] out by simp_all
  have m: "2 * octets_int b mod 2 ^ 128 = octets_int out"
    unfolding v [symmetric] using b by simp
  have c: "c = 0 \<or> c = 1" using shift_octets_carry [of b] by (simp add: c_def)
  then have top: "2 ^ 127 \<le> octets_int b \<longleftrightarrow> c \<noteq> 0" using v b by auto
  have split: "out = take 15 out @ [out ! 15]"
    using take_Suc_conv_app_nth [of 15 out] out by simp
  have upd: "out[15 := x] = take 15 out @ [x]" for x
    using out by (simp add: upd_conv_take_nth_drop)
  have x: "octets_int (out[15 := out ! 15 XOR 0x87]) = octets_int out XOR 0x87"
    unfolding upd using xor_low_octet [of "octets_int (take 15 out)" "out ! 15" "0x87"]
      arg_cong [OF split, of octets_int] by (simp add: octets_int_append)
  show ?thesis
    unfolding Let_def m top
    using x by (simp add: dbl_block_def case_prod_beta flip: out_def c_def)
qed


subsection \<open>The healthy provider\<close>

definition psa_ctr :: "psa \<Rightarrow> bytes \<Rightarrow> bytes \<Rightarrow> bytes \<Rightarrow> bytes" where
  "psa_ctr P key iv x = snd (psa_update P key iv x) @ snd (psa_finish P key iv x)"

definition psa_healthy :: "psa \<Rightarrow> bool" where
  "psa_healthy P \<longleftrightarrow>
     psa_crypto_init P = PSA_SUCCESS \<and>
     (\<forall>k. psa_import_cmac P k = PSA_SUCCESS \<and> psa_import_ctr P k = PSA_SUCCESS \<and>
          psa_encrypt_setup P k = PSA_SUCCESS) \<and>
     (\<forall>k m. fst (psa_mac_compute P k m) = PSA_SUCCESS \<and> length (snd (psa_mac_compute P k m)) = 16) \<and>
     (\<forall>k iv. psa_set_iv P k iv = PSA_SUCCESS) \<and>
     (\<forall>k iv x. fst (psa_update P k iv x) = PSA_SUCCESS \<and> fst (psa_finish P k iv x) = PSA_SUCCESS \<and>
          length (psa_ctr P k iv x) = length x \<and> psa_ctr P k iv (psa_ctr P k iv x) = x) \<and>
     (\<forall>n. malloc_ok P n)"

lemma psa_healthyD:
  assumes "psa_healthy P"
  shows "import_cmac_key P k = ESP_OK" "import_ctr_key P k = ESP_OK" "nts_aes_siv_init P = ESP_OK"
    "fst (psa_mac_compute P k m) = PSA_SUCCESS" "length (snd (psa_mac_compute P k m)) = 16"
    "length (psa_ctr P k iv x) = length x" "psa_ctr P k iv (psa_ctr P k iv x) = x"
  using assms by (simp_all add: psa_healthy_def import_cmac_key_def import_ctr_key_def nts_aes_siv_init_def)

lemma poke_poke: "poke (poke out 0 a) (length a) b = poke out 0 (a @ b)"
  by (simp add: poke_def add.commute)

lemma psa_to_esp_OK [simp]: "psa_to_esp st = ESP_OK \<longleftrightarrow> st = PSA_SUCCESS"
  by (cases st) simp_all

lemma healthy_cmac: "psa_healthy P \<Longrightarrow> \<exists>mac. cmac_128 P k m = Inr mac \<and> length mac = 16"
  by (auto simp: cmac_128_def psa_healthyD case_prod_beta)

lemma cmac_length: "cmac_128 P k m = Inr mac \<Longrightarrow> length mac = 16"
  by (auto simp: cmac_128_def case_prod_beta split: if_splits)

lemma healthy_s2v_component: "psa_healthy P \<Longrightarrow> \<exists>d'. s2v_component P k s d = Inr d'"
  using healthy_cmac [of P k s] by (auto simp: s2v_component_def)

lemma healthy_s2v: "psa_healthy P \<Longrightarrow> \<exists>tag. aes_siv_s2v P k ad n pt = Inr tag"
proof -
  assume P: "psa_healthy P"
  obtain d0 where d0: "cmac_128 P k (replicate 16 0) = Inr d0" using healthy_cmac [OF P] by blast
  obtain d1 where d1: "(if 0 < length ad then s2v_component P k ad d0 else Inr d0) = Inr d1"
    using healthy_s2v_component [OF P, of k ad d0] by (cases "0 < length ad") auto
  obtain d2 where d2: "s2v_component P k n d1 = Inr d2" using healthy_s2v_component [OF P] by blast
  have "\<exists>t. s2v_final P k pt d2 = Inr t"
  proof -
    have "\<And>m. \<exists>t. cmac_128 P k m = Inr t" using healthy_cmac [OF P] by blast
    moreover have "malloc_ok P (length pt)" using P by (simp add: psa_healthy_def)
    ultimately show ?thesis by (simp add: s2v_final_def Let_def)
  qed
  then show ?thesis unfolding aes_siv_s2v_def d0 by (simp only: sum.case d1 d2)
qed

lemma cmac_error: "cmac_128 P k m \<noteq> Inl ESP_OK"
  by (auto simp: cmac_128_def case_prod_beta import_cmac_key_def)

lemma s2v_error: "aes_siv_s2v P k ad n pt \<noteq> Inl ESP_OK"
  using cmac_error
  by (auto simp: aes_siv_s2v_def s2v_component_def s2v_final_def Let_def split: sum.splits)

lemma s2v_length: "aes_siv_s2v P k ad n pt = Inr tag \<Longrightarrow> length tag = 16"
  by (auto simp: aes_siv_s2v_def s2v_final_def Let_def dest: cmac_length split: sum.splits if_splits)

text \<open>On success CTR writes its whole output over the front of the buffer, and its length is the input's.\<close>

lemma ctr_success:
  assumes "aes_ctr_crypt P k siv x out = (ESP_OK, out')"
  shows "out' = poke out 0 (psa_ctr P k (ctr_iv siv) x)" and "length (psa_ctr P k (ctr_iv siv) x) = length x"
  using assms
  by (simp_all add: aes_ctr_crypt_def Let_def case_prod_beta psa_ctr_def poke_poke import_ctr_key_def
      split: if_splits)

lemma ctr_healthy:
  "psa_healthy P \<Longrightarrow>
   aes_ctr_crypt P k siv x out = (ESP_OK, poke out 0 (psa_ctr P k (ctr_iv siv) x))"
  using psa_healthyD(6) [of P k "ctr_iv siv" x]
  by (simp add: aes_ctr_crypt_def Let_def case_prod_beta psa_healthyD poke_poke psa_ctr_def)
    (simp add: psa_healthy_def)

lemma poke_tag_ct:
  assumes "length tag = 16" "16 + length ct \<le> length out"
  shows "poke (poke out 0 tag) 16 (poke (drop 16 (poke out 0 tag)) 0 ct) = poke out 0 (tag @ ct)"
  using assms by (simp add: poke_def add.commute)

lemma encrypt_success:
  assumes "nts_aes_siv_encrypt P key ad n pt olen out = (ESP_OK, len, out')"
    and "olen \<le> length out"
  shows "\<exists>tag. aes_siv_s2v P (take 16 key) ad n pt = Inr tag \<and> len = 16 + length pt \<and>
     16 + length pt \<le> olen \<and> length (psa_ctr P (drop 16 key) (ctr_iv tag) pt) = length pt \<and>
     out' = poke out 0 (tag @ psa_ctr P (drop 16 key) (ctr_iv tag) pt)"
proof -
  have len: "16 + length pt \<le> olen" "nts_aes_siv_init P = ESP_OK"
    using assms(1) by (auto simp: nts_aes_siv_encrypt_def Let_def NTS_AES_SIV_TAG_LEN_def split: if_splits)
  then obtain tag where tag: "aes_siv_s2v P (take 16 key) ad n pt = Inr tag"
    using assms(1) by (cases "aes_siv_s2v P (take 16 key) ad n pt")
      (auto simp: nts_aes_siv_encrypt_def Let_def NTS_AES_SIV_TAG_LEN_def s2v_error)
  obtain err ct where c: "aes_ctr_crypt P (drop 16 key) tag pt (drop 16 (poke out 0 tag)) = (err, ct)"
    by fastforce
  have ok: "err = ESP_OK" "len = 16 + length pt" "out' = poke (poke out 0 tag) 16 ct"
    using assms(1) len tag c
    by (auto simp: nts_aes_siv_encrypt_def Let_def NTS_AES_SIV_TAG_LEN_def split: if_splits)
  note r = ctr_success [OF c [unfolded ok(1)]]
  show ?thesis
    using tag len ok r assms(2) s2v_length [OF tag] by (auto simp: poke_tag_ct)
qed

lemma encrypt_healthy:
  assumes "psa_healthy P" "16 + length pt \<le> olen" "olen \<le> length out"
  shows "\<exists>tag. aes_siv_s2v P (take 16 key) ad n pt = Inr tag \<and> length tag = 16 \<and>
     nts_aes_siv_encrypt P key ad n pt olen out =
       (ESP_OK, 16 + length pt, poke out 0 (tag @ psa_ctr P (drop 16 key) (ctr_iv tag) pt))"
proof -
  obtain tag where tag: "aes_siv_s2v P (take 16 key) ad n pt = Inr tag"
    using healthy_s2v [OF assms(1)] by blast
  then show ?thesis
    using assms s2v_length [OF tag]
    by (simp add: nts_aes_siv_encrypt_def Let_def NTS_AES_SIV_TAG_LEN_def psa_healthyD ctr_healthy
        poke_tag_ct)
qed

lemma xor_zero_iff: "(a :: u8) XOR b = 0 \<longleftrightarrow> a = b"
  by (auto simp: bit_eq_iff bit_simps)

lemma constant_time_equal_take:
  assumes "n \<le> length l" "n \<le> length r"
  shows "constant_time_equal l r n \<longleftrightarrow> take n l = take n r"
proof -
  have "foldl (\<lambda>d i. d OR (l ! i XOR r ! i)) 0 [0..<n] = 0 \<longleftrightarrow> take n l = take n r"
    using assms
  proof (induction n)
    case (Suc n)
    then show ?case
      by (auto simp: take_Suc_conv_app_nth or_eq_0_iff xor_zero_iff)
  qed simp
  then show ?thesis by (simp add: constant_time_equal_def)
qed

lemma ctr_iv_take: "length t = 16 \<Longrightarrow> ctr_iv (t @ r) = ctr_iv t"
  by (simp add: ctr_iv_def)

lemma decrypt_healthy:
  fixes key :: bytes
  assumes "psa_healthy P" "16 \<le> length c" "length c - 16 \<le> plen" "plen \<le> length buf"
  defines "pt \<equiv> psa_ctr P (drop 16 key) (ctr_iv (take 16 c)) (drop 16 c)"
  shows "nts_aes_siv_decrypt P key ad n c plen buf =
    (if aes_siv_s2v P (take 16 key) ad n pt = Inr (take 16 c)
     then (ESP_OK, length c - 16, poke buf 0 pt)
     else (ESP_ERR_INVALID_CRC, plen, secure_zero (poke buf 0 pt) (length c - 16)))"
proof -
  have len: "length pt = length c - 16" using psa_healthyD(6) [OF assms(1)] by (simp add: pt_def)
  obtain tag where tag: "aes_siv_s2v P (take 16 key) ad n pt = Inr tag"
    using healthy_s2v [OF assms(1)] by blast
  have tk: "take (length c - 16) (poke buf 0 pt) = pt" using len assms(3,4) by (simp add: poke_def)
  have eq: "constant_time_equal (take 16 c) tag 16 \<longleftrightarrow> take 16 c = tag"
    using constant_time_equal_take [of 16 "take 16 c" tag] s2v_length [OF tag] assms(2) by simp
  show ?thesis
    using assms(1-4) tag tk eq
    by (auto simp: nts_aes_siv_decrypt_def Let_def NTS_AES_SIV_TAG_LEN_def psa_healthyD ctr_healthy
        pt_def [symmetric])
qed


subsection \<open>Sealing and opening as partial functions\<close>

definition siv_seal :: "psa \<Rightarrow> bytes \<Rightarrow> bytes \<Rightarrow> bytes \<Rightarrow> bytes \<Rightarrow> bytes option" where
  "siv_seal P key ad n pt =
    (let (err, len, out) = nts_aes_siv_encrypt P key ad n pt (16 + length pt) (replicate (16 + length pt) 0)
     in if err = ESP_OK then Some (take len out) else None)"

definition siv_open :: "psa \<Rightarrow> bytes \<Rightarrow> bytes \<Rightarrow> bytes \<Rightarrow> bytes \<Rightarrow> bytes option" where
  "siv_open P key ad n c =
    (let (err, len, out) = nts_aes_siv_decrypt P key ad n c (length c - 16) (replicate (length c - 16) 0)
     in if err = ESP_OK then Some (take len out) else None)"

lemma siv_seal_healthy:
  assumes "psa_healthy P"
  shows "\<exists>tag. aes_siv_s2v P (take 16 key) ad n pt = Inr tag \<and> length tag = 16 \<and>
    siv_seal P key ad n pt = Some (tag @ psa_ctr P (drop 16 key) (ctr_iv tag) pt)"
  using encrypt_healthy [OF assms, of pt "16 + length pt" "replicate (16 + length pt) 0" key ad n]
    psa_healthyD(6) [OF assms]
  by (auto simp: siv_seal_def poke_def)

lemma siv_seal_length: "psa_healthy P \<Longrightarrow> siv_seal P key ad n pt = Some c \<Longrightarrow> length c = 16 + length pt"
  using siv_seal_healthy [of P key ad n pt] psa_healthyD(6) by fastforce

lemma siv_open_healthy:
  assumes "psa_healthy P" "16 \<le> length c"
  defines "pt k \<equiv> psa_ctr P (drop 16 k) (ctr_iv (take 16 c)) (drop 16 c)"
  shows "siv_open P key ad n c =
    (if aes_siv_s2v P (take 16 key) ad n (pt key) = Inr (take 16 c) then Some (pt key) else None)"
  using decrypt_healthy [OF assms(1,2), of "length c - 16" "replicate (length c - 16) 0" key ad n]
    psa_healthyD(6) [OF assms(1)] assms(2)
  by (simp add: siv_open_def pt_def poke_def)

lemma siv_open_short: "length c < 16 \<Longrightarrow> siv_open P key ad n c = None"
  by (simp add: siv_open_def nts_aes_siv_decrypt_def NTS_AES_SIV_TAG_LEN_def)

lemma siv_open_seal:
  assumes "psa_healthy P" "siv_seal P key ad n pt = Some c"
  shows "siv_open P key ad n c = Some pt"
proof -
  obtain tag where tag: "aes_siv_s2v P (take 16 key) ad n pt = Inr tag" "length tag = 16"
    "c = tag @ psa_ctr P (drop 16 key) (ctr_iv tag) pt"
    using siv_seal_healthy [OF assms(1), of key ad n pt] assms(2) by auto
  then show ?thesis
    using siv_open_healthy [OF assms(1), of c key ad n] psa_healthyD(7) [OF assms(1)] by simp
qed

lemma siv_seal_open:
  assumes "psa_healthy P" "siv_open P key ad n c = Some pt"
  shows "siv_seal P key ad n pt = Some c"
proof -
  have len: "16 \<le> length c" using assms(2) siv_open_short [of c] by (cases "16 \<le> length c") auto
  then have pt: "aes_siv_s2v P (take 16 key) ad n pt = Inr (take 16 c)"
    "pt = psa_ctr P (drop 16 key) (ctr_iv (take 16 c)) (drop 16 c)"
    using siv_open_healthy [OF assms(1) len, of key ad n] assms(2) by (auto split: if_splits)
  have "psa_ctr P (drop 16 key) (ctr_iv (take 16 c)) pt = drop 16 c"
    unfolding pt(2) by (rule psa_healthyD(7) [OF assms(1)])
  then show ?thesis
    using siv_seal_healthy [OF assms(1), of key ad n pt] pt(1) by auto
qed

interpretation siv: aead psa_healthy siv_seal siv_open "\<lambda>key. length key = 32"
  using siv_seal_healthy siv_open_seal siv_seal_open by unfold_locales blast+

text \<open>Encryption and decryption into larger buffers are sealing and opening.\<close>

lemma encrypt_seal:
  assumes "psa_healthy P" "16 + length pt \<le> olen" "olen \<le> length out"
  shows "nts_aes_siv_encrypt P key ad n pt olen out =
    (ESP_OK, 16 + length pt, poke out 0 (the (siv_seal P key ad n pt)))"
proof -
  obtain tag where a: "aes_siv_s2v P (take 16 key) ad n pt = Inr tag"
    "siv_seal P key ad n pt = Some (tag @ psa_ctr P (drop 16 key) (ctr_iv tag) pt)"
    using siv_seal_healthy [OF assms(1)] by blast
  obtain tag' where b: "aes_siv_s2v P (take 16 key) ad n pt = Inr tag'"
    "nts_aes_siv_encrypt P key ad n pt olen out =
       (ESP_OK, 16 + length pt, poke out 0 (tag' @ psa_ctr P (drop 16 key) (ctr_iv tag') pt))"
    using encrypt_healthy [OF assms] by blast
  have "tag' = tag" using a(1) b(1) by simp
  then show ?thesis using a(2) b(2) by simp
qed

lemma decrypt_open:
  assumes "psa_healthy P" "16 \<le> length c" "length c - 16 \<le> plen" "plen \<le> length buf"
  shows "case siv_open P key ad n c of
      Some pt \<Rightarrow> nts_aes_siv_decrypt P key ad n c plen buf = (ESP_OK, length c - 16, poke buf 0 pt) \<and>
                 length pt = length c - 16
    | None \<Rightarrow> fst (nts_aes_siv_decrypt P key ad n c plen buf) = ESP_ERR_INVALID_CRC"
  using decrypt_healthy [OF assms, of key ad n] siv_open_healthy [OF assms(1,2), of key ad n]
    psa_healthyD(6) [OF assms(1)]
  by auto

subsection \<open>Properties\<close>

text \<open>A provider to evaluate with: a CMAC that folds the message into every octet, and a stream of 5A.\<close>

definition psa_toy :: psa where
  "psa_toy = \<lparr> psa_crypto_init = PSA_SUCCESS, psa_import_cmac = (\<lambda>_. PSA_SUCCESS),
     psa_import_ctr = (\<lambda>_. PSA_SUCCESS),
     psa_mac_compute = (\<lambda>k m. (PSA_SUCCESS, replicate 16 (foldl (XOR) 1 (k @ m)))),
     psa_encrypt_setup = (\<lambda>_. PSA_SUCCESS), psa_set_iv = (\<lambda>_ _. PSA_SUCCESS),
     psa_update = (\<lambda>k iv x. (PSA_SUCCESS, map (\<lambda>b. b XOR 0x5A) x)),
     psa_finish = (\<lambda>_ _ _. (PSA_SUCCESS, [])), malloc_ok = (\<lambda>_. True) \<rparr>"

lemma psa_toy_healthy: "psa_healthy psa_toy"
  by (simp add: psa_healthy_def psa_toy_def psa_ctr_def xor.assoc comp_def)

text \<open>
  AES-SIV round trip. With a healthy crypto provider, encrypting into any buffer of sufficient
  declared size succeeds with 16 octets more than the plaintext, and decrypting those octets
  with the same key, associated data and nonce returns the plaintext, whatever the buffers held.
\<close>
theorem siv_roundtrip:
  assumes "psa_healthy P" and "length key = 32" and "16 + length pt \<le> olen" and "olen \<le> length out"
    and "length pt \<le> plen" and "plen \<le> length buf"
  shows "let (err, len, out') = nts_aes_siv_encrypt P key ad n pt olen out;
             (err', len', buf') = nts_aes_siv_decrypt P key ad n (take len out') plen buf
         in err = ESP_OK \<and> len = 16 + length pt \<and> drop len out' = drop len out \<and>
            err' = ESP_OK \<and> len' = length pt \<and> take len' buf' = pt"
proof -
  obtain c where c: "siv_seal P key ad n pt = Some c"
    using siv.seal_total [OF assms(1,2)] by blast
  have len: "length c = 16 + length pt" by (rule siv_seal_length [OF assms(1) c])
  have o: "siv_open P key ad n c = Some pt" by (rule siv.open_seal [OF assms(1,2) c])
  have t: "take (16 + length pt) (poke out 0 c) = c" "drop (16 + length pt) (poke out 0 c) = drop (16 + length pt) out"
    using len by (simp_all add: poke_def)
  show ?thesis
    using encrypt_seal [OF assms(1,3,4), of key ad n] decrypt_open [OF assms(1), of c plen buf key ad n]
      len o assms(5,6) c t
    by (simp add: poke_def)
qed

theorem siv_roundtrip_witness:
  "let (err, len, out') = nts_aes_siv_encrypt psa_toy (replicate 32 7) [1, 2] [3] [4, 5, 6] 19 (replicate 20 0)
   in err = ESP_OK \<and> len = 19 \<and> drop len out' = [0]"
  using siv_roundtrip [OF psa_toy_healthy, of "replicate 32 7" "[4, 5, 6]" 19 "replicate 20 0" 3
      "replicate 3 0" "[1, 2]" "[3]"]
  by (auto simp: Let_def case_prod_beta)

text \<open>
  C11: AES-SIV authenticity. What decryption accepts is exactly what encryption produces: it succeeds with a plaintext if
  and only if the plaintext fits the buffer and encrypting it under the same key, associated data and nonce gives the very
  octets presented; then the plaintext, and nothing else, is in the buffer.
\<close>
theorem siv_accepts_only_sealed:
  assumes "psa_healthy P" and "length key = 32" and "plen \<le> length buf"
  shows "nts_aes_siv_decrypt P key ad n c plen buf = (ESP_OK, len, buf') \<longleftrightarrow>
    (\<exists>pt. len = length pt \<and> len \<le> plen \<and> buf' = poke buf 0 pt \<and>
       nts_aes_siv_encrypt P key ad n pt (16 + len) (replicate (16 + len) 0) = (ESP_OK, 16 + len, c))"
proof
  assume d: "nts_aes_siv_decrypt P key ad n c plen buf = (ESP_OK, len, buf')"
  have l: "16 \<le> length c" "length c - 16 \<le> plen"
    using d by (auto simp: nts_aes_siv_decrypt_def Let_def NTS_AES_SIV_TAG_LEN_def split: if_splits)
  obtain pt where pt: "siv_open P key ad n c = Some pt" "len = length pt" "buf' = poke buf 0 pt" "length pt = length c - 16"
    using d decrypt_open [OF assms(1) l assms(3), of key ad n] by (auto split: option.splits)
  have "siv_seal P key ad n pt = Some c" using siv.seal_open [OF assms(1,2) pt(1)] .
  then have "nts_aes_siv_encrypt P key ad n pt (16 + len) (replicate (16 + len) 0) = (ESP_OK, 16 + len, c)"
    using encrypt_seal [OF assms(1), of pt "16 + len" "replicate (16 + len) 0" key ad n] l pt by (simp add: poke_def)
  then show "\<exists>pt. len = length pt \<and> len \<le> plen \<and> buf' = poke buf 0 pt \<and>
      nts_aes_siv_encrypt P key ad n pt (16 + len) (replicate (16 + len) 0) = (ESP_OK, 16 + len, c)"
    using pt l by (intro exI [of _ pt]) simp
next
  assume "\<exists>pt. len = length pt \<and> len \<le> plen \<and> buf' = poke buf 0 pt \<and>
      nts_aes_siv_encrypt P key ad n pt (16 + len) (replicate (16 + len) 0) = (ESP_OK, 16 + len, c)"
  then obtain pt where pt: "len = length pt" "len \<le> plen" "buf' = poke buf 0 pt"
    "nts_aes_siv_encrypt P key ad n pt (16 + len) (replicate (16 + len) 0) = (ESP_OK, 16 + len, c)" by blast
  obtain c' where c': "siv_seal P key ad n pt = Some c'" using siv.seal_total [OF assms(1,2)] by blast
  have len: "length c' = 16 + length pt" by (rule siv_seal_length [OF assms(1) c'])
  have "c = c'" using pt(1,4) encrypt_seal [OF assms(1), of pt "16 + len" "replicate (16 + len) 0" key ad n] c' len
    by (simp add: poke_def)
  then show "nts_aes_siv_decrypt P key ad n c plen buf = (ESP_OK, len, buf')"
    using decrypt_open [OF assms(1), of c plen buf key ad n] siv.open_seal [OF assms(1,2) c'] len pt(1-3) assms(3) by simp
qed

theorem siv_accepts_only_sealed_witness:
  "\<exists>c. length c = 19 \<and> nts_aes_siv_decrypt psa_toy (replicate 32 7) [1] [2] c 3 [0, 0, 0] = (ESP_OK, 3, [4, 5, 6])"
proof -
  obtain c where c: "siv_seal psa_toy (replicate 32 7) [1] [2] [4, 5, 6] = Some c"
    using siv.seal_total [OF psa_toy_healthy] by fastforce
  have len: "length c = 19" using siv_seal_length [OF psa_toy_healthy c] by simp
  have "nts_aes_siv_encrypt psa_toy (replicate 32 7) [1] [2] [4, 5, 6] (16 + 3) (replicate (16 + 3) 0) = (ESP_OK, 16 + 3, c)"
    using encrypt_seal [OF psa_toy_healthy, of "[4, 5, 6]" "16 + 3" "replicate (16 + 3) 0" "replicate 32 7" "[1]" "[2]"] c len
    by (simp add: poke_def)
  then have "nts_aes_siv_decrypt psa_toy (replicate 32 7) [1] [2] c 3 [0, 0, 0] = (ESP_OK, 3, [4, 5, 6])"
    using siv_accepts_only_sealed [OF psa_toy_healthy, where len = 3 and plen = 3 and buf = "[0, 0, 0]" and buf' = "[4, 5, 6]"
        and key = "replicate 32 7" and ad = "[1]" and n = "[2]" and c = c]
    by (simp add: poke_def) (intro exI [of _ "[4, 5, 6]"], simp)
  then show ?thesis using len by blast
qed

text \<open>
  A failed decryption leaks nothing. Whatever the crypto provider does, when decryption reports
  an error the plaintext buffer is as it was, or its first octets, as many as the ciphertext
  has, are zero.
\<close>
theorem siv_decrypt_failure_wipes:
  assumes "nts_aes_siv_decrypt P key ad n c plen buf = (err, len, buf')" and "err \<noteq> ESP_OK"
  shows "buf' = buf \<or> take (length c - 16) buf' = replicate (length c - 16) 0"
proof -
  have z: "take k (secure_zero b k) = replicate k 0" for b k by (simp add: secure_zero_def poke_def)
  show ?thesis
    using assms z
    by (auto simp: nts_aes_siv_decrypt_def Let_def case_prod_beta NTS_AES_SIV_TAG_LEN_def
        split: if_splits sum.splits)
qed

theorem siv_decrypt_failure_wipes_witness:
  "let buf' = snd (snd (nts_aes_siv_decrypt (psa_toy\<lparr>psa_mac_compute := \<lambda>_ _. (PSA_ERROR_OTHER 1, [])\<rparr>)
      (replicate 32 7) [1] [2] (replicate 18 9) 2 [8, 8]))
   in buf' = [8, 8] \<or> take 2 buf' = [0, 0]"
  using siv_decrypt_failure_wipes [of "psa_toy\<lparr>psa_mac_compute := \<lambda>_ _. (PSA_ERROR_OTHER 1, [])\<rparr>"
      "replicate 32 7" "[1]" "[2]" "replicate 18 9" 2 "[8, 8]"]
  by (simp add: nts_aes_siv_decrypt_def NTS_AES_SIV_TAG_LEN_def nts_aes_siv_init_def psa_toy_def
      aes_ctr_crypt_def import_ctr_key_def Let_def aes_siv_s2v_def cmac_128_def import_cmac_key_def
      secure_zero_def poke_def ctr_iv_def numeral_2_eq_2)

text \<open>
  The octet-wise doubling is multiplication by x in GF(2^128): on the big-endian value of the
  block, a shift by one bit modulo 2^128, reduced with 0x87 when the top bit was set.
\<close>
theorem dbl_block_is_doubling:
  assumes "length b = 16"
  shows "octets_int (dbl_block b) =
    (let n = octets_int b in (2 * n mod 2 ^ 128) XOR (if 2 ^ 127 \<le> n then 0x87 else 0))"
  using assms by (rule dbl_block_value)

theorem dbl_block_is_doubling_witness:
  "octets_int (dbl_block (0x80 # replicate 15 0)) = 0x87"
  using dbl_block_is_doubling [of "0x80 # replicate 15 0"] by (simp add: Let_def)

end
