(* ===== verification/Nts_Storage.thy ===== *)
theory Nts_Storage
  imports Interfaces Clock "HOL-Library.While_Combinator"
begin

text \<open>
  \<open>src/main/nts_storage.c\<close>: the ring of three cookie master keys (previous, active, next) in
  non-volatile storage, and its rotation. NVS, \<open>acme_storage_init\<close> and the creation of the mutex
  are the record \<open>nvs_api\<close> over an abstract storage state; the blob is the ring itself with the
  length the driver reports. The random generator is an infinite tape of octets with a
  position; the clock reading is an argument. \<open>nvs_lawful\<close> states NVS's documented behaviour.
\<close>

definition NTS_STORAGE_COOKIE_KEY_LEN :: nat where "NTS_STORAGE_COOKIE_KEY_LEN = 32"
definition NTS_STORAGE_KEY_PERIOD_SECONDS :: u64 where
  "NTS_STORAGE_KEY_PERIOD_SECONDS = 30 * 24 * 3600"

record cookie_key =
  mk_key_id :: u32
  mk_not_before_ntp :: u64
  mk_not_after_ntp :: u64
  mk_key :: bytes
  mk_valid :: u8

record cookie_keyring =
  slot_previous :: cookie_key
  slot_active :: cookie_key
  slot_next :: cookie_key

definition slots :: "cookie_keyring \<Rightarrow> cookie_key list" where
  "slots r = [slot_previous r, slot_active r, slot_next r]"

definition zero_key :: cookie_key where
  "zero_key = \<lparr> mk_key_id = 0, mk_not_before_ntp = 0, mk_not_after_ntp = 0,
     mk_key = replicate 32 0, mk_valid = 0 \<rparr>"

definition zero_keyring :: cookie_keyring where
  "zero_keyring = \<lparr> slot_previous = zero_key, slot_active = zero_key, slot_next = zero_key \<rparr>"

text \<open>\<open>sizeof\<close> the C structure: three slots of 64 octets.\<close>

definition keyring_size :: nat where "keyring_size = 192"

record 'n nvs_api =
  api_mutex_create :: bool
  api_acme_storage_init :: "'n \<Rightarrow> esp_err \<times> 'n"
  api_open :: "bool \<Rightarrow> 'n \<Rightarrow> esp_err \<times> 'n"
  api_get_blob :: "'n \<Rightarrow> esp_err \<times> nat \<times> cookie_keyring"
  api_set_blob :: "cookie_keyring \<Rightarrow> 'n \<Rightarrow> esp_err \<times> 'n"
  api_commit :: "'n \<Rightarrow> esp_err \<times> 'n"

record 'n storage =
  st_lock :: bool
  st_initialized :: bool
  st_nvs :: 'n
  st_rng :: "nat \<Rightarrow> u8"
  st_rng_pos :: nat

subsection \<open>The random generator\<close>

definition esp_fill_random :: "nat \<Rightarrow> 'n storage \<Rightarrow> bytes \<times> 'n storage" where
  "esp_fill_random n s =
     (map (st_rng s) [st_rng_pos s ..< st_rng_pos s + n], s\<lparr>st_rng_pos := st_rng_pos s + n\<rparr>)"

subsection \<open>Opening the store\<close>

definition ensure_lock :: "'n nvs_api \<Rightarrow> 'n storage \<Rightarrow> esp_err \<times> 'n storage" where
  "ensure_lock api s =
    (if st_lock s then (ESP_OK, s)
     else if api_mutex_create api then (ESP_OK, s\<lparr>st_lock := True\<rparr>)
     else (ESP_ERR_NO_MEM, s))"

definition init_locked :: "'n nvs_api \<Rightarrow> 'n storage \<Rightarrow> esp_err \<times> 'n storage" where
  "init_locked api s =
    (if st_initialized s then (ESP_OK, s)
     else
       let (e1, n1) = api_acme_storage_init api (st_nvs s) in
       if e1 \<noteq> ESP_OK then (e1, s\<lparr>st_nvs := n1\<rparr>)
       else
         let (e2, n2) = api_open api True n1 in
         if e2 \<noteq> ESP_OK then (e2, s\<lparr>st_nvs := n2\<rparr>)
         else (ESP_OK, s\<lparr>st_nvs := n2, st_initialized := True\<rparr>))"

definition nts_storage_init :: "'n nvs_api \<Rightarrow> 'n storage \<Rightarrow> esp_err \<times> 'n storage" where
  "nts_storage_init api s =
    (let (err, s1) = ensure_lock api s in
     if err \<noteq> ESP_OK then (err, s1) else init_locked api s1)"

definition nts_storage_zeroize :: "bytes \<Rightarrow> nat \<Rightarrow> bytes" where
  "nts_storage_zeroize buffer n = poke buffer 0 (replicate n 0)"

subsection \<open>Validation\<close>

definition slot_valid_value :: "cookie_key \<Rightarrow> bool" where
  "slot_valid_value k \<longleftrightarrow> mk_valid k = 0 \<or> mk_valid k = 1"

definition populated_slot_valid :: "cookie_key \<Rightarrow> bool" where
  "populated_slot_valid k \<longleftrightarrow>
     mk_valid k = 1 \<and> mk_key_id k \<noteq> 0 \<and> mk_not_before_ntp k < mk_not_after_ntp k"

fun ids_distinct :: "cookie_key list \<Rightarrow> bool" where
  "ids_distinct [] = True"
| "ids_distinct (k # ks) =
     (if mk_valid k = 0 then ids_distinct ks
      else list_all (\<lambda>j. \<not> (mk_valid j \<noteq> 0 \<and> mk_key_id k = mk_key_id j)) ks \<and> ids_distinct ks)"

definition key_ids_distinct :: "cookie_keyring \<Rightarrow> bool" where
  "key_ids_distinct r = ids_distinct (slots r)"

definition validate_cookie_keyring :: "cookie_keyring \<Rightarrow> esp_err" where
  "validate_cookie_keyring r =
    (if \<not> list_all (\<lambda>k. slot_valid_value k \<and> (mk_valid k \<noteq> 0 \<longrightarrow> populated_slot_valid k)) (slots r)
     then ESP_ERR_INVALID_STATE
     else if \<not> populated_slot_valid (slot_active r) then ESP_ERR_INVALID_STATE
     else if \<not> populated_slot_valid (slot_next r) then ESP_ERR_INVALID_STATE
     else if \<not> key_ids_distinct r then ESP_ERR_INVALID_STATE
     else if mk_not_before_ntp (slot_next r) \<noteq> mk_not_after_ntp (slot_active r)
     then ESP_ERR_INVALID_STATE
     else if mk_not_after_ntp (slot_next r) \<le> mk_not_before_ntp (slot_next r)
     then ESP_ERR_INVALID_STATE
     else if mk_valid (slot_previous r) \<noteq> 0 \<and>
             mk_not_after_ntp (slot_previous r) \<noteq> mk_not_before_ntp (slot_active r)
     then ESP_ERR_INVALID_STATE
     else ESP_OK)"

definition next_key_id :: "u32 \<Rightarrow> u32" where
  "next_key_id current_key_id = (let result = current_key_id + 1 in if result = 0 then 1 else result)"

definition generate_next_slot :: "u32 \<Rightarrow> u64 \<Rightarrow> 'n storage \<Rightarrow> cookie_key \<times> 'n storage" where
  "generate_next_slot key_id not_before_ntp s =
    (let (key, s1) = esp_fill_random NTS_STORAGE_COOKIE_KEY_LEN s
     in (\<lparr> mk_key_id = key_id, mk_not_before_ntp = not_before_ntp,
           mk_not_after_ntp = not_before_ntp + NTS_STORAGE_KEY_PERIOD_SECONDS,
           mk_key = key, mk_valid = 1 \<rparr>, s1))"

subsection \<open>Loading and saving\<close>

definition nts_storage_load_cookie_keyring ::
    "'n nvs_api \<Rightarrow> 'n storage \<Rightarrow> (esp_err + cookie_keyring) \<times> 'n storage" where
  "nts_storage_load_cookie_keyring api s =
    (let (err, s1) = nts_storage_init api s in
     if err \<noteq> ESP_OK then (Inl err, s1)
     else
       let (e1, n1) = api_open api False (st_nvs s1); s2 = s1\<lparr>st_nvs := n1\<rparr> in
       if e1 \<noteq> ESP_OK then (Inl e1, s2)
       else
         let (e2, blob_len, ring) = api_get_blob api n1 in
         if e2 = ESP_ERR_NVS_NOT_FOUND then (Inl ESP_ERR_NOT_FOUND, s2)
         else if e2 = ESP_OK \<and> blob_len \<noteq> keyring_size then (Inl ESP_ERR_INVALID_SIZE, s2)
         else if e2 = ESP_OK then (Inr ring, s2)
         else (Inl e2, s2))"

definition nts_storage_save_cookie_keyring ::
    "'n nvs_api \<Rightarrow> cookie_keyring \<Rightarrow> 'n storage \<Rightarrow> esp_err \<times> 'n storage" where
  "nts_storage_save_cookie_keyring api ring s =
    (let (err, s1) = nts_storage_init api s in
     if err \<noteq> ESP_OK then (err, s1)
     else
       let (e1, n1) = api_open api True (st_nvs s1) in
       if e1 \<noteq> ESP_OK then (e1, s1\<lparr>st_nvs := n1\<rparr>)
       else
         let (e2, n2) = api_set_blob api ring n1 in
         if e2 \<noteq> ESP_OK then (e2, s1\<lparr>st_nvs := n2\<rparr>)
         else
           let (e3, n3) = api_commit api n2 in (e3, s1\<lparr>st_nvs := n3\<rparr>))"

definition nts_storage_ensure_cookie_keyring ::
    "'n nvs_api \<Rightarrow> clock_ntp_timestamp option \<Rightarrow> 'n storage \<Rightarrow> esp_err \<times> 'n storage" where
  "nts_storage_ensure_cookie_keyring api now s =
    (let (loaded, s1) = nts_storage_load_cookie_keyring api s in
     case loaded of
       Inr ring \<Rightarrow> (validate_cookie_keyring ring, s1)
     | Inl err \<Rightarrow>
         if err \<noteq> ESP_ERR_NOT_FOUND then (err, s1)
         else case now of
           None \<Rightarrow> (ESP_ERR_INVALID_STATE, s1)
         | Some t \<Rightarrow>
             let (active, s2) = generate_next_slot 1 (ucast (ct_seconds t)) s1;
                 (next, s3) = generate_next_slot 2 (mk_not_after_ntp active) s2
             in nts_storage_save_cookie_keyring api
                  (zero_keyring\<lparr>slot_active := active, slot_next := next\<rparr>) s3)"

subsection \<open>Rotation\<close>

definition rotate_once :: "cookie_keyring \<times> 'n storage \<times> bool \<Rightarrow> cookie_keyring \<times> 'n storage \<times> bool" where
  "rotate_once = (\<lambda>(ring, s, changed).
    let old_active = slot_active ring; old_next = slot_next ring;
        (next, s1) = generate_next_slot (next_key_id (mk_key_id old_next)) (mk_not_after_ntp old_next) s
    in (\<lparr> slot_previous = old_active, slot_active = old_next, slot_next = next \<rparr>, s1, True))"

definition rotation_due :: "u64 \<Rightarrow> cookie_keyring \<times> 'n storage \<times> bool \<Rightarrow> bool" where
  "rotation_due now_ntp = (\<lambda>(ring, s, changed). mk_not_after_ntp (slot_active ring) \<le> now_ntp)"

definition rotate_keyring ::
    "u64 \<Rightarrow> cookie_keyring \<Rightarrow> 'n storage \<Rightarrow> (cookie_keyring \<times> 'n storage \<times> bool) option" where
  "rotate_keyring now_ntp ring s = while_option (rotation_due now_ntp) rotate_once (ring, s, False)"

text \<open>\<open>None\<close> is a rotation loop that never ends.\<close>

definition nts_storage_maintain_cookie_keyring ::
    "'n nvs_api \<Rightarrow> clock_ntp_timestamp option \<Rightarrow> 'n storage \<Rightarrow> (esp_err \<times> 'n storage) option" where
  "nts_storage_maintain_cookie_keyring api now s =
    (let (loaded, s1) = nts_storage_load_cookie_keyring api s in
     case loaded of
       Inl err \<Rightarrow> Some (err, s1)
     | Inr ring \<Rightarrow>
         if validate_cookie_keyring ring \<noteq> ESP_OK then Some (validate_cookie_keyring ring, s1)
         else case now of
           None \<Rightarrow> Some (ESP_ERR_INVALID_STATE, s1)
         | Some t \<Rightarrow>
             map_option (\<lambda>(ring', s2, changed).
                if changed then nts_storage_save_cookie_keyring api ring' s2 else (ESP_OK, s2))
               (rotate_keyring (ucast (ct_seconds t)) ring s1))"

subsection \<open>The store as the users see it\<close>

definition nvs_lawful :: "'n nvs_api \<Rightarrow> bool" where
  "nvs_lawful api \<longleftrightarrow>
     (\<forall>n. api_get_blob api (snd (api_acme_storage_init api n)) = api_get_blob api n) \<and>
     (\<forall>rw n. api_get_blob api (snd (api_open api rw n)) = api_get_blob api n) \<and>
     (\<forall>ring n n1 n2. api_set_blob api ring n = (ESP_OK, n1) \<longrightarrow> api_commit api n1 = (ESP_OK, n2) \<longrightarrow>
        api_get_blob api n2 = (ESP_OK, keyring_size, ring))"

definition ring_stored :: "'n nvs_api \<Rightarrow> 'n storage \<Rightarrow> cookie_keyring \<Rightarrow> bool" where
  "ring_stored api s ring \<longleftrightarrow> api_get_blob api (st_nvs s) = (ESP_OK, keyring_size, ring)"

lemma init_keeps_blob:
  assumes "nvs_lawful api" and "nts_storage_init api s = (err, t)"
  shows "api_get_blob api (st_nvs t) = api_get_blob api (st_nvs s)"
  using assms by (auto simp: nts_storage_init_def ensure_lock_def init_locked_def nvs_lawful_def Let_def
      split: if_splits prod.splits) (metis snd_conv)+

lemma load_keeps_blob:
  assumes "nvs_lawful api" and "nts_storage_load_cookie_keyring api s = (r, t)"
  shows "api_get_blob api (st_nvs t) = api_get_blob api (st_nvs s)"
proof -
  obtain err s1 where i: "nts_storage_init api s = (err, s1)" by fastforce
  have open_get: "api_get_blob api (snd (api_open api False (st_nvs s1))) = api_get_blob api (st_nvs s1)"
    using assms(1) by (simp add: nvs_lawful_def)
  have "st_nvs t = st_nvs s1 \<or> st_nvs t = snd (api_open api False (st_nvs s1))"
    using assms(2) i by (auto simp: nts_storage_load_cookie_keyring_def Let_def case_prod_beta split: if_splits)
  then show ?thesis using open_get init_keeps_blob [OF assms(1) i] by auto
qed

lemma load_Inr_stored:
  assumes "nvs_lawful api" and "nts_storage_load_cookie_keyring api s = (Inr ring, t)"
  shows "ring_stored api s ring"
proof -
  obtain err s1 where i: "nts_storage_init api s = (err, s1)" by fastforce
  have "api_get_blob api (snd (api_open api False (st_nvs s1))) = (ESP_OK, keyring_size, ring)"
    using assms(2) i by (auto simp: nts_storage_load_cookie_keyring_def Let_def case_prod_beta
        prod_eq_iff split: if_splits)
  moreover have "api_get_blob api (snd (api_open api False (st_nvs s1))) = api_get_blob api (st_nvs s1)"
    using assms(1) by (simp add: nvs_lawful_def)
  ultimately show ?thesis using init_keeps_blob [OF assms(1) i] by (simp add: ring_stored_def)
qed

lemma save_stored:
  assumes "nvs_lawful api" and "nts_storage_save_cookie_keyring api ring s = (ESP_OK, t)"
  shows "ring_stored api t ring"
  using assms by (auto simp: nts_storage_save_cookie_keyring_def Let_def ring_stored_def nvs_lawful_def
      split: if_splits prod.splits)

interpretation keystore: value_store nvs_lawful nts_storage_save_cookie_keyring
    nts_storage_load_cookie_keyring ring_stored
proof unfold_locales
  fix P :: "'a nvs_api" and s t :: "'a storage" and v w :: cookie_keyring and r
  assume P: "nvs_lawful P"
  show "nts_storage_save_cookie_keyring P v s = (ESP_OK, t) \<Longrightarrow> ring_stored P t v"
    by (rule save_stored [OF P])
  show "nts_storage_load_cookie_keyring P s = (r, t) \<Longrightarrow> ring_stored P s v = ring_stored P t v"
    using load_keeps_blob [OF P] by (simp add: ring_stored_def)
  show "nts_storage_load_cookie_keyring P s = (Inr w, t) \<Longrightarrow> ring_stored P s w"
    by (rule load_Inr_stored [OF P])
  show "ring_stored P s v \<Longrightarrow> nts_storage_load_cookie_keyring P s = (Inr w, t) \<Longrightarrow> w = v"
    using load_Inr_stored [OF P, of s w t] by (simp add: ring_stored_def)
qed

subsection \<open>Rings in order\<close>

abbreviation period :: int where "period \<equiv> 2592000"

definition ring_ok :: "cookie_keyring \<Rightarrow> bool" where
  "ring_ok r \<longleftrightarrow> validate_cookie_keyring r = ESP_OK \<and>
     mk_key_id (slot_next r) = next_key_id (mk_key_id (slot_active r)) \<and>
     (mk_valid (slot_previous r) \<noteq> 0 \<longrightarrow>
        mk_key_id (slot_active r) = next_key_id (mk_key_id (slot_previous r))) \<and>
     uint (mk_not_after_ntp (slot_next r)) = uint (mk_not_after_ntp (slot_active r)) + period \<and>
     list_all (\<lambda>k. length (mk_key k) = NTS_STORAGE_COOKIE_KEY_LEN) (slots r)"

lemma validateD:
  assumes "validate_cookie_keyring r = ESP_OK"
  shows "populated_slot_valid (slot_active r)" "populated_slot_valid (slot_next r)"
    "mk_not_before_ntp (slot_next r) = mk_not_after_ntp (slot_active r)"
    "mk_not_before_ntp (slot_next r) < mk_not_after_ntp (slot_next r)" "key_ids_distinct r"
  using assms by (auto simp: validate_cookie_keyring_def not_le split: if_splits)

lemma key_period: "uint NTS_STORAGE_KEY_PERIOD_SECONDS = period"
  by (simp add: NTS_STORAGE_KEY_PERIOD_SECONDS_def)

lemma generated_slot:
  assumes "generate_next_slot k nb s = (c, t)"
  shows "mk_key_id c = k" "mk_not_before_ntp c = nb" "mk_valid c = 1"
    "uint nb < 2 ^ 63 \<Longrightarrow> uint (mk_not_after_ntp c) = uint nb + period"
    "length (mk_key c) = 32" "st_nvs t = st_nvs s"
  using assms
  by (auto simp: generate_next_slot_def esp_fill_random_def Let_def NTS_STORAGE_COOKIE_KEY_LEN_def
      uint_word_ariths key_period)

lemma next_key_id_nonzero [simp]: "next_key_id k \<noteq> 0"
  by (simp add: next_key_id_def Let_def)

lemma next_key_id_uint:
  "uint (next_key_id k) = (if uint k = 2 ^ 32 - 1 then 1 else uint k + 1)"
proof -
  have k: "0 \<le> uint k" "uint k < 2 ^ 32" using uint_lt2p [of k] by simp_all
  have m: "uint (k + 1) = (uint k + 1) mod 2 ^ 32" by (simp add: uint_word_ariths)
  show ?thesis
  proof (cases "uint k = 2 ^ 32 - 1")
    case True
    then have "k + 1 = 0" using m by (simp add: word_uint_eq_iff)
    then show ?thesis using True by (simp add: next_key_id_def)
  next
    case False
    then have u: "uint (k + 1) = uint k + 1" unfolding m using k by (intro mod_pos_pos_trivial) simp_all
    then have "uint (k + 1) \<noteq> 0" using k by linarith
    then have "k + 1 \<noteq> 0" by auto
    then show ?thesis using u False by (simp add: next_key_id_def Let_def)
  qed
qed

lemma next_key_id_distinct:
  assumes "k \<noteq> 0"
  shows "next_key_id k \<noteq> k" "next_key_id (next_key_id k) \<noteq> k" "next_key_id (next_key_id k) \<noteq> next_key_id k"
proof -
  have k: "0 < uint k" "uint k < 2 ^ 32" using assms uint_lt2p [of k] by (auto simp: word_uint_eq_iff less_le)
  then show "next_key_id k \<noteq> k" "next_key_id (next_key_id k) \<noteq> k"
    "next_key_id (next_key_id k) \<noteq> next_key_id k"
    unfolding word_uint_eq_iff next_key_id_uint by auto
qed


lemma validate_rotated:
  assumes "populated_slot_valid a" "populated_slot_valid n" "populated_slot_valid c"
    "mk_not_before_ntp n = mk_not_after_ntp a" "mk_not_before_ntp c = mk_not_after_ntp n"
    "mk_key_id n = next_key_id (mk_key_id a)" "mk_key_id c = next_key_id (mk_key_id n)"
  shows "validate_cookie_keyring \<lparr> slot_previous = a, slot_active = n, slot_next = c \<rparr> = ESP_OK"
proof -
  have "mk_key_id a \<noteq> 0" using assms(1) by (simp add: populated_slot_valid_def)
  note d = next_key_id_distinct [OF this]
  show ?thesis
    using assms d [symmetric]
    by (simp add: validate_cookie_keyring_def slots_def slot_valid_value_def key_ids_distinct_def not_le)
      (auto simp: populated_slot_valid_def not_le)
qed

lemma rotate_once_ok:
  assumes "ring_ok r" "uint (mk_not_after_ntp (slot_active r)) < 2 ^ 32"
    and "rotate_once (r, s, b) = (r', s', b')"
  shows "ring_ok r'" "b'" "slot_active r' = slot_next r" "slot_previous r' = slot_active r"
    "st_nvs s' = st_nvs s"
proof -
  let ?n = "slot_next r"
  obtain c s1 where g: "generate_next_slot (next_key_id (mk_key_id ?n)) (mk_not_after_ntp ?n) s = (c, s1)"
    by fastforce
  have r': "r' = \<lparr> slot_previous = slot_active r, slot_active = ?n, slot_next = c \<rparr>" "b'" "s' = s1"
    using assms(3) g by (auto simp: rotate_once_def)
  note v = validateD and o = assms(1) [unfolded ring_ok_def]
  have na: "uint (mk_not_after_ntp ?n) = uint (mk_not_after_ntp (slot_active r)) + period" using o by simp
  then have nb: "uint (mk_not_after_ntp ?n) < 2 ^ 63" using assms(2) by simp
  note gs = generated_slot [OF g]
  have nac: "uint (mk_not_after_ntp c) = uint (mk_not_after_ntp ?n) + period" by (rule gs(4) [OF nb])
  have pc: "populated_slot_valid c"
    using gs nac by (simp add: populated_slot_valid_def word_less_def)
  have "validate_cookie_keyring r' = ESP_OK"
    unfolding r' using v [of r] o pc gs by (intro validate_rotated) simp_all
  then show "ring_ok r'" using o gs nac
    by (simp add: ring_ok_def r' slots_def NTS_STORAGE_COOKIE_KEY_LEN_def)
  show "b'" "slot_active r' = ?n" "slot_previous r' = slot_active r" using r' by simp_all
  show "st_nvs s' = st_nvs s" using r' gs by simp
qed

subsection \<open>The rotation loop\<close>

text \<open>Validation alone makes the loop end: the expiry of the active key grows in every round.\<close>

lemma rotate_keyring_ends:
  assumes "validate_cookie_keyring r = ESP_OK" "uint now < 2 ^ 32"
  shows "rotate_keyring now r s \<noteq> None"
proof -
  define I where "I x \<longleftrightarrow> (uint (mk_not_after_ntp (slot_active (fst x))) \<le> uint now \<longrightarrow>
      uint (mk_not_after_ntp (slot_active (fst x))) < uint (mk_not_after_ntp (slot_next (fst x))))"
    for x :: "cookie_keyring \<times> 'a storage \<times> bool"
  define m where "m x = nat (2 ^ 32 - uint (mk_not_after_ntp (slot_active (fst x))))"
    for x :: "cookie_keyring \<times> 'a storage \<times> bool"
  have "\<exists>t. while_option (rotation_due now) rotate_once (r, s, False) = Some t"
  proof (rule measure_while_option_Some [of I _ _ m])
    fix x :: "cookie_keyring \<times> 'a storage \<times> bool"
    assume I: "I x" and due: "rotation_due now x"
    obtain q u b where x: "x = (q, u, b)" by (metis prod_cases3)
    have le: "uint (mk_not_after_ntp (slot_active q)) \<le> uint now"
      using due by (simp add: x rotation_due_def word_le_def)
    have lt: "uint (mk_not_after_ntp (slot_active q)) < uint (mk_not_after_ntp (slot_next q))"
      using I le by (simp add: I_def x)
    obtain c u1 where g: "generate_next_slot (next_key_id (mk_key_id (slot_next q)))
        (mk_not_after_ntp (slot_next q)) u = (c, u1)" by fastforce
    have step: "rotate_once x = (\<lparr> slot_previous = slot_active q, slot_active = slot_next q, slot_next = c \<rparr>, u1, True)"
      by (simp add: x rotate_once_def g)
    have "I (rotate_once x)"
      unfolding I_def step using generated_slot(4) [OF g] assms(2) by auto
    moreover have "m (rotate_once x) < m x"
      unfolding m_def step using lt le assms(2) by (simp add: x)
    ultimately show "I (rotate_once x) \<and> m (rotate_once x) < m x" by simp
  next
    show "I (r, s, False)" using validateD(3,4) [OF assms(1)] by (simp add: I_def word_less_def)
  qed
  then show ?thesis by (simp add: rotate_keyring_def)
qed

definition rotation_inv ::
    "u64 \<Rightarrow> cookie_keyring \<Rightarrow> 'n storage \<Rightarrow> cookie_keyring \<times> 'n storage \<times> bool \<Rightarrow> bool" where
  "rotation_inv now r s = (\<lambda>(q, u, b).
     ring_ok q \<and> st_nvs u = st_nvs s \<and>
     (mk_not_before_ntp (slot_active r) \<le> now \<longrightarrow> mk_not_before_ntp (slot_active q) \<le> now) \<and>
     (if b then mk_not_after_ntp (slot_active r) \<le> now else q = r \<and> u = s) \<and>
     (b \<and> now < mk_not_after_ntp (slot_next r) \<longrightarrow>
        slot_previous q = slot_active r \<and> slot_active q = slot_next r))"

lemma rotation_inv_step:
  assumes "rotation_inv now r s x" "rotation_due now x" "uint now < 2 ^ 32"
  shows "rotation_inv now r s (rotate_once x)"
proof -
  obtain q u b where x: "x = (q, u, b)" by (metis prod_cases3)
  obtain q' u' b' where st: "rotate_once (q, u, b) = (q', u', b')" by (metis prod_cases3)
  have due: "mk_not_after_ntp (slot_active q) \<le> now" using assms(2) by (simp add: x rotation_due_def)
  have ok: "ring_ok q" using assms(1) by (simp add: x rotation_inv_def)
  note r = rotate_once_ok [OF ok _ st]
  have lt: "uint (mk_not_after_ntp (slot_active q)) < 2 ^ 32"
    using due assms(3) by (simp add: word_le_def)
  have "mk_not_before_ntp (slot_next q) \<le> now"
    using validateD(3) [of q] ok due by (simp add: ring_ok_def)
  then show ?thesis
    using assms(1) due r [OF lt] unfolding x st rotation_inv_def by (auto simp: not_le split: if_splits)
qed

lemma rotate_keyring_ok:
  assumes "rotate_keyring now r s = Some (r', s', b)" "ring_ok r" "uint now < 2 ^ 32"
  shows "rotation_inv now r s (r', s', b)" and "now < mk_not_after_ntp (slot_active r')"
proof -
  have w: "while_option (rotation_due now) rotate_once (r, s, False) = Some (r', s', b)"
    using assms(1) by (simp add: rotate_keyring_def)
  show "rotation_inv now r s (r', s', b)"
  proof (rule while_option_rule [where P = "rotation_inv now r s", OF _ w])
    show "rotation_inv now r s x \<Longrightarrow> rotation_due now x \<Longrightarrow> rotation_inv now r s (rotate_once x)" for x
      using assms(3) by (intro rotation_inv_step)
    show "rotation_inv now r s (r, s, False)" using assms(2) by (simp add: rotation_inv_def)
  qed
  show "now < mk_not_after_ntp (slot_active r')"
    using while_option_stop [OF w] by (simp add: rotation_due_def not_le)
qed

subsection \<open>Storage whose calls succeed\<close>

definition nvs_healthy :: "'n nvs_api \<Rightarrow> bool" where
  "nvs_healthy api \<longleftrightarrow> nvs_lawful api \<and> api_mutex_create api \<and>
     (\<forall>n. fst (api_acme_storage_init api n) = ESP_OK) \<and> (\<forall>rw n. fst (api_open api rw n) = ESP_OK) \<and>
     (\<forall>r n. fst (api_set_blob api r n) = ESP_OK) \<and> (\<forall>n. fst (api_commit api n) = ESP_OK)"

lemma healthy_init: "nvs_healthy api \<Longrightarrow> fst (nts_storage_init api s) = ESP_OK"
  by (auto simp: nvs_healthy_def nts_storage_init_def ensure_lock_def init_locked_def Let_def case_prod_beta)

lemma healthy_save: "nvs_healthy api \<Longrightarrow> fst (nts_storage_save_cookie_keyring api r s) = ESP_OK"
  using healthy_init [of api s]
  by (auto simp: nvs_healthy_def nts_storage_save_cookie_keyring_def Let_def case_prod_beta)

lemma healthy_load:
  assumes "nvs_healthy api" "ring_stored api s r"
  shows "\<exists>t. nts_storage_load_cookie_keyring api s = (Inr r, t)"
proof -
  obtain s1 where i: "nts_storage_init api s = (ESP_OK, s1)"
    using healthy_init [OF assms(1), of s] by (metis prod.collapse)
  have law: "nvs_lawful api" using assms(1) by (simp add: nvs_healthy_def)
  have "api_get_blob api (snd (api_open api False (st_nvs s1))) = (ESP_OK, keyring_size, r)"
    using law init_keeps_blob [OF law i] assms(2) by (simp add: nvs_lawful_def ring_stored_def)
  moreover have "fst (api_open api False (st_nvs s1)) = ESP_OK" using assms(1) by (simp add: nvs_healthy_def)
  ultimately show ?thesis
    by (simp add: nts_storage_load_cookie_keyring_def i Let_def case_prod_beta)
qed

lemma uint_now: "uint (ucast (ct_seconds (t :: clock_ntp_timestamp)) :: u64) = uint (ct_seconds t)"
  "uint (ucast (ct_seconds t) :: u64) < 2 ^ 32"
  using uint_lt2p [of "ct_seconds t"] by (simp_all add: uint_ucast_widen)

lemma maintain_total: "nts_storage_maintain_cookie_keyring api now s \<noteq> None"
proof -
  have "uint (ucast (ct_seconds t) :: u64) < 2 ^ 32" for t :: clock_ntp_timestamp
    using uint_lt2p [of "ct_seconds t"] by (simp add: uint_ucast_widen)
  note ends = rotate_keyring_ends [OF _ this]
  obtain loaded s1 where l: "nts_storage_load_cookie_keyring api s = (loaded, s1)" by fastforce
  show ?thesis
  proof (cases loaded)
    case (Inr ring)
    then show ?thesis
      using ends [of ring _ s1] l
      by (cases now) (auto simp: nts_storage_maintain_cookie_keyring_def Let_def simp del: not_None_eq)
  qed (simp add: nts_storage_maintain_cookie_keyring_def l)
qed

lemma healthy_maintain:
  assumes "nvs_healthy api" "ring_stored api s r" "ring_ok r"
  shows "\<exists>u. nts_storage_maintain_cookie_keyring api (Some t) s = Some (ESP_OK, u)"
proof -
  obtain s1 where l: "nts_storage_load_cookie_keyring api s = (Inr r, s1)"
    using healthy_load [OF assms(1,2)] by blast
  have v: "validate_cookie_keyring r = ESP_OK" using assms(3) by (simp add: ring_ok_def)
  obtain r' s2 b where "rotate_keyring (ucast (ct_seconds t)) r s1 = Some (r', s2, b)"
    using rotate_keyring_ends [OF v uint_now(2)] by (metis not_None_eq prod_cases3)
  then show ?thesis
    using healthy_save [OF assms(1), of r' s2]
    by (auto simp: nts_storage_maintain_cookie_keyring_def l v Let_def prod_eq_iff)
qed

lemma maintain_ring:
  assumes "nvs_lawful api" and "ring_stored api s r" and "ring_ok r"
    and "uint (mk_not_before_ntp (slot_active r)) \<le> uint (ct_seconds t)"
    and "nts_storage_maintain_cookie_keyring api (Some t) s = Some (ESP_OK, s')"
  shows "\<exists>r'. ring_stored api s' r' \<and> ring_ok r' \<and>
    uint (mk_not_before_ntp (slot_active r')) \<le> uint (ct_seconds t) \<and>
    uint (ct_seconds t) < uint (mk_not_after_ntp (slot_active r')) \<and>
    (uint (ct_seconds t) < uint (mk_not_after_ntp (slot_next r)) \<longrightarrow>
       slot_active r \<in> {slot_active r', slot_previous r'})"
proof -
  let ?now = "ucast (ct_seconds t) :: u64"
  have u: "uint ?now = uint (ct_seconds t)" "uint ?now < 2 ^ 32"
    using uint_lt2p [of "ct_seconds t"] by (simp_all add: uint_ucast_widen)
  obtain loaded s1 where l: "nts_storage_load_cookie_keyring api s = (loaded, s1)" by fastforce
  have "loaded = Inr r"
  proof (cases loaded)
    case (Inl e)
    then have "e = ESP_OK" using assms(5) l by (simp add: nts_storage_maintain_cookie_keyring_def)
    then show ?thesis
      using l Inl by (auto simp: nts_storage_load_cookie_keyring_def Let_def split: if_splits prod.splits)
  next
    case (Inr w)
    then show ?thesis using keystore.load_value [OF assms(1,2), of w s1] l by simp
  qed
  then have l': "nts_storage_load_cookie_keyring api s = (Inr r, s1)" using l by simp
  have s1: "ring_stored api s1 r" using keystore.load_holds [OF assms(1) l'] assms(2) by blast
  obtain r' s2 b where rot: "rotate_keyring ?now r s1 = Some (r', s2, b)"
    and out: "(if b then nts_storage_save_cookie_keyring api r' s2 else (ESP_OK, s2)) = (ESP_OK, s')"
    using assms(5) assms(3)
    by (auto simp: nts_storage_maintain_cookie_keyring_def l' ring_ok_def Let_def)
  note inv = rotate_keyring_ok [OF rot assms(3) u(2)]
  have "ring_stored api s' r'"
  proof (cases b)
    case True
    then show ?thesis using out keystore.save_holds [OF assms(1)] by simp
  next
    case False
    then show ?thesis using out inv(1) s1 by (simp add: rotation_inv_def)
  qed
  moreover have "mk_not_before_ntp (slot_active r) \<le> ?now" using assms(4) u(1) by (simp add: word_le_def)
  ultimately show ?thesis
    using inv u(1)
    by (intro exI [of _ r']) (auto simp: rotation_inv_def word_le_def word_less_def split: if_splits)
qed

subsection \<open>A store to evaluate with\<close>

definition toy_nvs :: "cookie_keyring option nvs_api" where
  "toy_nvs = \<lparr> api_mutex_create = True, api_acme_storage_init = (\<lambda>n. (ESP_OK, n)),
     api_open = (\<lambda>_ n. (ESP_OK, n)),
     api_get_blob = (\<lambda>n. case n of None \<Rightarrow> (ESP_ERR_NVS_NOT_FOUND, 0, zero_keyring)
                                | Some r \<Rightarrow> (ESP_OK, keyring_size, r)),
     api_set_blob = (\<lambda>r n. (ESP_OK, Some r)), api_commit = (\<lambda>n. (ESP_OK, n)) \<rparr>"

definition toy_storage :: "cookie_keyring option \<Rightarrow> cookie_keyring option storage" where
  "toy_storage n = \<lparr> st_lock = False, st_initialized = False, st_nvs = n, st_rng = (\<lambda>i. of_nat i),
     st_rng_pos = 0 \<rparr>"

definition toy_ring :: cookie_keyring where
  "toy_ring = zero_keyring\<lparr>
     slot_active := \<lparr> mk_key_id = 1, mk_not_before_ntp = 1000, mk_not_after_ntp = 2593000,
                      mk_key = replicate 32 11, mk_valid = 1 \<rparr>,
     slot_next := \<lparr> mk_key_id = 2, mk_not_before_ntp = 2593000, mk_not_after_ntp = 5185000,
                    mk_key = replicate 32 22, mk_valid = 1 \<rparr>\<rparr>"

lemma toy_nvs_lawful: "nvs_lawful toy_nvs"
  by (simp add: nvs_lawful_def toy_nvs_def)

lemma toy_ring_stored [simp]: "ring_stored toy_nvs (toy_storage (Some r)) r"
  by (simp add: ring_stored_def toy_nvs_def toy_storage_def)

lemma toy_ring_ok: "ring_ok toy_ring"
  by (simp add: ring_ok_def toy_ring_def validate_cookie_keyring_def slots_def zero_keyring_def
      zero_key_def slot_valid_value_def populated_slot_valid_def key_ids_distinct_def next_key_id_def
      NTS_STORAGE_COOKIE_KEY_LEN_def)

lemma toy_load:
  "\<exists>u. nts_storage_load_cookie_keyring toy_nvs (toy_storage (Some r)) = (Inr r, u)"
  by (simp add: nts_storage_load_cookie_keyring_def nts_storage_init_def ensure_lock_def
      init_locked_def toy_nvs_def toy_storage_def)

lemma toy_save: "\<exists>u. nts_storage_save_cookie_keyring toy_nvs r s = (ESP_OK, u)"
  by (simp add: nts_storage_save_cookie_keyring_def nts_storage_init_def ensure_lock_def
      init_locked_def toy_nvs_def Let_def)

lemma toy_maintain:
  "\<exists>u. nts_storage_maintain_cookie_keyring toy_nvs (Some t) (toy_storage (Some toy_ring)) = Some (ESP_OK, u)"
proof -
  obtain s1 where l: "nts_storage_load_cookie_keyring toy_nvs (toy_storage (Some toy_ring)) = (Inr toy_ring, s1)"
    using toy_load by blast
  have v: "validate_cookie_keyring toy_ring = ESP_OK" using toy_ring_ok by (simp add: ring_ok_def)
  have "uint (ucast (ct_seconds t) :: u64) < 2 ^ 32"
    using uint_lt2p [of "ct_seconds t"] by (simp add: uint_ucast_widen)
  then obtain r' s2 b where "rotate_keyring (ucast (ct_seconds t)) toy_ring s1 = Some (r', s2, b)"
    using rotate_keyring_ends [OF v] by (metis not_None_eq prod_cases3)
  then show ?thesis
    using toy_save [of r' s2] by (simp add: nts_storage_maintain_cookie_keyring_def l v Let_def)
qed

subsection \<open>Properties\<close>

text \<open>
  Maintenance always returns. Whatever the storage driver answers, whatever ring it holds and
  whatever the clock says, the rotation loop ends: validation makes each rotation advance the
  expiry of the active key, and the clock reading is at most 32 bits.
\<close>
theorem maintain_terminates: "nts_storage_maintain_cookie_keyring api now s \<noteq> None"
  by (rule maintain_total)

text \<open>
  C10: Rotation keeps the ring in order. On lawful storage holding an orderly ring whose active key
  has started, a maintenance that succeeds leaves an orderly ring stored, with distinct ids and
  abutting periods, whose active key covers the present second; and within one period of the
  last expiry the key that was active before is still in the ring, so cookies sealed with it
  still open.
\<close>
theorem maintain_keeps_ring:
  assumes "nvs_lawful api" and "ring_stored api s r" and "ring_ok r"
    and "uint (mk_not_before_ntp (slot_active r)) \<le> uint (ct_seconds t)"
    and "nts_storage_maintain_cookie_keyring api (Some t) s = Some (ESP_OK, s')"
  shows "\<exists>r'. ring_stored api s' r' \<and> ring_ok r' \<and>
    uint (mk_not_before_ntp (slot_active r')) \<le> uint (ct_seconds t) \<and>
    uint (ct_seconds t) < uint (mk_not_after_ntp (slot_active r')) \<and>
    (uint (ct_seconds t) < uint (mk_not_after_ntp (slot_next r)) \<longrightarrow>
       slot_active r \<in> {slot_active r', slot_previous r'})"
  using assms by (rule maintain_ring)

theorem maintain_keeps_ring_witness:
  "\<exists>s' r'. nts_storage_maintain_cookie_keyring toy_nvs (Some \<lparr>ct_seconds = 2593001, ct_fraction = 0\<rparr>)
       (toy_storage (Some toy_ring)) = Some (ESP_OK, s') \<and> ring_stored toy_nvs s' r' \<and>
     slot_active toy_ring \<in> {slot_active r', slot_previous r'}"
proof -
  obtain u where u: "nts_storage_maintain_cookie_keyring toy_nvs (Some \<lparr>ct_seconds = 2593001, ct_fraction = 0\<rparr>)
      (toy_storage (Some toy_ring)) = Some (ESP_OK, u)" using toy_maintain by blast
  show ?thesis
    using maintain_keeps_ring [OF toy_nvs_lawful toy_ring_stored toy_ring_ok _ u] u
    by (auto simp: toy_ring_def)
qed

text \<open>
  Creation. On lawful storage that holds no ring, the first call stores an orderly ring whose
  active key starts at the present second and lasts thirty days.
\<close>
theorem ensure_creates_ring:
  assumes "nvs_lawful api" and "fst (nts_storage_load_cookie_keyring api s) = Inl ESP_ERR_NOT_FOUND"
    and "nts_storage_ensure_cookie_keyring api (Some t) s = (ESP_OK, s')"
  shows "\<exists>r. ring_stored api s' r \<and> ring_ok r \<and>
    uint (mk_not_before_ntp (slot_active r)) = uint (ct_seconds t) \<and>
    uint (mk_not_after_ntp (slot_active r)) = uint (ct_seconds t) + 30 * 24 * 3600"
proof -
  obtain s1 where l: "nts_storage_load_cookie_keyring api s = (Inl ESP_ERR_NOT_FOUND, s1)"
    using assms(2) by (metis prod.collapse)
  obtain a s2 where a: "generate_next_slot 1 (ucast (ct_seconds t)) s1 = (a, s2)" by fastforce
  obtain n s3 where n: "generate_next_slot 2 (mk_not_after_ntp a) s2 = (n, s3)" by fastforce
  define r where "r = zero_keyring\<lparr>slot_active := a, slot_next := n\<rparr>"
  have save: "nts_storage_save_cookie_keyring api r s3 = (ESP_OK, s')"
    using assms(3) by (simp add: nts_storage_ensure_cookie_keyring_def l a n r_def)
  have u: "uint (ucast (ct_seconds t) :: u64) = uint (ct_seconds t)" "uint (ct_seconds t) < 2 ^ 32"
    using uint_lt2p [of "ct_seconds t"] by (simp_all add: uint_ucast_widen)
  note ga = generated_slot [OF a] and gn = generated_slot [OF n]
  have na: "uint (mk_not_after_ntp a) = uint (ct_seconds t) + period" using ga(4) u by simp
  then have nn: "uint (mk_not_after_ntp n) = uint (mk_not_after_ntp a) + period" using gn(4) u by simp
  have "populated_slot_valid a" "populated_slot_valid n"
    using ga gn na nn u by (simp_all add: populated_slot_valid_def word_less_def)
  then have "ring_ok r"
    using ga gn na nn
    by (simp add: ring_ok_def r_def validate_cookie_keyring_def slots_def zero_keyring_def zero_key_def
        slot_valid_value_def key_ids_distinct_def next_key_id_def word_le_def
        NTS_STORAGE_COOKIE_KEY_LEN_def)
  moreover have "ring_stored api s' r" using keystore.save_holds [OF assms(1) save] .
  ultimately show ?thesis using na ga u by (intro exI [of _ r]) (simp add: r_def)
qed

theorem ensure_creates_ring_witness:
  "\<exists>s' r. nts_storage_ensure_cookie_keyring toy_nvs (Some \<lparr>ct_seconds = 1000, ct_fraction = 0\<rparr>)
       (toy_storage None) = (ESP_OK, s') \<and> ring_stored toy_nvs s' r \<and>
     uint (mk_not_after_ntp (slot_active r)) = 2593000"
proof -
  have l: "fst (nts_storage_load_cookie_keyring toy_nvs (toy_storage None)) = Inl ESP_ERR_NOT_FOUND"
    by (simp add: nts_storage_load_cookie_keyring_def nts_storage_init_def ensure_lock_def
        init_locked_def toy_nvs_def toy_storage_def)
  then obtain s1 where "nts_storage_load_cookie_keyring toy_nvs (toy_storage None) = (Inl ESP_ERR_NOT_FOUND, s1)"
    by (metis prod.collapse)
  then obtain u where u: "nts_storage_ensure_cookie_keyring toy_nvs (Some \<lparr>ct_seconds = 1000, ct_fraction = 0\<rparr>)
      (toy_storage None) = (ESP_OK, u)"
    using toy_save by (simp add: nts_storage_ensure_cookie_keyring_def case_prod_beta) metis
  show ?thesis using ensure_creates_ring [OF toy_nvs_lawful l u] u by auto
qed

text \<open>
  The rotation stops with the NTP era. The present is read from a 32-bit seconds field while
  expiries are 64-bit sums, so once the active key expires after 2^32 (7 February 2036), no
  reading of the clock ever makes maintenance rotate: the ring stays as it is for good.
\<close>
theorem rotation_stops_at_era_end:
  assumes "nvs_lawful api" and "ring_stored api s r" and "2 ^ 32 \<le> uint (mk_not_after_ntp (slot_active r))"
  shows "\<exists>err s'. nts_storage_maintain_cookie_keyring api now s = Some (err, s') \<and> ring_stored api s' r"
proof -
  obtain loaded s1 where l: "nts_storage_load_cookie_keyring api s = (loaded, s1)" by fastforce
  have s1: "ring_stored api s1 r" using keystore.load_holds [OF assms(1) l] assms(2) by blast
  have due: "\<not> rotation_due (ucast (ct_seconds t)) (r, u, False)" for t :: clock_ntp_timestamp and u :: "'a storage"
    using uint_lt2p [of "ct_seconds t"] assms(3)
    by (simp add: rotation_due_def word_le_def uint_ucast_widen)
  have rot: "rotate_keyring (ucast (ct_seconds t)) r u = Some (r, u, False)" for t :: clock_ntp_timestamp and u :: "'a storage"
    unfolding rotate_keyring_def by (subst while_option_unfold) (simp add: due)
  show ?thesis
  proof (cases loaded)
    case (Inl e)
    then show ?thesis using l s1 by (simp add: nts_storage_maintain_cookie_keyring_def)
  next
    case (Inr w)
    then have "w = r" using keystore.load_value [OF assms(1,2), of w s1] l by simp
    then show ?thesis using l s1 Inr rot
      by (cases now) (auto simp: nts_storage_maintain_cookie_keyring_def Let_def)
  qed
qed

theorem rotation_stops_at_era_end_witness:
  "let r = toy_ring\<lparr>slot_active := (slot_active toy_ring)\<lparr>mk_not_after_ntp := 4294967297\<rparr>\<rparr>
   in \<exists>err s'. nts_storage_maintain_cookie_keyring toy_nvs (Some \<lparr>ct_seconds = 5, ct_fraction = 0\<rparr>)
        (toy_storage (Some r)) = Some (err, s') \<and> ring_stored toy_nvs s' r"
  using rotation_stops_at_era_end [OF toy_nvs_lawful
      toy_ring_stored [of "toy_ring\<lparr>slot_active := (slot_active toy_ring)\<lparr>mk_not_after_ntp := 4294967297\<rparr>\<rparr>"]]
  by (simp add: Let_def)

end
