(* ===== verification/Nts_Cookie.thy ===== *)
theory Nts_Cookie
  imports Aes_Siv Nts_Storage
begin

text \<open>
  \<open>src/main/nts_cookie.c\<close>: the traffic keys of an NTS association and the cookies that carry them,
  sealed with a master key of the ring. A cookie is the id of the master key (4 octets), a
  random nonce (16), and the sealed plaintext (16 + 92). Every operation first runs the
  maintenance of the ring; \<open>now1\<close> is the clock reading maintenance makes and \<open>now2\<close> the
  operation's own. The outer \<open>option\<close> is \<open>None\<close> if the maintenance loop did not end.
\<close>

definition NTS_TRAFFIC_KEY_LEN :: nat where "NTS_TRAFFIC_KEY_LEN = 32"
definition NTS_COOKIE_NONCE_LEN :: nat where "NTS_COOKIE_NONCE_LEN = 16"
definition NTS_COOKIE_MAX_LEN :: nat where "NTS_COOKIE_MAX_LEN = 256"
definition NTS_COOKIE_MAGIC :: u32 where "NTS_COOKIE_MAGIC = 0x4E545343"
definition NTS_COOKIE_VERSION :: u16 where "NTS_COOKIE_VERSION = 1"
definition NTS_COOKIE_PLAINTEXT_LEN :: nat where
  "NTS_COOKIE_PLAINTEXT_LEN = 4 + 2 + 2 + 4 + 8 + 8 + NTS_TRAFFIC_KEY_LEN + NTS_TRAFFIC_KEY_LEN"
definition NTS_COOKIE_WIRE_PREFIX_LEN :: nat where
  "NTS_COOKIE_WIRE_PREFIX_LEN = 4 + NTS_COOKIE_NONCE_LEN"

lemmas cookie_lens = NTS_TRAFFIC_KEY_LEN_def NTS_COOKIE_NONCE_LEN_def NTS_COOKIE_PLAINTEXT_LEN_def
  NTS_COOKIE_WIRE_PREFIX_LEN_def NTS_AES_SIV_TAG_LEN_def

record cookie_keys =
  nk_c2s_key :: bytes
  nk_s2c_key :: bytes
  nk_master_key_id :: u32
  nk_issued_ntp_seconds :: u64
  nk_expires_ntp_seconds :: u64

definition zero_keys :: cookie_keys where
  "zero_keys = \<lparr> nk_c2s_key = replicate 32 0, nk_s2c_key = replicate 32 0, nk_master_key_id = 0,
     nk_issued_ntp_seconds = 0, nk_expires_ntp_seconds = 0 \<rparr>"

definition current_ntp_seconds :: "clock_ntp_timestamp option \<Rightarrow> u32 option" where
  "current_ntp_seconds now = map_option ct_seconds now"

definition find_cookie_master_key :: "cookie_keyring \<Rightarrow> u32 \<Rightarrow> cookie_key option" where
  "find_cookie_master_key ring key_id =
     find (\<lambda>k. mk_valid k \<noteq> 0 \<and> mk_key_id k = key_id) (slots ring)"

definition get_active_cookie_master_key :: "cookie_keyring \<Rightarrow> cookie_key option" where
  "get_active_cookie_master_key ring =
     (if mk_valid (slot_active ring) = 0 then None else Some (slot_active ring))"

text \<open>Maintenance, then the ring: the opening moves of all three operations.\<close>

definition maintained_ring ::
    "'n nvs_api \<Rightarrow> clock_ntp_timestamp option \<Rightarrow> 'n storage \<Rightarrow> ((esp_err + cookie_keyring) \<times> 'n storage) option" where
  "maintained_ring api now1 s =
    (case nts_storage_maintain_cookie_keyring api now1 s of
       None \<Rightarrow> None
     | Some (err, s1) \<Rightarrow>
         if err \<noteq> ESP_OK then Some (Inl err, s1)
         else Some (nts_storage_load_cookie_keyring api s1))"

definition nts_cookie_generate_keys ::
    "'n nvs_api \<Rightarrow> clock_ntp_timestamp option \<Rightarrow> clock_ntp_timestamp option \<Rightarrow> u64 \<Rightarrow> 'n storage
      \<Rightarrow> ((esp_err + cookie_keys) \<times> 'n storage) option" where
  "nts_cookie_generate_keys api now1 now2 lifetime_seconds s =
    (if lifetime_seconds = 0 then Some (Inl ESP_ERR_INVALID_ARG, s)
     else case maintained_ring api now1 s of
       None \<Rightarrow> None
     | Some (Inl err, s1) \<Rightarrow> Some (Inl err, s1)
     | Some (Inr ring, s1) \<Rightarrow>
         (case get_active_cookie_master_key ring of
            None \<Rightarrow> Some (Inl ESP_ERR_NOT_FOUND, s1)
          | Some active \<Rightarrow>
              (case current_ntp_seconds now2 of
                 None \<Rightarrow> Some (Inl ESP_ERR_INVALID_STATE, s1)
               | Some now_ntp_seconds \<Rightarrow>
                   let now_ntp = ucast now_ntp_seconds;
                       (c2s, s2) = esp_fill_random NTS_TRAFFIC_KEY_LEN s1;
                       (s2c, s3) = esp_fill_random NTS_TRAFFIC_KEY_LEN s2
                   in Some (Inr \<lparr> nk_c2s_key = c2s, nk_s2c_key = s2c,
                                  nk_master_key_id = mk_key_id active,
                                  nk_issued_ntp_seconds = now_ntp,
                                  nk_expires_ntp_seconds = now_ntp + lifetime_seconds \<rparr>, s3))))"

text \<open>The plaintext, written field by field; its length is the constant, so the offset check holds.\<close>

definition cookie_plaintext :: "u32 \<Rightarrow> cookie_keys \<Rightarrow> bytes" where
  "cookie_plaintext key_id keys =
     be32 NTS_COOKIE_MAGIC @ be16 NTS_COOKIE_VERSION @ be16 0 @ be32 key_id @
     be64 (nk_issued_ntp_seconds keys) @ be64 (nk_expires_ntp_seconds keys) @
     take NTS_TRAFFIC_KEY_LEN (nk_c2s_key keys) @ take NTS_TRAFFIC_KEY_LEN (nk_s2c_key keys)"

text \<open>The result: the error, the length cell and the cookie buffer.\<close>

definition nts_cookie_create ::
    "'n nvs_api \<Rightarrow> psa \<Rightarrow> clock_ntp_timestamp option \<Rightarrow> cookie_keys \<Rightarrow> bytes \<Rightarrow> nat \<Rightarrow> 'n storage
      \<Rightarrow> ((esp_err \<times> nat \<times> bytes) \<times> 'n storage) option" where
  "nts_cookie_create api P now1 keys cookie cookie_len s =
    (case maintained_ring api now1 s of
       None \<Rightarrow> None
     | Some (Inl err, s1) \<Rightarrow> Some ((err, cookie_len, cookie), s1)
     | Some (Inr ring, s1) \<Rightarrow>
         (case get_active_cookie_master_key ring of
            None \<Rightarrow> Some ((ESP_ERR_NOT_FOUND, cookie_len, cookie), s1)
          | Some master \<Rightarrow>
              let encrypted_len = NTS_AES_SIV_TAG_LEN + NTS_COOKIE_PLAINTEXT_LEN;
                  required_len = NTS_COOKIE_WIRE_PREFIX_LEN + encrypted_len in
              if cookie_len < required_len
              then Some ((ESP_ERR_INVALID_SIZE, required_len, cookie), s1)
              else
                let plaintext = cookie_plaintext (mk_key_id master) keys;
                    cookie1 = poke cookie 0 (be32 (mk_key_id master));
                    (nonce, s2) = esp_fill_random NTS_COOKIE_NONCE_LEN s1;
                    cookie2 = poke cookie1 4 nonce;
                    (err, output_len, sealed) =
                      nts_aes_siv_encrypt P (mk_key master) (take 4 cookie2) nonce plaintext
                        encrypted_len (drop NTS_COOKIE_WIRE_PREFIX_LEN cookie2);
                    cookie3 = take NTS_COOKIE_WIRE_PREFIX_LEN cookie2 @ sealed
                in if err \<noteq> ESP_OK
                   then Some ((err, cookie_len, nts_storage_zeroize cookie3 required_len), s2)
                   else Some ((ESP_OK, NTS_COOKIE_WIRE_PREFIX_LEN + output_len, cookie3), s2)))"

text \<open>Reading the plaintext back: \<open>None\<close> when its magic, version or reserved field is wrong.\<close>

definition read_cookie_plaintext :: "bytes \<Rightarrow> (u32 \<times> cookie_keys) option" where
  "read_cookie_plaintext pt =
    (let magic = de_be32 pt; version = de_be16 (drop 4 pt); reserved = de_be16 (drop 6 pt);
         payload_master_key_id = de_be32 (drop 8 pt)
     in if magic \<noteq> NTS_COOKIE_MAGIC \<or> version \<noteq> NTS_COOKIE_VERSION \<or> reserved \<noteq> 0 then None
        else Some (payload_master_key_id,
          \<lparr> nk_c2s_key = bslice pt 28 NTS_TRAFFIC_KEY_LEN, nk_s2c_key = bslice pt 60 NTS_TRAFFIC_KEY_LEN,
            nk_master_key_id = payload_master_key_id,
            nk_issued_ntp_seconds = de_be64 (drop 12 pt),
            nk_expires_ntp_seconds = de_be64 (drop 20 pt) \<rparr>))"

definition nts_cookie_unpack ::
    "'n nvs_api \<Rightarrow> psa \<Rightarrow> clock_ntp_timestamp option \<Rightarrow> clock_ntp_timestamp option \<Rightarrow> bytes \<Rightarrow> 'n storage
      \<Rightarrow> ((esp_err + cookie_keys) \<times> 'n storage) option" where
  "nts_cookie_unpack api P now1 now2 cookie s =
    (let expected_len = NTS_COOKIE_WIRE_PREFIX_LEN + NTS_AES_SIV_TAG_LEN + NTS_COOKIE_PLAINTEXT_LEN in
     if length cookie \<noteq> expected_len then Some (Inl ESP_ERR_INVALID_SIZE, s)
     else
       let master_key_id = de_be32 cookie; nonce = bslice cookie 4 NTS_COOKIE_NONCE_LEN;
           encrypted = drop NTS_COOKIE_WIRE_PREFIX_LEN cookie in
       case maintained_ring api now1 s of
         None \<Rightarrow> None
       | Some (Inl err, s1) \<Rightarrow> Some (Inl err, s1)
       | Some (Inr ring, s1) \<Rightarrow>
           (case find_cookie_master_key ring master_key_id of
              None \<Rightarrow> Some (Inl ESP_ERR_NOT_FOUND, s1)
            | Some master \<Rightarrow>
                let (err, plaintext_len, plaintext) =
                      nts_aes_siv_decrypt P (mk_key master) (take 4 cookie) nonce encrypted
                        NTS_COOKIE_PLAINTEXT_LEN (replicate NTS_COOKIE_PLAINTEXT_LEN 0) in
                if err \<noteq> ESP_OK then Some (Inl err, s1)
                else if plaintext_len \<noteq> NTS_COOKIE_PLAINTEXT_LEN then Some (Inl ESP_ERR_INVALID_SIZE, s1)
                else
                  (case read_cookie_plaintext plaintext of
                     None \<Rightarrow> Some (Inl ESP_ERR_INVALID_RESPONSE, s1)
                   | Some (payload_master_key_id, keys) \<Rightarrow>
                       if payload_master_key_id \<noteq> master_key_id
                       then Some (Inl ESP_ERR_INVALID_RESPONSE, s1)
                       else
                         (case current_ntp_seconds now2 of
                            None \<Rightarrow> Some (Inl ESP_ERR_INVALID_STATE, s1)
                          | Some now_ntp_seconds \<Rightarrow>
                              let now_ntp = ucast now_ntp_seconds in
                              if nk_expires_ntp_seconds keys \<le> now_ntp \<or>
                                 now_ntp < nk_issued_ntp_seconds keys
                              then Some (Inl ESP_ERR_INVALID_STATE, s1)
                              else Some (Inr keys, s1)))))"

subsection \<open>The plaintext codec\<close>

definition keys_wf :: "u32 \<times> cookie_keys \<Rightarrow> bool" where
  "keys_wf x \<longleftrightarrow> length (nk_c2s_key (snd x)) = 32 \<and> length (nk_s2c_key (snd x)) = 32 \<and>
     nk_master_key_id (snd x) = fst x"

lemma length_cookie_plaintext:
  "length (nk_c2s_key k) = 32 \<Longrightarrow> length (nk_s2c_key k) = 32 \<Longrightarrow> length (cookie_plaintext i k) = 92"
  by (simp add: cookie_plaintext_def cookie_lens)

lemma read_cookie_plaintext_encode:
  "keys_wf x \<Longrightarrow> read_cookie_plaintext (cookie_plaintext (fst x) (snd x)) = Some x"
  by (cases x) (simp add: keys_wf_def read_cookie_plaintext_def cookie_plaintext_def cookie_lens
      bslice_def Let_def)

lemma read_cookie_plaintext_decode:
  assumes "length pt = 92" "read_cookie_plaintext pt = Some (i, k)"
  shows "cookie_plaintext i k = pt" and "keys_wf (i, k)"
proof -
  have h: "de_be32 pt = NTS_COOKIE_MAGIC" "de_be16 (drop 4 pt) = NTS_COOKIE_VERSION"
    "de_be16 (drop 6 pt) = 0" "i = de_be32 (drop 8 pt)"
    and k: "k = \<lparr> nk_c2s_key = bslice pt 28 32, nk_s2c_key = bslice pt 60 32, nk_master_key_id = i,
      nk_issued_ntp_seconds = de_be64 (drop 12 pt), nk_expires_ntp_seconds = de_be64 (drop 20 pt) \<rparr>"
    using assms(2) by (auto simp: read_cookie_plaintext_def Let_def cookie_lens split: if_splits)
  have "be32 NTS_COOKIE_MAGIC = bslice pt 0 4" "be16 NTS_COOKIE_VERSION = bslice pt 4 2"
    "be16 0 = bslice pt 6 2" "be32 i = bslice pt 8 4"
    "be64 (de_be64 (drop 12 pt)) = bslice pt 12 8" "be64 (de_be64 (drop 20 pt)) = bslice pt 20 8"
    using be32_de_be32_drop [of 0 pt] be16_de_be16_drop [of 4 pt] be16_de_be16_drop [of 6 pt]
      be32_de_be32_drop [of 8 pt] be64_de_be64_drop [of 12 pt] be64_de_be64_drop [of 20 pt] assms(1) h
    by simp_all
  then have "cookie_plaintext i k = bslice pt 0 4 @ bslice pt 4 2 @ bslice pt 6 2 @ bslice pt 8 4 @
      bslice pt 12 8 @ bslice pt 20 8 @ bslice pt 28 32 @ bslice pt 60 32"
    using assms(1) by (simp add: cookie_plaintext_def k cookie_lens)
  also have "\<dots> = pt"
    using bslice_join [of pt 28 32 32] bslice_join [of pt 20 8 64] bslice_join [of pt 12 8 72]
      bslice_join [of pt 8 4 80] bslice_join [of pt 6 2 84] bslice_join [of pt 4 2 86]
      bslice_join [of pt 0 4 88] bslice_whole [of pt] assms(1)
    by simp
  finally show "cookie_plaintext i k = pt" .
  show "keys_wf (i, k)" using assms(1) by (simp add: keys_wf_def k)
qed

interpretation cookie_box: sealed_codec psa_healthy siv_seal siv_open "\<lambda>key. length key = 32"
    "\<lambda>x. cookie_plaintext (fst x) (snd x)" read_cookie_plaintext keys_wf
  by unfold_locales (rule read_cookie_plaintext_encode)

subsection \<open>The ring an operation works with\<close>

lemma maintained_ring_stored:
  assumes "nvs_lawful api" "maintained_ring api now1 s = Some (Inr ring, s1)"
  shows "ring_stored api s1 ring"
proof -
  obtain s0 where l: "nts_storage_load_cookie_keyring api s0 = (Inr ring, s1)"
    using assms(2) by (auto simp: maintained_ring_def split: option.splits if_splits)
  then show ?thesis
    using keystore.load_Inr_holds [OF assms(1) l] keystore.load_holds [OF assms(1) l] by blast
qed

lemma maintained_ring_healthy:
  assumes "nvs_healthy api" "ring_stored api s r" "ring_ok r"
    and "uint (mk_not_before_ntp (slot_active r)) \<le> uint (ct_seconds t)"
  shows "\<exists>r' s'. maintained_ring api (Some t) s = Some (Inr r', s') \<and> ring_stored api s' r' \<and> ring_ok r' \<and>
    uint (mk_not_before_ntp (slot_active r')) \<le> uint (ct_seconds t) \<and>
    uint (ct_seconds t) < uint (mk_not_after_ntp (slot_active r')) \<and>
    (uint (ct_seconds t) < uint (mk_not_after_ntp (slot_next r)) \<longrightarrow>
       slot_active r \<in> {slot_active r', slot_previous r'})"
proof -
  have law: "nvs_lawful api" using assms(1) by (simp add: nvs_healthy_def)
  obtain u where u: "nts_storage_maintain_cookie_keyring api (Some t) s = Some (ESP_OK, u)"
    using healthy_maintain [OF assms(1-3)] by blast
  obtain r' where r': "ring_stored api u r'" "ring_ok r'"
    "uint (mk_not_before_ntp (slot_active r')) \<le> uint (ct_seconds t)"
    "uint (ct_seconds t) < uint (mk_not_after_ntp (slot_active r'))"
    "uint (ct_seconds t) < uint (mk_not_after_ntp (slot_next r)) \<longrightarrow>
       slot_active r \<in> {slot_active r', slot_previous r'}"
    using maintain_ring [OF law assms(2-4) u] by blast
  obtain s' where l: "nts_storage_load_cookie_keyring api u = (Inr r', s')"
    using healthy_load [OF assms(1) r'(1)] by blast
  have "ring_stored api s' r'" using keystore.load_holds [OF law l] r'(1) by blast
  then show ?thesis using r' u l by (intro exI [of _ r'] exI [of _ s']) (simp add: maintained_ring_def)
qed

text \<open>In an orderly ring an id names one key.\<close>

lemma ids_distinct_inj:
  "ids_distinct ks \<Longrightarrow> k \<in> set ks \<Longrightarrow> j \<in> set ks \<Longrightarrow> mk_valid k \<noteq> 0 \<Longrightarrow> mk_valid j \<noteq> 0 \<Longrightarrow>
   mk_key_id k = mk_key_id j \<Longrightarrow> k = j"
  by (induction ks) (auto simp: list_all_iff split: if_splits)

lemma find_in_ring:
  assumes "ring_ok r" "k \<in> set (slots r)" "mk_valid k \<noteq> 0"
  shows "find_cookie_master_key r (mk_key_id k) = Some k"
proof -
  have d: "ids_distinct (slots r)"
    using assms(1) validateD(5) by (simp add: ring_ok_def key_ids_distinct_def)
  have "find_cookie_master_key r (mk_key_id k) \<noteq> None"
    using assms(2,3) by (auto simp: find_cookie_master_key_def find_None_iff)
  then obtain j where j: "find_cookie_master_key r (mk_key_id k) = Some j" by blast
  then have "j \<in> set (slots r)" "mk_valid j \<noteq> 0" "mk_key_id j = mk_key_id k"
    unfolding find_cookie_master_key_def by (auto simp: find_Some_iff)
  then have "k = j" using ids_distinct_inj [OF d assms(2) _ assms(3), of j] by simp
  then show ?thesis using j by simp
qed

lemma ring_key_length: "ring_ok r \<Longrightarrow> k \<in> set (slots r) \<Longrightarrow> length (mk_key k) = 32"
  by (auto simp: ring_ok_def list_all_iff NTS_STORAGE_COOKIE_KEY_LEN_def)

lemma active_in_ring: "ring_ok r \<Longrightarrow> slot_active r \<in> set (slots r) \<and> mk_valid (slot_active r) = 1"
  using validateD(1) by (auto simp: ring_ok_def slots_def populated_slot_valid_def)

lemma find_key_in_ring:
  "find_cookie_master_key r i = Some k \<Longrightarrow> k \<in> set (slots r) \<and> mk_valid k \<noteq> 0 \<and> mk_key_id k = i"
  unfolding find_cookie_master_key_def by (auto simp: find_Some_iff)

subsection \<open>Creating and opening a cookie\<close>

lemma create_healthy:
  assumes "psa_healthy P" "maintained_ring api now1 s = Some (Inr r, s1)" "ring_ok r"
    and "length (nk_c2s_key keys) = 32" "length (nk_s2c_key keys) = 32"
    and "128 \<le> cookie_len" "cookie_len \<le> length buf"
  shows "\<exists>nonce c s2. length nonce = 16 \<and> length c = 108 \<and> st_nvs s2 = st_nvs s1 \<and>
    siv_seal P (mk_key (slot_active r)) (be32 (mk_key_id (slot_active r))) nonce
      (cookie_plaintext (mk_key_id (slot_active r)) keys) = Some c \<and>
    nts_cookie_create api P now1 keys buf cookie_len s =
      Some ((ESP_OK, 128, poke buf 0 (be32 (mk_key_id (slot_active r)) @ nonce @ c)), s2)"
proof -
  let ?k = "slot_active r"
  let ?id = "be32 (mk_key_id ?k)"
  let ?pt = "cookie_plaintext (mk_key_id ?k) keys"
  obtain nonce s2 where nonce: "esp_fill_random 16 s1 = (nonce, s2)" "length nonce = 16" "st_nvs s2 = st_nvs s1"
    by (simp add: esp_fill_random_def)
  have active: "get_active_cookie_master_key r = Some ?k"
    using active_in_ring [OF assms(3)] by (simp add: get_active_cookie_master_key_def)
  have pt: "length ?pt = 92" by (rule length_cookie_plaintext [OF assms(4,5)])
  obtain c where c: "siv_seal P (mk_key ?k) ?id nonce ?pt = Some c"
    using siv.seal_total [OF assms(1)] ring_key_length [OF assms(3)] active_in_ring [OF assms(3)] by blast
  have lc: "length c = 108" using siv_seal_length [OF assms(1) c] pt by simp
  define buf2 where "buf2 = poke (poke buf 0 ?id) 4 nonce"
  have b2: "take 4 buf2 = ?id" "take 20 buf2 = ?id @ nonce" "length buf2 = length buf"
    "drop 20 buf2 = drop 20 buf"
    using nonce(2) assms(6,7) by (simp_all add: buf2_def poke_def)
  have enc: "nts_aes_siv_encrypt P (mk_key ?k) (take 4 buf2) nonce ?pt 108 (drop 20 buf2)
      = (ESP_OK, 108, poke (drop 20 buf2) 0 c)"
    using encrypt_seal [OF assms(1), of ?pt 108 "drop 20 buf2" "mk_key ?k" ?id nonce] c pt b2 assms(6,7)
    by simp
  have whole: "take 20 buf2 @ poke (drop 20 buf2) 0 c = poke buf 0 (?id @ nonce @ c)"
    using b2 lc nonce(2) assms(6,7) by (simp add: poke_def)
  have "nts_cookie_create api P now1 keys buf cookie_len s =
      Some ((ESP_OK, 128, take 20 buf2 @ poke (drop 20 buf2) 0 c), s2)"
    using assms(6) enc unfolding buf2_def
    by (simp add: nts_cookie_create_def cookie_lens Let_def assms(2) active nonce(1))
  then show ?thesis using whole nonce lc c by auto
qed

lemma unpack_healthy:
  assumes "psa_healthy P" "maintained_ring api now1 s = Some (Inr r, s1)" "ring_ok r"
    and "length cookie = 128" "k \<in> set (slots r)" "mk_valid k \<noteq> 0" "mk_key_id k = de_be32 cookie"
  shows "nts_cookie_unpack api P now1 now2 cookie s =
    (case siv_open P (mk_key k) (take 4 cookie) (bslice cookie 4 16) (drop 20 cookie) of
       None \<Rightarrow> Some (Inl ESP_ERR_INVALID_CRC, s1)
     | Some pt \<Rightarrow>
         (case read_cookie_plaintext pt of
            None \<Rightarrow> Some (Inl ESP_ERR_INVALID_RESPONSE, s1)
          | Some (i, keys) \<Rightarrow>
              if i \<noteq> mk_key_id k then Some (Inl ESP_ERR_INVALID_RESPONSE, s1)
              else (case now2 of
                  None \<Rightarrow> Some (Inl ESP_ERR_INVALID_STATE, s1)
                | Some t \<Rightarrow>
                    if nk_expires_ntp_seconds keys \<le> ucast (ct_seconds t) \<or>
                       ucast (ct_seconds t) < nk_issued_ntp_seconds keys
                    then Some (Inl ESP_ERR_INVALID_STATE, s1) else Some (Inr keys, s1))))"
proof -
  have f: "find_cookie_master_key r (de_be32 cookie) = Some k"
    using find_in_ring [OF assms(3,5,6)] assms(7) by simp
  have l: "16 \<le> length (drop 20 cookie)" "length (drop 20 cookie) - 16 \<le> 92" "(92 :: nat) \<le> length (replicate 92 (0 :: u8))"
    using assms(4) by simp_all
  note d = decrypt_open [OF assms(1) l, of "mk_key k" "take 4 cookie" "bslice cookie 4 16"]
  let ?D = "nts_aes_siv_decrypt P (mk_key k) (take 4 cookie) (bslice cookie 4 16) (drop 20 cookie) 92 (replicate 92 0)"
  show ?thesis
  proof (cases "siv_open P (mk_key k) (take 4 cookie) (bslice cookie 4 16) (drop 20 cookie)")
    case None
    then have "fst ?D = ESP_ERR_INVALID_CRC" using d by simp
    then obtain x y where "?D = (ESP_ERR_INVALID_CRC, x, y)" by (cases ?D) simp
    then show ?thesis using None assms(2,4) f
      by (simp add: nts_cookie_unpack_def cookie_lens)
  next
    case (Some pt)
    then have "length pt = 92" "?D = (ESP_OK, 92, poke (replicate 92 0) 0 pt)" using d assms(4) by simp_all
    then have "?D = (ESP_OK, 92, pt)" by (simp add: poke_def)
    then have u: "nts_cookie_unpack api P now1 now2 cookie s =
      (case read_cookie_plaintext pt of
         None \<Rightarrow> Some (Inl ESP_ERR_INVALID_RESPONSE, s1)
       | Some (payload_master_key_id, keys) \<Rightarrow>
           if payload_master_key_id \<noteq> de_be32 cookie then Some (Inl ESP_ERR_INVALID_RESPONSE, s1)
           else (case current_ntp_seconds now2 of
               None \<Rightarrow> Some (Inl ESP_ERR_INVALID_STATE, s1)
             | Some now_ntp_seconds \<Rightarrow>
                 let now_ntp = ucast now_ntp_seconds in
                 if nk_expires_ntp_seconds keys \<le> now_ntp \<or> now_ntp < nk_issued_ntp_seconds keys
                 then Some (Inl ESP_ERR_INVALID_STATE, s1) else Some (Inr keys, s1)))"
      using assms(2,4) f by (simp add: nts_cookie_unpack_def cookie_lens)
    show ?thesis unfolding u Some assms(7) [symmetric]
      by (cases "read_cookie_plaintext pt"; cases now2)
        (auto simp: current_ntp_seconds_def Let_def)
  qed
qed

text \<open>What a successful opening tells.\<close>

lemma unpack_ring:
  assumes "nts_cookie_unpack api P now1 now2 cookie s = Some (Inr keys, s1)"
  shows "length cookie = 128 \<and> (\<exists>r. maintained_ring api now1 s = Some (Inr r, s1))"
proof -
  have len: "length cookie = 128"
    using assms by (auto simp: nts_cookie_unpack_def cookie_lens Let_def split: if_splits)
  obtain r s2 where m: "maintained_ring api now1 s = Some (Inr r, s2)"
    using assms len by (auto simp: nts_cookie_unpack_def cookie_lens Let_def
        split: option.splits sum.splits prod.splits)
  obtain k where "find_cookie_master_key r (de_be32 cookie) = Some k"
    using assms len m by (auto simp: nts_cookie_unpack_def cookie_lens Let_def split: option.splits)
  then have "s2 = s1" using assms len m
    by (auto simp: nts_cookie_unpack_def cookie_lens Let_def split: option.splits if_splits prod.splits)
  then show ?thesis using len m by blast
qed

lemma unpack_genuine:
  assumes "psa_healthy P" and m: "maintained_ring api now1 s = Some (Inr r, s1)" and ok: "ring_ok r"
    and "nts_cookie_unpack api P now1 (Some t) cookie s = Some (Inr keys, s1)"
  shows "\<exists>k. k \<in> set (slots r) \<and> mk_valid k \<noteq> 0 \<and> take 4 cookie = be32 (mk_key_id k) \<and>
    keys_wf (mk_key_id k, keys) \<and>
    siv_seal P (mk_key k) (take 4 cookie) (bslice cookie 4 16) (cookie_plaintext (mk_key_id k) keys)
      = Some (drop 20 cookie) \<and>
    uint (nk_issued_ntp_seconds keys) \<le> uint (ct_seconds t) \<and>
    uint (ct_seconds t) < uint (nk_expires_ntp_seconds keys)"
proof -
  have len: "length cookie = 128" using unpack_ring [OF assms(4)] by blast
  obtain k where f: "find_cookie_master_key r (de_be32 cookie) = Some k"
    using assms(4) len m by (auto simp: nts_cookie_unpack_def cookie_lens Let_def split: option.splits)
  have k: "k \<in> set (slots r)" "mk_valid k \<noteq> 0" "mk_key_id k = de_be32 cookie"
    using find_key_in_ring [OF f] by simp_all
  note u = unpack_healthy [OF assms(1) m ok len k, of "Some t"]
  obtain pt where pt: "siv_open P (mk_key k) (take 4 cookie) (bslice cookie 4 16) (drop 20 cookie) = Some pt"
    using u assms(4) by (cases "siv_open P (mk_key k) (take 4 cookie) (bslice cookie 4 16) (drop 20 cookie)") simp_all
  obtain i ks where rd: "read_cookie_plaintext pt = Some (i, ks)"
    using u assms(4) pt by (cases "read_cookie_plaintext pt") auto
  have i: "i = mk_key_id k" "ks = keys" and time: "\<not> nk_expires_ntp_seconds keys \<le> ucast (ct_seconds t)"
    "\<not> ucast (ct_seconds t) < nk_issued_ntp_seconds keys"
    using u assms(4) pt rd by (auto split: if_splits)
  have seal: "siv_seal P (mk_key k) (take 4 cookie) (bslice cookie 4 16) pt = Some (drop 20 cookie)"
    using siv.seal_open [OF assms(1) ring_key_length [OF ok k(1)] pt] .
  have "length pt = 92" using siv_seal_length [OF assms(1) seal] len by simp
  note dec = read_cookie_plaintext_decode [OF this rd]
  have id: "take 4 cookie = be32 (mk_key_id k)"
    using be32_de_be32_drop [of 0 cookie] len k(3) by (simp add: bslice_def)
  show ?thesis
    using k id seal dec i time
    by (intro exI [of _ k]) (auto simp: word_le_def word_less_def uint_ucast_widen)
qed

lemma cookie_ops_return:
  "nts_cookie_create api P now1 keys buf n s \<noteq> None"
  "nts_cookie_unpack api P now1 now2 cookie s \<noteq> None"
  "nts_cookie_generate_keys api now1 now2 lifetime s \<noteq> None"
proof -
  have "maintained_ring api now1 s \<noteq> None"
    using maintain_total [of api now1 s] by (auto simp: maintained_ring_def split: option.splits)
  then obtain x s1 where "maintained_ring api now1 s = Some (x, s1)" by (cases "maintained_ring api now1 s") auto
  then show "nts_cookie_create api P now1 keys buf n s \<noteq> None"
    "nts_cookie_unpack api P now1 now2 cookie s \<noteq> None"
    "nts_cookie_generate_keys api now1 now2 lifetime s \<noteq> None"
    by (auto simp: nts_cookie_create_def nts_cookie_unpack_def nts_cookie_generate_keys_def Let_def
        split: sum.splits option.splits prod.splits)
qed

lemma maintained_ring_error: "maintained_ring api now1 s = Some (Inl e, s1) \<Longrightarrow> e \<noteq> ESP_OK"
  by (auto simp: maintained_ring_def nts_storage_load_cookie_keyring_def Let_def
      split: option.splits if_splits prod.splits)

lemma create_length:
  assumes "nts_cookie_create api P now1 keys buf n s = Some ((ESP_OK, len, ck), s1)" "n \<le> length buf"
  shows "len \<le> length ck"
proof -
  obtain r s2 where m: "maintained_ring api now1 s = Some (Inr r, s2)"
    using assms(1) maintained_ring_error [of api now1 s]
    by (auto simp: nts_cookie_create_def split: option.splits sum.splits)
  obtain k where k: "get_active_cookie_master_key r = Some k"
    using assms(1) m by (auto simp: nts_cookie_create_def split: option.splits)
  obtain nonce s3 where nonce: "esp_fill_random 16 s2 = (nonce, s3)" "length nonce = 16"
    by (simp add: esp_fill_random_def)
  have n: "128 \<le> n" using assms(1) m k
    by (auto simp: nts_cookie_create_def cookie_lens Let_def split: if_splits prod.splits)
  let ?c2 = "poke (poke buf 0 (be32 (mk_key_id k))) 4 nonce"
  obtain err m sealed where e: "nts_aes_siv_encrypt P (mk_key k) (take 4 ?c2) nonce (cookie_plaintext (mk_key_id k) keys)
      108 (drop 20 ?c2) = (err, m, sealed)" by (metis prod_cases3)
  have l: "length ?c2 = length buf" using n nonce(2) assms(2) by simp
  have ok: "err = ESP_OK" "len = 20 + m" "ck = take 20 ?c2 @ sealed"
    using assms(1) n e by (auto simp: nts_cookie_create_def cookie_lens Let_def m k nonce(1) split: if_splits)
  have "108 \<le> length (drop 20 ?c2)" using l n assms(2) by simp
  from encrypt_success [OF e [unfolded ok(1)] this] have "m \<le> length sealed"
    using s2v_length by (auto simp: poke_def)
  then show ?thesis using ok l n assms(2) by simp
qed

lemma unpack_error: "nts_cookie_unpack api P now1 now2 cookie s = Some (Inl e, s1) \<Longrightarrow> e \<noteq> ESP_OK"
  by (auto simp: nts_cookie_unpack_def Let_def dest: maintained_ring_error
      split: option.splits if_splits prod.splits sum.splits)

text \<open>Before the active key expires, maintenance leaves the ring alone.\<close>

lemma maintained_ring_same:
  assumes "nvs_healthy api" "ring_stored api s r" "ring_ok r"
    and "uint (ct_seconds t) < uint (mk_not_after_ntp (slot_active r))"
  shows "\<exists>s'. maintained_ring api (Some t) s = Some (Inr r, s') \<and> ring_stored api s' r"
proof -
  have law: "nvs_lawful api" using assms(1) by (simp add: nvs_healthy_def)
  obtain s1 where l: "nts_storage_load_cookie_keyring api s = (Inr r, s1)" using healthy_load [OF assms(1,2)] by blast
  have s1: "ring_stored api s1 r" using keystore.load_holds [OF law l] assms(2) by blast
  have v: "validate_cookie_keyring r = ESP_OK" using assms(3) by (simp add: ring_ok_def)
  have "\<not> rotation_due (ucast (ct_seconds t)) (r, s1, False)"
    using assms(4) by (simp add: rotation_due_def word_le_def uint_ucast_widen)
  then have "rotate_keyring (ucast (ct_seconds t)) r s1 = Some (r, s1, False)"
    unfolding rotate_keyring_def by (subst while_option_unfold) simp
  then have mt: "nts_storage_maintain_cookie_keyring api (Some t) s = Some (ESP_OK, s1)"
    by (simp add: nts_storage_maintain_cookie_keyring_def l v)
  obtain s2 where l2: "nts_storage_load_cookie_keyring api s1 = (Inr r, s2)" using healthy_load [OF assms(1) s1] by blast
  have "ring_stored api s2 r" using keystore.load_holds [OF law l2] s1 by blast
  then show ?thesis using mt l2 by (simp add: maintained_ring_def)
qed

text \<open>A cookie for \<open>keys\<close>, sealed under the active key of a ring.\<close>

definition fresh_cookie_in :: "cookie_keyring \<Rightarrow> psa \<Rightarrow> cookie_keys \<Rightarrow> bytes \<Rightarrow> bool" where
  "fresh_cookie_in r P keys ck \<longleftrightarrow> (\<exists>nonce c. length nonce = 16 \<and>
     siv_seal P (mk_key (slot_active r)) (be32 (mk_key_id (slot_active r))) nonce
       (cookie_plaintext (mk_key_id (slot_active r)) keys) = Some c \<and>
     ck = be32 (mk_key_id (slot_active r)) @ nonce @ c)"

definition fresh_cookie :: "psa \<Rightarrow> cookie_keys \<Rightarrow> bytes \<Rightarrow> bool" where
  "fresh_cookie P keys ck \<longleftrightarrow> (\<exists>r. ring_ok r \<and> fresh_cookie_in r P keys ck)"

lemma create_fresh:
  assumes "nvs_healthy api" "psa_healthy P" "ring_stored api s r" "ring_ok r"
    and "uint (mk_not_before_ntp (slot_active r)) \<le> uint (ct_seconds t)"
    and "length (nk_c2s_key keys) = 32" "length (nk_s2c_key keys) = 32"
  shows "\<exists>ck rest s1 r1. nts_cookie_create api P (Some t) keys (replicate 256 0) 256 s =
      Some ((ESP_OK, 128, ck @ rest), s1) \<and> length ck = 128 \<and> fresh_cookie P keys ck \<and>
      ring_stored api s1 r1 \<and> ring_ok r1 \<and> uint (mk_not_before_ntp (slot_active r1)) \<le> uint (ct_seconds t) \<and>
      fresh_cookie_in r1 P keys ck \<and>
      (uint (ct_seconds t) < uint (mk_not_after_ntp (slot_active r)) \<longrightarrow> r1 = r)"
proof -
  obtain r1 s0 where m: "maintained_ring api (Some t) s = Some (Inr r1, s0)" "ring_stored api s0 r1" "ring_ok r1"
    "uint (mk_not_before_ntp (slot_active r1)) \<le> uint (ct_seconds t)"
    using maintained_ring_healthy [OF assms(1,3-5)] by blast
  let ?id = "be32 (mk_key_id (slot_active r1))"
  obtain nonce c s1 where c: "length nonce = 16" "length c = 108" "st_nvs s1 = st_nvs s0"
    "siv_seal P (mk_key (slot_active r1)) ?id nonce (cookie_plaintext (mk_key_id (slot_active r1)) keys) = Some c"
    "nts_cookie_create api P (Some t) keys (replicate 256 0) 256 s =
      Some ((ESP_OK, 128, poke (replicate 256 0) 0 (?id @ nonce @ c)), s1)"
    using create_healthy [OF assms(2) m(1,3) assms(6,7), of 256 "replicate 256 0"] by auto
  have "ring_stored api s1 r1" using m(2) c(3) by (simp add: ring_stored_def)
  moreover have f: "fresh_cookie_in r1 P keys (?id @ nonce @ c)" using c by (auto simp: fresh_cookie_in_def)
  moreover have "fresh_cookie P keys (?id @ nonce @ c)" using f m(3) by (auto simp: fresh_cookie_def)
  moreover have "poke (replicate 256 0) 0 (?id @ nonce @ c) = (?id @ nonce @ c) @ replicate 128 0"
    using c(1,2) by (simp add: poke_def)
  moreover have "uint (ct_seconds t) < uint (mk_not_after_ntp (slot_active r)) \<longrightarrow> r1 = r"
    using maintained_ring_same [OF assms(1,3,4)] m(1) by fastforce
  ultimately show ?thesis
    using c m by (intro exI [of _ "?id @ nonce @ c"] exI [of _ "replicate 128 0"] exI [of _ s1] exI [of _ r1]) simp
qed

text \<open>Such a cookie opens as long as its master key stays active and its keys are valid.\<close>

lemma fresh_cookie_opens:
  assumes "nvs_healthy api" "psa_healthy P" "ring_stored api s r" "ring_ok r"
    and "uint (ct_seconds t) < uint (mk_not_after_ntp (slot_active r))"
    and "fresh_cookie_in r P keys ck" "length (nk_c2s_key keys) = 32" "length (nk_s2c_key keys) = 32"
    and "uint (nk_issued_ntp_seconds keys) \<le> uint (ct_seconds t')" "uint (ct_seconds t') < uint (nk_expires_ntp_seconds keys)"
  shows "\<exists>s'. nts_cookie_unpack api P (Some t) (Some t') ck s =
      Some (Inr (keys\<lparr>nk_master_key_id := mk_key_id (slot_active r)\<rparr>), s') \<and> ring_stored api s' r"
proof -
  obtain s' where m: "maintained_ring api (Some t) s = Some (Inr r, s')" "ring_stored api s' r"
    using maintained_ring_same [OF assms(1,3-5)] by blast
  let ?k = "slot_active r" and ?keys = "keys\<lparr>nk_master_key_id := mk_key_id (slot_active r)\<rparr>"
  obtain nonce c where c: "length nonce = 16" "ck = be32 (mk_key_id ?k) @ nonce @ c"
    "siv_seal P (mk_key ?k) (be32 (mk_key_id ?k)) nonce (cookie_plaintext (mk_key_id ?k) keys) = Some c"
    using assms(6) by (auto simp: fresh_cookie_in_def)
  have k: "?k \<in> set (slots r)" "mk_valid ?k \<noteq> 0" using active_in_ring [OF assms(4)] by simp_all
  have pt: "cookie_plaintext (mk_key_id ?k) keys = cookie_plaintext (mk_key_id ?k) ?keys" by (simp add: cookie_plaintext_def)
  have lc: "length c = 108"
    using siv_seal_length [OF assms(2) c(3)] length_cookie_plaintext [OF assms(7,8), of "mk_key_id ?k"] by simp
  have ck: "length ck = 128" "take 4 ck = be32 (mk_key_id ?k)" "bslice ck 4 16 = nonce" "drop 20 ck = c" "mk_key_id ?k = de_be32 ck"
    using c(1,2) lc by (simp_all add: bslice_def)
  have o: "siv_open P (mk_key ?k) (be32 (mk_key_id ?k)) nonce c = Some (cookie_plaintext (mk_key_id ?k) ?keys)"
    using siv.open_seal [OF assms(2) ring_key_length [OF assms(4) k(1)] c(3)] pt by simp
  have rd: "read_cookie_plaintext (cookie_plaintext (mk_key_id ?k) ?keys) = Some (mk_key_id ?k, ?keys)"
    using cookie_box.decode_encode [of "(mk_key_id ?k, ?keys)"] assms(7,8) by (simp add: keys_wf_def)
  have "\<not> (nk_expires_ntp_seconds keys \<le> ucast (ct_seconds t') \<or> ucast (ct_seconds t') < nk_issued_ntp_seconds keys)"
    using assms(9,10) by (simp add: word_le_def word_less_def uint_ucast_widen)
  then have "nts_cookie_unpack api P (Some t) (Some t') ck s = Some (Inr ?keys, s')"
    using unpack_healthy [OF assms(2) m(1) assms(4) ck(1) k ck(5), of "Some t'"] unfolding ck(2-4) o option.case rd prod.case
    by (simp del: not_le not_less)
  then show ?thesis using m(2) by blast
qed

lemma generate_healthy:
  assumes "maintained_ring api now1 s = Some (Inr r, s1)" "ring_ok r" "lifetime \<noteq> 0"
  shows "\<exists>keys s2. nts_cookie_generate_keys api now1 (Some t) lifetime s = Some (Inr keys, s2) \<and>
    st_nvs s2 = st_nvs s1 \<and> nk_issued_ntp_seconds keys = ucast (ct_seconds t) \<and>
    nk_expires_ntp_seconds keys = ucast (ct_seconds t) + lifetime \<and>
    nk_master_key_id keys = mk_key_id (slot_active r) \<and>
    length (nk_c2s_key keys) = 32 \<and> length (nk_s2c_key keys) = 32"
proof -
  have active: "get_active_cookie_master_key r = Some (slot_active r)"
    using active_in_ring [OF assms(2)] by (simp add: get_active_cookie_master_key_def)
  show ?thesis
    by (simp add: nts_cookie_generate_keys_def assms active current_ntp_seconds_def esp_fill_random_def
        NTS_TRAFFIC_KEY_LEN_def Let_def)
qed

subsection \<open>Properties\<close>

definition cookie_toy :: "bytes \<Rightarrow> ((esp_err \<times> nat \<times> bytes) \<times> cookie_keyring option storage) option" where
  "cookie_toy buf = nts_cookie_create toy_nvs psa_toy (Some \<lparr>ct_seconds = 2000, ct_fraction = 0\<rparr>)
     (zero_keys\<lparr>nk_issued_ntp_seconds := 2000, nk_expires_ntp_seconds := 5000000\<rparr>) buf 256
     (toy_storage (Some toy_ring))"

lemma toy_nvs_healthy: "nvs_healthy toy_nvs"
  using toy_nvs_lawful by (simp add: nvs_healthy_def) (simp add: toy_nvs_def)

text \<open>
  A cookie opens for at least thirty days, also across a rotation of the master keys. On
  healthy storage and crypto with an orderly ring, creating a cookie succeeds and yields 128
  octets; opening these at any time up to a period later, within the issue and expiry times it
  carries, returns the very keys, labelled with the id of the master key that sealed it.
\<close>
theorem cookie_roundtrip:
  assumes "nvs_healthy api" and "psa_healthy P" and "ring_stored api s r" and "ring_ok r"
    and "uint (mk_not_before_ntp (slot_active r)) \<le> uint (ct_seconds t1)"
    and "length (nk_c2s_key keys) = 32" and "length (nk_s2c_key keys) = 32"
    and "128 \<le> cookie_len" and "cookie_len \<le> length buf"
    and "uint (ct_seconds t1) \<le> uint (ct_seconds t2)" and "uint (ct_seconds t2) \<le> uint (ct_seconds t1) + 2592000"
    and "uint (nk_issued_ntp_seconds keys) \<le> uint (ct_seconds t3)"
    and "uint (ct_seconds t3) < uint (nk_expires_ntp_seconds keys)"
  shows "\<exists>cookie s1 s2 i. nts_cookie_create api P (Some t1) keys buf cookie_len s
       = Some ((ESP_OK, 128, cookie), s1) \<and>
     nts_cookie_unpack api P (Some t2) (Some t3) (take 128 cookie) s1
       = Some (Inr (keys\<lparr>nk_master_key_id := i\<rparr>), s2) \<and> i \<noteq> 0"
proof -
  obtain r1 s0 where m1: "maintained_ring api (Some t1) s = Some (Inr r1, s0)" and r1: "ring_stored api s0 r1"
    "ring_ok r1" "uint (mk_not_before_ntp (slot_active r1)) \<le> uint (ct_seconds t1)"
    "uint (ct_seconds t1) < uint (mk_not_after_ntp (slot_active r1))"
    using maintained_ring_healthy [OF assms(1,3-5)] by blast
  let ?k = "slot_active r1" and ?keys = "keys\<lparr>nk_master_key_id := mk_key_id (slot_active r1)\<rparr>"
  obtain nonce c s1 where c: "length nonce = 16" "length c = 108" "st_nvs s1 = st_nvs s0"
    "siv_seal P (mk_key ?k) (be32 (mk_key_id ?k)) nonce (cookie_plaintext (mk_key_id ?k) keys) = Some c"
    and create: "nts_cookie_create api P (Some t1) keys buf cookie_len s =
      Some ((ESP_OK, 128, poke buf 0 (be32 (mk_key_id ?k) @ nonce @ c)), s1)"
    using create_healthy [OF assms(2) m1 r1(2) assms(6-9)] by blast
  define cookie where "cookie = be32 (mk_key_id ?k) @ nonce @ c"
  have ck: "length cookie = 128" "take 4 cookie = be32 (mk_key_id ?k)" "bslice cookie 4 16 = nonce"
    "drop 20 cookie = c" "de_be32 cookie = mk_key_id ?k" "take 128 (poke buf 0 cookie) = cookie"
    using c(1,2) by (simp_all add: cookie_def bslice_def poke_def)
  have st: "ring_stored api s1 r1" using r1(1) c(3) by (simp add: ring_stored_def)
  have nb: "uint (mk_not_before_ntp (slot_active r1)) \<le> uint (ct_seconds t2)" using r1(3) assms(10) by linarith
  obtain r2 s2 where m2: "maintained_ring api (Some t2) s1 = Some (Inr r2, s2)" and r2: "ring_ok r2"
    "uint (ct_seconds t2) < uint (mk_not_after_ntp (slot_next r1)) \<longrightarrow> ?k \<in> {slot_active r2, slot_previous r2}"
    using maintained_ring_healthy [OF assms(1) st r1(2) nb] by blast
  have "uint (mk_not_after_ntp (slot_next r1)) = uint (mk_not_after_ntp ?k) + period"
    using r1(2) by (simp add: ring_ok_def)
  then have "?k \<in> set (slots r2)" using r2(2) r1(4) assms(11) by (auto simp: slots_def)
  moreover have a1: "mk_valid ?k = 1" "mk_key_id ?k \<noteq> 0" "length (mk_key ?k) = 32"
    using active_in_ring [OF r1(2)] validateD(1) [of r1] r1(2) ring_key_length [OF r1(2)]
    by (auto simp: ring_ok_def populated_slot_valid_def)
  ultimately have u: "nts_cookie_unpack api P (Some t2) (Some t3) cookie s1 = Some (Inr ?keys, s2)"
  proof -
    have eq: "cookie_plaintext (mk_key_id ?k) ?keys = cookie_plaintext (mk_key_id ?k) keys"
      by (simp add: cookie_plaintext_def)
    have wf: "keys_wf (mk_key_id ?k, ?keys)" using assms(6,7) by (simp add: keys_wf_def)
    have o: "siv_open P (mk_key ?k) (be32 (mk_key_id ?k)) nonce c = Some (cookie_plaintext (mk_key_id ?k) ?keys)"
      using siv.open_seal [OF assms(2) a1(3) c(4)] eq by simp
    have rd: "read_cookie_plaintext (cookie_plaintext (mk_key_id ?k) ?keys) = Some (mk_key_id ?k, ?keys)"
      using cookie_box.decode_encode [OF wf] by simp
    have "\<not> nk_expires_ntp_seconds keys \<le> ucast (ct_seconds t3)" "\<not> ucast (ct_seconds t3) < nk_issued_ntp_seconds keys"
      using assms(12,13) by (simp_all add: word_le_def word_less_def uint_ucast_widen)
    then show ?thesis
      using unpack_healthy [OF assms(2) m2 r2(1) ck(1) \<open>?k \<in> set (slots r2)\<close>, of "Some t3"] a1 ck o rd
      by simp
  qed
  show ?thesis
    using create u a1 ck(6) unfolding cookie_def [symmetric] by (intro exI conjI) (assumption | simp)+
qed

theorem cookie_roundtrip_witness:
  "\<exists>cookie s1 s2 i. cookie_toy (replicate 256 0) = Some ((ESP_OK, 128, cookie), s1) \<and>
     nts_cookie_unpack toy_nvs psa_toy (Some \<lparr>ct_seconds = 2593001, ct_fraction = 0\<rparr>)
       (Some \<lparr>ct_seconds = 2593001, ct_fraction = 0\<rparr>) (take 128 cookie) s1
       = Some (Inr (zero_keys\<lparr>nk_issued_ntp_seconds := 2000, nk_expires_ntp_seconds := 5000000,
                              nk_master_key_id := i\<rparr>), s2)"
  using cookie_roundtrip [OF toy_nvs_healthy psa_toy_healthy toy_ring_stored toy_ring_ok,
      of "\<lparr>ct_seconds = 2000, ct_fraction = 0\<rparr>"
        "zero_keys\<lparr>nk_issued_ntp_seconds := 2000, nk_expires_ntp_seconds := 5000000\<rparr>" 256
        "replicate 256 0" "\<lparr>ct_seconds = 2593001, ct_fraction = 0\<rparr>"
        "\<lparr>ct_seconds = 2593001, ct_fraction = 0\<rparr>"]
  by (simp add: cookie_toy_def toy_ring_def zero_keys_def) blast

text \<open>
  C9: Only genuine, current cookies open. On lawful storage with an orderly ring and healthy
  crypto, a successful opening means: the cookie has 128 octets, its first four name a valid
  key of the stored ring, the rest is exactly what sealing the returned keys under that key
  with the cookie's nonce produces, and the present second lies between issue and expiry.
\<close>
theorem cookie_authentic:
  assumes "nvs_lawful api" and "psa_healthy P"
    and "nts_cookie_unpack api P now1 (Some t) cookie s = Some (Inr keys, s1)"
    and "\<forall>r. ring_stored api s1 r \<longrightarrow> ring_ok r"
  shows "\<exists>r k. ring_stored api s1 r \<and> k \<in> set (slots r) \<and> mk_valid k \<noteq> 0 \<and>
    length cookie = 128 \<and> take 4 cookie = be32 (mk_key_id k) \<and> nk_master_key_id keys = mk_key_id k \<and>
    siv_seal P (mk_key k) (take 4 cookie) (bslice cookie 4 16) (cookie_plaintext (mk_key_id k) keys)
      = Some (drop 20 cookie) \<and>
    uint (nk_issued_ntp_seconds keys) \<le> uint (ct_seconds t) \<and>
    uint (ct_seconds t) < uint (nk_expires_ntp_seconds keys)"
proof -
  obtain r where m: "maintained_ring api now1 s = Some (Inr r, s1)" using unpack_ring [OF assms(3)] by blast
  have st: "ring_stored api s1 r" by (rule maintained_ring_stored [OF assms(1) m])
  then have ok: "ring_ok r" using assms(4) by blast
  show ?thesis
    using unpack_genuine [OF assms(2) m ok assms(3)] unpack_ring [OF assms(3)] st
    by (auto simp: keys_wf_def)
qed

lemma cookie_toy_unpack:
  "\<exists>cookie keys s2. nts_cookie_unpack toy_nvs psa_toy (Some \<lparr>ct_seconds = 2000, ct_fraction = 0\<rparr>)
       (Some \<lparr>ct_seconds = 2000, ct_fraction = 0\<rparr>) cookie (toy_storage (Some toy_ring)) = Some (Inr keys, s2) \<and>
     ring_stored toy_nvs s2 toy_ring \<and> length (nk_c2s_key keys) = 32 \<and> length (nk_s2c_key keys) = 32"
proof -
  let ?t = "\<lparr>ct_seconds = 2000, ct_fraction = 0\<rparr>" and ?s = "toy_storage (Some toy_ring)"
  let ?k = "slot_active toy_ring"
  let ?keys = "zero_keys\<lparr>nk_expires_ntp_seconds := 5000000, nk_master_key_id := mk_key_id ?k\<rparr>"
  have v: "validate_cookie_keyring toy_ring = ESP_OK" using toy_ring_ok by (simp add: ring_ok_def)
  obtain s1 where l: "nts_storage_load_cookie_keyring toy_nvs ?s = (Inr toy_ring, s1)" using toy_load by blast
  have "\<not> rotation_due 2000 (toy_ring, s1, False)" by (simp add: rotation_due_def toy_ring_def)
  then have rot: "rotate_keyring 2000 toy_ring s1 = Some (toy_ring, s1, False)"
    unfolding rotate_keyring_def by (subst while_option_unfold) simp
  have mt: "nts_storage_maintain_cookie_keyring toy_nvs (Some ?t) ?s = Some (ESP_OK, s1)"
    using rot by (simp add: nts_storage_maintain_cookie_keyring_def l v)
  have st1: "ring_stored toy_nvs s1 toy_ring"
    using keystore.load_holds [OF toy_nvs_lawful l, of toy_ring] toy_ring_stored by blast
  obtain s2 where l2: "nts_storage_load_cookie_keyring toy_nvs s1 = (Inr toy_ring, s2)"
    using healthy_load [OF toy_nvs_healthy st1] by blast
  have m: "maintained_ring toy_nvs (Some ?t) ?s = Some (Inr toy_ring, s2)"
    using mt l2 by (simp add: maintained_ring_def)
  have k: "?k \<in> set (slots toy_ring)" "mk_valid ?k = 1" "length (mk_key ?k) = 32" "mk_key_id ?k = 1"
    by (simp_all add: slots_def toy_ring_def)
  obtain c where c: "siv_seal psa_toy (mk_key ?k) (be32 1) (replicate 16 9) (cookie_plaintext 1 ?keys) = Some c"
    using siv.seal_total [OF psa_toy_healthy k(3)] by blast
  have lc: "length c = 108"
    using siv_seal_length [OF psa_toy_healthy c] by (simp add: length_cookie_plaintext zero_keys_def)
  define ck where "ck = be32 1 @ replicate 16 9 @ c"
  have p: "length ck = 128" "take 4 ck = be32 1" "bslice ck 4 16 = replicate 16 9" "drop 20 ck = c" "de_be32 ck = 1"
    using lc by (simp_all add: ck_def bslice_def)
  have o: "siv_open psa_toy (mk_key ?k) (be32 1) (replicate 16 9) c = Some (cookie_plaintext 1 ?keys)"
    by (rule siv.open_seal [OF psa_toy_healthy k(3) c])
  have rd: "read_cookie_plaintext (cookie_plaintext 1 ?keys) = Some (1, ?keys)"
    using cookie_box.decode_encode [of "(1, ?keys)"] k(4) by (simp add: keys_wf_def zero_keys_def)
  have "nts_cookie_unpack toy_nvs psa_toy (Some ?t) (Some ?t) ck ?s = Some (Inr ?keys, s2)"
    using unpack_healthy [OF psa_toy_healthy m toy_ring_ok p(1) k(1), of "Some ?t"] k p o rd
    by (simp add: zero_keys_def)
  moreover have "ring_stored toy_nvs s2 toy_ring"
    using keystore.load_holds [OF toy_nvs_lawful l2, of toy_ring] st1 by blast
  moreover have "length (nk_c2s_key ?keys) = 32" "length (nk_s2c_key ?keys) = 32" by (simp_all add: zero_keys_def)
  ultimately show ?thesis by blast
qed

theorem cookie_authentic_witness:
  "\<exists>cookie keys (k :: cookie_key) s2. nts_cookie_unpack toy_nvs psa_toy (Some \<lparr>ct_seconds = 2000, ct_fraction = 0\<rparr>)
       (Some \<lparr>ct_seconds = 2000, ct_fraction = 0\<rparr>) cookie (toy_storage (Some toy_ring)) = Some (Inr keys, s2) \<and>
     length cookie = 128 \<and> take 4 cookie = be32 (mk_key_id k) \<and>
     siv_seal psa_toy (mk_key k) (take 4 cookie) (bslice cookie 4 16) (cookie_plaintext (mk_key_id k) keys)
      = Some (drop 20 cookie)"
proof -
  obtain cookie keys s2 where u: "nts_cookie_unpack toy_nvs psa_toy (Some \<lparr>ct_seconds = 2000, ct_fraction = 0\<rparr>)
       (Some \<lparr>ct_seconds = 2000, ct_fraction = 0\<rparr>) cookie (toy_storage (Some toy_ring)) = Some (Inr keys, s2)"
    and st: "ring_stored toy_nvs s2 toy_ring" using cookie_toy_unpack by blast
  have ok: "\<forall>r. ring_stored toy_nvs s2 r \<longrightarrow> ring_ok r"
    using st toy_ring_ok by (simp add: ring_stored_def)
  obtain k :: cookie_key where "length cookie = 128 \<and> take 4 cookie = be32 (mk_key_id k) \<and>
     siv_seal psa_toy (mk_key k) (take 4 cookie) (bslice cookie 4 16) (cookie_plaintext (mk_key_id k) keys)
      = Some (drop 20 cookie)"
    using cookie_authentic [OF toy_nvs_lawful psa_toy_healthy u ok] by blast
  then show ?thesis using u by blast
qed

end
