(* ===== verification/Nts_Ntp_Auth.thy ===== *)
theory Nts_Ntp_Auth
  imports Nts_Cookie
begin

text \<open>
  \<open>src/main/nts_ntp_auth.c\<close>: the NTS extension fields of NTP packets. A request is walked
  field by field; the unique identifier, the cookie and the placeholders before the authenticator
  are taken, the cookie yields the traffic keys, and the authenticator is opened over everything
  before it. A response repeats the identifier and carries fresh cookies, sealed.

  A packet is the list of the octets received, so that a checked read also excludes reading the
  stale rest of the static receive buffer. The outer \<open>option\<close> is \<open>None\<close> for an access out of
  bounds (or a maintenance loop that does not end). The static scratch buffers are zero between
  calls (every path wipes them), and so are values here.
\<close>

definition NTP_HEADER_LEN :: nat where "NTP_HEADER_LEN = 48"
definition NTS_EF_UNIQUE_IDENTIFIER :: u16 where "NTS_EF_UNIQUE_IDENTIFIER = 0x0104"
definition NTS_EF_COOKIE :: u16 where "NTS_EF_COOKIE = 0x0204"
definition NTS_EF_COOKIE_PLACEHOLDER :: u16 where "NTS_EF_COOKIE_PLACEHOLDER = 0x0304"
definition NTS_EF_AUTHENTICATOR :: u16 where "NTS_EF_AUTHENTICATOR = 0x0404"
definition NTS_NTP_MAX_PACKET_SIZE :: nat where "NTS_NTP_MAX_PACKET_SIZE = 1280"
definition NTS_NTP_MAX_UID_LEN :: nat where "NTS_NTP_MAX_UID_LEN = 256"
definition NTS_NTP_MAX_PLACEHOLDERS :: nat where "NTS_NTP_MAX_PLACEHOLDERS = 7"

lemmas ef_types = NTS_EF_UNIQUE_IDENTIFIER_def NTS_EF_COOKIE_def NTS_EF_COOKIE_PLACEHOLDER_def
  NTS_EF_AUTHENTICATOR_def

lemmas auth_lens = NTP_HEADER_LEN_def NTS_NTP_MAX_PACKET_SIZE_def NTS_NTP_MAX_UID_LEN_def
  NTS_NTP_MAX_PLACEHOLDERS_def NTS_COOKIE_MAX_LEN_def NTS_AES_SIV_NONCE_LEN_def NTS_AES_SIV_TAG_LEN_def

record auth_context =
  ac_unique_id :: bytes
  ac_unique_id_len :: nat
  ac_valid_placeholders :: u16
  ac_request_length :: nat
  ac_keys :: cookie_keys
  ac_authenticated :: bool

definition nts_ntp_auth_clear_context :: "auth_context \<Rightarrow> auth_context" where
  "nts_ntp_auth_clear_context ctx = \<lparr> ac_unique_id = replicate NTS_NTP_MAX_UID_LEN 0, ac_unique_id_len = 0,
     ac_valid_placeholders = 0, ac_request_length = 0, ac_keys = zero_keys, ac_authenticated = False \<rparr>"

record auth_stats =
  as_verification_attempts :: u32
  as_authenticated_requests :: u32
  as_verification_failures :: u32
  as_protected_responses :: u32
  as_protection_failures :: u32

definition round_up_4 :: "nat \<Rightarrow> nat" where
  "round_up_4 n = n + 3 - (n + 3) mod 4"

definition is_nts_type :: "u16 \<Rightarrow> bool" where
  "is_nts_type t \<longleftrightarrow> t = NTS_EF_UNIQUE_IDENTIFIER \<or> t = NTS_EF_COOKIE \<or>
     t = NTS_EF_COOKIE_PLACEHOLDER \<or> t = NTS_EF_AUTHENTICATOR"

subsection \<open>Is this an NTS request?\<close>

function request_scan :: "bytes \<Rightarrow> nat \<Rightarrow> bool option" where
  "request_scan packet offset =
    (if size_sub (length packet) offset < 4 then Some False
     else case (rd16 packet offset, rd16 packet (offset + 2)) of
       (Some type, Some field_len) \<Rightarrow>
         if is_nts_type type then Some True
         else if field_len < 4 \<or> field_len AND 3 \<noteq> 0 \<or>
                 size_sub (length packet) offset < unat field_len then Some False
         else request_scan packet (offset + unat field_len)
     | _ \<Rightarrow> None)"
  by pat_completeness auto
termination
  by (relation "measure (\<lambda>(packet, offset). length packet - offset)")
    (auto simp: rd16_def word_less_nat_alt split: if_splits)

definition nts_ntp_auth_request_present :: "bytes \<Rightarrow> bool option" where
  "nts_ntp_auth_request_present packet =
     (if length packet \<le> NTP_HEADER_LEN then Some False else request_scan packet NTP_HEADER_LEN)"

subsection \<open>Extension fields\<close>

definition append_extension ::
    "bytes \<Rightarrow> nat \<Rightarrow> nat \<Rightarrow> u16 \<Rightarrow> bytes \<Rightarrow> (esp_err \<times> bytes \<times> nat) option" where
  "append_extension packet capacity offset type body =
    (let field_len = 4 + length body in
     if 65535 < field_len \<or> field_len mod 4 \<noteq> 0 \<or> size_sub capacity offset < field_len
     then Some (ESP_ERR_INVALID_SIZE, packet, offset)
     else
       Option.bind (wr packet offset (be16 type)) (\<lambda>p1.
       Option.bind (wr p1 (offset + 2) (be16 (of_nat field_len))) (\<lambda>p2.
       Option.bind (wr p2 (offset + 4) body) (\<lambda>p3.
         Some (ESP_OK, p3, offset + field_len)))))"

text \<open>The locals of the walk: the pointers become the slices they point to.\<close>

record auth_fields =
  af_uid :: "bytes option"
  af_cookie :: "bytes option"
  af_placeholder_lengths :: "nat list"
  af_auth :: "(nat \<times> bytes) option"

definition no_fields :: auth_fields where
  "no_fields = \<lparr> af_uid = None, af_cookie = None, af_placeholder_lengths = [], af_auth = None \<rparr>"

definition note_field :: "u16 \<Rightarrow> nat \<Rightarrow> bytes \<Rightarrow> auth_fields \<Rightarrow> esp_err + auth_fields" where
  "note_field type offset body st =
    (if af_auth st \<noteq> None then Inr st
     else if type = NTS_EF_UNIQUE_IDENTIFIER then
       (if af_uid st \<noteq> None \<or> length body < 32 \<or> NTS_NTP_MAX_UID_LEN < length body
        then Inl ESP_ERR_INVALID_RESPONSE else Inr (st\<lparr>af_uid := Some body\<rparr>))
     else if type = NTS_EF_COOKIE then
       (if af_cookie st \<noteq> None \<or> length body = 0 \<or> NTS_COOKIE_MAX_LEN < length body
        then Inl ESP_ERR_INVALID_RESPONSE else Inr (st\<lparr>af_cookie := Some body\<rparr>))
     else if type = NTS_EF_COOKIE_PLACEHOLDER then
       (if length (af_placeholder_lengths st) < NTS_NTP_MAX_PLACEHOLDERS
        then Inr (st\<lparr>af_placeholder_lengths := af_placeholder_lengths st @ [length body]\<rparr>)
        else Inr st)
     else if type = NTS_EF_AUTHENTICATOR then Inr (st\<lparr>af_auth := Some (offset, body)\<rparr>)
     else Inr st)"

function parse_fields :: "bytes \<Rightarrow> nat \<Rightarrow> auth_fields \<Rightarrow> (esp_err + auth_fields) option" where
  "parse_fields packet offset st =
    (if \<not> offset < length packet then Some (Inr st)
     else if length packet - offset < 4 then Some (Inl ESP_ERR_INVALID_SIZE)
     else case (rd16 packet offset, rd16 packet (offset + 2)) of
       (Some type, Some field_len) \<Rightarrow>
         if field_len < 4 \<or> field_len AND 3 \<noteq> 0 \<or> length packet - offset < unat field_len
         then Some (Inl ESP_ERR_INVALID_SIZE)
         else case rd_slice packet (offset + 4) (unat field_len - 4) of
           None \<Rightarrow> None
         | Some body \<Rightarrow>
             (case note_field type offset body st of
                Inl err \<Rightarrow> Some (Inl err)
              | Inr st' \<Rightarrow> parse_fields packet (offset + unat field_len) st')
     | _ \<Rightarrow> None)"
  by pat_completeness auto
termination
  by (relation "measure (\<lambda>(packet, offset, st). length packet - offset)")
    (auto simp: word_less_nat_alt)

subsection \<open>Verifying a request\<close>

text \<open>After the walk: the authenticator is taken apart and opened.\<close>

definition verify_authenticator ::
    "'n nvs_api \<Rightarrow> psa \<Rightarrow> clock_ntp_timestamp option \<Rightarrow> clock_ntp_timestamp option \<Rightarrow> bytes \<Rightarrow>
     bytes \<Rightarrow> bytes \<Rightarrow> nat list \<Rightarrow> nat \<Rightarrow> bytes \<Rightarrow> auth_context \<Rightarrow> 'n storage \<Rightarrow>
     ((esp_err \<times> auth_context) \<times> 'n storage) option" where
  "verify_authenticator api P now1 now2 packet uid cookie placeholder_lengths auth_offset auth_body ctx s =
    (if length auth_body < 4 then Some ((ESP_ERR_INVALID_SIZE, ctx), s)
     else
       Option.bind (rd16 auth_body 0) (\<lambda>nonce_len16.
       Option.bind (rd16 auth_body 2) (\<lambda>ciphertext_len16.
         let nonce_len = unat nonce_len16; ciphertext_len = unat ciphertext_len16;
             padded_nonce_len = round_up_4 nonce_len; padded_ciphertext_len = round_up_4 ciphertext_len in
         if nonce_len \<noteq> NTS_AES_SIV_NONCE_LEN \<or> ciphertext_len < NTS_AES_SIV_TAG_LEN \<or>
            length auth_body < 4 + padded_nonce_len + padded_ciphertext_len
         then Some ((ESP_ERR_INVALID_SIZE, ctx), s)
         else
           case nts_cookie_unpack api P now1 now2 cookie s of
             None \<Rightarrow> None
           | Some (Inl err, s1) \<Rightarrow> Some ((err, nts_ntp_auth_clear_context ctx), s1)
           | Some (Inr keys, s1) \<Rightarrow>
               Option.bind (rd_slice packet 0 auth_offset) (\<lambda>associated_data.
               Option.bind (rd_slice auth_body 4 NTS_AES_SIV_NONCE_LEN) (\<lambda>nonce.
               Option.bind (rd_slice auth_body (4 + padded_nonce_len) ciphertext_len) (\<lambda>ciphertext.
                 let (err, plaintext_len, _) =
                       nts_aes_siv_decrypt P (nk_c2s_key keys) associated_data nonce ciphertext
                         NTS_NTP_MAX_PACKET_SIZE (replicate NTS_NTP_MAX_PACKET_SIZE 0) in
                 if err \<noteq> ESP_OK then Some ((err, nts_ntp_auth_clear_context ctx), s1)
                 else if plaintext_len \<noteq> 0
                 then Some ((ESP_ERR_NOT_SUPPORTED, nts_ntp_auth_clear_context ctx), s1)
                 else
                   Option.bind (wr (ac_unique_id ctx) 0 uid) (\<lambda>unique_id.
                     Some ((ESP_OK, \<lparr> ac_unique_id = unique_id, ac_unique_id_len = length uid,
                        ac_valid_placeholders =
                          of_nat (length (filter (\<lambda>l. l = length cookie) placeholder_lengths)),
                        ac_request_length = length packet, ac_keys = keys, ac_authenticated = True \<rparr>), s1))))))))"

definition verify_request_impl ::
    "'n nvs_api \<Rightarrow> psa \<Rightarrow> clock_ntp_timestamp option \<Rightarrow> clock_ntp_timestamp option \<Rightarrow> bytes \<Rightarrow>
     auth_context \<Rightarrow> 'n storage \<Rightarrow> ((esp_err \<times> auth_context) \<times> 'n storage) option" where
  "verify_request_impl api P now1 now2 packet context s =
    (if length packet < NTP_HEADER_LEN \<or> NTS_NTP_MAX_PACKET_SIZE < length packet
     then Some ((ESP_ERR_INVALID_ARG, context), s)
     else
       let ctx = nts_ntp_auth_clear_context context in
       case parse_fields packet NTP_HEADER_LEN no_fields of
         None \<Rightarrow> None
       | Some (Inl err) \<Rightarrow> Some ((err, ctx), s)
       | Some (Inr walked) \<Rightarrow>
           (case (af_uid walked, af_cookie walked, af_auth walked) of
              (Some uid, Some cookie, Some (auth_offset, auth_body)) \<Rightarrow>
                verify_authenticator api P now1 now2 packet uid cookie (af_placeholder_lengths walked)
                  auth_offset auth_body ctx s
            | _ \<Rightarrow> Some ((ESP_ERR_NOT_FOUND, ctx), s)))"

definition nts_ntp_auth_verify_request ::
    "'n nvs_api \<Rightarrow> psa \<Rightarrow> clock_ntp_timestamp option \<Rightarrow> clock_ntp_timestamp option \<Rightarrow> bytes \<Rightarrow>
     auth_context \<Rightarrow> auth_stats \<Rightarrow> 'n storage \<Rightarrow> ((esp_err \<times> auth_context) \<times> auth_stats \<times> 'n storage) option" where
  "nts_ntp_auth_verify_request api P now1 now2 packet context stats s =
    (let stats1 = stats\<lparr>as_verification_attempts := as_verification_attempts stats + 1\<rparr> in
     case verify_request_impl api P now1 now2 packet context s of
       None \<Rightarrow> None
     | Some ((err, ctx), s1) \<Rightarrow>
         Some ((err, ctx),
           (if err = ESP_OK
            then stats1\<lparr>as_authenticated_requests := as_authenticated_requests stats1 + 1\<rparr>
            else stats1\<lparr>as_verification_failures := as_verification_failures stats1 + 1\<rparr>), s1))"

subsection \<open>Protecting a response\<close>

text \<open>Fresh cookies into the plaintext: \<open>n\<close> to go, \<open>i\<close> done; \<open>nows i\<close> is the clock of the \<open>i\<close>-th.\<close>

fun append_cookies ::
    "'n nvs_api \<Rightarrow> psa \<Rightarrow> (nat \<Rightarrow> clock_ntp_timestamp option) \<Rightarrow> cookie_keys \<Rightarrow> nat \<Rightarrow> nat \<Rightarrow> bytes \<Rightarrow> nat \<Rightarrow>
     'n storage \<Rightarrow> ((esp_err \<times> bytes \<times> nat) \<times> 'n storage) option" where
  "append_cookies api P nows keys i 0 plaintext plaintext_len s = Some ((ESP_OK, plaintext, plaintext_len), s)"
| "append_cookies api P nows keys i (Suc n) plaintext plaintext_len s =
    (case nts_cookie_create api P (nows i) keys (replicate NTS_COOKIE_MAX_LEN 0) NTS_COOKIE_MAX_LEN s of
       None \<Rightarrow> None
     | Some ((err, cookie_len, cookie), s1) \<Rightarrow>
         if err \<noteq> ESP_OK then Some ((err, plaintext, plaintext_len), s1)
         else
           Option.bind (rd_slice cookie 0 cookie_len) (\<lambda>body.
             case append_extension plaintext NTS_NTP_MAX_PACKET_SIZE plaintext_len NTS_EF_COOKIE body of
               None \<Rightarrow> None
             | Some (err, plaintext1, plaintext_len1) \<Rightarrow>
                 if err \<noteq> ESP_OK then Some ((err, plaintext1, plaintext_len1), s1)
                 else append_cookies api P nows keys (i + 1) n plaintext1 plaintext_len1 s1))"

definition cookie_count_of :: "auth_context \<Rightarrow> u16" where
  "cookie_count_of ctx =
    (let cookie_count = 1 + ac_valid_placeholders ctx in
     if of_nat (1 + NTS_NTP_MAX_PLACEHOLDERS) < cookie_count then of_nat (1 + NTS_NTP_MAX_PLACEHOLDERS)
     else cookie_count)"

definition auth_body_of :: "bytes \<Rightarrow> bytes \<Rightarrow> nat \<Rightarrow> bytes option" where
  "auth_body_of nonce ciphertext auth_body_len =
    (let b0 = replicate NTS_NTP_MAX_PACKET_SIZE 0 in
     Option.bind (wr b0 0 (be16 (of_nat (length nonce)))) (\<lambda>b1.
     Option.bind (wr b1 2 (be16 (of_nat (length ciphertext)))) (\<lambda>b2.
     Option.bind (wr b2 4 nonce) (\<lambda>b3.
     Option.bind (wr b3 (4 + round_up_4 (length nonce)) ciphertext) (\<lambda>b4.
       rd_slice b4 0 auth_body_len)))))"

text \<open>The last step: the sealed body becomes the authenticator, within the length of the request.\<close>

definition append_authenticator ::
    "auth_context \<Rightarrow> bytes \<Rightarrow> nat \<Rightarrow> nat \<Rightarrow> bytes \<Rightarrow> bytes \<Rightarrow> nat \<Rightarrow> (esp_err \<times> bytes \<times> nat) option" where
  "append_authenticator ctx packet capacity offset nonce ciphertext packet_len =
    (let auth_body_len = 4 + round_up_4 (length nonce) + round_up_4 (length ciphertext) in
     if NTS_NTP_MAX_PACKET_SIZE < auth_body_len then Some (ESP_ERR_INVALID_SIZE, packet, packet_len)
     else
       Option.bind (auth_body_of nonce ciphertext auth_body_len) (\<lambda>body.
         case append_extension packet capacity offset NTS_EF_AUTHENTICATOR body of
           None \<Rightarrow> None
         | Some (err, packet1, offset1) \<Rightarrow>
             if err \<noteq> ESP_OK then Some (err, packet1, packet_len)
             else if ac_request_length ctx < offset1 then Some (ESP_ERR_INVALID_SIZE, packet1, packet_len)
             else Some (ESP_OK, packet1, offset1)))"

definition protect_response_impl ::
    "'n nvs_api \<Rightarrow> psa \<Rightarrow> (nat \<Rightarrow> clock_ntp_timestamp option) \<Rightarrow> auth_context \<Rightarrow> bytes \<Rightarrow> nat \<Rightarrow> nat \<Rightarrow> nat \<Rightarrow>
     'n storage \<Rightarrow> ((esp_err \<times> bytes \<times> nat) \<times> 'n storage) option" where
  "protect_response_impl api P nows ctx packet base_packet_len packet_capacity packet_len s =
    (if \<not> ac_authenticated ctx \<or> base_packet_len \<noteq> NTP_HEADER_LEN \<or> packet_capacity < base_packet_len \<or>
        NTS_NTP_MAX_PACKET_SIZE < packet_capacity
     then Some ((ESP_ERR_INVALID_ARG, packet, packet_len), s)
     else
       Option.bind (rd_slice (ac_unique_id ctx) 0 (ac_unique_id_len ctx)) (\<lambda>uid.
         case append_extension packet packet_capacity base_packet_len NTS_EF_UNIQUE_IDENTIFIER uid of
           None \<Rightarrow> None
         | Some (err, packet1, offset) \<Rightarrow>
             if err \<noteq> ESP_OK then Some ((err, packet1, packet_len), s)
             else
               case append_cookies api P nows (ac_keys ctx) 0 (unat (cookie_count_of ctx))
                      (replicate NTS_NTP_MAX_PACKET_SIZE 0) 0 s of
                 None \<Rightarrow> None
               | Some ((err, plaintext, plaintext_len), s1) \<Rightarrow>
                   if err \<noteq> ESP_OK then Some ((err, packet1, packet_len), s1)
                   else
                     let (nonce, s2) = esp_fill_random NTS_AES_SIV_NONCE_LEN s1 in
                     Option.bind (rd_slice packet1 0 offset) (\<lambda>associated_data.
                     Option.bind (rd_slice plaintext 0 plaintext_len) (\<lambda>message.
                       let (err, ciphertext_len, sealed) =
                             nts_aes_siv_encrypt P (nk_s2c_key (ac_keys ctx)) associated_data nonce message
                               NTS_NTP_MAX_PACKET_SIZE (replicate NTS_NTP_MAX_PACKET_SIZE 0) in
                       if err \<noteq> ESP_OK then Some ((err, packet1, packet_len), s2)
                       else
                         Option.bind (rd_slice sealed 0 ciphertext_len) (\<lambda>ciphertext.
                           map_option (\<lambda>r. (r, s2))
                             (append_authenticator ctx packet1 packet_capacity offset nonce ciphertext packet_len))))))"

definition nts_ntp_auth_protect_response ::
    "'n nvs_api \<Rightarrow> psa \<Rightarrow> (nat \<Rightarrow> clock_ntp_timestamp option) \<Rightarrow> auth_context \<Rightarrow> bytes \<Rightarrow> nat \<Rightarrow> nat \<Rightarrow> nat \<Rightarrow>
     auth_stats \<Rightarrow> 'n storage \<Rightarrow> ((esp_err \<times> bytes \<times> nat) \<times> auth_stats \<times> 'n storage) option" where
  "nts_ntp_auth_protect_response api P nows ctx packet base_packet_len packet_capacity packet_len stats s =
    (case protect_response_impl api P nows ctx packet base_packet_len packet_capacity packet_len s of
       None \<Rightarrow> None
     | Some ((err, packet1, packet_len1), s1) \<Rightarrow>
         Some ((err, packet1, packet_len1),
           (if err = ESP_OK
            then stats\<lparr>as_protected_responses := as_protected_responses stats + 1\<rparr>
            else stats\<lparr>as_protection_failures := as_protection_failures stats + 1\<rparr>), s1))"

declare request_scan.simps [simp del] parse_fields.simps [simp del]

end
