(* ===== verification/Nts_Ntp_Auth_Theory.thy ===== *)
theory Nts_Ntp_Auth_Theory
  imports Nts_Ntp_Auth
begin

text \<open>
  What \<open>Nts_Ntp_Auth\<close> guarantees: the parser refines a grammar of extension fields; only genuine
  requests verify; every verified request can be answered within its own length; a client's
  exchange succeeds; and no input makes the code leave a buffer.
\<close>

subsection \<open>The grammar of extension fields\<close>

type_synonym ext_field = "u16 \<times> bytes"

definition ext_wf :: "ext_field \<Rightarrow> bool" where
  "ext_wf f \<longleftrightarrow> length (snd f) mod 4 = 0 \<and> 4 + length (snd f) \<le> 65535"

definition ext_bytes :: "ext_field \<Rightarrow> bytes" where
  "ext_bytes f = be16 (fst f) @ be16 (of_nat (4 + length (snd f))) @ snd f"

abbreviation ext_flat :: "ext_field list \<Rightarrow> bytes" where
  "ext_flat fs \<equiv> concat (map ext_bytes fs)"

lemma length_ext_bytes [simp, length_simps]: "length (ext_bytes f) = 4 + length (snd f)"
  by (simp add: ext_bytes_def)

text \<open>The walk over fields instead of octets.\<close>

fun note_all :: "nat \<Rightarrow> ext_field list \<Rightarrow> auth_fields \<Rightarrow> esp_err + auth_fields" where
  "note_all offset [] st = Inr st"
| "note_all offset ((type, body) # fs) st =
    (case note_field type offset body st of
       Inl err \<Rightarrow> Inl err
     | Inr st' \<Rightarrow> note_all (offset + 4 + length body) fs st')"

lemma unat_field_len: "4 + n \<le> 65535 \<Longrightarrow> unat (of_nat (4 + n) :: u16) = 4 + n"
  by (simp only: unat_of_nat) simp

lemma de_be16_drop_be16 [simp]: "de_be16 (be16 a) = a"
  using de_be16_be16 [of a "[]"] by simp

lemma ext_at:
  assumes "ext_wf (type, body)"
  shows "rd16 (pre @ ext_bytes (type, body) @ post) (length pre) = Some type"
    and "rd16 (pre @ ext_bytes (type, body) @ post) (length pre + 2) = Some (of_nat (4 + length body))"
    and "rd_slice (pre @ ext_bytes (type, body) @ post) (length pre + 4) (length body) = Some body"
  by (simp_all add: ext_bytes_def bslice_def rd16_def rd_slice_def)

lemma parse_fields_ext:
  assumes "ext_wf (type, body)"
  shows "parse_fields (pre @ ext_bytes (type, body) @ post) (length pre) st =
    (case note_field type (length pre) body st of
       Inl err \<Rightarrow> Some (Inl err)
     | Inr st' \<Rightarrow> parse_fields (pre @ ext_bytes (type, body) @ post) (length pre + 4 + length body) st')"
proof -
  have l: "unat (of_nat (4 + length body) :: u16) = 4 + length body" "length body mod 4 = 0"
    using assms by (simp_all add: ext_wf_def unat_field_len del: of_nat_add)
  note at = ext_at [OF assms, of pre post]
  show ?thesis
    using l at(1,2,3)
    by (subst parse_fields.simps)
      (simp add: word_less_nat_alt and_3_eq_0 add.assoc del: of_nat_add cong: sum.case_cong)
qed

text \<open>The parser refines the grammar: on a sequence of fields it is the walk over the fields, \<dots>\<close>

lemma parse_fields_grammar:
  "list_all ext_wf fs \<Longrightarrow> parse_fields (pre @ ext_flat fs) (length pre) st = Some (note_all (length pre) fs st)"
proof (induction fs arbitrary: pre st)
  case Nil
  then show ?case by (simp add: parse_fields.simps)
next
  case (Cons f fs)
  obtain type body where f: "f = (type, body)" by fastforce
  have wf: "ext_wf (type, body)" "list_all ext_wf fs" using Cons.prems f by simp_all
  have IH: "parse_fields (pre @ ext_bytes f @ ext_flat fs) (length pre + 4 + length body) st'
      = Some (note_all (length pre + 4 + length body) fs st')" for st'
    using Cons.IH [OF wf(2), of "pre @ ext_bytes f" st'] by (simp add: f add.assoc)
  show ?case
    using parse_fields_ext [OF wf(1), of pre "ext_flat fs" st] IH
    by (cases "note_field type (length pre) body st") (simp_all add: f)
qed

text \<open>\<dots> and whatever it accepts is a sequence of fields.\<close>

lemma ext_cut:
  assumes "off + unat l \<le> length p" "de_be16 (drop off p) = t" "de_be16 (drop (off + 2) p) = l"
    and "4 \<le> unat l" "unat l mod 4 = 0"
  shows "ext_wf (t, bslice p (off + 4) (unat l - 4))"
    and "drop off p = ext_bytes (t, bslice p (off + 4) (unat l - 4)) @ drop (off + unat l) p"
proof -
  let ?b = "bslice p (off + 4) (unat l - 4)"
  have lb: "length ?b = unat l - 4" using assms(1,4) by simp
  have u: "unat l < 65536" using unsigned_less [of l] by simp
  show "ext_wf (t, ?b)" using lb u assms(4,5) by (simp add: ext_wf_def) presburger
  have "bslice p off 4 @ ?b = bslice p off (unat l)" using bslice_join [of p off 4 "unat l - 4"] assms(4) by simp
  moreover have "bslice p off 4 = bslice p off 2 @ bslice p (off + 2) 2" using bslice_join [of p off 2 2] by simp
  ultimately have "bslice p off 2 @ bslice p (off + 2) 2 @ ?b = bslice p off (unat l)" by simp
  moreover have "be16 t = bslice p off 2" "be16 l = bslice p (off + 2) 2"
    using be16_de_be16_drop [of off p] be16_de_be16_drop [of "off + 2" p] assms by simp_all
  moreover have "of_nat (4 + length ?b) = l" using lb assms(4) by simp
  ultimately have "ext_bytes (t, ?b) = bslice p off (unat l)"
    by (simp add: ext_bytes_def del: of_nat_add)
  then show "drop off p = ext_bytes (t, ?b) @ drop (off + unat l) p"
    using append_take_drop_id [of "unat l" "drop off p"] by (simp add: bslice_def add.commute)
qed

lemma parse_fields_sound:
  assumes "off \<le> length p"
  shows "\<exists>r. parse_fields p off st = Some r \<and>
    (case r of Inl err \<Rightarrow> err \<noteq> ESP_OK
     | Inr st' \<Rightarrow> \<exists>fs. list_all ext_wf fs \<and> drop off p = ext_flat fs \<and> note_all off fs st = Inr st')"
  using assms
proof (induction p off st rule: parse_fields.induct)
  case (1 p off st)
  show ?case
  proof (cases "off < length p")
    case False
    then show ?thesis by (subst parse_fields.simps) (auto intro: exI [of _ "[]"])
  next
    case True
    let ?t = "de_be16 (drop off p)" and ?l = "de_be16 (drop (off + 2) p)"
    show ?thesis
    proof (cases "length p - off < 4 \<or> ?l < 4 \<or> ?l AND 3 \<noteq> 0 \<or> length p - off < unat ?l")
      case bad: True
      show ?thesis using True bad by (subst parse_fields.simps) auto
    next
      case False
      let ?b = "bslice p (off + 4) (unat ?l - 4)"
      have good: "off + 4 \<le> length p" "off + unat ?l \<le> length p" "4 \<le> unat ?l" "unat ?l mod 4 = 0"
        using False True by (auto simp: word_less_nat_alt and_3_eq_0)
      note cut = ext_cut [OF good(2) refl refl good(3,4)]
      have step: "parse_fields p off st = (case note_field ?t off ?b st of Inl e \<Rightarrow> Some (Inl e)
          | Inr st' \<Rightarrow> parse_fields p (off + unat ?l) st')"
        using False True good by (subst parse_fields.simps) (simp cong: sum.case_cong)
      show ?thesis
      proof (cases "note_field ?t off ?b st")
        case (Inl e)
        then show ?thesis using step by (auto simp: note_field_def split: if_splits)
      next
        case (Inr st')
        have "\<exists>r. parse_fields p (off + unat ?l) st' = Some r \<and>
          (case r of Inl err \<Rightarrow> err \<noteq> ESP_OK
           | Inr st'' \<Rightarrow> \<exists>fs. list_all ext_wf fs \<and> drop (off + unat ?l) p = ext_flat fs \<and>
               note_all (off + unat ?l) fs st' = Inr st'')"
          using False True good Inr by (intro "1.IH" [of "Some ?t" "Some ?l" ?t ?l ?b]) auto
        then obtain r where r: "parse_fields p (off + unat ?l) st' = Some r"
          "case r of Inl err \<Rightarrow> err \<noteq> ESP_OK
           | Inr st'' \<Rightarrow> \<exists>fs. list_all ext_wf fs \<and> drop (off + unat ?l) p = ext_flat fs \<and>
               note_all (off + unat ?l) fs st' = Inr st''" by blast
        show ?thesis
        proof (cases r)
          case (Inl e)
          then show ?thesis using r step Inr by simp
        next
          case r2: (Inr st'')
          then obtain fs where "list_all ext_wf fs" "drop (off + unat ?l) p = ext_flat fs"
            "note_all (off + unat ?l) fs st' = Inr st''" using r(2) by auto
          then show ?thesis
            using r(1) r2 step Inr cut good(2,3)
            by (intro exI [of _ r]) (auto intro!: exI [of _ "(?t, ?b) # fs"])
        qed
      qed
    qed
  qed
qed

subsection \<open>What the walk collects\<close>

lemma note_after_auth: "af_auth st \<noteq> None \<Longrightarrow> note_all off fs st = Inr st"
proof (induction fs arbitrary: off)
  case (Cons f fs)
  then show ?case by (cases f) (simp add: note_field_def)
qed simp

text \<open>The identifier and the cookie it ends with stand before the authenticator.\<close>

lemma note_all_auth:
  assumes "note_all off fs st = Inr st'" "af_auth st = None" "af_auth st' = Some (o1, b)"
  shows "\<exists>fs1 fs2. fs = fs1 @ (NTS_EF_AUTHENTICATOR, b) # fs2 \<and> o1 = off + length (ext_flat fs1) \<and>
    (\<forall>u. af_uid st' = Some u \<longrightarrow> af_uid st = Some u \<or> (NTS_EF_UNIQUE_IDENTIFIER, u) \<in> set fs1) \<and>
    (\<forall>c. af_cookie st' = Some c \<longrightarrow> af_cookie st = Some c \<or> (NTS_EF_COOKIE, c) \<in> set fs1)"
  using assms
proof (induction fs arbitrary: off st)
  case Nil
  then show ?case by simp
next
  case (Cons f fs)
  obtain type body where f: "f = (type, body)" by fastforce
  obtain st1 where s1: "note_field type off body st = Inr st1" "note_all (off + 4 + length body) fs st1 = Inr st'"
    using Cons.prems(1) f by (cases "note_field type off body st") simp_all
  show ?case
  proof (cases "af_auth st1")
    case None
    obtain fs1 fs2 where h: "fs = fs1 @ (NTS_EF_AUTHENTICATOR, b) # fs2"
      "o1 = off + 4 + length body + length (ext_flat fs1)"
      "\<forall>u. af_uid st' = Some u \<longrightarrow> af_uid st1 = Some u \<or> (NTS_EF_UNIQUE_IDENTIFIER, u) \<in> set fs1"
      "\<forall>c. af_cookie st' = Some c \<longrightarrow> af_cookie st1 = Some c \<or> (NTS_EF_COOKIE, c) \<in> set fs1"
      using Cons.IH [OF s1(2) None Cons.prems(3)] by blast
    have "af_uid st1 = Some u \<Longrightarrow> af_uid st = Some u \<or> type = NTS_EF_UNIQUE_IDENTIFIER \<and> u = body"
      "af_cookie st1 = Some c \<Longrightarrow> af_cookie st = Some c \<or> type = NTS_EF_COOKIE \<and> c = body" for u c
      using s1(1) Cons.prems(2) by (auto simp: note_field_def split: if_splits)
    then show ?thesis
      using h f by (intro exI [of _ "f # fs1"] exI [of _ fs2]) (auto simp: add.assoc)
  next
    case (Some ob)
    then have st: "st' = st1" using s1(2) note_after_auth by simp
    then have "type = NTS_EF_AUTHENTICATOR" "st1 = st\<lparr>af_auth := Some (off, body)\<rparr>"
      using s1(1) Cons.prems(2) Some by (auto simp: note_field_def split: if_splits)
    then show ?thesis
      using Cons.prems(3) st f by (intro exI [of _ "[]"] exI [of _ fs]) auto
  qed
qed

text \<open>Everything collected was paid for in octets of the request.\<close>

definition field_cost :: "bytes option \<Rightarrow> nat" where
  "field_cost b = (case b of None \<Rightarrow> 0 | Some b \<Rightarrow> 4 + length b)"

definition fields_cost :: "auth_fields \<Rightarrow> nat" where
  "fields_cost st = field_cost (af_uid st) + field_cost (af_cookie st) +
     sum_list (map ((+) 4) (af_placeholder_lengths st)) + field_cost (map_option snd (af_auth st))"

lemma note_field_cost:
  assumes "note_field type off body st = Inr st'"
  shows "fields_cost st' \<le> fields_cost st + 4 + length body"
    and "length (af_placeholder_lengths st) \<le> NTS_NTP_MAX_PLACEHOLDERS \<Longrightarrow>
         length (af_placeholder_lengths st') \<le> NTS_NTP_MAX_PLACEHOLDERS"
  using assms by (auto simp: note_field_def fields_cost_def field_cost_def split: if_splits)

lemma note_all_cost:
  assumes "note_all off fs st = Inr st'" "length (af_placeholder_lengths st) \<le> NTS_NTP_MAX_PLACEHOLDERS"
  shows "fields_cost st' \<le> fields_cost st + length (ext_flat fs) \<and>
    length (af_placeholder_lengths st') \<le> NTS_NTP_MAX_PLACEHOLDERS"
  using assms
proof (induction fs arbitrary: off st)
  case (Cons f fs)
  obtain type body where f: "f = (type, body)" by fastforce
  obtain st1 where s1: "note_field type off body st = Inr st1" "note_all (off + 4 + length body) fs st1 = Inr st'"
    using Cons.prems(1) f by (cases "note_field type off body st") simp_all
  show ?case
    using Cons.IH [OF s1(2)] note_field_cost [OF s1(1)] Cons.prems(2) f by simp
qed simp

lemma note_all_uid:
  assumes "note_all off fs st = Inr st'" "\<forall>u. af_uid st = Some u \<longrightarrow> length u \<in> {32..256}"
  shows "\<forall>u. af_uid st' = Some u \<longrightarrow> length u \<in> {32..256}"
  using assms
proof (induction fs arbitrary: off st)
  case (Cons f fs)
  obtain type body where f: "f = (type, body)" by fastforce
  obtain st1 where s1: "note_field type off body st = Inr st1" "note_all (off + 4 + length body) fs st1 = Inr st'"
    using Cons.prems(1) f by (cases "note_field type off body st") simp_all
  then have "\<forall>u. af_uid st1 = Some u \<longrightarrow> length u \<in> {32..256}"
    using Cons.prems(2) by (auto simp: note_field_def auth_lens split: if_splits)
  then show ?case using Cons.IH [OF s1(2)] by blast
qed simp

subsection \<open>A verified request\<close>

lemma verify_authenticator_success:
  assumes "verify_authenticator api P now1 now2 packet uid cookie lens o1 body ctx0 s = Some ((ESP_OK, ctx), s1)"
  shows "\<exists>nonce_len ciphertext_len keys nonce ct pt. rd16 body 0 = Some nonce_len \<and> rd16 body 2 = Some ciphertext_len \<and>
    unat nonce_len = 16 \<and> 16 \<le> unat ciphertext_len \<and> 20 + round_up_4 (unat ciphertext_len) \<le> length body \<and>
    nts_cookie_unpack api P now1 now2 cookie s = Some (Inr keys, s1) \<and> o1 \<le> length packet \<and>
    rd_slice body 4 16 = Some nonce \<and> rd_slice body 20 (unat ciphertext_len) = Some ct \<and>
    nts_aes_siv_decrypt P (nk_c2s_key keys) (take o1 packet) nonce ct 1280 (replicate 1280 0) = (ESP_OK, 0, pt) \<and>
    ctx = \<lparr> ac_unique_id = poke (ac_unique_id ctx0) 0 uid, ac_unique_id_len = length uid,
      ac_valid_placeholders = of_nat (length (filter (\<lambda>l. l = length cookie) lens)),
      ac_request_length = length packet, ac_keys = keys, ac_authenticated = True \<rparr>"
proof -
  obtain nl cl where r: "rd16 body 0 = Some nl" "rd16 body 2 = Some cl"
    using assms by (auto simp: verify_authenticator_def bind_eq_Some_conv split: if_splits)
  have g: "unat nl = 16" "16 \<le> unat cl" "20 + round_up_4 (unat cl) \<le> length body"
    using assms r by (auto simp: verify_authenticator_def auth_lens Let_def round_up_4_def split: if_splits)
  obtain keys s2 where u: "nts_cookie_unpack api P now1 now2 cookie s = Some (Inr keys, s2)"
    using assms r unpack_error [of api P now1 now2 cookie s]
    by (auto simp: verify_authenticator_def auth_lens Let_def split: if_splits option.splits sum.splits)
  obtain nonce ct where d: "o1 \<le> length packet" "rd_slice body 4 16 = Some nonce"
    "rd_slice body 20 (unat cl) = Some ct"
    using assms r g u
    by (auto simp: verify_authenticator_def auth_lens Let_def round_up_4_def bind_eq_Some_conv rd_slice_Some
        split: if_splits)
  obtain err n pt where dec: "nts_aes_siv_decrypt P (nk_c2s_key keys) (take o1 packet) nonce ct 1280
      (replicate 1280 0) = (err, n, pt)" by (metis prod_cases3)
  have ru: "round_up_4 16 = 16" by (simp add: round_up_4_def)
  have l4: "4 \<le> length body" using g(3) by simp
  have "err = ESP_OK" "n = 0" "s2 = s1"
    "ctx = \<lparr> ac_unique_id = poke (ac_unique_id ctx0) 0 uid, ac_unique_id_len = length uid,
      ac_valid_placeholders = of_nat (length (filter (\<lambda>l. l = length cookie) lens)),
      ac_request_length = length packet, ac_keys = keys, ac_authenticated = True \<rparr>"
    using assms r g u d dec ru l4
    by (simp_all add: verify_authenticator_def auth_lens bslice_def wr_def split: if_splits)
  then show ?thesis using r g u d dec by blast
qed

lemma authenticator_split:
  assumes "rd16 body 0 = Some nl" "rd16 body 2 = Some cl" "rd_slice body 4 16 = Some nonce"
    and "rd_slice body 20 n = Some ct"
  shows "body = be16 nl @ be16 cl @ nonce @ ct @ drop (20 + n) body"
proof -
  have l: "20 + n \<le> length body" "nonce = bslice body 4 16" "ct = bslice body 20 n"
    using assms(3,4) by (auto simp: rd_slice_Some)
  have "be16 nl = bslice body 0 2" "be16 cl = bslice body 2 2"
    using assms(1,2) l(1) be16_de_be16_drop [of 0 body] be16_de_be16_drop [of 2 body] by (auto simp: rd16_Some)
  moreover have "bslice body 0 4 = bslice body 0 2 @ bslice body 2 2" using bslice_join [of body 0 2 2] by (simp add: eval_nat_numeral)
  moreover have "bslice body 0 20 = bslice body 0 4 @ bslice body 4 16" using bslice_join [of body 0 4 16] by simp
  moreover have "bslice body 0 (20 + n) = bslice body 0 20 @ bslice body 20 n" using bslice_join [of body 0 20 n] by simp
  moreover have "body = bslice body 0 (20 + n) @ drop (20 + n) body" by (simp add: bslice_def)
  ultimately show ?thesis using l(2,3) by (metis append_assoc)
qed

lemma verify_impl_success:
  assumes "verify_request_impl api P now1 now2 packet c0 s = Some ((ESP_OK, ctx), s1)"
  shows "\<exists>w uid cookie o1 body fs. 48 \<le> length packet \<and> length packet \<le> 1280 \<and> list_all ext_wf fs \<and>
    packet = take 48 packet @ ext_flat fs \<and> note_all 48 fs no_fields = Inr w \<and>
    af_uid w = Some uid \<and> af_cookie w = Some cookie \<and> af_auth w = Some (o1, body) \<and>
    verify_authenticator api P now1 now2 packet uid cookie (af_placeholder_lengths w) o1 body
      (nts_ntp_auth_clear_context c0) s = Some ((ESP_OK, ctx), s1)"
proof -
  have len: "48 \<le> length packet" "length packet \<le> 1280"
    using assms by (auto simp: verify_request_impl_def auth_lens split: if_splits)
  obtain r where r: "parse_fields packet 48 no_fields = Some r"
    "case r of Inl err \<Rightarrow> err \<noteq> ESP_OK
     | Inr st' \<Rightarrow> \<exists>fs. list_all ext_wf fs \<and> drop 48 packet = ext_flat fs \<and> note_all 48 fs no_fields = Inr st'"
    using parse_fields_sound [OF len(1), of no_fields] by blast
  have "\<not> length packet < 48" "\<not> 1280 < length packet" using len by simp_all
  note v = assms [unfolded verify_request_impl_def auth_lens r(1) Let_def, simplified this if_False simp_thms option.case]
  obtain w where w: "r = Inr w" using r(2) v by (cases r) simp_all
  then obtain fs where fs: "list_all ext_wf fs" "drop 48 packet = ext_flat fs" "note_all 48 fs no_fields = Inr w"
    using r(2) by auto
  obtain uid cookie o1 body where "af_uid w = Some uid" "af_cookie w = Some cookie" "af_auth w = Some (o1, body)"
    using v w by (auto split: option.splits)
  moreover have "packet = take 48 packet @ ext_flat fs" using append_take_drop_id [of 48 packet] fs(2) by simp
  ultimately show ?thesis
    using len fs v w by (intro exI [of _ w] exI [of _ uid] exI [of _ cookie] exI [of _ o1] exI [of _ body] exI [of _ fs]) simp
qed

text \<open>The shape of a verified request's context, whatever crypto and storage do.\<close>

lemma verified_shape:
  assumes "verify_request_impl api P now1 now2 packet c0 s = Some ((ESP_OK, ctx), s1)"
  shows "ac_authenticated ctx \<and> ac_request_length ctx = length packet \<and> length packet \<le> 1280 \<and>
    length (ac_unique_id ctx) = 256 \<and> ac_unique_id_len ctx \<le> 256"
proof -
  obtain w uid cookie o1 body fs where v: "length packet \<le> 1280" "note_all 48 fs no_fields = Inr w" "af_uid w = Some uid"
    and va: "verify_authenticator api P now1 now2 packet uid cookie (af_placeholder_lengths w) o1 body
      (nts_ntp_auth_clear_context c0) s = Some ((ESP_OK, ctx), s1)"
    using verify_impl_success [OF assms] by blast
  have "length uid \<in> {32..256}" using note_all_uid [OF v(2)] v(3) by (auto simp: no_fields_def)
  then show ?thesis
    using verify_authenticator_success [OF va] v(1) by (auto simp: nts_ntp_auth_clear_context_def auth_lens)
qed

text \<open>Over healthy crypto and an orderly ring: what a verified request is.\<close>

lemma verify_genuine:
  assumes "psa_healthy P"
    and "verify_request_impl api P now1 (Some t) packet c0 s = Some ((ESP_OK, ctx), s1)"
    and "\<forall>r. maintained_ring api now1 s = Some (Inr r, s1) \<longrightarrow> ring_ok r"
  shows "\<exists>fs1 fs2 uid cookie nonce ct pad.
    packet = take 48 packet @ ext_flat fs1 @ ext_bytes (NTS_EF_AUTHENTICATOR, be16 16 @ be16 16 @ nonce @ ct @ pad) @
      ext_flat fs2 \<and>
    (NTS_EF_UNIQUE_IDENTIFIER, uid) \<in> set fs1 \<and> (NTS_EF_COOKIE, cookie) \<in> set fs1 \<and>
    length nonce = 16 \<and> length ct = 16 \<and>
    nts_cookie_unpack api P now1 (Some t) cookie s = Some (Inr (ac_keys ctx), s1) \<and>
    siv_seal P (nk_c2s_key (ac_keys ctx)) (take 48 packet @ ext_flat fs1) nonce [] = Some ct"
proof -
  obtain w uid cookie o1 body fs where v: "48 \<le> length packet" "length packet \<le> 1280" "list_all ext_wf fs"
    "packet = take 48 packet @ ext_flat fs" "note_all 48 fs no_fields = Inr w"
    "af_uid w = Some uid" "af_cookie w = Some cookie" "af_auth w = Some (o1, body)"
    and va: "verify_authenticator api P now1 (Some t) packet uid cookie (af_placeholder_lengths w) o1 body
      (nts_ntp_auth_clear_context c0) s = Some ((ESP_OK, ctx), s1)"
    using verify_impl_success [OF assms(2)] by blast
  obtain nl cl keys nonce ct pt where a: "rd16 body 0 = Some nl" "rd16 body 2 = Some cl" "unat nl = 16"
    "16 \<le> unat cl" "nts_cookie_unpack api P now1 (Some t) cookie s = Some (Inr keys, s1)"
    "rd_slice body 4 16 = Some nonce" "rd_slice body 20 (unat cl) = Some ct"
    "nts_aes_siv_decrypt P (nk_c2s_key keys) (take o1 packet) nonce ct 1280 (replicate 1280 0) = (ESP_OK, 0, pt)"
    "ac_keys ctx = keys"
    using verify_authenticator_success [OF va] by auto
  obtain fs1 fs2 where f: "fs = fs1 @ (NTS_EF_AUTHENTICATOR, body) # fs2" "o1 = 48 + length (ext_flat fs1)"
    "(NTS_EF_UNIQUE_IDENTIFIER, uid) \<in> set fs1" "(NTS_EF_COOKIE, cookie) \<in> set fs1"
    using note_all_auth [OF v(5) _ v(8)] v(6,7) by (auto simp: no_fields_def)
  have pk: "packet = take 48 packet @ ext_flat fs1 @ ext_bytes (NTS_EF_AUTHENTICATOR, body) @ ext_flat fs2"
    using v(4) f(1) by simp
  have ad: "take o1 packet = take 48 packet @ ext_flat fs1"
    using v(1) f(2) by (subst pk) simp
  have lb: "length body \<le> 1280" using v(2) by (subst (asm) pk) simp
  have lct: "length ct = unat cl" using a(7) by (auto simp: rd_slice_Some)
  obtain r where m: "maintained_ring api now1 s = Some (Inr r, s1)" using unpack_ring [OF a(5)] by blast
  then have ok: "ring_ok r" using assms(3) by blast
  obtain i where "keys_wf (i, keys)" using unpack_genuine [OF assms(1) m ok a(5)] by blast
  then have key: "length (nk_c2s_key keys) = 32" by (simp add: keys_wf_def)
  have "16 \<le> length ct" "length ct - 16 \<le> 1280" "(1280 :: nat) \<le> length (replicate 1280 (0 :: u8))"
    using a(4,7) lb lct by (auto simp: rd_slice_Some)
  note opened = decrypt_open [OF assms(1) this, of "nk_c2s_key keys" "take o1 packet" nonce]
  then have "siv_open P (nk_c2s_key keys) (take o1 packet) nonce ct = Some []" "length ct = 16"
    using a(4,8) lct by (auto split: option.splits)
  then have seal: "siv_seal P (nk_c2s_key keys) (take o1 packet) nonce [] = Some ct"
    using siv.seal_open [OF assms(1) key] by blast
  have "nl = 16" "cl = 16" using a(3) lct \<open>length ct = 16\<close> by (simp_all add: word_unat_eq_iff)
  then obtain pad where "body = be16 16 @ be16 16 @ nonce @ ct @ pad"
    using authenticator_split [OF a(1,2,6,7)] by blast
  then have pk': "packet = take 48 packet @ ext_flat fs1 @
      ext_bytes (NTS_EF_AUTHENTICATOR, be16 16 @ be16 16 @ nonce @ ct @ pad) @ ext_flat fs2"
    using pk by (simp only:)
  have "length nonce = 16" using a(6) by (auto simp: rd_slice_Some)
  then show ?thesis
    using pk' f(3,4) a(5) seal \<open>length ct = 16\<close> unfolding a(9) ad by blast
qed

subsection \<open>Composing a response\<close>

lemma append_extension_ok:
  assumes "off + 4 + length body \<le> capacity" "capacity \<le> length packet" "ext_wf (type, body)"
  shows "append_extension packet capacity off type body =
    Some (ESP_OK, poke packet off (ext_bytes (type, body)), off + 4 + length body)"
proof -
  let ?n = "be16 (of_nat (4 + length body)) :: bytes"
  have "poke (poke packet off (be16 type)) (off + 2) ?n = poke packet off (be16 type @ ?n)"
    using poke_next [of off "be16 type" ?n packet] assms by simp
  moreover have "poke (poke packet off (be16 type @ ?n)) (off + 4) body = poke packet off (ext_bytes (type, body))"
    using poke_next [of off "be16 type @ ?n" body packet] assms by (simp add: ext_bytes_def)
  ultimately show ?thesis
    using assms by (simp add: append_extension_def ext_wf_def add.assoc Let_def del: of_nat_add)
qed

lemma append_extension_returns:
  assumes "capacity \<le> length packet" "off \<le> capacity"
  shows "\<exists>err packet' off'. append_extension packet capacity off type body = Some (err, packet', off') \<and>
    length packet' = length packet \<and> off' \<le> capacity \<and> off \<le> off' \<and> take off packet' = take off packet"
proof (cases "65535 < 4 + length body \<or> (4 + length body) mod 4 \<noteq> 0 \<or> capacity - off < 4 + length body")
  case True
  then show ?thesis using assms by (auto simp: append_extension_def)
next
  case False
  then have "ext_wf (type, body)" "off + 4 + length body \<le> capacity" using assms by (auto simp: ext_wf_def)
  then show ?thesis using append_extension_ok [OF _ assms(1)] assms(1) by (simp add: poke_def)
qed

abbreviation cookie_fields :: "bytes list \<Rightarrow> ext_field list" where
  "cookie_fields cs \<equiv> map (Pair NTS_EF_COOKIE) cs"

lemma length_cookie_fields: "\<forall>c \<in> set cs. length c = 128 \<Longrightarrow> length (ext_flat (cookie_fields cs)) = 132 * length cs"
  by (induction cs) auto

lemma append_cookies_healthy:
  assumes "nvs_healthy api" "psa_healthy P" "ring_stored api s r" "ring_ok r"
    and "uint (mk_not_before_ntp (slot_active r)) \<le> uint (ct_seconds (ts i))"
    and "length (nk_c2s_key keys) = 32" "length (nk_s2c_key keys) = 32"
    and "\<And>j. uint (ct_seconds (ts j)) \<le> uint (ct_seconds (ts (Suc j)))"
    and "length done + 132 * n + length rest = 1280"
  shows "\<exists>cs s1. append_cookies api P (\<lambda>j. Some (ts j)) keys i n (done @ replicate (132 * n) 0 @ rest) (length done) s =
      Some ((ESP_OK, done @ ext_flat (cookie_fields cs) @ rest, length done + 132 * n), s1) \<and>
    length cs = n \<and> (\<forall>c \<in> set cs. length c = 128 \<and> fresh_cookie P keys c)"
  using assms(3-5,9)
proof (induction n arbitrary: i s r "done")
  case 0
  then show ?case by simp
next
  case (Suc n)
  obtain ck tail s1 r1 where c: "nts_cookie_create api P (Some (ts i)) keys (replicate 256 0) 256 s =
      Some ((ESP_OK, 128, ck @ tail), s1)" "length ck = 128" "fresh_cookie P keys ck"
    and r1: "ring_stored api s1 r1" "ring_ok r1" "uint (mk_not_before_ntp (slot_active r1)) \<le> uint (ct_seconds (ts i))"
    using create_fresh [OF assms(1,2) Suc.prems(1-3) assms(6,7)] by meson
  let ?buf = "done @ replicate (132 * Suc n) 0 @ rest"
  let ?done = "done @ ext_bytes (NTS_EF_COOKIE, ck)"
  have wf: "ext_wf (NTS_EF_COOKIE, ck)" using c(2) by (simp add: ext_wf_def)
  have buf: "poke ?buf (length done) (ext_bytes (NTS_EF_COOKIE, ck)) = ?done @ replicate (132 * n) 0 @ rest"
    using c(2) by (simp add: poke_def)
  have app: "append_extension ?buf 1280 (length done) NTS_EF_COOKIE ck =
      Some (ESP_OK, ?done @ replicate (132 * n) 0 @ rest, length ?done)"
    using append_extension_ok [OF _ _ wf, of "length done" 1280 ?buf] Suc.prems(4) c(2) buf by simp
  have "uint (mk_not_before_ntp (slot_active r1)) \<le> uint (ct_seconds (ts (Suc i)))"
    using r1(3) assms(8) [of i] by linarith
  moreover have "length ?done + 132 * n + length rest = 1280" using Suc.prems(4) c(2) by simp
  ultimately obtain cs s2 where cs: "append_cookies api P (\<lambda>j. Some (ts j)) keys (Suc i) n (?done @ replicate (132 * n) 0 @ rest)
      (length ?done) s1 = Some ((ESP_OK, ?done @ ext_flat (cookie_fields cs) @ rest, length ?done + 132 * n), s2)"
    "length cs = n" "\<forall>c \<in> set cs. length c = 128 \<and> fresh_cookie P keys c"
    using Suc.IH [OF r1(1,2)] by blast
  have rd: "rd_slice (ck @ tail) 0 128 = Some ck" using c(2) by (simp add: rd_slice_def bslice_def)
  show ?case
    using c app cs rd
    by (intro exI [of _ "ck # cs"] exI [of _ s2]) (simp add: auth_lens add.assoc)
qed

lemma round_up_4_mult [simp]: "n mod 4 = 0 \<Longrightarrow> round_up_4 n = n"
  unfolding round_up_4_def by presburger

lemma auth_body_ok:
  assumes "length nonce = 16" "length ct mod 4 = 0" "20 + length ct \<le> 1280"
  shows "auth_body_of nonce ct (20 + length ct) = Some (be16 16 @ be16 (of_nat (length ct)) @ nonce @ ct)"
proof -
  let ?z = "replicate 1280 0 :: bytes" and ?n = "be16 (of_nat (length ct)) :: bytes"
  have "poke (poke ?z 0 (be16 16)) 2 ?n = poke ?z 0 (be16 16 @ ?n)"
    using poke_next [of 0 "be16 16" ?n ?z] by (simp add: numeral_2_eq_2)
  moreover have "poke (poke ?z 0 (be16 16 @ ?n)) 4 nonce = poke ?z 0 (be16 16 @ ?n @ nonce)"
    using poke_next [of 0 "be16 16 @ ?n" nonce ?z] assms(1) by simp
  moreover have "poke (poke ?z 0 (be16 16 @ ?n @ nonce)) 20 ct = poke ?z 0 (be16 16 @ ?n @ nonce @ ct)"
    using poke_next [of 0 "be16 16 @ ?n @ nonce" ct ?z] assms(1,3) by simp
  ultimately have z: "poke (poke (poke (poke ?z 0 (be16 16)) 2 ?n) 4 nonce) 20 ct = poke ?z 0 (be16 16 @ ?n @ nonce @ ct)"
    by simp
  show ?thesis
    using assms z by (simp add: auth_body_of_def auth_lens Let_def bslice_def) (simp add: poke_def)
qed

definition response_len :: "nat \<Rightarrow> nat \<Rightarrow> nat" where
  "response_len uid_len placeholders = 48 + (4 + uid_len) + (4 + 4 + 16 + 16 + 132 * (1 + placeholders))"

lemma protect_healthy:
  assumes "nvs_healthy api" "psa_healthy P" "ring_stored api s r" "ring_ok r"
    and "uint (mk_not_before_ntp (slot_active r)) \<le> uint (ct_seconds (ts 0))"
    and "\<And>j. uint (ct_seconds (ts j)) \<le> uint (ct_seconds (ts (Suc j)))"
    and ctx: "ac_authenticated ctx" "length (nk_c2s_key (ac_keys ctx)) = 32" "length (nk_s2c_key (ac_keys ctx)) = 32"
      "unat (ac_valid_placeholders ctx) = v" "v \<le> 7"
    and uid: "take (ac_unique_id_len ctx) (ac_unique_id ctx) = uid" "length uid = ac_unique_id_len ctx"
      "length uid mod 4 = 0" "length uid \<le> 256"
    and room: "response_len (length uid) v \<le> ac_request_length ctx" "response_len (length uid) v \<le> capacity"
      "capacity \<le> 1280" "capacity \<le> length packet"
  shows "\<exists>cs nonce ct s2. protect_response_impl api P (\<lambda>j. Some (ts j)) ctx packet 48 capacity plen s =
      Some ((ESP_OK, poke packet 48 (ext_bytes (NTS_EF_UNIQUE_IDENTIFIER, uid) @
        ext_bytes (NTS_EF_AUTHENTICATOR, be16 16 @ be16 (of_nat (length ct)) @ nonce @ ct)),
        response_len (length uid) v), s2) \<and>
    length cs = 1 + v \<and> (\<forall>c \<in> set cs. length c = 128 \<and> fresh_cookie P (ac_keys ctx) c) \<and>
    length nonce = 16 \<and>
    siv_seal P (nk_s2c_key (ac_keys ctx)) (take 48 packet @ ext_bytes (NTS_EF_UNIQUE_IDENTIFIER, uid)) nonce
      (ext_flat (cookie_fields cs)) = Some ct"
proof -
  let ?keys = "ac_keys ctx" and ?U = "ext_bytes (NTS_EF_UNIQUE_IDENTIFIER, uid)"
  have rl: "response_len (length uid) v = 224 + length uid + 132 * v" by (simp add: response_len_def)
  have count: "unat (cookie_count_of ctx) = Suc v"
  proof -
    have "unat (1 + ac_valid_placeholders ctx) = Suc v"
      using ctx(4,5) by (simp add: unat_word_ariths)
    then show ?thesis
      using ctx(5) by (simp add: cookie_count_of_def Let_def word_less_nat_alt auth_lens)
  qed
  define p1 where "p1 = poke packet 48 ?U"
  have wfU: "ext_wf (NTS_EF_UNIQUE_IDENTIFIER, uid)" using uid(3,4) by (simp add: ext_wf_def)
  have p1: "append_extension packet capacity 48 NTS_EF_UNIQUE_IDENTIFIER uid = Some (ESP_OK, p1, 52 + length uid)"
    using append_extension_ok [OF _ _ wfU, of 48 capacity packet] room rl by (simp add: p1_def)
  have lp1: "length p1 = length packet" "take (52 + length uid) p1 = take 48 packet @ ?U"
    using room rl take_poke_end [of 48 packet ?U] by (simp_all add: p1_def)
  obtain cs s1 where cs: "append_cookies api P (\<lambda>j. Some (ts j)) ?keys 0 (Suc v) (replicate 1280 0) 0 s =
      Some ((ESP_OK, ext_flat (cookie_fields cs) @ replicate (1148 - 132 * v) 0, 132 * Suc v), s1)"
    "length cs = Suc v" "\<forall>c \<in> set cs. length c = 128 \<and> fresh_cookie P ?keys c"
    using append_cookies_healthy [OF assms(1-5) ctx(2,3) assms(6), of "[]" "Suc v" "replicate (1148 - 132 * v) 0"] ctx(5)
    by (auto simp: replicate_add [symmetric])
  let ?m = "ext_flat (cookie_fields cs)"
  have lm: "length ?m = 132 * Suc v" using length_cookie_fields [of cs] cs(2,3) by simp
  obtain nonce s2 where nonce: "esp_fill_random 16 s1 = (nonce, s2)" "length nonce = 16"
    by (simp add: esp_fill_random_def)
  obtain ct where ct: "siv_seal P (nk_s2c_key ?keys) (take 48 packet @ ?U) nonce ?m = Some ct"
    using siv.seal_total [OF assms(2) ctx(3)] by blast
  have lct: "length ct = 148 + 132 * v" using siv_seal_length [OF assms(2) ct] lm by simp
  have enc: "nts_aes_siv_encrypt P (nk_s2c_key ?keys) (take 48 packet @ ?U) nonce ?m 1280 (replicate 1280 0) =
      (ESP_OK, length ct, poke (replicate 1280 0) 0 ct)"
    using encrypt_seal [OF assms(2), of ?m 1280 "replicate 1280 0" "nk_s2c_key ?keys" "take 48 packet @ ?U" nonce]
      ct lm lct ctx(5) by simp
  let ?body = "be16 16 @ be16 (of_nat (length ct)) @ nonce @ ct"
  have m4: "length ct mod 4 = 0" unfolding lct by presburger
  have wfA: "ext_wf (NTS_EF_AUTHENTICATOR, ?body)"
    using lct nonce(2) ctx(5) m4 by (simp add: ext_wf_def)
  have body: "auth_body_of nonce ct (20 + length ct) = Some ?body"
    using auth_body_ok [OF nonce(2) m4] lct ctx(5) by simp
  have out: "poke p1 (52 + length uid) (ext_bytes (NTS_EF_AUTHENTICATOR, ?body)) =
      poke packet 48 (?U @ ext_bytes (NTS_EF_AUTHENTICATOR, ?body))"
    using poke_next [of 48 ?U "ext_bytes (NTS_EF_AUTHENTICATOR, ?body)" packet] lct nonce(2) room rl
    by (simp add: p1_def)
  have last: "append_authenticator ctx p1 capacity (52 + length uid) nonce ct plen =
      Some (ESP_OK, poke packet 48 (?U @ ext_bytes (NTS_EF_AUTHENTICATOR, ?body)), response_len (length uid) v)"
    using append_extension_ok [OF _ _ wfA, of "52 + length uid" capacity p1] body out lct nonce(2) room rl lp1(1) m4 ctx(5)
    by (simp add: append_authenticator_def auth_lens Let_def)
  have reads: "rd_slice (ac_unique_id ctx) 0 (ac_unique_id_len ctx) = Some uid"
    "rd_slice p1 0 (52 + length uid) = Some (take 48 packet @ ?U)"
    "rd_slice (?m @ replicate (1148 - 132 * v) 0) 0 (132 * Suc v) = Some ?m"
    "rd_slice (poke (replicate 1280 0) 0 ct) 0 (length ct) = Some ct"
    using uid(1,2) lp1 lm lct room rl ctx(5) by (auto simp: rd_slice_def bslice_def poke_def)
  have "protect_response_impl api P (\<lambda>j. Some (ts j)) ctx packet 48 capacity plen s =
      Some ((ESP_OK, poke packet 48 (?U @ ext_bytes (NTS_EF_AUTHENTICATOR, ?body)), response_len (length uid) v), s2)"
    using room(2,3) rl
    by (simp add: protect_response_impl_def auth_lens ctx(1) reads p1 cs(1) nonce(1) enc last count
        del: append_cookies.simps checked_in_range map_map mult_Suc_right)
  then show ?thesis using cs nonce ct by (intro exI [of _ cs] exI [of _ nonce] exI [of _ ct] exI [of _ s2]) simp
qed

lemma placeholder_cost: "132 * length (filter (\<lambda>l. l = 128) lens) \<le> sum_list (map ((+) 4) lens)"
  for lens :: "nat list"
  by (induction lens) auto

text \<open>What a verified request leaves for the response.\<close>

lemma verified_context:
  assumes "psa_healthy P"
    and "verify_request_impl api P now1 (Some t) packet c0 s = Some ((ESP_OK, ctx), s1)"
    and "\<forall>r. maintained_ring api now1 s = Some (Inr r, s1) \<longrightarrow> ring_ok r"
  shows "ac_authenticated ctx" and "ac_request_length ctx = length packet"
    and "length (nk_c2s_key (ac_keys ctx)) = 32" and "length (nk_s2c_key (ac_keys ctx)) = 32"
    and "unat (ac_valid_placeholders ctx) \<le> 7"
    and "length (ac_unique_id ctx) = 256" and "ac_unique_id_len ctx \<le> 256" and "ac_unique_id_len ctx mod 4 = 0"
    and "response_len (ac_unique_id_len ctx) (unat (ac_valid_placeholders ctx)) \<le> length packet"
    and "length packet \<le> 1280"
proof -
  obtain w uid cookie o1 body fs where v: "48 \<le> length packet" "length packet \<le> 1280" "list_all ext_wf fs"
    "packet = take 48 packet @ ext_flat fs" "note_all 48 fs no_fields = Inr w"
    "af_uid w = Some uid" "af_cookie w = Some cookie" "af_auth w = Some (o1, body)"
    and va: "verify_authenticator api P now1 (Some t) packet uid cookie (af_placeholder_lengths w) o1 body
      (nts_ntp_auth_clear_context c0) s = Some ((ESP_OK, ctx), s1)"
    using verify_impl_success [OF assms(2)] by blast
  obtain cl keys where a: "16 \<le> unat (cl :: u16)" "20 + round_up_4 (unat cl) \<le> length body"
    "nts_cookie_unpack api P now1 (Some t) cookie s = Some (Inr keys, s1)"
    "ctx = \<lparr> ac_unique_id = poke (replicate 256 0) 0 uid, ac_unique_id_len = length uid,
      ac_valid_placeholders = of_nat (length (filter (\<lambda>l. l = length cookie) (af_placeholder_lengths w))),
      ac_request_length = length packet, ac_keys = keys, ac_authenticated = True \<rparr>"
    using verify_authenticator_success [OF va] by (auto simp: nts_ntp_auth_clear_context_def auth_lens)
  have lc: "length cookie = 128" using unpack_ring [OF a(3)] by blast
  obtain r where m: "maintained_ring api now1 s = Some (Inr r, s1)" using unpack_ring [OF a(3)] by blast
  then have ok: "ring_ok r" using assms(3) by blast
  obtain i where wf: "keys_wf (i, keys)" using unpack_genuine [OF assms(1) m ok a(3)] by blast
  have uid: "length uid \<in> {32..256}" using note_all_uid [OF v(5)] v(6) by (auto simp: no_fields_def)
  obtain fs1 fs2 where f: "fs = fs1 @ (NTS_EF_AUTHENTICATOR, body) # fs2" "(NTS_EF_UNIQUE_IDENTIFIER, uid) \<in> set fs1"
    using note_all_auth [OF v(5) _ v(8)] v(6) by (auto simp: no_fields_def)
  have "ext_wf (NTS_EF_UNIQUE_IDENTIFIER, uid)" using v(3) f by (auto simp: list_all_iff)
  then have uid4: "length uid mod 4 = 0" by (simp add: ext_wf_def)
  have "ext_flat fs = drop 48 packet" by (metis append_take_drop_id same_append_eq v(4))
  then have len: "length (ext_flat fs) + 48 = length packet" using v(1) by simp
  have cost: "fields_cost w \<le> length (ext_flat fs)" "length (af_placeholder_lengths w) \<le> 7"
    using note_all_cost [OF v(5)] by (simp_all add: no_fields_def fields_cost_def field_cost_def auth_lens)
  let ?n = "length (filter (\<lambda>l. l = 128) (af_placeholder_lengths w))"
  have n: "?n \<le> 7" using cost(2) length_filter_le [of "\<lambda>l. l = 128" "af_placeholder_lengths w"] by linarith
  then have un: "unat (of_nat ?n :: u16) = ?n" by (simp only: unat_of_nat) simp
  have "36 \<le> length body" using a(1,2) unfolding round_up_4_def by presburger
  moreover have "fields_cost w = 4 + length uid + 132 + sum_list (map ((+) 4) (af_placeholder_lengths w)) + (4 + length body)"
    using v(6-8) lc by (simp add: fields_cost_def field_cost_def)
  ultimately have "response_len (length uid) ?n \<le> length packet"
    using placeholder_cost [of "af_placeholder_lengths w"] len cost(1) unfolding response_len_def distrib_left mult_1_right by linarith
  then show "ac_authenticated ctx" "ac_request_length ctx = length packet"
    "length (nk_c2s_key (ac_keys ctx)) = 32" "length (nk_s2c_key (ac_keys ctx)) = 32"
    "unat (ac_valid_placeholders ctx) \<le> 7" "length (ac_unique_id ctx) = 256" "ac_unique_id_len ctx \<le> 256"
    "ac_unique_id_len ctx mod 4 = 0"
    "response_len (ac_unique_id_len ctx) (unat (ac_valid_placeholders ctx)) \<le> length packet" "length packet \<le> 1280"
    using wf uid uid4 n un lc v(2) by (simp_all add: a(4) keys_wf_def)
qed

subsection \<open>A client's request\<close>

definition client_request :: "bytes \<Rightarrow> bytes \<Rightarrow> bytes \<Rightarrow> bytes list \<Rightarrow> bytes \<Rightarrow> bytes \<Rightarrow> bytes" where
  "client_request hdr uid cookie phs nonce ct =
     hdr @ ext_flat ([(NTS_EF_UNIQUE_IDENTIFIER, uid), (NTS_EF_COOKIE, cookie)] @ map (Pair NTS_EF_COOKIE_PLACEHOLDER) phs) @
     ext_bytes (NTS_EF_AUTHENTICATOR, be16 16 @ be16 16 @ nonce @ ct)"

definition client_ad :: "bytes \<Rightarrow> bytes \<Rightarrow> bytes \<Rightarrow> bytes list \<Rightarrow> bytes" where
  "client_ad hdr uid cookie phs =
     hdr @ ext_flat ([(NTS_EF_UNIQUE_IDENTIFIER, uid), (NTS_EF_COOKIE, cookie)] @ map (Pair NTS_EF_COOKIE_PLACEHOLDER) phs)"

lemma note_placeholders:
  "af_auth st = None \<Longrightarrow> length (af_placeholder_lengths st) + length phs \<le> 7 \<Longrightarrow>
   note_all off (map (Pair NTS_EF_COOKIE_PLACEHOLDER) phs @ fs) st =
     note_all (off + length (ext_flat (map (Pair NTS_EF_COOKIE_PLACEHOLDER) phs))) fs
       (st\<lparr>af_placeholder_lengths := af_placeholder_lengths st @ map length phs\<rparr>)"
proof (induction phs arbitrary: off st)
  case (Cons ph phs)
  have "note_field NTS_EF_COOKIE_PLACEHOLDER off ph st =
      Inr (st\<lparr>af_placeholder_lengths := af_placeholder_lengths st @ [length ph]\<rparr>)"
    using Cons.prems by (simp add: note_field_def ef_types auth_lens)
  then show ?case
    using Cons.IH [of "st\<lparr>af_placeholder_lengths := af_placeholder_lengths st @ [length ph]\<rparr>"] Cons.prems
    by (simp add: add.assoc)
qed simp

lemma verify_client:
  assumes "psa_healthy P" "nts_cookie_unpack api P now1 now2 cookie s = Some (Inr keys, s1)"
    and "length (nk_c2s_key keys) = 32"
    and "length hdr = 48" "length uid mod 4 = 0" "32 \<le> length uid" "length uid \<le> 256"
    and "length phs \<le> 7" "\<forall>ph \<in> set phs. length ph = 128" "length nonce = 16"
    and "siv_seal P (nk_c2s_key keys) (client_ad hdr uid cookie phs) nonce [] = Some ct"
    and "length (client_request hdr uid cookie phs nonce ct) \<le> 1280"
  shows "verify_request_impl api P now1 now2 (client_request hdr uid cookie phs nonce ct) c0 s =
    Some ((ESP_OK, \<lparr> ac_unique_id = poke (replicate 256 0) 0 uid, ac_unique_id_len = length uid,
      ac_valid_placeholders = of_nat (length phs),
      ac_request_length = length (client_request hdr uid cookie phs nonce ct), ac_keys = keys, ac_authenticated = True \<rparr>), s1)"
    (is "verify_request_impl _ _ _ _ ?p _ _ = _")
proof -
  have lc: "length cookie = 128" using unpack_ring [OF assms(2)] by blast
  have lct: "length ct = 16" using siv_seal_length [OF assms(1,11)] by simp
  let ?b = "be16 16 @ be16 16 @ nonce @ ct"
  let ?o = "length (client_ad hdr uid cookie phs)"
  let ?fs = "(NTS_EF_UNIQUE_IDENTIFIER, uid) # (NTS_EF_COOKIE, cookie) # map (Pair NTS_EF_COOKIE_PLACEHOLDER) phs @
    [(NTS_EF_AUTHENTICATOR, ?b)]"
  define w where "w = \<lparr> af_uid = Some uid, af_cookie = Some cookie, af_placeholder_lengths = map length phs,
      af_auth = Some (?o, ?b) \<rparr>"
  have p: "?p = hdr @ ext_flat ?fs" by (simp add: client_request_def)
  have wf: "list_all ext_wf ?fs"
    using assms(5,7,9,10) lc lct by (auto simp: ext_wf_def list_all_iff)
  have uid: "note_field NTS_EF_UNIQUE_IDENTIFIER 48 uid no_fields = Inr (no_fields\<lparr>af_uid := Some uid\<rparr>)"
    using assms(6,7) by (simp add: note_field_def no_fields_def auth_lens)
  have ck: "note_field NTS_EF_COOKIE (52 + length uid) cookie (no_fields\<lparr>af_uid := Some uid\<rparr>) =
      Inr (no_fields\<lparr>af_uid := Some uid, af_cookie := Some cookie\<rparr>)"
    using lc by (simp add: note_field_def no_fields_def auth_lens ef_types)
  have "note_all 48 ?fs no_fields = Inr w"
    using note_placeholders [of "no_fields\<lparr>af_uid := Some uid, af_cookie := Some cookie\<rparr>" phs
        "56 + length uid + 128" "[(NTS_EF_AUTHENTICATOR, ?b)]"] assms(4,8) lc uid ck
    by (simp add: no_fields_def note_field_def ef_types w_def client_ad_def add.assoc)
  then have parse: "parse_fields ?p 48 no_fields = Some (Inr w)"
    using parse_fields_grammar [OF wf, of hdr no_fields] assms(4) p by simp
  have len: "48 \<le> length ?p" using assms(4) by (simp add: client_request_def)
  have ad: "rd_slice ?p 0 ?o = Some (client_ad hdr uid cookie phs)"
    by (simp add: client_request_def client_ad_def rd_slice_def bslice_def)
  have body: "rd16 ?b 0 = Some 16" "rd16 ?b 2 = Some 16" "rd_slice ?b 4 16 = Some nonce" "rd_slice ?b 20 16 = Some ct"
    using assms(10) lct by (simp_all add: rd16_def rd_slice_def bslice_def)
  have "siv_open P (nk_c2s_key keys) (client_ad hdr uid cookie phs) nonce ct = Some []"
    by (rule siv.open_seal [OF assms(1,3,11)])
  then have dec: "nts_aes_siv_decrypt P (nk_c2s_key keys) (client_ad hdr uid cookie phs) nonce ct 1280 (replicate 1280 0) =
      (ESP_OK, 0, poke (replicate 1280 0) 0 [])"
    using decrypt_open [OF assms(1), of ct 1280 "replicate 1280 0" "nk_c2s_key keys" "client_ad hdr uid cookie phs" nonce] lct
    by simp
  have phs: "filter (\<lambda>l. l = 128) (map length phs) = map length phs"
    using assms(9) by (simp add: filter_id_conv)
  have clear: "ac_unique_id (nts_ntp_auth_clear_context c0) = replicate 256 0"
    by (simp add: nts_ntp_auth_clear_context_def auth_lens)
  have ru: "round_up_4 16 = 16" by simp
  have lb: "length ?b = 36" using assms(10) lct by simp
  have "verify_authenticator api P now1 now2 ?p uid cookie (map length phs) ?o ?b (nts_ntp_auth_clear_context c0) s =
    Some ((ESP_OK, \<lparr> ac_unique_id = poke (replicate 256 0) 0 uid, ac_unique_id_len = length uid,
      ac_valid_placeholders = of_nat (length phs), ac_request_length = length ?p, ac_keys = keys,
      ac_authenticated = True \<rparr>), s1)"
    unfolding verify_authenticator_def lb body
    using assms(7) lc
    by (simp add: auth_lens assms(2) ad dec body phs clear ru del: checked_in_range(1,2))
  then show ?thesis
    using len assms(12) by (simp add: verify_request_impl_def auth_lens parse w_def)
qed

lemma length_client_request:
  assumes "length hdr = 48" "length cookie = 128" "\<forall>ph \<in> set phs. length ph = 128" "length nonce = 16" "length ct = 16"
  shows "length (client_request hdr uid cookie phs nonce ct) = response_len (length uid) (length phs)"
proof -
  have "length (ext_flat (map (Pair NTS_EF_COOKIE_PLACEHOLDER) phs)) = 132 * length phs"
    using assms(3) by (induction phs) auto
  then show ?thesis using assms by (simp add: client_request_def response_len_def)
qed

subsection \<open>No access out of bounds\<close>

lemma request_scan_returns: "off \<le> length p \<Longrightarrow> request_scan p off \<noteq> None"
proof (induction p off rule: request_scan.induct)
  case (1 p off)
  show ?case
  proof (cases "length p - off < 4")
    case True
    then show ?thesis using "1.prems" by (subst request_scan.simps) simp
  next
    case False
    then have r: "rd16 p off = Some (de_be16 (drop off p))" "rd16 p (off + 2) = Some (de_be16 (drop (off + 2) p))"
      using "1.prems" by simp_all
    show ?thesis
      using "1.IH" [of "rd16 p off" "rd16 p (off + 2)" "de_be16 (drop off p)" "de_be16 (drop (off + 2) p)"] "1.prems" False r
      by (subst request_scan.simps) (simp only: option.case prod.case, auto)
  qed
qed

lemma verify_returns: "verify_request_impl api P now1 now2 packet c0 s \<noteq> None"
proof (cases "length packet < 48 \<or> 1280 < length packet")
  case True
  then show ?thesis by (auto simp: verify_request_impl_def auth_lens)
next
  case False
  then have len: "48 \<le> length packet" by simp
  obtain r where r: "parse_fields packet 48 no_fields = Some r"
    "case r of Inl err \<Rightarrow> err \<noteq> ESP_OK
     | Inr st' \<Rightarrow> \<exists>fs. list_all ext_wf fs \<and> drop 48 packet = ext_flat fs \<and> note_all 48 fs no_fields = Inr st'"
    using parse_fields_sound [OF len, of no_fields] by blast
  have auth: "verify_authenticator api P now1 now2 packet uid cookie lens o1 body (nts_ntp_auth_clear_context c0) s \<noteq> None"
    if "length uid \<le> 256" "o1 \<le> length packet" for uid cookie lens o1 body
  proof -
    have ru: "n \<le> round_up_4 n" for n unfolding round_up_4_def by presburger
    show ?thesis
      using ru [of "unat (de_be16 (drop 2 body))"] that cookie_ops_return(2) [of api P now1 now2 cookie s]
      by (auto simp: verify_authenticator_def auth_lens Let_def nts_ntp_auth_clear_context_def case_prod_beta
          rd_slice_def wr_def not_less split: option.splits sum.splits if_splits)
  qed
  show ?thesis
  proof (cases r)
    case (Inl e)
    then show ?thesis using False r(1) by (simp add: verify_request_impl_def auth_lens)
  next
    case (Inr w)
    then obtain fs where fs: "list_all ext_wf fs" "drop 48 packet = ext_flat fs" "note_all 48 fs no_fields = Inr w"
      using r(2) by auto
    have u: "length u \<le> 256" if "af_uid w = Some u" for u
      using note_all_uid [OF fs(3)] that by (auto simp: no_fields_def)
    have "o1 \<le> length packet" if a: "af_auth w = Some (o1, b)" for o1 b
    proof -
      obtain fs1 fs2 where "fs = fs1 @ (NTS_EF_AUTHENTICATOR, b) # fs2" "o1 = 48 + length (ext_flat fs1)"
        using note_all_auth [OF fs(3) _ a] by (auto simp: no_fields_def)
      moreover have "length (ext_flat fs) = length packet - 48" by (simp flip: fs(2))
      ultimately show ?thesis using len by simp
    qed
    then show ?thesis
      using False r(1) Inr u auth
      by (cases "af_uid w"; cases "af_cookie w"; cases "af_auth w")
        (auto simp: verify_request_impl_def auth_lens Let_def)
  qed
qed

lemma append_cookies_returns:
  "plen \<le> 1280 \<Longrightarrow> length pt = 1280 \<Longrightarrow>
   \<exists>err pt' plen' s'. append_cookies api P nows keys i n pt plen s = Some ((err, pt', plen'), s') \<and>
     length pt' = 1280 \<and> plen' \<le> 1280"
proof (induction n arbitrary: i pt plen s)
  case (Suc n)
  obtain err len ck s1 where c: "nts_cookie_create api P (nows i) keys (replicate 256 0) 256 s = Some ((err, len, ck), s1)"
    using cookie_ops_return(1) [of api P "nows i" keys "replicate 256 0" 256 s] by auto
  show ?case
  proof (cases "err = ESP_OK")
    case False
    then show ?thesis using c Suc.prems by (simp add: auth_lens)
  next
    case True
    then have rd: "rd_slice ck 0 len = Some (bslice ck 0 len)" using create_length [OF c [unfolded True]] by simp
    obtain err2 pt2 plen2 where a: "append_extension pt 1280 plen NTS_EF_COOKIE (bslice ck 0 len) = Some (err2, pt2, plen2)"
      "length pt2 = 1280" "plen2 \<le> 1280"
      using append_extension_returns [of 1280 pt plen NTS_EF_COOKIE "bslice ck 0 len"] Suc.prems by auto
    show ?thesis
      using Suc.IH [OF a(3,2), of "i + 1" s1] c True rd a by (simp add: auth_lens)
  qed
qed simp

lemma auth_body_returns:
  "length nonce = 16 \<Longrightarrow> 20 + round_up_4 (length ct) \<le> 1280 \<Longrightarrow>
   auth_body_of nonce ct (20 + round_up_4 (length ct)) \<noteq> None"
proof -
  have ru: "n \<le> round_up_4 n" for n unfolding round_up_4_def by presburger
  show "length nonce = 16 \<Longrightarrow> 20 + round_up_4 (length ct) \<le> 1280 \<Longrightarrow>
    auth_body_of nonce ct (20 + round_up_4 (length ct)) \<noteq> None"
    using ru [of "length ct"] by (simp add: auth_body_of_def auth_lens wr_def rd_slice_def)
qed

lemma protect_returns:
  assumes "ac_unique_id_len ctx \<le> length (ac_unique_id ctx)" "capacity \<le> length packet"
  shows "\<exists>err packet' len' s'. protect_response_impl api P nows ctx packet base capacity len s =
      Some ((err, packet', len'), s') \<and> length packet' = length packet \<and> take 48 packet' = take 48 packet \<and>
      (err = ESP_OK \<longrightarrow> len' \<le> capacity \<and> len' \<le> ac_request_length ctx \<and> 48 \<le> len')"
proof (cases "\<not> ac_authenticated ctx \<or> base \<noteq> 48 \<or> capacity < base \<or> 1280 < capacity")
  case True
  then show ?thesis by (auto simp: protect_response_impl_def auth_lens)
next
  case False
  let ?uid = "bslice (ac_unique_id ctx) 0 (ac_unique_id_len ctx)"
  have rd: "rd_slice (ac_unique_id ctx) 0 (ac_unique_id_len ctx) = Some ?uid" using assms(1) by simp
  have base: "base = 48" using False by simp
  obtain err p1 off where a: "append_extension packet capacity 48 NTS_EF_UNIQUE_IDENTIFIER ?uid = Some (err, p1, off)"
    "length p1 = length packet" "off \<le> capacity" "48 \<le> off" "take 48 p1 = take 48 packet"
    using append_extension_returns [of capacity packet 48 NTS_EF_UNIQUE_IDENTIFIER ?uid] assms(2) False by auto
  obtain e2 pt pl s1 where c: "append_cookies api P nows (ac_keys ctx) 0 (unat (cookie_count_of ctx)) (replicate 1280 0) 0 s =
      Some ((e2, pt, pl), s1)" "length pt = 1280" "pl \<le> 1280"
    using append_cookies_returns [of 0 "replicate 1280 0"] by fastforce
  obtain nonce s2 where n: "esp_fill_random 16 s1 = (nonce, s2)" "length nonce = 16" by (simp add: esp_fill_random_def)
  obtain e3 cl sealed where e: "nts_aes_siv_encrypt P (nk_s2c_key (ac_keys ctx)) (bslice p1 0 off) nonce (bslice pt 0 pl)
      1280 (replicate 1280 0) = (e3, cl, sealed)" by (metis prod_cases3)
  have rd2: "rd_slice p1 0 off = Some (bslice p1 0 off)" "rd_slice pt 0 pl = Some (bslice pt 0 pl)"
    using a c assms(2) by simp_all
  note unfold = protect_response_impl_def auth_lens base rd a(1) c(1) n(1) rd2 e
  show ?thesis
  proof (cases "err = ESP_OK \<and> e2 = ESP_OK \<and> e3 = ESP_OK")
    case bad: False
    then show ?thesis using False a(2,5) by (auto simp: unfold simp del: append_cookies.simps checked_in_range)
  next
    case ok: True
    have "cl \<le> length sealed"
      using encrypt_success [OF e [unfolded conjunct2 [OF conjunct2 [OF ok]]]] s2v_length by (auto simp: poke_def)
    then have ct: "rd_slice sealed 0 cl = Some (bslice sealed 0 cl)" "length (bslice sealed 0 cl) = cl" by simp_all
    have "\<exists>err packet' len'. append_authenticator ctx p1 capacity off nonce (bslice sealed 0 cl) len = Some (err, packet', len') \<and>
        length packet' = length packet \<and> take 48 packet' = take 48 packet \<and>
        (err = ESP_OK \<longrightarrow> len' \<le> capacity \<and> len' \<le> ac_request_length ctx \<and> 48 \<le> len')"
    proof (cases "1280 < 20 + round_up_4 cl")
      case True
      then show ?thesis using a(2,5) n(2) ct(2) by (simp add: append_authenticator_def auth_lens)
    next
      case small: False
      then obtain body where b: "auth_body_of nonce (bslice sealed 0 cl) (20 + round_up_4 cl) = Some body"
        using auth_body_returns [OF n(2), of "bslice sealed 0 cl"] ct(2) by auto
      obtain e4 p2 off2 where "append_extension p1 capacity off NTS_EF_AUTHENTICATOR body = Some (e4, p2, off2)"
        "length p2 = length p1" "off2 \<le> capacity" "off \<le> off2" "take off p2 = take off p1"
        using append_extension_returns [of capacity p1 off NTS_EF_AUTHENTICATOR body] a assms(2) by auto
      moreover from this(5) have "take 48 p2 = take 48 packet" using a(4,5) by (metis min.absorb1 take_take)
      ultimately show ?thesis using small b n(2) ct(2) a(2,4,5) by (auto simp: append_authenticator_def auth_lens)
    qed
    then show ?thesis
      using False ok ct by (auto simp: unfold simp del: append_cookies.simps checked_in_range)
  qed
qed

lemma request_scan_ext:
  assumes "list_all ext_wf fs" "f \<in> set fs" "is_nts_type (fst f)"
  shows "request_scan (pre @ ext_flat fs @ post) (length pre) = Some True"
  using assms
proof (induction fs arbitrary: pre)
  case (Cons g fs)
  obtain type body where g: "g = (type, body)" by fastforce
  have wf: "ext_wf (type, body)" using Cons.prems(1) g by simp
  then have l: "unat (of_nat (4 + length body) :: u16) = 4 + length body" "length body mod 4 = 0"
    by (simp_all add: ext_wf_def unat_field_len del: of_nat_add)
  have at: "rd16 (pre @ ext_flat (g # fs) @ post) (length pre) = Some type"
    "rd16 (pre @ ext_flat (g # fs) @ post) (length pre + 2) = Some (of_nat (4 + length body))"
    using ext_at(1,2) [OF wf, of pre "ext_flat fs @ post"] by (simp_all add: g del: of_nat_add checked_in_range)
  have step: "request_scan (pre @ ext_flat (g # fs) @ post) (length pre) =
      (if is_nts_type type then Some True
       else request_scan ((pre @ ext_bytes g) @ ext_flat fs @ post) (length (pre @ ext_bytes g)))"
    by (subst request_scan.simps, simp only: at option.case prod.case)
      (use l in \<open>simp add: g word_less_nat_alt and_3_eq_0 add.assoc del: of_nat_add\<close>)
  show ?case
  proof (cases "is_nts_type type")
    case False
    then have "f \<in> set fs" using Cons.prems(2,3) g by auto
    then show ?thesis using Cons.IH [of "pre @ ext_bytes g"] Cons.prems(1,3) step False by simp
  qed (use step in simp)
qed simp

lemma verified_is_recognised:
  assumes "verify_request_impl api P now1 now2 packet c0 s = Some ((ESP_OK, ctx), s1)"
  shows "nts_ntp_auth_request_present packet = Some True"
proof -
  obtain w uid o1 body fs where v: "48 \<le> length packet" "list_all ext_wf fs" "packet = take 48 packet @ ext_flat fs"
    "note_all 48 fs no_fields = Inr w" "af_auth w = Some (o1, body)"
    using verify_impl_success [OF assms] by blast
  obtain fs1 fs2 where f: "fs = fs1 @ (NTS_EF_AUTHENTICATOR, body) # fs2"
    using note_all_auth [OF v(4) _ v(5)] by (auto simp: no_fields_def)
  have d: "drop 48 packet = ext_flat fs" by (metis append_take_drop_id same_append_eq v(3))
  have "0 < length (drop 48 packet)" unfolding d f by simp
  moreover have "request_scan (take 48 packet @ ext_flat fs @ []) (length (take 48 packet)) = Some True"
    by (rule request_scan_ext [OF v(2), of "(NTS_EF_AUTHENTICATOR, body)"]) (simp_all add: f is_nts_type_def)
  ultimately show ?thesis
    using v(1) by (simp add: nts_ntp_auth_request_present_def auth_lens flip: d)
qed

lemma verify_public:
  "nts_ntp_auth_verify_request api P now1 now2 packet c0 st s = Some ((ESP_OK, ctx), st1, s1) \<Longrightarrow>
   verify_request_impl api P now1 now2 packet c0 s = Some ((ESP_OK, ctx), s1)"
  by (auto simp: nts_ntp_auth_verify_request_def Let_def split: option.splits prod.splits if_splits)

lemma verify_public_ok:
  "verify_request_impl api P now1 now2 packet c0 s = Some ((ESP_OK, ctx), s1) \<Longrightarrow>
   \<exists>st1. nts_ntp_auth_verify_request api P now1 now2 packet c0 st s = Some ((ESP_OK, ctx), st1, s1)"
  by (simp add: nts_ntp_auth_verify_request_def)

lemma protect_public_ok:
  "protect_response_impl api P nows ctx packet base cap len s = Some ((ESP_OK, packet', len'), s1) \<Longrightarrow>
   \<exists>st1. nts_ntp_auth_protect_response api P nows ctx packet base cap len st s = Some ((ESP_OK, packet', len'), st1, s1)"
  by (simp add: nts_ntp_auth_protect_response_def)

lemma response_fits:
  assumes "nvs_healthy api" and "psa_healthy P" and "ring_stored api s r" and "ring_ok r"
    and "uint (mk_not_before_ntp (slot_active r)) \<le> uint (ct_seconds t0)"
    and "uint (ct_seconds t0) \<le> uint (ct_seconds (ts 0))"
    and "\<forall>j. uint (ct_seconds (ts j)) \<le> uint (ct_seconds (ts (Suc j)))"
    and "verify_request_impl api P (Some t0) (Some t) request c0 s = Some ((ESP_OK, ctx), s1)"
    and "length packet = 1280"
  shows "\<exists>uid cs nonce ct len st2 s2.
    nts_ntp_auth_protect_response api P (\<lambda>j. Some (ts j)) ctx packet 48 1280 48 st1 s1 =
      Some ((ESP_OK, poke packet 48 (ext_bytes (NTS_EF_UNIQUE_IDENTIFIER, uid) @
        ext_bytes (NTS_EF_AUTHENTICATOR, be16 16 @ be16 (of_nat (length ct)) @ nonce @ ct)), len), st2, s2) \<and>
    uid = take (ac_unique_id_len ctx) (ac_unique_id ctx) \<and>
    len = response_len (length uid) (unat (ac_valid_placeholders ctx)) \<and> len \<le> length request \<and>
    length cs = 1 + unat (ac_valid_placeholders ctx) \<and>
    (\<forall>c \<in> set cs. length c = 128 \<and> fresh_cookie P (ac_keys ctx) c) \<and> length nonce = 16 \<and>
    siv_seal P (nk_s2c_key (ac_keys ctx)) (take 48 packet @ ext_bytes (NTS_EF_UNIQUE_IDENTIFIER, uid)) nonce
      (ext_flat (cookie_fields cs)) = Some ct"
proof -
  obtain r1 s' where m: "maintained_ring api (Some t0) s = Some (Inr r1, s')" "ring_stored api s' r1" "ring_ok r1"
    "uint (mk_not_before_ntp (slot_active r1)) \<le> uint (ct_seconds t0)"
    using maintained_ring_healthy [OF assms(1,3-5)] by blast
  obtain w :: auth_fields and uid cookie o1 body where va: "verify_authenticator api P (Some t0) (Some t) request uid cookie
      (af_placeholder_lengths w) o1 body (nts_ntp_auth_clear_context c0) s = Some ((ESP_OK, ctx), s1)"
    using verify_impl_success [OF assms(8)] by blast
  obtain keys where "nts_cookie_unpack api P (Some t0) (Some t) cookie s = Some (Inr keys, s1)"
    using verify_authenticator_success [OF va] by blast
  then have "s' = s1" using unpack_ring m(1) by fastforce
  then have st: "ring_stored api s1 r1" and ok: "\<forall>r. maintained_ring api (Some t0) s = Some (Inr r, s1) \<longrightarrow> ring_ok r"
    using m by simp_all
  note c = verified_context [OF assms(2,8) ok]
  let ?uid = "take (ac_unique_id_len ctx) (ac_unique_id ctx)"
  have lu: "length ?uid = ac_unique_id_len ctx" using c(6,7) by simp
  have le: "uint (mk_not_before_ntp (slot_active r1)) \<le> uint (ct_seconds (ts 0))" using m(4) assms(6) by linarith
  have "response_len (length ?uid) (unat (ac_valid_placeholders ctx)) \<le> ac_request_length ctx"
    "response_len (length ?uid) (unat (ac_valid_placeholders ctx)) \<le> 1280"
    using c(2,9,10) unfolding lu by simp_all
  from protect_healthy [where ts = ts, OF assms(1,2) st m(3) le assms(7) [rule_format] c(1,3,4) refl c(5) refl lu _ _ this, of packet 48]
  obtain cs nonce ct s2 where p: "protect_response_impl api P (\<lambda>j. Some (ts j)) ctx packet 48 1280 48 s1 =
      Some ((ESP_OK, poke packet 48 (ext_bytes (NTS_EF_UNIQUE_IDENTIFIER, ?uid) @
        ext_bytes (NTS_EF_AUTHENTICATOR, be16 16 @ be16 (of_nat (length ct)) @ nonce @ ct)),
        response_len (length ?uid) (unat (ac_valid_placeholders ctx))), s2)"
    and rest: "length cs = 1 + unat (ac_valid_placeholders ctx)" "\<forall>c \<in> set cs. length c = 128 \<and> fresh_cookie P (ac_keys ctx) c"
      "length nonce = 16"
      "siv_seal P (nk_s2c_key (ac_keys ctx)) (take 48 packet @ ext_bytes (NTS_EF_UNIQUE_IDENTIFIER, ?uid)) nonce
        (ext_flat (cookie_fields cs)) = Some ct"
    using c(7,8) assms(9) lu by auto
  obtain st2 where p2: "nts_ntp_auth_protect_response api P (\<lambda>j. Some (ts j)) ctx packet 48 1280 48 st1 s1 =
      Some ((ESP_OK, poke packet 48 (ext_bytes (NTS_EF_UNIQUE_IDENTIFIER, ?uid) @
        ext_bytes (NTS_EF_AUTHENTICATOR, be16 16 @ be16 (of_nat (length ct)) @ nonce @ ct)),
        response_len (length ?uid) (unat (ac_valid_placeholders ctx))), st2, s2)"
    using protect_public_ok [OF p, of st1] by blast
  have le: "response_len (length ?uid) (unat (ac_valid_placeholders ctx)) \<le> length request" unfolding lu by (rule c(9))
  show ?thesis
    by (rule exI [of _ ?uid], rule exI [of _ cs], rule exI [of _ nonce], rule exI [of _ ct], rule exI, rule exI [of _ st2],
        rule exI [of _ s2], intro conjI) (rule p2 refl le rest)+
qed

text \<open>One exchange of a client that holds a cookie.\<close>

lemma exchange_ok:
  assumes "nvs_healthy api" and "psa_healthy P" and "ring_stored api s r" and "ring_ok r"
    and "uint (mk_not_before_ntp (slot_active r)) \<le> uint (ct_seconds t0)"
    and "uint (ct_seconds t0) \<le> uint (ct_seconds (ts 0))"
    and "\<forall>j. uint (ct_seconds (ts j)) \<le> uint (ct_seconds (ts (Suc j)))"
    and "nts_cookie_unpack api P (Some t0) (Some t) cookie s = Some (Inr keys, s1)"
    and "length (nk_c2s_key keys) = 32" and "length (nk_s2c_key keys) = 32"
    and "length hdr = 48" and "length uid mod 4 = 0" and "32 \<le> length uid" and "length uid \<le> 256"
    and "length phs \<le> 7" and "\<forall>ph \<in> set phs. length ph = 128" and "length nonce = 16"
    and "siv_seal P (nk_c2s_key keys) (client_ad hdr uid cookie phs) nonce [] = Some ct"
    and "response_len (length uid) (length phs) \<le> 1280" and "length packet = 1280"
  shows "\<exists>ctx st1. nts_ntp_auth_verify_request api P (Some t0) (Some t) (client_request hdr uid cookie phs nonce ct) c0 st s =
      Some ((ESP_OK, ctx), st1, s1) \<and>
    (\<exists>cs nonce2 ct2 st2 s2. nts_ntp_auth_protect_response api P (\<lambda>j. Some (ts j)) ctx packet 48 1280 48 st1 s1 =
      Some ((ESP_OK, poke packet 48 (ext_bytes (NTS_EF_UNIQUE_IDENTIFIER, uid) @
        ext_bytes (NTS_EF_AUTHENTICATOR, be16 16 @ be16 (of_nat (length ct2)) @ nonce2 @ ct2)),
        length (client_request hdr uid cookie phs nonce ct)), st2, s2) \<and>
      length cs = 1 + length phs \<and> (\<forall>c \<in> set cs. length c = 128 \<and> fresh_cookie P keys c) \<and>
      siv_open P (nk_s2c_key keys) (take 48 packet @ ext_bytes (NTS_EF_UNIQUE_IDENTIFIER, uid)) nonce2 ct2 =
        Some (ext_flat (cookie_fields cs)))"
proof -
  have "length cookie = 128" using unpack_ring [OF assms(8)] by blast
  moreover have "length ct = 16" using siv_seal_length [OF assms(2,18)] by simp
  ultimately have len: "length (client_request hdr uid cookie phs nonce ct) = response_len (length uid) (length phs)"
    using length_client_request assms(11,16,17) by blast
  then have le: "length (client_request hdr uid cookie phs nonce ct) \<le> 1280" using assms(19) by simp
  define ctx where "ctx = \<lparr> ac_unique_id = poke (replicate 256 0) 0 uid, ac_unique_id_len = length uid,
      ac_valid_placeholders = of_nat (length phs),
      ac_request_length = length (client_request hdr uid cookie phs nonce ct), ac_keys = keys, ac_authenticated = True \<rparr>"
  have v: "verify_request_impl api P (Some t0) (Some t) (client_request hdr uid cookie phs nonce ct) c0 s =
      Some ((ESP_OK, ctx), s1)"
    unfolding ctx_def by (rule verify_client [OF assms(2,8,9,11-18) le])
  obtain st1 where v1: "nts_ntp_auth_verify_request api P (Some t0) (Some t) (client_request hdr uid cookie phs nonce ct) c0 st s =
      Some ((ESP_OK, ctx), st1, s1)" using verify_public_ok [OF v] by blast
  have n: "unat (ac_valid_placeholders ctx) = length phs"
    using assms(15) unfolding ctx_def by (simp only: auth_context.simps unat_of_nat) simp
  have u: "take (ac_unique_id_len ctx) (ac_unique_id ctx) = uid" using assms(14) by (simp add: ctx_def poke_def)
  have k: "ac_keys ctx = keys" by (simp add: ctx_def)
  note fits = response_fits [where ts = ts and ?st1.0 = st1, OF assms(1-7) v assms(20), unfolded u k n]
  then obtain cs nonce2 ct2 st2 s2 where p: "nts_ntp_auth_protect_response api P (\<lambda>j. Some (ts j)) ctx packet 48 1280 48 st1 s1 =
      Some ((ESP_OK, poke packet 48 (ext_bytes (NTS_EF_UNIQUE_IDENTIFIER, uid) @
        ext_bytes (NTS_EF_AUTHENTICATOR, be16 16 @ be16 (of_nat (length ct2)) @ nonce2 @ ct2)),
        response_len (length uid) (length phs)), st2, s2)"
    "length cs = 1 + length phs" "\<forall>c \<in> set cs. length c = 128 \<and> fresh_cookie P keys c"
    "siv_seal P (nk_s2c_key keys) (take 48 packet @ ext_bytes (NTS_EF_UNIQUE_IDENTIFIER, uid)) nonce2
      (ext_flat (cookie_fields cs)) = Some ct2"
    by blast
  have o: "siv_open P (nk_s2c_key keys) (take 48 packet @ ext_bytes (NTS_EF_UNIQUE_IDENTIFIER, uid)) nonce2 ct2 =
      Some (ext_flat (cookie_fields cs))"
    by (rule siv.open_seal [OF assms(2,10) p(4)])
  show ?thesis unfolding len using v1 p(1-3) o by blast
qed

subsection \<open>Properties\<close>

lemma auth_toy:
  "\<exists>packet ctx s1. (\<forall>c0 st. \<exists>st1. nts_ntp_auth_verify_request toy_nvs psa_toy (Some \<lparr>ct_seconds = 2000, ct_fraction = 0\<rparr>)
     (Some \<lparr>ct_seconds = 2000, ct_fraction = 0\<rparr>) packet c0 st (toy_storage (Some toy_ring)) = Some ((ESP_OK, ctx), st1, s1)) \<and>
   ring_stored toy_nvs s1 toy_ring"
proof -
  let ?t = "Some \<lparr>ct_seconds = 2000, ct_fraction = 0\<rparr>"
  obtain cookie keys s2 where u: "nts_cookie_unpack toy_nvs psa_toy ?t ?t cookie (toy_storage (Some toy_ring)) = Some (Inr keys, s2)"
    "ring_stored toy_nvs s2 toy_ring" "length (nk_c2s_key keys) = 32"
    using cookie_toy_unpack by blast
  let ?phs = "[replicate 128 0]" and ?uid = "replicate 32 7" and ?hdr = "replicate 48 0"
  obtain ct where ct: "siv_seal psa_toy (nk_c2s_key keys) (client_ad ?hdr ?uid cookie ?phs) (replicate 16 5) [] = Some ct"
    using siv.seal_total [OF psa_toy_healthy u(3)] by blast
  have "length ct = 16" using siv_seal_length [OF psa_toy_healthy ct] by simp
  moreover have "length cookie = 128" using unpack_ring [OF u(1)] by blast
  ultimately have "length (client_request ?hdr ?uid cookie ?phs (replicate 16 5) ct) = response_len 32 1"
    using length_client_request [of ?hdr cookie ?phs "replicate 16 5" ct ?uid] by simp
  then have "length (client_request ?hdr ?uid cookie ?phs (replicate 16 5) ct) \<le> 1280" by (simp add: response_len_def)
  note v = verify_client [OF psa_toy_healthy u(1,3) _ _ _ _ _ _ _ ct this]
  then have "verify_request_impl toy_nvs psa_toy ?t ?t (client_request ?hdr ?uid cookie ?phs (replicate 16 5) ct) c0
      (toy_storage (Some toy_ring)) = Some ((ESP_OK, \<lparr> ac_unique_id = poke (replicate 256 0) 0 ?uid, ac_unique_id_len = 32,
      ac_valid_placeholders = 1,
      ac_request_length = length (client_request ?hdr ?uid cookie ?phs (replicate 16 5) ct), ac_keys = keys,
      ac_authenticated = True \<rparr>), s2)" for c0
    by simp
  from verify_public_ok [OF this] show ?thesis using u(2) by blast
qed

text \<open>
  C12: Only genuine requests verify. If verification succeeds over healthy crypto and an orderly
  stored ring, the packet is a 48-octet header, fields \<open>fs1\<close>, an authenticator and trailing
  fields; among \<open>fs1\<close> are a unique identifier and a cookie; the cookie is sealed under a valid
  master key of the ring and carries the keys handed to the response; and the authenticator
  seals the empty plaintext under the client's key over every octet before it. The request is
  one the server recognises as NTS.
\<close>
theorem nts_verify_authentic:
  assumes "nvs_lawful api" and "psa_healthy P"
    and "nts_ntp_auth_verify_request api P now1 (Some t) packet c0 st s = Some ((ESP_OK, ctx), st1, s1)"
    and "\<forall>r. ring_stored api s1 r \<longrightarrow> ring_ok r"
  shows "\<exists>fs1 fs2 uid cookie nonce ct pad r k.
    packet = take 48 packet @ ext_flat fs1 @
      ext_bytes (NTS_EF_AUTHENTICATOR, be16 16 @ be16 16 @ nonce @ ct @ pad) @ ext_flat fs2 \<and>
    (NTS_EF_UNIQUE_IDENTIFIER, uid) \<in> set fs1 \<and> (NTS_EF_COOKIE, cookie) \<in> set fs1 \<and>
    ring_stored api s1 r \<and> k \<in> set (slots r) \<and> mk_valid k \<noteq> 0 \<and> take 4 cookie = be32 (mk_key_id k) \<and>
    siv_seal P (mk_key k) (take 4 cookie) (bslice cookie 4 16) (cookie_plaintext (mk_key_id k) (ac_keys ctx))
      = Some (drop 20 cookie) \<and>
    length nonce = 16 \<and>
    siv_seal P (nk_c2s_key (ac_keys ctx)) (take 48 packet @ ext_flat fs1) nonce [] = Some ct \<and>
    nts_ntp_auth_request_present packet = Some True"
proof -
  note v = verify_public [OF assms(3)]
  have ok: "\<forall>r. maintained_ring api now1 s = Some (Inr r, s1) \<longrightarrow> ring_ok r"
    using maintained_ring_stored [OF assms(1)] assms(4) by blast
  obtain fs1 fs2 uid cookie nonce ct pad where g: "packet = take 48 packet @ ext_flat fs1 @
      ext_bytes (NTS_EF_AUTHENTICATOR, be16 16 @ be16 16 @ nonce @ ct @ pad) @ ext_flat fs2"
    "(NTS_EF_UNIQUE_IDENTIFIER, uid) \<in> set fs1" "(NTS_EF_COOKIE, cookie) \<in> set fs1" "length nonce = 16"
    "nts_cookie_unpack api P now1 (Some t) cookie s = Some (Inr (ac_keys ctx), s1)"
    "siv_seal P (nk_c2s_key (ac_keys ctx)) (take 48 packet @ ext_flat fs1) nonce [] = Some ct"
    using verify_genuine [OF assms(2) v ok] by blast
  obtain r where m: "maintained_ring api now1 s = Some (Inr r, s1)" using unpack_ring [OF g(5)] by blast
  show ?thesis
    using g unpack_genuine [OF assms(2) m _ g(5)] ok m maintained_ring_stored [OF assms(1) m]
      verified_is_recognised [OF v] by blast
qed

theorem nts_verify_authentic_witness:
  "\<exists>packet (ctx :: auth_context) cookie (k :: cookie_key). take 4 cookie = be32 (mk_key_id k) \<and>
     siv_seal psa_toy (mk_key k) (take 4 cookie) (bslice cookie 4 16) (cookie_plaintext (mk_key_id k) (ac_keys ctx))
      = Some (drop 20 cookie) \<and> nts_ntp_auth_request_present packet = Some True"
proof -
  obtain packet ctx st1 s1 where v: "nts_ntp_auth_verify_request toy_nvs psa_toy (Some \<lparr>ct_seconds = 2000, ct_fraction = 0\<rparr>)
     (Some \<lparr>ct_seconds = 2000, ct_fraction = 0\<rparr>) packet undefined undefined (toy_storage (Some toy_ring)) =
       Some ((ESP_OK, ctx), st1, s1)"
    "ring_stored toy_nvs s1 toy_ring" using auth_toy by blast
  have ok: "\<forall>r. ring_stored toy_nvs s1 r \<longrightarrow> ring_ok r" using v(2) toy_ring_ok by (simp add: ring_stored_def)
  show ?thesis using nts_verify_authentic [OF toy_nvs_lawful psa_toy_healthy v(1) ok] by blast
qed

text \<open>
  Every verified request can be answered, in no more octets than it has. Over healthy storage
  and crypto and an orderly ring, with a clock that does not run backwards, protecting the
  48-octet answer to a request that verified succeeds (the anti-amplification check never
  refuses), with one fresh cookie and one more for each placeholder, all sealed under the
  server's key over the header and the repeated identifier.
\<close>
theorem nts_response_fits:
  assumes "nvs_healthy api" and "psa_healthy P" and "ring_stored api s r" and "ring_ok r"
    and "uint (mk_not_before_ntp (slot_active r)) \<le> uint (ct_seconds t0)"
    and "uint (ct_seconds t0) \<le> uint (ct_seconds (ts 0))"
    and "\<forall>j. uint (ct_seconds (ts j)) \<le> uint (ct_seconds (ts (Suc j)))"
    and "nts_ntp_auth_verify_request api P (Some t0) (Some t) request c0 st s = Some ((ESP_OK, ctx), st1, s1)"
    and "length packet = 1280"
  shows "\<exists>uid cs nonce ct len st2 s2.
    nts_ntp_auth_protect_response api P (\<lambda>j. Some (ts j)) ctx packet 48 1280 48 st1 s1 =
      Some ((ESP_OK, poke packet 48 (ext_bytes (NTS_EF_UNIQUE_IDENTIFIER, uid) @
        ext_bytes (NTS_EF_AUTHENTICATOR, be16 16 @ be16 (of_nat (length ct)) @ nonce @ ct)), len), st2, s2) \<and>
    uid = take (ac_unique_id_len ctx) (ac_unique_id ctx) \<and>
    len = response_len (length uid) (unat (ac_valid_placeholders ctx)) \<and> len \<le> length request \<and>
    length cs = 1 + unat (ac_valid_placeholders ctx) \<and>
    (\<forall>c \<in> set cs. length c = 128 \<and> fresh_cookie P (ac_keys ctx) c) \<and> length nonce = 16 \<and>
    siv_seal P (nk_s2c_key (ac_keys ctx)) (take 48 packet @ ext_bytes (NTS_EF_UNIQUE_IDENTIFIER, uid)) nonce
      (ext_flat (cookie_fields cs)) = Some ct"
  by (rule response_fits [where ts = ts, OF assms(1-7) verify_public [OF assms(8)] assms(9)])

theorem nts_response_fits_witness:
  "\<exists>request (ctx :: auth_context) packet' len st1 st2 s1 s2.
     nts_ntp_auth_protect_response toy_nvs psa_toy (\<lambda>j. Some \<lparr>ct_seconds = 2000, ct_fraction = 0\<rparr>) ctx
       (replicate 1280 0) 48 1280 48 st1 s1 = Some ((ESP_OK, packet', len), st2, s2) \<and> len \<le> length (request :: bytes)"
proof -
  let ?t = "\<lparr>ct_seconds = 2000, ct_fraction = 0\<rparr>"
  have toy: "uint (mk_not_before_ntp (slot_active toy_ring)) \<le> uint (ct_seconds ?t)" by (simp add: toy_ring_def)
  have ts: "uint (ct_seconds ?t) \<le> uint (ct_seconds ?t)" "\<forall>j :: nat. uint (ct_seconds ?t) \<le> uint (ct_seconds ?t)"
    "length (replicate 1280 (0 :: u8)) = 1280"
    by simp_all
  obtain request ctx st1 s1 where v: "nts_ntp_auth_verify_request toy_nvs psa_toy (Some ?t) (Some ?t) request undefined
      undefined (toy_storage (Some toy_ring)) = Some ((ESP_OK, ctx), st1, s1)" using auth_toy by blast
  show ?thesis
    using nts_response_fits [where ts = "\<lambda>_. ?t", OF toy_nvs_healthy psa_toy_healthy toy_ring_stored toy_ring_ok toy
        ts(1,2) v ts(3)] by blast
qed

text \<open>
  A client that holds a cookie gets its answer. A request built around a cookie that opens, with
  an identifier of 32 to 256 octets, at most seven placeholders of the cookie's length and an
  authenticator sealed with the client's key over all of it, verifies with the keys of the
  cookie; the answer has exactly the length of the request, and opening its authenticator with
  the server's key yields the cookies, one more than there were placeholders.
\<close>
theorem nts_exchange:
  assumes "nvs_healthy api" and "psa_healthy P" and "ring_stored api s r" and "ring_ok r"
    and "uint (mk_not_before_ntp (slot_active r)) \<le> uint (ct_seconds t0)"
    and "uint (ct_seconds t0) \<le> uint (ct_seconds (ts 0))"
    and "\<forall>j. uint (ct_seconds (ts j)) \<le> uint (ct_seconds (ts (Suc j)))"
    and "nts_cookie_unpack api P (Some t0) (Some t) cookie s = Some (Inr keys, s1)"
    and "length (nk_c2s_key keys) = 32" and "length (nk_s2c_key keys) = 32"
    and "length hdr = 48" and "length uid mod 4 = 0" and "32 \<le> length uid" and "length uid \<le> 256"
    and "length phs \<le> 7" and "\<forall>ph \<in> set phs. length ph = 128" and "length nonce = 16"
    and "siv_seal P (nk_c2s_key keys) (client_ad hdr uid cookie phs) nonce [] = Some ct"
    and "response_len (length uid) (length phs) \<le> 1280" and "length packet = 1280"
  shows "\<exists>ctx st1. nts_ntp_auth_verify_request api P (Some t0) (Some t) (client_request hdr uid cookie phs nonce ct) c0 st s =
      Some ((ESP_OK, ctx), st1, s1) \<and>
    (\<exists>cs nonce2 ct2 st2 s2. nts_ntp_auth_protect_response api P (\<lambda>j. Some (ts j)) ctx packet 48 1280 48 st1 s1 =
      Some ((ESP_OK, poke packet 48 (ext_bytes (NTS_EF_UNIQUE_IDENTIFIER, uid) @
        ext_bytes (NTS_EF_AUTHENTICATOR, be16 16 @ be16 (of_nat (length ct2)) @ nonce2 @ ct2)),
        length (client_request hdr uid cookie phs nonce ct)), st2, s2) \<and>
      length cs = 1 + length phs \<and> (\<forall>c \<in> set cs. length c = 128 \<and> fresh_cookie P keys c) \<and>
      siv_open P (nk_s2c_key keys) (take 48 packet @ ext_bytes (NTS_EF_UNIQUE_IDENTIFIER, uid)) nonce2 ct2 =
        Some (ext_flat (cookie_fields cs)))"
  by (rule exchange_ok [OF assms])

theorem nts_exchange_witness:
  "\<exists>cookie (keys :: cookie_keys) ct ctx st1 s1 cs nonce2 ct2 packet' st2 s2.
     nts_ntp_auth_verify_request toy_nvs psa_toy (Some \<lparr>ct_seconds = 2000, ct_fraction = 0\<rparr>)
       (Some \<lparr>ct_seconds = 2000, ct_fraction = 0\<rparr>)
       (client_request (replicate 48 0) (replicate 32 7) cookie [replicate 128 0] (replicate 16 5) ct) undefined undefined
       (toy_storage (Some toy_ring)) = Some ((ESP_OK, ctx), st1, s1) \<and>
     nts_ntp_auth_protect_response toy_nvs psa_toy (\<lambda>j. Some \<lparr>ct_seconds = 2000, ct_fraction = 0\<rparr>) ctx
       (replicate 1280 0) 48 1280 48 st1 s1 = Some ((ESP_OK, packet', 388), st2, s2) \<and>
     siv_open psa_toy (nk_s2c_key keys)
       (take 48 (replicate 1280 0) @ ext_bytes (NTS_EF_UNIQUE_IDENTIFIER, replicate 32 7)) nonce2 ct2 =
       Some (ext_flat (cookie_fields cs)) \<and> length cs = 2"
proof -
  let ?t = "\<lparr>ct_seconds = 2000, ct_fraction = 0\<rparr>"
  let ?phs = "[replicate 128 0 :: bytes]" and ?uid = "replicate 32 7 :: bytes" and ?hdr = "replicate 48 0 :: bytes"
    and ?n = "replicate 16 5 :: bytes"
  have toy: "uint (mk_not_before_ntp (slot_active toy_ring)) \<le> uint (ct_seconds ?t)" by (simp add: toy_ring_def)
  obtain cookie keys s1 where u: "nts_cookie_unpack toy_nvs psa_toy (Some ?t) (Some ?t) cookie (toy_storage (Some toy_ring)) =
      Some (Inr keys, s1)" "length (nk_c2s_key keys) = 32" "length (nk_s2c_key keys) = 32"
    using cookie_toy_unpack by blast
  obtain ct where ct: "siv_seal psa_toy (nk_c2s_key keys) (client_ad ?hdr ?uid cookie ?phs) ?n [] = Some ct"
    using siv.seal_total [OF psa_toy_healthy u(2)] by blast
  have "length ct = 16" using siv_seal_length [OF psa_toy_healthy ct] by simp
  moreover have "length cookie = 128" using unpack_ring [OF u(1)] by blast
  ultimately have len: "length (client_request ?hdr ?uid cookie ?phs ?n ct) = 388"
    using length_client_request [of ?hdr cookie ?phs ?n ct ?uid] by (simp add: response_len_def)
  have side: "uint (ct_seconds ?t) \<le> uint (ct_seconds ?t)" "\<forall>j :: nat. uint (ct_seconds ?t) \<le> uint (ct_seconds ?t)"
    "length ?hdr = 48" "length ?uid mod 4 = 0" "32 \<le> length ?uid" "length ?uid \<le> 256" "length ?phs \<le> 7"
    "\<forall>ph \<in> set ?phs. length ph = 128" "length ?n = 16" "response_len (length ?uid) (length ?phs) \<le> 1280"
    "length (replicate 1280 (0 :: u8)) = 1280" "1 + length ?phs = 2"
    by (simp_all add: response_len_def)
  show ?thesis
    using nts_exchange [where ts = "\<lambda>_. ?t" and ?c0.0 = undefined and st = undefined,
        OF toy_nvs_healthy psa_toy_healthy toy_ring_stored toy_ring_ok toy side(1,2) u side(3-9) ct side(10,11)]
    unfolding len side(12) by blast
qed

text \<open>
  C13: No packet makes the code read or write out of bounds, and every operation returns. Looking for
  NTS fields and verifying end with a result for every packet, every stored ring, every driver
  answer; protecting a response ends for every context whose identifier fits its buffer, leaves
  the buffer its size, and on success stays within the capacity and the length of the request.
\<close>
theorem nts_auth_memory_safe:
  assumes "ac_unique_id_len ctx \<le> length (ac_unique_id ctx)" and "capacity \<le> length buf"
  shows "nts_ntp_auth_request_present packet \<noteq> None \<and>
    nts_ntp_auth_verify_request api P now1 now2 packet c0 st s \<noteq> None \<and>
    (\<exists>err buf' len' st' s'. nts_ntp_auth_protect_response api P nows ctx buf base capacity len st s =
      Some ((err, buf', len'), st', s') \<and> length buf' = length buf \<and>
      (err = ESP_OK \<longrightarrow> len' \<le> capacity \<and> len' \<le> ac_request_length ctx))"
proof (intro conjI)
  show "nts_ntp_auth_request_present packet \<noteq> None"
    using request_scan_returns [of 48 packet] by (auto simp: nts_ntp_auth_request_present_def auth_lens)
  show "nts_ntp_auth_verify_request api P now1 now2 packet c0 st s \<noteq> None"
    using verify_returns [of api P now1 now2 packet c0 s]
    by (auto simp: nts_ntp_auth_verify_request_def Let_def split: option.splits)
  show "\<exists>err buf' len' st' s'. nts_ntp_auth_protect_response api P nows ctx buf base capacity len st s =
      Some ((err, buf', len'), st', s') \<and> length buf' = length buf \<and>
      (err = ESP_OK \<longrightarrow> len' \<le> capacity \<and> len' \<le> ac_request_length ctx)"
    using protect_returns [OF assms, of api P nows base len s] by (auto simp: nts_ntp_auth_protect_response_def)
qed

theorem nts_auth_memory_safe_witness:
  "\<exists>err buf' len' st' s'. nts_ntp_auth_protect_response toy_nvs psa_toy (\<lambda>_. None) (nts_ntp_auth_clear_context undefined)
     (replicate 1280 1) 48 1280 48 undefined (toy_storage None) = Some ((err, buf', len'), st', s') \<and> length buf' = 1280"
proof -
  have side: "ac_unique_id_len (nts_ntp_auth_clear_context undefined) \<le> length (ac_unique_id (nts_ntp_auth_clear_context undefined))"
    "1280 \<le> length (replicate 1280 (1 :: u8))" by (simp_all add: nts_ntp_auth_clear_context_def)
  show ?thesis
    using nts_auth_memory_safe [OF side, of "[]" toy_nvs psa_toy None None undefined undefined "toy_storage None" "\<lambda>_. None" 48 48]
    unfolding length_replicate by blast
qed

text \<open>
  C14: The walk over a packet refines a grammar. From any offset of any packet, the checked reads,
  length tests and branches of the loop accept with exactly the result of folding the per-field
  rules over a list of extension fields, well formed and making up the rest of the packet; and
  they accept whenever there is such a list.
\<close>
theorem nts_walk_refines_grammar:
  assumes "off \<le> length packet"
  shows "parse_fields packet off st = Some (Inr st') \<longleftrightarrow>
    (\<exists>fs. list_all ext_wf fs \<and> drop off packet = ext_flat fs \<and> note_all off fs st = Inr st')"
proof
  assume "parse_fields packet off st = Some (Inr st')"
  then show "\<exists>fs. list_all ext_wf fs \<and> drop off packet = ext_flat fs \<and> note_all off fs st = Inr st'"
    using parse_fields_sound [OF assms, of st] by auto
next
  assume "\<exists>fs. list_all ext_wf fs \<and> drop off packet = ext_flat fs \<and> note_all off fs st = Inr st'"
  then obtain fs where "list_all ext_wf fs" "drop off packet = ext_flat fs" "note_all off fs st = Inr st'" by blast
  then show "parse_fields packet off st = Some (Inr st')"
    using parse_fields_grammar [of fs "take off packet" st] assms append_take_drop_id [of off packet] by simp
qed

theorem nts_walk_refines_grammar_witness:
  "parse_fields (replicate 48 0 @ ext_bytes (NTS_EF_COOKIE, [1, 2, 3, 4])) 48 no_fields =
     Some (Inr (no_fields\<lparr>af_cookie := Some [1, 2, 3, 4]\<rparr>))"
proof -
  let ?p = "replicate 48 0 @ ext_bytes (NTS_EF_COOKIE, [1, 2, 3, 4])"
  have "note_all 48 [(NTS_EF_COOKIE, [1, 2, 3, 4])] no_fields = Inr (no_fields\<lparr>af_cookie := Some [1, 2, 3, 4]\<rparr>)"
    by (simp add: note_field_def no_fields_def ef_types auth_lens)
  moreover have "list_all ext_wf [(NTS_EF_COOKIE, [1, 2, 3, 4])]" by (simp add: ext_wf_def)
  moreover have "drop 48 ?p = ext_flat [(NTS_EF_COOKIE, [1, 2, 3, 4])]" by simp
  moreover have "48 \<le> length ?p" by simp
  ultimately show ?thesis using nts_walk_refines_grammar [of 48 ?p no_fields] by blast
qed

end
