(* ===== verification/Nts_Ke.thy ===== *)
theory Nts_Ke
  imports Nts_Cookie
begin

text \<open>
  \<open>src/main/nts_ke.c\<close>: NTS key establishment over TLS. The request is read record by record until
  its end-of-message record, parsed, and answered with the negotiated protocol and algorithm and
  eight cookies for the keys exported from the TLS session, or with an error record.

  mbedTLS is a parameter: the record \<open>tls\<close> says what each of its calls on a session answers. The
  outer \<open>option\<close> is \<open>None\<close> for an access out of bounds, and for a loop over the session that never
  ends because mbedTLS answers WANT_READ or WANT_WRITE for ever.
\<close>

definition NTS_KE_REQUEST_MAX :: nat where "NTS_KE_REQUEST_MAX = 2048"
definition NTS_KE_RESPONSE_MAX :: nat where "NTS_KE_RESPONSE_MAX = 4096"
definition NTS_KE_COOKIE_COUNT :: nat where "NTS_KE_COOKIE_COUNT = 8"
definition NTS_KE_COOKIE_LIFETIME_SECONDS :: u64 where "NTS_KE_COOKIE_LIFETIME_SECONDS = 86400"
definition NTS_KE_CRITICAL_BIT :: u16 where "NTS_KE_CRITICAL_BIT = 0x8000"
definition NTS_KE_RECORD_END_OF_MESSAGE :: u16 where "NTS_KE_RECORD_END_OF_MESSAGE = 0"
definition NTS_KE_RECORD_NEXT_PROTOCOL :: u16 where "NTS_KE_RECORD_NEXT_PROTOCOL = 1"
definition NTS_KE_RECORD_ERROR :: u16 where "NTS_KE_RECORD_ERROR = 2"
definition NTS_KE_RECORD_WARNING :: u16 where "NTS_KE_RECORD_WARNING = 3"
definition NTS_KE_RECORD_AEAD_ALGORITHM :: u16 where "NTS_KE_RECORD_AEAD_ALGORITHM = 4"
definition NTS_KE_RECORD_NEW_COOKIE :: u16 where "NTS_KE_RECORD_NEW_COOKIE = 5"
definition NTS_KE_RECORD_NTP_SERVER :: u16 where "NTS_KE_RECORD_NTP_SERVER = 6"
definition NTS_KE_RECORD_NTP_PORT :: u16 where "NTS_KE_RECORD_NTP_PORT = 7"
definition NTS_KE_PROTOCOL_NTPV4 :: u16 where "NTS_KE_PROTOCOL_NTPV4 = 0"
definition NTS_KE_AEAD_AES_SIV_CMAC_256 :: u16 where "NTS_KE_AEAD_AES_SIV_CMAC_256 = 0x000F"
definition NTS_KE_ERROR_UNRECOGNIZED_CRITICAL :: u16 where "NTS_KE_ERROR_UNRECOGNIZED_CRITICAL = 0"
definition NTS_KE_ERROR_BAD_REQUEST :: u16 where "NTS_KE_ERROR_BAD_REQUEST = 1"
definition NTS_KE_ERROR_INTERNAL_SERVER :: u16 where "NTS_KE_ERROR_INTERNAL_SERVER = 2"

lemmas ke_types = NTS_KE_RECORD_END_OF_MESSAGE_def NTS_KE_RECORD_NEXT_PROTOCOL_def NTS_KE_RECORD_ERROR_def
  NTS_KE_RECORD_WARNING_def NTS_KE_RECORD_AEAD_ALGORITHM_def NTS_KE_RECORD_NEW_COOKIE_def
  NTS_KE_RECORD_NTP_SERVER_def NTS_KE_RECORD_NTP_PORT_def

lemmas ke_consts = NTS_KE_REQUEST_MAX_def NTS_KE_RESPONSE_MAX_def NTS_KE_COOKIE_COUNT_def
  NTS_KE_CRITICAL_BIT_def NTS_KE_PROTOCOL_NTPV4_def NTS_KE_AEAD_AES_SIV_CMAC_256_def

definition NTS_EXPORTER_LABEL :: string where "NTS_EXPORTER_LABEL = ''EXPORTER-network-time-security''"
definition NTS_C2S_CONTEXT :: bytes where "NTS_C2S_CONTEXT = [0, 0, 0, 0x0F, 0]"
definition NTS_S2C_CONTEXT :: bytes where "NTS_S2C_CONTEXT = [0, 0, 0, 0x0F, 1]"

record ke_request_state =
  rs_next_protocol_seen :: bool
  rs_aead_seen :: bool
  rs_end_seen :: bool
  rs_ntpv4_offered :: bool
  rs_aes_siv_offered :: bool
  rs_protocol_error :: u16

definition empty_request_state :: ke_request_state where
  "empty_request_state = \<lparr> rs_next_protocol_seen = False, rs_aead_seen = False, rs_end_seen = False,
     rs_ntpv4_offered = False, rs_aes_siv_offered = False, rs_protocol_error = 0 \<rparr>"

record ke_stats =
  ks_running :: bool
  ks_tls_handshake_failures :: u32
  ks_alpn_rejections :: u32
  ks_exchanges_completed :: u32
  ks_exchange_failures :: u32

subsection \<open>Records\<close>

definition append_record ::
    "bytes \<Rightarrow> nat \<Rightarrow> nat \<Rightarrow> u16 \<Rightarrow> bool \<Rightarrow> bytes \<Rightarrow> (esp_err \<times> bytes \<times> nat) option" where
  "append_record buffer buffer_size used type critical body =
    (if 65535 < length body then Some (ESP_ERR_INVALID_ARG, buffer, used)
     else if buffer_size < used \<or> buffer_size - used < length body + 4
     then Some (ESP_ERR_INVALID_SIZE, buffer, used)
     else
       let wire_type = type AND 0x7FFF;
           wire_type = (if critical then wire_type OR NTS_KE_CRITICAL_BIT else wire_type) in
       Option.bind (wr buffer used (be16 wire_type)) (\<lambda>b1.
       Option.bind (wr b1 (used + 2) (be16 (of_nat (length body)))) (\<lambda>b2.
         if 0 < length body
         then Option.bind (wr b2 (used + 4) body) (\<lambda>b3. Some (ESP_OK, b3, used + 4 + length body))
         else Some (ESP_OK, b2, used + 4))))"

function list_scan :: "bytes \<Rightarrow> nat \<Rightarrow> u16 \<Rightarrow> bool option" where
  "list_scan body offset wanted =
    (if \<not> offset < length body then Some False
     else case rd16 body offset of
       None \<Rightarrow> None
     | Some v \<Rightarrow> if v = wanted then Some True else list_scan body (offset + 2) wanted)"
  by pat_completeness auto
termination by (relation "measure (\<lambda>(body, offset, wanted). length body - offset)") auto

definition list_contains_u16 :: "bytes \<Rightarrow> u16 \<Rightarrow> bool option" where
  "list_contains_u16 body wanted =
    (if length body = 0 \<or> length body mod 2 \<noteq> 0 then Some False else list_scan body 0 wanted)"

subsection \<open>Parsing a request\<close>

definition protocol_fault :: "u16 \<Rightarrow> esp_err \<Rightarrow> ke_request_state \<Rightarrow> esp_err \<times> ke_request_state" where
  "protocol_fault code err st = (err, st\<lparr>rs_protocol_error := code\<rparr>)"

abbreviation bad_request :: "ke_request_state \<Rightarrow> esp_err \<times> ke_request_state" where
  "bad_request \<equiv> protocol_fault NTS_KE_ERROR_BAD_REQUEST ESP_ERR_INVALID_RESPONSE"

text \<open>The switch over one record; \<open>at_end\<close> says that its body ends the request.\<close>

definition ke_record ::
    "bool \<Rightarrow> u16 \<Rightarrow> bytes \<Rightarrow> bool \<Rightarrow> ke_request_state \<Rightarrow> (esp_err \<times> ke_request_state) option" where
  "ke_record critical type body at_end st =
    (if type = NTS_KE_RECORD_END_OF_MESSAGE then
       (if \<not> critical \<or> length body \<noteq> 0 \<or> rs_end_seen st then Some (bad_request st)
        else let st' = st\<lparr>rs_end_seen := True\<rparr> in
          if \<not> at_end then Some (bad_request st') else Some (ESP_OK, st'))
     else if type = NTS_KE_RECORD_NEXT_PROTOCOL then
       (if \<not> critical \<or> rs_next_protocol_seen st \<or> length body = 0 \<or> length body mod 2 \<noteq> 0
        then Some (bad_request st)
        else map_option (\<lambda>found. (ESP_OK, st\<lparr>rs_next_protocol_seen := True, rs_ntpv4_offered := found\<rparr>))
          (list_contains_u16 body NTS_KE_PROTOCOL_NTPV4))
     else if type = NTS_KE_RECORD_AEAD_ALGORITHM then
       (if rs_aead_seen st \<or> length body = 0 \<or> length body mod 2 \<noteq> 0 then Some (bad_request st)
        else map_option (\<lambda>found. (ESP_OK, st\<lparr>rs_aead_seen := True, rs_aes_siv_offered := found\<rparr>))
          (list_contains_u16 body NTS_KE_AEAD_AES_SIV_CMAC_256))
     else if type = NTS_KE_RECORD_ERROR \<or> type = NTS_KE_RECORD_WARNING then Some (bad_request st)
     else if type = NTS_KE_RECORD_NTP_SERVER then
       (if length body = 0 then Some (bad_request st) else Some (ESP_OK, st))
     else if type = NTS_KE_RECORD_NTP_PORT then
       (if length body \<noteq> 2 then Some (bad_request st) else Some (ESP_OK, st))
     else if critical
       then Some (protocol_fault NTS_KE_ERROR_UNRECOGNIZED_CRITICAL ESP_ERR_NOT_SUPPORTED st)
     else Some (ESP_OK, st))"

definition parse_verdict :: "ke_request_state \<Rightarrow> esp_err \<times> ke_request_state" where
  "parse_verdict st =
    (if \<not> rs_end_seen st \<or> \<not> rs_next_protocol_seen st \<or> \<not> rs_ntpv4_offered st \<or> \<not> rs_aead_seen st \<or>
        \<not> rs_aes_siv_offered st
     then bad_request st else (ESP_OK, st))"

function parse_records :: "bytes \<Rightarrow> nat \<Rightarrow> ke_request_state \<Rightarrow> (esp_err \<times> ke_request_state) option" where
  "parse_records request offset st =
    (if \<not> offset + 4 \<le> length request then Some (parse_verdict st)
     else case (rd16 request offset, rd16 request (offset + 2)) of
       (Some wire_type, Some body_len) \<Rightarrow>
         let critical = wire_type AND NTS_KE_CRITICAL_BIT \<noteq> 0; type = wire_type AND 0x7FFF;
             offset1 = offset + 4 in
         if length request - offset1 < unat body_len then Some (bad_request st)
         else (case rd_slice request offset1 (unat body_len) of
             None \<Rightarrow> None
           | Some body \<Rightarrow>
               (case ke_record critical type body (offset1 + unat body_len = length request) st of
                  None \<Rightarrow> None
                | Some (err, st') \<Rightarrow>
                    if err \<noteq> ESP_OK then Some (err, st')
                    else if rs_end_seen st' then Some (parse_verdict st')
                    else parse_records request (offset1 + unat body_len) st'))
     | _ \<Rightarrow> None)"
  by pat_completeness auto
termination by (relation "measure (\<lambda>(request, offset, st). length request - offset)") auto

definition parse_request :: "bytes \<Rightarrow> (esp_err \<times> ke_request_state) option" where
  "parse_request request = parse_records request 0 empty_request_state"

subsection \<open>Composing a response\<close>

definition build_error_response :: "u16 \<Rightarrow> bytes \<Rightarrow> nat \<Rightarrow> (esp_err \<times> bytes \<times> nat) option" where
  "build_error_response error_code response response_size =
    (case append_record response response_size 0 NTS_KE_RECORD_ERROR True (be16 error_code) of
       None \<Rightarrow> None
     | Some (err, response1, response_len) \<Rightarrow>
         if err \<noteq> ESP_OK then Some (err, response1, response_len)
         else append_record response1 response_size response_len NTS_KE_RECORD_END_OF_MESSAGE True [])"

record tls =
  ssl_setup_ret :: int
  ssl_handshake :: "nat \<Rightarrow> int"
  ssl_alpn :: "string option"
  ssl_export :: "string \<Rightarrow> bytes \<Rightarrow> int \<times> bytes"
  ssl_read :: "nat \<Rightarrow> nat \<Rightarrow> int \<times> bytes"
  ssl_write :: "nat \<Rightarrow> bytes \<Rightarrow> int"
  ssl_close_notify :: "nat \<Rightarrow> int"
  ssl_want :: "int \<Rightarrow> bool"
  ssl_peer_closed :: "int \<Rightarrow> bool"

definition export_traffic_keys :: "tls \<Rightarrow> esp_err \<times> cookie_keys" where
  "export_traffic_keys ssl =
    (let (ret, c2s) = ssl_export ssl NTS_EXPORTER_LABEL NTS_C2S_CONTEXT in
     if ret \<noteq> 0 then (ESP_FAIL, zero_keys)
     else
       let (ret, s2c) = ssl_export ssl NTS_EXPORTER_LABEL NTS_S2C_CONTEXT in
       if ret \<noteq> 0 then (ESP_FAIL, zero_keys)
       else (ESP_OK, zero_keys\<lparr>nk_c2s_key := c2s, nk_s2c_key := s2c\<rparr>))"

text \<open>The cookie loop: \<open>n\<close> to go, \<open>i\<close> done; \<open>nows i\<close> is the clock of the \<open>i\<close>-th.\<close>

fun append_cookie_records ::
    "'n nvs_api \<Rightarrow> psa \<Rightarrow> (nat \<Rightarrow> clock_ntp_timestamp option) \<Rightarrow> cookie_keys \<Rightarrow> nat \<Rightarrow> nat \<Rightarrow> bytes \<Rightarrow> nat \<Rightarrow> nat \<Rightarrow>
     'n storage \<Rightarrow> ((esp_err \<times> bytes \<times> nat) \<times> 'n storage) option" where
  "append_cookie_records api P nows keys i 0 response response_size response_len s =
     Some ((ESP_OK, response, response_len), s)"
| "append_cookie_records api P nows keys i (Suc n) response response_size response_len s =
    (case nts_cookie_create api P (nows i) keys (replicate NTS_COOKIE_MAX_LEN 0) NTS_COOKIE_MAX_LEN s of
       None \<Rightarrow> None
     | Some ((err, cookie_len, cookie), s1) \<Rightarrow>
         if err \<noteq> ESP_OK then Some ((err, response, response_len), s1)
         else
           Option.bind (rd_slice cookie 0 cookie_len) (\<lambda>body.
             case append_record response response_size response_len NTS_KE_RECORD_NEW_COOKIE False body of
               None \<Rightarrow> None
             | Some (err, response1, response_len1) \<Rightarrow>
                 if err \<noteq> ESP_OK then Some ((err, response1, response_len1), s1)
                 else append_cookie_records api P nows keys (i + 1) n response1 response_size response_len1 s1))"

definition build_success_response ::
    "'n nvs_api \<Rightarrow> psa \<Rightarrow> tls \<Rightarrow> clock_ntp_timestamp option \<Rightarrow> clock_ntp_timestamp option \<Rightarrow>
     (nat \<Rightarrow> clock_ntp_timestamp option) \<Rightarrow> bytes \<Rightarrow> nat \<Rightarrow> 'n storage \<Rightarrow>
     ((esp_err \<times> bytes \<times> nat) \<times> 'n storage) option" where
  "build_success_response api P ssl now1 now2 nows response response_size s =
    (let (err, keys) = export_traffic_keys ssl in
     if err \<noteq> ESP_OK then Some ((err, response, 0), s)
     else case nts_cookie_generate_keys api now1 now2 NTS_KE_COOKIE_LIFETIME_SECONDS s of
       None \<Rightarrow> None
     | Some (Inl err, s1) \<Rightarrow> Some ((err, response, 0), s1)
     | Some (Inr metadata, s1) \<Rightarrow>
         let keys1 = keys\<lparr>nk_master_key_id := nk_master_key_id metadata,
               nk_issued_ntp_seconds := nk_issued_ntp_seconds metadata,
               nk_expires_ntp_seconds := nk_expires_ntp_seconds metadata\<rparr> in
         (case append_record response response_size 0 NTS_KE_RECORD_NEXT_PROTOCOL True [0, 0] of
            None \<Rightarrow> None
          | Some (err, r1, l1) \<Rightarrow>
              if err \<noteq> ESP_OK then Some ((err, r1, l1), s1)
              else
                (case append_record r1 response_size l1 NTS_KE_RECORD_AEAD_ALGORITHM False [0, 0x0F] of
                   None \<Rightarrow> None
                 | Some (err, r2, l2) \<Rightarrow>
                     if err \<noteq> ESP_OK then Some ((err, r2, l2), s1)
                     else
                       (case append_cookie_records api P nows keys1 0 NTS_KE_COOKIE_COUNT r2 response_size l2 s1 of
                          None \<Rightarrow> None
                        | Some ((err, r3, l3), s2) \<Rightarrow>
                            if err \<noteq> ESP_OK then Some ((err, r3, l3), s2)
                            else map_option (\<lambda>r. (r, s2))
                              (append_record r3 response_size l3 NTS_KE_RECORD_END_OF_MESSAGE True [])))))"

subsection \<open>The session\<close>

text \<open>
  The calls on the session are numbered: \<open>ssl_read ssl i room\<close> is the return value of the \<open>i\<close>-th
  read with \<open>room\<close> octets of buffer, and the octets it stores; \<open>ssl_write ssl i data\<close> the return
  value of the \<open>i\<close>-th write. \<open>tls_write_all\<close> also returns the octets mbedTLS took.
\<close>

partial_function (option) tls_write_all :: "tls \<Rightarrow> nat \<Rightarrow> bytes \<Rightarrow> nat \<Rightarrow> (esp_err \<times> bytes) option" where
  "tls_write_all ssl i data sent =
    (if \<not> sent < length data then Some (ESP_OK, take sent data)
     else
       let ret = ssl_write ssl i (drop sent data) in
       if 0 < ret then tls_write_all ssl (i + 1) data (sent + nat ret)
       else if ssl_want ssl ret then tls_write_all ssl (i + 1) data sent
       else Some (ESP_FAIL, take sent data))"

text \<open>The scan for the end-of-message record after each read: found at the end, found earlier, or not yet.\<close>

datatype scan_result = Scan_end | Scan_trailing | Scan_more

function scan_request :: "bytes \<Rightarrow> nat \<Rightarrow> scan_result option" where
  "scan_request request offset =
    (if \<not> offset + 4 \<le> length request then Some Scan_more
     else case (rd16 request offset, rd16 request (offset + 2)) of
       (Some wire_type, Some body_len) \<Rightarrow>
         if length request - offset - 4 < unat body_len then Some Scan_more
         else
           let offset1 = offset + (4 + unat body_len) in
           if wire_type AND 0x7FFF = NTS_KE_RECORD_END_OF_MESSAGE
           then (if offset1 \<noteq> length request then Some Scan_trailing else Some Scan_end)
           else scan_request request offset1
     | _ \<Rightarrow> None)"
  by pat_completeness auto
termination by (relation "measure (\<lambda>(request, offset). length request - offset)") auto

text \<open>The request buffer is the list of its octets, its unread part included; the result carries the length read.\<close>

partial_function (option) tls_read_loop :: "tls \<Rightarrow> nat \<Rightarrow> bytes \<Rightarrow> nat \<Rightarrow> (esp_err \<times> bytes \<times> nat) option" where
  "tls_read_loop ssl i request request_len =
    (if \<not> request_len < length request then Some (ESP_ERR_INVALID_SIZE, request, request_len)
     else
       let (ret, data) = ssl_read ssl i (length request - request_len) in
       if 0 < ret then
         Option.bind (wr request request_len data) (\<lambda>request1.
         let request_len1 = request_len + nat ret in
         Option.bind (rd_slice request1 0 request_len1) (\<lambda>received.
         Option.bind (scan_request received 0) (\<lambda>r.
           case r of
             Scan_end \<Rightarrow> Some (ESP_OK, request1, request_len1)
           | Scan_trailing \<Rightarrow> Some (ESP_ERR_INVALID_RESPONSE, request1, request_len1)
           | Scan_more \<Rightarrow> tls_read_loop ssl (i + 1) request1 request_len1)))
       else if ssl_want ssl ret then tls_read_loop ssl (i + 1) request request_len
       else if ret = 0 \<or> ssl_peer_closed ssl ret then Some (ESP_ERR_INVALID_RESPONSE, request, request_len)
       else Some (ESP_FAIL, request, request_len))"

definition tls_read_request :: "tls \<Rightarrow> bytes \<Rightarrow> (esp_err \<times> bytes \<times> nat) option" where
  "tls_read_request ssl request = tls_read_loop ssl 0 request 0"

partial_function (option) close_tls_session :: "tls \<Rightarrow> nat \<Rightarrow> unit option" where
  "close_tls_session ssl i =
    (if ssl_want ssl (ssl_close_notify ssl i) then close_tls_session ssl (i + 1) else Some ())"

partial_function (option) handshake_loop :: "tls \<Rightarrow> nat \<Rightarrow> bool option" where
  "handshake_loop ssl i =
    (let ret = ssl_handshake ssl i in
     if ret = 0 then Some True
     else if ssl_want ssl ret then handshake_loop ssl (i + 1)
     else Some False)"

text \<open>The answer to what was read: the response buffer and its length (zero: nothing to send).\<close>

definition ke_answer ::
    "'n nvs_api \<Rightarrow> psa \<Rightarrow> tls \<Rightarrow> clock_ntp_timestamp option \<Rightarrow> clock_ntp_timestamp option \<Rightarrow>
     (nat \<Rightarrow> clock_ntp_timestamp option) \<Rightarrow> esp_err \<Rightarrow> bytes \<Rightarrow> 'n storage \<Rightarrow>
     ((bytes \<times> nat) \<times> 'n storage) option" where
  "ke_answer api P ssl now1 now2 nows err request s =
    (let response = replicate NTS_KE_RESPONSE_MAX 0 in
     if err = ESP_OK then
       (case parse_request request of
          None \<Rightarrow> None
        | Some (err, st) \<Rightarrow>
            if err = ESP_OK then
              (case build_success_response api P ssl now1 now2 nows response NTS_KE_RESPONSE_MAX s of
                 None \<Rightarrow> None
               | Some ((err, response1, response_len), s1) \<Rightarrow>
                   if err \<noteq> ESP_OK
                   then map_option (\<lambda>(_, r). (r, s1))
                     (build_error_response NTS_KE_ERROR_INTERNAL_SERVER response1 NTS_KE_RESPONSE_MAX)
                   else Some ((response1, response_len), s1))
            else
              let protocol_error =
                (if rs_protocol_error st \<le> NTS_KE_ERROR_INTERNAL_SERVER then rs_protocol_error st
                 else NTS_KE_ERROR_BAD_REQUEST) in
              map_option (\<lambda>(_, r). (r, s)) (build_error_response protocol_error response NTS_KE_RESPONSE_MAX))
     else map_option (\<lambda>(_, r). (r, s)) (build_error_response NTS_KE_ERROR_BAD_REQUEST response NTS_KE_RESPONSE_MAX))"

text \<open>One connection: the octets sent to the client, the statistics and the store.\<close>

definition handle_client ::
    "'n nvs_api \<Rightarrow> psa \<Rightarrow> tls \<Rightarrow> clock_ntp_timestamp option \<Rightarrow> clock_ntp_timestamp option \<Rightarrow>
     (nat \<Rightarrow> clock_ntp_timestamp option) \<Rightarrow> bytes \<Rightarrow> ke_stats \<Rightarrow> 'n storage \<Rightarrow>
     (bytes \<times> ke_stats \<times> 'n storage) option" where
  "handle_client api P ssl now1 now2 nows request st s =
    (if ssl_setup_ret ssl \<noteq> 0 then Some ([], st, s)
     else Option.bind (handshake_loop ssl 0) (\<lambda>shaken.
       if \<not> shaken
       then Some ([], st\<lparr>ks_tls_handshake_failures := ks_tls_handshake_failures st + 1\<rparr>, s)
       else if ssl_alpn ssl \<noteq> Some ''ntske/1''
       then Option.bind (close_tls_session ssl 0) (\<lambda>_.
         Some ([], st\<lparr>ks_alpn_rejections := ks_alpn_rejections st + 1\<rparr>, s))
       else
         Option.bind (tls_read_request ssl request) (\<lambda>(err, request1, request_len).
         Option.bind (rd_slice request1 0 request_len) (\<lambda>received.
         Option.bind (ke_answer api P ssl now1 now2 nows err received s) (\<lambda>((response, response_len), s1).
           if 0 < response_len then
             Option.bind (rd_slice response 0 response_len) (\<lambda>data.
             Option.bind (tls_write_all ssl 0 data 0) (\<lambda>(write_err, sent).
             Option.bind (close_tls_session ssl 0) (\<lambda>_.
               Some (sent,
                 (if write_err = ESP_OK then st\<lparr>ks_exchanges_completed := ks_exchanges_completed st + 1\<rparr>
                  else st\<lparr>ks_exchange_failures := ks_exchange_failures st + 1\<rparr>), s1))))
           else
             Option.bind (close_tls_session ssl 0) (\<lambda>_.
               Some ([], st\<lparr>ks_exchange_failures := ks_exchange_failures st + 1\<rparr>, s1)))))))"

subsection \<open>The service\<close>

text \<open>The answers of the credential store, mbedTLS and the socket while the task starts.\<close>

record ke_setup =
  su_credentials :: esp_err
  su_crt_parse :: int
  su_pk_parse :: int
  su_config_defaults :: int
  su_conf_alpn :: int
  su_conf_own_cert :: int
  su_net_bind :: int

definition configure_tls :: "ke_setup \<Rightarrow> esp_err" where
  "configure_tls u =
    (if su_credentials u \<noteq> ESP_OK then su_credentials u
     else if su_crt_parse u < 0 then ESP_FAIL
     else if su_pk_parse u \<noteq> 0 then ESP_FAIL
     else if su_config_defaults u \<noteq> 0 then ESP_FAIL
     else if su_conf_alpn u \<noteq> 0 then ESP_FAIL
     else if su_conf_own_cert u \<noteq> 0 then ESP_FAIL
     else ESP_OK)"

text \<open>\<open>s_task\<close> and \<open>s_running\<close>.\<close>

record ke_service =
  sk_task :: bool
  sk_running :: bool

definition nts_ke_start :: "bool \<Rightarrow> ke_service \<Rightarrow> esp_err \<times> ke_service" where
  "nts_ke_start created v =
    (if sk_task v \<or> sk_running v then (ESP_OK, v)
     else if \<not> created then (ESP_ERR_NO_MEM, v\<lparr>sk_task := False\<rparr>)
     else (ESP_OK, v\<lparr>sk_task := True\<rparr>))"

definition nts_ke_is_running :: "ke_service \<Rightarrow> bool" where
  "nts_ke_is_running v = sk_running v"

text \<open>The task until it accepts connections or exits.\<close>

definition nts_ke_task_start ::
    "'n nvs_api \<Rightarrow> clock_ntp_timestamp option \<Rightarrow> ke_setup \<Rightarrow> ke_service \<Rightarrow> 'n storage \<Rightarrow> ke_service \<times> 'n storage" where
  "nts_ke_task_start api now u v s =
    (let (err, s1) = nts_storage_ensure_cookie_keyring api now s in
     if err \<noteq> ESP_OK \<or> configure_tls u \<noteq> ESP_OK \<or> su_net_bind u \<noteq> 0
     then (v\<lparr>sk_running := False, sk_task := False\<rparr>, s1)
     else (v\<lparr>sk_running := True\<rparr>, s1))"

text \<open>The accept loop over the connections that arrive; the octets sent on each one.\<close>

record ke_connection =
  kc_accept :: int
  kc_ssl :: tls
  kc_now1 :: "clock_ntp_timestamp option"
  kc_now2 :: "clock_ntp_timestamp option"
  kc_nows :: "nat \<Rightarrow> clock_ntp_timestamp option"
  kc_request :: bytes

fun nts_ke_task ::
    "'n nvs_api \<Rightarrow> psa \<Rightarrow> ke_connection list \<Rightarrow> ke_stats \<Rightarrow> 'n storage \<Rightarrow> (bytes list \<times> ke_stats \<times> 'n storage) option" where
  "nts_ke_task api P [] st s = Some ([], st, s)"
| "nts_ke_task api P (c # cs) st s =
    (if kc_accept c \<noteq> 0 then nts_ke_task api P cs st s
     else
       Option.bind (handle_client api P (kc_ssl c) (kc_now1 c) (kc_now2 c) (kc_nows c) (kc_request c) st s)
         (\<lambda>(sent, st1, s1). map_option (\<lambda>(sents, r). (sent # sents, r)) (nts_ke_task api P cs st1 s1)))"

definition nts_ke_get_stats :: "ke_service \<Rightarrow> ke_stats \<Rightarrow> ke_stats" where
  "nts_ke_get_stats v st = st\<lparr>ks_running := sk_running v\<rparr>"

declare list_scan.simps [simp del] parse_records.simps [simp del] scan_request.simps [simp del]

end
