(* ===== verification/Nts_Ke_Theory.thy ===== *)
theory Nts_Ke_Theory
  imports Nts_Ke
begin

text \<open>
  What \<open>Nts_Ke\<close> guarantees: the parser accepts exactly the requests that an abstract predicate on
  lists of records describes; a request is read whole however TLS cuts it up; and a good request
  is answered with the negotiated parameters and eight cookies that open to the exported keys.
\<close>

subsection \<open>Records on the wire\<close>

datatype ke_rec = Rec (rec_critical: bool) (rec_type: u16) (rec_body: bytes)

definition wire_type :: "bool \<Rightarrow> u16 \<Rightarrow> u16" where
  "wire_type c t = (if c then t OR 0x8000 else t)"

definition rec_wf :: "ke_rec \<Rightarrow> bool" where
  "rec_wf r \<longleftrightarrow> rec_type r AND 0x7FFF = rec_type r \<and> length (rec_body r) \<le> 65535"

definition rec_bytes :: "ke_rec \<Rightarrow> bytes" where
  "rec_bytes r = be16 (wire_type (rec_critical r) (rec_type r)) @ be16 (of_nat (length (rec_body r))) @ rec_body r"

abbreviation rec_flat :: "ke_rec list \<Rightarrow> bytes" where
  "rec_flat rs \<equiv> concat (map rec_bytes rs)"

abbreviation end_rec :: ke_rec where
  "end_rec \<equiv> Rec True NTS_KE_RECORD_END_OF_MESSAGE []"

lemma length_rec_bytes [simp, length_simps]: "length (rec_bytes r) = 4 + length (rec_body r)"
  by (simp add: rec_bytes_def)

lemma rec_flat_nonempty: "rec_bytes r \<noteq> []"
  by (simp add: rec_bytes_def be16_def)

lemma bit_7FFF: "bit (0x7FFF :: int) n \<longleftrightarrow> n < 15" and bit_8000: "bit (0x8000 :: int) n \<longleftrightarrow> n = 15"
proof -
  have "(0x7FFF :: int) = mask 15" "(0x8000 :: int) = 2 ^ 15" by (simp_all add: mask_numeral)
  then show "bit (0x7FFF :: int) n \<longleftrightarrow> n < 15" "bit (0x8000 :: int) n \<longleftrightarrow> n = 15"
    by (simp_all only: bit_mask_iff bit_exp_iff) auto
qed

lemma critical_bit: "w AND 0x8000 \<noteq> 0 \<longleftrightarrow> bit w 15" for w :: u16
proof
  assume "w AND 0x8000 \<noteq> 0"
  then obtain n where "bit (w AND 0x8000) n" by (metis bit_eqI bit_0_eq bot_apply bot_bool_def)
  then show "bit w 15" by (auto simp: bit_and_iff bit_8000)
next
  assume "bit w 15"
  then have "bit (w AND 0x8000) 15" by (simp add: bit_and_iff bit_8000)
  then show "w AND 0x8000 \<noteq> 0" by auto
qed

lemma type_bit: "t AND 0x7FFF = t \<Longrightarrow> \<not> bit t 15" for t :: u16
proof -
  assume t: "t AND 0x7FFF = t"
  have "\<not> bit (t AND 0x7FFF) 15" by (simp add: bit_and_iff bit_7FFF)
  then show ?thesis using t by simp
qed

lemma wire_type_parts:
  assumes "t AND 0x7FFF = t"
  shows "wire_type c t AND 0x7FFF = t" and "wire_type c t AND 0x8000 \<noteq> 0 \<longleftrightarrow> c"
proof -
  show "wire_type c t AND 0x7FFF = t"
  proof (rule bit_word_eqI)
    fix n assume "n < LENGTH(16)"
    have "bit (t AND 0x7FFF) n = bit t n" using assms by simp
    then show "bit (wire_type c t AND 0x7FFF) n = bit t n"
      by (auto simp: wire_type_def bit_and_iff bit_or_iff bit_7FFF bit_8000)
  qed
  show "wire_type c t AND 0x8000 \<noteq> 0 \<longleftrightarrow> c"
    using type_bit [OF assms] by (simp add: critical_bit wire_type_def bit_or_iff bit_8000)
qed

lemma wire_type_split: "wire_type (w AND 0x8000 \<noteq> 0) (w AND 0x7FFF) = w"
proof (rule bit_word_eqI)
  fix n assume "n < LENGTH(16)"
  then have "n < 15 \<or> n = 15" by auto
  then show "bit (wire_type (w AND 0x8000 \<noteq> 0) (w AND 0x7FFF)) n = bit w n"
    by (auto simp: wire_type_def critical_bit bit_and_iff bit_or_iff bit_7FFF bit_8000)
qed

lemma and_7FFF_idem: "(w AND 0x7FFF) AND 0x7FFF = w AND 0x7FFF" for w :: u16
  by (simp add: and.assoc)

lemma rec_at:
  assumes "rec_wf r"
  shows "rd16 (pre @ rec_bytes r @ post) (length pre) = Some (wire_type (rec_critical r) (rec_type r))"
    and "rd16 (pre @ rec_bytes r @ post) (length pre + 2) = Some (of_nat (length (rec_body r)))"
    and "rd_slice (pre @ rec_bytes r @ post) (length pre + 4) (length (rec_body r)) = Some (rec_body r)"
    and "unat (of_nat (length (rec_body r)) :: u16) = length (rec_body r)"
  using assms by (simp_all add: rec_bytes_def bslice_def rd16_def rd_slice_def rec_wf_def unat_of_nat)

text \<open>Any octets with room for a record begin with one.\<close>

lemma rec_cut:
  assumes "off + 4 \<le> length p" "de_be16 (drop off p) = w" "de_be16 (drop (off + 2) p) = l"
    and "off + 4 + unat l \<le> length p"
  shows "rec_wf (Rec (w AND 0x8000 \<noteq> 0) (w AND 0x7FFF) (bslice p (off + 4) (unat l)))"
    and "drop off p = rec_bytes (Rec (w AND 0x8000 \<noteq> 0) (w AND 0x7FFF) (bslice p (off + 4) (unat l))) @
      drop (off + 4 + unat l) p"
proof -
  let ?b = "bslice p (off + 4) (unat l)"
  have lb: "length ?b = unat l" using assms(4) by simp
  have "unat l < 65536" using unsigned_less [of l] by simp
  then show "rec_wf (Rec (w AND 0x8000 \<noteq> 0) (w AND 0x7FFF) ?b)" using lb by (simp add: rec_wf_def and_7FFF_idem)
  have "be16 w = bslice p off 2" "be16 l = bslice p (off + 2) 2"
    using be16_de_be16_drop [of off p] be16_de_be16_drop [of "off + 2" p] assms by simp_all
  moreover have "bslice p off 4 @ ?b = bslice p off (4 + unat l)" using bslice_join [of p off 4 "unat l"] by simp
  moreover have "bslice p off 4 = bslice p off 2 @ bslice p (off + 2) 2" using bslice_join [of p off 2 2] by simp
  ultimately have "rec_bytes (Rec (w AND 0x8000 \<noteq> 0) (w AND 0x7FFF) ?b) = bslice p off (4 + unat l)"
    using lb by (simp add: rec_bytes_def wire_type_split)
  then show "drop off p = rec_bytes (Rec (w AND 0x8000 \<noteq> 0) (w AND 0x7FFF) ?b) @ drop (off + 4 + unat l) p"
    using append_take_drop_id [of "4 + unat l" "drop off p"] by (simp add: bslice_def add.commute add.left_commute)
qed

subsection \<open>Lists of 16-bit values\<close>

fun u16s :: "bytes \<Rightarrow> u16 list" where
  "u16s (a # b # r) = de_be16 [a, b] # u16s r"
| "u16s _ = []"

lemma list_scan_u16s:
  "length rest mod 2 = 0 \<Longrightarrow> list_scan (pre @ rest) (length pre) wanted = Some (wanted \<in> set (u16s rest))"
proof (induction rest arbitrary: pre rule: u16s.induct)
  case (1 a b r)
  have "rd16 (pre @ a # b # r) (length pre) = Some (de_be16 [a, b])"
    by (simp add: rd16_def de_be16_def nth_append)
  moreover have "list_scan (pre @ a # b # r) (length pre + 2) wanted = Some (wanted \<in> set (u16s r))"
    using "1.IH" [of "pre @ [a, b]"] "1.prems" by (simp add: mod2_Suc_Suc)
  ultimately show ?case
    by (subst list_scan.simps) (auto simp: mod2_Suc_Suc)
qed (simp_all add: list_scan.simps)

definition offers :: "bytes \<Rightarrow> u16 \<Rightarrow> bool" where
  "offers body v \<longleftrightarrow> length body mod 2 = 0 \<and> v \<in> set (u16s body)"

lemma list_contains_offers: "list_contains_u16 body v = Some (offers body v)"
  using list_scan_u16s [of body "[]" v] by (auto simp: list_contains_u16_def offers_def)

subsection \<open>The walk over records\<close>

lemma ke_record_returns: "\<exists>err st'. ke_record c t b at_end st = Some (err, st')"
  by (auto simp: ke_record_def Let_def list_contains_offers)

fun ke_run :: "ke_rec list \<Rightarrow> ke_request_state \<Rightarrow> esp_err \<times> ke_request_state" where
  "ke_run [] st = (ESP_OK, st)"
| "ke_run (r # rs) st =
    (let (err, st') = the (ke_record (rec_critical r) (rec_type r) (rec_body r) False st) in
     if err \<noteq> ESP_OK then (err, st') else ke_run rs st')"

text \<open>One step of the parser, at a record.\<close>

lemma parse_records_at:
  assumes "rec_wf r"
  shows "parse_records (pre @ rec_bytes r @ post) (length pre) st =
    (let (err, st') = the (ke_record (rec_critical r) (rec_type r) (rec_body r) (post = []) st) in
     if err \<noteq> ESP_OK then Some (err, st')
     else if rs_end_seen st' then Some (parse_verdict st')
     else parse_records ((pre @ rec_bytes r) @ post) (length (pre @ rec_bytes r)) st')"
proof -
  note at = rec_at(1-3) [OF assms, of pre post] rec_at(4) [OF assms]
  have t: "rec_type r AND 0x7FFF = rec_type r" using assms by (simp add: rec_wf_def)
  obtain err st' where k: "ke_record (rec_critical r) (rec_type r) (rec_body r) (post = []) st = Some (err, st')"
    using ke_record_returns by blast
  have e: "(length pre + 4 + length (rec_body r) = length (pre @ rec_bytes r @ post)) = (post = [])" by simp
  show ?thesis
    unfolding parse_records.simps [of "pre @ rec_bytes r @ post" "length pre" st] at(1,2) option.case prod.case
      ke_consts(4) wire_type_parts [OF t] at(4) Let_def at(3) e k
    by (simp add: add.assoc)
qed

lemma parse_records_short:
  "length p < off + 4 \<Longrightarrow> parse_records p off st = Some (parse_verdict st)"
  by (subst parse_records.simps) simp

text \<open>What a record other than the last one may be.\<close>

definition rec_ok :: "ke_rec \<Rightarrow> bool" where
  "rec_ok r \<longleftrightarrow>
    (rec_type r = NTS_KE_RECORD_NEXT_PROTOCOL \<longrightarrow> rec_critical r \<and> length (rec_body r) \<noteq> 0 \<and> length (rec_body r) mod 2 = 0) \<and>
    (rec_type r = NTS_KE_RECORD_AEAD_ALGORITHM \<longrightarrow> length (rec_body r) \<noteq> 0 \<and> length (rec_body r) mod 2 = 0) \<and>
    rec_type r \<noteq> NTS_KE_RECORD_ERROR \<and> rec_type r \<noteq> NTS_KE_RECORD_WARNING \<and>
    (rec_type r = NTS_KE_RECORD_NTP_SERVER \<longrightarrow> length (rec_body r) \<noteq> 0) \<and>
    (rec_type r = NTS_KE_RECORD_NTP_PORT \<longrightarrow> length (rec_body r) = 2) \<and>
    (rec_type r \<notin> {NTS_KE_RECORD_NEXT_PROTOCOL, NTS_KE_RECORD_AEAD_ALGORITHM, NTS_KE_RECORD_NTP_SERVER,
       NTS_KE_RECORD_NTP_PORT} \<longrightarrow> \<not> rec_critical r)"

text \<open>What a request without its last record must be.\<close>

definition ke_request_ok :: "ke_rec list \<Rightarrow> bool" where
  "ke_request_ok rs \<longleftrightarrow> list_all rec_wf rs \<and> list_all rec_ok rs \<and>
    (\<forall>r \<in> set rs. rec_type r \<noteq> NTS_KE_RECORD_END_OF_MESSAGE) \<and>
    (\<exists>p. filter (\<lambda>r. rec_type r = NTS_KE_RECORD_NEXT_PROTOCOL) rs = [p] \<and> offers (rec_body p) NTS_KE_PROTOCOL_NTPV4) \<and>
    (\<exists>a. filter (\<lambda>r. rec_type r = NTS_KE_RECORD_AEAD_ALGORITHM) rs = [a] \<and>
         offers (rec_body a) NTS_KE_AEAD_AES_SIV_CMAC_256)"

lemma ke_run_ok:
  assumes "\<forall>r \<in> set rs. rec_type r \<noteq> NTS_KE_RECORD_END_OF_MESSAGE" "\<not> rs_end_seen st"
  shows "(\<exists>st'. ke_run rs st = (ESP_OK, st') \<and> rs_next_protocol_seen st' \<and> rs_ntpv4_offered st' \<and>
      rs_aead_seen st' \<and> rs_aes_siv_offered st') \<longleftrightarrow>
    list_all rec_ok rs \<and>
    (if rs_next_protocol_seen st then filter (\<lambda>r. rec_type r = NTS_KE_RECORD_NEXT_PROTOCOL) rs = [] \<and> rs_ntpv4_offered st
     else \<exists>p. filter (\<lambda>r. rec_type r = NTS_KE_RECORD_NEXT_PROTOCOL) rs = [p] \<and> offers (rec_body p) NTS_KE_PROTOCOL_NTPV4) \<and>
    (if rs_aead_seen st then filter (\<lambda>r. rec_type r = NTS_KE_RECORD_AEAD_ALGORITHM) rs = [] \<and> rs_aes_siv_offered st
     else \<exists>a. filter (\<lambda>r. rec_type r = NTS_KE_RECORD_AEAD_ALGORITHM) rs = [a] \<and>
         offers (rec_body a) NTS_KE_AEAD_AES_SIV_CMAC_256)"
  using assms
proof (induction rs arbitrary: st)
  case Nil
  then show ?case by auto
next
  case (Cons r rs)
  let ?k = "the (ke_record (rec_critical r) (rec_type r) (rec_body r) False st)"
  obtain err st1 where k: "?k = (err, st1)" by fastforce
  have ne: "rec_type r \<noteq> NTS_KE_RECORD_END_OF_MESSAGE" "\<forall>r \<in> set rs. rec_type r \<noteq> NTS_KE_RECORD_END_OF_MESSAGE"
    using Cons.prems(1) by simp_all
  show ?case
  proof (cases "err = ESP_OK")
    case False
    have "\<not> rec_ok r \<or> rec_type r = NTS_KE_RECORD_NEXT_PROTOCOL \<and> rs_next_protocol_seen st \<or>
        rec_type r = NTS_KE_RECORD_AEAD_ALGORITHM \<and> rs_aead_seen st"
      using k False ne(1)
      by (auto simp: ke_record_def rec_ok_def protocol_fault_def list_contains_offers ke_types split: if_splits)
    then show ?thesis using False k by (auto simp: ke_types)
  next
    case True
    have s1: "\<not> rs_end_seen st1" "rec_ok r"
      "rec_type r = NTS_KE_RECORD_NEXT_PROTOCOL \<Longrightarrow> \<not> rs_next_protocol_seen st \<and>
         st1 = st\<lparr>rs_next_protocol_seen := True, rs_ntpv4_offered := offers (rec_body r) NTS_KE_PROTOCOL_NTPV4\<rparr>"
      "rec_type r = NTS_KE_RECORD_AEAD_ALGORITHM \<Longrightarrow> \<not> rs_aead_seen st \<and>
         st1 = st\<lparr>rs_aead_seen := True, rs_aes_siv_offered := offers (rec_body r) NTS_KE_AEAD_AES_SIV_CMAC_256\<rparr>"
      "rec_type r \<noteq> NTS_KE_RECORD_NEXT_PROTOCOL \<Longrightarrow> rec_type r \<noteq> NTS_KE_RECORD_AEAD_ALGORITHM \<Longrightarrow> st1 = st"
      using k True ne(1) Cons.prems(2)
      by (auto simp: ke_record_def rec_ok_def protocol_fault_def list_contains_offers ke_types split: if_splits)
    have run: "ke_run (r # rs) st = ke_run rs st1" using k True by simp
    note IH = Cons.IH [OF ne(2) s1(1)]
    show ?thesis
    proof (cases "rec_type r = NTS_KE_RECORD_NEXT_PROTOCOL \<or> rec_type r = NTS_KE_RECORD_AEAD_ALGORITHM")
      case True
      then show ?thesis unfolding run IH using s1 by (auto simp: ke_types)
    next
      case False
      then show ?thesis unfolding run IH using s1 by simp
    qed
  qed
qed

lemma ke_record_end_seen:
  "t \<noteq> NTS_KE_RECORD_END_OF_MESSAGE \<Longrightarrow> ke_record c t b at_end st = Some (err, st') \<Longrightarrow>
   rs_end_seen st' = rs_end_seen st \<and> ke_record c t b True st = ke_record c t b False st"
  by (auto simp: ke_record_def protocol_fault_def list_contains_offers split: if_splits)

lemma ke_record_end:
  "ke_record c NTS_KE_RECORD_END_OF_MESSAGE b at_end st =
    (if \<not> c \<or> b \<noteq> [] \<or> rs_end_seen st then Some (bad_request st)
     else if \<not> at_end then Some (bad_request (st\<lparr>rs_end_seen := True\<rparr>))
     else Some (ESP_OK, st\<lparr>rs_end_seen := True\<rparr>))"
  by (simp add: ke_record_def Let_def)

lemma parse_run:
  assumes "list_all rec_wf rs" "\<forall>r \<in> set rs. rec_type r \<noteq> NTS_KE_RECORD_END_OF_MESSAGE" "\<not> rs_end_seen st"
  shows "parse_records (pre @ rec_flat rs @ rec_bytes end_rec) (length pre) st =
    (let (err, st') = ke_run rs st in
     if err \<noteq> ESP_OK then Some (err, st') else Some (parse_verdict (st'\<lparr>rs_end_seen := True\<rparr>)))"
  using assms
proof (induction rs arbitrary: pre st)
  case Nil
  have "rec_wf end_rec" by (simp add: rec_wf_def ke_types)
  from parse_records_at [OF this, of pre "[]" st] show ?case using Nil.prems(3) by (simp add: ke_record_end)
next
  case (Cons r rs)
  have wf: "rec_wf r" "list_all rec_wf rs" and ty: "rec_type r \<noteq> NTS_KE_RECORD_END_OF_MESSAGE"
    "\<forall>r \<in> set rs. rec_type r \<noteq> NTS_KE_RECORD_END_OF_MESSAGE" using Cons.prems by simp_all
  obtain err st1 where k: "ke_record (rec_critical r) (rec_type r) (rec_body r) False st = Some (err, st1)"
    using ke_record_returns by blast
  have s1: "\<not> rs_end_seen st1" using ke_record_end_seen [OF ty(1) k] Cons.prems(3) by simp
  have post: "rec_flat rs @ rec_bytes end_rec \<noteq> []" by (simp add: rec_flat_nonempty)
  have "parse_records (pre @ rec_bytes r @ rec_flat rs @ rec_bytes end_rec) (length pre) st =
      (if err \<noteq> ESP_OK then Some (err, st1)
       else parse_records ((pre @ rec_bytes r) @ rec_flat rs @ rec_bytes end_rec) (length (pre @ rec_bytes r)) st1)"
    using parse_records_at [OF wf(1), of pre "rec_flat rs @ rec_bytes end_rec" st] k s1 post by (simp add: rec_flat_nonempty)
  then show ?case using Cons.IH [OF wf(2) ty(2) s1, of "pre @ rec_bytes r"] k by (simp add: Let_def)
qed

lemma parse_sound:
  assumes "off \<le> length p" "\<not> rs_end_seen st"
  shows "\<exists>err st'. parse_records p off st = Some (err, st') \<and>
    (err = ESP_OK \<longrightarrow> (\<exists>rs. list_all rec_wf rs \<and> (\<forall>r \<in> set rs. rec_type r \<noteq> NTS_KE_RECORD_END_OF_MESSAGE) \<and>
      drop off p = rec_flat rs @ rec_bytes end_rec))"
  using assms
proof (induction "length p - off" arbitrary: off st rule: less_induct)
  case less
  let ?w = "de_be16 (drop off p)" and ?l = "de_be16 (drop (off + 2) p)"
  let ?r = "Rec (?w AND 0x8000 \<noteq> 0) (?w AND 0x7FFF) (bslice p (off + 4) (unat ?l))"
  show ?case
  proof (cases "length p < off + 4")
    case True
    then show ?thesis using less.prems by (simp add: parse_records_short parse_verdict_def protocol_fault_def)
  next
    case len: False
    show ?thesis
    proof (cases "length p - (off + 4) < unat ?l")
      case True
      then show ?thesis using len
        by (subst parse_records.simps) (simp add: protocol_fault_def)
    next
      case False
      then have fits: "off + 4 \<le> length p" "off + 4 + unat ?l \<le> length p" using len by linarith+
      note cut = rec_cut [OF fits(1) refl refl fits(2)]
      let ?post = "drop (off + 4 + unat ?l) p" and ?pre = "take off p"
      have p: "?pre @ rec_bytes ?r @ ?post = p" "length ?pre = off"
        using cut(2) less.prems(1) append_take_drop_id [of off p] by simp_all
      obtain err st1 where k: "ke_record (rec_critical ?r) (rec_type ?r) (rec_body ?r) (?post = []) st = Some (err, st1)"
        using ke_record_returns by blast
      have lr: "length (?pre @ rec_bytes ?r) = off + 4 + unat ?l" using fits by simp
      have step: "parse_records p off st = (if err \<noteq> ESP_OK then Some (err, st1)
          else if rs_end_seen st1 then Some (parse_verdict st1) else parse_records p (off + 4 + unat ?l) st1)"
        using parse_records_at [OF cut(1), of ?pre ?post st] unfolding append_assoc p lr k option.sel prod.case Let_def .
      show ?thesis
      proof (cases "err = ESP_OK")
        case False
        then show ?thesis using step by simp
      next
        case ok: True
        show ?thesis
        proof (cases "rec_type ?r = NTS_KE_RECORD_END_OF_MESSAGE")
          case True
          then have "rec_critical ?r" "rec_body ?r = []" "?post = []" "rs_end_seen st1"
            using k ok unfolding True ke_record_end by (auto simp: protocol_fault_def split: if_splits)
          then have "drop off p = rec_flat [] @ rec_bytes end_rec" "parse_records p off st = Some (parse_verdict st1)"
            using cut(2) True step ok by (simp_all add: ke_types)
          then show ?thesis by (cases "parse_verdict st1") (auto intro!: exI [of _ "[]"])
        next
          case False
          then have s1: "\<not> rs_end_seen st1" using ke_record_end_seen [OF False k] less.prems(2) by simp
          have "\<exists>e st'. parse_records p (off + 4 + unat ?l) st1 = Some (e, st') \<and>
            (e = ESP_OK \<longrightarrow> (\<exists>rs. list_all rec_wf rs \<and> (\<forall>r \<in> set rs. rec_type r \<noteq> NTS_KE_RECORD_END_OF_MESSAGE) \<and>
              drop (off + 4 + unat ?l) p = rec_flat rs @ rec_bytes end_rec))"
            using fits less.prems(1) s1 len by (intro less.hyps) auto
          then obtain e st' where e: "parse_records p (off + 4 + unat ?l) st1 = Some (e, st')"
            "e = ESP_OK \<Longrightarrow> \<exists>rs. list_all rec_wf rs \<and> (\<forall>r \<in> set rs. rec_type r \<noteq> NTS_KE_RECORD_END_OF_MESSAGE) \<and>
              drop (off + 4 + unat ?l) p = rec_flat rs @ rec_bytes end_rec" by blast
          have all: "parse_records p off st = Some (e, st')" using step ok s1 e(1) by simp
          show ?thesis
          proof (cases "e = ESP_OK")
            case True
            obtain rs where rs: "list_all rec_wf rs" "\<forall>r \<in> set rs. rec_type r \<noteq> NTS_KE_RECORD_END_OF_MESSAGE"
              "drop (off + 4 + unat ?l) p = rec_flat rs @ rec_bytes end_rec" using e(2) [OF True] by blast
            have "list_all rec_wf (?r # rs)" using rs(1) cut(1) by simp
            moreover have "\<forall>r \<in> set (?r # rs). rec_type r \<noteq> NTS_KE_RECORD_END_OF_MESSAGE"
              using rs(2) False by (simp only: list.set ball_simps simp_thms)
            moreover have "drop off p = rec_flat (?r # rs) @ rec_bytes end_rec"
              using cut(2) rs(3) by (simp only: list.map concat.simps append_assoc)
            ultimately show ?thesis using all by blast
          next
            case False
            then show ?thesis using all by simp
          qed
        qed
      qed
    qed
  qed
qed

lemma parse_request_exact:
  "(\<exists>st. parse_request p = Some (ESP_OK, st)) \<longleftrightarrow> (\<exists>rs. ke_request_ok rs \<and> p = rec_flat rs @ rec_bytes end_rec)"
proof
  assume "\<exists>st. parse_request p = Some (ESP_OK, st)"
  then obtain st where st: "parse_records p 0 empty_request_state = Some (ESP_OK, st)" by (auto simp: parse_request_def)
  have e: "\<not> rs_end_seen empty_request_state" by (simp add: empty_request_state_def)
  obtain rs where rs: "list_all rec_wf rs" "\<forall>r \<in> set rs. rec_type r \<noteq> NTS_KE_RECORD_END_OF_MESSAGE"
    "p = rec_flat rs @ rec_bytes end_rec" using parse_sound [of 0 p empty_request_state] st e by auto
  obtain err st1 where run: "ke_run rs empty_request_state = (err, st1)" by fastforce
  have "err = ESP_OK \<and> parse_verdict (st1\<lparr>rs_end_seen := True\<rparr>) = (ESP_OK, st)"
    using parse_run [OF rs(1,2) e, of "[]"] st run rs(3) by (auto split: if_splits)
  then have "rs_next_protocol_seen st1 \<and> rs_ntpv4_offered st1 \<and> rs_aead_seen st1 \<and> rs_aes_siv_offered st1"
    "err = ESP_OK"
    by (auto simp: parse_verdict_def protocol_fault_def split: if_splits)
  then have "ke_request_ok rs"
    using ke_run_ok [OF rs(2) e] run rs(1,2) unfolding ke_request_ok_def by (auto simp: empty_request_state_def)
  then show "\<exists>rs. ke_request_ok rs \<and> p = rec_flat rs @ rec_bytes end_rec" using rs(3) by blast
next
  assume "\<exists>rs. ke_request_ok rs \<and> p = rec_flat rs @ rec_bytes end_rec"
  then obtain rs where rs: "ke_request_ok rs" "p = rec_flat rs @ rec_bytes end_rec" by blast
  have e: "\<not> rs_end_seen empty_request_state" by (simp add: empty_request_state_def)
  have ty: "\<forall>r \<in> set rs. rec_type r \<noteq> NTS_KE_RECORD_END_OF_MESSAGE" and wf: "list_all rec_wf rs"
    using rs(1) by (simp_all add: ke_request_ok_def)
  obtain st1 where run: "ke_run rs empty_request_state = (ESP_OK, st1)"
    "rs_next_protocol_seen st1" "rs_ntpv4_offered st1" "rs_aead_seen st1" "rs_aes_siv_offered st1"
    using ke_run_ok [OF ty e] rs(1) unfolding ke_request_ok_def by (auto simp: empty_request_state_def)
  then show "\<exists>st. parse_request p = Some (ESP_OK, st)"
    using parse_run [OF wf ty e, of "[]"] rs(2) by (simp add: parse_request_def parse_verdict_def)
qed

lemma parse_request_returns: "\<exists>err st. parse_request p = Some (err, st)"
  using parse_sound [of 0 p empty_request_state] by (auto simp: parse_request_def empty_request_state_def)

subsection \<open>Reading a request\<close>

lemma scan_at:
  assumes "rec_wf r"
  shows "scan_request (pre @ rec_bytes r @ post) (length pre) =
    (if rec_type r = NTS_KE_RECORD_END_OF_MESSAGE then Some (if post = [] then Scan_end else Scan_trailing)
     else scan_request ((pre @ rec_bytes r) @ post) (length (pre @ rec_bytes r)))"
proof -
  note at = rec_at(1-2) [OF assms, of pre post] rec_at(4) [OF assms]
  have t: "rec_type r AND 0x7FFF = rec_type r" using assms by (simp add: rec_wf_def)
  show ?thesis
    unfolding scan_request.simps [of "pre @ rec_bytes r @ post" "length pre"] at option.case prod.case
      wire_type_parts [OF t] Let_def
    by (simp add: add.assoc)
qed

lemma scan_cut_record:
  assumes "rec_wf r" "rec_bytes r = a @ b" "b \<noteq> []"
  shows "scan_request (pre @ a) (length pre) = Some Scan_more"
proof (cases "length a < 4")
  case True
  then show ?thesis by (subst scan_request.simps) simp
next
  case False
  have la: "length a + length b = 4 + length (rec_body r)" using arg_cong [OF assms(2), of length] by simp
  have rd: "rd16 (pre @ a) off = rd16 (pre @ rec_bytes r @ []) off" if "off + 2 \<le> length pre + 4" for off
  proof -
    have "drop off (pre @ rec_bytes r @ []) = drop off (pre @ a) @ b" using that False assms(2) by simp
    moreover have "2 \<le> length (drop off (pre @ a))" using that False by simp
    ultimately have "de_be16 (drop off (pre @ rec_bytes r @ [])) = de_be16 (drop off (pre @ a))"
      by (simp only: de_be16_append)
    then show ?thesis using that False la by (simp add: rd16_def)
  qed
  have "rd16 (pre @ a) (length pre) = Some (wire_type (rec_critical r) (rec_type r))"
    "rd16 (pre @ a) (length pre + 2) = Some (of_nat (length (rec_body r)))"
    using rd [of "length pre"] rd [of "length pre + 2"] rec_at(1,2) [OF assms(1), of pre "[]"] by simp_all
  moreover have "length (pre @ a) - length pre - 4 < unat (of_nat (length (rec_body r)) :: u16)"
    using la assms(3) False unfolding rec_at(4) [OF assms(1)] by (cases b) auto
  ultimately show ?thesis using False by (subst scan_request.simps) simp
qed

lemma scan_prefix:
  assumes "list_all rec_wf rs" "\<forall>r \<in> set rs. rec_type r \<noteq> NTS_KE_RECORD_END_OF_MESSAGE"
    and "rec_flat rs @ rec_bytes end_rec = a @ b"
  shows "scan_request (pre @ a) (length pre) = Some (if b = [] then Scan_end else Scan_more)"
  using assms
proof (induction rs arbitrary: pre a)
  case Nil
  have wf: "rec_wf end_rec" by (simp add: rec_wf_def ke_types)
  show ?case
  proof (cases "b = []")
    case True
    then show ?thesis using scan_at [OF wf, of pre "[]"] Nil.prems(3) by simp
  next
    case False
    then show ?thesis using scan_cut_record [OF wf, of a b pre] Nil.prems(3) by simp
  qed
next
  case (Cons r rs)
  have wf: "rec_wf r" "list_all rec_wf rs" and ty: "rec_type r \<noteq> NTS_KE_RECORD_END_OF_MESSAGE"
    "\<forall>r \<in> set rs. rec_type r \<noteq> NTS_KE_RECORD_END_OF_MESSAGE" using Cons.prems by simp_all
  have eq: "rec_bytes r @ (rec_flat rs @ rec_bytes end_rec) = a @ b" using Cons.prems(3) by simp
  then obtain us where us: "rec_bytes r = a @ us \<and> us @ rec_flat rs @ rec_bytes end_rec = b \<or>
      rec_bytes r @ us = a \<and> rec_flat rs @ rec_bytes end_rec = us @ b"
    using append_eq_append_conv2 [of "rec_bytes r" "rec_flat rs @ rec_bytes end_rec" a b] by blast
  then consider (cut) b' where "rec_bytes r = a @ b'" "b' \<noteq> []" "b = b' @ rec_flat rs @ rec_bytes end_rec"
    | (over) a' where "a = rec_bytes r @ a'" "rec_flat rs @ rec_bytes end_rec = a' @ b"
    by (cases "us = []") (use us in force)+
  then show ?case
  proof cases
    case cut
    then show ?thesis using scan_cut_record [OF wf(1) cut(1,2), of pre] by simp
  next
    case over
    then show ?thesis using scan_at [OF wf(1), of pre a'] ty(1) Cons.IH [OF wf(2) ty(2) over(2), of "pre @ rec_bytes r"]
      by simp
  qed
qed

text \<open>
  What the session delivers from call \<open>i\<close> on: \<open>None\<close> is a call that asks to be repeated, \<open>Some d\<close>
  one that stores the octets \<open>d\<close>, if the buffer has room for them.
\<close>

fun delivers :: "tls \<Rightarrow> nat \<Rightarrow> bytes option list \<Rightarrow> bool" where
  "delivers ssl i [] \<longleftrightarrow> True"
| "delivers ssl i (None # ds) \<longleftrightarrow>
     (\<forall>room. fst (ssl_read ssl i room) \<le> 0 \<and> ssl_want ssl (fst (ssl_read ssl i room))) \<and> delivers ssl (i + 1) ds"
| "delivers ssl i (Some d # ds) \<longleftrightarrow>
     d \<noteq> [] \<and> (\<forall>room. length d \<le> room \<longrightarrow> ssl_read ssl i room = (int (length d), d)) \<and> delivers ssl (i + 1) ds"

fun delivered :: "bytes option list \<Rightarrow> bytes" where
  "delivered [] = []"
| "delivered (None # ds) = delivered ds"
| "delivered (Some d # ds) = d @ delivered ds"

lemma tls_read_any_chunks:
  assumes "list_all rec_wf rs" "\<forall>r \<in> set rs. rec_type r \<noteq> NTS_KE_RECORD_END_OF_MESSAGE"
    and "m = rec_flat rs @ rec_bytes end_rec" "length m \<le> length buf"
    and "delivers ssl i ds" "m = a @ delivered ds" "delivered ds \<noteq> []" "take (length a) buf = a"
  shows "\<exists>buf'. tls_read_loop ssl i buf (length a) = Some (ESP_OK, buf', length m) \<and> take (length m) buf' = m \<and>
    length buf' = length buf"
  using assms(4-8)
proof (induction ds arbitrary: i buf a)
  case Nil
  then show ?case by simp
next
  case (Cons d ds)
  let ?room = "length buf - length a"
  have "length a < length m" using Cons.prems(3,4) by simp
  then have la: "length a < length buf" using Cons.prems(1) by simp
  show ?case
  proof (cases d)
    case None
    then have "tls_read_loop ssl i buf (length a) = tls_read_loop ssl (i + 1) buf (length a)"
      using la Cons.prems(2) by (subst tls_read_loop.simps) (simp add: case_prod_beta not_less [symmetric])
    then show ?thesis using Cons.IH [OF Cons.prems(1), of "i + 1" a] Cons.prems(2-5) None by simp
  next
    case (Some c)
    have c: "c \<noteq> []" "m = (a @ c) @ delivered ds" using Cons.prems(2,3) Some by simp_all
    have lc: "length a + length c \<le> length buf" using c(2) Cons.prems(1) by simp
    then have rd: "ssl_read ssl i ?room = (int (length c), c)" using Cons.prems(2) Some by simp
    let ?buf = "poke buf (length a) c"
    have buf: "take (length (a @ c)) ?buf = a @ c" "length ?buf = length buf"
      using lc Cons.prems(5) take_poke_end [of "length a" buf c] by simp_all
    have sc: "scan_request (a @ c) 0 = Some (if delivered ds = [] then Scan_end else Scan_more)"
      using scan_prefix [OF assms(1,2), of "a @ c" "delivered ds" "[]"] assms(3) c(2) by simp
    have step: "tls_read_loop ssl i buf (length a) = (if delivered ds = [] then Some (ESP_OK, ?buf, length (a @ c))
        else tls_read_loop ssl (i + 1) ?buf (length (a @ c)))"
      using la rd lc c(1) sc buf by (subst tls_read_loop.simps) (simp add: bslice_def)
    show ?thesis
    proof (cases "delivered ds = []")
      case True
      then show ?thesis using step c(2) buf by simp
    next
      case False
      then show ?thesis
        using step Cons.IH [of ?buf "i + 1" "a @ c"] Cons.prems(1,2) Some c(2) buf by simp
    qed
  qed
qed

subsection \<open>Composing a response\<close>

lemma append_record_ok:
  assumes "used + 4 + length body \<le> cap" "cap \<le> length buf" "rec_wf (Rec c ty body)"
  shows "append_record buf cap used ty c body =
    Some (ESP_OK, poke buf used (rec_bytes (Rec c ty body)), used + 4 + length body)"
proof -
  let ?w = "be16 (wire_type c ty)" and ?n = "be16 (of_nat (length body)) :: bytes"
  have a: "poke (poke buf used ?w) (used + 2) ?n = poke buf used (?w @ ?n)"
    using poke_next [of used ?w ?n buf] assms by simp
  have b: "poke (poke buf used (?w @ ?n)) (used + 4) body = poke buf used (?w @ ?n @ body)"
    using poke_next [of used "?w @ ?n" body buf] assms by simp
  have t: "ty AND 0x7FFF = ty" "length body \<le> 65535" using assms(3) by (simp_all add: rec_wf_def)
  then have w: "(if c then ty AND 0x7FFF OR NTS_KE_CRITICAL_BIT else ty AND 0x7FFF) = wire_type c ty"
    by (simp add: wire_type_def ke_consts)
  show ?thesis
    using assms t(2) a b
    by (auto simp: append_record_def Let_def w rec_bytes_def simp del: add_2_eq_Suc')
qed

lemma append_record_zeros:
  assumes "4 + length body \<le> n" "length done + n = cap" "rec_wf (Rec c ty body)"
  shows "append_record (done @ replicate n 0) cap (length done) ty c body =
    Some (ESP_OK, (done @ rec_bytes (Rec c ty body)) @ replicate (n - (4 + length body)) 0,
      length (done @ rec_bytes (Rec c ty body)))"
  using append_record_ok [of "length done" body cap "done @ replicate n 0" c ty] assms by simp

lemma append_cookie_records_healthy:
  assumes "nvs_healthy api" "psa_healthy P" "ring_stored api s r" "ring_ok r"
    and "uint (mk_not_before_ntp (slot_active r)) \<le> uint (ct_seconds (ts i))"
    and "length (nk_c2s_key keys) = 32" "length (nk_s2c_key keys) = 32"
    and "\<And>j. uint (ct_seconds (ts j)) \<le> uint (ct_seconds (ts (Suc j)))"
    and "length done + z = cap" "132 * n \<le> z"
  shows "\<exists>cs s1. append_cookie_records api P (\<lambda>j. Some (ts j)) keys i n (done @ replicate z 0) cap (length done) s =
      Some ((ESP_OK, (done @ rec_flat (map (Rec False NTS_KE_RECORD_NEW_COOKIE) cs)) @ replicate (z - 132 * n) 0,
        length (done @ rec_flat (map (Rec False NTS_KE_RECORD_NEW_COOKIE) cs))), s1) \<and>
    length cs = n \<and> (\<forall>c \<in> set cs. length c = 128 \<and> fresh_cookie P keys c) \<and>
    ((\<forall>j. uint (ct_seconds (ts j)) < uint (mk_not_after_ntp (slot_active r))) \<longrightarrow>
       ring_stored api s1 r \<and> (\<forall>c \<in> set cs. fresh_cookie_in r P keys c))"
  using assms(3-5,9,10)
proof (induction n arbitrary: i s r "done" z)
  case 0
  then show ?case by simp
next
  case (Suc n)
  obtain ck tail s1 r1 where c: "nts_cookie_create api P (Some (ts i)) keys (replicate 256 0) 256 s =
      Some ((ESP_OK, 128, ck @ tail), s1)" "length ck = 128" "fresh_cookie P keys ck"
    and r1: "ring_stored api s1 r1" "ring_ok r1" "uint (mk_not_before_ntp (slot_active r1)) \<le> uint (ct_seconds (ts i))"
    and fi: "fresh_cookie_in r1 P keys ck" "uint (ct_seconds (ts i)) < uint (mk_not_after_ntp (slot_active r)) \<longrightarrow> r1 = r"
    using create_fresh [OF assms(1,2) Suc.prems(1-3) assms(6,7)] by (elim exE conjE) (rule that; assumption)
  let ?done = "done @ rec_bytes (Rec False NTS_KE_RECORD_NEW_COOKIE ck)"
  have wf: "rec_wf (Rec False NTS_KE_RECORD_NEW_COOKIE ck)" using c(2) by (simp add: rec_wf_def ke_types)
  have app: "append_record (done @ replicate z 0) cap (length done) NTS_KE_RECORD_NEW_COOKIE False ck =
      Some (ESP_OK, ?done @ replicate (z - 132) 0, length ?done)"
    using append_record_zeros [OF _ Suc.prems(4) wf] Suc.prems(5) c(2) by simp
  have le: "uint (mk_not_before_ntp (slot_active r1)) \<le> uint (ct_seconds (ts (i + 1)))"
    using r1(3) assms(8) [of i] by simp
  have room: "length ?done + (z - 132) = cap" "132 * n \<le> z - 132" using Suc.prems(4,5) c(2) by simp_all
  obtain cs s2 where cs: "append_cookie_records api P (\<lambda>j. Some (ts j)) keys (i + 1) n
      (?done @ replicate (z - 132) 0) cap (length ?done) s1 =
      Some ((ESP_OK, (?done @ rec_flat (map (Rec False NTS_KE_RECORD_NEW_COOKIE) cs)) @ replicate (z - 132 - 132 * n) 0,
        length (?done @ rec_flat (map (Rec False NTS_KE_RECORD_NEW_COOKIE) cs))), s2)"
    "length cs = n" "\<forall>c \<in> set cs. length c = 128 \<and> fresh_cookie P keys c"
    and same: "(\<forall>j. uint (ct_seconds (ts j)) < uint (mk_not_after_ntp (slot_active r1))) \<longrightarrow>
      ring_stored api s2 r1 \<and> (\<forall>c \<in> set cs. fresh_cookie_in r1 P keys c)"
    using Suc.IH [OF r1(1,2) le room] by (elim exE conjE) (rule that; assumption)
  have rd: "rd_slice (ck @ tail) 0 128 = Some ck" using c(2) by (simp add: rd_slice_def bslice_def)
  have "(\<forall>j. uint (ct_seconds (ts j)) < uint (mk_not_after_ntp (slot_active r))) \<longrightarrow>
      ring_stored api s2 r \<and> (\<forall>c \<in> set (ck # cs). fresh_cookie_in r P keys c)"
    using same fi by auto
  then show ?case
    using c app cs rd
    by (intro exI [of _ "ck # cs"] exI [of _ s2]) (simp add: NTS_COOKIE_MAX_LEN_def)
qed

definition response_records :: "bytes list \<Rightarrow> ke_rec list" where
  "response_records cs = [Rec True NTS_KE_RECORD_NEXT_PROTOCOL [0, 0], Rec False NTS_KE_RECORD_AEAD_ALGORITHM [0, 0x0F]] @
     map (Rec False NTS_KE_RECORD_NEW_COOKIE) cs @ [end_rec]"

text \<open>The keys the cookies of a response carry.\<close>

definition session_keys :: "bytes \<Rightarrow> bytes \<Rightarrow> u32 \<Rightarrow> u64 \<Rightarrow> cookie_keys" where
  "session_keys c2s s2c i now_ntp = \<lparr> nk_c2s_key = c2s, nk_s2c_key = s2c, nk_master_key_id = i,
     nk_issued_ntp_seconds = now_ntp, nk_expires_ntp_seconds = now_ntp + 86400 \<rparr>"

lemma expiry_no_wrap: "uint (ucast (x :: u32) + 86400 :: u64) = uint x + 86400"
  using uint_lt2p [of x] by (simp add: uint_word_ariths uint_ucast_widen)

lemma length_cookie_records:
  "\<forall>c \<in> set cs. length c = 128 \<Longrightarrow> length (rec_flat (map (Rec False NTS_KE_RECORD_NEW_COOKIE) cs)) = 132 * length cs"
  by (induction cs) auto

lemma build_success_healthy:
  assumes "nvs_healthy api" "psa_healthy P" "ring_stored api s r" "ring_ok r"
    and "uint (mk_not_before_ntp (slot_active r)) \<le> uint (ct_seconds t1)"
    and "uint (ct_seconds t1) \<le> uint (ct_seconds (ts 0))"
    and "\<And>j. uint (ct_seconds (ts j)) \<le> uint (ct_seconds (ts (Suc j)))"
    and "ssl_export ssl NTS_EXPORTER_LABEL NTS_C2S_CONTEXT = (0, c2s)" "length c2s = 32"
    and "ssl_export ssl NTS_EXPORTER_LABEL NTS_S2C_CONTEXT = (0, s2c)" "length s2c = 32"
  shows "\<exists>cs i s2. build_success_response api P ssl (Some t1) (Some t2) (\<lambda>j. Some (ts j)) (replicate 4096 0) 4096 s =
      Some ((ESP_OK, rec_flat (response_records cs) @ replicate 3024 0, 1072), s2) \<and>
    length (rec_flat (response_records cs)) = 1072 \<and> length cs = 8 \<and>
    (\<forall>c \<in> set cs. length c = 128 \<and> fresh_cookie P (session_keys c2s s2c i (ucast (ct_seconds t2))) c) \<and>
    (uint (ct_seconds t1) < uint (mk_not_after_ntp (slot_active r)) \<and>
       (\<forall>j. uint (ct_seconds (ts j)) < uint (mk_not_after_ntp (slot_active r))) \<longrightarrow>
     ring_stored api s2 r \<and>
     (\<forall>c \<in> set cs. fresh_cookie_in r P (session_keys c2s s2c i (ucast (ct_seconds t2))) c))"
proof -
  obtain r1 s1 where m: "maintained_ring api (Some t1) s = Some (Inr r1, s1)" "ring_stored api s1 r1" "ring_ok r1"
    "uint (mk_not_before_ntp (slot_active r1)) \<le> uint (ct_seconds t1)"
    using maintained_ring_healthy [OF assms(1,3-5)] by blast
  have r1: "uint (ct_seconds t1) < uint (mk_not_after_ntp (slot_active r)) \<longrightarrow> r1 = r"
    using maintained_ring_same [OF assms(1,3,4)] m(1) by fastforce
  obtain meta s2 where g: "nts_cookie_generate_keys api (Some t1) (Some t2) 86400 s = Some (Inr meta, s2)"
    "st_nvs s2 = st_nvs s1" "nk_issued_ntp_seconds meta = ucast (ct_seconds t2)"
    "nk_expires_ntp_seconds meta = ucast (ct_seconds t2) + 86400"
    using generate_healthy [OF m(1,3), of 86400 t2] by auto
  let ?keys = "session_keys c2s s2c (nk_master_key_id meta) (ucast (ct_seconds t2))"
  have st2: "ring_stored api s2 r1" using m(2) g(2) by (simp add: ring_stored_def)
  have le: "uint (mk_not_before_ntp (slot_active r1)) \<le> uint (ct_seconds (ts 0))" using m(4) assms(6) by linarith
  let ?p = "Rec True NTS_KE_RECORD_NEXT_PROTOCOL [0, 0]" and ?a = "Rec False NTS_KE_RECORD_AEAD_ALGORITHM [0, 0x0F]"
  have wf: "rec_wf ?p" "rec_wf ?a" "rec_wf end_rec" by (simp_all add: rec_wf_def ke_types)
  have a1: "append_record (replicate 4096 0) 4096 0 NTS_KE_RECORD_NEXT_PROTOCOL True [0, 0] =
      Some (ESP_OK, rec_bytes ?p @ replicate 4090 0, 6)"
    using append_record_zeros [OF _ _ wf(1), of 4096 "[]" 4096] by simp
  have a2: "append_record (rec_bytes ?p @ replicate 4090 0) 4096 6 NTS_KE_RECORD_AEAD_ALGORITHM False [0, 0x0F] =
      Some (ESP_OK, (rec_bytes ?p @ rec_bytes ?a) @ replicate 4084 0, 12)"
    using append_record_zeros [OF _ _ wf(2), of 4090 "rec_bytes ?p" 4096] by simp
  have lk: "length (nk_c2s_key ?keys) = 32" "length (nk_s2c_key ?keys) = 32"
    using assms(9,11) by (simp_all add: session_keys_def)
  let ?h = "rec_bytes ?p @ rec_bytes ?a"
  have side: "length ?h + 4084 = 4096" "132 * 8 \<le> (4084 :: nat)" by simp_all
  from append_cookie_records_healthy [where ts = ts, OF assms(1,2) st2 m(3) le lk assms(7) side]
  obtain cs s3 where c: "append_cookie_records api P (\<lambda>j. Some (ts j)) ?keys 0 8 (?h @ replicate 4084 0) 4096 12 s2 =
      Some ((ESP_OK, (?h @ rec_flat (map (Rec False NTS_KE_RECORD_NEW_COOKIE) cs)) @ replicate 3028 0,
        length (?h @ rec_flat (map (Rec False NTS_KE_RECORD_NEW_COOKIE) cs))), s3)"
    "length cs = 8" "\<forall>c \<in> set cs. length c = 128 \<and> fresh_cookie P ?keys c"
    and same: "(\<forall>j. uint (ct_seconds (ts j)) < uint (mk_not_after_ntp (slot_active r1))) \<longrightarrow>
      ring_stored api s3 r1 \<and> (\<forall>c \<in> set cs. fresh_cookie_in r1 P ?keys c)"
    by (auto simp del: split_paired_Ex)
  let ?done = "?h @ rec_flat (map (Rec False NTS_KE_RECORD_NEW_COOKIE) cs)"
  have ld: "length ?done = 1068" using length_cookie_records [of cs] c(2,3) by simp
  have a3: "append_record (?done @ replicate 3028 0) 4096 1068 NTS_KE_RECORD_END_OF_MESSAGE True [] =
      Some (ESP_OK, (?done @ rec_bytes end_rec) @ replicate 3024 0, 1072)"
    using append_record_zeros [OF _ _ wf(3), of 3028 ?done 4096] ld by simp
  have flat: "?done @ rec_bytes end_rec = rec_flat (response_records cs)" by (simp add: response_records_def)
  have ex: "export_traffic_keys ssl = (ESP_OK, zero_keys\<lparr>nk_c2s_key := c2s, nk_s2c_key := s2c\<rparr>)"
    by (simp add: export_traffic_keys_def assms(8,10))
  have keys: "zero_keys\<lparr>nk_c2s_key := c2s, nk_s2c_key := s2c, nk_master_key_id := nk_master_key_id meta,
      nk_issued_ntp_seconds := nk_issued_ntp_seconds meta, nk_expires_ntp_seconds := nk_expires_ntp_seconds meta\<rparr> = ?keys"
    by (simp add: zero_keys_def session_keys_def g(3,4))
  have "build_success_response api P ssl (Some t1) (Some t2) (\<lambda>j. Some (ts j)) (replicate 4096 0) 4096 s =
      Some ((ESP_OK, rec_flat (response_records cs) @ replicate 3024 0, 1072), s3)"
    unfolding build_success_response_def ex Let_def prod.case NTS_KE_COOKIE_LIFETIME_SECONDS_def g(1) option.case sum.case keys
      a1 a2 NTS_KE_COOKIE_COUNT_def c(1) ld a3 flat
    by simp
  moreover have "length (rec_flat (response_records cs)) = 1072" using ld by (simp flip: flat)
  moreover have "uint (ct_seconds t1) < uint (mk_not_after_ntp (slot_active r)) \<and>
       (\<forall>j. uint (ct_seconds (ts j)) < uint (mk_not_after_ntp (slot_active r))) \<longrightarrow>
     ring_stored api s3 r \<and> (\<forall>c \<in> set cs. fresh_cookie_in r P ?keys c)"
    using r1 same by blast
  ultimately show ?thesis using c(2,3) by blast
qed

subsection \<open>A connection\<close>

lemma write_all_ok:
  assumes "\<And>i d. d \<noteq> [] \<Longrightarrow> 0 < ssl_write ssl i d \<and> ssl_write ssl i d \<le> int (length d)" "sent \<le> length data"
  shows "tls_write_all ssl i data sent = Some (ESP_OK, data)"
  using assms(2)
proof (induction "length data - sent" arbitrary: i sent rule: less_induct)
  case less
  show ?case
  proof (cases "sent < length data")
    case False
    then show ?thesis using less.prems by (subst tls_write_all.simps) simp
  next
    case True
    let ?ret = "ssl_write ssl i (drop sent data)"
    have ret: "0 < ?ret" "?ret \<le> int (length data - sent)" using assms(1) [of "drop sent data" i] True by auto
    have "tls_write_all ssl i data sent = tls_write_all ssl (i + 1) data (sent + nat ?ret)"
      using True ret(1) by (subst tls_write_all.simps) simp
    also have "\<dots> = Some (ESP_OK, data)"
      using True ret by (intro less.hyps) linarith+
    finally show ?thesis .
  qed
qed

lemma close_returns:
  assumes "\<not> ssl_want ssl (ssl_close_notify ssl n)" "i \<le> n"
  shows "close_tls_session ssl i = Some ()"
  using assms(2)
proof (induction "n - i" arbitrary: i)
  case 0
  then show ?case using assms(1) by (subst close_tls_session.simps) simp
next
  case (Suc k)
  then show ?case by (subst close_tls_session.simps) simp
qed

lemma handshake_returns:
  assumes "ssl_handshake ssl n = 0" "\<forall>j < n. ssl_want ssl (ssl_handshake ssl j)" "i \<le> n"
  shows "handshake_loop ssl i = Some True"
  using assms(3)
proof (induction "n - i" arbitrary: i)
  case 0
  then show ?case using assms(1) by (subst handshake_loop.simps) simp
next
  case (Suc k)
  then show ?case using assms(2) by (subst handshake_loop.simps) (simp add: Let_def)
qed

text \<open>A session that works: it is set up, shakes hands, speaks \<open>ntske/1\<close>, takes what is written, and closes.\<close>

definition session_ok :: "tls \<Rightarrow> bool" where
  "session_ok ssl \<longleftrightarrow> ssl_setup_ret ssl = 0 \<and>
     (\<exists>n. ssl_handshake ssl n = 0 \<and> (\<forall>j < n. ssl_want ssl (ssl_handshake ssl j))) \<and>
     ssl_alpn ssl = Some ''ntske/1'' \<and>
     (\<forall>i d. d \<noteq> [] \<longrightarrow> 0 < ssl_write ssl i d \<and> ssl_write ssl i d \<le> int (length d)) \<and>
     (\<exists>n. \<not> ssl_want ssl (ssl_close_notify ssl n))"

lemma handle_session:
  assumes "session_ok ssl" "tls_read_request ssl request = Some (err, request1, n)" "n \<le> length request1"
    and "ke_answer api P ssl now1 now2 nows err (take n request1) s = Some ((response, k), s1)" "0 < k" "k \<le> length response"
  shows "handle_client api P ssl now1 now2 nows request st s =
    Some (take k response, st\<lparr>ks_exchanges_completed := ks_exchanges_completed st + 1\<rparr>, s1)"
proof -
  obtain nh nc where h: "ssl_handshake ssl nh = 0" "\<forall>j < nh. ssl_want ssl (ssl_handshake ssl j)"
    and c: "\<not> ssl_want ssl (ssl_close_notify ssl nc)"
    using assms(1) by (auto simp: session_ok_def)
  have hs: "handshake_loop ssl 0 = Some True" by (rule handshake_returns [OF h]) simp
  have cl: "close_tls_session ssl 0 = Some ()" by (rule close_returns [OF c]) simp
  have w: "tls_write_all ssl 0 data 0 = Some (ESP_OK, data)" for data
    using assms(1) by (intro write_all_ok) (auto simp: session_ok_def)
  have s: "ssl_setup_ret ssl = 0" "ssl_alpn ssl = Some ''ntske/1''" using assms(1) by (simp_all add: session_ok_def)
  have rd: "rd_slice request1 0 n = Some (take n request1)" "rd_slice response 0 k = Some (take k response)"
    using assms(3,6) by (simp_all add: rd_slice_def bslice_def)
  show ?thesis
    using assms(5) by (simp add: handle_client_def s hs cl w assms(2,4) rd del: checked_in_range)
qed

lemma read_request:
  assumes "list_all rec_wf rs" "\<forall>r \<in> set rs. rec_type r \<noteq> NTS_KE_RECORD_END_OF_MESSAGE"
    and "delivers ssl 0 ds" "delivered ds = rec_flat rs @ rec_bytes end_rec" "length (delivered ds) \<le> length buf"
  shows "\<exists>buf'. tls_read_request ssl buf = Some (ESP_OK, buf', length (delivered ds)) \<and>
    take (length (delivered ds)) buf' = delivered ds \<and> length (delivered ds) \<le> length buf'"
proof -
  have "delivered ds \<noteq> []" using assms(4) by (simp add: rec_flat_nonempty)
  then show ?thesis
    using tls_read_any_chunks [OF assms(1,2) assms(4) assms(5,3), of "[]"] assms(5) by (auto simp: tls_read_request_def)
qed

lemma error_response:
  "build_error_response code (replicate 4096 0) 4096 =
    Some (ESP_OK, rec_flat [Rec True NTS_KE_RECORD_ERROR (be16 code), end_rec] @ replicate 4086 0, 10)"
proof -
  let ?e = "Rec True NTS_KE_RECORD_ERROR (be16 code)"
  have wf: "rec_wf ?e" "rec_wf end_rec" by (simp_all add: rec_wf_def ke_types)
  have "append_record (replicate 4096 0) 4096 0 NTS_KE_RECORD_ERROR True (be16 code) =
      Some (ESP_OK, rec_bytes ?e @ replicate 4090 0, 6)"
    using append_record_zeros [OF _ _ wf(1), of 4096 "[]" 4096] by simp
  moreover have "append_record (rec_bytes ?e @ replicate 4090 0) 4096 6 NTS_KE_RECORD_END_OF_MESSAGE True [] =
      Some (ESP_OK, (rec_bytes ?e @ rec_bytes end_rec) @ replicate 4086 0, 10)"
    using append_record_zeros [OF _ _ wf(2), of 4090 "rec_bytes ?e" 4096] by simp
  ultimately show ?thesis by (simp add: build_error_response_def)
qed

lemma ke_exchange_ring:
  assumes "nvs_healthy api" and "psa_healthy P" and "ring_stored api s r" and "ring_ok r"
    and "uint (mk_not_before_ntp (slot_active r)) \<le> uint (ct_seconds t1)"
    and "uint (ct_seconds t1) \<le> uint (ct_seconds (ts 0))"
    and "\<forall>j. uint (ct_seconds (ts j)) \<le> uint (ct_seconds (ts (Suc j)))"
    and "session_ok ssl"
    and "ssl_export ssl NTS_EXPORTER_LABEL NTS_C2S_CONTEXT = (0, c2s)" and "length c2s = 32"
    and "ssl_export ssl NTS_EXPORTER_LABEL NTS_S2C_CONTEXT = (0, s2c)" and "length s2c = 32"
    and "ke_request_ok rs" and "delivers ssl 0 ds" and "delivered ds = rec_flat rs @ rec_bytes end_rec"
    and "length (delivered ds) \<le> 2048" and "length request = NTS_KE_REQUEST_MAX"
  shows "\<exists>cs i s'. handle_client api P ssl (Some t1) (Some t2) (\<lambda>j. Some (ts j)) request st s =
      Some (rec_flat (response_records cs), st\<lparr>ks_exchanges_completed := ks_exchanges_completed st + 1\<rparr>, s') \<and>
    length (rec_flat (response_records cs)) = 1072 \<and> length cs = 8 \<and>
    (\<forall>c \<in> set cs. length c = 128 \<and> fresh_cookie P (session_keys c2s s2c i (ucast (ct_seconds t2))) c) \<and>
    (uint (ct_seconds t1) < uint (mk_not_after_ntp (slot_active r)) \<and>
       (\<forall>j. uint (ct_seconds (ts j)) < uint (mk_not_after_ntp (slot_active r))) \<longrightarrow>
     ring_stored api s' r \<and>
     (\<forall>c \<in> set cs. fresh_cookie_in r P (session_keys c2s s2c i (ucast (ct_seconds t2))) c))"
proof -
  have wf: "list_all rec_wf rs" "\<forall>r \<in> set rs. rec_type r \<noteq> NTS_KE_RECORD_END_OF_MESSAGE"
    using assms(13) by (simp_all add: ke_request_ok_def)
  obtain buf' where rd: "tls_read_request ssl request = Some (ESP_OK, buf', length (delivered ds))"
    "take (length (delivered ds)) buf' = delivered ds" "length (delivered ds) \<le> length buf'"
    using read_request [OF wf assms(14,15), of request] assms(16,17) by (auto simp: ke_consts)
  obtain st0 where ps: "parse_request (delivered ds) = Some (ESP_OK, st0)"
    using parse_request_exact [of "delivered ds"] assms(13,15) by blast
  obtain cs i s' where b: "build_success_response api P ssl (Some t1) (Some t2) (\<lambda>j. Some (ts j)) (replicate 4096 0) 4096 s =
      Some ((ESP_OK, rec_flat (response_records cs) @ replicate 3024 0, 1072), s')"
    "length (rec_flat (response_records cs)) = 1072" "length cs = 8"
    "\<forall>c \<in> set cs. length c = 128 \<and> fresh_cookie P (session_keys c2s s2c i (ucast (ct_seconds t2))) c"
    "uint (ct_seconds t1) < uint (mk_not_after_ntp (slot_active r)) \<and>
       (\<forall>j. uint (ct_seconds (ts j)) < uint (mk_not_after_ntp (slot_active r))) \<longrightarrow>
     ring_stored api s' r \<and>
     (\<forall>c \<in> set cs. fresh_cookie_in r P (session_keys c2s s2c i (ucast (ct_seconds t2))) c)"
    using build_success_healthy [where ts = ts and ?t2.0 = t2, OF assms(1-6) assms(7) [rule_format] assms(9-12)] by (elim exE conjE) (rule that; assumption)
  have a: "ke_answer api P ssl (Some t1) (Some t2) (\<lambda>j. Some (ts j)) ESP_OK (take (length (delivered ds)) buf') s =
      Some ((rec_flat (response_records cs) @ replicate 3024 0, 1072), s')"
    unfolding rd(2) ke_answer_def Let_def ps ke_consts(2) b(1) by simp
  have "take 1072 (rec_flat (response_records cs) @ replicate 3024 0) = rec_flat (response_records cs)" using b(2) by simp
  then show ?thesis
    using handle_session [OF assms(8) rd(1,3) a, of st] b(2-5) by auto
qed

text \<open>What a read leaves is within its buffer.\<close>

lemma read_loop_bounds:
  assumes ret: "tls_read_loop ssl i request k = Some y"
  shows "k \<le> length request \<longrightarrow> snd (snd y) \<le> length (fst (snd y))"
proof (rule tls_read_loop.raw_induct [where P = "\<lambda>ssl i request k y.
    k \<le> length request \<longrightarrow> snd (snd y) \<le> length (fst (snd y))", OF _ ret], goal_cases)
  case (1 rec ssl i request k y)
  show ?case
  proof (rule impI)
    assume k: "k \<le> length request"
    obtain ret data where r: "ssl_read ssl i (length request - k) = (ret, data)" by (metis surj_pair)
    show "snd (snd y) \<le> length (fst (snd y))"
    proof (cases "k < length request \<and> 0 < ret")
      case False
      then show ?thesis using 1(2) k 1(1) [of ssl "i + 1" request k y] r by (auto split: if_splits)
    next
      case True
      then obtain request1 scan where w: "wr request k data = Some request1" "k + nat ret \<le> length request1"
        and y: "(case scan of Scan_end \<Rightarrow> Some (ESP_OK, request1, k + nat ret)
           | Scan_trailing \<Rightarrow> Some (ESP_ERR_INVALID_RESPONSE, request1, k + nat ret)
           | Scan_more \<Rightarrow> rec ssl (Suc i) request1 (k + nat ret)) = Some y"
        using 1(2) r by (auto simp: Let_def bind_eq_Some_conv rd_slice_Some)
      show ?thesis using y w(2) 1(1) [of ssl "Suc i" request1 "k + nat ret" y] by (cases scan) auto
    qed
  qed
qed

text \<open>A request that is not in order is answered with an error record.\<close>

definition request_delivered :: "esp_err \<Rightarrow> bytes \<Rightarrow> bool" where
  "request_delivered err p \<longleftrightarrow> err = ESP_OK \<and> (\<exists>rs. ke_request_ok rs \<and> p = rec_flat rs @ rec_bytes end_rec)"

definition error_records :: "u16 \<Rightarrow> ke_rec list" where
  "error_records code = [Rec True NTS_KE_RECORD_ERROR (be16 code), end_rec]"

lemma ke_answer_rejects:
  assumes "\<not> request_delivered err p"
  shows "\<exists>code. code \<le> NTS_KE_ERROR_INTERNAL_SERVER \<and> (err \<noteq> ESP_OK \<longrightarrow> code = NTS_KE_ERROR_BAD_REQUEST) \<and>
    ke_answer api P ssl now1 now2 nows err p s = Some ((rec_flat (error_records code) @ replicate 4086 0, 10), s)"
proof (cases "err = ESP_OK")
  case False
  then show ?thesis
    by (intro exI [of _ NTS_KE_ERROR_BAD_REQUEST])
      (simp add: ke_answer_def ke_consts error_response error_records_def NTS_KE_ERROR_BAD_REQUEST_def
        NTS_KE_ERROR_INTERNAL_SERVER_def)
next
  case True
  obtain e st where e: "parse_request p = Some (e, st)" using parse_request_returns by blast
  have "e \<noteq> ESP_OK" using assms True parse_request_exact [of p] e by (auto simp: request_delivered_def)
  then show ?thesis
    by (intro exI [of _ "if rs_protocol_error st \<le> NTS_KE_ERROR_INTERNAL_SERVER then rs_protocol_error st
          else NTS_KE_ERROR_BAD_REQUEST"])
      (simp add: ke_answer_def True e ke_consts error_response error_records_def NTS_KE_ERROR_BAD_REQUEST_def
        NTS_KE_ERROR_INTERNAL_SERVER_def)
qed

subsection \<open>Properties\<close>

definition tls_toy :: "bytes \<Rightarrow> tls" where
  "tls_toy m = \<lparr> ssl_setup_ret = 0, ssl_handshake = (\<lambda>i. if i = 0 then -26880 else 0), ssl_alpn = Some ''ntske/1'',
     ssl_export = (\<lambda>label ctx. (0, replicate 32 (ctx ! 4 + 1))),
     ssl_read = (\<lambda>i room. if i = 0 then (3, take 3 m) else if i = 1 then (-26880, [])
       else (int (length (drop 3 m)), drop 3 m)),
     ssl_write = (\<lambda>i d. 1), ssl_close_notify = (\<lambda>i. 0), ssl_want = (\<lambda>r. r = -26880), ssl_peer_closed = (\<lambda>r. r = -30848) \<rparr>"

lemma tls_toy_ok: "session_ok (tls_toy m)"
  by (auto simp: session_ok_def tls_toy_def neq_Nil_conv intro!: exI [of _ "1 :: nat"])

lemma tls_toy_delivers: "3 < length m \<Longrightarrow> delivers (tls_toy m) 0 [Some (take 3 m), None, Some (drop 3 m)]"
  by (auto simp: tls_toy_def)

lemma tls_toy_keys:
  "ssl_export (tls_toy m) NTS_EXPORTER_LABEL NTS_C2S_CONTEXT = (0, replicate 32 1)"
  "ssl_export (tls_toy m) NTS_EXPORTER_LABEL NTS_S2C_CONTEXT = (0, replicate 32 2)"
  by (simp_all add: tls_toy_def NTS_C2S_CONTEXT_def NTS_S2C_CONTEXT_def)

definition toy_request :: "ke_rec list" where
  "toy_request = [Rec True NTS_KE_RECORD_NEXT_PROTOCOL [0, 0], Rec False NTS_KE_RECORD_AEAD_ALGORITHM [0, 15]]"

lemma toy_request_ok: "ke_request_ok toy_request"
  by (simp add: toy_request_def ke_request_ok_def rec_wf_def rec_ok_def ke_types offers_def ke_consts de_be16_def)

lemma toy_session:
  assumes "m = rec_flat toy_request @ rec_bytes end_rec"
  defines "ds \<equiv> [Some (take 3 m), None, Some (drop 3 m)]"
  shows "delivers (tls_toy m) 0 ds" "delivered ds = rec_flat toy_request @ rec_bytes end_rec" "length (delivered ds) \<le> 2048"
    "length (replicate 2048 (0 :: u8)) = NTS_KE_REQUEST_MAX"
proof -
  have l: "length m = 16" by (simp add: assms(1) toy_request_def)
  have d: "delivered ds = m" unfolding ds_def by (simp only: delivered.simps append_Nil2 append_take_drop_id)
  show "delivers (tls_toy m) 0 ds" unfolding ds_def by (rule tls_toy_delivers) (simp only: l)
  show "delivered ds = rec_flat toy_request @ rec_bytes end_rec" using d assms(1) by simp
  show "length (delivered ds) \<le> 2048" using d l by simp
  show "length (replicate 2048 (0 :: u8)) = NTS_KE_REQUEST_MAX" by (simp add: ke_consts)
qed

text \<open>
  C15: The request parser accepts exactly the well-formed key establishment requests. For every octet
  string, parsing succeeds if and only if the string is a list of records followed by a critical
  empty end-of-message record, where: exactly one next-protocol record, critical, offering
  NTPv4; exactly one AEAD record, offering AES-SIV-CMAC-256; no error or warning records; a
  server record not empty and a port record of two octets; and no other critical record.
\<close>
theorem ke_parser_exact:
  "(\<exists>st. parse_request p = Some (ESP_OK, st)) \<longleftrightarrow> (\<exists>rs. ke_request_ok rs \<and> p = rec_flat rs @ rec_bytes end_rec)"
  by (rule parse_request_exact)

text \<open>
  C16: A key establishment succeeds. On a session that works, however TLS cuts the request into
  reads, a well-formed request of at most 2048 octets is answered, over healthy storage and
  crypto and an orderly ring, with exactly the 1072 octets of: the NTPv4 protocol record, the
  AES-SIV algorithm record, eight cookies and the end record; each cookie is freshly sealed and
  carries the two keys exported from the session, issued now and expiring in a day.
\<close>
theorem ke_exchange:
  assumes "nvs_healthy api" and "psa_healthy P" and "ring_stored api s r" and "ring_ok r"
    and "uint (mk_not_before_ntp (slot_active r)) \<le> uint (ct_seconds t1)"
    and "uint (ct_seconds t1) \<le> uint (ct_seconds (ts 0))"
    and "\<forall>j. uint (ct_seconds (ts j)) \<le> uint (ct_seconds (ts (Suc j)))"
    and "session_ok ssl"
    and "ssl_export ssl NTS_EXPORTER_LABEL NTS_C2S_CONTEXT = (0, c2s)" and "length c2s = 32"
    and "ssl_export ssl NTS_EXPORTER_LABEL NTS_S2C_CONTEXT = (0, s2c)" and "length s2c = 32"
    and "ke_request_ok rs" and "delivers ssl 0 ds" and "delivered ds = rec_flat rs @ rec_bytes end_rec"
    and "length (delivered ds) \<le> 2048" and "length request = NTS_KE_REQUEST_MAX"
  shows "\<exists>cs i s'. handle_client api P ssl (Some t1) (Some t2) (\<lambda>j. Some (ts j)) request st s =
      Some (rec_flat (response_records cs), st\<lparr>ks_exchanges_completed := ks_exchanges_completed st + 1\<rparr>, s') \<and>
    length (rec_flat (response_records cs)) = 1072 \<and> length cs = 8 \<and>
    (\<forall>c \<in> set cs. length c = 128 \<and> fresh_cookie P (session_keys c2s s2c i (ucast (ct_seconds t2))) c)"
  using ke_exchange_ring [where ?t2.0 = t2 and st = st, OF assms] by (elim exE conjE) (intro exI conjI; assumption)

theorem ke_exchange_witness:
  "\<exists>cs i s'. handle_client toy_nvs psa_toy (tls_toy (rec_flat toy_request @ rec_bytes end_rec))
      (Some \<lparr>ct_seconds = 2000, ct_fraction = 0\<rparr>) (Some \<lparr>ct_seconds = 2000, ct_fraction = 0\<rparr>)
      (\<lambda>j. Some \<lparr>ct_seconds = 2000, ct_fraction = 0\<rparr>) (replicate 2048 0)
      \<lparr>ks_running = True, ks_tls_handshake_failures = 0, ks_alpn_rejections = 0, ks_exchanges_completed = 7,
         ks_exchange_failures = 0\<rparr> (toy_storage (Some toy_ring)) =
      Some (rec_flat (response_records cs), \<lparr>ks_running = True, ks_tls_handshake_failures = 0, ks_alpn_rejections = 0,
         ks_exchanges_completed = 8, ks_exchange_failures = 0\<rparr>, s') \<and> length cs = 8"
proof -
  let ?t = "\<lparr>ct_seconds = 2000, ct_fraction = 0\<rparr>"
  have t: "uint (mk_not_before_ntp (slot_active toy_ring)) \<le> uint (ct_seconds ?t)" by (simp add: toy_ring_def)
  have le: "uint (ct_seconds ?t) \<le> uint (ct_seconds ?t)" "\<forall>j :: nat. uint (ct_seconds ?t) \<le> uint (ct_seconds ?t)" by simp_all
  have len: "length (replicate 32 b) = 32" for b :: u8 by simp
  show ?thesis
    using ke_exchange [where ?t2.0 = ?t and ts = "\<lambda>j. ?t" and st = "\<lparr>ks_running = True, ks_tls_handshake_failures = 0,
        ks_alpn_rejections = 0, ks_exchanges_completed = 7, ks_exchange_failures = 0\<rparr>", OF toy_nvs_healthy
        psa_toy_healthy toy_ring_stored toy_ring_ok t le tls_toy_ok tls_toy_keys(1) len tls_toy_keys(2) len toy_request_ok toy_session [OF refl]]
    by (elim exE conjE) auto
qed

text \<open>
  C17: Any other request is refused with an error record. On a session that works, whatever a read
  of the request returns, if the read failed or what it delivered is not a well-formed key
  establishment request, then the client gets exactly ten octets: an error record with one of the
  three codes of RFC 8915 (bad request when the read failed) and the end record; no key or cookie
  is sent, the store is untouched, and the exchange is counted as completed.
\<close>
theorem ke_rejects:
  assumes "session_ok ssl" and "tls_read_request ssl request = Some (err, request1, n)"
    and "\<not> request_delivered err (take n request1)"
  shows "\<exists>code. code \<le> 2 \<and> (err \<noteq> ESP_OK \<longrightarrow> code = 1) \<and>
    handle_client api P ssl now1 now2 nows request st s =
      Some (rec_flat (error_records code), st\<lparr>ks_exchanges_completed := ks_exchanges_completed st + 1\<rparr>, s) \<and>
    length (rec_flat (error_records code)) = 10"
proof -
  have n: "n \<le> length request1" using read_loop_bounds [of ssl 0 request 0] assms(2) by (fastforce simp: tls_read_request_def)
  obtain code where c: "code \<le> NTS_KE_ERROR_INTERNAL_SERVER" "err \<noteq> ESP_OK \<longrightarrow> code = NTS_KE_ERROR_BAD_REQUEST"
    "ke_answer api P ssl now1 now2 nows err (take n request1) s = Some ((rec_flat (error_records code) @ replicate 4086 0, 10), s)"
    using ke_answer_rejects [OF assms(3)] by blast
  have l: "length (rec_flat (error_records code)) = 10" by (simp add: error_records_def)
  show ?thesis
    using c(1,2) l handle_session [OF assms(1,2) n c(3), where st = st]
    by (intro exI [of _ code]) (simp add: NTS_KE_ERROR_BAD_REQUEST_def NTS_KE_ERROR_INTERNAL_SERVER_def)
qed

lemma tls_toy_drops: "tls_read_request ((tls_toy m)\<lparr>ssl_read := \<lambda>i room. (0, [])\<rparr>) (replicate 2048 0) =
    Some (ESP_ERR_INVALID_RESPONSE, replicate 2048 0, 0)"
  by (simp add: tls_read_request_def tls_read_loop.simps tls_toy_def)

theorem ke_rejects_witness:
  "\<exists>code. code = 1 \<and> handle_client toy_nvs psa_toy ((tls_toy [])\<lparr>ssl_read := \<lambda>i room. (0, [])\<rparr>) None None (\<lambda>_. None)
      (replicate 2048 0) \<lparr>ks_running = True, ks_tls_handshake_failures = 0, ks_alpn_rejections = 0,
         ks_exchanges_completed = 7, ks_exchange_failures = 0\<rparr> (toy_storage None) =
    Some (rec_flat (error_records code), \<lparr>ks_running = True, ks_tls_handshake_failures = 0, ks_alpn_rejections = 0,
         ks_exchanges_completed = 8, ks_exchange_failures = 0\<rparr>, toy_storage None)"
proof -
  have ok: "session_ok ((tls_toy [])\<lparr>ssl_read := \<lambda>i room. (0, [])\<rparr>)"
    using tls_toy_ok [of "[]"] by (simp add: session_ok_def)
  have no: "\<not> request_delivered ESP_ERR_INVALID_RESPONSE (take 0 (replicate 2048 0))" by (simp add: request_delivered_def)
  show ?thesis
    using ke_rejects [where api = toy_nvs and P = psa_toy and ?now1.0 = None and ?now2.0 = None and nows = "\<lambda>_. None"
        and st = "\<lparr>ks_running = True, ks_tls_handshake_failures = 0, ks_alpn_rejections = 0,
          ks_exchanges_completed = 7, ks_exchange_failures = 0\<rparr>" and s = "toy_storage None", OF ok tls_toy_drops no]
    by auto
qed

end
