(* ===== verification/Eth_Frame.thy ===== *)
theory Eth_Frame
  imports Clock
begin

text \<open>
  \<open>src/main/eth_service.c\<close>, the frames: recognising NTP over UDP over IPv4 behind up to two VLAN tags,
  and putting a late transmit timestamp into a response with an incremental update of its UDP checksum.

  A frame is the list of its octets and \<open>length\<close> is their number; every access is checked, so the
  outer \<open>None\<close> is an access outside the frame.
\<close>

definition ETHERTYPE_IPV4 :: u16 where "ETHERTYPE_IPV4 = 0x0800"
definition ETHERTYPE_VLAN :: u16 where "ETHERTYPE_VLAN = 0x8100"
definition ETHERTYPE_QINQ :: u16 where "ETHERTYPE_QINQ = 0x88A8"
definition IP_PROTOCOL_UDP :: u8 where "IP_PROTOCOL_UDP = 17"
definition NTP_UDP_PORT :: u16 where "NTP_UDP_PORT = 123"
definition ETH_NTP_TX_COMPENSATION_NS :: u64 where "ETH_NTP_TX_COMPENSATION_NS = 98941"

definition rd8 :: "bytes \<Rightarrow> nat \<Rightarrow> u8 option" where
  "rd8 buf off = (if off < length buf then Some (buf ! off) else None)"

definition rd32 :: "bytes \<Rightarrow> nat \<Rightarrow> u32 option" where
  "rd32 buf off = (if off + 4 \<le> length buf then Some (de_be32 (drop off buf)) else None)"

text \<open>A \<open>memcpy\<close> of four octets into an integer of the little-endian target.\<close>

definition load_u32 :: "bytes \<Rightarrow> nat \<Rightarrow> u32 option" where
  "load_u32 buf off = map_option (\<lambda>d. de_be32 (rev d)) (rd_slice buf off 4)"

subsection \<open>Recognising a frame\<close>

definition is_vlan :: "u16 \<Rightarrow> bool" where
  "is_vlan ether_type \<longleftrightarrow> ether_type = ETHERTYPE_VLAN \<or> ether_type = ETHERTYPE_QINQ"

text \<open>
  The loop over the tags, \<open>n\<close> of them left: where the next header starts and its type. The inner
  \<open>None\<close> is the return for a frame too short; the functions that follow a successful recognition
  walk without that check.
\<close>

fun vlan_tags :: "nat \<Rightarrow> bytes \<Rightarrow> nat \<Rightarrow> u16 \<Rightarrow> (nat \<times> u16) option option" where
  "vlan_tags 0 buf l3_offset ether_type = Some (Some (l3_offset, ether_type))"
| "vlan_tags (Suc n) buf l3_offset ether_type =
    (if is_vlan ether_type then
       if length buf < l3_offset + 4 then Some None
       else Option.bind (rd16 buf (l3_offset + 2)) (\<lambda>t. vlan_tags n buf (l3_offset + 4) t)
     else Some (Some (l3_offset, ether_type)))"

fun vlan_tags_unchecked :: "nat \<Rightarrow> bytes \<Rightarrow> nat \<Rightarrow> u16 \<Rightarrow> nat option" where
  "vlan_tags_unchecked 0 buf l3_offset ether_type = Some l3_offset"
| "vlan_tags_unchecked (Suc n) buf l3_offset ether_type =
    (if is_vlan ether_type
     then Option.bind (rd16 buf (l3_offset + 2)) (\<lambda>t. vlan_tags_unchecked n buf (l3_offset + 4) t)
     else Some l3_offset)"

text \<open>The two recognisers differ in the port they compare only.\<close>

definition eth_frame_udp_port :: "nat \<Rightarrow> bytes \<Rightarrow> bool option" where
  "eth_frame_udp_port port_offset buf =
    (if length buf < 14 then Some False
     else
       Option.bind (rd16 buf 12) (\<lambda>t.
       Option.bind (vlan_tags 2 buf 14 t) (\<lambda>r.
         case r of None \<Rightarrow> Some False
         | Some (l3_offset, ether_type) \<Rightarrow>
             if ether_type \<noteq> ETHERTYPE_IPV4 \<or> length buf < l3_offset + 20 then Some False
             else
               Option.bind (rd8 buf l3_offset) (\<lambda>version_ihl.
                 if drop_bit 4 version_ihl \<noteq> 4 then Some False
                 else
                   let ip_header_len = unat (version_ihl AND 0x0F) * 4 in
                   if ip_header_len < 20 \<or> length buf < l3_offset + ip_header_len + 8 then Some False
                   else
                     Option.bind (rd8 buf (l3_offset + 9)) (\<lambda>protocol.
                       if protocol \<noteq> IP_PROTOCOL_UDP then Some False
                       else
                         Option.bind (rd16 buf (l3_offset + 6)) (\<lambda>fragment.
                           if fragment AND 0x1FFF \<noteq> 0 then Some False
                           else map_option (\<lambda>port. port = NTP_UDP_PORT)
                             (rd16 buf (l3_offset + ip_header_len + port_offset))))))))"

definition eth_frame_is_ipv4_udp_ntp :: "bytes \<Rightarrow> bool option" where
  "eth_frame_is_ipv4_udp_ntp buf = eth_frame_udp_port 2 buf"

definition eth_frame_is_ipv4_udp_ntp_response :: "bytes \<Rightarrow> bool option" where
  "eth_frame_is_ipv4_udp_ntp_response buf = eth_frame_udp_port 0 buf"

text \<open>The transmit timestamp of a response, and the sender of a request.\<close>

definition eth_frame_get_ntp_response_xmt :: "bytes \<Rightarrow> (u32 \<times> u32) option option" where
  "eth_frame_get_ntp_response_xmt buf =
    Option.bind (eth_frame_is_ipv4_udp_ntp_response buf) (\<lambda>response.
      if \<not> response then Some None
      else
        Option.bind (rd16 buf 12) (\<lambda>t.
        Option.bind (vlan_tags_unchecked 2 buf 14 t) (\<lambda>l3_offset.
        Option.bind (rd8 buf l3_offset) (\<lambda>version_ihl.
          let ntp_offset = l3_offset + unat (version_ihl AND 0x0F) * 4 + 8 in
          if length buf < ntp_offset + 48 then Some None
          else
            Option.bind (rd32 buf (ntp_offset + 40)) (\<lambda>secs.
            Option.bind (rd32 buf (ntp_offset + 44)) (\<lambda>frac. Some (Some (secs, frac))))))))"

definition eth_frame_get_ntp_client :: "bytes \<Rightarrow> (u32 \<times> u16) option option" where
  "eth_frame_get_ntp_client buf =
    Option.bind (eth_frame_is_ipv4_udp_ntp buf) (\<lambda>request.
      if \<not> request then Some None
      else
        Option.bind (rd16 buf 12) (\<lambda>t.
        Option.bind (vlan_tags_unchecked 2 buf 14 t) (\<lambda>l3_offset.
        Option.bind (rd8 buf l3_offset) (\<lambda>version_ihl.
          let udp_offset = l3_offset + unat (version_ihl AND 0x0F) * 4 in
          Option.bind (load_u32 buf (l3_offset + 12)) (\<lambda>ipv4.
          Option.bind (rd16 buf udp_offset) (\<lambda>port. Some (Some (ipv4, port))))))))"

subsection \<open>The late timestamp\<close>

record late_stamp =
  ls_udp_offset :: nat
  ls_ntp_offset :: nat
  ls_udp_checksum :: u16
  ls_old_xmt_words :: "u16 list"

definition eth_frame_prepare_ntp_late_stamp :: "bytes \<Rightarrow> late_stamp option option" where
  "eth_frame_prepare_ntp_late_stamp buf =
    Option.bind (eth_frame_is_ipv4_udp_ntp_response buf) (\<lambda>response.
      if \<not> response then Some None
      else
        Option.bind (rd16 buf 12) (\<lambda>t.
        Option.bind (vlan_tags 2 buf 14 t) (\<lambda>r.
          case r of None \<Rightarrow> Some None
          | Some (l3_offset, ether_type) \<Rightarrow>
            if ether_type \<noteq> ETHERTYPE_IPV4 \<or> length buf < l3_offset + 20 then Some None
            else
              Option.bind (rd8 buf l3_offset) (\<lambda>version_ihl.
              let ip_header_len = unat (version_ihl AND 0x0F) * 4 in
              if ip_header_len < 20 \<or> length buf < l3_offset + ip_header_len + 8 then Some None
              else
                Option.bind (rd16 buf (l3_offset + 6)) (\<lambda>fragment.
                if fragment AND 0x3FFF \<noteq> 0 then Some None
                else
                  Option.bind (rd16 buf (l3_offset + 2)) (\<lambda>ip_total_length.
                  let udp_offset = l3_offset + ip_header_len in
                  Option.bind (rd16 buf (udp_offset + 4)) (\<lambda>udp_length.
                  if udp_length \<noteq> 56 \<or> unat ip_total_length \<noteq> ip_header_len + unat udp_length \<or>
                     length buf < udp_offset + unat udp_length then Some None
                  else
                    let ntp_offset = udp_offset + 8 in
                    Option.bind (rd8 buf ntp_offset) (\<lambda>first.
                    Option.bind (rd8 buf (ntp_offset + 1)) (\<lambda>strat.
                    if first AND 0x07 \<noteq> 4 \<or> strat = 0 then Some None
                    else
                      Option.bind (rd16 buf (udp_offset + 6)) (\<lambda>udp_checksum.
                      if udp_checksum = 0 then Some None
                      else
                        Option.bind (rd16 buf (ntp_offset + 40)) (\<lambda>w0.
                        Option.bind (rd16 buf (ntp_offset + 42)) (\<lambda>w1.
                        Option.bind (rd16 buf (ntp_offset + 44)) (\<lambda>w2.
                        Option.bind (rd16 buf (ntp_offset + 46)) (\<lambda>w3.
                          Some (Some \<lparr> ls_udp_offset = udp_offset, ls_ntp_offset = ntp_offset,
                            ls_udp_checksum = udp_checksum, ls_old_xmt_words = [w0, w1, w2, w3] \<rparr>)))))))))))))))"

text \<open>The loop that adds the carries back; one pass makes the sum smaller.\<close>

lemma halves: "unat s = 65536 * unat (drop_bit 16 s) + unat (s AND 0xFFFF)" for s :: u32
proof -
  have "s AND 0xFFFF = take_bit 16 s" by (simp add: take_bit_eq_mask mask_eq_exp_minus_1)
  then have "unat (s AND 0xFFFF) = take_bit 16 (unat s)" by (simp only: unsigned_take_bit_eq)
  then have "unat (s AND 0xFFFF) = unat s mod 65536" by (simp add: take_bit_eq_mod)
  moreover have "unat (drop_bit 16 s) = drop_bit 16 (unat s)" by (rule unat_drop_bit_eq)
  then have "unat (drop_bit 16 s) = unat s div 65536" by (simp add: drop_bit_eq_div)
  ultimately show ?thesis by simp
qed

lemma carries_value: "unat ((s AND 0xFFFF) + drop_bit 16 s) = unat (s AND 0xFFFF) + unat (drop_bit 16 s)" for s :: u32
proof -
  have "unat s < 2 ^ 32" using unsigned_less [of s, where ?'a = nat] by simp
  then have "unat (s AND 0xFFFF) + unat (drop_bit 16 s) < 2 ^ 32" using halves [of s] by linarith
  then show ?thesis by (simp add: unat_word_ariths)
qed

function add_carries :: "u32 \<Rightarrow> u32" where
  "add_carries s = (if drop_bit 16 s \<noteq> 0 then add_carries ((s AND 0xFFFF) + drop_bit 16 s) else s)"
  by pat_completeness auto
termination
proof (relation "measure unat")
  fix s :: u32
  assume "drop_bit 16 s \<noteq> 0"
  then have "0 < unat (drop_bit 16 s)" by (simp add: unat_gt_0)
  then show "((s AND 0xFFFF) + drop_bit 16 s, s) \<in> measure unat"
    unfolding in_measure carries_value using halves [of s] by linarith
qed simp

definition checksum_replace_word :: "u16 \<Rightarrow> u16 \<Rightarrow> u16 \<Rightarrow> u16" where
  "checksum_replace_word checksum old_word new_word =
    (let s = (ucast (NOT checksum) :: u32) + ucast (NOT old_word) + ucast new_word in NOT (ucast (add_carries s)))"

definition new_xmt_words :: "clock_ntp_timestamp \<Rightarrow> u16 list" where
  "new_xmt_words t = [ucast (drop_bit 16 (ct_seconds t)), ucast (ct_seconds t), ucast (drop_bit 16 (ct_fraction t)), ucast (ct_fraction t)]"

definition eth_frame_apply_ntp_late_stamp :: "bytes \<Rightarrow> late_stamp \<Rightarrow> clock_ntp_timestamp \<Rightarrow> bytes option" where
  "eth_frame_apply_ntp_late_stamp buf ctx t =
    (let checksum = foldl (\<lambda>c (old_word, new_word). checksum_replace_word c old_word new_word) (ls_udp_checksum ctx)
           (zip (ls_old_xmt_words ctx) (new_xmt_words t));
         checksum = (if checksum = 0 then 0xFFFF else checksum)
     in Option.bind (wr buf (ls_ntp_offset ctx + 40) (Prelude.be32 (ct_seconds t))) (\<lambda>buf.
        Option.bind (wr buf (ls_ntp_offset ctx + 44) (Prelude.be32 (ct_fraction t))) (\<lambda>buf.
          wr buf (ls_udp_offset ctx + 6) (be16 checksum))))"

text \<open>The clock reading moved to the expected instant of transmission.\<close>

definition predicted_tx_timestamp :: "clock_ntp_timestamp \<Rightarrow> clock_ntp_timestamp" where
  "predicted_tx_timestamp t =
    (let fraction_delta = (push_bit 32 ETH_NTP_TX_COMPENSATION_NS + 500000000) div 1000000000;
         fraction_sum = ucast (ct_fraction t) + fraction_delta
     in \<lparr> ct_seconds = ct_seconds t + ucast (drop_bit 32 fraction_sum), ct_fraction = ucast fraction_sum \<rparr>)"

declare add_carries.simps [simp del]

end
