(* ===== verification/Eth_Service.thy ===== *)
theory Eth_Service
  imports Eth_Frame
begin

text \<open>
  \<open>src/main/eth_service.c\<close>, the state: the queue of hardware receive timestamps, the correlation of the
  PTP clock of the MAC with the disciplined clock, the mapping of a PTP instant to UTC, the transmit
  path, and the life of the interface. The build has \<open>SOC_EMAC_IEEE1588V2_SUPPORTED\<close>.

  What the drivers, the timer and the disciplined clock answer are arguments. A critical section is
  atomic. The outer \<open>None\<close> is undefined behaviour.
\<close>

definition ETH_PTP_CORRELATION_PERIOD_MS :: u32 where "ETH_PTP_CORRELATION_PERIOD_MS = 10000"
definition ETH_PTP_CORRELATION_ACQUIRE_PERIOD_MS :: u32 where "ETH_PTP_CORRELATION_ACQUIRE_PERIOD_MS = 1000"
definition ETH_NTP_RX_QUEUE_SIZE :: nat where "ETH_NTP_RX_QUEUE_SIZE = 16"
definition ETH_PTP_CORRELATION_MAX_AGE_US :: int where "ETH_PTP_CORRELATION_MAX_AGE_US = 30000000"
definition ETH_PTP_LOCAL_MAP_MAX_BRACKET_NS :: u64 where "ETH_PTP_LOCAL_MAP_MAX_BRACKET_NS = 250000"

subsection \<open>State\<close>

record eth_mac_time =
  mt_seconds :: u32
  mt_nanoseconds :: u32

definition zero_mac_time :: eth_mac_time where
  "zero_mac_time = \<lparr>mt_seconds = 0, mt_nanoseconds = 0\<rparr>"

record rx_queue_entry =
  rq_valid :: bool
  rq_client_ipv4 :: u32
  rq_client_port :: u16
  rq_sequence :: u32
  rq_ptp_time :: eth_mac_time

definition zero_rx_entry :: rx_queue_entry where
  "zero_rx_entry = \<lparr>rq_valid = False, rq_client_ipv4 = 0, rq_client_port = 0, rq_sequence = 0, rq_ptp_time = zero_mac_time\<rparr>"

record tx_probe_status =
  tp_matched :: u32
  tp_tx_success :: u32
  tp_tx_fail :: u32
  tp_timestamp_valid :: u32
  tp_timestamp_invalid :: u32
  tp_last_seconds :: u32
  tp_last_nanoseconds :: u32

definition zero_tx_probe :: tx_probe_status where
  "zero_tx_probe = \<lparr>tp_matched = 0, tp_tx_success = 0, tp_tx_fail = 0, tp_timestamp_valid = 0, tp_timestamp_invalid = 0,
     tp_last_seconds = 0, tp_last_nanoseconds = 0\<rparr>"

record eth_status =
  et_initialized :: bool
  et_started :: bool
  et_link_up :: bool
  et_ipv4_ready :: bool
  et_ptp_supported :: bool
  et_ptp_enabled :: bool
  et_ptp_clock_readable :: bool
  et_ptp_clock_running :: bool
  et_ptp_timestamp_resolution_ns :: u32
  et_ptp_correlation_valid :: bool
  et_ptp_correlation_samples :: u32
  et_ptp_utc_offset_ns :: int
  et_ptp_utc_offset_change_ns :: int
  et_ptp_utc_estimated_rate_ppb :: int
  et_ptp_utc_bracket_ns :: u32
  et_rx_hw_timestamp_all_enabled :: bool
  et_rx_hw_frames :: u32
  et_rx_hw_timestamp_valid :: u32
  et_rx_hw_timestamp_invalid :: u32
  et_rx_hw_ntp_requests :: u32
  et_rx_hw_ntp_timestamp_valid :: u32
  et_rx_hw_ntp_timestamp_invalid :: u32
  et_rx_hw_last_ntp_seconds :: u32
  et_rx_hw_last_ntp_nanoseconds :: u32
  et_rx_hw_queue_enqueued :: u32
  et_rx_hw_queue_overruns :: u32
  et_rx_hw_queue_matches :: u32
  et_rx_hw_queue_misses :: u32
  et_rx_hw_map_successes :: u32
  et_rx_hw_map_failures :: u32
  et_rx_hw_last_map_bracket_ns :: u32
  et_rx_hw_last_map_age_us :: u32
  et_mac :: bytes
  et_ipv4_address :: u32
  et_ipv4_netmask :: u32
  et_ipv4_gateway :: u32

definition zero_eth_status :: eth_status where
  "zero_eth_status =
    \<lparr> et_initialized = False, et_started = False, et_link_up = False, et_ipv4_ready = False, et_ptp_supported = False,
      et_ptp_enabled = False, et_ptp_clock_readable = False, et_ptp_clock_running = False, et_ptp_timestamp_resolution_ns = 0,
      et_ptp_correlation_valid = False, et_ptp_correlation_samples = 0, et_ptp_utc_offset_ns = 0, et_ptp_utc_offset_change_ns = 0,
      et_ptp_utc_estimated_rate_ppb = 0, et_ptp_utc_bracket_ns = 0, et_rx_hw_timestamp_all_enabled = False, et_rx_hw_frames = 0,
      et_rx_hw_timestamp_valid = 0, et_rx_hw_timestamp_invalid = 0, et_rx_hw_ntp_requests = 0, et_rx_hw_ntp_timestamp_valid = 0,
      et_rx_hw_ntp_timestamp_invalid = 0, et_rx_hw_last_ntp_seconds = 0, et_rx_hw_last_ntp_nanoseconds = 0,
      et_rx_hw_queue_enqueued = 0, et_rx_hw_queue_overruns = 0, et_rx_hw_queue_matches = 0, et_rx_hw_queue_misses = 0,
      et_rx_hw_map_successes = 0, et_rx_hw_map_failures = 0, et_rx_hw_last_map_bracket_ns = 0, et_rx_hw_last_map_age_us = 0,
      et_mac = replicate 6 0, et_ipv4_address = 0, et_ipv4_netmask = 0, et_ipv4_gateway = 0 \<rparr>"

text \<open>The static variables; \<open>es_has_mac\<close> and the like say that a handle is not NULL.\<close>

record eth_sys =
  es_status :: eth_status
  es_has_events :: bool
  es_ip_ready_bit :: bool
  es_has_mac :: bool
  es_queue :: "rx_queue_entry list"
  es_queue_next :: u32
  es_queue_sequence :: u32
  es_tx_probe :: tx_probe_status
  es_correlation_task :: bool
  es_baseline_valid :: bool
  es_baseline_offset_ns :: int
  es_baseline_utc_ns :: u64
  es_last_monotonic_us :: int
  es_app :: app_state

definition eth_boot :: "app_state \<Rightarrow> eth_sys" where
  "eth_boot app =
    \<lparr> es_status = zero_eth_status, es_has_events = False, es_ip_ready_bit = False, es_has_mac = False,
      es_queue = replicate ETH_NTP_RX_QUEUE_SIZE zero_rx_entry, es_queue_next = 0, es_queue_sequence = 0,
      es_tx_probe = zero_tx_probe, es_correlation_task = False, es_baseline_valid = False, es_baseline_offset_ns = 0,
      es_baseline_utc_ns = 0, es_last_monotonic_us = 0, es_app = app \<rparr>"

abbreviation note_eth :: "(eth_status \<Rightarrow> eth_status) \<Rightarrow> eth_sys \<Rightarrow> eth_sys" where
  "note_eth f s \<equiv> s\<lparr>es_status := f (es_status s)\<rparr>"

subsection \<open>Time\<close>

text \<open>\<open>ntp_timestamp_to_ns\<close> of this file, and \<open>ptp_timestamp_to_ns\<close>.\<close>

definition clock_timestamp_to_ns :: "clock_ntp_timestamp \<Rightarrow> u64" where
  "clock_timestamp_to_ns t =
    (let fractional_ns = drop_bit 32 ((ucast (ct_fraction t) * 1000000000) + 0x80000000) in
     (ucast (ct_seconds t) * 1000000000) + fractional_ns)"

definition ptp_timestamp_to_ns :: "eth_mac_time \<Rightarrow> u64" where
  "ptp_timestamp_to_ns t = ucast (mt_seconds t) * 1000000000 + ucast (mt_nanoseconds t)"

definition saturate_u32 :: "u64 \<Rightarrow> u32" where
  "saturate_u32 v = (if v > 0xFFFFFFFF then 0xFFFFFFFF else ucast v)"

text \<open>What the disciplined clock, the PTP clock and the timer answer around one reading.\<close>

record ptp_readings =
  pr_utc_before :: "clock_ntp_timestamp option"
  pr_ptp_now :: "eth_mac_time option"
  pr_utc_after :: "clock_ntp_timestamp option"
  pr_now_us :: int

text \<open>
  The UTC nanoseconds of a PTP instant, the bracket of the reading and the age of the instant. The sum
  of the denominator wraps as on the target where it leaves the signed range.
\<close>

definition map_ptp_event :: "ptp_readings \<Rightarrow> eth_mac_time \<Rightarrow> eth_sys \<Rightarrow> (u64 \<times> u64 \<times> u64) option" where
  "map_ptp_event r event s =
    (case (pr_utc_before r, pr_ptp_now r, pr_utc_after r) of
       (Some utc_before, Some ptp_now, Some utc_after) \<Rightarrow>
         let utc_before_ns = clock_timestamp_to_ns utc_before; utc_after_ns = clock_timestamp_to_ns utc_after;
             ptp_now_ns = ptp_timestamp_to_ns ptp_now; event_ptp_ns = ptp_timestamp_to_ns event
         in if utc_after_ns < utc_before_ns \<or> ptp_now_ns < event_ptp_ns then None
            else
              let bracket_ns = utc_after_ns - utc_before_ns; utc_mid_ns = utc_before_ns + bracket_ns div 2;
                  ptp_age_ns = ptp_now_ns - event_ptp_ns;
                  last_us = es_last_monotonic_us s; now_us = pr_now_us r
              in if \<not> et_ptp_correlation_valid (es_status s) \<or> et_ptp_correlation_samples (es_status s) < 2 \<or>
                    last_us \<le> 0 \<or> now_us < last_us \<or> now_us - last_us > ETH_PTP_CORRELATION_MAX_AGE_US \<or>
                    bracket_ns > ETH_PTP_LOCAL_MAP_MAX_BRACKET_NS then None
                 else
                   let denominator = sint (word_of_int (1000000000 + et_ptp_utc_estimated_rate_ppb (es_status s)) :: u64) in
                   if denominator \<le> 0 then None
                   else
                     let denominator_u = (word_of_int denominator :: u64);
                         utc_age_ns = (ptp_age_ns div denominator_u) * 1000000000 +
                           ((ptp_age_ns mod denominator_u) * 1000000000 + denominator_u div 2) div denominator_u
                     in if utc_age_ns > utc_mid_ns then None
                        else Some (utc_mid_ns - utc_age_ns, bracket_ns, ptp_age_ns)
     | _ \<Rightarrow> None)"

definition eth_map_ptp_event_to_utc_ns :: "ptp_readings \<Rightarrow> eth_mac_time \<Rightarrow> eth_sys \<Rightarrow> (u64 \<times> u32 \<times> u32) option" where
  "eth_map_ptp_event_to_utc_ns r event s =
    (if \<not> es_has_mac s then None
     else map_option (\<lambda>(utc_ns, bracket_ns, age_ns). (utc_ns, saturate_u32 bracket_ns, saturate_u32 (age_ns div 1000)))
       (map_ptp_event r event s))"

subsection \<open>The correlation with the disciplined clock\<close>

definition eth_ptp_correlation_sample :: "ptp_readings \<Rightarrow> eth_sys \<Rightarrow> eth_sys option" where
  "eth_ptp_correlation_sample r s =
    (if \<not> es_has_mac s then Some s
     else case (pr_utc_before r, pr_ptp_now r, pr_utc_after r) of
       (Some utc_before, Some ptp_time, Some utc_after) \<Rightarrow>
         let utc_before_ns = clock_timestamp_to_ns utc_before; utc_after_ns = clock_timestamp_to_ns utc_after in
         if utc_after_ns < utc_before_ns then Some s
         else
           let bracket_ns = utc_after_ns - utc_before_ns; utc_mid_ns = utc_before_ns + bracket_ns div 2;
               offset_ns = sint (ptp_timestamp_to_ns ptp_time) - sint utc_mid_ns;
               publish = (\<lambda>change rate s. s\<lparr> es_status := (es_status s)\<lparr> et_ptp_correlation_valid := True,
                   et_ptp_correlation_samples := et_ptp_correlation_samples (es_status s) + 1, et_ptp_utc_offset_ns := offset_ns,
                   et_ptp_utc_offset_change_ns := change, et_ptp_utc_estimated_rate_ppb := rate,
                   et_ptp_utc_bracket_ns := saturate_u32 bracket_ns\<rparr>, es_last_monotonic_us := pr_now_us r\<rparr>)
           in if \<not> es_baseline_valid s
              then Some (publish 0 0 (s\<lparr>es_baseline_valid := True, es_baseline_offset_ns := offset_ns, es_baseline_utc_ns := utc_mid_ns\<rparr>))
              else
                let change = offset_ns - es_baseline_offset_ns s; elapsed_ns = utc_mid_ns - es_baseline_utc_ns s in
                if \<not> in_int64 change then None
                else if elapsed_ns > 0 then
                  (if \<not> in_int64 (change * 1000000000) then None
                   else Some (publish change (quot (change * 1000000000) (sint elapsed_ns)) s))
                else Some (publish change 0 s)
     | _ \<Rightarrow> Some s)"

text \<open>One round of the task: a sample, and the delay until the next.\<close>

definition eth_ptp_correlation_task :: "ptp_readings \<Rightarrow> eth_sys \<Rightarrow> (u32 \<times> eth_sys) option" where
  "eth_ptp_correlation_task r s =
    map_option (\<lambda>s1. (if et_ptp_correlation_samples (es_status s1) < 2 then ETH_PTP_CORRELATION_ACQUIRE_PERIOD_MS
                      else ETH_PTP_CORRELATION_PERIOD_MS, s1)) (eth_ptp_correlation_sample r s)"

subsection \<open>Receiving\<close>

definition enqueue_rx :: "u32 \<Rightarrow> u16 \<Rightarrow> eth_mac_time \<Rightarrow> eth_sys \<Rightarrow> eth_sys option" where
  "enqueue_rx ipv4 port t s =
    (if unat (es_queue_next s) < length (es_queue s) then
       let i = unat (es_queue_next s); st = es_status s;
           st = (if rq_valid (es_queue s ! i) then st\<lparr>et_rx_hw_queue_overruns := et_rx_hw_queue_overruns st + 1\<rparr> else st);
           n = es_queue_sequence s + 1
       in Some (s\<lparr> es_queue := (es_queue s)[i := \<lparr>rq_valid = True, rq_client_ipv4 = ipv4, rq_client_port = port, rq_sequence = n, rq_ptp_time = t\<rparr>],
            es_queue_sequence := n, es_queue_next := (es_queue_next s + 1) mod of_nat ETH_NTP_RX_QUEUE_SIZE,
            es_status := st\<lparr>et_rx_hw_queue_enqueued := et_rx_hw_queue_enqueued st + 1\<rparr>\<rparr>)
     else None)"

text \<open>The frame goes on to the stack; \<open>netif\<close> is what \<open>esp_netif_receive\<close> answers.\<close>

definition eth_input_to_netif_with_timestamp ::
    "esp_err \<Rightarrow> bytes \<Rightarrow> eth_mac_time option \<Rightarrow> eth_sys \<Rightarrow> (esp_err \<times> eth_sys) option" where
  "eth_input_to_netif_with_timestamp netif buf info s =
    (let timestamp_valid = (case info of None \<Rightarrow> False | Some t \<Rightarrow> mt_seconds t \<noteq> 0 \<or> mt_nanoseconds t \<noteq> 0) in
     Option.bind (eth_frame_is_ipv4_udp_ntp buf) (\<lambda>is_ntp.
     Option.bind (if is_ntp then eth_frame_get_ntp_client buf else Some None) (\<lambda>client.
       let st = es_status s; st = st\<lparr>et_rx_hw_frames := et_rx_hw_frames st + 1\<rparr>;
           st = (if timestamp_valid then st\<lparr>et_rx_hw_timestamp_valid := et_rx_hw_timestamp_valid st + 1\<rparr>
                 else st\<lparr>et_rx_hw_timestamp_invalid := et_rx_hw_timestamp_invalid st + 1\<rparr>)
       in if \<not> is_ntp then Some (netif, s\<lparr>es_status := st\<rparr>)
          else
            let st = st\<lparr>et_rx_hw_ntp_requests := et_rx_hw_ntp_requests st + 1\<rparr> in
            if timestamp_valid then
              let t = the info;
                  st = st\<lparr>et_rx_hw_ntp_timestamp_valid := et_rx_hw_ntp_timestamp_valid st + 1,
                         et_rx_hw_last_ntp_seconds := mt_seconds t, et_rx_hw_last_ntp_nanoseconds := mt_nanoseconds t\<rparr>
              in (case client of
                    None \<Rightarrow> Some (netif, s\<lparr>es_status := st\<rparr>)
                  | Some (ipv4, port) \<Rightarrow> map_option (\<lambda>s1. (netif, s1)) (enqueue_rx ipv4 port t (s\<lparr>es_status := st\<rparr>)))
            else Some (netif, s\<lparr>es_status := st\<lparr>et_rx_hw_ntp_timestamp_invalid := et_rx_hw_ntp_timestamp_invalid st + 1\<rparr>\<rparr>))))"

text \<open>The scan for the oldest entry of a client, from index \<open>i\<close> on, with the best one so far.\<close>

fun oldest_match :: "u32 \<Rightarrow> u16 \<Rightarrow> nat \<Rightarrow> rx_queue_entry list \<Rightarrow> (nat \<times> u32) option \<Rightarrow> (nat \<times> u32) option" where
  "oldest_match ipv4 port i [] best = best"
| "oldest_match ipv4 port i (e # es) best =
    oldest_match ipv4 port (Suc i) es
      (if rq_valid e \<and> rq_client_ipv4 e = ipv4 \<and> rq_client_port e = port \<and>
          rq_sequence e < (case best of None \<Rightarrow> 0xFFFFFFFF | Some (_, q) \<Rightarrow> q)
       then Some (i, rq_sequence e) else best)"

text \<open>The first critical section: the entry taken out of the queue.\<close>

definition take_rx :: "u32 \<Rightarrow> u16 \<Rightarrow> eth_sys \<Rightarrow> eth_mac_time option \<times> eth_sys" where
  "take_rx ipv4 port s =
    (case oldest_match ipv4 port 0 (es_queue s) None of
       Some (i, _) \<Rightarrow>
         (Some (rq_ptp_time (es_queue s ! i)),
          s\<lparr> es_queue := (es_queue s)[i := (es_queue s ! i)\<lparr>rq_valid := False\<rparr>],
             es_status := (es_status s)\<lparr>et_rx_hw_queue_matches := et_rx_hw_queue_matches (es_status s) + 1\<rparr>\<rparr>)
     | None \<Rightarrow> (None, note_eth (\<lambda>st. st\<lparr>et_rx_hw_queue_misses := et_rx_hw_queue_misses st + 1\<rparr>) s))"

record hw_rx_timestamp =
  hw_seconds :: u32
  hw_fraction :: u32
  hw_mapping_bracket_ns :: u32
  hw_mapping_age_us :: u32

definition eth_service_take_ntp_rx_timestamp ::
    "ptp_readings \<Rightarrow> u32 \<Rightarrow> u16 \<Rightarrow> eth_sys \<Rightarrow> hw_rx_timestamp option \<times> eth_sys" where
  "eth_service_take_ntp_rx_timestamp r ipv4 port s =
    (if \<not> es_has_mac s then (None, s)
     else
       let (found, s1) = take_rx ipv4 port s;
           failure = (None, note_eth (\<lambda>st. st\<lparr>et_rx_hw_map_failures := et_rx_hw_map_failures st + 1\<rparr>) s1)
       in case found of
            None \<Rightarrow> (None, s1)
          | Some rx_ptp \<Rightarrow>
              (case map_ptp_event r rx_ptp s1 of
                 None \<Rightarrow> failure
               | Some (mapped_ns, bracket_ns, ptp_age_ns) \<Rightarrow>
                   let secs = mapped_ns div 1000000000; nanoseconds = mapped_ns mod 1000000000 in
                   if secs > 0xFFFFFFFF then failure
                   else
                     let out = \<lparr> hw_seconds = ucast secs,
                           hw_fraction = ucast ((push_bit 32 nanoseconds + 500000000) div 1000000000),
                           hw_mapping_bracket_ns = saturate_u32 bracket_ns, hw_mapping_age_us = saturate_u32 (ptp_age_ns div 1000)\<rparr>
                     in (Some out, note_eth (\<lambda>st. st\<lparr>et_rx_hw_map_successes := et_rx_hw_map_successes st + 1,
                           et_rx_hw_last_map_bracket_ns := hw_mapping_bracket_ns out,
                           et_rx_hw_last_map_age_us := hw_mapping_age_us out\<rparr>) s1)))"

subsection \<open>Transmitting\<close>

text \<open>\<open>stock\<close> is what the plain transmission answers, \<open>ctrl\<close> what the one with a timestamp does.\<close>

definition eth_ntp_tx_probe_transmit ::
    "esp_err \<Rightarrow> esp_err \<times> eth_mac_time \<Rightarrow> clock_ntp_timestamp option \<Rightarrow> bytes \<Rightarrow> eth_sys \<Rightarrow> (esp_err \<times> bytes \<times> eth_sys) option" where
  "eth_ntp_tx_probe_transmit stock ctrl late buf s =
    Option.bind (eth_frame_is_ipv4_udp_ntp_response buf) (\<lambda>response.
      if \<not> response then Some (stock, buf, s)
      else
        Option.bind (eth_frame_prepare_ntp_late_stamp buf) (\<lambda>ctx.
        Option.bind (case (ctx, late) of (Some c, Some t) \<Rightarrow> eth_frame_apply_ntp_late_stamp buf c (predicted_tx_timestamp t) | _ \<Rightarrow> Some buf)
          (\<lambda>buf.
        Option.bind (eth_frame_get_ntp_response_xmt buf) (\<lambda>xmt.
          let (tx_err, tx_timestamp) = ctrl;
              timestamp_valid = (mt_seconds tx_timestamp \<noteq> 0 \<or> mt_nanoseconds tx_timestamp \<noteq> 0);
              p = es_tx_probe s; p = p\<lparr>tp_matched := tp_matched p + 1\<rparr>;
              p = (if tx_err = ESP_OK then
                     let p = p\<lparr>tp_tx_success := tp_tx_success p + 1\<rparr> in
                     if timestamp_valid
                     then p\<lparr>tp_timestamp_valid := tp_timestamp_valid p + 1, tp_last_seconds := mt_seconds tx_timestamp,
                            tp_last_nanoseconds := mt_nanoseconds tx_timestamp\<rparr>
                     else p\<lparr>tp_timestamp_invalid := tp_timestamp_invalid p + 1\<rparr>
                   else p\<lparr>tp_tx_fail := tp_tx_fail p + 1\<rparr>)
          in Some (tx_err, buf, s\<lparr>es_tx_probe := p\<rparr>)))))"

text \<open>\<open>ioctl\<close> answers the command to add (True) or delete a filter.\<close>

definition eth_tx_probe_set_mac_filter :: "(bool \<Rightarrow> bytes \<Rightarrow> esp_err) \<Rightarrow> bytes option \<Rightarrow> nat \<Rightarrow> bool \<Rightarrow> esp_err" where
  "eth_tx_probe_set_mac_filter ioctl mac mac_len add =
    (case mac of None \<Rightarrow> ESP_ERR_INVALID_ARG
     | Some m \<Rightarrow> if mac_len \<noteq> 6 then ESP_ERR_INVALID_ARG else if add then ioctl True m else ioctl False m)"

subsection \<open>The interface\<close>

record ptp_probe =
  pb_enable :: esp_err
  pb_ts4all :: esp_err
  pb_resolution_ns :: u32
  pb_first :: "esp_err \<times> eth_mac_time"
  pb_second :: "esp_err \<times> eth_mac_time"

definition eth_ptp_probe :: "ptp_probe \<Rightarrow> eth_sys \<Rightarrow> eth_sys" where
  "eth_ptp_probe b s =
    (if \<not> es_has_mac s then s
     else if pb_enable b \<noteq> ESP_OK then s
     else
       let first_err = fst (pb_first b); first_time = (if first_err = ESP_OK then snd (pb_first b) else zero_mac_time);
           second_err = (if first_err = ESP_OK then fst (pb_second b) else first_err);
           second_time = (if first_err = ESP_OK \<and> second_err = ESP_OK then snd (pb_second b) else zero_mac_time);
           clock_readable = (first_err = ESP_OK \<and> second_err = ESP_OK);
           clock_running = (clock_readable \<and> first_time \<noteq> second_time)
       in note_eth (\<lambda>st. st\<lparr> et_ptp_supported := True, et_ptp_enabled := True, et_ptp_clock_readable := clock_readable,
            et_ptp_clock_running := clock_running, et_ptp_timestamp_resolution_ns := pb_resolution_ns b,
            et_rx_hw_timestamp_all_enabled := (pb_ts4all b = ESP_OK)\<rparr>) s)"

datatype eth_event = ETHERNET_EVENT_START | ETHERNET_EVENT_STOP | ETHERNET_EVENT_CONNECTED | ETHERNET_EVENT_DISCONNECTED

text \<open>\<open>xEventGroupClearBits\<close> and \<open>xEventGroupSetBits\<close> where there is a group.\<close>

definition set_ip_ready_bit :: "bool \<Rightarrow> eth_sys \<Rightarrow> eth_sys" where
  "set_ip_ready_bit b s = (if es_has_events s then s\<lparr>es_ip_ready_bit := b\<rparr> else s)"

definition eth_event_handler :: "eth_event \<Rightarrow> eth_sys \<Rightarrow> eth_sys" where
  "eth_event_handler e s =
    (case e of
       ETHERNET_EVENT_CONNECTED \<Rightarrow> note_eth (\<lambda>st. st\<lparr>et_link_up := True\<rparr>) s
     | ETHERNET_EVENT_DISCONNECTED \<Rightarrow>
         let s = note_eth (\<lambda>st. st\<lparr> et_link_up := False, et_ipv4_ready := False, et_ipv4_address := 0, et_ipv4_netmask := 0,
               et_ipv4_gateway := 0\<rparr>) s
         in set_ip_ready_bit False (s\<lparr>es_app := app_state_set_ipv4_ready False (es_app s)\<rparr>)
     | ETHERNET_EVENT_START \<Rightarrow> s
     | ETHERNET_EVENT_STOP \<Rightarrow>
         let s = note_eth (\<lambda>st. st\<lparr>et_started := False, et_link_up := False, et_ipv4_ready := False\<rparr>) s
         in set_ip_ready_bit False (s\<lparr>es_app := app_state_set_ipv4_ready False (es_app s)\<rparr>))"

definition got_ip_event_handler :: "(u32 \<times> u32 \<times> u32) option \<Rightarrow> eth_sys \<Rightarrow> eth_sys" where
  "got_ip_event_handler got_ip s =
    (case got_ip of None \<Rightarrow> s
     | Some (ip, netmask, gw) \<Rightarrow>
         let s = note_eth (\<lambda>st. st\<lparr>et_ipv4_ready := True, et_ipv4_address := ip, et_ipv4_netmask := netmask, et_ipv4_gateway := gw\<rparr>) s
         in set_ip_ready_bit True (s\<lparr>es_app := app_state_set_ipv4_ready True (es_app s)\<rparr>))"

text \<open>The driver calls of \<open>eth_service_init\<close>, in order; a \<open>bool\<close> says that the call gave an object.\<close>

record eth_setup =
  se_events :: bool
  se_mac :: bool
  se_phy :: bool
  se_driver_install :: esp_err
  se_mac_instance :: esp_err
  se_netif :: bool
  se_glue :: bool
  se_attach :: esp_err
  se_driver_config :: esp_err
  se_input_path :: esp_err
  se_eth_event :: esp_err
  se_ip_event :: esp_err
  se_get_mac :: "esp_err \<times> bytes"

definition eth_service_init :: "eth_setup \<Rightarrow> eth_sys \<Rightarrow> esp_err \<times> eth_sys" where
  "eth_service_init u s =
    (if et_initialized (es_status s) then (ESP_OK, s)
     else if \<not> es_has_events s \<and> \<not> se_events u then (ESP_ERR_NO_MEM, s)
     else
       let s = s\<lparr>es_has_events := True\<rparr> in
       if \<not> se_mac u \<or> \<not> se_phy u then (ESP_ERR_NO_MEM, s)
       else if se_driver_install u \<noteq> ESP_OK then (se_driver_install u, s)
       else if se_mac_instance u \<noteq> ESP_OK then (se_mac_instance u, s)
       else
         let s = s\<lparr>es_has_mac := True\<rparr> in
         if \<not> se_netif u \<or> \<not> se_glue u then (ESP_ERR_NO_MEM, s)
         else if se_attach u \<noteq> ESP_OK then (se_attach u, s)
         else if se_driver_config u \<noteq> ESP_OK then (se_driver_config u, s)
         else if se_input_path u \<noteq> ESP_OK then (se_input_path u, s)
         else if se_eth_event u \<noteq> ESP_OK then (se_eth_event u, s)
         else if se_ip_event u \<noteq> ESP_OK then (se_ip_event u, s)
         else if fst (se_get_mac u) \<noteq> ESP_OK then (fst (se_get_mac u), s)
         else (ESP_OK, s\<lparr> es_queue := replicate ETH_NTP_RX_QUEUE_SIZE zero_rx_entry, es_queue_next := 0, es_queue_sequence := 0,
                es_tx_probe := zero_tx_probe,
                es_status := zero_eth_status\<lparr>et_initialized := True, et_ptp_supported := True, et_mac := snd (se_get_mac u)\<rparr>\<rparr>))"

definition eth_service_start :: "esp_err \<Rightarrow> ptp_probe \<Rightarrow> bool \<Rightarrow> eth_sys \<Rightarrow> esp_err \<times> eth_sys" where
  "eth_service_start start b task_created s =
    (if \<not> et_initialized (es_status s) then (ESP_ERR_INVALID_STATE, s)
     else if et_started (es_status s) then (ESP_OK, s)
     else if start \<noteq> ESP_OK then (start, s)
     else
       let s = eth_ptp_probe b (note_eth (\<lambda>st. st\<lparr>et_started := True\<rparr>) s); st = es_status s in
       (ESP_OK, if et_ptp_enabled st \<and> et_ptp_clock_readable st \<and> et_ptp_clock_running st \<and> \<not> es_correlation_task s
                then s\<lparr>es_correlation_task := task_created\<rparr> else s))"

text \<open>The ready bit as each wait of the loop sees it; the result is how many waits it took.\<close>

partial_function (option) eth_service_wait_for_ip :: "bool \<Rightarrow> (nat \<Rightarrow> bool) \<Rightarrow> nat \<Rightarrow> nat option" where
  "eth_service_wait_for_ip has_events ready i =
    (if \<not> has_events then Some i else if ready i then Some i else eth_service_wait_for_ip has_events ready (i + 1))"

definition eth_service_get_status :: "bool \<Rightarrow> eth_sys \<Rightarrow> eth_status option" where
  "eth_service_get_status has_out s = (if has_out then Some (es_status s) else None)"

end
