(* ===== verification/Ntp_Server.thy ===== *)
theory Ntp_Server
  imports Ntp_Packet Rate_Limit Clock Nts_Ntp_Auth Eth_Service
begin

text \<open>
  \<open>src/main/ntp_server.c\<close>: the UDP server. A datagram is parsed, rate limited, authenticated when it
  carries NTS fields, and answered from the disciplined clock and the hardware receive timestamp.

  What the other tasks and the kernel answer while one datagram is served is the record
  \<open>datagram\<close>: the octets received and their sender, the hardware timestamp, \<open>sendto\<close>, the timer at
  each \<open>timer_point\<close> and the clock as seen at each \<open>clock_point\<close> (the clock task runs in between,
  so each reading sees its own state). The outer \<open>option\<close> is \<open>None\<close> for undefined behaviour: an
  access out of bounds, a division by zero or an overflow of a signed sum.
\<close>

subsection \<open>Status\<close>

text \<open>The minimum, average and maximum of a measured duration: three fields of the status each.\<close>

record duration_stats =
  du_min_us :: u32
  du_avg_us :: u32
  du_max_us :: u32

record ntp_status =
  ns_started :: bool
  ns_socket_bound :: bool
  ns_requests_received :: u32
  ns_invalid_requests :: u32
  ns_unsynchronized_drops :: u32
  ns_rate_kod_responses :: u32
  ns_normal_responses :: u32
  ns_send_failures :: u32
  ns_socket_open_failures :: u32
  ns_last_client_ipv4 :: u32
  ns_last_request_monotonic_us :: int
  ns_last_response_monotonic_us :: int
  ns_timing_samples :: u32
  ns_rx_start :: duration_stats
  ns_rx_call :: duration_stats
  ns_build :: duration_stats
  ns_tx_to_send :: duration_stats
  ns_send_call :: duration_stats
  ns_total :: duration_stats
  ns_hw_rx_compare_samples :: u32
  ns_hw_rx_compare_misses :: u32
  ns_hw_rx_delta_last_ns :: int
  ns_hw_rx_delta_min_ns :: int
  ns_hw_rx_delta_avg_ns :: int
  ns_hw_rx_delta_max_ns :: int
  ns_hw_rx_mapping_bracket_last_ns :: u32
  ns_hw_rx_mapping_age_last_us :: u32
  ns_hw_rx_authoritative_responses :: u32
  ns_hw_rx_authority_drops :: u32
  ns_advertised_stratum :: u8
  ns_advertised_leap_indicator :: u8
  ns_advertised_root_dispersion :: u32

definition zero_duration :: duration_stats where
  "zero_duration = \<lparr> du_min_us = 0, du_avg_us = 0, du_max_us = 0 \<rparr>"

definition zero_status :: ntp_status where
  "zero_status = \<lparr> ns_started = False, ns_socket_bound = False, ns_requests_received = 0, ns_invalid_requests = 0,
     ns_unsynchronized_drops = 0, ns_rate_kod_responses = 0, ns_normal_responses = 0, ns_send_failures = 0,
     ns_socket_open_failures = 0, ns_last_client_ipv4 = 0, ns_last_request_monotonic_us = 0,
     ns_last_response_monotonic_us = 0, ns_timing_samples = 0, ns_rx_start = zero_duration, ns_rx_call = zero_duration,
     ns_build = zero_duration, ns_tx_to_send = zero_duration, ns_send_call = zero_duration, ns_total = zero_duration,
     ns_hw_rx_compare_samples = 0, ns_hw_rx_compare_misses = 0, ns_hw_rx_delta_last_ns = 0, ns_hw_rx_delta_min_ns = 0,
     ns_hw_rx_delta_avg_ns = 0, ns_hw_rx_delta_max_ns = 0, ns_hw_rx_mapping_bracket_last_ns = 0,
     ns_hw_rx_mapping_age_last_us = 0, ns_hw_rx_authoritative_responses = 0, ns_hw_rx_authority_drops = 0,
     ns_advertised_stratum = 0, ns_advertised_leap_indicator = 0, ns_advertised_root_dispersion = 0 \<rparr>"

record timing_sums =
  tm_samples :: u64
  tm_rx_start_sum_us :: u64
  tm_rx_call_sum_us :: u64
  tm_build_sum_us :: u64
  tm_tx_to_send_sum_us :: u64
  tm_send_call_sum_us :: u64
  tm_total_sum_us :: u64

definition zero_sums :: timing_sums where
  "zero_sums = \<lparr> tm_samples = 0, tm_rx_start_sum_us = 0, tm_rx_call_sum_us = 0, tm_build_sum_us = 0,
     tm_tx_to_send_sum_us = 0, tm_send_call_sum_us = 0, tm_total_sum_us = 0 \<rparr>"

text \<open>All the static variables, and the state of the components the server calls.\<close>

record 'n ntp_server =
  sv_started :: bool
  sv_status :: ntp_status
  sv_timing_sums :: timing_sums
  sv_hw_rx_delta_sum_ns :: int
  sv_response_buffer :: bytes
  sv_rate :: "ntp_rate_client list"
  sv_auth :: auth_stats
  sv_store :: "'n storage"

definition clamp_duration_us :: "int \<Rightarrow> int \<Rightarrow> u32" where
  "clamp_duration_us start_us end_us =
    (if end_us \<le> start_us then 0
     else let delta = (word_of_int (end_us - start_us) :: u64) in
       if delta > 0xFFFFFFFF then 0xFFFFFFFF else ucast delta)"

definition update_min_max :: "u32 \<Rightarrow> u64 \<Rightarrow> duration_stats \<Rightarrow> duration_stats" where
  "update_min_max value sample_number d =
    (let d = (if sample_number = 1 \<or> value < du_min_us d then d\<lparr>du_min_us := value\<rparr> else d) in
     if sample_number = 1 \<or> value > du_max_us d then d\<lparr>du_max_us := value\<rparr> else d)"

definition set_average :: "u64 \<Rightarrow> u64 \<Rightarrow> duration_stats \<Rightarrow> duration_stats" where
  "set_average sum_us n d = d\<lparr>du_avg_us := ucast (sum_us div n)\<rparr>"

definition ntp_status_record_timing ::
    "u32 \<Rightarrow> u32 \<Rightarrow> u32 \<Rightarrow> u32 \<Rightarrow> u32 \<Rightarrow> u32 \<Rightarrow> timing_sums \<times> ntp_status \<Rightarrow> (timing_sums \<times> ntp_status) option" where
  "ntp_status_record_timing rx_start_us rx_call_us build_us tx_to_send_us send_call_us total_us = (\<lambda>(m, st).
    let m = m\<lparr>tm_samples := tm_samples m + 1\<rparr>;
        n = tm_samples m;
        m = m\<lparr>tm_rx_start_sum_us := tm_rx_start_sum_us m + ucast rx_start_us\<rparr>;
        m = m\<lparr>tm_rx_call_sum_us := tm_rx_call_sum_us m + ucast rx_call_us\<rparr>;
        m = m\<lparr>tm_build_sum_us := tm_build_sum_us m + ucast build_us\<rparr>;
        m = m\<lparr>tm_tx_to_send_sum_us := tm_tx_to_send_sum_us m + ucast tx_to_send_us\<rparr>;
        m = m\<lparr>tm_send_call_sum_us := tm_send_call_sum_us m + ucast send_call_us\<rparr>;
        m = m\<lparr>tm_total_sum_us := tm_total_sum_us m + ucast total_us\<rparr>
    in if n = 0 then None
       else Some (m, st\<lparr>
         ns_timing_samples := (if n > 0xFFFFFFFF then 0xFFFFFFFF else ucast n),
         ns_rx_start := update_min_max rx_start_us n (set_average (tm_rx_start_sum_us m) n (ns_rx_start st)),
         ns_rx_call := update_min_max rx_call_us n (set_average (tm_rx_call_sum_us m) n (ns_rx_call st)),
         ns_build := update_min_max build_us n (set_average (tm_build_sum_us m) n (ns_build st)),
         ns_tx_to_send := update_min_max tx_to_send_us n (set_average (tm_tx_to_send_sum_us m) n (ns_tx_to_send st)),
         ns_send_call := update_min_max send_call_us n (set_average (tm_send_call_sum_us m) n (ns_send_call st)),
         ns_total := update_min_max total_us n (set_average (tm_total_sum_us m) n (ns_total st))\<rparr>))"

definition ntp_timestamp_to_ns :: "ntp_timestamp \<Rightarrow> u64" where
  "ntp_timestamp_to_ns t =
    (let fractional_ns = drop_bit 32 ((ucast (fraction t) * 1000000000) + 0x80000000) in
     (ucast (seconds t) * 1000000000) + fractional_ns)"

definition hw_timestamp :: "hw_rx_timestamp \<Rightarrow> ntp_timestamp" where
  "hw_timestamp h = \<lparr>seconds = hw_seconds h, fraction = hw_fraction h\<rparr>"

text \<open>The sum of the differences is kept beside the status.\<close>

definition ntp_status_record_hw_rx_comparison ::
    "ntp_timestamp \<Rightarrow> hw_rx_timestamp option \<Rightarrow> int \<times> ntp_status \<Rightarrow> (int \<times> ntp_status) option" where
  "ntp_status_record_hw_rx_comparison software_rx hardware_rx = (\<lambda>(acc, st).
    case hardware_rx of
      None \<Rightarrow> Some (acc, st)
    | Some h \<Rightarrow>
        let delta_ns = sint (ntp_timestamp_to_ns software_rx) - sint (ntp_timestamp_to_ns (hw_timestamp h));
            n = ns_hw_rx_compare_samples st + 1;
            acc = acc + delta_ns
        in if n = 0 \<or> \<not> in_int64 acc then None
           else
             let avg = quot acc (uint n);
                 mn = (if n = 1 \<or> delta_ns < ns_hw_rx_delta_min_ns st then delta_ns else ns_hw_rx_delta_min_ns st);
                 mx = (if n = 1 \<or> delta_ns > ns_hw_rx_delta_max_ns st then delta_ns else ns_hw_rx_delta_max_ns st)
             in Some (acc, st\<lparr> ns_hw_rx_compare_samples := n, ns_hw_rx_delta_last_ns := delta_ns,
                  ns_hw_rx_delta_avg_ns := avg, ns_hw_rx_delta_min_ns := mn, ns_hw_rx_delta_max_ns := mx,
                  ns_hw_rx_mapping_bracket_last_ns := hw_mapping_bracket_ns h,
                  ns_hw_rx_mapping_age_last_us := hw_mapping_age_us h\<rparr>))"

definition ntp_status_record_hw_rx_miss :: "ntp_status \<Rightarrow> ntp_status" where
  "ntp_status_record_hw_rx_miss st = st\<lparr>ns_hw_rx_compare_misses := ns_hw_rx_compare_misses st + 1\<rparr>"

definition ntp_status_record_hw_rx_authoritative :: "ntp_status \<Rightarrow> ntp_status" where
  "ntp_status_record_hw_rx_authoritative st =
     st\<lparr>ns_hw_rx_authoritative_responses := ns_hw_rx_authoritative_responses st + 1\<rparr>"

definition ntp_status_record_hw_rx_authority_drop :: "ntp_status \<Rightarrow> ntp_status" where
  "ntp_status_record_hw_rx_authority_drop st = st\<lparr>ns_hw_rx_authority_drops := ns_hw_rx_authority_drops st + 1\<rparr>"

definition ntp_status_set_socket_bound :: "bool \<Rightarrow> ntp_status \<Rightarrow> ntp_status" where
  "ntp_status_set_socket_bound bound st = st\<lparr>ns_socket_bound := bound\<rparr>"

definition ntp_status_record_request :: "u32 \<Rightarrow> int \<Rightarrow> ntp_status \<Rightarrow> ntp_status" where
  "ntp_status_record_request client now_us st =
     st\<lparr>ns_requests_received := ns_requests_received st + 1, ns_last_client_ipv4 := client,
        ns_last_request_monotonic_us := now_us\<rparr>"

definition ntp_status_record_invalid_request :: "ntp_status \<Rightarrow> ntp_status" where
  "ntp_status_record_invalid_request st = st\<lparr>ns_invalid_requests := ns_invalid_requests st + 1\<rparr>"

definition ntp_status_record_unsynchronized_drop :: "ntp_status \<Rightarrow> ntp_status" where
  "ntp_status_record_unsynchronized_drop st = st\<lparr>ns_unsynchronized_drops := ns_unsynchronized_drops st + 1\<rparr>"

definition ntp_status_record_kod :: "int \<Rightarrow> ntp_status \<Rightarrow> ntp_status" where
  "ntp_status_record_kod now_us st =
     st\<lparr>ns_rate_kod_responses := ns_rate_kod_responses st + 1, ns_last_response_monotonic_us := now_us\<rparr>"

definition ntp_status_record_response :: "u8 \<Rightarrow> u8 \<Rightarrow> u32 \<Rightarrow> int \<Rightarrow> ntp_status \<Rightarrow> ntp_status" where
  "ntp_status_record_response strat leap dispersion now_us st =
     st\<lparr>ns_normal_responses := ns_normal_responses st + 1, ns_last_response_monotonic_us := now_us,
        ns_advertised_stratum := strat, ns_advertised_leap_indicator := leap,
        ns_advertised_root_dispersion := dispersion\<rparr>"

definition ntp_status_record_send_failure :: "ntp_status \<Rightarrow> ntp_status" where
  "ntp_status_record_send_failure st = st\<lparr>ns_send_failures := ns_send_failures st + 1\<rparr>"

definition ntp_status_record_socket_failure :: "ntp_status \<Rightarrow> ntp_status" where
  "ntp_status_record_socket_failure st = st\<lparr>ns_socket_open_failures := ns_socket_open_failures st + 1\<rparr>"

subsection \<open>What the server advertises\<close>

text \<open>A view of the clock: its state, whether the mutex was got, and the microsecond clock.\<close>

record clock_view =
  cv_clock :: clock_sys
  cv_got :: bool
  cv_now :: "u64 option"

definition leap_from_gnss :: "gnss_status option \<Rightarrow> u8" where
  "leap_from_gnss gnss =
    (case gnss of
       None \<Rightarrow> NTP_LI_UNSYNCED
     | Some g \<Rightarrow>
         (case gs_leap_indicator g of
            APP_LEAP_ADD_SECOND \<Rightarrow> NTP_LI_ADD_SECOND
          | APP_LEAP_DELETE_SECOND \<Rightarrow> NTP_LI_DELETE_SECOND
          | APP_LEAP_NO_WARNING \<Rightarrow> NTP_LI_NO_WARNING
          | APP_LEAP_UNKNOWN \<Rightarrow> NTP_LI_UNSYNCED))"

record server_quality =
  sq_stratum :: u8
  sq_leap :: u8
  sq_refid :: u32
  sq_dispersion :: u32

definition get_server_quality :: "clock_view \<Rightarrow> gnss_status option \<Rightarrow> server_quality option" where
  "get_server_quality v gnss =
    (case clock_discipline_get_status (cv_got v) (cv_now v) (cv_clock v) of
       None \<Rightarrow> None
     | Some cs \<Rightarrow>
         if cs_state cs = APP_CLOCK_SYNCHRONIZED \<and> cs_solution_valid cs then
           let leap = leap_from_gnss gnss in
           if leap = NTP_LI_UNSYNCED then None
           else Some \<lparr> sq_stratum = NTP_STRATUM_PRIMARY, sq_leap = leap,
             sq_refid = ntp_packet_refid_from_text ''GPS '', sq_dispersion = cs_root_dispersion_16_16 cs \<rparr>
         else if cs_state cs = APP_CLOCK_HOLDOVER \<and> cs_solution_valid cs then
           Some \<lparr> sq_stratum = NTP_STRATUM_SECONDARY, sq_leap = NTP_LI_NO_WARNING,
             sq_refid = ntp_packet_refid_from_text ''HOLD'', sq_dispersion = cs_root_dispersion_16_16 cs \<rparr>
         else None)"

definition clock_to_ntp_timestamp :: "clock_ntp_timestamp \<Rightarrow> ntp_timestamp" where
  "clock_to_ntp_timestamp t = \<lparr>seconds = ct_seconds t, fraction = ct_fraction t\<rparr>"

definition get_current_ntp_timestamp :: "clock_view \<Rightarrow> ntp_timestamp option" where
  "get_current_ntp_timestamp v =
     map_option clock_to_ntp_timestamp (clock_discipline_get_ntp_timestamp (cv_got v) (cv_now v) (cv_clock v))"

definition get_reference_ntp_timestamp :: "clock_view \<Rightarrow> ntp_timestamp option" where
  "get_reference_ntp_timestamp v =
     map_option (\<lambda>(t, age). clock_to_ntp_timestamp t)
       (clock_discipline_get_reference_timestamp (cv_got v) (cv_now v) (cv_clock v))"

definition valid_client_request :: "ntp_packet_fields \<Rightarrow> bool" where
  "valid_client_request r \<longleftrightarrow> mode r = NTP_MODE_CLIENT \<and> 1 \<le> version r \<and> version r \<le> NTP_VERSION_4"

subsection \<open>Answers\<close>

definition kod_packet :: "ntp_packet_fields \<Rightarrow> ntp_timestamp option \<Rightarrow> ntp_packet_fields" where
  "kod_packet request now =
    (let p = zero_packet\<lparr> leap_indicator := NTP_LI_UNSYNCED, version := version request, mode := NTP_MODE_SERVER,
           stratum := NTP_STRATUM_KOD, precision := -20, reference_id := ntp_packet_refid_from_text ''RATE'',
           origin_timestamp := transmit_timestamp request\<rparr>
     in case now of
          None \<Rightarrow> p
        | Some t \<Rightarrow> p\<lparr>reference_timestamp := t, receive_timestamp := t, transmit_timestamp := t\<rparr>)"

definition build_rate_kod :: "ntp_packet_fields \<Rightarrow> clock_view \<Rightarrow> bytes \<Rightarrow> bytes" where
  "build_rate_kod request v response = ntp_packet_build response (kod_packet request (get_current_ntp_timestamp v))"

datatype timer_point = Us_recv_return | Us_request | Us_rate | Us_kod | Us_rx_start | Us_rx_complete | Us_build_start
  | Us_tx_complete | Us_packet_built | Us_protected | Us_send_start | Us_send_complete | Us_response

datatype clock_point = Clock_kod | Clock_software_receive | Clock_quality | Clock_reference | Clock_transmit

record datagram =
  dg_packet :: bytes
  dg_ipv4 :: u32
  dg_port :: u16
  dg_hw_rx :: "hw_rx_timestamp option"
  dg_timer :: "timer_point \<Rightarrow> int"
  dg_clock :: "clock_point \<Rightarrow> clock_view"
  dg_gnss :: "gnss_status option"
  dg_cookie_now :: "clock_ntp_timestamp option"
  dg_unpack_now :: "clock_ntp_timestamp option"
  dg_protect_nows :: "nat \<Rightarrow> clock_ntp_timestamp option"
  dg_sendto :: "bytes \<Rightarrow> int"

definition response_packet ::
    "ntp_packet_fields \<Rightarrow> server_quality \<Rightarrow> ntp_timestamp \<Rightarrow> ntp_timestamp \<Rightarrow> ntp_timestamp \<Rightarrow> ntp_packet_fields" where
  "response_packet request q reference receive transmit =
     zero_packet\<lparr> leap_indicator := sq_leap q, version := version request, mode := NTP_MODE_SERVER,
       stratum := sq_stratum q, precision := -20, root_delay := 0, root_dispersion := sq_dispersion q,
       reference_id := sq_refid q, reference_timestamp := reference, origin_timestamp := transmit_timestamp request,
       receive_timestamp := receive, transmit_timestamp := transmit\<rparr>"

definition build_server_response ::
    "datagram \<Rightarrow> ntp_packet_fields \<Rightarrow> ntp_timestamp \<Rightarrow> bytes \<Rightarrow> (bytes \<times> server_quality) option" where
  "build_server_response d request receive response =
    (case get_server_quality (dg_clock d Clock_quality) (dg_gnss d) of
       None \<Rightarrow> None
     | Some q \<Rightarrow>
         (case get_reference_ntp_timestamp (dg_clock d Clock_reference) of
            None \<Rightarrow> None
          | Some reference \<Rightarrow>
              (case get_current_ntp_timestamp (dg_clock d Clock_transmit) of
                 None \<Rightarrow> None
               | Some transmit \<Rightarrow> Some (ntp_packet_build response (response_packet request q reference receive transmit), q))))"

subsection \<open>One datagram\<close>

definition zero_context :: auth_context where
  "zero_context = \<lparr> ac_unique_id = replicate NTS_NTP_MAX_UID_LEN 0, ac_unique_id_len = 0, ac_valid_placeholders = 0,
     ac_request_length = 0, ac_keys = zero_keys, ac_authenticated = False \<rparr>"

abbreviation note_status :: "(ntp_status \<Rightarrow> ntp_status) \<Rightarrow> 'n ntp_server \<Rightarrow> 'n ntp_server" where
  "note_status f s \<equiv> s\<lparr>sv_status := f (sv_status s)\<rparr>"

text \<open>
  The tail of the loop body: what is handed to \<open>sendto\<close>, and how its result is booked. \<open>built\<close> is the
  reading \<open>timing_packet_built_us\<close> holds by then.
\<close>

definition send_response ::
    "datagram \<Rightarrow> server_quality \<Rightarrow> timer_point \<Rightarrow> nat \<Rightarrow> 'n ntp_server \<Rightarrow> (bytes option \<times> 'n ntp_server) option" where
  "send_response d q built len s =
    Option.bind (rd_slice (sv_response_buffer s) 0 len) (\<lambda>data.
      if dg_sendto d data = int len then
        map_option (\<lambda>(m, st). (Some data, s\<lparr>sv_timing_sums := m,
            sv_status := ntp_status_record_response (sq_stratum q) (sq_leap q) (sq_dispersion q) (dg_timer d Us_response) st\<rparr>))
          (ntp_status_record_timing
            (clamp_duration_us (dg_timer d Us_recv_return) (dg_timer d Us_rx_start))
            (clamp_duration_us (dg_timer d Us_rx_start) (dg_timer d Us_rx_complete))
            (clamp_duration_us (dg_timer d Us_build_start) (dg_timer d built))
            (clamp_duration_us (dg_timer d Us_tx_complete) (dg_timer d Us_send_start))
            (clamp_duration_us (dg_timer d Us_send_start) (dg_timer d Us_send_complete))
            (clamp_duration_us (dg_timer d Us_recv_return) (dg_timer d Us_send_complete))
            (sv_timing_sums s, sv_status s))
      else Some (Some data, note_status ntp_status_record_send_failure s))"

text \<open>From the software timestamp on; \<open>nts\<close> is the context of an authenticated NTS request.\<close>

definition answer_request ::
    "'n nvs_api \<Rightarrow> psa \<Rightarrow> datagram \<Rightarrow> ntp_packet_fields \<Rightarrow> auth_context option \<Rightarrow> 'n ntp_server \<Rightarrow>
     (bytes option \<times> 'n ntp_server) option" where
  "answer_request api P d request nts s =
    (case get_current_ntp_timestamp (dg_clock d Clock_software_receive) of
       None \<Rightarrow> Some (None, note_status ntp_status_record_unsynchronized_drop s)
     | Some software_receive \<Rightarrow>
         if dg_hw_rx d = None then Some (None, note_status ntp_status_record_hw_rx_authority_drop s)
         else
           Option.bind (ntp_status_record_hw_rx_comparison software_receive (dg_hw_rx d)
               (sv_hw_rx_delta_sum_ns s, sv_status s)) (\<lambda>(acc, st).
             let s1 = s\<lparr>sv_hw_rx_delta_sum_ns := acc, sv_status := ntp_status_record_hw_rx_authoritative st\<rparr> in
             case build_server_response d request (hw_timestamp (the (dg_hw_rx d))) (sv_response_buffer s1) of
               None \<Rightarrow> Some (None, note_status ntp_status_record_unsynchronized_drop s1)
             | Some (response, q) \<Rightarrow>
                 let s2 = s1\<lparr>sv_response_buffer := response\<rparr> in
                 (case nts of
                    None \<Rightarrow> send_response d q Us_packet_built NTP_PACKET_SIZE s2
                  | Some ctx \<Rightarrow>
                      Option.bind (nts_ntp_auth_protect_response api P (dg_protect_nows d) ctx (sv_response_buffer s2)
                          NTP_PACKET_SIZE NTS_NTP_MAX_PACKET_SIZE NTP_PACKET_SIZE (sv_auth s2) (sv_store s2))
                        (\<lambda>((err, buffer, len), auth, store).
                          let s3 = s2\<lparr>sv_response_buffer := buffer, sv_auth := auth, sv_store := store\<rparr> in
                          if err \<noteq> ESP_OK then Some (None, note_status ntp_status_record_send_failure s3)
                          else send_response d q Us_protected len s3))))"

definition send_kod :: "datagram \<Rightarrow> ntp_packet_fields \<Rightarrow> 'n ntp_server \<Rightarrow> (bytes option \<times> 'n ntp_server) option" where
  "send_kod d request s =
    (let s1 = s\<lparr>sv_response_buffer := build_rate_kod request (dg_clock d Clock_kod) (sv_response_buffer s)\<rparr> in
     Option.bind (rd_slice (sv_response_buffer s1) 0 NTP_PACKET_SIZE) (\<lambda>data.
       Some (Some data,
         if dg_sendto d data = int NTP_PACKET_SIZE
         then note_status (ntp_status_record_kod (dg_timer d Us_kod)) s1
         else note_status ntp_status_record_send_failure s1)))"

text \<open>The result is what was handed to \<open>sendto\<close> (if anything) and the state.\<close>

definition serve_datagram ::
    "'n nvs_api \<Rightarrow> psa \<Rightarrow> datagram \<Rightarrow> 'n ntp_server \<Rightarrow> (bytes option \<times> 'n ntp_server) option" where
  "serve_datagram api P d s =
    (let s1 = note_status (ntp_status_record_request (dg_ipv4 d) (dg_timer d Us_request)) s;
         s2 = (if dg_hw_rx d = None then note_status ntp_status_record_hw_rx_miss s1 else s1);
         invalid = (\<lambda>s. Some (None, note_status ntp_status_record_invalid_request s))
     in case ntp_packet_parse (dg_packet d) of
       None \<Rightarrow> invalid s2
     | Some request \<Rightarrow>
         if \<not> valid_client_request request then invalid s2
         else Option.bind (nts_ntp_auth_request_present (dg_packet d)) (\<lambda>nts_request.
           if nts_request \<and> version request \<noteq> NTP_VERSION_4 then invalid s2
           else
             let ((allowed, kod), rate) = ntp_rate_limit_allow (sv_rate s2) (dg_ipv4 d) (dg_timer d Us_rate);
                 s3 = s2\<lparr>sv_rate := rate\<rparr>
             in if \<not> allowed then
                  (if kod \<and> \<not> nts_request then send_kod d request s3 else Some (None, s3))
                else if nts_request then
                  Option.bind (nts_ntp_auth_verify_request api P (dg_cookie_now d) (dg_unpack_now d) (dg_packet d)
                      zero_context (sv_auth s3) (sv_store s3))
                    (\<lambda>((err, ctx), auth, store).
                      let s4 = s3\<lparr>sv_auth := auth, sv_store := store\<rparr> in
                      if err \<noteq> ESP_OK then invalid s4 else answer_request api P d request (Some ctx) s4)
                else answer_request api P d request None s3))"

subsection \<open>The task and its control\<close>

text \<open>The socket calls and what they return.\<close>

definition ntp_server_open_socket :: "int \<Rightarrow> int \<Rightarrow> int" where
  "ntp_server_open_socket socket_ret bind_ret = (if socket_ret < 0 then -1 else if bind_ret < 0 then -1 else socket_ret)"

datatype task_input = Socket_opened int int | Receive_failed | Received datagram

text \<open>
  The two nested loops as a step of the task: without a socket it tries to open one, with a
  socket it receives. The first component says whether it holds a socket; an input of the other
  loop does not arise and is ignored.
\<close>

definition ntp_server_task ::
    "'n nvs_api \<Rightarrow> psa \<Rightarrow> task_input \<Rightarrow> bool \<times> 'n ntp_server \<Rightarrow> (bytes option \<times> bool \<times> 'n ntp_server) option" where
  "ntp_server_task api P i = (\<lambda>(listening, s).
    case i of
      Socket_opened socket_ret bind_ret \<Rightarrow>
        if listening then Some (None, listening, s)
        else if ntp_server_open_socket socket_ret bind_ret < 0
        then Some (None, False,
          note_status (ntp_status_set_socket_bound False) (note_status ntp_status_record_socket_failure s))
        else Some (None, True, note_status (ntp_status_set_socket_bound True) s)
    | Receive_failed \<Rightarrow> Some (None, listening, s)
    | Received d \<Rightarrow>
        if listening then map_option (\<lambda>(sent, s'). (sent, True, s')) (serve_datagram api P d s)
        else Some (None, listening, s))"

definition zero_auth_stats :: auth_stats where
  "zero_auth_stats = \<lparr> as_verification_attempts = 0, as_authenticated_requests = 0, as_verification_failures = 0,
     as_protected_responses = 0, as_protection_failures = 0 \<rparr>"

text \<open>The static variables as the program starts.\<close>

definition server_boot :: "'n storage \<Rightarrow> 'n ntp_server" where
  "server_boot store = \<lparr> sv_started = False, sv_status = zero_status, sv_timing_sums = zero_sums, sv_hw_rx_delta_sum_ns = 0,
     sv_response_buffer = replicate NTS_NTP_MAX_PACKET_SIZE 0, sv_rate = ntp_rate_limit_init, sv_auth = zero_auth_stats,
     sv_store = store \<rparr>"

text \<open>
  The start. \<open>server_prepared\<close> is what it leaves when it creates the task: from then on the task runs, also before
  \<open>s_started\<close> is set.
\<close>

definition server_prepared :: "'n ntp_server \<Rightarrow> 'n ntp_server" where
  "server_prepared s = s\<lparr> sv_rate := ntp_rate_limit_init,
     sv_status := zero_status\<lparr> ns_started := True, ns_advertised_stratum := NTP_STRATUM_UNSYNCED,
       ns_advertised_leap_indicator := NTP_LI_UNSYNCED\<rparr>,
     sv_timing_sums := zero_sums, sv_hw_rx_delta_sum_ns := 0\<rparr>"

definition ntp_server_start :: "bool \<Rightarrow> 'n ntp_server \<Rightarrow> esp_err \<times> 'n ntp_server" where
  "ntp_server_start task_created s =
    (if sv_started s then (ESP_OK, s)
     else if \<not> task_created then (ESP_ERR_NO_MEM, (server_prepared s)\<lparr>sv_status := zero_status\<rparr>)
     else (ESP_OK, (server_prepared s)\<lparr>sv_started := True\<rparr>))"

definition ntp_server_get_status :: "clock_view \<Rightarrow> gnss_status option \<Rightarrow> 'n ntp_server \<Rightarrow> ntp_status" where
  "ntp_server_get_status v gnss s =
    (case get_server_quality v gnss of
       Some q \<Rightarrow> (sv_status s)\<lparr> ns_advertised_stratum := sq_stratum q, ns_advertised_leap_indicator := sq_leap q,
         ns_advertised_root_dispersion := sq_dispersion q\<rparr>
     | None \<Rightarrow> (sv_status s)\<lparr> ns_advertised_stratum := NTP_STRATUM_UNSYNCED,
         ns_advertised_leap_indicator := NTP_LI_UNSYNCED, ns_advertised_root_dispersion := 0\<rparr>)"

end
