(* ===== verification/Ntp_Server_Theory.thy ===== *)
theory Ntp_Server_Theory
  imports Ntp_Server Nts_Ntp_Auth_Theory Clock_Theory
begin

text \<open>
  What the NTP server guarantees: every datagram it sends is a kiss-o'-death to a client over its limit
  or an answer backed by the disciplined clock and the hardware timestamp; it serves whenever
  these are there; no datagram makes it fail or send more than it received; and its status is
  consistent in every reachable state.
\<close>

subsection \<open>Timestamps\<close>

lemma rounded_fraction:
  assumes "0 \<le> f" "f \<le> (4294967295 :: int)"
  shows "(f * 1000000000 + 2147483648) div 4294967296 \<le> 1000000000" "0 \<le> (f * 1000000000 + 2147483648) div 4294967296"
proof -
  let ?x = "f * 1000000000 + 2147483648"
  have "?x = 4294967296 * (?x div 4294967296) + ?x mod 4294967296" "0 \<le> ?x mod 4294967296" "?x mod 4294967296 < 4294967296"
    by simp_all
  then show "?x div 4294967296 \<le> 1000000000" "0 \<le> ?x div 4294967296" using assms by linarith+
qed

lemma ntp_timestamp_to_ns_exact:
  "uint (ntp_timestamp_to_ns t) = uint (seconds t) * 1000000000 + (uint (fraction t) * 1000000000 + 2147483648) div 4294967296"
proof -
  have f: "uint (fraction t) \<le> 4294967295" "uint (seconds t) \<le> 4294967295" "0 \<le> uint (fraction t)" "0 \<le> uint (seconds t)"
    using uint_lt2p [of "fraction t"] uint_lt2p [of "seconds t"] by simp_all
  have a: "uint ((ucast (fraction t) * 1000000000) + 0x80000000 :: u64) = uint (fraction t) * 1000000000 + 2147483648"
    using f by (simp add: uint_word_ariths uint_ucast_widen)
  have b: "uint (drop_bit 32 ((ucast (fraction t) * 1000000000) + 0x80000000 :: u64)) =
      (uint (fraction t) * 1000000000 + 2147483648) div 4294967296"
    unfolding drop_bit_eq_div using a by (simp add: uint_div)
  have d: "(uint (fraction t) * 1000000000 + 2147483648) div 4294967296 \<le> 1000000000"
    "0 \<le> (uint (fraction t) * 1000000000 + 2147483648) div 4294967296" using rounded_fraction f by simp_all
  have s: "uint (ucast (seconds t) * 1000000000 :: u64) = uint (seconds t) * 1000000000"
    using f by (simp add: uint_word_ariths uint_ucast_widen)
  have "uint ((ucast (seconds t) * 1000000000) + drop_bit 32 ((ucast (fraction t) * 1000000000) + 0x80000000) :: u64) =
      uint (seconds t) * 1000000000 + (uint (fraction t) * 1000000000 + 2147483648) div 4294967296"
    unfolding uint_plus_simple_iff [symmetric] using f d by (subst uint_word_ariths(1)) (simp add: s b)
  then show ?thesis by (simp add: ntp_timestamp_to_ns_def)
qed

lemma to_ns_bound: "0 \<le> sint (ntp_timestamp_to_ns t) \<and> sint (ntp_timestamp_to_ns t) < 2 ^ 62"
proof -
  have f: "uint (fraction t) \<le> 4294967295" "uint (seconds t) \<le> 4294967295" "0 \<le> uint (fraction t)" "0 \<le> uint (seconds t)"
    using uint_lt2p [of "fraction t"] uint_lt2p [of "seconds t"] by simp_all
  then have u: "uint (ntp_timestamp_to_ns t) < 2 ^ 62" unfolding ntp_timestamp_to_ns_exact
    using rounded_fraction [of "uint (fraction t)"] by simp
  have nn: "- 9223372036854775808 \<le> uint (ntp_timestamp_to_ns t)" by (rule order_trans [of _ 0]) simp_all
  from u have "sint (ntp_timestamp_to_ns t) = uint (ntp_timestamp_to_ns t)"
    unfolding sint_uint by (intro signed_take_bit_int_eq_self) (simp_all add: nn)
  then show ?thesis using u by simp
qed

subsection \<open>Sending\<close>

text \<open>The counters whose wrap-around is undefined behaviour are short of it.\<close>

definition no_wrap :: "'n ntp_server \<Rightarrow> bool" where
  "no_wrap s \<longleftrightarrow> tm_samples (sv_timing_sums s) + 1 \<noteq> 0 \<and> ns_hw_rx_compare_samples (sv_status s) + 1 \<noteq> 0 \<and>
     \<bar>sv_hw_rx_delta_sum_ns s\<bar> \<le> 2 ^ 62"

lemma record_timing_returns:
  "tm_samples m + 1 \<noteq> 0 \<Longrightarrow> ntp_status_record_timing a b c d e f (m, st) \<noteq> None"
  by (simp add: ntp_status_record_timing_def Let_def)

lemma send_response_returns:
  assumes "tm_samples (sv_timing_sums s) + 1 \<noteq> 0" "len \<le> length (sv_response_buffer s)"
  shows "\<exists>s'. send_response d q b len s = Some (Some (take len (sv_response_buffer s)), s') \<and>
    sv_response_buffer s' = sv_response_buffer s \<and> sv_rate s' = sv_rate s"
proof -
  have rd: "rd_slice (sv_response_buffer s) 0 len = Some (take len (sv_response_buffer s))"
    using assms(2) by (simp add: rd_slice_def bslice_def)
  show ?thesis
    using assms(1) by (auto simp: send_response_def rd ntp_status_record_timing_def Let_def simp del: checked_in_range)
qed

lemma send_response_sends:
  assumes "send_response d q b len s = Some (sent, s')"
  shows "len \<le> length (sv_response_buffer s) \<and> sent = Some (take len (sv_response_buffer s))"
  using assms
  by (auto simp: send_response_def bind_eq_Some_conv rd_slice_Some bslice_def split: if_splits)

lemma comparison_returns:
  assumes "no_wrap s"
  shows "ntp_status_record_hw_rx_comparison t h (sv_hw_rx_delta_sum_ns s, sv_status s) \<noteq> None"
proof (cases h)
  case None
  then show ?thesis by (simp add: ntp_status_record_hw_rx_comparison_def)
next
  case (Some g)
  let ?d = "sint (ntp_timestamp_to_ns t) - sint (ntp_timestamp_to_ns (hw_timestamp g))"
  have two: "(2 :: int) ^ 63 = 2 * 2 ^ 62" by simp
  have "in_int64 (sv_hw_rx_delta_sum_ns s + ?d)"
    using assms to_ns_bound [of t] to_ns_bound [of "hw_timestamp g"] two unfolding in_int64_def no_wrap_def by linarith
  then show ?thesis using assms Some by (simp add: ntp_status_record_hw_rx_comparison_def no_wrap_def Let_def)
qed

subsection \<open>Answers\<close>

text \<open>When the answer path is open, and the header it sends then.\<close>

definition header_ready :: "datagram \<Rightarrow> ntp_packet_fields \<Rightarrow> ntp_packet_fields \<Rightarrow> bool" where
  "header_ready d request f \<longleftrightarrow>
     (\<exists>q reference transmit h. get_current_ntp_timestamp (dg_clock d Clock_software_receive) \<noteq> None \<and> dg_hw_rx d = Some h \<and>
        get_server_quality (dg_clock d Clock_quality) (dg_gnss d) = Some q \<and>
        get_reference_ntp_timestamp (dg_clock d Clock_reference) = Some reference \<and>
        get_current_ntp_timestamp (dg_clock d Clock_transmit) = Some transmit \<and>
        f = response_packet request q reference (hw_timestamp h) transmit)"

lemma answer_sends:
  assumes "answer_request api P d request nts s = Some (Some data, s')" "length (sv_response_buffer s) = 1280"
    and "\<forall>ctx. nts = Some ctx \<longrightarrow> ac_unique_id_len ctx \<le> length (ac_unique_id ctx)"
  shows "\<exists>f. header_ready d request f \<and> take 48 data = ntp_packet_bytes f \<and> 48 \<le> length data \<and>
    (case nts of None \<Rightarrow> length data = 48 | Some ctx \<Rightarrow> length data \<le> ac_request_length ctx)"
proof -
  obtain sw h where sw: "get_current_ntp_timestamp (dg_clock d Clock_software_receive) = Some sw" "dg_hw_rx d = Some h"
    using assms(1) by (auto simp: answer_request_def split: option.splits if_splits)
  obtain acc st where c: "ntp_status_record_hw_rx_comparison sw (dg_hw_rx d) (sv_hw_rx_delta_sum_ns s, sv_status s) = Some (acc, st)"
    using assms(1) sw by (auto simp: answer_request_def bind_eq_Some_conv)
  let ?s1 = "s\<lparr>sv_hw_rx_delta_sum_ns := acc, sv_status := ntp_status_record_hw_rx_authoritative st\<rparr>"
  obtain response q where b: "build_server_response d request (hw_timestamp h) (sv_response_buffer s) = Some (response, q)"
    using assms(1) sw c by (auto simp: answer_request_def Let_def split: option.splits)
  obtain reference transmit where r: "get_server_quality (dg_clock d Clock_quality) (dg_gnss d) = Some q"
    "get_reference_ntp_timestamp (dg_clock d Clock_reference) = Some reference"
    "get_current_ntp_timestamp (dg_clock d Clock_transmit) = Some transmit"
    "response = ntp_packet_build (sv_response_buffer s) (response_packet request q reference (hw_timestamp h) transmit)"
    using b by (auto simp: build_server_response_def split: option.splits)
  let ?f = "response_packet request q reference (hw_timestamp h) transmit"
  have resp: "response = ntp_packet_bytes ?f @ drop 48 (sv_response_buffer s)"
    using assms(2) by (simp add: r(4) ntp_packet_build_eq)
  then have l: "length response = 1280" "take 48 response = ntp_packet_bytes ?f" using assms(2) by simp_all
  have ready: "header_ready d request ?f" using sw r by (auto simp: header_ready_def)
  show ?thesis
  proof (cases nts)
    case None
    have "send_response d q Us_packet_built 48 (?s1\<lparr>sv_response_buffer := response\<rparr>) = Some (Some data, s')"
      using assms(1) by (simp add: answer_request_def sw c [unfolded sw] b None Let_def)
    from send_response_sends [OF this] show ?thesis using ready l None by auto
  next
    case (Some ctx)
    obtain err buf len auth store where p: "nts_ntp_auth_protect_response api P (dg_protect_nows d) ctx response 48 1280 48
        (sv_auth s) (sv_store s) = Some ((err, buf, len), auth, store)"
      using assms(1) by (auto simp: answer_request_def sw c [unfolded sw] b Some Let_def bind_eq_Some_conv auth_lens)
    have err: "err = ESP_OK" and
      snd: "send_response d q Us_protected len (?s1\<lparr>sv_response_buffer := buf, sv_auth := auth, sv_store := store\<rparr>) = Some (Some data, s')"
      using assms(1) p by (auto simp: answer_request_def sw c [unfolded sw] b Some Let_def auth_lens split: if_splits)
    have "length buf = 1280 \<and> take 48 buf = take 48 response \<and> len \<le> ac_request_length ctx \<and> 48 \<le> len"
      using protect_returns [of ctx 1280 response api P "dg_protect_nows d" 48 48 "sv_store s"] p err l(1) assms(3) Some
      by (auto simp: nts_ntp_auth_protect_response_def)
    then show ?thesis using send_response_sends [OF snd] ready l(2) Some by (auto simp: min_def)
  qed
qed

lemma answer_returns:
  assumes "no_wrap s" "length (sv_response_buffer s) = 1280"
    and "\<forall>ctx. nts = Some ctx \<longrightarrow> ac_unique_id_len ctx \<le> length (ac_unique_id ctx)"
  shows "\<exists>sent s'. answer_request api P d request nts s = Some (sent, s') \<and> length (sv_response_buffer s') = 1280 \<and>
    sv_rate s' = sv_rate s"
proof (cases "get_current_ntp_timestamp (dg_clock d Clock_software_receive) = None \<or> dg_hw_rx d = None")
  case True
  then show ?thesis using assms(2) by (auto simp: answer_request_def split: option.splits)
next
  case False
  then obtain sw h where sw: "get_current_ntp_timestamp (dg_clock d Clock_software_receive) = Some sw" "dg_hw_rx d = Some h" by auto
  obtain acc st where c: "ntp_status_record_hw_rx_comparison sw (Some h) (sv_hw_rx_delta_sum_ns s, sv_status s) = Some (acc, st)"
    using comparison_returns [OF assms(1), of sw "Some h"] by auto
  let ?s1 = "s\<lparr>sv_hw_rx_delta_sum_ns := acc, sv_status := ntp_status_record_hw_rx_authoritative st\<rparr>"
  have n: "tm_samples (sv_timing_sums s) + 1 \<noteq> 0" using assms(1) by (simp add: no_wrap_def)
  show ?thesis
  proof (cases "build_server_response d request (hw_timestamp h) (sv_response_buffer s)")
    case None
    then show ?thesis using assms(2) by (simp add: answer_request_def sw c Let_def)
  next
    case (Some rq)
    obtain response q where rq: "rq = (response, q)" by fastforce
    have l: "length response = 1280"
      using Some rq assms(2) by (auto simp: build_server_response_def ntp_packet_build_eq split: option.splits)
    show ?thesis
    proof (cases nts)
      case None
      then show ?thesis
        using send_response_returns [of "?s1\<lparr>sv_response_buffer := response\<rparr>" 48 d q Us_packet_built] n l
        by (auto simp: answer_request_def sw c Let_def Some rq)
    next
      case ctx: (Some ctx)
      obtain err buf len auth store where p: "nts_ntp_auth_protect_response api P (dg_protect_nows d) ctx response 48 1280 48
          (sv_auth s) (sv_store s) = Some ((err, buf, len), auth, store)" "length buf = 1280" "err = ESP_OK \<longrightarrow> len \<le> 1280"
        using protect_returns [of ctx 1280 response api P "dg_protect_nows d" 48 48 "sv_store s"] l assms(3) ctx
        by (auto simp: nts_ntp_auth_protect_response_def)
      show ?thesis
        using send_response_returns [of "?s1\<lparr>sv_response_buffer := buf, sv_auth := auth, sv_store := store\<rparr>" len d q Us_protected] n p
        by (auto simp: answer_request_def sw c Let_def Some rq ctx auth_lens)
    qed
  qed
qed

subsection \<open>One datagram\<close>

lemma scan_total: "nts_ntp_auth_request_present p \<noteq> None"
  using request_scan_returns [of 48 p] by (auto simp: nts_ntp_auth_request_present_def auth_lens)

lemma build_kod_bytes:
  "length b = 1280 \<Longrightarrow> build_rate_kod request v b =
     ntp_packet_bytes (kod_packet request (get_current_ntp_timestamp v)) @ drop 48 b"
  by (simp add: build_rate_kod_def ntp_packet_build_eq)

text \<open>What the limiter answers to a datagram, and when NTS fields are acceptable.\<close>

definition limiter :: "datagram \<Rightarrow> 'n ntp_server \<Rightarrow> (bool \<times> bool) \<times> ntp_rate_client list" where
  "limiter d s = ntp_rate_limit_allow (sv_rate s) (dg_ipv4 d) (dg_timer d Us_rate)"

definition verified :: "'n nvs_api \<Rightarrow> psa \<Rightarrow> datagram \<Rightarrow> 'n ntp_server \<Rightarrow> auth_context \<Rightarrow> bool" where
  "verified api P d s ctx \<longleftrightarrow> (\<exists>auth store. nts_ntp_auth_verify_request api P (dg_cookie_now d) (dg_unpack_now d) (dg_packet d)
     zero_context (sv_auth s) (sv_store s) = Some ((ESP_OK, ctx), auth, store))"

text \<open>The entry of the loop body: everything before the answer.\<close>

definition entered :: "datagram \<Rightarrow> 'n ntp_server \<Rightarrow> 'n ntp_server" where
  "entered d s = (let s1 = note_status (ntp_status_record_request (dg_ipv4 d) (dg_timer d Us_request)) s in
     if dg_hw_rx d = None then note_status ntp_status_record_hw_rx_miss s1 else s1)"

lemma entered_frame [simp]:
  "sv_response_buffer (entered d s) = sv_response_buffer s" "sv_rate (entered d s) = sv_rate s"
  "sv_auth (entered d s) = sv_auth s" "sv_store (entered d s) = sv_store s" "limiter d (entered d s) = limiter d s"
  "verified api P d (entered d s) = verified api P d s" "no_wrap (entered d s) = no_wrap s"
  by (auto simp: entered_def Let_def limiter_def verified_def no_wrap_def ntp_status_record_request_def
      ntp_status_record_hw_rx_miss_def fun_eq_iff)

lemma serve_eq:
  assumes "ntp_packet_parse (dg_packet d) = Some request" "valid_client_request request"
    and "nts_ntp_auth_request_present (dg_packet d) = Some present" "present \<longrightarrow> version request = 4"
    and "limiter d s = ((allowed, kod), rate)"
  shows "serve_datagram api P d s =
     (let s3 = (entered d s)\<lparr>sv_rate := rate\<rparr> in
      if \<not> allowed then (if kod \<and> \<not> present then send_kod d request s3 else Some (None, s3))
      else if present then
        Option.bind (nts_ntp_auth_verify_request api P (dg_cookie_now d) (dg_unpack_now d) (dg_packet d)
            zero_context (sv_auth s) (sv_store s))
          (\<lambda>((err, ctx), auth, store).
            let s4 = s3\<lparr>sv_auth := auth, sv_store := store\<rparr> in
            if err \<noteq> ESP_OK then Some (None, note_status ntp_status_record_invalid_request s4)
            else answer_request api P d request (Some ctx) s4)
      else answer_request api P d request None s3)"
  using assms by (cases "dg_hw_rx d"; cases present) (simp_all add: serve_datagram_def Let_def entered_def limiter_def)

lemma serve_sends:
  assumes "serve_datagram api P d s = Some (Some data, s')" "length (sv_response_buffer s) = 1280"
  shows "\<exists>request present f. ntp_packet_parse (dg_packet d) = Some request \<and> valid_client_request request \<and>
    nts_ntp_auth_request_present (dg_packet d) = Some present \<and> take 48 data = ntp_packet_bytes f \<and>
    48 \<le> length data \<and> length data \<le> length (dg_packet d) \<and> (\<not> present \<longrightarrow> length data = 48) \<and>
    (fst (fst (limiter d s)) \<and> header_ready d request f \<and>
       (present \<longrightarrow> version request = 4 \<and> (\<exists>ctx. verified api P d s ctx))
     \<or> \<not> fst (fst (limiter d s)) \<and> \<not> present \<and>
       f = kod_packet request (get_current_ntp_timestamp (dg_clock d Clock_kod)))"
proof -
  obtain request where r: "ntp_packet_parse (dg_packet d) = Some request" "valid_client_request request"
    using assms(1) by (auto simp: serve_datagram_def Let_def split: option.splits if_splits)
  obtain present where p: "nts_ntp_auth_request_present (dg_packet d) = Some present" using scan_total by blast
  obtain allowed kod rate where l: "limiter d s = ((allowed, kod), rate)" by (metis prod_cases3 surj_pair)
  have len: "48 \<le> length (dg_packet d)" using r(1) by (simp add: ntp_packet_parse_def split: if_splits)
  have v4: "present \<longrightarrow> version request = 4" using assms(1) r p by (auto simp: serve_datagram_def Let_def split: if_splits)
  let ?s3 = "(entered d s)\<lparr>sv_rate := rate\<rparr>"
  note s = serve_eq [OF r p v4 l, of api P, unfolded Let_def]
  show ?thesis
  proof (cases allowed)
    case False
    then have k: "kod" "\<not> present" "send_kod d request ?s3 = Some (Some data, s')" using assms(1) s by (auto split: if_splits)
    then have "data = ntp_packet_bytes (kod_packet request (get_current_ntp_timestamp (dg_clock d Clock_kod)))"
      using assms(2) by (auto simp: send_kod_def build_kod_bytes rd_slice_def bslice_def Let_def)
    then show ?thesis using r p l False k len by auto
  next
    case True
    show ?thesis
    proof (cases present)
      case False
      then have "answer_request api P d request None ?s3 = Some (Some data, s')" using assms(1) s True by simp
      from answer_sends [OF this] obtain f where f: "header_ready d request f" "take 48 data = ntp_packet_bytes f" "length data = 48"
        using assms(2) by auto
      show ?thesis
        by (intro exI [of _ request] exI [of _ present] exI [of _ f]) (use r p l f True False len in simp)
    next
      case present: True
      then obtain ctx auth store where v: "nts_ntp_auth_verify_request api P (dg_cookie_now d) (dg_unpack_now d) (dg_packet d)
            zero_context (sv_auth s) (sv_store s) = Some ((ESP_OK, ctx), auth, store)"
        and a: "answer_request api P d request (Some ctx) (?s3\<lparr>sv_auth := auth, sv_store := store\<rparr>) = Some (Some data, s')"
        using assms(1) s True by (auto simp: bind_eq_Some_conv Let_def split: if_splits)
      note shape = verified_shape [OF verify_public [OF v]]
      have "verified api P d s ctx" using v by (auto simp: verified_def)
      moreover from answer_sends [OF a] obtain f where f: "header_ready d request f" "take 48 data = ntp_packet_bytes f"
        "48 \<le> length data" "length data \<le> ac_request_length ctx" using assms(2) shape by auto
      ultimately show ?thesis
        by (intro exI [of _ request] exI [of _ present] exI [of _ f]) (use r p l True present v4 shape in auto)
    qed
  qed
qed

lemma serve_returns:
  assumes "no_wrap s" "length (sv_response_buffer s) = 1280" "table_ok (sv_rate s)"
  shows "\<exists>sent s'. serve_datagram api P d s = Some (sent, s') \<and> length (sv_response_buffer s') = 1280 \<and> table_ok (sv_rate s')"
proof -
  have tab: "table_ok (snd (limiter d s))" using table_ok_allow [OF assms(3)] by (simp add: limiter_def)
  show ?thesis
  proof (cases "ntp_packet_parse (dg_packet d)")
    case None
    then show ?thesis using assms by (simp add: serve_datagram_def Let_def)
  next
    case (Some request)
    obtain present where p: "nts_ntp_auth_request_present (dg_packet d) = Some present" using scan_total by blast
    obtain allowed kod rate where l: "limiter d s = ((allowed, kod), rate)" by (metis prod_cases3 surj_pair)
    show ?thesis
    proof (cases "valid_client_request request \<and> (present \<longrightarrow> version request = 4)")
      case False
      then show ?thesis using assms Some p by (auto simp: serve_datagram_def Let_def)
    next
      case True
      let ?s3 = "(entered d s)\<lparr>sv_rate := rate\<rparr>"
      note s = serve_eq [OF Some _ p _ l, of api P, unfolded Let_def]
      have s3: "no_wrap ?s3" "length (sv_response_buffer ?s3) = 1280" "table_ok (sv_rate ?s3)"
        using assms tab l by (simp_all add: no_wrap_def entered_def Let_def ntp_status_record_request_def
            ntp_status_record_hw_rx_miss_def)
      show ?thesis
      proof (cases "allowed")
        case False
        then show ?thesis using s True s3
          by (auto simp: send_kod_def Let_def build_kod_bytes rd_slice_def)
      next
        case ok: True
        show ?thesis
        proof (cases present)
          case False
          then show ?thesis using answer_returns [OF s3(1,2), of None api P d request] s True ok s3 by auto
        next
          case nts: True
          obtain err ctx auth store where v: "nts_ntp_auth_verify_request api P (dg_cookie_now d) (dg_unpack_now d) (dg_packet d)
              zero_context (sv_auth s) (sv_store s) = Some ((err, ctx), auth, store)"
            using verify_returns [of api P "dg_cookie_now d" "dg_unpack_now d" "dg_packet d" zero_context "sv_store s"]
            by (auto simp: nts_ntp_auth_verify_request_def Let_def)
          let ?s4 = "?s3\<lparr>sv_auth := auth, sv_store := store\<rparr>"
          have s4: "no_wrap ?s4" "length (sv_response_buffer ?s4) = 1280" "table_ok (sv_rate ?s4)"
            using s3 by (simp_all add: no_wrap_def)
          show ?thesis
          proof (cases "err = ESP_OK")
            case False
            then show ?thesis using s True ok nts v s4 by simp
          next
            case e: True
            note shape = verified_shape [OF verify_public [OF v [unfolded e]]]
            then show ?thesis using answer_returns [OF s4(1,2), of "Some ctx" api P d request] s True ok nts v e s4 by auto
          qed
        qed
      qed
    qed
  qed
qed

subsection \<open>The status\<close>

text \<open>The sums bound the extremes, and the averages lie between them.\<close>

definition duration_ok :: "u64 \<Rightarrow> u64 \<Rightarrow> duration_stats \<Rightarrow> bool" where
  "duration_ok n s d \<longleftrightarrow> (n = 0 \<and> s = 0 \<or> 0 < n \<and> uint n * uint (du_min_us d) \<le> uint s \<and>
     uint s \<le> uint n * uint (du_max_us d) \<and> uint (du_avg_us d) = uint s div uint n)"

lemma duration_ordered:
  "duration_ok n s d \<Longrightarrow> 0 < n \<Longrightarrow> du_min_us d \<le> du_avg_us d \<and> du_avg_us d \<le> du_max_us d"
proof -
  assume ok: "duration_ok n s d" and n: "0 < n"
  then have n': "0 < uint n" by (simp add: word_less_def)
  have "uint (du_min_us d) \<le> uint s div uint n"
    using zdiv_mono1 [of "uint n * uint (du_min_us d)" "uint s" "uint n"] ok n n' by (auto simp: duration_ok_def)
  moreover have "uint s div uint n \<le> uint (du_max_us d)"
    using zdiv_mono1 [of "uint s" "uint n * uint (du_max_us d)" "uint n"] ok n n' by (auto simp: duration_ok_def)
  ultimately show "du_min_us d \<le> du_avg_us d \<and> du_avg_us d \<le> du_max_us d"
    using ok n by (auto simp: duration_ok_def word_le_def)
qed

lemma duration_step:
  assumes "duration_ok n s d" "uint n < 2 ^ 32"
  shows "duration_ok (n + 1) (s + ucast v) (update_min_max v (n + 1) (set_average (s + ucast v) (n + 1) d))"
proof -
  have v: "0 \<le> uint v" "uint v < 2 ^ 32" using uint_lt2p [of v] by simp_all
  have n1: "uint (n + 1) = uint n + 1" using assms(2) by (simp add: uint_word_ariths)
  have mx: "uint (du_max_us d) < 2 ^ 32" "0 \<le> uint (du_max_us d)" using uint_lt2p [of "du_max_us d"] by simp_all
  have s_le: "uint s \<le> uint n * (2 ^ 32 - 1)"
  proof (cases "n = 0")
    case True
    then show ?thesis using assms(1) by (simp add: duration_ok_def)
  next
    case False
    then have "uint s \<le> uint n * uint (du_max_us d)" using assms(1) by (simp add: duration_ok_def)
    also have "\<dots> \<le> uint n * (2 ^ 32 - 1)" using mx by (intro mult_left_mono) simp_all
    finally show ?thesis .
  qed
  have "uint n * (2 ^ 32 - 1) \<le> (2 ^ 32 - 1) * (2 ^ 32 - 1)" using assms(2) by (intro mult_right_mono) simp_all
  then have sum: "uint (s + ucast v) = uint s + uint v"
    using s_le v by (simp add: uint_word_ariths uint_ucast_widen)
  let ?d = "update_min_max v (n + 1) (set_average (s + ucast v) (n + 1) d)"
  have ext: "uint (n + 1) * uint (du_min_us ?d) \<le> uint (s + ucast v) \<and> uint (s + ucast v) \<le> uint (n + 1) * uint (du_max_us ?d)"
  proof (cases "n = 0")
    case True
    then show ?thesis using assms(1) by (simp add: duration_ok_def update_min_max_def set_average_def Let_def uint_ucast_widen)
  next
    case False
    then have d: "uint n * uint (du_min_us d) \<le> uint s" "uint s \<le> uint n * uint (du_max_us d)"
      using assms(1) by (simp_all add: duration_ok_def)
    have le: "uint (du_min_us ?d) \<le> uint (du_min_us d)" "uint (du_min_us ?d) \<le> uint v"
      "uint (du_max_us d) \<le> uint (du_max_us ?d)" "uint v \<le> uint (du_max_us ?d)"
      using False by (auto simp: update_min_max_def set_average_def Let_def word_less_def)
    have "uint n * uint (du_min_us ?d) \<le> uint n * uint (du_min_us d)" "uint n * uint (du_max_us d) \<le> uint n * uint (du_max_us ?d)"
      using le by (simp_all add: mult_left_mono)
    then show ?thesis unfolding n1 sum distrib_right mult_1_left using d le by linarith
  qed
  have pos: "0 < uint (n + 1)" using n1 uint_ge_0 [of n] by linarith
  have "uint (s + ucast v) div uint (n + 1) \<le> uint (du_max_us ?d)"
    using zdiv_mono1 [OF conjunct2 [OF ext] pos] pos by simp
  moreover have "uint (du_max_us ?d) < 2 ^ 32" using uint_lt2p [of "du_max_us ?d"] by simp
  moreover have "0 \<le> uint (s + ucast v) div uint (n + 1)" using pos by (simp add: pos_imp_zdiv_nonneg_iff)
  ultimately have "uint (ucast ((s + ucast v) div (n + 1)) :: u32) = uint (s + ucast v) div uint (n + 1)"
    by (simp add: unsigned_ucast_eq uint_div take_bit_int_eq_self)
  moreover have "du_avg_us ?d = ucast ((s + ucast v) div (n + 1))"
    by (simp add: update_min_max_def set_average_def Let_def)
  moreover have "0 < n + 1" using pos by (simp add: word_less_def)
  ultimately show ?thesis using ext unfolding duration_ok_def by simp
qed

lemma uint_inc: "w + 1 \<noteq> 0 \<Longrightarrow> uint (w + 1) = uint w + 1" for w :: "'a :: len word"
proof -
  assume "w + 1 \<noteq> 0"
  then have "unat (1 + w) = Suc (unat w)" by (intro unatSuc) (simp add: add.commute)
  then have "int (unat (1 + w)) = int (unat w) + 1" by simp
  then show ?thesis by (simp add: add.commute)
qed

lemma quot_between:
  assumes "0 < n" "n * a \<le> x" "x \<le> n * b"
  shows "a \<le> quot x n" "quot x n \<le> b"
proof -
  have *: "a \<le> x div n \<and> x div n \<le> b" if "n * a \<le> x" "x \<le> n * b" for a b x
    using zdiv_mono1 [OF that(1) assms(1)] zdiv_mono1 [OF that(2) assms(1)] assms(1) by simp
  have "a \<le> quot x n \<and> quot x n \<le> b"
  proof (cases "0 \<le> x")
    case True
    then have "quot x n = x div n" using assms(1) by (cases "x = 0") (simp_all add: quot_def)
    then show ?thesis using * [OF assms(2,3)] by simp
  next
    case False
    then have "quot x n = - (- x div n)" using assms(1) by (simp add: quot_def)
    moreover have "- b \<le> - x div n \<and> - x div n \<le> - a" by (rule *) (use assms in simp_all)
    ultimately show ?thesis by linarith
  qed
  then show "a \<le> quot x n" "quot x n \<le> b" by simp_all
qed

definition hw_ok :: "int \<Rightarrow> ntp_status \<Rightarrow> bool" where
  "hw_ok acc st \<longleftrightarrow> (ns_hw_rx_compare_samples st = 0 \<and> acc = 0 \<or> 0 < ns_hw_rx_compare_samples st \<and>
     uint (ns_hw_rx_compare_samples st) * ns_hw_rx_delta_min_ns st \<le> acc \<and>
     acc \<le> uint (ns_hw_rx_compare_samples st) * ns_hw_rx_delta_max_ns st \<and>
     ns_hw_rx_delta_avg_ns st = quot acc (uint (ns_hw_rx_compare_samples st)))"

lemma hw_step:
  assumes "hw_ok acc st" "ntp_status_record_hw_rx_comparison t h (acc, st) = Some (acc', st')"
  shows "hw_ok acc' st'"
proof (cases h)
  case None
  then show ?thesis using assms by (simp add: ntp_status_record_hw_rx_comparison_def)
next
  case (Some g)
  let ?n = "ns_hw_rx_compare_samples st"
  define d where "d = sint (ntp_timestamp_to_ns t) - sint (ntp_timestamp_to_ns (hw_timestamp g))"
  have nz: "?n + 1 \<noteq> 0" using assms(2) Some by (auto simp: ntp_status_record_hw_rx_comparison_def Let_def split: if_splits)
  have st': "acc' = acc + d" "ns_hw_rx_compare_samples st' = ?n + 1" "ns_hw_rx_delta_avg_ns st' = quot (acc + d) (uint (?n + 1))"
    "ns_hw_rx_delta_min_ns st' = (if ?n + 1 = 1 \<or> d < ns_hw_rx_delta_min_ns st then d else ns_hw_rx_delta_min_ns st)"
    "ns_hw_rx_delta_max_ns st' = (if ?n + 1 = 1 \<or> d > ns_hw_rx_delta_max_ns st then d else ns_hw_rx_delta_max_ns st)"
    using assms(2) Some unfolding d_def
    by (simp_all add: ntp_status_record_hw_rx_comparison_def Let_def split: if_splits; auto)+
  have n1: "uint (?n + 1) = uint ?n + 1"
    using nz by (rule uint_inc)
  show ?thesis
  proof (cases "?n = 0")
    case True
    then show ?thesis using assms(1) st' nz by (simp add: hw_ok_def)
  next
    case False
    then have d: "uint ?n * ns_hw_rx_delta_min_ns st \<le> acc" "acc \<le> uint ?n * ns_hw_rx_delta_max_ns st"
      using assms(1) by (simp_all add: hw_ok_def)
    have le: "ns_hw_rx_delta_min_ns st' \<le> ns_hw_rx_delta_min_ns st" "ns_hw_rx_delta_min_ns st' \<le> d"
      "ns_hw_rx_delta_max_ns st \<le> ns_hw_rx_delta_max_ns st'" "d \<le> ns_hw_rx_delta_max_ns st'"
      using False by (auto simp: st'(4,5))
    have "uint ?n * ns_hw_rx_delta_min_ns st' \<le> uint ?n * ns_hw_rx_delta_min_ns st"
      "uint ?n * ns_hw_rx_delta_max_ns st \<le> uint ?n * ns_hw_rx_delta_max_ns st'"
      using le by (simp_all add: mult_left_mono)
    then have "uint (?n + 1) * ns_hw_rx_delta_min_ns st' \<le> acc'" "acc' \<le> uint (?n + 1) * ns_hw_rx_delta_max_ns st'"
      unfolding n1 st'(1) distrib_right mult_1_left using d le by linarith+
    moreover have "0 < ?n + 1" using nz by (simp add: word_greater_zero_iff)
    ultimately show ?thesis by (simp add: hw_ok_def st'(2,3) st'(1)[symmetric])
  qed
qed

text \<open>The statistics of a server are in order: the durations until \<open>2 ^ 32\<close> answers, the clock comparison always.\<close>

definition durations_ok :: "timing_sums \<Rightarrow> ntp_status \<Rightarrow> bool" where
  "durations_ok m st \<longleftrightarrow> (uint (tm_samples m) \<le> 2 ^ 32 \<longrightarrow>
     duration_ok (tm_samples m) (tm_rx_start_sum_us m) (ns_rx_start st) \<and>
     duration_ok (tm_samples m) (tm_rx_call_sum_us m) (ns_rx_call st) \<and>
     duration_ok (tm_samples m) (tm_build_sum_us m) (ns_build st) \<and>
     duration_ok (tm_samples m) (tm_tx_to_send_sum_us m) (ns_tx_to_send st) \<and>
     duration_ok (tm_samples m) (tm_send_call_sum_us m) (ns_send_call st) \<and>
     duration_ok (tm_samples m) (tm_total_sum_us m) (ns_total st))"

definition stats_ok :: "'n ntp_server \<Rightarrow> bool" where
  "stats_ok s \<longleftrightarrow> durations_ok (sv_timing_sums s) (sv_status s) \<and> hw_ok (sv_hw_rx_delta_sum_ns s) (sv_status s)"

lemmas record_defs = ntp_status_record_hw_rx_miss_def ntp_status_record_hw_rx_authoritative_def
  ntp_status_record_hw_rx_authority_drop_def ntp_status_set_socket_bound_def ntp_status_record_request_def
  ntp_status_record_invalid_request_def ntp_status_record_unsynchronized_drop_def ntp_status_record_kod_def
  ntp_status_record_response_def ntp_status_record_send_failure_def ntp_status_record_socket_failure_def

lemma durations_step:
  assumes "durations_ok m st" "ntp_status_record_timing a b c d e f (m, st) = Some (m', st')"
  shows "durations_ok m' st'"
proof -
  have r: "tm_samples m + 1 \<noteq> 0" using assms(2) by (auto simp: ntp_status_record_timing_def Let_def split: if_splits)
  have n: "uint (tm_samples m + 1) \<le> 2 ^ 32 \<Longrightarrow> uint (tm_samples m) < 2 ^ 32"
    using uint_inc [OF r] by simp
  show ?thesis
    using assms r n duration_step by (auto simp: durations_ok_def ntp_status_record_timing_def Let_def less_imp_le)
qed

text \<open>Everything but those two recorders leaves the statistics alone.\<close>

lemma stats_ok_record [simp]:
  "durations_ok m (ntp_status_record_hw_rx_miss st) = durations_ok m st" "hw_ok a (ntp_status_record_hw_rx_miss st) = hw_ok a st"
  "durations_ok m (ntp_status_record_hw_rx_authoritative st) = durations_ok m st"
  "hw_ok a (ntp_status_record_hw_rx_authoritative st) = hw_ok a st"
  "durations_ok m (ntp_status_record_hw_rx_authority_drop st) = durations_ok m st"
  "hw_ok a (ntp_status_record_hw_rx_authority_drop st) = hw_ok a st"
  "durations_ok m (ntp_status_set_socket_bound b st) = durations_ok m st" "hw_ok a (ntp_status_set_socket_bound b st) = hw_ok a st"
  "durations_ok m (ntp_status_record_request ip t st) = durations_ok m st" "hw_ok a (ntp_status_record_request ip t st) = hw_ok a st"
  "durations_ok m (ntp_status_record_invalid_request st) = durations_ok m st" "hw_ok a (ntp_status_record_invalid_request st) = hw_ok a st"
  "durations_ok m (ntp_status_record_unsynchronized_drop st) = durations_ok m st"
  "hw_ok a (ntp_status_record_unsynchronized_drop st) = hw_ok a st"
  "durations_ok m (ntp_status_record_kod t st) = durations_ok m st" "hw_ok a (ntp_status_record_kod t st) = hw_ok a st"
  "durations_ok m (ntp_status_record_response x y z t st) = durations_ok m st" "hw_ok a (ntp_status_record_response x y z t st) = hw_ok a st"
  "durations_ok m (ntp_status_record_send_failure st) = durations_ok m st" "hw_ok a (ntp_status_record_send_failure st) = hw_ok a st"
  "durations_ok m (ntp_status_record_socket_failure st) = durations_ok m st" "hw_ok a (ntp_status_record_socket_failure st) = hw_ok a st"
  by (simp_all add: durations_ok_def hw_ok_def record_defs)

lemma stats_ok_split:
  "stats_ok s \<longleftrightarrow> durations_ok (sv_timing_sums s) (sv_status s) \<and> hw_ok (sv_hw_rx_delta_sum_ns s) (sv_status s)"
  by (simp add: stats_ok_def)

lemma timing_hw: "ntp_status_record_timing a b c d e f (m, st) = Some (m', st') \<Longrightarrow> hw_ok x st' = hw_ok x st"
  by (auto simp: ntp_status_record_timing_def Let_def hw_ok_def split: if_splits)

lemma comparison_durations:
  "ntp_status_record_hw_rx_comparison t h (a, st) = Some (a', st') \<Longrightarrow> durations_ok m st' = durations_ok m st"
  by (auto simp: ntp_status_record_hw_rx_comparison_def Let_def durations_ok_def split: option.splits if_splits)

text \<open>What every step keeps of a server: buffer and table in shape, statistics in order, flags unchanged.\<close>

definition keeps :: "'n ntp_server \<Rightarrow> 'n ntp_server \<Rightarrow> bool" where
  "keeps s s' \<longleftrightarrow> (length (sv_response_buffer s) = 1280 \<longrightarrow> length (sv_response_buffer s') = 1280) \<and>
     (table_ok (sv_rate s) \<longrightarrow> table_ok (sv_rate s')) \<and> (stats_ok s \<longrightarrow> stats_ok s') \<and>
     sv_started s' = sv_started s \<and> ns_started (sv_status s') = ns_started (sv_status s) \<and>
     ns_socket_bound (sv_status s') = ns_socket_bound (sv_status s)"

lemma keeps_refl: "keeps s s" by (simp add: keeps_def)

lemma keeps_trans: "keeps s s1 \<Longrightarrow> keeps s1 s2 \<Longrightarrow> keeps s s2" by (simp add: keeps_def)

lemma keeps_note:
  "keeps s (note_status ntp_status_record_invalid_request s)" "keeps s (note_status ntp_status_record_unsynchronized_drop s)"
  "keeps s (note_status ntp_status_record_hw_rx_authority_drop s)" "keeps s (note_status ntp_status_record_send_failure s)"
  "keeps s (note_status (ntp_status_record_kod us) s)" "keeps s (note_status ntp_status_record_hw_rx_miss s)"
  "keeps s (note_status (ntp_status_record_request ip us) s)"
  "keeps s (s\<lparr>sv_auth := auth, sv_store := store\<rparr>)" "table_ok rate \<Longrightarrow> keeps s (s\<lparr>sv_rate := rate\<rparr>)"
  "length buf = 1280 \<Longrightarrow> keeps s (s\<lparr>sv_response_buffer := buf\<rparr>)"
  by (simp_all add: keeps_def stats_ok_split) (simp_all add: record_defs)

lemma keeps_entered: "keeps s (entered d s)"
proof -
  let ?s1 = "note_status (ntp_status_record_request (dg_ipv4 d) (dg_timer d Us_request)) s"
  have "keeps s ?s1" "keeps s (note_status ntp_status_record_hw_rx_miss ?s1)"
    by (rule keeps_note, rule keeps_trans [OF keeps_note(7) keeps_note(6)])
  then show ?thesis unfolding entered_def Let_def by simp
qed

lemma send_response_keeps:
  assumes "send_response d q b len s = Some (sent, s')"
  shows "keeps s s'"
proof (cases "dg_sendto d (take len (sv_response_buffer s)) = int len")
  case False
  then have "s' = note_status ntp_status_record_send_failure s"
    using assms by (auto simp: send_response_def bind_eq_Some_conv rd_slice_Some bslice_def)
  then show ?thesis by (simp only: keeps_note)
next
  case True
  let ?t = "dg_timer d"
  obtain m st where r: "ntp_status_record_timing (clamp_duration_us (?t Us_recv_return) (?t Us_rx_start))
      (clamp_duration_us (?t Us_rx_start) (?t Us_rx_complete)) (clamp_duration_us (?t Us_build_start) (?t b))
      (clamp_duration_us (?t Us_tx_complete) (?t Us_send_start)) (clamp_duration_us (?t Us_send_start) (?t Us_send_complete))
      (clamp_duration_us (?t Us_recv_return) (?t Us_send_complete)) (sv_timing_sums s, sv_status s) = Some (m, st)"
    and s': "s' = s\<lparr>sv_timing_sums := m, sv_status := ntp_status_record_response (sq_stratum q) (sq_leap q) (sq_dispersion q) (?t Us_response) st\<rparr>"
    using assms True by (auto simp: send_response_def bind_eq_Some_conv rd_slice_Some bslice_def)
  have "ns_started st = ns_started (sv_status s)" "ns_socket_bound st = ns_socket_bound (sv_status s)"
    using r by (auto simp: ntp_status_record_timing_def Let_def split: if_splits)
  then show ?thesis
    using durations_step [OF _ r] timing_hw [OF r] unfolding s' keeps_def stats_ok_split
    by (simp add: ntp_status_record_response_def [where st = st] del: stats_ok_record)
      (metis stats_ok_record(17,18) ntp_status_record_response_def)
qed

lemma answer_keeps:
  assumes "answer_request api P d request nts s = Some (sent, s')" "length (sv_response_buffer s) = 1280"
    and "\<forall>ctx. nts = Some ctx \<longrightarrow> ac_unique_id_len ctx \<le> length (ac_unique_id ctx)"
  shows "keeps s s'"
proof (cases "get_current_ntp_timestamp (dg_clock d Clock_software_receive) = None \<or> dg_hw_rx d = None")
  case True
  then show ?thesis using assms(1) by (auto simp: answer_request_def keeps_note split: option.splits)
next
  case False
  then obtain sw h where sw: "get_current_ntp_timestamp (dg_clock d Clock_software_receive) = Some sw" "dg_hw_rx d = Some h" by auto
  obtain acc st where c: "ntp_status_record_hw_rx_comparison sw (Some h) (sv_hw_rx_delta_sum_ns s, sv_status s) = Some (acc, st)"
    using assms(1) sw by (auto simp: answer_request_def bind_eq_Some_conv)
  let ?s1 = "s\<lparr>sv_hw_rx_delta_sum_ns := acc, sv_status := ntp_status_record_hw_rx_authoritative st\<rparr>"
  have "ns_started st = ns_started (sv_status s)" "ns_socket_bound st = ns_socket_bound (sv_status s)"
    using c by (auto simp: ntp_status_record_hw_rx_comparison_def Let_def split: if_splits)
  moreover have "durations_ok m st = durations_ok m (sv_status s)" for m by (rule comparison_durations [OF c])
  ultimately have k1: "keeps s ?s1"
    using hw_step [OF _ c] by (simp add: keeps_def stats_ok_split ntp_status_record_hw_rx_authoritative_def [where st = st]
        del: stats_ok_record) (metis stats_ok_record(3,4) ntp_status_record_hw_rx_authoritative_def)
  show ?thesis
  proof (cases "build_server_response d request (hw_timestamp h) (sv_response_buffer s)")
    case None
    then have "s' = note_status ntp_status_record_unsynchronized_drop ?s1"
      using assms(1) by (simp add: answer_request_def sw c Let_def)
    then show ?thesis using keeps_trans [OF k1 keeps_note(2)] by simp
  next
    case (Some rq)
    obtain response q where rq: "rq = (response, q)" by fastforce
    have l: "length response = 1280"
      using Some rq assms(2) by (auto simp: build_server_response_def ntp_packet_build_eq split: option.splits)
    have k2: "keeps s (?s1\<lparr>sv_response_buffer := response\<rparr>)" by (rule keeps_trans [OF k1 keeps_note(10) [OF l]])
    show ?thesis
    proof (cases nts)
      case None
      then have "send_response d q Us_packet_built 48 (?s1\<lparr>sv_response_buffer := response\<rparr>) = Some (sent, s')"
        using assms(1) by (simp add: answer_request_def sw c Let_def Some rq)
      then show ?thesis using keeps_trans [OF k2 send_response_keeps] by blast
    next
      case ctx: (Some ctx)
      obtain err buf len auth store where p: "nts_ntp_auth_protect_response api P (dg_protect_nows d) ctx response 48 1280 48
          (sv_auth s) (sv_store s) = Some ((err, buf, len), auth, store)" "length buf = 1280"
        using protect_returns [of ctx 1280 response api P "dg_protect_nows d" 48 48 "sv_store s"] l assms(3) ctx
        by (auto simp: nts_ntp_auth_protect_response_def)
      let ?s3 = "?s1\<lparr>sv_response_buffer := buf, sv_auth := auth, sv_store := store\<rparr>"
      have k3: "keeps s ?s3"
        using keeps_trans [OF keeps_trans [OF k1 keeps_note(10) [OF p(2)]] keeps_note(8)] by simp
      have "s' = note_status ntp_status_record_send_failure ?s3 \<or> send_response d q Us_protected len ?s3 = Some (sent, s')"
        using assms(1) p by (auto simp: answer_request_def sw c Let_def Some rq ctx auth_lens split: if_splits)
      then show ?thesis using keeps_trans [OF k3 keeps_note(4)] keeps_trans [OF k3 send_response_keeps] by blast
    qed
  qed
qed

lemma serve_keeps:
  assumes "serve_datagram api P d s = Some (sent, s')" "length (sv_response_buffer s) = 1280" "table_ok (sv_rate s)"
  shows "keeps s s'"
proof (cases "\<exists>request present. ntp_packet_parse (dg_packet d) = Some request \<and> valid_client_request request \<and>
      nts_ntp_auth_request_present (dg_packet d) = Some present \<and> (present \<longrightarrow> version request = 4)")
  case False
  then have "s' = note_status ntp_status_record_invalid_request (entered d s)"
    using assms(1) scan_total [of "dg_packet d"]
    by (auto simp: serve_datagram_def entered_def Let_def split: option.splits if_splits)
  then show ?thesis using keeps_trans [OF keeps_entered keeps_note(1)] by simp
next
  case True
  then obtain request present where r: "ntp_packet_parse (dg_packet d) = Some request" "valid_client_request request"
    "nts_ntp_auth_request_present (dg_packet d) = Some present" "present \<longrightarrow> version request = 4" by blast
  obtain allowed kod rate where l: "limiter d s = ((allowed, kod), rate)" by (metis prod_cases3 surj_pair)
  let ?s3 = "(entered d s)\<lparr>sv_rate := rate\<rparr>"
  have tab: "table_ok rate"
    using table_ok_allow [OF assms(3), of "dg_ipv4 d" "dg_timer d Us_rate"] l by (simp add: limiter_def)
  have k3: "keeps s ?s3" by (rule keeps_trans [OF keeps_entered keeps_note(9) [OF tab]])
  have l3: "length (sv_response_buffer ?s3) = 1280" using assms(2) by simp
  note eq = assms(1) [unfolded serve_eq [OF r l, of api P, unfolded Let_def]]
  show ?thesis
  proof (cases allowed)
    case False
    let ?s4 = "?s3\<lparr>sv_response_buffer := build_rate_kod request (dg_clock d Clock_kod) (sv_response_buffer ?s3)\<rparr>"
    have k4: "keeps s ?s4" by (rule keeps_trans [OF k3 keeps_note(10)]) (use l3 in \<open>simp add: build_kod_bytes\<close>)
    have "keeps s (note_status (ntp_status_record_kod (dg_timer d Us_kod)) ?s4)"
      "keeps s (note_status ntp_status_record_send_failure ?s4)"
      by (rule keeps_trans [OF k4 keeps_note(5)], rule keeps_trans [OF k4 keeps_note(4)])
    moreover have "s' = ?s3 \<or> s' = note_status (ntp_status_record_kod (dg_timer d Us_kod)) ?s4 \<or>
        s' = note_status ntp_status_record_send_failure ?s4"
    proof (cases "kod \<and> \<not> present")
      case True
      then have "send_kod d request ?s3 = Some (sent, s')" using eq False by simp
      then show ?thesis unfolding send_kod_def Let_def bind_eq_Some_conv by (clarsimp split: if_splits)
    qed (use eq False in \<open>auto split: if_splits\<close>)
    ultimately show ?thesis using k3 by blast
  next
    case ok: True
    show ?thesis
    proof (cases present)
      case False
      then show ?thesis using eq ok keeps_trans [OF k3 answer_keeps [OF _ l3, of api P d request None]] by simp
    next
      case nts: True
      obtain err ctx auth store where v: "nts_ntp_auth_verify_request api P (dg_cookie_now d) (dg_unpack_now d) (dg_packet d)
          zero_context (sv_auth s) (sv_store s) = Some ((err, ctx), auth, store)"
        using eq ok nts by (auto simp: bind_eq_Some_conv)
      let ?s4 = "?s3\<lparr>sv_auth := auth, sv_store := store\<rparr>"
      have k4: "keeps s ?s4" by (rule keeps_trans [OF k3 keeps_note(8)])
      show ?thesis
      proof (cases "err = ESP_OK")
        case False
        then have "s' = note_status ntp_status_record_invalid_request ?s4" using eq ok nts v by simp
        then show ?thesis using keeps_trans [OF k4 keeps_note(1)] by simp
      next
        case e: True
        have "answer_request api P d request (Some ctx) ?s4 = Some (sent, s')" using eq ok nts v e by simp
        from answer_keeps [OF this] show ?thesis
          using keeps_trans [OF k4] l3 verified_shape [OF verify_public [OF v [unfolded e]]] by simp
      qed
    qed
  qed
qed

subsection \<open>Reachable states\<close>

text \<open>
  The server's state over time, with two flags of the environment: the task exists, and it holds a socket. The start is not
  one step: after it has created the task, which has a higher priority, the task may make any number of steps before
  the start sets \<open>s_started\<close>. The other tasks change the store of the cookie keys.
\<close>

inductive server_reach :: "'n nvs_api \<Rightarrow> psa \<Rightarrow> bool \<times> bool \<times> 'n ntp_server \<Rightarrow> bool" for api P where
  boot: "server_reach api P (False, False, server_boot store)"
| start_fails: "server_reach api P (False, l, s) \<Longrightarrow> ntp_server_start False s = (e, s') \<Longrightarrow> server_reach api P (False, l, s')"
| task_created: "server_reach api P (False, l, s) \<Longrightarrow> \<not> sv_started s \<Longrightarrow> server_reach api P (True, l, server_prepared s)"
| start_returns: "server_reach api P (True, l, s) \<Longrightarrow> server_reach api P (True, l, s\<lparr>sv_started := True\<rparr>)"
| run: "server_reach api P (True, l, s) \<Longrightarrow> ntp_server_task api P i (l, s) = Some (sent, l', s') \<Longrightarrow>
    server_reach api P (True, l', s')"
| keys: "server_reach api P (t, l, s) \<Longrightarrow> server_reach api P (t, l, s\<lparr>sv_store := store\<rparr>)"

text \<open>Without a step between, the last two rules of the start are the function.\<close>

lemma start_whole: "\<not> sv_started s \<Longrightarrow> ntp_server_start True s = (ESP_OK, (server_prepared s)\<lparr>sv_started := True\<rparr>)"
  by (simp add: ntp_server_start_def)

text \<open>The invariant: the buffer and the table keep their shape, the flags agree, the statistics are in order.\<close>

definition server_inv :: "bool \<times> bool \<times> 'n ntp_server \<Rightarrow> bool" where
  "server_inv = (\<lambda>(t, l, s). length (sv_response_buffer s) = 1280 \<and> table_ok (sv_rate s) \<and> stats_ok s \<and>
     (sv_started s \<longrightarrow> t) \<and> (t \<longrightarrow> ns_started (sv_status s)) \<and> (l \<longrightarrow> t) \<and> ns_socket_bound (sv_status s) = l)"

lemma stats_ok_zero: "durations_ok zero_sums st" "ns_hw_rx_compare_samples st = 0 \<Longrightarrow> hw_ok 0 st"
  by (simp_all add: durations_ok_def duration_ok_def hw_ok_def zero_sums_def)

lemma reach_inv: "server_reach api P ls \<Longrightarrow> server_inv ls"
proof (induction rule: server_reach.induct)
  case (boot store)
  show ?case
    by (simp add: server_inv_def server_boot_def auth_lens table_ok_init stats_ok_split stats_ok_zero zero_status_def)
next
  case (start_fails l s e s')
  then show ?case
    by (auto simp: server_inv_def ntp_server_start_def server_prepared_def table_ok_init stats_ok_split stats_ok_zero
        zero_status_def split: if_splits)
next
  case (task_created l s)
  then show ?case
    by (simp add: server_inv_def server_prepared_def table_ok_init stats_ok_split stats_ok_zero zero_status_def)
next
  case (start_returns l s)
  then show ?case by (simp add: server_inv_def stats_ok_split)
next
  case (run l s i sent l' s')
  then have inv: "server_inv (True, l, s)" by simp
  show ?case
  proof (cases i)
    case (Socket_opened a b)
    then show ?thesis using run inv
      by (auto simp: server_inv_def ntp_server_task_def stats_ok_split split: if_splits) (auto simp: record_defs)
  next
    case Receive_failed
    then show ?thesis using run inv by (simp add: ntp_server_task_def)
  next
    case (Received d)
    then have c: "l \<and> l' \<and> serve_datagram api P d s = Some (sent, s') \<or> \<not> l \<and> l' = l \<and> s' = s"
      using run by (auto simp: ntp_server_task_def split: if_splits)
    show ?thesis
    proof (cases l)
      case True
      then have "keeps s s'" using c serve_keeps [of api P d s sent s'] inv by (simp add: server_inv_def)
      then show ?thesis using inv True c by (auto simp: server_inv_def keeps_def)
    qed (use c inv in simp)
  qed
next
  case (keys t l s store)
  then show ?case by (simp add: server_inv_def stats_ok_split)
qed

subsection \<open>What the clock says of an answer\<close>

lemma quality_cases:
  assumes "get_server_quality v gnss = Some q"
  shows "ck_solution_valid (s_clock (cv_clock v)) \<and>
    (sq_stratum q = 1 \<and> ck_state (s_clock (cv_clock v)) = APP_CLOCK_SYNCHRONIZED \<and> sq_leap q = leap_from_gnss gnss \<and> sq_leap q \<noteq> 3
     \<or> sq_stratum q = 2 \<and> ck_state (s_clock (cv_clock v)) = APP_CLOCK_HOLDOVER \<and> sq_leap q = 0)"
  using assms
  by (auto simp: get_server_quality_def clock_discipline_get_status_def Let_def split: option.splits if_splits)

lemma leap_bounds: "leap_from_gnss gnss < 4"
  by (auto simp: leap_from_gnss_def split: option.splits app_leap_indicator.splits)

lemma response_wf:
  assumes "valid_client_request request" "get_server_quality v gnss = Some q"
  shows "wf_fields (response_packet request q a b c)"
proof -
  have "version request < 8" using assms(1) by (auto simp: valid_client_request_def intro: le_less_trans)
  moreover have "sq_leap q < 4" using quality_cases [OF assms(2)] leap_bounds [of gnss] by auto
  ultimately show ?thesis by (simp add: wf_fields_def response_packet_def zero_packet_def)
qed

lemma kod_wf: "valid_client_request request \<Longrightarrow> wf_fields (kod_packet request now)"
  by (auto simp: wf_fields_def kod_packet_def zero_packet_def valid_client_request_def Let_def split: option.splits
      intro: le_less_trans)

lemma parse_take:
  assumes "take 48 data = ntp_packet_bytes f" "48 \<le> length data" "wf_fields f"
  shows "ntp_packet_parse data = Some f"
  using parse_ntp_packet_bytes [OF assms(3), of "drop 48 data"] assms(1) append_take_drop_id [of 48 data] by simp

text \<open>A plain request with everything in place is answered.\<close>

lemma send_response_ok:
  assumes "tm_samples (sv_timing_sums s) + 1 \<noteq> 0" "len \<le> length (sv_response_buffer s)"
    and "dg_sendto d (take len (sv_response_buffer s)) = int len"
  shows "\<exists>s'. send_response d q b len s = Some (Some (take len (sv_response_buffer s)), s') \<and>
    ns_normal_responses (sv_status s') = ns_normal_responses (sv_status s) + 1 \<and>
    ns_requests_received (sv_status s') = ns_requests_received (sv_status s) \<and>
    ns_advertised_stratum (sv_status s') = sq_stratum q"
proof -
  have rd: "rd_slice (sv_response_buffer s) 0 len = Some (take len (sv_response_buffer s))"
    using assms(2) by (simp add: rd_slice_def bslice_def)
  show ?thesis
    using assms(1,3) by (auto simp: send_response_def rd ntp_status_record_timing_def Let_def ntp_status_record_response_def
        simp del: checked_in_range)
qed

lemma serve_plain:
  assumes "no_wrap s" and "length (sv_response_buffer s) = 1280"
    and "ntp_packet_parse (dg_packet d) = Some request" and "valid_client_request request"
    and "nts_ntp_auth_request_present (dg_packet d) = Some False"
    and "fst (fst (ntp_rate_limit_allow (sv_rate s) (dg_ipv4 d) (dg_timer d Us_rate)))"
    and "get_current_ntp_timestamp (dg_clock d Clock_software_receive) = Some sw" and "dg_hw_rx d = Some h"
    and "get_server_quality (dg_clock d Clock_quality) (dg_gnss d) = Some q"
    and "get_reference_ntp_timestamp (dg_clock d Clock_reference) = Some reference"
    and "get_current_ntp_timestamp (dg_clock d Clock_transmit) = Some transmit"
    and "\<forall>data. length data = 48 \<longrightarrow> dg_sendto d data = 48"
  shows "\<exists>s'. serve_datagram api P d s =
      Some (Some (ntp_packet_bytes (response_packet request q reference (hw_timestamp h) transmit)), s') \<and>
    ns_requests_received (sv_status s') = ns_requests_received (sv_status s) + 1 \<and>
    ns_normal_responses (sv_status s') = ns_normal_responses (sv_status s) + 1 \<and>
    ns_advertised_stratum (sv_status s') = sq_stratum q"
proof -
  let ?f = "response_packet request q reference (hw_timestamp h) transmit"
  obtain kod rate where l: "limiter d s = ((True, kod), rate)" using assms(6) by (metis limiter_def prod.collapse)
  have no: "False \<longrightarrow> version request = 4" by simp
  let ?s3 = "(entered d s)\<lparr>sv_rate := rate\<rparr>"
  have w3: "no_wrap ?s3" using assms(1) by (simp add: no_wrap_def entered_def Let_def ntp_status_record_request_def
      ntp_status_record_hw_rx_miss_def)
  obtain acc st where c: "ntp_status_record_hw_rx_comparison sw (Some h) (sv_hw_rx_delta_sum_ns ?s3, sv_status ?s3) = Some (acc, st)"
    using comparison_returns [OF w3, of sw "Some h"] by auto
  have st: "ns_requests_received st = ns_requests_received (sv_status s) + 1" "ns_normal_responses st = ns_normal_responses (sv_status s)"
    using c assms(8) by (auto simp: ntp_status_record_hw_rx_comparison_def Let_def entered_def ntp_status_record_request_def
        split: if_splits)
  let ?s4 = "?s3\<lparr>sv_hw_rx_delta_sum_ns := acc, sv_status := ntp_status_record_hw_rx_authoritative st,
      sv_response_buffer := ntp_packet_build (sv_response_buffer s) ?f\<rparr>"
  have b: "build_server_response d request (hw_timestamp h) (sv_response_buffer s) =
      Some (ntp_packet_build (sv_response_buffer s) ?f, q)"
    using assms(9-11) by (simp add: build_server_response_def)
  have n: "tm_samples (sv_timing_sums ?s4) + 1 \<noteq> 0" using w3 by (simp add: no_wrap_def)
  have l4: "48 \<le> length (sv_response_buffer ?s4)" "take 48 (sv_response_buffer ?s4) = ntp_packet_bytes ?f"
    using assms(2) by (simp_all add: ntp_packet_build_eq)
  have "serve_datagram api P d s = send_response d q Us_packet_built 48 ?s4"
    unfolding serve_eq [OF assms(3,4,5) no l, of api P, unfolded Let_def]
    using c b assms(7,8) by (simp add: answer_request_def Let_def)
  moreover obtain s' where s': "send_response d q Us_packet_built 48 ?s4 = Some (Some (take 48 (sv_response_buffer ?s4)), s')"
    "ns_normal_responses (sv_status s') = ns_normal_responses (sv_status ?s4) + 1"
    "ns_requests_received (sv_status s') = ns_requests_received (sv_status ?s4)" "ns_advertised_stratum (sv_status s') = sq_stratum q"
    using send_response_ok [OF n l4(1), of d q Us_packet_built] assms(12) l4(2) by auto
  ultimately show ?thesis
    using st l4(2) by (intro exI [of _ s']) (simp add: ntp_status_record_hw_rx_authoritative_def)
qed

subsection \<open>A concrete datagram\<close>

definition toy_view :: clock_view where
  "toy_view = \<lparr> cv_clock = clock_locked, cv_got = True, cv_now = Some (of_nat 38000000) \<rparr>"

definition toy_datagram :: datagram where
  "toy_datagram = \<lparr> dg_packet = 0x23 # replicate 47 0, dg_ipv4 = 0x0A000001, dg_port = 40123,
     dg_hw_rx = Some \<lparr> hw_seconds = 3958988809, hw_fraction = 5, hw_mapping_bracket_ns = 0, hw_mapping_age_us = 0 \<rparr>,
     dg_timer = (\<lambda>_. 5), dg_clock = (\<lambda>_. toy_view), dg_gnss = Some gnss_zero_status, dg_cookie_now = None, dg_unpack_now = None,
     dg_protect_nows = (\<lambda>_. None), dg_sendto = (\<lambda>data. int (length data)) \<rparr>"

definition toy_server :: "cookie_keyring option ntp_server" where
  "toy_server = snd (ntp_server_start True (server_boot (toy_storage None)))"

lemma toy_readings:
  "get_current_ntp_timestamp toy_view = Some \<lparr>seconds = 3958988809, fraction = 0\<rparr>"
  "\<exists>reference. get_reference_ntp_timestamp toy_view = Some reference"
  "\<exists>q. get_server_quality toy_view (Some gnss_zero_status) = Some q"
proof -
  show "get_current_ntp_timestamp toy_view = Some \<lparr>seconds = 3958988809, fraction = 0\<rparr>"
    using clock_locked_serves [of 2] by (simp add: get_current_ntp_timestamp_def toy_view_def clock_to_ntp_timestamp_def)
  show "\<exists>reference. get_reference_ntp_timestamp toy_view = Some reference"
    using clock_locked_perfect clock_locked_state
    by (simp add: get_reference_ntp_timestamp_def toy_view_def clock_discipline_get_reference_timestamp_def Let_def
        perfect_clock_def lock_clock_def servable_def word_less_nat_alt)
  show "\<exists>q. get_server_quality toy_view (Some gnss_zero_status) = Some q"
    using clock_locked_perfect clock_locked_state
    by (simp add: get_server_quality_def toy_view_def clock_discipline_get_status_def Let_def perfect_clock_def
        lock_clock_def leap_from_gnss_def gnss_zero_status_def)
qed

lemma toy_admitted: "fst (fst (ntp_rate_limit_allow ntp_rate_limit_init 0x0A000001 5))"
  by code_simp

lemma toy_header: "ntp_packet_parse (0x23 # replicate 47 0) = Some (zero_packet\<lparr>version := 4, mode := 3\<rparr>)"
  by code_simp

lemma toy_parts:
  "no_wrap toy_server" "length (sv_response_buffer toy_server) = 1280" "table_ok (sv_rate toy_server)"
  "ntp_packet_parse (dg_packet toy_datagram) = Some (zero_packet\<lparr>version := 4, mode := 3\<rparr>)"
  "valid_client_request (zero_packet\<lparr>version := 4, mode := 3\<rparr>)"
  "nts_ntp_auth_request_present (dg_packet toy_datagram) = Some False"
  "fst (fst (ntp_rate_limit_allow (sv_rate toy_server) (dg_ipv4 toy_datagram) (dg_timer toy_datagram Us_rate)))"
  using toy_admitted toy_header
  by (simp_all add: toy_server_def ntp_server_start_def server_prepared_def server_boot_def Let_def no_wrap_def auth_lens table_ok_init zero_sums_def
      zero_status_def toy_datagram_def nts_ntp_auth_request_present_def valid_client_request_def)

lemma toy_env:
  "get_current_ntp_timestamp (dg_clock toy_datagram Clock_software_receive) = Some \<lparr>seconds = 3958988809, fraction = 0\<rparr>"
  "dg_hw_rx toy_datagram = Some \<lparr> hw_seconds = 3958988809, hw_fraction = 5, hw_mapping_bracket_ns = 0, hw_mapping_age_us = 0 \<rparr>"
  "\<exists>q. get_server_quality (dg_clock toy_datagram Clock_quality) (dg_gnss toy_datagram) = Some q"
  "\<exists>reference. get_reference_ntp_timestamp (dg_clock toy_datagram Clock_reference) = Some reference"
  "get_current_ntp_timestamp (dg_clock toy_datagram Clock_transmit) = Some \<lparr>seconds = 3958988809, fraction = 0\<rparr>"
  "\<forall>data. length data = 48 \<longrightarrow> dg_sendto toy_datagram data = 48"
  using toy_readings by (simp_all add: toy_datagram_def)

lemma toy_served: "\<exists>data s'. serve_datagram toy_nvs psa_toy toy_datagram toy_server = Some (Some data, s')"
proof -
  obtain reference q where r: "get_reference_ntp_timestamp (dg_clock toy_datagram Clock_reference) = Some reference"
    "get_server_quality (dg_clock toy_datagram Clock_quality) (dg_gnss toy_datagram) = Some q"
    using toy_env(3,4) by blast
  show ?thesis using serve_plain [OF toy_parts(1,2,4-7) toy_env(1,2) r(2,1) toy_env(5,6), of toy_nvs psa_toy] by blast
qed

lemma toy_reached: "server_reach toy_nvs psa_toy (True, False, toy_server)"
proof -
  let ?s = "server_boot (toy_storage None)"
  have n: "\<not> sv_started ?s" by (simp add: server_boot_def)
  show ?thesis
    using server_reach.start_returns [OF server_reach.task_created [OF server_reach.boot n]] start_whole [OF n]
    by (simp add: toy_server_def)
qed

subsection \<open>Properties\<close>

text \<open>
  C19: Every datagram the server sends is true. Whatever arrives, what is handed to the socket call
  answers a client-mode request of version 1 to 4 and echoes its version and transmit timestamp. Either
  it is a RATE kiss-o'-death, only to a plain client over its limit, unsynchronised, 48 octets; or the
  client is within its limit, a request with NTS fields has been authenticated, and the answer
  carries the hardware receive timestamp, the reference and transmit timestamps of the disciplined
  clock, and stratum 1 with the leap state of the receiver while the clock is synchronised, or
  stratum 2 in holdover, with a valid solution in both cases.
\<close>
theorem server_speaks_truth:
  assumes "serve_datagram api P d s = Some (Some data, s')" and "length (sv_response_buffer s) = 1280"
  shows "\<exists>request f. ntp_packet_parse (dg_packet d) = Some request \<and> mode request = 3 \<and> version request \<in> {1..4} \<and>
    ntp_packet_parse data = Some f \<and> mode f = 4 \<and> version f = version request \<and>
    origin_timestamp f = transmit_timestamp request \<and>
    (stratum f = 0 \<and> leap_indicator f = 3 \<and> reference_id f = ntp_packet_refid_from_text ''RATE'' \<and> length data = 48 \<and>
       \<not> fst (fst (ntp_rate_limit_allow (sv_rate s) (dg_ipv4 d) (dg_timer d Us_rate))) \<and>
       nts_ntp_auth_request_present (dg_packet d) = Some False
     \<or> fst (fst (ntp_rate_limit_allow (sv_rate s) (dg_ipv4 d) (dg_timer d Us_rate))) \<and>
       (nts_ntp_auth_request_present (dg_packet d) = Some True \<longrightarrow> version request = 4 \<and> (\<exists>ctx. verified api P d s ctx)) \<and>
       map_option hw_timestamp (dg_hw_rx d) = Some (receive_timestamp f) \<and>
       get_current_ntp_timestamp (dg_clock d Clock_transmit) = Some (transmit_timestamp f) \<and>
       get_reference_ntp_timestamp (dg_clock d Clock_reference) = Some (reference_timestamp f) \<and>
       (let c = s_clock (cv_clock (dg_clock d Clock_quality)) in ck_solution_valid c \<and>
          (stratum f = 1 \<and> ck_state c = APP_CLOCK_SYNCHRONIZED \<and> leap_indicator f = leap_from_gnss (dg_gnss d) \<and> leap_indicator f \<noteq> 3
           \<or> stratum f = 2 \<and> ck_state c = APP_CLOCK_HOLDOVER \<and> leap_indicator f = 0)))"
proof -
  obtain request present f where r: "ntp_packet_parse (dg_packet d) = Some request" "valid_client_request request"
    "nts_ntp_auth_request_present (dg_packet d) = Some present" and f: "take 48 data = ntp_packet_bytes f" "48 \<le> length data"
    "\<not> present \<longrightarrow> length data = 48" and c: "fst (fst (limiter d s)) \<and> header_ready d request f \<and>
       (present \<longrightarrow> version request = 4 \<and> (\<exists>ctx. verified api P d s ctx))
     \<or> \<not> fst (fst (limiter d s)) \<and> \<not> present \<and> f = kod_packet request (get_current_ntp_timestamp (dg_clock d Clock_kod))"
    using serve_sends [OF assms] by blast
  have v: "mode request = 3" "version request \<in> {1..4}" using r(2) by (auto simp: valid_client_request_def)
  from c show ?thesis
  proof (elim disjE conjE)
    assume a: "\<not> fst (fst (limiter d s))" "\<not> present" "f = kod_packet request (get_current_ntp_timestamp (dg_clock d Clock_kod))"
    have "ntp_packet_parse data = Some f" using parse_take [OF f(1,2)] kod_wf [OF r(2)] a(3) by simp
    then show ?thesis
      using r v f(3) a by (intro exI [of _ request] exI [of _ f])
        (simp add: limiter_def kod_packet_def zero_packet_def Let_def split: option.splits)
  next
    assume a: "fst (fst (limiter d s))" "header_ready d request f" "present \<longrightarrow> version request = 4 \<and> (\<exists>ctx. verified api P d s ctx)"
    then obtain q reference transmit h where h: "dg_hw_rx d = Some h"
      "get_server_quality (dg_clock d Clock_quality) (dg_gnss d) = Some q"
      "get_reference_ntp_timestamp (dg_clock d Clock_reference) = Some reference"
      "get_current_ntp_timestamp (dg_clock d Clock_transmit) = Some transmit"
      "f = response_packet request q reference (hw_timestamp h) transmit"
      by (auto simp: header_ready_def)
    have "ntp_packet_parse data = Some f" using parse_take [OF f(1,2)] response_wf [OF r(2) h(2)] h(5) by simp
    then show ?thesis
      using r v a h quality_cases [OF h(2)] by (intro exI [of _ request] exI [of _ f])
        (simp add: limiter_def response_packet_def Let_def)
  qed
qed

theorem server_speaks_truth_witness:
  "\<exists>data f. (\<exists>s'. serve_datagram toy_nvs psa_toy toy_datagram toy_server = Some (Some data, s')) \<and>
     ntp_packet_parse data = Some f \<and> mode f = 4 \<and> version f = 4"
proof -
  obtain data s' where s: "serve_datagram toy_nvs psa_toy toy_datagram toy_server = Some (Some data, s')" using toy_served by blast
  show ?thesis using server_speaks_truth [OF s toy_parts(2)] s toy_parts(4) by auto
qed

text \<open>
  C21: No datagram makes the server fail or amplify. Whatever octets arrive, over any clock, crypto and
  storage, as long as the counters whose overflow is undefined are short of it, serving ends without
  an access out of bounds, keeps the response buffer and the client table in shape, and what it
  sends is not longer than what it received.
\<close>
theorem server_robust:
  assumes "no_wrap s" and "length (sv_response_buffer s) = 1280" and "table_ok (sv_rate s)"
  shows "\<exists>sent s'. serve_datagram api P d s = Some (sent, s') \<and> length (sv_response_buffer s') = 1280 \<and>
    table_ok (sv_rate s') \<and> (case sent of None \<Rightarrow> True | Some data \<Rightarrow> length data \<le> length (dg_packet d))"
proof -
  obtain sent s' where s: "serve_datagram api P d s = Some (sent, s')" "length (sv_response_buffer s') = 1280" "table_ok (sv_rate s')"
    using serve_returns [OF assms] by blast
  show ?thesis
  proof (cases sent)
    case (Some data)
    from serve_sends [OF s(1) [unfolded Some] assms(2)] have "length data \<le> length (dg_packet d)" by blast
    then show ?thesis using s Some by auto
  qed (use s in auto)
qed

theorem server_robust_witness:
  "\<exists>sent s'. serve_datagram toy_nvs psa_toy (toy_datagram\<lparr>dg_packet := replicate 200 0x23\<rparr>) toy_server = Some (sent, s') \<and>
     length (sv_response_buffer s') = 1280"
  using server_robust [OF toy_parts(1-3), of toy_nvs psa_toy "toy_datagram\<lparr>dg_packet := replicate 200 0x23\<rparr>"] by blast

text \<open>
  C22: The status is consistent in every state the server reaches, however the start, socket failures,
  datagrams and key maintenance interleave, also while the start is between creating the task and
  setting its flag: the response buffer and the client table keep their shape; the socket is reported
  bound exactly while the task holds one; a task exists when the socket is bound or the start has set
  its flag, and once it exists the status says that the server is started; of
  each measured duration the minimum is at most the average and the average at most the maximum
  (until 2^32 answers, when the sums may wrap), and the same holds of the difference between the
  software and hardware receive timestamps.
\<close>
theorem server_invariant:
  assumes "server_reach api P (t, l, s)"
  shows "length (sv_response_buffer s) = 1280 \<and> table_ok (sv_rate s) \<and> ns_socket_bound (sv_status s) = l \<and>
    (l \<or> sv_started s \<longrightarrow> t) \<and> (t \<longrightarrow> ns_started (sv_status s)) \<and>
    (0 < tm_samples (sv_timing_sums s) \<and> uint (tm_samples (sv_timing_sums s)) \<le> 2 ^ 32 \<longrightarrow>
       (\<forall>sel \<in> {ns_rx_start, ns_rx_call, ns_build, ns_tx_to_send, ns_send_call, ns_total}.
          du_min_us (sel (sv_status s)) \<le> du_avg_us (sel (sv_status s)) \<and>
          du_avg_us (sel (sv_status s)) \<le> du_max_us (sel (sv_status s)))) \<and>
    (0 < ns_hw_rx_compare_samples (sv_status s) \<longrightarrow>
       ns_hw_rx_delta_min_ns (sv_status s) \<le> ns_hw_rx_delta_avg_ns (sv_status s) \<and>
       ns_hw_rx_delta_avg_ns (sv_status s) \<le> ns_hw_rx_delta_max_ns (sv_status s))"
proof -
  have inv: "server_inv (t, l, s)" by (rule reach_inv [OF assms])
  let ?st = "sv_status s"
  have hw: "ns_hw_rx_delta_min_ns ?st \<le> ns_hw_rx_delta_avg_ns ?st \<and> ns_hw_rx_delta_avg_ns ?st \<le> ns_hw_rx_delta_max_ns ?st"
    if n: "0 < ns_hw_rx_compare_samples ?st"
  proof -
    have "0 < uint (ns_hw_rx_compare_samples ?st)" using n by (simp add: word_less_def)
    then show ?thesis
      using inv n quot_between [of "uint (ns_hw_rx_compare_samples ?st)"] by (auto simp: server_inv_def stats_ok_def hw_ok_def)
  qed
  have "\<forall>sel \<in> {ns_rx_start, ns_rx_call, ns_build, ns_tx_to_send, ns_send_call, ns_total}.
      du_min_us (sel ?st) \<le> du_avg_us (sel ?st) \<and> du_avg_us (sel ?st) \<le> du_max_us (sel ?st)"
    if "0 < tm_samples (sv_timing_sums s) \<and> uint (tm_samples (sv_timing_sums s)) \<le> 2 ^ 32"
    using that inv duration_ordered [OF _ conjunct1 [OF that]] by (simp add: server_inv_def stats_ok_def durations_ok_def) blast
  then show ?thesis using inv hw by (auto simp: server_inv_def)
qed

theorem server_invariant_witness:
  "table_ok (sv_rate toy_server) \<and> ns_started (sv_status toy_server) \<and> \<not> ns_socket_bound (sv_status toy_server)"
  using server_invariant [OF toy_reached] by blast

text \<open>
  C20: A client gets the time when there is time to give. A plain client request within the limit, with
  the clock readable, the receiver's leap state known (or the clock in holdover) and the
  hardware timestamp at hand, is answered at once: 48 octets that parse to exactly the expected header,
  the answer counted and its stratum advertised.
\<close>
theorem server_serves:
  assumes "no_wrap s" and "length (sv_response_buffer s) = 1280"
    and "ntp_packet_parse (dg_packet d) = Some request" and "valid_client_request request"
    and "nts_ntp_auth_request_present (dg_packet d) = Some False"
    and "fst (fst (ntp_rate_limit_allow (sv_rate s) (dg_ipv4 d) (dg_timer d Us_rate)))"
    and "get_current_ntp_timestamp (dg_clock d Clock_software_receive) = Some sw" and "dg_hw_rx d = Some h"
    and "get_server_quality (dg_clock d Clock_quality) (dg_gnss d) = Some q"
    and "get_reference_ntp_timestamp (dg_clock d Clock_reference) = Some reference"
    and "get_current_ntp_timestamp (dg_clock d Clock_transmit) = Some transmit"
    and "\<forall>data. length data = 48 \<longrightarrow> dg_sendto d data = 48"
  shows "\<exists>data s'. serve_datagram api P d s = Some (Some data, s') \<and> length data = 48 \<and>
    ntp_packet_parse data = Some (zero_packet\<lparr> leap_indicator := sq_leap q, version := version request, mode := 4,
      stratum := sq_stratum q, precision := -20, root_dispersion := sq_dispersion q, reference_id := sq_refid q,
      reference_timestamp := reference, origin_timestamp := transmit_timestamp request,
      receive_timestamp := \<lparr>seconds = hw_seconds h, fraction = hw_fraction h\<rparr>, transmit_timestamp := transmit\<rparr>) \<and>
    ns_requests_received (sv_status s') = ns_requests_received (sv_status s) + 1 \<and>
    ns_normal_responses (sv_status s') = ns_normal_responses (sv_status s) + 1 \<and>
    ns_advertised_stratum (sv_status s') = sq_stratum q"
proof -
  let ?f = "response_packet request q reference (hw_timestamp h) transmit"
  have "ntp_packet_parse (ntp_packet_bytes ?f) = Some ?f"
    using parse_take [of "ntp_packet_bytes ?f" ?f] response_wf [OF assms(4,9)] by simp
  moreover have "?f = zero_packet\<lparr> leap_indicator := sq_leap q, version := version request, mode := 4,
      stratum := sq_stratum q, precision := -20, root_dispersion := sq_dispersion q, reference_id := sq_refid q,
      reference_timestamp := reference, origin_timestamp := transmit_timestamp request,
      receive_timestamp := \<lparr>seconds = hw_seconds h, fraction = hw_fraction h\<rparr>, transmit_timestamp := transmit\<rparr>"
    by (simp add: response_packet_def zero_packet_def hw_timestamp_def)
  ultimately show ?thesis using serve_plain [OF assms, of api P] by (metis length_ntp_packet_bytes)
qed

theorem server_serves_witness:
  "\<exists>data s'. serve_datagram toy_nvs psa_toy toy_datagram toy_server = Some (Some data, s') \<and> length data = 48 \<and>
     ns_normal_responses (sv_status s') = 1"
proof -
  obtain reference q where r: "get_reference_ntp_timestamp (dg_clock toy_datagram Clock_reference) = Some reference"
    "get_server_quality (dg_clock toy_datagram Clock_quality) (dg_gnss toy_datagram) = Some q"
    using toy_env(3,4) by blast
  have "ns_normal_responses (sv_status toy_server) = 0"
    by (simp add: toy_server_def ntp_server_start_def server_prepared_def server_boot_def Let_def zero_status_def)
  then show ?thesis
    using server_serves [OF toy_parts(1,2,4-7) toy_env(1,2) r(2,1) toy_env(5,6), of toy_nvs psa_toy] by auto
qed

end
