(* ===== verification/Gnss_Service.thy ===== *)
theory Gnss_Service
  imports Gnss_Status
begin

text \<open>
  \<open>src/main/gnss_service.c\<close>: the receiver's serial stream, byte by byte. UBX frames and NMEA lines
  share the line; the handlers of their messages keep the status the clock discipline reads.

  The state \<open>gnss_sys\<close> holds the static variables and the device snapshot the handlers publish to.
  The timer readings and what the UART driver answers are arguments. The line buffer is the list of
  the octets before \<open>s_nmea_length\<close>. \<open>None\<close> is an access outside the payload buffer or, for the
  loops that wait for the receiver, that they do not end.
\<close>

definition GNSS_LINE_MAX_LENGTH :: nat where "GNSS_LINE_MAX_LENGTH = 160"
definition UBX_SYNC_1 :: u8 where "UBX_SYNC_1 = 0xB5"
definition UBX_SYNC_2 :: u8 where "UBX_SYNC_2 = 0x62"
definition UBX_CLASS_NAV :: u8 where "UBX_CLASS_NAV = 0x01"
definition UBX_CLASS_MON :: u8 where "UBX_CLASS_MON = 0x0A"
definition UBX_CLASS_ACK :: u8 where "UBX_CLASS_ACK = 0x05"
definition UBX_CLASS_CFG :: u8 where "UBX_CLASS_CFG = 0x06"
definition UBX_CLASS_TIM :: u8 where "UBX_CLASS_TIM = 0x0D"
definition UBX_CLASS_NMEA :: u8 where "UBX_CLASS_NMEA = 0xF0"
definition UBX_ID_ACK_NAK :: u8 where "UBX_ID_ACK_NAK = 0x00"
definition UBX_ID_ACK_ACK :: u8 where "UBX_ID_ACK_ACK = 0x01"
definition UBX_ID_NAV_PVT :: u8 where "UBX_ID_NAV_PVT = 0x07"
definition UBX_ID_NAV_TIMELS :: u8 where "UBX_ID_NAV_TIMELS = 0x26"
definition UBX_ID_TIM_TP :: u8 where "UBX_ID_TIM_TP = 0x01"
definition UBX_ID_MON_VER :: u8 where "UBX_ID_MON_VER = 0x04"
definition UBX_MON_VER_BASE_LENGTH :: nat where "UBX_MON_VER_BASE_LENGTH = 40"
definition UBX_MON_VER_EXTENSION_LENGTH :: nat where "UBX_MON_VER_EXTENSION_LENGTH = 30"
definition UBX_MON_VER_MAX_PAYLOAD_LENGTH :: nat where "UBX_MON_VER_MAX_PAYLOAD_LENGTH = 512"
definition UBX_ID_CFG_MSG :: u8 where "UBX_ID_CFG_MSG = 0x01"
definition UBX_ID_CFG_TP5 :: u8 where "UBX_ID_CFG_TP5 = 0x31"
definition UBX_ID_NMEA_ZDA :: u8 where "UBX_ID_NMEA_ZDA = 0x08"
definition UBX_NAV_PVT_MIN_LENGTH :: nat where "UBX_NAV_PVT_MIN_LENGTH = 92"
definition UBX_NAV_TIMELS_MIN_LENGTH :: nat where "UBX_NAV_TIMELS_MIN_LENGTH = 24"
definition UBX_TIM_TP_MIN_LENGTH :: nat where "UBX_TIM_TP_MIN_LENGTH = 16"
definition UBX_CFG_TP5_PAYLOAD_LENGTH :: nat where "UBX_CFG_TP5_PAYLOAD_LENGTH = 32"
definition APP_GNSS_TIMEOUT_SECONDS :: int where "APP_GNSS_TIMEOUT_SECONDS = 5"
definition APP_GNSS_UBX_ACK_TIMEOUT_MS :: int where "APP_GNSS_UBX_ACK_TIMEOUT_MS = 1200"
definition APP_GNSS_UBX_COMMAND_RETRIES :: nat where "APP_GNSS_UBX_COMMAND_RETRIES = 2"
definition APP_GNSS_TP1_FREQUENCY_HZ :: u32 where "APP_GNSS_TP1_FREQUENCY_HZ = 1"
definition APP_GNSS_TP1_PULSE_LENGTH_US :: u32 where "APP_GNSS_TP1_PULSE_LENGTH_US = 100000"

lemmas ubx_ids = UBX_CLASS_NAV_def UBX_CLASS_MON_def UBX_CLASS_ACK_def UBX_CLASS_TIM_def UBX_ID_ACK_NAK_def
  UBX_ID_ACK_ACK_def UBX_ID_NAV_PVT_def UBX_ID_NAV_TIMELS_def UBX_ID_TIM_TP_def UBX_ID_MON_VER_def

datatype ubx_parse_state = UBX_WAIT_SYNC_1 | UBX_WAIT_SYNC_2 | UBX_WAIT_CLASS | UBX_WAIT_ID | UBX_WAIT_LENGTH_1
  | UBX_WAIT_LENGTH_2 | UBX_WAIT_PAYLOAD | UBX_WAIT_CK_A | UBX_WAIT_CK_B

record ubx_parser =
  up_state :: ubx_parse_state
  up_message_class :: u8
  up_message_id :: u8
  up_payload_length :: u16
  up_payload_index :: u16
  up_ck_a :: u8
  up_ck_b :: u8
  up_received_ck_a :: u8
  up_received_ck_b :: u8
  up_payload :: bytes

record gnss_sys =
  gn_status :: gnss_status
  gn_parser :: ubx_parser
  gn_nmea_line :: bytes
  gn_last_utc_rx_us :: int
  gn_last_pvt_rx_us :: int
  gn_last_tim_tp_rx_us :: int
  gn_ack_waiting :: bool
  gn_ack_expected_class :: u8
  gn_ack_expected_id :: u8
  gn_ack_result :: esp_err
  gn_app :: app_state

definition read_le_u16 :: "bytes \<Rightarrow> nat \<Rightarrow> u16" where
  "read_le_u16 d off = ucast (d ! off) OR push_bit 8 (ucast (d ! (off + 1)))"

definition read_le_u32 :: "bytes \<Rightarrow> nat \<Rightarrow> u32" where
  "read_le_u32 d off = ucast (d ! off) OR push_bit 8 (ucast (d ! (off + 1))) OR
     push_bit 16 (ucast (d ! (off + 2))) OR push_bit 24 (ucast (d ! (off + 3)))"

definition read_le_i32 :: "bytes \<Rightarrow> nat \<Rightarrow> int" where
  "read_le_i32 d off = sint (read_le_u32 d off)"

definition write_le_u32 :: "bytes \<Rightarrow> nat \<Rightarrow> u32 \<Rightarrow> bytes" where
  "write_le_u32 d off v = poke d off [ucast v, ucast (drop_bit 8 v), ucast (drop_bit 16 v), ucast (drop_bit 24 v)]"

subsection \<open>Dates\<close>

text \<open>The unsigned intermediate values are small for the months and days that get here, so \<open>int\<close> is exact.\<close>

definition days_from_civil :: "int \<Rightarrow> int \<Rightarrow> int \<Rightarrow> int" where
  "days_from_civil year month day =
    (let year = year - (if month \<le> 2 then 1 else 0);
         era = (if 0 \<le> year then year div 400 else - ((399 - year) div 400));
         yoe = year - era * 400;
         shifted_month = (if month > 2 then month - 3 else month + 9);
         doy = (153 * shifted_month + 2) div 5 + day - 1;
         doe = yoe * 365 + yoe div 4 - yoe div 100 + doy
     in era * 146097 + doe - 719468)"

definition datetime_to_epoch :: "int \<Rightarrow> int \<Rightarrow> int \<Rightarrow> int \<Rightarrow> int \<Rightarrow> int \<Rightarrow> int option" where
  "datetime_to_epoch year month day hour minute second =
    (if year < 2000 \<or> year > 2100 \<or> month < 1 \<or> month > 12 \<or> day < 1 \<or> day > 31 \<or> hour < 0 \<or> hour > 23 \<or>
        minute < 0 \<or> minute > 59 \<or> second < 0 \<or> second > 60
     then None
     else
       let second = (if second = 60 then 59 else second) in
       Some (days_from_civil year month day * 86400 + hour * 3600 + minute * 60 + second))"

subsection \<open>NMEA lines\<close>

text \<open>A C string is the list of its characters; a look past its end sees the NUL.\<close>

definition isdigit :: "u8 \<Rightarrow> bool" where "isdigit c \<longleftrightarrow> 48 \<le> c \<and> c \<le> 57"

definition isxdigit :: "u8 \<Rightarrow> bool" where
  "isxdigit c \<longleftrightarrow> isdigit c \<or> 65 \<le> c \<and> c \<le> 70 \<or> 97 \<le> c \<and> c \<le> 102"

definition hex_value :: "u8 \<Rightarrow> u8" where
  "hex_value c = (if isdigit c then c - 48 else if c \<le> 70 then c - 55 else c - 87)"

definition isspace :: "u8 \<Rightarrow> bool" where "isspace c \<longleftrightarrow> c = 32 \<or> 9 \<le> c \<and> c \<le> 13"

definition at_nul :: "bytes \<Rightarrow> nat \<Rightarrow> u8" where
  "at_nul text i = (if i < length text then text ! i else 0)"

fun digits_value :: "int \<Rightarrow> bytes \<Rightarrow> int" where
  "digits_value acc [] = acc"
| "digits_value acc (c # cs) = (if isdigit c then digits_value (10 * acc + (uint c - 48)) cs else acc)"

text \<open>\<open>atoi\<close> is \<open>strtol\<close> in the C library of the target: out of range it stays at the bound.\<close>

definition atoi :: "bytes \<Rightarrow> int" where
  "atoi text =
    (let t = dropWhile isspace text;
         v = (if at_nul t 0 = 45 then - digits_value 0 (drop 1 t)
              else if at_nul t 0 = 43 then digits_value 0 (drop 1 t) else digits_value 0 t)
     in max (- (2 ^ 31)) (min (2 ^ 31 - 1) v))"

definition parse_two_digits :: "bytes \<Rightarrow> int option" where
  "parse_two_digits text =
    (if \<not> isdigit (at_nul text 0) \<or> \<not> isdigit (at_nul text 1) then None
     else Some ((uint (at_nul text 0) - 48) * 10 + (uint (at_nul text 1) - 48)))"

definition nmea_checksum_valid :: "bytes \<Rightarrow> bool" where
  "nmea_checksum_valid line =
    (if at_nul line 0 \<noteq> 0x24 then False
     else
       let before = takeWhile (\<lambda>c. c \<noteq> 0x2A) line; asterisk = drop (length before) line in
       if asterisk = [] \<or> \<not> isxdigit (at_nul asterisk 1) \<or> \<not> isxdigit (at_nul asterisk 2) then False
       else foldl (XOR) 0 (drop 1 before) = 16 * hex_value (at_nul asterisk 1) + hex_value (at_nul asterisk 2))"

definition strtok_r :: "bytes \<Rightarrow> (bytes \<times> bytes) option" where
  "strtok_r s =
    (let s = dropWhile (\<lambda>c. c = 0x2C) s in
     if s = [] then None
     else Some (takeWhile (\<lambda>c. c \<noteq> 0x2C) s, drop 1 (dropWhile (\<lambda>c. c \<noteq> 0x2C) s)))"

definition parse_zda_epoch :: "bytes \<Rightarrow> int option" where
  "parse_zda_epoch line =
    (if length line = 0 \<or> GNSS_LINE_MAX_LENGTH \<le> length line then None
     else
       let local_line = takeWhile (\<lambda>c. c \<noteq> 0x2A) line in
       Option.bind (strtok_r local_line) (\<lambda>(message, rest).
         if length message < 3 \<or> drop (length message - 3) message \<noteq> [0x5A, 0x44, 0x41] then None
         else
           Option.bind (strtok_r rest) (\<lambda>(utc_text, rest).
           Option.bind (strtok_r rest) (\<lambda>(day_text, rest).
           Option.bind (strtok_r rest) (\<lambda>(month_text, rest).
           Option.bind (strtok_r rest) (\<lambda>(year_text, rest).
             if length utc_text < 6 then None
             else
               Option.bind (parse_two_digits utc_text) (\<lambda>hour.
               Option.bind (parse_two_digits (drop 2 utc_text)) (\<lambda>minute.
               Option.bind (parse_two_digits (drop 4 utc_text)) (\<lambda>second.
                 datetime_to_epoch (atoi year_text) (atoi month_text) (atoi day_text) hour minute second)))))))))"

definition process_nmea_line :: "int \<Rightarrow> bytes \<Rightarrow> gnss_sys \<Rightarrow> gnss_sys" where
  "process_nmea_line now_us line s =
    (let st = gn_status s in
     if \<not> nmea_checksum_valid line
     then s\<lparr>gn_status := st\<lparr>gs_invalid_messages := gs_invalid_messages st + 1\<rparr>\<rparr>
     else case parse_zda_epoch line of
       None \<Rightarrow> s
     | Some epoch \<Rightarrow>
         let st = st\<lparr>gs_valid_zda_messages := gs_valid_zda_messages st + 1\<rparr> in
         if \<not> gs_utc_from_ubx_pvt st \<or> gn_last_pvt_rx_us s = 0 \<or>
            now_us - gn_last_pvt_rx_us s > APP_GNSS_TIMEOUT_SECONDS * 1000000
         then s\<lparr>gn_status := st\<lparr>gs_utc_valid := True, gs_utc_from_ubx_pvt := False, gs_utc_seconds := epoch,
                gs_utc_age_us := 0, gs_leap_indicator := APP_LEAP_UNKNOWN\<rparr>,
              gn_last_utc_rx_us := now_us,
              gn_app := app_state_set_gnss_valid True epoch APP_LEAP_UNKNOWN 0 (gn_app s)\<rparr>
         else s\<lparr>gn_status := st\<rparr>)"

subsection \<open>UBX messages\<close>

definition ubx_parser_reset :: ubx_parser where
  "ubx_parser_reset = \<lparr> up_state = UBX_WAIT_SYNC_1, up_message_class = 0, up_message_id = 0, up_payload_length = 0,
     up_payload_index = 0, up_ck_a = 0, up_ck_b = 0, up_received_ck_a = 0, up_received_ck_b = 0,
     up_payload = replicate UBX_MON_VER_MAX_PAYLOAD_LENGTH 0 \<rparr>"

definition ubx_checksum_add :: "u8 \<Rightarrow> ubx_parser \<Rightarrow> ubx_parser" where
  "ubx_checksum_add byte p =
    (let p = p\<lparr>up_ck_a := up_ck_a p + byte\<rparr> in p\<lparr>up_ck_b := up_ck_b p + up_ck_a p\<rparr>)"

text \<open>The payload a handler gets is the list of its \<open>payload_length\<close> octets.\<close>

definition handle_ubx_ack :: "u8 \<Rightarrow> bytes \<Rightarrow> gnss_sys \<Rightarrow> gnss_sys" where
  "handle_ubx_ack message_id payload s =
    (if length payload \<noteq> 2 then s
     else
       let st = gn_status s;
           st = (if message_id = UBX_ID_ACK_ACK then st\<lparr>gs_ubx_ack_count := gs_ubx_ack_count st + 1\<rparr>
                 else if message_id = UBX_ID_ACK_NAK then st\<lparr>gs_ubx_nak_count := gs_ubx_nak_count st + 1\<rparr>
                 else st);
           s = s\<lparr>gn_status := st\<rparr>
       in if gn_ack_waiting s \<and> payload ! 0 = gn_ack_expected_class s \<and> payload ! 1 = gn_ack_expected_id s
          then s\<lparr>gn_ack_result := (if message_id = UBX_ID_ACK_ACK then ESP_OK else ESP_ERR_INVALID_RESPONSE),
                 gn_ack_waiting := False\<rparr>
          else s)"

text \<open>What a NAV-PVT message says of the fix and of UTC.\<close>

definition pvt_fix_valid :: "bytes \<Rightarrow> bool" where
  "pvt_fix_valid payload \<longleftrightarrow> payload ! 21 AND 1 \<noteq> 0 \<and> 2 \<le> payload ! 20"

definition pvt_utc :: "bytes \<Rightarrow> int option" where
  "pvt_utc payload =
    (if payload ! 11 AND 1 \<noteq> 0 \<and> payload ! 11 AND 2 \<noteq> 0 \<and> payload ! 11 AND 4 \<noteq> 0 \<and> pvt_fix_valid payload
     then datetime_to_epoch (uint (read_le_u16 payload 4)) (uint (payload ! 6)) (uint (payload ! 7)) (uint (payload ! 8))
            (uint (payload ! 9)) (uint (payload ! 10))
     else None)"

definition handle_ubx_nav_pvt :: "int \<Rightarrow> bytes \<Rightarrow> gnss_sys \<Rightarrow> gnss_sys" where
  "handle_ubx_nav_pvt now_us payload s =
    (if length payload < UBX_NAV_PVT_MIN_LENGTH then s
     else
       let st = (gn_status s)\<lparr> gs_ubx_nav_pvt_messages := gs_ubx_nav_pvt_messages (gn_status s) + 1,
             gs_gnss_fix_valid := pvt_fix_valid payload, gs_gnss_time_fully_resolved := (payload ! 11 AND 4 \<noteq> 0),
             gs_fix_type := payload ! 20, gs_satellites_used := payload ! 23\<rparr>
       in case pvt_utc payload of
            Some epoch \<Rightarrow>
              s\<lparr>gn_status := st\<lparr>gs_utc_valid := True, gs_utc_from_ubx_pvt := True, gs_utc_seconds := epoch, gs_utc_age_us := 0\<rparr>,
                gn_last_pvt_rx_us := now_us, gn_last_utc_rx_us := now_us,
                gn_app := app_state_set_gnss_valid True epoch (gs_leap_indicator st) 0 (gn_app s)\<rparr>
          | None \<Rightarrow>
              s\<lparr>gn_status := (if gs_utc_from_ubx_pvt st then st\<lparr>gs_utc_valid := False\<rparr> else st),
                gn_app := app_state_set_gnss_valid False 0 APP_LEAP_UNKNOWN 0 (gn_app s)\<rparr>)"

definition handle_ubx_nav_timels :: "bytes \<Rightarrow> gnss_sys \<Rightarrow> gnss_sys" where
  "handle_ubx_nav_timels payload s =
    (if length payload < UBX_NAV_TIMELS_MIN_LENGTH then s
     else
       let current_leap_seconds = sint (payload ! 9); leap_change = sint (payload ! 11);
           seconds_to_event = read_le_i32 payload 12; valid_flags = payload ! 20;
           current_leap_valid = (valid_flags AND 1 \<noteq> 0); event_time_valid = (valid_flags AND 2 \<noteq> 0);
           bounded_current_leap_fallback = (0 \<le> current_leap_seconds \<and> current_leap_seconds \<le> 64 \<and> leap_change = 0 \<and>
             86400 < seconds_to_event);
           usable = (current_leap_valid \<or> bounded_current_leap_fallback);
           leap = (if \<not> usable then APP_LEAP_UNKNOWN
                   else if event_time_valid \<and> 0 < seconds_to_event \<and> 0 < leap_change then APP_LEAP_ADD_SECOND
                   else if event_time_valid \<and> 0 < seconds_to_event \<and> leap_change < 0 then APP_LEAP_DELETE_SECOND
                   else APP_LEAP_NO_WARNING)
       in s\<lparr>gn_status := (gn_status s)\<lparr> gs_ubx_nav_timels_messages := gs_ubx_nav_timels_messages (gn_status s) + 1,
            gs_leap_information_valid := usable, gs_current_leap_seconds := current_leap_seconds,
            gs_pending_leap_change := leap_change, gs_seconds_to_leap_event := seconds_to_event, gs_leap_indicator := leap\<rparr>\<rparr>)"

definition handle_ubx_tim_tp :: "int \<Rightarrow> bytes \<Rightarrow> gnss_sys \<Rightarrow> gnss_sys" where
  "handle_ubx_tim_tp now_us payload s =
    (if length payload < UBX_TIM_TP_MIN_LENGTH then s
     else s\<lparr>gn_status := (gn_status s)\<lparr> gs_ubx_tim_tp_messages := gs_ubx_tim_tp_messages (gn_status s) + 1,
              gs_timing_pulse_valid := True, gs_timing_week := read_le_u16 payload 12, gs_timing_tow_ms := read_le_u32 payload 0,
              gs_timing_tow_sub_ms := read_le_i32 payload 4, gs_timing_quantization_error_ns := read_le_i32 payload 8,
              gs_timing_pulse_flags := payload ! 14, gs_timing_pulse_age_us := 0\<rparr>,
            gn_last_tim_tp_rx_us := now_us\<rparr>)"

text \<open>The C string left in a text field of \<open>dst_size\<close> octets.\<close>

definition copy_ubx_text_field :: "nat \<Rightarrow> bytes \<Rightarrow> bytes" where
  "copy_ubx_text_field dst_size src =
    (let text = rev (dropWhile (\<lambda>c. c = 0x20) (rev (c_string src))) in take (dst_size - 1) text)"

function mon_ver_model :: "bytes \<Rightarrow> nat \<Rightarrow> bytes" where
  "mon_ver_model payload offset =
    (if \<not> offset + UBX_MON_VER_EXTENSION_LENGTH \<le> length payload then []
     else
       let ext = copy_ubx_text_field 31 (bslice payload offset UBX_MON_VER_EXTENSION_LENGTH) in
       if take 4 ext = [0x4D, 0x4F, 0x44, 0x3D] \<and> at_nul ext 4 \<noteq> 0 then take 31 (drop 4 ext)
       else mon_ver_model payload (offset + UBX_MON_VER_EXTENSION_LENGTH))"
  by pat_completeness auto
termination
  by (relation "measure (\<lambda>(payload, offset). Suc (length payload) - offset)") (auto simp: UBX_MON_VER_EXTENSION_LENGTH_def)

definition handle_ubx_mon_ver :: "bytes \<Rightarrow> gnss_sys \<Rightarrow> gnss_sys" where
  "handle_ubx_mon_ver payload s =
    (let st = gn_status s in
     if length payload < UBX_MON_VER_BASE_LENGTH
     then s\<lparr>gn_status := st\<lparr>gs_ubx_frames_invalid_length := gs_ubx_frames_invalid_length st + 1\<rparr>\<rparr>
     else
       let software = copy_ubx_text_field 31 (bslice payload 0 30); hardware = copy_ubx_text_field 11 (bslice payload 30 10);
           model = mon_ver_model payload UBX_MON_VER_BASE_LENGTH;
           model = (if model = [] \<and> hardware \<noteq> [] then take 31 hardware else model)
       in s\<lparr>gn_status := st\<lparr> gs_receiver_model := take 31 model, gs_receiver_software_version := take 30 software,
            gs_receiver_hardware_version := take 10 hardware,
            gs_receiver_identity_valid := (take 30 software \<noteq> [] \<or> take 10 hardware \<noteq> [])\<rparr>\<rparr>)"

definition dispatch_ubx_frame :: "int \<Rightarrow> u8 \<Rightarrow> u8 \<Rightarrow> bytes \<Rightarrow> gnss_sys \<Rightarrow> gnss_sys" where
  "dispatch_ubx_frame now_us message_class message_id payload s =
    (let st = gn_status s; s = s\<lparr>gn_status := st\<lparr>gs_ubx_frames_valid := gs_ubx_frames_valid st + 1\<rparr>\<rparr> in
     if message_class = UBX_CLASS_ACK \<and> (message_id = UBX_ID_ACK_ACK \<or> message_id = UBX_ID_ACK_NAK)
     then handle_ubx_ack message_id payload s
     else if message_class = UBX_CLASS_NAV \<and> message_id = UBX_ID_NAV_PVT then handle_ubx_nav_pvt now_us payload s
     else if message_class = UBX_CLASS_NAV \<and> message_id = UBX_ID_NAV_TIMELS then handle_ubx_nav_timels payload s
     else if message_class = UBX_CLASS_TIM \<and> message_id = UBX_ID_TIM_TP then handle_ubx_tim_tp now_us payload s
     else if message_class = UBX_CLASS_MON \<and> message_id = UBX_ID_MON_VER then handle_ubx_mon_ver payload s
     else s\<lparr>gn_status := (gn_status s)\<lparr>gs_ubx_frames_unsupported := gs_ubx_frames_unsupported (gn_status s) + 1\<rparr>\<rparr>)"

subsection \<open>The byte stream\<close>

definition ubx_parser_consume :: "int \<Rightarrow> u8 \<Rightarrow> gnss_sys \<Rightarrow> gnss_sys option" where
  "ubx_parser_consume now_us byte s =
    (let p = gn_parser s; st = gn_status s in
     case up_state p of
       UBX_WAIT_SYNC_1 \<Rightarrow> Some (if byte = UBX_SYNC_1 then s\<lparr>gn_parser := p\<lparr>up_state := UBX_WAIT_SYNC_2\<rparr>\<rparr> else s)
     | UBX_WAIT_SYNC_2 \<Rightarrow>
         Some (s\<lparr>gn_parser := p\<lparr>up_state :=
           (if byte = UBX_SYNC_2 then UBX_WAIT_CLASS else if byte = UBX_SYNC_1 then UBX_WAIT_SYNC_2 else UBX_WAIT_SYNC_1)\<rparr>\<rparr>)
     | UBX_WAIT_CLASS \<Rightarrow>
         Some (s\<lparr>gn_parser := (ubx_checksum_add byte (p\<lparr>up_message_class := byte\<rparr>))\<lparr>up_state := UBX_WAIT_ID\<rparr>\<rparr>)
     | UBX_WAIT_ID \<Rightarrow>
         Some (s\<lparr>gn_parser := (ubx_checksum_add byte (p\<lparr>up_message_id := byte\<rparr>))\<lparr>up_state := UBX_WAIT_LENGTH_1\<rparr>\<rparr>)
     | UBX_WAIT_LENGTH_1 \<Rightarrow>
         Some (s\<lparr>gn_parser := (ubx_checksum_add byte (p\<lparr>up_payload_length := ucast byte\<rparr>))\<lparr>up_state := UBX_WAIT_LENGTH_2\<rparr>\<rparr>)
     | UBX_WAIT_LENGTH_2 \<Rightarrow>
         let p = ubx_checksum_add byte (p\<lparr>up_payload_length := up_payload_length p OR push_bit 8 (ucast byte)\<rparr>) in
         if up_payload_length p > of_nat UBX_MON_VER_MAX_PAYLOAD_LENGTH
         then Some (s\<lparr>gn_status := st\<lparr>gs_ubx_frames_invalid_length := gs_ubx_frames_invalid_length st + 1\<rparr>,
                gn_parser := ubx_parser_reset\<rparr>)
         else Some (s\<lparr>gn_parser := p\<lparr>up_payload_index := 0,
                up_state := (if up_payload_length p = 0 then UBX_WAIT_CK_A else UBX_WAIT_PAYLOAD)\<rparr>\<rparr>)
     | UBX_WAIT_PAYLOAD \<Rightarrow>
         Option.bind (wr (up_payload p) (unat (up_payload_index p)) [byte]) (\<lambda>payload.
           let p = ubx_checksum_add byte (p\<lparr>up_payload := payload, up_payload_index := up_payload_index p + 1\<rparr>) in
           Some (s\<lparr>gn_parser := (if up_payload_index p \<ge> up_payload_length p then p\<lparr>up_state := UBX_WAIT_CK_A\<rparr> else p)\<rparr>))
     | UBX_WAIT_CK_A \<Rightarrow> Some (s\<lparr>gn_parser := p\<lparr>up_received_ck_a := byte, up_state := UBX_WAIT_CK_B\<rparr>\<rparr>)
     | UBX_WAIT_CK_B \<Rightarrow>
         if up_received_ck_a p = up_ck_a p \<and> byte = up_ck_b p then
           Option.bind (rd_slice (up_payload p) 0 (unat (up_payload_length p))) (\<lambda>payload.
             Some ((dispatch_ubx_frame now_us (up_message_class p) (up_message_id p) payload s)\<lparr>gn_parser := ubx_parser_reset\<rparr>))
         else Some (s\<lparr>gn_status := st\<lparr>gs_ubx_frames_invalid_checksum := gs_ubx_frames_invalid_checksum st + 1\<rparr>,
                gn_parser := ubx_parser_reset\<rparr>))"

definition process_received_byte :: "int \<Rightarrow> u8 \<Rightarrow> gnss_sys \<Rightarrow> gnss_sys option" where
  "process_received_byte now_us byte s =
    (if up_state (gn_parser s) \<noteq> UBX_WAIT_SYNC_1 \<or> byte = UBX_SYNC_1 then ubx_parser_consume now_us byte (s\<lparr>gn_nmea_line := []\<rparr>)
     else if byte = 0x24 then Some (s\<lparr>gn_nmea_line := [0x24]\<rparr>)
     else if gn_nmea_line s = [] then Some s
     else if byte = 0x0D then Some s
     else if byte = 0x0A
     then Some ((process_nmea_line now_us (c_string (gn_nmea_line s)) s)\<lparr>gn_nmea_line := []\<rparr>)
     else if length (gn_nmea_line s) < GNSS_LINE_MAX_LENGTH - 1 then Some (s\<lparr>gn_nmea_line := gn_nmea_line s @ [byte]\<rparr>)
     else Some (s\<lparr>gn_nmea_line := [],
            gn_status := (gn_status s)\<lparr>gs_invalid_messages := gs_invalid_messages (gn_status s) + 1\<rparr>\<rparr>))"

text \<open>The loop over the bytes of a read; \<open>nows i\<close> is the timer at the \<open>i\<close>-th.\<close>

fun process_bytes :: "(nat \<Rightarrow> int) \<Rightarrow> nat \<Rightarrow> bytes \<Rightarrow> gnss_sys \<Rightarrow> gnss_sys option" where
  "process_bytes nows i [] s = Some s"
| "process_bytes nows i (b # bs) s = Option.bind (process_received_byte (nows i) b s) (process_bytes nows (Suc i) bs)"

subsection \<open>Commands\<close>

definition fletcher :: "u8 \<times> u8 \<Rightarrow> bytes \<Rightarrow> u8 \<times> u8" where
  "fletcher = foldl (\<lambda>(a, b) byte. (a + byte, b + (a + byte)))"

definition ubx_header :: "u8 \<Rightarrow> u8 \<Rightarrow> u16 \<Rightarrow> bytes" where
  "ubx_header message_class message_id payload_length =
     [UBX_SYNC_1, UBX_SYNC_2, message_class, message_id, ucast payload_length, ucast (drop_bit 8 payload_length)]"

definition ubx_checksum :: "bytes \<Rightarrow> bytes \<Rightarrow> bytes" where
  "ubx_checksum header payload = (let (a, b) = fletcher (fletcher (0, 0) (drop 2 header)) payload in [a, b])"

record uart_writes =
  uw_header :: int
  uw_payload :: int
  uw_checksum :: int
  uw_done :: esp_err

text \<open>The result and the octets handed to the driver.\<close>

definition ubx_write_frame :: "uart_writes \<Rightarrow> u8 \<Rightarrow> u8 \<Rightarrow> bytes \<Rightarrow> esp_err \<times> bytes" where
  "ubx_write_frame w message_class message_id payload =
    (let header = ubx_header message_class message_id (of_nat (length payload)); checksum = ubx_checksum header payload in
     if uw_header w \<noteq> int (length header) then (ESP_FAIL, header)
     else if 0 < length payload \<and> uw_payload w \<noteq> int (length payload) then (ESP_FAIL, header @ payload)
     else if uw_checksum w \<noteq> int (length checksum) then (ESP_FAIL, header @ payload @ checksum)
     else (uw_done w, header @ payload @ checksum))"

text \<open>One pass of a waiting loop: the timer at its condition, the bytes read, and the timer while they are handled.\<close>

record wait_round =
  wr_check :: int
  wr_received :: bytes
  wr_nows :: "nat \<Rightarrow> int"

record ack_attempt =
  at_writes :: uart_writes
  at_start :: int
  at_rounds :: "nat \<Rightarrow> wait_round"

partial_function (option) wait_ack :: "(nat \<Rightarrow> wait_round) \<Rightarrow> int \<Rightarrow> nat \<Rightarrow> gnss_sys \<Rightarrow> gnss_sys option" where
  "wait_ack rounds deadline_us i s =
    (if gn_ack_waiting s \<and> wr_check (rounds i) < deadline_us
     then Option.bind (process_bytes (wr_nows (rounds i)) 0 (wr_received (rounds i)) s)
       (\<lambda>s1. wait_ack rounds deadline_us (i + 1) s1)
     else Some s)"

text \<open>The attempts of \<open>ubx_send_and_wait_ack\<close>: \<open>n\<close> left, the next one is the \<open>k\<close>-th.\<close>

fun ubx_attempts :: "(nat \<Rightarrow> ack_attempt) \<Rightarrow> u8 \<Rightarrow> u8 \<Rightarrow> bytes \<Rightarrow> nat \<Rightarrow> nat \<Rightarrow> esp_err \<Rightarrow> gnss_sys \<Rightarrow> (esp_err \<times> gnss_sys) option" where
  "ubx_attempts env message_class message_id payload 0 k result s =
     Some (result, s\<lparr>gn_status := (gn_status s)\<lparr>gs_ubx_configuration_failures := gs_ubx_configuration_failures (gn_status s) + 1\<rparr>\<rparr>)"
| "ubx_attempts env message_class message_id payload (Suc n) k result s =
    (let s1 = s\<lparr>gn_ack_waiting := True, gn_ack_expected_class := message_class, gn_ack_expected_id := message_id,
           gn_ack_result := ESP_ERR_TIMEOUT\<rparr>;
         (result, _) = ubx_write_frame (at_writes (env k)) message_class message_id payload
     in if result \<noteq> ESP_OK
        then ubx_attempts env message_class message_id payload n (k + 1) result (s1\<lparr>gn_ack_waiting := False\<rparr>)
        else
          Option.bind (wait_ack (at_rounds (env k)) (at_start (env k) + APP_GNSS_UBX_ACK_TIMEOUT_MS * 1000) 0 s1) (\<lambda>s2.
            if \<not> gn_ack_waiting s2 \<and> gn_ack_result s2 = ESP_OK then Some (ESP_OK, s2)
            else ubx_attempts env message_class message_id payload n (k + 1) (gn_ack_result s2) (s2\<lparr>gn_ack_waiting := False\<rparr>)))"

definition ubx_send_and_wait_ack :: "(nat \<Rightarrow> ack_attempt) \<Rightarrow> u8 \<Rightarrow> u8 \<Rightarrow> bytes \<Rightarrow> gnss_sys \<Rightarrow> (esp_err \<times> gnss_sys) option" where
  "ubx_send_and_wait_ack env message_class message_id payload s =
     ubx_attempts env message_class message_id payload (APP_GNSS_UBX_COMMAND_RETRIES + 1) 0 ESP_FAIL s"

definition ubx_configure_message_rate :: "(nat \<Rightarrow> ack_attempt) \<Rightarrow> u8 \<Rightarrow> u8 \<Rightarrow> u8 \<Rightarrow> gnss_sys \<Rightarrow> (esp_err \<times> gnss_sys) option" where
  "ubx_configure_message_rate env message_class message_id uart1_rate s =
     ubx_send_and_wait_ack env UBX_CLASS_CFG UBX_ID_CFG_MSG [message_class, message_id, 0, uart1_rate, 0, 0, 0, 0] s"

definition tp5_payload :: bytes where
  "tp5_payload =
    (let p = (replicate UBX_CFG_TP5_PAYLOAD_LENGTH 0)[0 := 0, 1 := 1];
         p = write_le_u32 (write_le_u32 p 8 APP_GNSS_TP1_FREQUENCY_HZ) 12 APP_GNSS_TP1_FREQUENCY_HZ;
         p = write_le_u32 (write_le_u32 p 16 APP_GNSS_TP1_PULSE_LENGTH_US) 20 APP_GNSS_TP1_PULSE_LENGTH_US
     in write_le_u32 p 28 (0x01 OR 0x02 OR 0x08 OR 0x10 OR 0x20 OR 0x40))"

definition ubx_configure_tp1 :: "(nat \<Rightarrow> ack_attempt) \<Rightarrow> gnss_sys \<Rightarrow> (esp_err \<times> gnss_sys) option" where
  "ubx_configure_tp1 env s = ubx_send_and_wait_ack env UBX_CLASS_CFG UBX_ID_CFG_TP5 tp5_payload s"

partial_function (option) poll_loop :: "(nat \<Rightarrow> wait_round) \<Rightarrow> int \<Rightarrow> nat \<Rightarrow> gnss_sys \<Rightarrow> gnss_sys option" where
  "poll_loop rounds deadline_us i s =
    (if wr_check (rounds i) < deadline_us
     then Option.bind (process_bytes (wr_nows (rounds i)) 0 (wr_received (rounds i)) s)
       (\<lambda>s1. if gs_receiver_identity_valid (gn_status s1) then Some s1 else poll_loop rounds deadline_us (i + 1) s1)
     else Some s)"

definition ubx_poll_mon_ver :: "ack_attempt \<Rightarrow> gnss_sys \<Rightarrow> gnss_sys option" where
  "ubx_poll_mon_ver env s =
    (if fst (ubx_write_frame (at_writes env) UBX_CLASS_MON UBX_ID_MON_VER []) \<noteq> ESP_OK then Some s
     else poll_loop (at_rounds env) (at_start env + 750000) 0 s)"

text \<open>The start-up commands; \<open>envs c\<close> is the environment of the \<open>c\<close>-th, \<open>tp\<close> is \<open>APP_GNSS_CONFIGURE_TIMEPULSE\<close>.\<close>

definition gnss_configure_receiver :: "bool \<Rightarrow> (nat \<Rightarrow> nat \<Rightarrow> ack_attempt) \<Rightarrow> gnss_sys \<Rightarrow> gnss_sys option" where
  "gnss_configure_receiver tp envs s =
    (let s0 = s\<lparr>gn_status := (gn_status s)\<lparr>gs_ubx_configuration_attempted := True\<rparr>\<rparr> in
     Option.bind (ubx_configure_message_rate (envs 0) UBX_CLASS_NAV UBX_ID_NAV_PVT 1 s0) (\<lambda>(e1, s1).
     Option.bind (ubx_configure_message_rate (envs 1) UBX_CLASS_NAV UBX_ID_NAV_TIMELS 1 s1) (\<lambda>(e2, s2).
     Option.bind (ubx_configure_message_rate (envs 2) UBX_CLASS_TIM UBX_ID_TIM_TP 1 s2) (\<lambda>(e3, s3).
     Option.bind (ubx_configure_message_rate (envs 3) UBX_CLASS_NMEA UBX_ID_NMEA_ZDA 1 s3) (\<lambda>(e4, s4).
       let complete = (e1 = ESP_OK \<and> e2 = ESP_OK \<and> e3 = ESP_OK \<and> e4 = ESP_OK) in
       if tp then
         Option.bind (ubx_configure_tp1 (envs 4) (s4\<lparr>gn_status := (gn_status s4)\<lparr>gs_ubx_timepulse_configuration_attempted := True\<rparr>\<rparr>))
           (\<lambda>(e5, s5).
             let s6 = (if e5 = ESP_OK then s5\<lparr>gn_status := (gn_status s5)\<lparr>gs_ubx_timepulse_configuration_complete := True\<rparr>\<rparr> else s5)
             in Some (s6\<lparr>gn_status := (gn_status s6)\<lparr>gs_ubx_configuration_complete := (complete \<and> e5 = ESP_OK)\<rparr>\<rparr>))
       else Some (s4\<lparr>gn_status := (gn_status s4)\<lparr>gs_ubx_configuration_complete := complete\<rparr>\<rparr>))))))"

subsection \<open>The service\<close>

definition gnss_update_staleness :: "int \<Rightarrow> gnss_sys \<Rightarrow> gnss_sys" where
  "gnss_update_staleness now_us s =
    (let st = gn_status s;
         check_utc = (gs_utc_valid st \<and> gn_last_utc_rx_us s > 0);
         utc_age_us = (if check_utc then max 0 (now_us - gn_last_utc_rx_us s) else -1);
         stale = (check_utc \<and> utc_age_us > APP_GNSS_TIMEOUT_SECONDS * 1000000);
         st = (if check_utc then st\<lparr>gs_utc_age_us := utc_age_us\<rparr> else st);
         st = (if stale then st\<lparr>gs_utc_valid := False, gs_utc_from_ubx_pvt := False\<rparr> else st);
         check_tp = (gs_timing_pulse_valid st \<and> gn_last_tim_tp_rx_us s > 0);
         timing_age_us = max 0 (now_us - gn_last_tim_tp_rx_us s);
         st = (if check_tp then st\<lparr>gs_timing_pulse_age_us := timing_age_us\<rparr> else st);
         st = (if check_tp \<and> timing_age_us > APP_GNSS_TIMEOUT_SECONDS * 1000000 then st\<lparr>gs_timing_pulse_valid := False\<rparr> else st)
     in s\<lparr>gn_status := st,
          gn_app := (if stale then app_state_set_gnss_valid False 0 APP_LEAP_UNKNOWN utc_age_us (gn_app s) else gn_app s)\<rparr>)"

text \<open>One pass of \<open>gnss_task\<close>: the bytes read (none on a timeout or an error), then the check for staleness.\<close>

definition gnss_task :: "bytes \<Rightarrow> (nat \<Rightarrow> int) \<Rightarrow> int \<Rightarrow> gnss_sys \<Rightarrow> gnss_sys option" where
  "gnss_task received nows now_us s =
    (if 0 < length received then
       Option.bind (process_bytes nows 0 received
           (s\<lparr>gn_status := (gn_status s)\<lparr>gs_uart_bytes_received := gs_uart_bytes_received (gn_status s) + of_nat (length received)\<rparr>\<rparr>))
         (\<lambda>s1. Some (gnss_update_staleness now_us s1))
     else Some (gnss_update_staleness now_us s))"

text \<open>The driver calls of \<open>gnss_service_init\<close>, in order; the last field is the creation of the task.\<close>

record gnss_setup =
  gu_driver_install :: esp_err
  gu_param_config :: esp_err
  gu_set_pin :: esp_err
  gu_task_created :: bool

definition gnss_service_init ::
    "bool \<Rightarrow> bool \<Rightarrow> gnss_setup \<Rightarrow> (nat \<Rightarrow> nat \<Rightarrow> ack_attempt) \<Rightarrow> ack_attempt \<Rightarrow> gnss_sys \<Rightarrow> (esp_err \<times> gnss_sys) option" where
  "gnss_service_init on_boot tp u envs poll s =
    (if gs_initialized (gn_status s) then Some (ESP_OK, s)
     else if gu_driver_install u \<noteq> ESP_OK then Some (gu_driver_install u, s)
     else if gu_param_config u \<noteq> ESP_OK then Some (gu_param_config u, s)
     else if gu_set_pin u \<noteq> ESP_OK then Some (gu_set_pin u, s)
     else
       let s0 = s\<lparr> gn_parser := ubx_parser_reset,
             gn_status := gnss_zero_status\<lparr>gs_initialized := True, gs_leap_indicator := APP_LEAP_UNKNOWN\<rparr>,
             gn_nmea_line := [], gn_last_utc_rx_us := 0, gn_last_pvt_rx_us := 0, gn_last_tim_tp_rx_us := 0,
             gn_ack_waiting := False, gn_ack_expected_class := 0, gn_ack_expected_id := 0, gn_ack_result := ESP_ERR_TIMEOUT\<rparr> in
       Option.bind (if on_boot then gnss_configure_receiver tp envs s0 else Some s0) (\<lambda>s1.
       Option.bind (ubx_poll_mon_ver poll s1) (\<lambda>s2.
         Some (if gu_task_created u then ESP_OK else ESP_ERR_NO_MEM, s2))))"

definition gnss_service_get_status :: "int \<Rightarrow> gnss_sys \<Rightarrow> gnss_status" where
  "gnss_service_get_status now_us s =
    (let st = gn_status s;
         st = (if gs_utc_valid st \<and> gn_last_utc_rx_us s > 0
               then st\<lparr>gs_utc_age_us := max 0 (now_us - gn_last_utc_rx_us s)\<rparr> else st)
     in if gs_timing_pulse_valid st \<and> gn_last_tim_tp_rx_us s > 0
        then st\<lparr>gs_timing_pulse_age_us := max 0 (now_us - gn_last_tim_tp_rx_us s)\<rparr> else st)"

declare mon_ver_model.simps [simp del]

end
