(* ===== verification/Gnss_Service_Theory.thy ===== *)
theory Gnss_Service_Theory
  imports Gnss_Service
begin

text \<open>
  The receiver's stream: any bytes are handled within the buffers, what was framed as UBX messages and
  NMEA lines is what gets dispatched, dates become the right POSIX seconds, and what is published as
  valid is fresh. Then the start-up exchange returns as soon as the timer runs.
\<close>

named_theorems gnss_simps \<open>what the handlers leave alone\<close>

subsection \<open>The handlers and the parser\<close>

lemma handlers_frame [gnss_simps]:
  "gn_parser (handle_ubx_ack i d s) = gn_parser s" "gn_nmea_line (handle_ubx_ack i d s) = gn_nmea_line s"
  "gn_parser (handle_ubx_nav_pvt t d s) = gn_parser s" "gn_nmea_line (handle_ubx_nav_pvt t d s) = gn_nmea_line s"
  "gn_parser (handle_ubx_nav_timels d s) = gn_parser s" "gn_nmea_line (handle_ubx_nav_timels d s) = gn_nmea_line s"
  "gn_parser (handle_ubx_tim_tp t d s) = gn_parser s" "gn_nmea_line (handle_ubx_tim_tp t d s) = gn_nmea_line s"
  "gn_parser (handle_ubx_mon_ver d s) = gn_parser s" "gn_nmea_line (handle_ubx_mon_ver d s) = gn_nmea_line s"
  by (auto simp: handle_ubx_ack_def handle_ubx_nav_pvt_def handle_ubx_nav_timels_def handle_ubx_tim_tp_def
      handle_ubx_mon_ver_def Let_def split: option.split)

lemma dispatch_frame [gnss_simps]:
  "gn_parser (dispatch_ubx_frame t c i d s) = gn_parser s"
  "gn_nmea_line (dispatch_ubx_frame t c i d s) = gn_nmea_line s"
  by (simp_all add: dispatch_ubx_frame_def Let_def gnss_simps)

lemma nmea_frame [gnss_simps]:
  "gn_parser (process_nmea_line t l s) = gn_parser s" "gn_nmea_line (process_nmea_line t l s) = gn_nmea_line s"
  by (auto simp: process_nmea_line_def Let_def split: option.split)

lemma handlers_indep [gnss_simps]:
  "handle_ubx_ack i d (s\<lparr>gn_parser := p\<rparr>) = (handle_ubx_ack i d s)\<lparr>gn_parser := p\<rparr>"
  "handle_ubx_nav_pvt t d (s\<lparr>gn_parser := p\<rparr>) = (handle_ubx_nav_pvt t d s)\<lparr>gn_parser := p\<rparr>"
  "handle_ubx_nav_timels d (s\<lparr>gn_parser := p\<rparr>) = (handle_ubx_nav_timels d s)\<lparr>gn_parser := p\<rparr>"
  "handle_ubx_tim_tp t d (s\<lparr>gn_parser := p\<rparr>) = (handle_ubx_tim_tp t d s)\<lparr>gn_parser := p\<rparr>"
  "handle_ubx_mon_ver d (s\<lparr>gn_parser := p\<rparr>) = (handle_ubx_mon_ver d s)\<lparr>gn_parser := p\<rparr>"
  "handle_ubx_ack i d (s\<lparr>gn_nmea_line := l\<rparr>) = (handle_ubx_ack i d s)\<lparr>gn_nmea_line := l\<rparr>"
  "handle_ubx_nav_pvt t d (s\<lparr>gn_nmea_line := l\<rparr>) = (handle_ubx_nav_pvt t d s)\<lparr>gn_nmea_line := l\<rparr>"
  "handle_ubx_nav_timels d (s\<lparr>gn_nmea_line := l\<rparr>) = (handle_ubx_nav_timels d s)\<lparr>gn_nmea_line := l\<rparr>"
  "handle_ubx_tim_tp t d (s\<lparr>gn_nmea_line := l\<rparr>) = (handle_ubx_tim_tp t d s)\<lparr>gn_nmea_line := l\<rparr>"
  "handle_ubx_mon_ver d (s\<lparr>gn_nmea_line := l\<rparr>) = (handle_ubx_mon_ver d s)\<lparr>gn_nmea_line := l\<rparr>"
  by (auto simp: handle_ubx_ack_def handle_ubx_nav_pvt_def handle_ubx_nav_timels_def handle_ubx_tim_tp_def
      handle_ubx_mon_ver_def Let_def split: option.split)

lemma dispatch_indep [gnss_simps]:
  "dispatch_ubx_frame t c i d (s\<lparr>gn_parser := p\<rparr>) = (dispatch_ubx_frame t c i d s)\<lparr>gn_parser := p\<rparr>"
  "dispatch_ubx_frame t c i d (s\<lparr>gn_nmea_line := l\<rparr>) = (dispatch_ubx_frame t c i d s)\<lparr>gn_nmea_line := l\<rparr>"
proof -
  define f where "f = (\<lambda>x::gnss_sys. x\<lparr>gn_status := (gn_status x)\<lparr>gs_ubx_frames_valid := gs_ubx_frames_valid (gn_status x) + 1\<rparr>\<rparr>)"
  have f: "f (s\<lparr>gn_parser := p\<rparr>) = (f s)\<lparr>gn_parser := p\<rparr>" "f (s\<lparr>gn_nmea_line := l\<rparr>) = (f s)\<lparr>gn_nmea_line := l\<rparr>"
    by (simp_all add: f_def)
  define u where "u = (\<lambda>x::gnss_sys. x\<lparr>gn_status := (gn_status x)\<lparr>gs_ubx_frames_unsupported := gs_ubx_frames_unsupported (gn_status x) + 1\<rparr>\<rparr>)"
  have u: "u ((f s)\<lparr>gn_parser := p\<rparr>) = (u (f s))\<lparr>gn_parser := p\<rparr>" "u ((f s)\<lparr>gn_nmea_line := l\<rparr>) = (u (f s))\<lparr>gn_nmea_line := l\<rparr>"
    by (simp_all add: u_def)
  have d: "dispatch_ubx_frame t c i d x =
     (if c = UBX_CLASS_ACK \<and> (i = UBX_ID_ACK_ACK \<or> i = UBX_ID_ACK_NAK) then handle_ubx_ack i d (f x)
      else if c = UBX_CLASS_NAV \<and> i = UBX_ID_NAV_PVT then handle_ubx_nav_pvt t d (f x)
      else if c = UBX_CLASS_NAV \<and> i = UBX_ID_NAV_TIMELS then handle_ubx_nav_timels d (f x)
      else if c = UBX_CLASS_TIM \<and> i = UBX_ID_TIM_TP then handle_ubx_tim_tp t d (f x)
      else if c = UBX_CLASS_MON \<and> i = UBX_ID_MON_VER then handle_ubx_mon_ver d (f x)
      else u (f x))" for x
    by (simp only: dispatch_ubx_frame_def f_def u_def Let_def)
  show "dispatch_ubx_frame t c i d (s\<lparr>gn_parser := p\<rparr>) = (dispatch_ubx_frame t c i d s)\<lparr>gn_parser := p\<rparr>"
    "dispatch_ubx_frame t c i d (s\<lparr>gn_nmea_line := l\<rparr>) = (dispatch_ubx_frame t c i d s)\<lparr>gn_nmea_line := l\<rparr>"
    unfolding d f handlers_indep u by (simp_all only: if_distrib [of "\<lambda>x. x\<lparr>gn_parser := p\<rparr>"] if_distrib [of "\<lambda>x. x\<lparr>gn_nmea_line := l\<rparr>"])
qed

lemma process_bytes_append:
  "process_bytes nows i (xs @ ys) s =
     Option.bind (process_bytes nows i xs s) (process_bytes nows (i + length xs) ys)"
  by (induction xs arbitrary: i s) (auto simp: Option.bind_assoc add_Suc intro!: arg_cong2 [where f = Option.bind])

subsection \<open>Any bytes are handled within the buffers\<close>

definition gnss_buffers_ok :: "gnss_sys \<Rightarrow> bool" where
  "gnss_buffers_ok s \<longleftrightarrow>
     (let p = gn_parser s in
      length (up_payload p) = UBX_MON_VER_MAX_PAYLOAD_LENGTH \<and>
      (up_state p = UBX_WAIT_PAYLOAD \<longrightarrow> up_payload_index p < up_payload_length p) \<and>
      (up_state p \<in> {UBX_WAIT_PAYLOAD, UBX_WAIT_CK_A, UBX_WAIT_CK_B} \<longrightarrow>
         unat (up_payload_length p) \<le> UBX_MON_VER_MAX_PAYLOAD_LENGTH) \<and>
      length (gn_nmea_line s) < GNSS_LINE_MAX_LENGTH)"

lemma reset_buffers_ok [simp]:
  "gn_parser s = ubx_parser_reset \<Longrightarrow> gnss_buffers_ok s \<longleftrightarrow> length (gn_nmea_line s) < GNSS_LINE_MAX_LENGTH"
  by (simp add: gnss_buffers_ok_def ubx_parser_reset_def)

lemma checksum_add_fields [simp]:
  "up_state (ubx_checksum_add b p) = up_state p" "up_payload (ubx_checksum_add b p) = up_payload p"
  "up_payload_length (ubx_checksum_add b p) = up_payload_length p"
  "up_payload_index (ubx_checksum_add b p) = up_payload_index p"
  "up_message_class (ubx_checksum_add b p) = up_message_class p" "up_message_id (ubx_checksum_add b p) = up_message_id p"
  "up_received_ck_a (ubx_checksum_add b p) = up_received_ck_a p"
  by (simp_all add: ubx_checksum_add_def Let_def)

lemma payload_bound: "w \<le> of_nat UBX_MON_VER_MAX_PAYLOAD_LENGTH \<longleftrightarrow> unat w \<le> UBX_MON_VER_MAX_PAYLOAD_LENGTH" for w :: u16
  by (simp add: UBX_MON_VER_MAX_PAYLOAD_LENGTH_def word_le_nat_alt)

lemma next_index: "unat (j + 1) = unat j + 1" if "j < n" for j n :: u16
proof -
  have "unat j < unat n" using that by (simp add: word_less_nat_alt)
  then have "unat j + 1 < 2 ^ 16" using unsigned_less [of n, where ?'a = nat] by simp
  then show ?thesis by (simp add: unat_word_ariths)
qed

lemma consume_ok:
  assumes "gnss_buffers_ok s"
  shows "\<exists>s'. ubx_parser_consume now b s = Some s' \<and> gnss_buffers_ok s'"
proof (cases "up_state (gn_parser s)")
  case UBX_WAIT_PAYLOAD
  then have j: "up_payload_index (gn_parser s) < up_payload_length (gn_parser s)"
      "unat (up_payload_length (gn_parser s)) \<le> UBX_MON_VER_MAX_PAYLOAD_LENGTH"
      "length (up_payload (gn_parser s)) = UBX_MON_VER_MAX_PAYLOAD_LENGTH"
    using assms by (auto simp: gnss_buffers_ok_def Let_def)
  then have "unat (up_payload_index (gn_parser s)) + length [b] \<le> length (up_payload (gn_parser s))"
    by (simp add: word_less_nat_alt)
  then show ?thesis
    using UBX_WAIT_PAYLOAD assms j by (auto simp: ubx_parser_consume_def gnss_buffers_ok_def Let_def not_le)
next
  case UBX_WAIT_CK_B
  then show ?thesis
    using assms by (auto simp: ubx_parser_consume_def gnss_buffers_ok_def Let_def gnss_simps ubx_parser_reset_def)
next
  case UBX_WAIT_LENGTH_2
  then show ?thesis
    using assms
    by (auto simp: ubx_parser_consume_def gnss_buffers_ok_def Let_def ubx_parser_reset_def payload_bound not_less
        word_greater_zero_iff)
qed (use assms in \<open>auto simp: ubx_parser_consume_def gnss_buffers_ok_def Let_def\<close>)

lemma received_byte_ok:
  assumes "gnss_buffers_ok s"
  shows "\<exists>s'. process_received_byte now b s = Some s' \<and> gnss_buffers_ok s'"
proof (cases "up_state (gn_parser s) \<noteq> UBX_WAIT_SYNC_1 \<or> b = UBX_SYNC_1")
  case True
  have "gnss_buffers_ok (s\<lparr>gn_nmea_line := []\<rparr>)"
    using assms by (simp add: gnss_buffers_ok_def Let_def GNSS_LINE_MAX_LENGTH_def)
  from consume_ok [OF this, of now b] show ?thesis using True by (simp add: process_received_byte_def)
next
  case False
  then show ?thesis
    using assms by (auto simp: process_received_byte_def gnss_buffers_ok_def Let_def GNSS_LINE_MAX_LENGTH_def gnss_simps)
qed

lemma process_bytes_ok:
  "gnss_buffers_ok s \<Longrightarrow> \<exists>s'. process_bytes nows i bs s = Some s' \<and> gnss_buffers_ok s'"
proof (induction bs arbitrary: i s)
  case (Cons b bs)
  obtain s1 where s1: "process_received_byte (nows i) b s = Some s1" "gnss_buffers_ok s1"
    using received_byte_ok [OF Cons.prems] by blast
  then show ?case using Cons.IH [OF s1(2), of "Suc i"] by simp
qed simp

subsection \<open>Framing\<close>

text \<open>What a receiver sends: UBX frames, frames damaged on the line, NMEA lines, and noise between them.\<close>

datatype gnss_item =
    Ubx_Frame u8 u8 bytes
  | Ubx_Damaged u8 u8 bytes u8 u8
  | Nmea_Line bytes
  | Noise bytes

definition ubx_octets :: "u8 \<Rightarrow> u8 \<Rightarrow> bytes \<Rightarrow> bytes" where
  "ubx_octets c i d = snd (ubx_write_frame \<lparr>uw_header = 6, uw_payload = int (length d), uw_checksum = 2, uw_done = ESP_OK\<rparr> c i d)"

fun item_octets :: "gnss_item \<Rightarrow> bytes" where
  "item_octets (Ubx_Frame c i d) = ubx_octets c i d"
| "item_octets (Ubx_Damaged c i d a b) = ubx_header c i (of_nat (length d)) @ d @ [a, b]"
| "item_octets (Nmea_Line body) = 0x24 # body @ [0x0D, 0x0A]"
| "item_octets (Noise bs) = bs"

fun item_ok :: "gnss_item \<Rightarrow> bool" where
  "item_ok (Ubx_Frame c i d) \<longleftrightarrow> length d \<le> UBX_MON_VER_MAX_PAYLOAD_LENGTH"
| "item_ok (Ubx_Damaged c i d a b) \<longleftrightarrow> length d \<le> UBX_MON_VER_MAX_PAYLOAD_LENGTH \<and>
     [a, b] \<noteq> ubx_checksum (ubx_header c i (of_nat (length d))) d"
| "item_ok (Nmea_Line body) \<longleftrightarrow> length body < GNSS_LINE_MAX_LENGTH - 1 \<and> UBX_SYNC_1 \<notin> set body \<and> 0x24 \<notin> set body \<and>
     0x0D \<notin> set body \<and> 0x0A \<notin> set body"
| "item_ok (Noise bs) \<longleftrightarrow> UBX_SYNC_1 \<notin> set bs \<and> 0x24 \<notin> set bs"

fun item_effect :: "int \<Rightarrow> gnss_item \<Rightarrow> gnss_sys \<Rightarrow> gnss_sys" where
  "item_effect now (Ubx_Frame c i d) s = dispatch_ubx_frame now c i d s"
| "item_effect now (Ubx_Damaged c i d a b) s =
     s\<lparr>gn_status := (gn_status s)\<lparr>gs_ubx_frames_invalid_checksum := gs_ubx_frames_invalid_checksum (gn_status s) + 1\<rparr>\<rparr>"
| "item_effect now (Nmea_Line body) s = process_nmea_line now (c_string (0x24 # body)) s"
| "item_effect now (Noise bs) s = s"

text \<open>The effects in order, each at the timer reading of its last octet.\<close>

fun items_effect :: "(nat \<Rightarrow> int) \<Rightarrow> nat \<Rightarrow> gnss_item list \<Rightarrow> gnss_sys \<Rightarrow> gnss_sys" where
  "items_effect nows i [] s = s"
| "items_effect nows i (x # xs) s =
     items_effect nows (i + length (item_octets x)) xs (item_effect (nows (i + length (item_octets x) - 1)) x s)"

definition payload_done :: "ubx_parser \<Rightarrow> bytes \<Rightarrow> ubx_parser" where
  "payload_done p bs =
    p\<lparr> up_ck_a := fst (fletcher (up_ck_a p, up_ck_b p) bs), up_ck_b := snd (fletcher (up_ck_a p, up_ck_b p) bs),
      up_payload := poke (up_payload p) (unat (up_payload_index p)) bs, up_payload_index := up_payload_length p,
      up_state := UBX_WAIT_CK_A\<rparr>"

lemma fletcher_simps [simp]: "fletcher ab [] = ab" "fletcher (a, b) (x # xs) = fletcher (a + x, b + (a + x)) xs"
  by (simp_all add: fletcher_def)

lemma poke_Cons: "off + 1 \<le> length buf \<Longrightarrow> poke (poke buf off [x]) (Suc off) xs = poke buf off (x # xs)"
  by (cases xs) (auto simp: poke_def min_def add_ac)

lemma payload_octets:
  assumes "up_state (gn_parser s) = UBX_WAIT_PAYLOAD" "bs \<noteq> []" "gn_nmea_line s = []"
    and "unat (up_payload_length (gn_parser s)) = unat (up_payload_index (gn_parser s)) + length bs"
    and "unat (up_payload_length (gn_parser s)) \<le> length (up_payload (gn_parser s))"
  shows "process_bytes nows i bs s = Some (s\<lparr>gn_parser := payload_done (gn_parser s) bs\<rparr>)"
  using assms
proof (induction bs arbitrary: i s)
  case (Cons b bs)
  let ?p = "gn_parser s"
  let ?p1 = "ubx_checksum_add b (?p\<lparr>up_payload := poke (up_payload ?p) (unat (up_payload_index ?p)) [b],
    up_payload_index := up_payload_index ?p + 1\<rparr>)"
  have lt: "up_payload_index ?p < up_payload_length ?p" using Cons.prems(4) by (simp add: word_less_nat_alt)
  note nx = next_index [OF lt]
  have room: "unat (up_payload_index ?p) + length [b] \<le> length (up_payload ?p)"
    using Cons.prems(4,5) by simp
  have last: "up_payload_index ?p + 1 \<ge> up_payload_length ?p \<longleftrightarrow> bs = []"
    using Cons.prems(4) nx by (simp add: word_le_nat_alt)
  have step: "process_received_byte (nows i) b s =
      Some (s\<lparr>gn_parser := (if bs = [] then ?p1\<lparr>up_state := UBX_WAIT_CK_A\<rparr> else ?p1)\<rparr>)"
    using Cons.prems(1,3) room last
    by (auto simp: process_received_byte_def ubx_parser_consume_def Let_def)
  show ?case
  proof (cases "bs = []")
    case True
    have "up_payload_index ?p + 1 = up_payload_length ?p"
      using Cons.prems(4) nx True by (simp add: word_unat_eq_iff)
    then show ?thesis using step True by (simp add: payload_done_def ubx_checksum_add_def Let_def)
  next
    case False
    have "process_bytes nows (Suc i) bs (s\<lparr>gn_parser := ?p1\<rparr>) =
        Some (s\<lparr>gn_parser := ?p1\<rparr>\<lparr>gn_parser := payload_done (gn_parser (s\<lparr>gn_parser := ?p1\<rparr>)) bs\<rparr>)"
      using Cons.prems False nx room by (intro Cons.IH) auto
    moreover have "payload_done ?p1 bs = payload_done ?p (b # bs)"
      using room nx by (simp add: payload_done_def ubx_checksum_add_def Let_def poke_Cons)
    ultimately show ?thesis using step False by simp
  qed
qed simp

lemma length_ubx_header [simp, length_simps]: "length (ubx_header c m n) = 6"
  by (simp add: ubx_header_def)

text \<open>The parser between the header and the checksum.\<close>

definition framed :: "u8 \<Rightarrow> u8 \<Rightarrow> bytes \<Rightarrow> ubx_parser" where
  "framed c i d =
    (let (a, b) = fletcher (fletcher (0, 0) (drop 2 (ubx_header c i (of_nat (length d))))) d in
     \<lparr> up_state = UBX_WAIT_CK_A, up_message_class = c, up_message_id = i, up_payload_length = of_nat (length d),
       up_payload_index = of_nat (length d), up_ck_a = a, up_ck_b = b, up_received_ck_a = 0, up_received_ck_b = 0,
       up_payload = poke (replicate UBX_MON_VER_MAX_PAYLOAD_LENGTH 0) 0 d \<rparr>)"

lemma length_octets: "n \<le> 512 \<Longrightarrow> ucast (ucast (of_nat n :: u16) :: u8) OR push_bit 8 (ucast (ucast (drop_bit 8 (of_nat n :: u16)) :: u8)) = (of_nat n :: u16)"
  by (rule bit_word_eqI) (auto simp: bit_simps)

lemma header_and_payload:
  assumes "gn_parser s = ubx_parser_reset" "length d \<le> UBX_MON_VER_MAX_PAYLOAD_LENGTH"
  shows "process_bytes nows i (ubx_header c m (of_nat (length d)) @ d) s =
    Some (s\<lparr>gn_parser := framed c m d, gn_nmea_line := []\<rparr>)"
proof -
  let ?n = "of_nat (length d) :: u16"
  have n: "unat ?n = length d" using assms(2) by (simp add: UBX_MON_VER_MAX_PAYLOAD_LENGTH_def unsigned_of_nat take_bit_nat_eq_self)
  have small: "\<not> ?n > of_nat UBX_MON_VER_MAX_PAYLOAD_LENGTH" using assms(2) n by (simp add: not_less payload_bound)
  let ?p = "framed c m d\<lparr>up_state := (if ?n = 0 then UBX_WAIT_CK_A else UBX_WAIT_PAYLOAD), up_payload_index := 0,
    up_ck_a := fst (fletcher (0, 0) (drop 2 (ubx_header c m ?n))), up_ck_b := snd (fletcher (0, 0) (drop 2 (ubx_header c m ?n))),
    up_payload := replicate UBX_MON_VER_MAX_PAYLOAD_LENGTH 0\<rparr>"
  have h: "process_bytes nows i (ubx_header c m ?n) s = Some (s\<lparr>gn_parser := ?p, gn_nmea_line := []\<rparr>)"
    using assms small length_octets [of "length d"]
    by (simp add: ubx_header_def process_received_byte_def ubx_parser_consume_def ubx_parser_reset_def
        ubx_checksum_add_def framed_def Let_def UBX_SYNC_1_def UBX_SYNC_2_def case_prod_beta
        UBX_MON_VER_MAX_PAYLOAD_LENGTH_def)
  show ?thesis
  proof (cases "d = []")
    case True
    have "?p = framed c m d" using True by (simp add: framed_def poke_def case_prod_beta)
    then show ?thesis using h True by simp
  next
    case False
    have ne: "?n \<noteq> 0" using False n by auto
    have "process_bytes nows (i + 6) d (s\<lparr>gn_parser := ?p, gn_nmea_line := []\<rparr>) =
        Some (s\<lparr>gn_parser := ?p, gn_nmea_line := []\<rparr>\<lparr>gn_parser := payload_done ?p d\<rparr>)"
      using ne n False assms(2) by (subst payload_octets) (simp_all add: framed_def case_prod_beta)
    moreover have "payload_done ?p d = framed c m d"
      by (simp add: payload_done_def framed_def case_prod_beta)
    ultimately have "process_bytes nows (i + 6) d (s\<lparr>gn_parser := ?p, gn_nmea_line := []\<rparr>) =
        Some (s\<lparr>gn_parser := framed c m d, gn_nmea_line := []\<rparr>)"
      by (simp only: gnss_sys.update_convs) simp
    then show ?thesis by (simp only: process_bytes_append h Option.bind.simps length_ubx_header)
  qed
qed

lemma framed_checksum:
  "ubx_checksum (ubx_header c m (of_nat (length d))) d = [up_ck_a (framed c m d), up_ck_b (framed c m d)]"
  by (simp add: ubx_checksum_def framed_def case_prod_beta)

lemma framed_payload:
  assumes "length d \<le> UBX_MON_VER_MAX_PAYLOAD_LENGTH"
  shows "rd_slice (up_payload (framed c m d)) 0 (unat (up_payload_length (framed c m d))) = Some d"
proof -
  have "unat (of_nat (length d) :: u16) = length d"
    using assms by (simp add: UBX_MON_VER_MAX_PAYLOAD_LENGTH_def unsigned_of_nat take_bit_nat_eq_self)
  then show ?thesis using assms by (simp add: framed_def case_prod_beta)
qed

lemma framed_fields [simp]:
  "up_state (framed c m d) = UBX_WAIT_CK_A" "up_message_class (framed c m d) = c" "up_message_id (framed c m d) = m"
  by (simp_all add: framed_def case_prod_beta)

lemma checksum_octets:
  assumes "gn_parser s = framed c m d" "length d \<le> UBX_MON_VER_MAX_PAYLOAD_LENGTH" "gn_nmea_line s = []"
  shows "process_bytes nows i [a, b] s =
    Some (if [a, b] = ubx_checksum (ubx_header c m (of_nat (length d))) d
          then (dispatch_ubx_frame (nows (Suc i)) c m d s)\<lparr>gn_parser := ubx_parser_reset\<rparr>
          else (s\<lparr>gn_status := (gn_status s)\<lparr>gs_ubx_frames_invalid_checksum := gs_ubx_frames_invalid_checksum (gn_status s) + 1\<rparr>,
                 gn_parser := ubx_parser_reset\<rparr>))"
  using assms(1,3) framed_payload [OF assms(2)]
  by (simp add: process_received_byte_def ubx_parser_consume_def framed_checksum gnss_simps Let_def)

lemma noise_octets:
  assumes "gn_parser s = ubx_parser_reset" "gn_nmea_line s = []" "UBX_SYNC_1 \<notin> set bs" "0x24 \<notin> set bs"
  shows "process_bytes nows i bs s = Some s"
  using assms
  by (induction bs arbitrary: i) (auto simp: process_received_byte_def ubx_parser_reset_def)

lemma line_octets:
  assumes "gn_parser s = ubx_parser_reset" "gn_nmea_line s \<noteq> []" "UBX_SYNC_1 \<notin> set bs" "0x24 \<notin> set bs"
    and "0x0D \<notin> set bs" "0x0A \<notin> set bs" "length (gn_nmea_line s) + length bs < GNSS_LINE_MAX_LENGTH"
  shows "process_bytes nows i bs s = Some (s\<lparr>gn_nmea_line := gn_nmea_line s @ bs\<rparr>)"
  using assms
proof (induction bs arbitrary: i s)
  case (Cons b bs)
  have "process_received_byte (nows i) b s = Some (s\<lparr>gn_nmea_line := gn_nmea_line s @ [b]\<rparr>)"
    using Cons.prems by (auto simp: process_received_byte_def ubx_parser_reset_def)
  moreover have "process_bytes nows (Suc i) bs (s\<lparr>gn_nmea_line := gn_nmea_line s @ [b]\<rparr>) =
      Some (s\<lparr>gn_nmea_line := gn_nmea_line s @ [b]\<rparr>\<lparr>gn_nmea_line := gn_nmea_line (s\<lparr>gn_nmea_line := gn_nmea_line s @ [b]\<rparr>) @ bs\<rparr>)"
    using Cons.prems by (intro Cons.IH) auto
  ultimately show ?case by simp
qed simp

lemma process_nmea_line_indep [gnss_simps]:
  "process_nmea_line t l (s\<lparr>gn_nmea_line := x\<rparr>) = (process_nmea_line t l s)\<lparr>gn_nmea_line := x\<rparr>"
  by (simp add: process_nmea_line_def Let_def split: option.split)

definition gnss_idle :: "gnss_sys \<Rightarrow> bool" where
  "gnss_idle s \<longleftrightarrow> gn_parser s = ubx_parser_reset \<and> gn_nmea_line s = []"

lemma ubx_octets_split: "ubx_octets c m d = (ubx_header c m (of_nat (length d)) @ d) @ ubx_checksum (ubx_header c m (of_nat (length d))) d"
  by (simp add: ubx_octets_def ubx_write_frame_def Let_def ubx_header_def ubx_checksum_def case_prod_beta)

lemma length_ubx_checksum [simp, length_simps]: "length (ubx_checksum h d) = 2"
  by (simp add: ubx_checksum_def case_prod_beta)

lemma idle_id: "gnss_idle s \<Longrightarrow> s\<lparr>gn_nmea_line := [], gn_parser := ubx_parser_reset\<rparr> = s"
  by (simp add: gnss_idle_def)

lemma idle_kept [simp]:
  "gnss_idle (dispatch_ubx_frame t c m d s) \<longleftrightarrow> gnss_idle s" "gnss_idle (process_nmea_line t l s) \<longleftrightarrow> gnss_idle s"
  "gnss_idle (s\<lparr>gn_status := x\<rparr>) \<longleftrightarrow> gnss_idle s"
  by (simp_all add: gnss_idle_def gnss_simps)

lemma damaged_octets:
  assumes "gnss_idle s" "length d \<le> UBX_MON_VER_MAX_PAYLOAD_LENGTH"
  shows "process_bytes nows i ((ubx_header c m (of_nat (length d)) @ d) @ [a, b]) s =
    Some (if [a, b] = ubx_checksum (ubx_header c m (of_nat (length d))) d
          then dispatch_ubx_frame (nows (i + length d + 7)) c m d s
          else s\<lparr>gn_status := (gn_status s)\<lparr>gs_ubx_frames_invalid_checksum := gs_ubx_frames_invalid_checksum (gn_status s) + 1\<rparr>\<rparr>)"
proof -
  have h: "process_bytes nows i (ubx_header c m (of_nat (length d)) @ d) s = Some (s\<lparr>gn_parser := framed c m d, gn_nmea_line := []\<rparr>)"
    using assms by (intro header_and_payload) (auto simp: gnss_idle_def)
  have same: "(dispatch_ubx_frame t c m d s)\<lparr>gn_nmea_line := [], gn_parser := ubx_parser_reset\<rparr> = dispatch_ubx_frame t c m d s"
    "s\<lparr>gn_nmea_line := [], gn_status := x, gn_parser := ubx_parser_reset\<rparr> = s\<lparr>gn_status := x\<rparr>" for t x
    using assms(1) idle_id [of "dispatch_ubx_frame t c m d s"] by (simp, simp add: gnss_idle_def)
  with assms(2) h show ?thesis
    by (simp add: process_bytes_append [of nows i "ubx_header c m (of_nat (length d)) @ d"] checksum_octets gnss_simps add_ac
        del: process_bytes.simps append_assoc)
qed

lemma item_processed:
  assumes "gnss_idle s" "item_ok x"
  shows "process_bytes nows i (item_octets x) s = Some (item_effect (nows (i + length (item_octets x) - 1)) x s)"
proof (cases x)
  case (Ubx_Frame c m d)
  then show ?thesis
    using assms framed_checksum [of c m d] damaged_octets [OF assms(1), of d nows i c m "up_ck_a (framed c m d)" "up_ck_b (framed c m d)"]
    by (simp add: ubx_octets_split add_ac)
next
  case (Ubx_Damaged c m d a b)
  then show ?thesis using assms damaged_octets [OF assms(1), of d nows i c m a b] by (simp add: add_ac)
next
  case (Noise bs)
  then show ?thesis using assms noise_octets [of s bs nows i] by (simp add: gnss_idle_def)
next
  case (Nmea_Line body)
  let ?s1 = "s\<lparr>gn_nmea_line := [0x24]\<rparr>"
  have start: "process_received_byte t 0x24 s = Some ?s1" for t
    using assms(1) by (simp add: process_received_byte_def gnss_idle_def ubx_parser_reset_def UBX_SYNC_1_def)
  have body: "process_bytes nows (Suc i) body ?s1 = Some (s\<lparr>gn_nmea_line := 0x24 # body\<rparr>)"
    using assms Nmea_Line line_octets [of ?s1 body nows "Suc i"] by (auto simp: gnss_idle_def GNSS_LINE_MAX_LENGTH_def)
  have idle: "up_state (gn_parser s) = UBX_WAIT_SYNC_1" using assms(1) by (simp add: gnss_idle_def ubx_parser_reset_def)
  have same: "(process_nmea_line t l s)\<lparr>gn_nmea_line := []\<rparr> = process_nmea_line t l s" for t l
    using assms(1) nmea_frame [of t l s] by (simp add: gnss_idle_def)
  have tail: "process_bytes nows j [0x0D, 0x0A] (s\<lparr>gn_nmea_line := 0x24 # body\<rparr>) =
      Some (process_nmea_line (nows (Suc j)) (c_string (0x24 # body)) s)" for j
    using idle same by (simp add: process_received_byte_def UBX_SYNC_1_def gnss_simps)
  have "process_bytes nows (Suc i) (body @ [0x0D, 0x0A]) ?s1 =
      Some (process_nmea_line (nows (Suc i + length body + 1)) (c_string (0x24 # body)) s)"
    by (simp only: process_bytes_append body Option.bind.simps tail) simp
  with Nmea_Line start show ?thesis by (simp del: process_bytes.simps(2)) (simp add: start)
qed

lemma item_effect_idle [simp]: "gnss_idle (item_effect t x s) \<longleftrightarrow> gnss_idle s"
  by (cases x) simp_all

lemma stream_processed:
  "gnss_idle s \<Longrightarrow> \<forall>x \<in> set items. item_ok x \<Longrightarrow>
   process_bytes nows i (concat (map item_octets items)) s = Some (items_effect nows i items s)"
  by (induction items arbitrary: i s) (simp_all add: process_bytes_append item_processed)

end
