(* ===== verification/Gnss_Time.thy ===== *)
theory Gnss_Time
  imports Gnss_Service_Theory
begin

text \<open>
  What the receiver's messages mean: the date conversion agrees with a calendar counted year by year
  and month by month, what is published as valid is recent, and the start-up exchange ends.
\<close>

subsection \<open>The calendar\<close>

definition leap_year :: "int \<Rightarrow> bool" where
  "leap_year y \<longleftrightarrow> 4 dvd y \<and> (\<not> 100 dvd y \<or> 400 dvd y)"

definition year_days :: "int \<Rightarrow> int" where
  "year_days y = (if leap_year y then 366 else 365)"

definition month_days :: "int \<Rightarrow> int \<Rightarrow> int" where
  "month_days y m = (if m = 2 then (if leap_year y then 29 else 28) else if m \<in> {4, 6, 9, 11} then 30 else 31)"

definition days_since_1970 :: "int \<Rightarrow> int \<Rightarrow> int \<Rightarrow> int" where
  "days_since_1970 y m d = sum_list (map year_days [1970..y - 1]) + sum_list (map (month_days y) [1..m - 1]) + (d - 1)"

text \<open>The days of the years before \<open>y\<close>, from the year 1.\<close>

definition days_before :: "int \<Rightarrow> int" where
  "days_before y = 365 * (y - 1) + (y - 1) div 4 - (y - 1) div 100 + (y - 1) div 400"

lemma div_step: "y div n = (y - 1) div n + (if n dvd y then 1 else 0)" if "0 < n" for y n :: int
proof (cases "n dvd y")
  case True
  then obtain k where k: "y = n * k" by blast
  have "(n * k - 1) div n = (n * (k - 1) + (n - 1)) div n" by (simp add: algebra_simps)
  also have "\<dots> = k - 1" using that by simp
  finally show ?thesis using True k that by simp
next
  case False
  have r: "0 < y mod n" "y mod n < n" using that False pos_mod_sign [of n y] pos_mod_bound [of n y] by (simp_all add: dvd_eq_mod_eq_0 order_less_le)
  have "y - 1 = n * (y div n) + (y mod n - 1)" by simp
  then have "(y - 1) div n = (n * (y div n) + (y mod n - 1)) div n" by (rule arg_cong)
  also have "\<dots> = y div n" using r by simp
  finally show ?thesis using False by simp
qed

lemma days_before_step: "days_before (y + 1) = days_before y + year_days y"
proof -
  have d: "y div 4 = (y - 1) div 4 + (if 4 dvd y then 1 else 0)" "y div 100 = (y - 1) div 100 + (if 100 dvd y then 1 else 0)"
      "y div 400 = (y - 1) div 400 + (if 400 dvd y then 1 else 0)"
    by (rule div_step, simp)+
  have "400 dvd y \<Longrightarrow> 100 dvd y" "100 dvd y \<Longrightarrow> 4 dvd y"
    by (auto intro: dvd_trans [of 100 400] dvd_trans [of 4 100])
  then show ?thesis
    unfolding days_before_def year_days_def leap_year_def add_diff_cancel_right' d
    by (cases "4 dvd y"; cases "100 dvd y"; cases "400 dvd y") (simp_all only: simp_thms if_True if_False, simp_all)
qed

lemma years_sum: "1970 \<le> y \<Longrightarrow> sum_list (map year_days [1970..y - 1]) = days_before y - days_before 1970"
proof (induction y rule: int_ge_induct)
  case (step y)
  have "[1970..y + 1 - 1] = [1970..y - 1] @ [y]" using step(1) by (simp add: upto_rec2)
  then show ?case using step(2) days_before_step [of y] by simp
qed simp

lemma month_interval: "1 \<le> m \<Longrightarrow> m \<le> 12 \<Longrightarrow> m \<in> {1, 2, 3, 4, 5, 6, 7, 8, 9, 10, 11, 12}" for m :: int
  by (simp only: insert_iff empty_iff) arith

lemma civil_sum:
  "z4 = a - 100 * e \<Longrightarrow> z100 = b - 4 * e \<Longrightarrow>
   e * 146097 + ((y - e * 400) * 365 + z4 - z100 + doy) - 719468 = 365 * y + a - b + e + doy - 719468"
  for y z4 z100 a b e doy :: int
  by simp

lemma civil_core:
  fixes y doy :: int
  defines "e \<equiv> y div 400"
  shows "e * 146097 + ((y - e * 400) * 365 + (y - e * 400) div 4 - (y - e * 400) div 100 + doy) - 719468 =
    365 * y + y div 4 - y div 100 + e + doy - 719468"
proof (rule civil_sum)
  have "y - e * 400 = y + 4 * (- 100 * e)" "y - e * 400 = y + 100 * (- 4 * e)" by simp_all
  then have "(y - e * 400) div 4 = y div 4 + (- 100 * e)" "(y - e * 400) div 100 = y div 100 + (- 4 * e)"
    by (simp_all only: div_mult_self2 zero_neq_numeral not_False_eq_True)
  then show "(y - e * 400) div 4 = y div 4 - 100 * e" "(y - e * 400) div 100 = y div 100 - 4 * e" by simp_all
qed

lemma civil_closed:
  assumes "1970 \<le> y"
  shows "days_from_civil y m d =
    (if m \<le> 2 then days_before y + (153 * (m + 9) + 2) div 5 else days_before (y + 1) + (153 * (m - 3) + 2) div 5) + d - 1 - 719468"
proof (cases "m \<le> 2")
  case True
  have e: "0 \<le> y - 1" using assms by simp
  show ?thesis
    unfolding days_from_civil_def Let_def if_P [OF True] if_P [OF e]
    using True civil_core [of "y - 1" "(153 * (m + 9) + 2) div 5 + d - 1"]
    by (simp only: days_before_def not_less [symmetric] if_False not_True_eq_False simp_thms)
next
  case False
  have e: "0 \<le> y - 0" using assms by simp
  have m: "m > 2" using False by simp
  show ?thesis
    unfolding days_from_civil_def Let_def if_not_P [OF False] if_P [OF m] if_P [OF e] days_before_def
    using civil_core [of "y - 0" "(153 * (m - 3) + 2) div 5 + d - 1"]
    by (simp only: add_diff_cancel_right' diff_zero)
qed

lemma days_from_civil_correct:
  assumes "1970 \<le> y" "1 \<le> m" "m \<le> 12"
  shows "days_from_civil y m d = days_since_1970 y m d"
proof -
  have b: "days_before 1970 = 719162" by (simp add: days_before_def)
  show ?thesis
    using month_interval [OF assms(2,3)] civil_closed [OF assms(1), of m d] years_sum [OF assms(1)] days_before_step [of y] b
    by (elim insertE emptyE) (simp_all add: days_since_1970_def month_days_def year_days_def upto.simps)
qed

text \<open>The bounds on the fields do not know the lengths of the months.\<close>

lemma no_such_day: "datetime_to_epoch 2023 2 30 0 0 0 = datetime_to_epoch 2023 3 2 0 0 0"
  by code_simp

text \<open>A line of the fallback sets UTC valid again, without a fix, once NAV-PVT has been missing for five seconds.\<close>

lemma zda_takes_over:
  assumes "nmea_checksum_valid line" "parse_zda_epoch line = Some epoch" "5000000 < now - gn_last_pvt_rx_us s"
  shows "gs_utc_valid (gn_status (process_nmea_line now line s))"
  using assms by (simp add: process_nmea_line_def Let_def APP_GNSS_TIMEOUT_SECONDS_def)

subsection \<open>What every byte keeps\<close>

text \<open>
  A predicate that each byte handled at an admissible timer reading keeps, and that does not depend
  on the bookkeeping of the commands, holds through the whole life of the service.
\<close>

fun gnss_rounds :: "(bytes \<times> (nat \<Rightarrow> int) \<times> int) list \<Rightarrow> gnss_sys \<Rightarrow> gnss_sys option" where
  "gnss_rounds [] s = Some s"
| "gnss_rounds ((received, nows, now) # rs) s = Option.bind (gnss_task received nows now s) (gnss_rounds rs)"

locale gnss_invariant =
  fixes I :: "gnss_sys \<Rightarrow> bool" and T :: "int \<Rightarrow> bool"
  assumes byte: "I s \<Longrightarrow> T now \<Longrightarrow> process_received_byte now b s = Some s' \<Longrightarrow> I s'"
    and ack_waiting: "I (s\<lparr>gn_ack_waiting := w\<rparr>) = I s"
    and ack_class: "I (s\<lparr>gn_ack_expected_class := c\<rparr>) = I s"
    and ack_id: "I (s\<lparr>gn_ack_expected_id := i\<rparr>) = I s"
    and ack_result: "I (s\<lparr>gn_ack_result := r\<rparr>) = I s"
    and failures: "I (s\<lparr>gn_status := (gn_status s)\<lparr>gs_ubx_configuration_failures := n\<rparr>\<rparr>) = I s"
    and attempted: "I (s\<lparr>gn_status := (gn_status s)\<lparr>gs_ubx_configuration_attempted := w\<rparr>\<rparr>) = I s"
    and complete: "I (s\<lparr>gn_status := (gn_status s)\<lparr>gs_ubx_configuration_complete := w\<rparr>\<rparr>) = I s"
    and tp_attempted: "I (s\<lparr>gn_status := (gn_status s)\<lparr>gs_ubx_timepulse_configuration_attempted := w\<rparr>\<rparr>) = I s"
    and tp_complete: "I (s\<lparr>gn_status := (gn_status s)\<lparr>gs_ubx_timepulse_configuration_complete := w\<rparr>\<rparr>) = I s"
    and received: "I (s\<lparr>gn_status := (gn_status s)\<lparr>gs_uart_bytes_received := n\<rparr>\<rparr>) = I s"
    and staleness: "I s \<Longrightarrow> I (gnss_update_staleness now s)"
begin

definition round_ok :: "wait_round \<Rightarrow> bool" where
  "round_ok r \<longleftrightarrow> (\<forall>i. T (wr_nows r i))"

lemma bytes_keep: "I s \<Longrightarrow> \<forall>j. T (nows j) \<Longrightarrow> process_bytes nows i bs s = Some s' \<Longrightarrow> I s'"
proof (induction bs arbitrary: i s)
  case (Cons b bs)
  then obtain s1 where "process_received_byte (nows i) b s = Some s1" "process_bytes nows (Suc i) bs s1 = Some s'"
    by (auto simp: bind_eq_Some_conv)
  then show ?case using byte [OF Cons.prems(1)] Cons.IH Cons.prems(2) by blast
qed simp

lemma wait_ack_keeps:
  assumes "wait_ack rounds d i s = Some s'" "I s" "\<forall>n. round_ok (rounds n)"
  shows "I s'"
proof -
  have "I s \<longrightarrow> (\<forall>n. round_ok (rounds n)) \<longrightarrow> I s'"
    by (rule wait_ack.raw_induct [where P = "\<lambda>rounds d i s s'. I s \<longrightarrow> (\<forall>n. round_ok (rounds n)) \<longrightarrow> I s'", OF _ assms(1)])
       (auto simp: bind_eq_Some_conv round_ok_def split: if_splits dest!: bytes_keep [rotated 2])
  then show ?thesis using assms by blast
qed

lemma poll_keeps:
  assumes "poll_loop rounds d i s = Some s'" "I s" "\<forall>n. round_ok (rounds n)"
  shows "I s'"
proof -
  have "I s \<longrightarrow> (\<forall>n. round_ok (rounds n)) \<longrightarrow> I s'"
    by (rule poll_loop.raw_induct [where P = "\<lambda>rounds d i s s'. I s \<longrightarrow> (\<forall>n. round_ok (rounds n)) \<longrightarrow> I s'", OF _ assms(1)])
       (auto simp: bind_eq_Some_conv round_ok_def split: if_splits dest!: bytes_keep [rotated 2])
  then show ?thesis using assms by blast
qed

definition attempt_ok :: "ack_attempt \<Rightarrow> bool" where
  "attempt_ok a \<longleftrightarrow> (\<forall>n. round_ok (at_rounds a n))"

lemma attempts_keep:
  "ubx_attempts env c i d n k r s = Some (e, s') \<Longrightarrow> I s \<Longrightarrow> \<forall>k. attempt_ok (env k) \<Longrightarrow> I s'"
proof (induction n arbitrary: k r s)
  case 0
  then show ?case by (auto simp: failures)
next
  case (Suc n)
  then show ?case
    by (auto simp: Let_def case_prod_beta bind_eq_Some_conv ack_waiting ack_class ack_id ack_result attempt_ok_def
        split: if_splits dest!: wait_ack_keeps)
qed

lemma command_keeps:
  "ubx_send_and_wait_ack env c i d s = Some (e, s') \<Longrightarrow> I s \<Longrightarrow> \<forall>k. attempt_ok (env k) \<Longrightarrow> I s'"
  unfolding ubx_send_and_wait_ack_def by (rule attempts_keep)

lemma rate_keeps:
  "ubx_configure_message_rate env c i r s = Some (e, s') \<Longrightarrow> I s \<Longrightarrow> \<forall>k. attempt_ok (env k) \<Longrightarrow> I s'"
  by (auto simp: ubx_configure_message_rate_def intro: command_keeps)

lemma configure_keeps:
  assumes "gnss_configure_receiver tp envs s = Some s'" "I s" "\<forall>c k. attempt_ok (envs c k)"
  shows "I s'"
proof -
  have r: "I y" if "ubx_configure_message_rate (envs c) a b u x = Some (e, y)" "I x" for c a b u x e y
    using rate_keeps [OF that] assms(3) by blast
  have t: "I y" if "ubx_configure_tp1 (envs c) x = Some (e, y)" "I x" for c x e y
    using command_keeps [OF that(1) [unfolded ubx_configure_tp1_def] that(2)] assms(3) by blast
  let ?s0 = "s\<lparr>gn_status := (gn_status s)\<lparr>gs_ubx_configuration_attempted := True\<rparr>\<rparr>"
  obtain e1 s1 e2 s2 e3 s3 e4 s4 where cs:
      "ubx_configure_message_rate (envs 0) UBX_CLASS_NAV UBX_ID_NAV_PVT 1 ?s0 = Some (e1, s1)"
      "ubx_configure_message_rate (envs 1) UBX_CLASS_NAV UBX_ID_NAV_TIMELS 1 s1 = Some (e2, s2)"
      "ubx_configure_message_rate (envs 2) UBX_CLASS_TIM UBX_ID_TIM_TP 1 s2 = Some (e3, s3)"
      "ubx_configure_message_rate (envs 3) UBX_CLASS_NMEA UBX_ID_NMEA_ZDA 1 s3 = Some (e4, s4)"
    using assms(1) by (auto simp: gnss_configure_receiver_def Let_def bind_eq_Some_conv)
  have "I s4" using r [OF cs(4)] r [OF cs(3)] r [OF cs(2)] r [OF cs(1)] assms(2) attempted by blast
  show ?thesis
  proof (cases tp)
    case True
    let ?s5 = "s4\<lparr>gn_status := (gn_status s4)\<lparr>gs_ubx_timepulse_configuration_attempted := True\<rparr>\<rparr>"
    obtain e5 s5 where c5: "ubx_configure_tp1 (envs 4) ?s5 = Some (e5, s5)"
      using assms(1) cs True by (auto simp: gnss_configure_receiver_def Let_def bind_eq_Some_conv)
    have "I s5" using t [OF c5] \<open>I s4\<close> tp_attempted by blast
    then show ?thesis
      using assms(1) cs c5 True tp_complete [where s = s5] complete [where s = s5] complete [where s = "s5\<lparr>gn_status := (gn_status s5)\<lparr>gs_ubx_timepulse_configuration_complete := True\<rparr>\<rparr>"]
      by (auto simp: gnss_configure_receiver_def Let_def)
  next
    case False
    then show ?thesis using assms(1) cs complete \<open>I s4\<close> by (auto simp: gnss_configure_receiver_def Let_def)
  qed
qed

lemma rounds_keep:
  "gnss_rounds rs s = Some s' \<Longrightarrow> I s \<Longrightarrow> \<forall>(bs, nows, now) \<in> set rs. \<forall>j. T (nows j) \<Longrightarrow> I s'"
proof (induction rs arbitrary: s)
  case (Cons r rs)
  obtain bs nows now where r: "r = (bs, nows, now)" by (cases r)
  obtain s1 where s1: "gnss_task bs nows now s = Some s1" "gnss_rounds rs s1 = Some s'"
    using Cons.prems(1) r by (auto simp: bind_eq_Some_conv)
  have "I s1"
    using s1(1) Cons.prems(2,3) r
    by (auto simp: gnss_task_def bind_eq_Some_conv received split: if_splits intro!: staleness dest!: bytes_keep [rotated 2])
  then show ?case using Cons.IH [OF s1(2)] Cons.prems(3) by simp
qed simp

end

interpretation buffers: gnss_invariant gnss_buffers_ok "\<lambda>_. True"
proof unfold_locales
  fix s s' :: gnss_sys and now b
  assume "gnss_buffers_ok s" "process_received_byte now b s = Some s'"
  then show "gnss_buffers_ok s'" using received_byte_ok [of s now b] by auto
qed (simp_all add: gnss_buffers_ok_def gnss_update_staleness_def Let_def)

subsection \<open>What is published\<close>

text \<open>
  What is marked valid has a reception time, and the snapshot of the device never calls the receiver
  valid when its own status does not.
\<close>

definition gnss_published_ok :: "gnss_sys \<Rightarrow> bool" where
  "gnss_published_ok s \<longleftrightarrow>
     (gs_utc_valid (gn_status s) \<longrightarrow> 0 < gn_last_utc_rx_us s) \<and>
     (gs_timing_pulse_valid (gn_status s) \<longrightarrow> 0 < gn_last_tim_tp_rx_us s) \<and>
     (as_gnss_valid (gn_app s) \<longrightarrow> gs_utc_valid (gn_status s))"

lemma published_handlers:
  assumes "gnss_published_ok s" "0 < now"
  shows "gnss_published_ok (handle_ubx_ack i d s)" "gnss_published_ok (handle_ubx_nav_pvt now d s)"
    "gnss_published_ok (handle_ubx_nav_timels d s)" "gnss_published_ok (handle_ubx_tim_tp now d s)"
    "gnss_published_ok (handle_ubx_mon_ver d s)" "gnss_published_ok (process_nmea_line now l s)"
proof -
  show "gnss_published_ok (handle_ubx_ack i d s)" using assms by (simp add: gnss_published_ok_def handle_ubx_ack_def Let_def)
  show "gnss_published_ok (handle_ubx_nav_pvt now d s)"
    using assms by (simp add: gnss_published_ok_def handle_ubx_nav_pvt_def Let_def app_state_set_gnss_valid_def split: option.split)
  show "gnss_published_ok (handle_ubx_nav_timels d s)"
    using assms by (cases "length d < UBX_NAV_TIMELS_MIN_LENGTH") (simp_all add: gnss_published_ok_def handle_ubx_nav_timels_def Let_def)
  show "gnss_published_ok (handle_ubx_tim_tp now d s)"
    using assms by (simp add: gnss_published_ok_def handle_ubx_tim_tp_def)
  show "gnss_published_ok (handle_ubx_mon_ver d s)"
    using assms by (cases "length d < UBX_MON_VER_BASE_LENGTH") (simp_all add: gnss_published_ok_def handle_ubx_mon_ver_def Let_def)
  show "gnss_published_ok (process_nmea_line now l s)"
    using assms by (simp add: gnss_published_ok_def process_nmea_line_def Let_def app_state_set_gnss_valid_def split: option.split)
qed

lemma published_parser [simp]:
  "gnss_published_ok (s\<lparr>gn_parser := p\<rparr>) = gnss_published_ok s" "gnss_published_ok (s\<lparr>gn_nmea_line := l\<rparr>) = gnss_published_ok s"
  "gnss_published_ok (s\<lparr>gn_status := (gn_status s)\<lparr>gs_invalid_messages := n\<rparr>\<rparr>) = gnss_published_ok s"
  "gnss_published_ok (s\<lparr>gn_status := (gn_status s)\<lparr>gs_ubx_frames_invalid_checksum := n\<rparr>\<rparr>) = gnss_published_ok s"
  "gnss_published_ok (s\<lparr>gn_status := (gn_status s)\<lparr>gs_ubx_frames_invalid_length := n\<rparr>\<rparr>) = gnss_published_ok s"
  "gnss_published_ok (s\<lparr>gn_nmea_line := l, gn_status := (gn_status s)\<lparr>gs_invalid_messages := n\<rparr>\<rparr>) = gnss_published_ok s"
  by (simp_all add: gnss_published_ok_def)

lemma published_counters [simp]:
  "gnss_published_ok (s\<lparr>gn_status := (gn_status s)\<lparr>gs_ubx_frames_valid := n\<rparr>\<rparr>) = gnss_published_ok s"
  "gnss_published_ok (s\<lparr>gn_status := (gn_status s)\<lparr>gs_ubx_frames_unsupported := n\<rparr>\<rparr>) = gnss_published_ok s"
  by (simp_all add: gnss_published_ok_def)

lemma published_dispatch:
  assumes "gnss_published_ok s" "0 < now"
  shows "gnss_published_ok (dispatch_ubx_frame now c i d s)"
proof -
  define s1 where "s1 = s\<lparr>gn_status := (gn_status s)\<lparr>gs_ubx_frames_valid := gs_ubx_frames_valid (gn_status s) + 1\<rparr>\<rparr>"
  have "gnss_published_ok s1" using assms(1) by (simp only: s1_def published_counters)
  note h = published_handlers [OF this assms(2)] this
  show ?thesis
    unfolding dispatch_ubx_frame_def Let_def s1_def [symmetric]
    by (simp only: if_distrib [of gnss_published_ok] h published_counters if_cancel)
qed

lemma published_consume:
  "gnss_published_ok s \<Longrightarrow> 0 < now \<Longrightarrow> ubx_parser_consume now b s = Some s' \<Longrightarrow> gnss_published_ok s'"
  by (auto simp: ubx_parser_consume_def Let_def bind_eq_Some_conv published_dispatch split: ubx_parse_state.splits if_splits)

lemma published_byte:
  assumes "gnss_published_ok s" "0 < now" "process_received_byte now b s = Some s'"
  shows "gnss_published_ok s'"
proof (cases "up_state (gn_parser s) \<noteq> UBX_WAIT_SYNC_1 \<or> b = UBX_SYNC_1")
  case True
  then have "ubx_parser_consume now b (s\<lparr>gn_nmea_line := []\<rparr>) = Some s'" using assms(3) by (simp add: process_received_byte_def)
  moreover have "gnss_published_ok (s\<lparr>gn_nmea_line := []\<rparr>)" using assms(1) by simp
  ultimately show ?thesis using published_consume assms(2) by blast
next
  case False
  then show ?thesis
    using assms published_handlers(6) by (auto simp: process_received_byte_def split: if_splits)
qed

interpretation published: gnss_invariant gnss_published_ok "\<lambda>now. 0 < now"
proof unfold_locales
  fix s s' :: gnss_sys and now b
  assume "gnss_published_ok s" "0 < now" "process_received_byte now b s = Some s'"
  then show "gnss_published_ok s'" by (rule published_byte)
next
  fix s :: gnss_sys and now
  assume "gnss_published_ok s"
  then show "gnss_published_ok (gnss_update_staleness now s)"
    by (auto simp: gnss_published_ok_def gnss_update_staleness_def Let_def app_state_set_gnss_valid_def)
qed (simp_all add: gnss_published_ok_def)

subsection \<open>The waiting loops end\<close>

definition timer_passes :: "ack_attempt \<Rightarrow> int \<Rightarrow> bool" where
  "timer_passes a d \<longleftrightarrow> (\<exists>n. at_start a + d \<le> wr_check (at_rounds a n))"

lemma wait_ack_returns:
  "gnss_buffers_ok s \<Longrightarrow> d \<le> wr_check (rounds n) \<Longrightarrow> i \<le> n \<Longrightarrow> \<exists>s'. wait_ack rounds d i s = Some s' \<and> gnss_buffers_ok s'"
proof (induction "n - i" arbitrary: i s)
  case 0
  then show ?case by (simp add: wait_ack.simps)
next
  case (Suc k)
  obtain s1 where "process_bytes (wr_nows (rounds i)) 0 (wr_received (rounds i)) s = Some s1" "gnss_buffers_ok s1"
    using process_bytes_ok [OF Suc.prems(1)] by blast
  then show ?case using Suc.hyps(1) [of "i + 1" s1] Suc.hyps(2) Suc.prems
    by (subst wait_ack.simps) (simp add: Suc_le_eq)
qed

lemma poll_returns:
  "gnss_buffers_ok s \<Longrightarrow> d \<le> wr_check (rounds n) \<Longrightarrow> i \<le> n \<Longrightarrow> \<exists>s'. poll_loop rounds d i s = Some s' \<and> gnss_buffers_ok s'"
proof (induction "n - i" arbitrary: i s)
  case 0
  then show ?case by (simp add: poll_loop.simps)
next
  case (Suc k)
  obtain s1 where "process_bytes (wr_nows (rounds i)) 0 (wr_received (rounds i)) s = Some s1" "gnss_buffers_ok s1"
    using process_bytes_ok [OF Suc.prems(1)] by blast
  then show ?case using Suc.hyps(1) [of "i + 1" s1] Suc.hyps(2) Suc.prems
    by (subst poll_loop.simps) (simp add: Suc_le_eq)
qed

lemma attempts_return:
  "gnss_buffers_ok s \<Longrightarrow> \<forall>k. timer_passes (env k) (APP_GNSS_UBX_ACK_TIMEOUT_MS * 1000) \<Longrightarrow>
   \<exists>e s'. ubx_attempts env c i d n k r s = Some (e, s') \<and> gnss_buffers_ok s'"
proof (induction n arbitrary: k r s)
  case 0
  then show ?case by (simp add: buffers.failures)
next
  case (Suc n)
  let ?s1 = "s\<lparr>gn_ack_waiting := True, gn_ack_expected_class := c, gn_ack_expected_id := i, gn_ack_result := ESP_ERR_TIMEOUT\<rparr>"
  have s1: "gnss_buffers_ok ?s1" "gnss_buffers_ok (?s1\<lparr>gn_ack_waiting := False\<rparr>)"
    using Suc.prems(1) by (simp_all add: gnss_buffers_ok_def)
  obtain m where "at_start (env k) + APP_GNSS_UBX_ACK_TIMEOUT_MS * 1000 \<le> wr_check (at_rounds (env k) m)"
    using Suc.prems(2) unfolding timer_passes_def by blast
  then obtain s2 where s2: "wait_ack (at_rounds (env k)) (at_start (env k) + APP_GNSS_UBX_ACK_TIMEOUT_MS * 1000) 0 ?s1 = Some s2"
      "gnss_buffers_ok s2"
    using wait_ack_returns [OF s1(1)] by blast
  have s2': "gnss_buffers_ok (s2\<lparr>gn_ack_waiting := False\<rparr>)" using s2(2) by (simp add: buffers.ack_waiting)
  show ?case
    using Suc.IH [OF s1(2) Suc.prems(2)] Suc.IH [OF s2' Suc.prems(2)] s2
    by (simp add: Let_def case_prod_beta)
qed

lemma rate_returns:
  "gnss_buffers_ok s \<Longrightarrow> \<forall>k. timer_passes (env k) (APP_GNSS_UBX_ACK_TIMEOUT_MS * 1000) \<Longrightarrow>
   \<exists>e s'. ubx_configure_message_rate env c i r s = Some (e, s') \<and> gnss_buffers_ok s'"
  unfolding ubx_configure_message_rate_def ubx_send_and_wait_ack_def by (rule attempts_return)

lemma tp1_returns:
  "gnss_buffers_ok s \<Longrightarrow> \<forall>k. timer_passes (env k) (APP_GNSS_UBX_ACK_TIMEOUT_MS * 1000) \<Longrightarrow>
   \<exists>e s'. ubx_configure_tp1 env s = Some (e, s') \<and> gnss_buffers_ok s'"
  unfolding ubx_configure_tp1_def ubx_send_and_wait_ack_def by (rule attempts_return)

lemma configure_returns:
  assumes "gnss_buffers_ok s" "\<forall>c k. timer_passes (envs c k) (APP_GNSS_UBX_ACK_TIMEOUT_MS * 1000)"
  shows "\<exists>s'. gnss_configure_receiver tp envs s = Some s' \<and> gnss_buffers_ok s'"
proof -
  have e: "\<forall>k. timer_passes (envs c k) (APP_GNSS_UBX_ACK_TIMEOUT_MS * 1000)" for c using assms(2) by blast
  have "gnss_buffers_ok (s\<lparr>gn_status := (gn_status s)\<lparr>gs_ubx_configuration_attempted := True\<rparr>\<rparr>)"
    using assms(1) by (simp only: buffers.attempted)
  note c1 = rate_returns [OF this e [of 0], of UBX_CLASS_NAV UBX_ID_NAV_PVT 1]
  obtain e1 s1 where s1: "ubx_configure_message_rate (envs 0) UBX_CLASS_NAV UBX_ID_NAV_PVT 1
      (s\<lparr>gn_status := (gn_status s)\<lparr>gs_ubx_configuration_attempted := True\<rparr>\<rparr>) = Some (e1, s1)" "gnss_buffers_ok s1"
    using c1 by blast
  obtain e2 s2 where s2: "ubx_configure_message_rate (envs 1) UBX_CLASS_NAV UBX_ID_NAV_TIMELS 1 s1 = Some (e2, s2)" "gnss_buffers_ok s2"
    using rate_returns [OF s1(2) e] by blast
  obtain e3 s3 where s3: "ubx_configure_message_rate (envs 2) UBX_CLASS_TIM UBX_ID_TIM_TP 1 s2 = Some (e3, s3)" "gnss_buffers_ok s3"
    using rate_returns [OF s2(2) e] by blast
  obtain e4 s4 where s4: "ubx_configure_message_rate (envs 3) UBX_CLASS_NMEA UBX_ID_NMEA_ZDA 1 s3 = Some (e4, s4)" "gnss_buffers_ok s4"
    using rate_returns [OF s3(2) e] by blast
  have "gnss_buffers_ok (s4\<lparr>gn_status := (gn_status s4)\<lparr>gs_ubx_timepulse_configuration_attempted := True\<rparr>\<rparr>)"
    using s4(2) by (simp only: buffers.tp_attempted)
  then obtain e5 s5 where s5: "ubx_configure_tp1 (envs 4)
      (s4\<lparr>gn_status := (gn_status s4)\<lparr>gs_ubx_timepulse_configuration_attempted := True\<rparr>\<rparr>) = Some (e5, s5)" "gnss_buffers_ok s5"
    using tp1_returns [OF _ e] by blast
  show ?thesis
    using s1 s2 s3 s4 s5 by (simp add: gnss_configure_receiver_def Let_def gnss_buffers_ok_def)
qed

lemma init_returns:
  assumes "\<not> gs_initialized (gn_status s)"
    and "\<forall>c k. timer_passes (envs c k) (APP_GNSS_UBX_ACK_TIMEOUT_MS * 1000)" "timer_passes poll 750000"
    and "u = \<lparr>gu_driver_install = ESP_OK, gu_param_config = ESP_OK, gu_set_pin = ESP_OK, gu_task_created = True\<rparr>"
  shows "\<exists>s'. gnss_service_init on_boot tp u envs poll s = Some (ESP_OK, s') \<and> gnss_buffers_ok s'"
proof -
  let ?s0 = "s\<lparr> gn_parser := ubx_parser_reset,
             gn_status := gnss_zero_status\<lparr>gs_initialized := True, gs_leap_indicator := APP_LEAP_UNKNOWN\<rparr>,
             gn_nmea_line := [], gn_last_utc_rx_us := 0, gn_last_pvt_rx_us := 0, gn_last_tim_tp_rx_us := 0,
             gn_ack_waiting := False, gn_ack_expected_class := 0, gn_ack_expected_id := 0, gn_ack_result := ESP_ERR_TIMEOUT\<rparr>"
  have "gnss_buffers_ok ?s0" by (simp add: GNSS_LINE_MAX_LENGTH_def)
  then obtain s1 where s1: "(if on_boot then gnss_configure_receiver tp envs ?s0 else Some ?s0) = Some s1" "gnss_buffers_ok s1"
    using configure_returns [OF _ assms(2), of ?s0 tp] by (cases on_boot) auto
  obtain n where "at_start poll + 750000 \<le> wr_check (at_rounds poll n)" using assms(3) unfolding timer_passes_def by blast
  then obtain s2 where "ubx_poll_mon_ver poll s1 = Some s2" "gnss_buffers_ok s2"
    using poll_returns [OF s1(2), of _ _ n 0] s1(2) unfolding ubx_poll_mon_ver_def by (metis zero_le)
  with s1 assms(1,4) show ?thesis by (simp add: gnss_service_init_def Let_def)
qed

lemma rounds_return: "gnss_buffers_ok s \<Longrightarrow> \<exists>s'. gnss_rounds rs s = Some s' \<and> gnss_buffers_ok s'"
proof (induction rs arbitrary: s)
  case (Cons r rs)
  obtain bs nows now where r: "r = (bs, nows, now)" by (cases r)
  have "\<exists>s1. gnss_task bs nows now s = Some s1 \<and> gnss_buffers_ok s1"
    using process_bytes_ok [of "s\<lparr>gn_status := (gn_status s)\<lparr>gs_uart_bytes_received := gs_uart_bytes_received (gn_status s) + of_nat (length bs)\<rparr>\<rparr>" nows 0 bs]
      buffers.staleness Cons.prems by (auto simp: gnss_task_def buffers.received)
  then show ?case using Cons.IH r by auto
qed simp

lemma rounds_append:
  "gnss_rounds (xs @ ys) s = Option.bind (gnss_rounds xs s) (gnss_rounds ys)"
  by (induction xs arbitrary: s) (auto simp: Option.bind_assoc fun_eq_iff intro!: arg_cong2 [where f = Option.bind])

lemma init_published:
  assumes "gnss_service_init on_boot tp u envs poll s = Some (ESP_OK, s0)" "\<not> gs_initialized (gn_status s)"
    and "\<not> as_gnss_valid (gn_app s)" "\<forall>c k. published.attempt_ok (envs c k)" "published.attempt_ok poll"
  shows "gnss_published_ok s0"
proof -
  let ?z = "s\<lparr> gn_parser := ubx_parser_reset,
             gn_status := gnss_zero_status\<lparr>gs_initialized := True, gs_leap_indicator := APP_LEAP_UNKNOWN\<rparr>,
             gn_nmea_line := [], gn_last_utc_rx_us := 0, gn_last_pvt_rx_us := 0, gn_last_tim_tp_rx_us := 0,
             gn_ack_waiting := False, gn_ack_expected_class := 0, gn_ack_expected_id := 0, gn_ack_result := ESP_ERR_TIMEOUT\<rparr>"
  have z: "gnss_published_ok ?z" using assms(3) by (simp add: gnss_published_ok_def gnss_zero_status_def)
  obtain s1 where s1: "(if on_boot then gnss_configure_receiver tp envs ?z else Some ?z) = Some s1" "ubx_poll_mon_ver poll s1 = Some s0"
    using assms(1,2) by (auto simp: gnss_service_init_def Let_def bind_eq_Some_conv split: if_split_asm)
  have "gnss_published_ok s1"
    using s1(1) z published.configure_keeps [OF _ z assms(4)] by (cases on_boot) auto
  then show ?thesis
    using s1(2) assms(5) published.poll_keeps [of "at_rounds poll" _ 0 s1 s0]
    by (auto simp: ubx_poll_mon_ver_def published.attempt_ok_def split: if_splits)
qed

definition gnss_fresh :: "int \<Rightarrow> gnss_sys \<Rightarrow> bool" where
  "gnss_fresh now s \<longleftrightarrow>
     (as_gnss_valid (gn_app s) \<longrightarrow> gs_utc_valid (gn_status s)) \<and>
     (gs_utc_valid (gn_status s) \<longrightarrow> 0 < gn_last_utc_rx_us s \<and> now - gn_last_utc_rx_us s \<le> 5000000) \<and>
     (gs_timing_pulse_valid (gn_status s) \<longrightarrow> 0 < gn_last_tim_tp_rx_us s \<and> now - gn_last_tim_tp_rx_us s \<le> 5000000)"

lemma staleness_fresh: "gnss_published_ok s \<Longrightarrow> gnss_fresh now (gnss_update_staleness now s)"
  by (auto simp: gnss_fresh_def gnss_published_ok_def gnss_update_staleness_def Let_def app_state_set_gnss_valid_def
      APP_GNSS_TIMEOUT_SECONDS_def)

lemma task_fresh:
  assumes "gnss_published_ok s" "gnss_task bs nows now s = Some s'" "\<forall>j. 0 < nows j"
  shows "gnss_fresh now s'"
  using assms
  by (auto simp: gnss_task_def bind_eq_Some_conv published.received split: if_splits
      intro!: staleness_fresh dest!: published.bytes_keep [rotated 2])

subsection \<open>The properties\<close>

text \<open>
  C23: a stream of UBX frames, frames damaged on the line, NMEA lines and noise, received byte by byte
  from an idle parser, has exactly the effects of its items in order: every well-formed message is
  handed to its handler with its own payload, every damaged frame is counted and dropped, and the
  parser is back in step after each.
\<close>
theorem gnss_stream:
  assumes "gnss_idle s" "\<forall>x \<in> set items. item_ok x"
  shows "process_bytes nows i (concat (map item_octets items)) s = Some (items_effect nows i items s)"
  using assms by (rule stream_processed)

definition gnss_power_on :: gnss_sys where
  "gnss_power_on =
    \<lparr> gn_status = gnss_zero_status, gn_parser = ubx_parser_reset, gn_nmea_line = [], gn_last_utc_rx_us = 0,
      gn_last_pvt_rx_us = 0, gn_last_tim_tp_rx_us = 0, gn_ack_waiting = False, gn_ack_expected_class = 0,
      gn_ack_expected_id = 0, gn_ack_result = ESP_ERR_TIMEOUT, gn_app = app_state_init \<rparr>"

lemma gnss_stream_witness:
  "\<exists>items. length items = 4 \<and> process_bytes (\<lambda>_. 1) 0 (concat (map item_octets items)) gnss_power_on =
     Some (items_effect (\<lambda>_. 1) 0 items gnss_power_on)"
  using gnss_stream [of gnss_power_on "[Noise [1, 2], Ubx_Frame 5 1 [6, 1], Nmea_Line [0x47], Ubx_Damaged 5 1 [6, 1] 0 0]" "\<lambda>_. 1" 0]
  by (intro exI [of _ "[Noise [1, 2], Ubx_Frame 5 1 [6, 1], Nmea_Line [0x47], Ubx_Damaged 5 1 [6, 1] 0 0]"])
     (simp add: gnss_idle_def gnss_power_on_def UBX_SYNC_1_def UBX_MON_VER_MAX_PAYLOAD_LENGTH_def GNSS_LINE_MAX_LENGTH_def
      ubx_checksum_def ubx_header_def del: process_bytes.simps items_effect.simps item_octets.simps)

text \<open>
  C25: the receiver service starts whatever the receiver answers, as long as the timer runs, and from then on
  handles every sequence of reads of any bytes without leaving its buffers.
\<close>
theorem gnss_service_runs:
  assumes "\<not> gs_initialized (gn_status s)"
    and "\<forall>c k. timer_passes (envs c k) (APP_GNSS_UBX_ACK_TIMEOUT_MS * 1000)" "timer_passes poll 750000"
    and "u = \<lparr>gu_driver_install = ESP_OK, gu_param_config = ESP_OK, gu_set_pin = ESP_OK, gu_task_created = True\<rparr>"
  shows "\<exists>s0. gnss_service_init on_boot tp u envs poll s = Some (ESP_OK, s0) \<and>
    (\<forall>rs. \<exists>s'. gnss_rounds rs s0 = Some s' \<and> gnss_buffers_ok s')"
  using init_returns [OF assms] rounds_return by blast

definition silent_receiver :: ack_attempt where
  "silent_receiver =
    \<lparr> at_writes = \<lparr>uw_header = 6, uw_payload = 8, uw_checksum = 2, uw_done = ESP_OK\<rparr>, at_start = 1,
      at_rounds = (\<lambda>n. \<lparr>wr_check = int n * 1000000, wr_received = [], wr_nows = (\<lambda>_. 1)\<rparr>) \<rparr>"

lemma silent_receiver_passes: "timer_passes silent_receiver 750000"
    "timer_passes silent_receiver (APP_GNSS_UBX_ACK_TIMEOUT_MS * 1000)"
  by (auto simp: timer_passes_def silent_receiver_def APP_GNSS_UBX_ACK_TIMEOUT_MS_def intro!: exI [of _ "10::nat"])

lemma gnss_service_runs_witness:
  "\<exists>s0. gnss_service_init True True \<lparr>gu_driver_install = ESP_OK, gu_param_config = ESP_OK, gu_set_pin = ESP_OK, gu_task_created = True\<rparr>
     (\<lambda>c k. silent_receiver) silent_receiver gnss_power_on = Some (ESP_OK, s0)"
  using gnss_service_runs [of gnss_power_on "\<lambda>c k. silent_receiver" silent_receiver
    "\<lparr>gu_driver_install = ESP_OK, gu_param_config = ESP_OK, gu_set_pin = ESP_OK, gu_task_created = True\<rparr>" True True]
    silent_receiver_passes
  by (auto simp: gnss_power_on_def gnss_zero_status_def)

text \<open>
  C26: the seconds the service derives from a date and a time of a receiver message are those of a
  calendar counted year by year and month by month from 1970; a leap second reads as the second before it.
\<close>
theorem utc_exact:
  assumes "2000 \<le> y" "y \<le> 2100" "1 \<le> m" "m \<le> 12" "1 \<le> d" "d \<le> month_days y m"
    and "0 \<le> h" "h < 24" "0 \<le> mi" "mi < 60" "0 \<le> sec" "sec \<le> 60"
  shows "datetime_to_epoch y m d h mi sec = Some (86400 * days_since_1970 y m d + 3600 * h + 60 * mi + min sec 59)"
proof -
  have "d \<le> 31" using assms(6) by (simp add: month_days_def split: if_splits)
  with assms show ?thesis
    using days_from_civil_correct [of y m d] by (simp add: datetime_to_epoch_def Let_def min_def)
qed

lemma utc_exact_witness: "datetime_to_epoch 2016 12 31 23 59 60 = Some (86400 * days_since_1970 2016 12 31 + 3600 * 23 + 60 * 59 + min 60 59)"
  by (rule utc_exact) (simp_all add: month_days_def)

text \<open>
  C24: after each pass of the receiver's task, UTC and the timing pulse are marked valid only if a message set
  them in the five seconds before, and the device's snapshot calls GNSS valid only if the service does.
\<close>
theorem gnss_publishes_fresh:
  assumes "gnss_service_init on_boot tp u envs poll s = Some (ESP_OK, s0)" "\<not> gs_initialized (gn_status s)"
    and "\<not> as_gnss_valid (gn_app s)" "gnss_rounds (rs @ [(bs, nows, now)]) s0 = Some s'"
    and "\<forall>c k n j. 0 < wr_nows (at_rounds (envs c k) n) j" "\<forall>n j. 0 < wr_nows (at_rounds poll n) j"
    and "\<forall>(bs, nows, now) \<in> set rs. \<forall>j. 0 < nows j" "\<forall>j. 0 < nows j"
  shows "gnss_fresh now s'"
proof -
  have "gnss_published_ok s0"
    using assms(1-3,5,6) by (intro init_published) (auto simp: published.attempt_ok_def published.round_ok_def)
  moreover obtain s1 where "gnss_rounds rs s0 = Some s1" "gnss_task bs nows now s1 = Some s'"
    using assms(4) by (auto simp: rounds_append bind_eq_Some_conv)
  ultimately show ?thesis
    using task_fresh published.rounds_keep assms(7,8) by blast
qed

text \<open>A receiver that does not take the poll and then sends the line of noon, the first of January 2024.\<close>

definition deaf_receiver :: ack_attempt where
  "deaf_receiver =
    \<lparr> at_writes = \<lparr>uw_header = 0, uw_payload = 0, uw_checksum = 0, uw_done = ESP_FAIL\<rparr>, at_start = 1,
      at_rounds = (\<lambda>n. \<lparr>wr_check = 10000000, wr_received = [], wr_nows = (\<lambda>_. 1)\<rparr>) \<rparr>"

definition noon_line :: bytes where
  "noon_line = [0x24, 0x47, 0x50, 0x5A, 0x44, 0x41, 0x2C, 0x31, 0x32, 0x30, 0x30, 0x30, 0x30, 0x2E, 0x30, 0x30, 0x2C, 0x30, 0x31, 0x2C, 0x30, 0x31, 0x2C, 0x32, 0x30, 0x32, 0x34, 0x2C, 0x30, 0x30, 0x2C, 0x30, 0x30, 0x2A, 0x36, 0x31, 0x0D, 0x0A]"

lemma noon_received:
  "map_option (\<lambda>s'. (gs_utc_valid (gn_status s'), gs_utc_seconds (gn_status s'), as_gnss_valid (gn_app s')))
     (Option.bind (gnss_service_init False True
         \<lparr>gu_driver_install = ESP_OK, gu_param_config = ESP_OK, gu_set_pin = ESP_OK, gu_task_created = True\<rparr>
         (\<lambda>c k. deaf_receiver) deaf_receiver gnss_power_on)
       (\<lambda>es. gnss_rounds ([] @ [(noon_line, \<lambda>_. 6, 7)]) (snd es))) = Some (True, 1704110400, True)"
  by code_simp

lemma gnss_publishes_fresh_witness:
  "\<exists>s'. gnss_fresh 7 s' \<and> gs_utc_valid (gn_status s') \<and> gs_utc_seconds (gn_status s') = 1704110400"
proof -
  let ?u = "\<lparr>gu_driver_install = ESP_OK, gu_param_config = ESP_OK, gu_set_pin = ESP_OK, gu_task_created = True\<rparr>"
  have p: "\<not> gs_initialized (gn_status gnss_power_on)" "\<not> as_gnss_valid (gn_app gnss_power_on)"
    by (simp_all add: gnss_power_on_def gnss_zero_status_def app_state_init_def)
  obtain s0 where s0: "gnss_service_init False True ?u (\<lambda>c k. deaf_receiver) deaf_receiver gnss_power_on = Some (ESP_OK, s0)"
    using init_returns [OF p(1), of "\<lambda>c k. deaf_receiver" deaf_receiver ?u False True]
    by (auto simp: timer_passes_def deaf_receiver_def APP_GNSS_UBX_ACK_TIMEOUT_MS_def)
  then obtain s' where s': "gnss_rounds ([] @ [(noon_line, \<lambda>_. 6, 7)]) s0 = Some s'" "gs_utc_valid (gn_status s')"
      "gs_utc_seconds (gn_status s') = 1704110400"
    using noon_received by auto
  have "gnss_fresh 7 s'"
    using gnss_publishes_fresh [OF s0(1) p s'(1)] by (simp add: deaf_receiver_def)
  with s' show ?thesis by blast
qed

end
