(* ===== verification/Eth_Frame_Theory.thy ===== *)
theory Eth_Frame_Theory
  imports Eth_Service
begin

text \<open>
  Frames: no frame makes the recognisers or the late timestamp leave it, and a stamped response differs
  from the original in its transmit timestamp and UDP checksum only, which stays valid.
\<close>

subsection \<open>The accesses\<close>

lemma rd8_in [simp]: "off < length buf \<Longrightarrow> rd8 buf off = Some (buf ! off)"
  by (simp add: rd8_def)

lemma rd32_in [simp]: "off + 4 \<le> length buf \<Longrightarrow> rd32 buf off = Some (de_be32 (drop off buf))"
  by (simp add: rd32_def)

lemma load_u32_in [simp]: "off + 4 \<le> length buf \<Longrightarrow> load_u32 buf off = Some (de_be32 (rev (bslice buf off 4)))"
  by (simp add: load_u32_def)

text \<open>The loop over the tags stays in the frame, and so does its unchecked copy after it succeeded.\<close>

lemma vlan_tags_returns: "\<exists>r. vlan_tags n buf l et = Some r"
  by (induction n arbitrary: l et) auto

lemma vlan_tags_offset:
  "vlan_tags n buf l et = Some (Some (l', et')) \<Longrightarrow> l \<le> l' \<and> vlan_tags_unchecked n buf l et = Some l'"
proof (induction n arbitrary: l et)
  case (Suc n)
  show ?case
  proof (cases "is_vlan et")
    case True
    with Suc.prems have len: "l + 4 \<le> length buf" by (simp split: if_splits)
    with Suc.prems True have "vlan_tags n buf (l + 4) (de_be16 (drop (l + 2) buf)) = Some (Some (l', et'))" by simp
    from Suc.IH [OF this] show ?thesis using True len by simp
  qed (use Suc.prems in simp)
qed simp

text \<open>Where the network header starts and where the UDP header does.\<close>

definition frame_l3 :: "bytes \<Rightarrow> nat" where
  "frame_l3 buf = the (vlan_tags_unchecked 2 buf 14 (de_be16 (drop 12 buf)))"

definition frame_udp :: "bytes \<Rightarrow> nat" where
  "frame_udp buf = frame_l3 buf + unat (buf ! frame_l3 buf AND 0x0F) * 4"

lemma udp_port_returns: "po \<le> 6 \<Longrightarrow> \<exists>b. eth_frame_udp_port po buf = Some b"
proof -
  assume po: "po \<le> 6"
  obtain r where r: "vlan_tags 2 buf 14 (de_be16 (drop 12 buf)) = Some r" using vlan_tags_returns by blast
  show ?thesis
    using po r by (cases r) (auto simp: eth_frame_udp_port_def Let_def)
qed

lemma udp_port_iff:
  assumes "po \<le> 6"
  shows "eth_frame_udp_port po buf = Some True \<longleftrightarrow>
    14 \<le> length buf \<and> vlan_tags 2 buf 14 (de_be16 (drop 12 buf)) = Some (Some (frame_l3 buf, ETHERTYPE_IPV4)) \<and>
    drop_bit 4 (buf ! frame_l3 buf) = 4 \<and> frame_l3 buf + 20 \<le> frame_udp buf \<and> frame_udp buf + 8 \<le> length buf \<and>
    buf ! (frame_l3 buf + 9) = IP_PROTOCOL_UDP \<and> de_be16 (drop (frame_l3 buf + 6) buf) AND 0x1FFF = 0 \<and>
    de_be16 (drop (frame_udp buf + po) buf) = NTP_UDP_PORT" (is "_ \<longleftrightarrow> ?conds")
proof
  assume p: "eth_frame_udp_port po buf = Some True"
  have len: "14 \<le> length buf" using p by (simp add: eth_frame_udp_port_def split: if_splits)
  obtain r where r: "vlan_tags 2 buf 14 (de_be16 (drop 12 buf)) = Some r" using vlan_tags_returns by blast
  with p len obtain l et where l: "r = Some (l, et)"
    by (cases r) (auto simp: eth_frame_udp_port_def)
  note off = vlan_tags_offset [OF r [unfolded l]]
  have l3: "frame_l3 buf = l" using off by (simp add: frame_l3_def)
  let ?n = "unat (buf ! l AND 0x0F) * 4"
  from p len r l have et: "et = ETHERTYPE_IPV4" "l + 20 \<le> length buf"
    by (simp_all add: eth_frame_udp_port_def not_less split: if_splits)
  with p len r l have v: "drop_bit 4 (buf ! l) = 4" "20 \<le> ?n" "l + ?n + 8 \<le> length buf"
    by (auto simp: eth_frame_udp_port_def Let_def not_less split: if_splits)
  with p len r l et assms have "buf ! (l + 9) = IP_PROTOCOL_UDP" "de_be16 (drop (l + 6) buf) AND 0x1FFF = 0"
      "de_be16 (drop (l + ?n + po) buf) = NTP_UDP_PORT"
    by (auto simp: eth_frame_udp_port_def Let_def not_less split: if_splits)
  with len r l l3 et v show ?conds by (simp add: frame_udp_def)
next
  assume c: ?conds
  then have "20 \<le> unat (buf ! frame_l3 buf AND 0x0F) * 4" "frame_l3 buf + unat (buf ! frame_l3 buf AND 0x0F) * 4 + 8 \<le> length buf"
    by (simp_all add: frame_udp_def)
  with c assms show "eth_frame_udp_port po buf = Some True"
    by (simp add: eth_frame_udp_port_def Let_def frame_udp_def)
qed

lemma udp_port_frame:
  assumes "eth_frame_udp_port po buf = Some True" "po \<le> 6"
  shows "14 \<le> length buf" "vlan_tags 2 buf 14 (de_be16 (drop 12 buf)) = Some (Some (frame_l3 buf, ETHERTYPE_IPV4))"
    "vlan_tags_unchecked 2 buf 14 (de_be16 (drop 12 buf)) = Some (frame_l3 buf)" "14 \<le> frame_l3 buf"
    "frame_l3 buf + 20 \<le> frame_udp buf" "frame_udp buf + 8 \<le> length buf"
  using assms vlan_tags_offset [of 2 buf 14 "de_be16 (drop 12 buf)" "frame_l3 buf" ETHERTYPE_IPV4] by (simp_all add: udp_port_iff)

lemma get_client_returns: "\<exists>r. eth_frame_get_ntp_client buf = Some r"
proof -
  obtain b where b: "eth_frame_udp_port 2 buf = Some b" using udp_port_returns [of 2 buf] by auto
  show ?thesis
  proof (cases b)
    case True
    have bt: "eth_frame_udp_port 2 buf = Some True" using b True by simp
    note f = udp_port_frame [OF bt]
    show ?thesis using bt f by (simp add: eth_frame_get_ntp_client_def eth_frame_is_ipv4_udp_ntp_def Let_def frame_udp_def)
  qed (use b in \<open>simp add: eth_frame_get_ntp_client_def eth_frame_is_ipv4_udp_ntp_def\<close>)
qed

lemma get_xmt_value:
  assumes "eth_frame_udp_port 0 buf = Some True"
  shows "eth_frame_get_ntp_response_xmt buf =
    Some (if frame_udp buf + 56 \<le> length buf
          then Some (de_be32 (drop (frame_udp buf + 48) buf), de_be32 (drop (frame_udp buf + 52) buf)) else None)"
  using udp_port_frame [OF assms]
  by (auto simp: eth_frame_get_ntp_response_xmt_def eth_frame_is_ipv4_udp_ntp_response_def assms Let_def frame_udp_def add_ac)

lemma get_xmt_returns: "\<exists>r. eth_frame_get_ntp_response_xmt buf = Some r"
proof -
  obtain b where b: "eth_frame_udp_port 0 buf = Some b" using udp_port_returns [of 0 buf] by auto
  show ?thesis
    using b get_xmt_value by (cases b) (auto simp: eth_frame_get_ntp_response_xmt_def eth_frame_is_ipv4_udp_ntp_response_def)
qed

subsection \<open>What qualifies for the late timestamp\<close>

definition stamp_context :: "bytes \<Rightarrow> late_stamp" where
  "stamp_context buf =
    \<lparr> ls_udp_offset = frame_udp buf, ls_ntp_offset = frame_udp buf + 8, ls_udp_checksum = de_be16 (drop (frame_udp buf + 6) buf),
      ls_old_xmt_words = map (\<lambda>i. de_be16 (drop (frame_udp buf + 48 + 2 * i) buf)) [0..<4] \<rparr>"

definition stampable :: "bytes \<Rightarrow> bool" where
  "stampable buf \<longleftrightarrow>
     eth_frame_udp_port 0 buf = Some True \<and> de_be16 (drop (frame_l3 buf + 6) buf) AND 0x3FFF = 0 \<and>
     de_be16 (drop (frame_udp buf + 4) buf) = 56 \<and>
     unat (de_be16 (drop (frame_l3 buf + 2) buf)) = frame_udp buf - frame_l3 buf + 56 \<and> frame_udp buf + 56 \<le> length buf \<and>
     buf ! (frame_udp buf + 8) AND 0x07 = 4 \<and> buf ! (frame_udp buf + 9) \<noteq> 0 \<and> de_be16 (drop (frame_udp buf + 6) buf) \<noteq> 0"

lemma prepare_value: "eth_frame_prepare_ntp_late_stamp buf = Some (if stampable buf then Some (stamp_context buf) else None)"
proof -
  obtain b where b: "eth_frame_udp_port 0 buf = Some b" using udp_port_returns [of 0 buf] by auto
  show ?thesis
  proof (cases b)
    case True
    have bt: "eth_frame_udp_port 0 buf = Some True" using b True by simp
    note f = udp_port_frame [OF bt]
    define l where "l = frame_l3 buf"
    define n where "n = unat (buf ! l AND 0x0F) * 4"
    have u: "frame_udp buf = l + n" by (simp add: frame_udp_def l_def n_def)
    have l: "20 \<le> n" "l + n + 8 \<le> length buf" "14 \<le> l" using f u by (simp_all add: l_def)
    have n5: "\<not> unat (buf ! l AND 15) < 5" using l(1) by (simp add: n_def)
    let ?frag = "de_be16 (drop (l + 6) buf)" and ?total = "unat (de_be16 (drop (l + 2) buf))" and ?len = "de_be16 (drop (l + n + 4) buf)"
    have start: "eth_frame_prepare_ntp_late_stamp buf =
        (if ?frag AND 0x3FFF \<noteq> 0 then Some None
         else if ?len \<noteq> 56 \<or> ?total \<noteq> n + unat ?len \<or> length buf < l + n + unat ?len then Some None
         else
           Option.bind (rd8 buf (l + n + 8)) (\<lambda>first. Option.bind (rd8 buf (l + n + 8 + 1)) (\<lambda>strat.
             if first AND 0x07 \<noteq> 4 \<or> strat = 0 then Some None
             else Option.bind (rd16 buf (l + n + 6)) (\<lambda>udp_checksum.
               if udp_checksum = 0 then Some None
               else
                 Option.bind (rd16 buf (l + n + 8 + 40)) (\<lambda>w0. Option.bind (rd16 buf (l + n + 8 + 42)) (\<lambda>w1.
                 Option.bind (rd16 buf (l + n + 8 + 44)) (\<lambda>w2. Option.bind (rd16 buf (l + n + 8 + 46)) (\<lambda>w3.
                   Some (Some \<lparr> ls_udp_offset = l + n, ls_ntp_offset = l + n + 8, ls_udp_checksum = udp_checksum,
                     ls_old_xmt_words = [w0, w1, w2, w3] \<rparr>))))))))) "
      using bt f(1,2) l n5
      by (simp add: eth_frame_prepare_ntp_late_stamp_def eth_frame_is_ipv4_udp_ntp_response_def Let_def l_def [symmetric] n_def [symmetric])
    have st: "stampable buf \<longleftrightarrow> ?frag AND 0x3FFF = 0 \<and> (?len = 56 \<and> ?total = n + 56 \<and> l + n + 56 \<le> length buf) \<and>
        (buf ! (l + n + 8) AND 0x07 = 4 \<and> buf ! (l + n + 9) \<noteq> 0) \<and> de_be16 (drop (l + n + 6) buf) \<noteq> 0"
      using bt by (simp add: stampable_def u l_def [symmetric])
    show ?thesis
    proof (cases "?len = 56 \<and> ?total = n + 56 \<and> l + n + 56 \<le> length buf")
      case True
      then have len: "?len = 56" "?total = n + 56" "l + n + 56 \<le> length buf" by simp_all
      then have reads: "rd8 buf (l + n + 8) = Some (buf ! (l + n + 8))" "rd8 buf (l + n + 8 + 1) = Some (buf ! (l + n + 9))"
          "rd16 buf (l + n + 6) = Some (de_be16 (drop (l + n + 6) buf))"
          "rd16 buf (l + n + 8 + 40) = Some (de_be16 (drop (l + n + 48) buf))"
          "rd16 buf (l + n + 8 + 42) = Some (de_be16 (drop (l + n + 50) buf))"
          "rd16 buf (l + n + 8 + 44) = Some (de_be16 (drop (l + n + 52) buf))"
          "rd16 buf (l + n + 8 + 46) = Some (de_be16 (drop (l + n + 54) buf))"
        by (simp_all add: rd16_def add_ac)
      have ctx: "stamp_context buf = \<lparr> ls_udp_offset = l + n, ls_ntp_offset = l + n + 8,
          ls_udp_checksum = de_be16 (drop (l + n + 6) buf), ls_old_xmt_words = [de_be16 (drop (l + n + 48) buf),
          de_be16 (drop (l + n + 50) buf), de_be16 (drop (l + n + 52) buf), de_be16 (drop (l + n + 54) buf)] \<rparr>"
        by (simp add: stamp_context_def u upt_rec add_ac)
      show ?thesis unfolding start reads st ctx using len by (simp add: not_less)
    next
      case False
      then have c: "?len \<noteq> 56 \<or> ?total \<noteq> n + unat ?len \<or> length buf < l + n + unat ?len" by auto
      have "\<not> stampable buf" using False st by blast
      then show ?thesis unfolding start if_P [OF c] by simp
    qed
  qed (use b in \<open>simp add: eth_frame_prepare_ntp_late_stamp_def eth_frame_is_ipv4_udp_ntp_response_def stampable_def\<close>)
qed

subsection \<open>The UDP checksum\<close>

text \<open>The sum of RFC 1071: additions of 16-bit words with the carry brought round.\<close>

definition ones_add :: "nat \<Rightarrow> nat \<Rightarrow> nat" where
  "ones_add a b = (if a + b \<ge> 65536 then a + b - 65535 else a + b)"

definition ones_sum :: "u16 list \<Rightarrow> nat" where
  "ones_sum ws = foldl (\<lambda>a w. ones_add a (unat w)) 0 ws"

lemma ones_foldl:
  "a \<le> 65535 \<Longrightarrow> let r = foldl (\<lambda>a w. ones_add a (unat w)) a ws in
     r \<le> 65535 \<and> r mod 65535 = (a + sum_list (map unat ws)) mod 65535 \<and> (r = 0 \<longleftrightarrow> a = 0 \<and> (\<forall>w \<in> set ws. w = 0))" for ws :: "u16 list"
proof (induction ws arbitrary: a)
  case (Cons w ws)
  have w: "unat w \<le> 65535" using unsigned_less [of w, where ?'a = nat] by simp
  have step: "ones_add a (unat w) \<le> 65535" "ones_add a (unat w) mod 65535 = (a + unat w) mod 65535"
      "ones_add a (unat w) = 0 \<longleftrightarrow> a = 0 \<and> w = 0"
    using Cons.prems w by (auto simp: ones_add_def mod_if unat_eq_0)
  have "(ones_add a (unat w) + sum_list (map unat ws)) mod 65535 = (a + unat w + sum_list (map unat ws)) mod 65535"
    using step(2) by (metis mod_add_left_eq)
  then show ?case using Cons.IH [OF step(1)] step(3) by (simp add: Let_def add_ac)
qed simp

lemma ones_sum_valid: "ones_sum ws = 65535 \<longleftrightarrow> 65535 dvd sum_list (map unat ws) \<and> (\<exists>w \<in> set ws. w \<noteq> 0)"
proof -
  have "ones_sum ws \<le> 65535" "ones_sum ws mod 65535 = sum_list (map unat ws) mod 65535" "ones_sum ws = 0 \<longleftrightarrow> (\<forall>w \<in> set ws. w = 0)"
    using ones_foldl [of 0 ws] by (simp_all add: ones_sum_def Let_def)
  then show ?thesis by (cases "ones_sum ws = 65535") (auto simp: dvd_eq_mod_eq_0)
qed

definition words_at :: "bytes \<Rightarrow> nat \<Rightarrow> nat \<Rightarrow> u16 list" where
  "words_at buf off n = map (\<lambda>i. de_be16 (drop (off + 2 * i) buf)) [0..<n]"

text \<open>The pseudo header (addresses, protocol, length) and the 28 words of a UDP datagram with an NTP packet.\<close>

definition udp_checksum_ok :: "bytes \<Rightarrow> bool" where
  "udp_checksum_ok buf \<longleftrightarrow>
     ones_sum (words_at buf (frame_l3 buf + 12) 4 @ [17, 56] @ words_at buf (frame_udp buf) 28) = 0xFFFF"

lemma add_carries_value:
  "unat (add_carries s) \<le> 65535 \<and> unat (add_carries s) mod 65535 = unat s mod 65535 \<and> (add_carries s = 0 \<longleftrightarrow> s = 0)"
proof (induction s rule: add_carries.induct)
  case (1 s)
  show ?case
  proof (cases "drop_bit 16 s = 0")
    case True
    have "unat (drop_bit 16 s) = drop_bit 16 (unat s)" by (rule unat_drop_bit_eq)
    then have "unat s < 65536" using True by (simp add: drop_bit_eq_div div_eq_0_iff)
    then show ?thesis using True by (simp add: add_carries.simps [of s])
  next
    case False
    have v: "unat ((s AND 0xFFFF) + drop_bit 16 s) = unat (s AND 0xFFFF) + unat (drop_bit 16 s)" by (rule carries_value)
    have "unat s = 65535 * unat (drop_bit 16 s) + (unat (s AND 0xFFFF) + unat (drop_bit 16 s))" using halves [of s] by simp
    then have "unat s mod 65535 = (65535 * unat (drop_bit 16 s) + (unat (s AND 0xFFFF) + unat (drop_bit 16 s))) mod 65535"
      by (rule arg_cong)
    also have "\<dots> = (unat (s AND 0xFFFF) + unat (drop_bit 16 s)) mod 65535" by (rule mod_mult_self4)
    finally have m: "unat ((s AND 0xFFFF) + drop_bit 16 s) mod 65535 = unat s mod 65535" unfolding v by simp
    have "unat (drop_bit 16 s) \<noteq> 0" using False by (simp add: unat_eq_0)
    then have "unat ((s AND 0xFFFF) + drop_bit 16 s) \<noteq> 0" unfolding v by simp
    then have z: "(s AND 0xFFFF) + drop_bit 16 s \<noteq> 0" "s \<noteq> 0" using False by (auto simp: unat_eq_0)
    show ?thesis
      using 1 [OF False] m z False by (simp add: add_carries.simps [of s])
  qed
qed

lemma unat_not_u16: "unat (NOT w) = 65535 - unat w" for w :: u16
proof -
  have "NOT w = (-1) - w" by (simp add: not_eq_complement)
  moreover have "unat ((-1) - w :: u16) = unat (-1 :: u16) - unat w"
    by (rule unat_sub) simp
  ultimately show ?thesis by (simp add: unsigned_minus_1_eq_mask mask_eq_exp_minus_1)
qed

lemma u16_bound: "unat w \<le> 65535" for w :: u16
  using unsigned_less [of w, where ?'a = nat] by simp

text \<open>The incremental update moves the sum by the difference of the words.\<close>

lemma checksum_replace_value:
  "int (unat (checksum_replace_word c old new)) mod 65535 = (int (unat c) + int (unat old) - int (unat new)) mod 65535"
proof -
  define s where "s = (ucast (NOT c) :: u32) + ucast (NOT old) + ucast new"
  have x: "unat (ucast (NOT c) :: u32) = 65535 - unat c" "unat (ucast (NOT old) :: u32) = 65535 - unat old" "unat (ucast new :: u32) = unat new"
    by (simp_all add: unsigned_ucast_eq unat_not_u16 take_bit_nat_eq_self less_le_trans [OF _ u16_bound] u16_bound [THEN le_less_trans])
  have sv: "unat s = (65535 - unat c) + (65535 - unat old) + unat new"
    unfolding s_def using x u16_bound [of new] by (simp add: unat_word_ariths)
  define r where "r = add_carries s"
  have r: "unat r \<le> 65535" "unat r mod 65535 = unat s mod 65535" using add_carries_value [of s] by (simp_all add: r_def)
  have "unat (ucast r :: u16) = unat r" using r(1) by (simp add: unsigned_ucast_eq take_bit_nat_eq_self)
  then have v: "unat (checksum_replace_word c old new) = 65535 - unat r"
    by (simp add: checksum_replace_word_def Let_def s_def [symmetric] r_def [symmetric] unat_not_u16)
  have e: "int (unat (checksum_replace_word c old new)) = 65535 - int (unat r)"
      "65535 - int (unat s) = (int (unat c) + int (unat old) - int (unat new)) - 65535"
    using v r(1) sv u16_bound [of c] u16_bound [of old] by simp_all
  have "int (unat r mod 65535) = int (unat s mod 65535)" using r(2) by simp
  then have "int (unat r) mod 65535 = int (unat s) mod 65535" by (simp only: of_nat_mod of_nat_numeral)
  then have m: "(65535 - int (unat r)) mod 65535 = (65535 - int (unat s)) mod 65535" by (rule mod_diff_cong [OF refl])
  show ?thesis unfolding e(1) m e(2) by (rule minus_mod_self2)
qed

subsection \<open>The stamped frame\<close>

lemma de_be16_nth: "k + 2 \<le> length buf \<Longrightarrow> de_be16 (drop k buf) = push_bit 8 (ucast (buf ! k)) OR ucast (buf ! (k + 1))"
  by (simp add: de_be16_def)

lemma nth_poke:
  "off + length bs \<le> length buf \<Longrightarrow> i < length buf \<Longrightarrow>
   poke buf off bs ! i = (if off \<le> i \<and> i < off + length bs then bs ! (i - off) else buf ! i)"
  by (auto simp: poke_def nth_append min_def)

lemma be16_nth: "be16 v ! 0 = ucast (drop_bit 8 v)" "be16 v ! 1 = ucast v"
  by (simp_all add: be16_def)

lemma be32_words: "de_be16 (Prelude.be32 v @ r) = ucast (drop_bit 16 v)" "de_be16 (drop 2 (Prelude.be32 v) @ r) = ucast v"
  by (rule bit_word_eqI; auto simp: de_be16_def be32_def bit_simps)+

lemma word_poke_other:
  "off + length bs \<le> length buf \<Longrightarrow> k + 2 \<le> length buf \<Longrightarrow> k + 2 \<le> off \<or> off + length bs \<le> k \<Longrightarrow>
   de_be16 (drop k (poke buf off bs)) = de_be16 (drop k buf)"
  by (auto simp: de_be16_nth nth_poke)

lemma drop_poke_same: "off + length bs \<le> length buf \<Longrightarrow> k \<le> length bs \<Longrightarrow>
    drop (off + k) (poke buf off bs) = drop k bs @ drop (off + length bs) buf"
proof -
  assume a: "off + length bs \<le> length buf" "k \<le> length bs"
  have "drop (off + k) (poke buf off bs) = drop k (drop off (poke buf off bs))" by (simp add: add.commute)
  also have "drop off (poke buf off bs) = bs @ drop (off + length bs) buf" using a(1) by (simp add: poke_def min_def)
  finally show ?thesis using a(2) by simp
qed

lemma drop_poke_after: "off + length bs \<le> k \<Longrightarrow> off + length bs \<le> length buf \<Longrightarrow> drop k (poke buf off bs) = drop k buf"
  by (simp add: poke_def)

definition stamped :: "bytes \<Rightarrow> clock_ntp_timestamp \<Rightarrow> u16 \<Rightarrow> bytes" where
  "stamped buf t c = poke (poke (poke buf (frame_udp buf + 48) (Prelude.be32 (ct_seconds t))) (frame_udp buf + 52)
     (Prelude.be32 (ct_fraction t))) (frame_udp buf + 6) (be16 c)"

definition stamp_checksum :: "bytes \<Rightarrow> clock_ntp_timestamp \<Rightarrow> u16" where
  "stamp_checksum buf t =
    (let c = foldl (\<lambda>c (old_word, new_word). checksum_replace_word c old_word new_word) (de_be16 (drop (frame_udp buf + 6) buf))
           (zip (ls_old_xmt_words (stamp_context buf)) (new_xmt_words t)) in if c = 0 then 0xFFFF else c)"

lemma apply_value:
  assumes "frame_udp buf + 56 \<le> length buf"
  shows "eth_frame_apply_ntp_late_stamp buf (stamp_context buf) t = Some (stamped buf t (stamp_checksum buf t))"
  using assms
  by (simp add: eth_frame_apply_ntp_late_stamp_def stamp_context_def stamp_checksum_def stamped_def Let_def add_ac)

lemma length_stamped [simp]: "frame_udp buf + 56 \<le> length buf \<Longrightarrow> length (stamped buf t c) = length buf"
  by (simp add: stamped_def)

text \<open>Only the timestamp and the checksum change.\<close>

lemma stamped_nth:
  assumes "frame_udp buf + 56 \<le> length buf" "i < length buf"
    and "i < frame_udp buf + 6 \<or> frame_udp buf + 8 \<le> i" "i < frame_udp buf + 48 \<or> frame_udp buf + 56 \<le> i"
  shows "stamped buf t c ! i = buf ! i"
  using assms by (auto simp: stamped_def nth_poke)

lemma stamped_word:
  assumes "frame_udp buf + 56 \<le> length buf" "k + 2 \<le> length buf"
    and "k + 2 \<le> frame_udp buf + 6 \<or> frame_udp buf + 8 \<le> k" "k + 2 \<le> frame_udp buf + 48 \<or> frame_udp buf + 56 \<le> k"
  shows "de_be16 (drop k (stamped buf t c)) = de_be16 (drop k buf)"
proof -
  have "stamped buf t c ! k = buf ! k" "stamped buf t c ! (k + 1) = buf ! (k + 1)"
    using assms by (auto intro!: stamped_nth)
  then show ?thesis using assms by (simp add: de_be16_nth)
qed

lemma stamped_fields:
  assumes "frame_udp buf + 56 \<le> length buf"
  defines "u \<equiv> frame_udp buf"
  shows "de_be16 (drop (u + 6) (stamped buf t c)) = c"
    "de_be16 (drop (u + 48) (stamped buf t c)) = ucast (drop_bit 16 (ct_seconds t))"
    "de_be16 (drop (u + 50) (stamped buf t c)) = ucast (ct_seconds t)"
    "de_be16 (drop (u + 52) (stamped buf t c)) = ucast (drop_bit 16 (ct_fraction t))"
    "de_be16 (drop (u + 54) (stamped buf t c)) = ucast (ct_fraction t)"
    "de_be32 (drop (u + 48) (stamped buf t c)) = ct_seconds t" "de_be32 (drop (u + 52) (stamped buf t c)) = ct_fraction t"
proof -
  let ?b1 = "poke buf (u + 48) (Prelude.be32 (ct_seconds t))"
  let ?b2 = "poke ?b1 (u + 52) (Prelude.be32 (ct_fraction t))"
  have len: "length ?b1 = length buf" "length ?b2 = length buf" using assms by simp_all
  have s: "stamped buf t c = poke ?b2 (u + 6) (be16 c)" by (simp add: stamped_def u_def)
  have s2: "drop k (stamped buf t c) = drop k ?b2" if "u + 8 \<le> k" for k
    unfolding s using that assms len by (intro drop_poke_after) simp_all
  have s1: "?b2 = take (u + 52) ?b1 @ Prelude.be32 (ct_fraction t) @ drop (u + 56) ?b1" by (simp add: poke_def)
  have d48: "drop (u + 48) ?b2 = Prelude.be32 (ct_seconds t) @ Prelude.be32 (ct_fraction t) @ drop (u + 56) ?b1"
    using assms(1) by (simp add: poke_def u_def)
  have d52: "drop (u + 52) ?b2 = Prelude.be32 (ct_fraction t) @ drop (u + 56) ?b1"
    using drop_poke_same [of "u + 52" "Prelude.be32 (ct_fraction t)" ?b1 0] assms(1) len by (simp add: u_def add.commute)
  have d50: "drop (u + 50) ?b2 = drop 2 (drop (u + 48) ?b2)" "drop (u + 54) ?b2 = drop 2 (drop (u + 52) ?b2)"
    by (simp_all add: drop_drop add.commute)
  show "de_be16 (drop (u + 6) (stamped buf t c)) = c"
    using assms(1) len by (simp add: s u_def drop_poke_same [where k = 0, simplified])
  show "de_be16 (drop (u + 48) (stamped buf t c)) = ucast (drop_bit 16 (ct_seconds t))" using d48 s2 [of "u + 48"] by (simp add: be32_words)
  show "de_be16 (drop (u + 50) (stamped buf t c)) = ucast (ct_seconds t)" using d48 d50 s2 [of "u + 50"] by (simp add: be32_words)
  show "de_be16 (drop (u + 52) (stamped buf t c)) = ucast (drop_bit 16 (ct_fraction t))" using d52 s2 [of "u + 52"] by (simp add: be32_words)
  show "de_be16 (drop (u + 54) (stamped buf t c)) = ucast (ct_fraction t)" using d52 d50 s2 [of "u + 54"] by (simp add: be32_words)
  show "de_be32 (drop (u + 48) (stamped buf t c)) = ct_seconds t" using d48 s2 [of "u + 48"] by simp
  show "de_be32 (drop (u + 52) (stamped buf t c)) = ct_fraction t" using d52 s2 [of "u + 52"] by simp
qed

lemma vlan_tags_agree:
  "vlan_tags n buf l et = Some (Some (l', et')) \<Longrightarrow> length buf' = length buf \<Longrightarrow> \<forall>i < l'. buf' ! i = buf ! i \<Longrightarrow>
   vlan_tags n buf' l et = Some (Some (l', et'))"
proof (induction n arbitrary: l et)
  case (Suc n)
  show ?case
  proof (cases "is_vlan et")
    case True
    with Suc.prems have len: "l + 4 \<le> length buf" by (simp split: if_splits)
    with Suc.prems True have t: "vlan_tags n buf (l + 4) (de_be16 (drop (l + 2) buf)) = Some (Some (l', et'))" by simp
    have "l + 4 \<le> l'" using vlan_tags_offset [OF t] by simp
    then have "de_be16 (drop (l + 2) buf') = de_be16 (drop (l + 2) buf)"
      using len Suc.prems(2,3) by (simp add: de_be16_nth)
    then show ?thesis using Suc.IH [OF t Suc.prems(2,3)] True len Suc.prems(2) by simp
  qed (use Suc.prems in simp)
qed simp

lemma stamped_frame:
  assumes "eth_frame_udp_port 0 buf = Some True" "frame_udp buf + 56 \<le> length buf"
  shows "frame_l3 (stamped buf t c) = frame_l3 buf" "frame_udp (stamped buf t c) = frame_udp buf"
    "eth_frame_udp_port 0 (stamped buf t c) = Some True"
proof -
  let ?b = "stamped buf t c"
  have z: "(0::nat) \<le> 6" by simp
  note f = udp_port_frame [OF assms(1) z]
  have same: "\<forall>i < frame_udp buf + 6. ?b ! i = buf ! i" using assms(2) by (auto intro!: stamped_nth)
  have w: "de_be16 (drop 12 ?b) = de_be16 (drop 12 buf)"
    using f same assms(2) by (intro stamped_word) auto
  have v: "vlan_tags 2 ?b 14 (de_be16 (drop 12 ?b)) = Some (Some (frame_l3 buf, ETHERTYPE_IPV4))"
    unfolding w
  proof (rule vlan_tags_agree [OF f(2)])
    show "length ?b = length buf" using assms(2) by simp
    show "\<forall>i < frame_l3 buf. ?b ! i = buf ! i" using same f(5) by simp
  qed
  show l: "frame_l3 ?b = frame_l3 buf" using vlan_tags_offset [OF v] by (simp add: frame_l3_def)
  have n: "?b ! frame_l3 buf = buf ! frame_l3 buf" "?b ! (frame_l3 buf + 9) = buf ! (frame_l3 buf + 9)" using same f(5) by auto
  show u: "frame_udp ?b = frame_udp buf" by (simp add: frame_udp_def l n)
  have "de_be16 (drop (frame_l3 buf + 6) ?b) = de_be16 (drop (frame_l3 buf + 6) buf)" "de_be16 (drop (frame_udp buf) ?b) = de_be16 (drop (frame_udp buf) buf)"
    using f assms(2) by (auto intro!: stamped_word)
  note w16 = this
  have len: "length ?b = length buf" using assms(2) by simp
  show "eth_frame_udp_port 0 ?b = Some True"
    using assms(1) v unfolding udp_port_iff [OF z] l u n add_0_right w16 len by blast
qed

text \<open>The sum over the datagram with the changed words.\<close>

lemma mod_sub_add: "a mod (m::int) = b mod m \<Longrightarrow> (a + c) mod m = (b + c) mod m"
  by (rule mod_add_cong) simp_all

lemma stamp_checksum_value:
  defines "u \<equiv> \<lambda>buf k. int (unat (de_be16 (drop (frame_udp buf + k) buf)))"
  shows "int (unat (stamp_checksum buf t)) mod 65535 =
    (u buf 6 + u buf 48 + u buf 50 + u buf 52 + u buf 54 - int (sum_list (map unat (new_xmt_words t)))) mod 65535"
proof -
  obtain n0 n1 n2 n3 where n: "new_xmt_words t = [n0, n1, n2, n3]" by (simp add: new_xmt_words_def)
  let ?w = "\<lambda>k. de_be16 (drop (frame_udp buf + k) buf)"
  have old: "ls_old_xmt_words (stamp_context buf) = [?w 48, ?w 50, ?w 52, ?w 54]"
    by (simp add: stamp_context_def upt_rec add_ac)
  define c1 where "c1 = checksum_replace_word (?w 6) (?w 48) n0"
  define c2 where "c2 = checksum_replace_word c1 (?w 50) n1"
  define c3 where "c3 = checksum_replace_word c2 (?w 52) n2"
  define c4 where "c4 = checksum_replace_word c3 (?w 54) n3"
  have c: "stamp_checksum buf t = (if c4 = 0 then 0xFFFF else c4)"
    by (simp add: stamp_checksum_def old n c1_def c2_def c3_def c4_def Let_def)
  have "int (unat (stamp_checksum buf t)) mod 65535 = int (unat c4) mod 65535" by (simp add: c)
  also have "\<dots> = (int (unat c3) + (u buf 54 - int (unat n3))) mod 65535"
    using checksum_replace_value [of c3 "?w 54" n3] by (simp only: c4_def u_def add_diff_eq)
  also have "\<dots> = (int (unat c2) + (u buf 52 - int (unat n2)) + (u buf 54 - int (unat n3))) mod 65535"
    using checksum_replace_value [of c2 "?w 52" n2] by (intro mod_sub_add) (simp only: c3_def u_def add_diff_eq)
  also have "\<dots> = (int (unat c2) + ((u buf 52 - int (unat n2)) + (u buf 54 - int (unat n3)))) mod 65535"
    by (simp only: add.assoc)
  also have "\<dots> = (int (unat c1) + (u buf 50 - int (unat n1)) + ((u buf 52 - int (unat n2)) + (u buf 54 - int (unat n3)))) mod 65535"
    using checksum_replace_value [of c1 "?w 50" n1] by (intro mod_sub_add) (simp only: c2_def u_def add_diff_eq)
  also have "\<dots> = (int (unat c1) + ((u buf 50 - int (unat n1)) + ((u buf 52 - int (unat n2)) + (u buf 54 - int (unat n3))))) mod 65535"
    by (simp only: add.assoc)
  also have "\<dots> = (u buf 6 + (u buf 48 - int (unat n0)) + ((u buf 50 - int (unat n1)) + ((u buf 52 - int (unat n2)) + (u buf 54 - int (unat n3))))) mod 65535"
    using checksum_replace_value [of "?w 6" "?w 48" n0] by (intro mod_sub_add) (simp only: c1_def u_def add_diff_eq)
  also have "u buf 6 + (u buf 48 - int (unat n0)) + ((u buf 50 - int (unat n1)) + ((u buf 52 - int (unat n2)) + (u buf 54 - int (unat n3)))) =
      u buf 6 + u buf 48 + u buf 50 + u buf 52 + u buf 54 - int (sum_list (map unat (new_xmt_words t)))"
    by (simp add: n)
  finally show ?thesis .
qed

lemma words_split: "[0..<28] = [0..<3] @ [3] @ [4..<24] @ [24, 25, 26, 27::nat]"
  by (simp add: upt_rec)

lemma stamped_udp_words:
  assumes "frame_udp buf + 56 \<le> length buf" "frame_l3 buf + 20 \<le> frame_udp buf"
  shows "words_at (stamped buf t c) (frame_l3 buf + 12) 4 = words_at buf (frame_l3 buf + 12) 4"
    "\<exists>a b. words_at buf (frame_udp buf) 28 = a @ [de_be16 (drop (frame_udp buf + 6) buf)] @ b @
        [de_be16 (drop (frame_udp buf + 48) buf), de_be16 (drop (frame_udp buf + 50) buf),
         de_be16 (drop (frame_udp buf + 52) buf), de_be16 (drop (frame_udp buf + 54) buf)] \<and>
      words_at (stamped buf t c) (frame_udp buf) 28 = a @ [c] @ b @ new_xmt_words t"
proof -
  show "words_at (stamped buf t c) (frame_l3 buf + 12) 4 = words_at buf (frame_l3 buf + 12) 4"
    using assms by (auto simp: words_at_def intro!: stamped_word)
  let ?w = "\<lambda>b i. de_be16 (drop (frame_udp buf + 2 * i) b)"
  have a: "map (?w (stamped buf t c)) [0..<3] = map (?w buf) [0..<3]" "map (?w (stamped buf t c)) [4..<24] = map (?w buf) [4..<24]"
    using assms by (auto intro!: stamped_word)
  have tail: "map (?w (stamped buf t c)) [24, 25, 26, 27] = new_xmt_words t" "?w (stamped buf t c) 3 = c"
    using stamped_fields [OF assms(1), of t c] by (simp_all add: new_xmt_words_def)
  show "\<exists>a b. words_at buf (frame_udp buf) 28 = a @ [de_be16 (drop (frame_udp buf + 6) buf)] @ b @
        [de_be16 (drop (frame_udp buf + 48) buf), de_be16 (drop (frame_udp buf + 50) buf),
         de_be16 (drop (frame_udp buf + 52) buf), de_be16 (drop (frame_udp buf + 54) buf)] \<and>
      words_at (stamped buf t c) (frame_udp buf) 28 = a @ [c] @ b @ new_xmt_words t"
    unfolding words_at_def words_split map_append a tail(1)
    using tail(2) by (intro exI [of _ "map (?w buf) [0..<3]"] exI [of _ "map (?w buf) [4..<24]"]) simp
qed

lemma stamped_checksum_ok:
  assumes "stampable buf" "udp_checksum_ok buf"
  shows "udp_checksum_ok (stamped buf t (stamp_checksum buf t))"
proof -
  have st: "eth_frame_udp_port 0 buf = Some True" "frame_udp buf + 56 \<le> length buf" using assms(1) by (simp_all add: stampable_def)
  have l3: "frame_l3 buf + 20 \<le> frame_udp buf" using udp_port_frame(5) [OF st(1)] by simp
  let ?c = "stamp_checksum buf t" and ?p = "words_at buf (frame_l3 buf + 12) 4"
  let ?w = "\<lambda>k. de_be16 (drop (frame_udp buf + k) buf)"
  obtain a b where ws: "words_at buf (frame_udp buf) 28 = a @ [?w 6] @ b @ [?w 48, ?w 50, ?w 52, ?w 54]"
      "words_at (stamped buf t ?c) (frame_udp buf) 28 = a @ [?c] @ b @ new_xmt_words t"
    using stamped_udp_words(2) [OF st(2) l3] by blast
  define r where "r = int (sum_list (map unat ?p)) + 73 + int (sum_list (map unat a)) + int (sum_list (map unat b))"
  let ?s = "sum_list (map unat (?p @ [17, 56] @ words_at buf (frame_udp buf) 28))"
  let ?s' = "sum_list (map unat (?p @ [17, 56] @ words_at (stamped buf t ?c) (frame_udp buf) 28))"
  let ?n = "int (sum_list (map unat (new_xmt_words t)))"
  have s: "int ?s = r + (int (unat (?w 6)) + int (unat (?w 48)) + int (unat (?w 50)) + int (unat (?w 52)) + int (unat (?w 54)))"
    unfolding ws(1) r_def by simp
  have s': "int ?s' = r + (int (unat ?c) + ?n)" unfolding ws(2) r_def by simp
  have "int ?s' mod 65535 = (int (unat ?c) + (r + ?n)) mod 65535" unfolding s' by (simp add: add_ac)
  also have "\<dots> = (int (unat (?w 6)) + int (unat (?w 48)) + int (unat (?w 50)) + int (unat (?w 52)) + int (unat (?w 54)) - ?n + (r + ?n)) mod 65535"
    by (rule mod_sub_add) (rule stamp_checksum_value)
  also have "\<dots> = int ?s mod 65535" unfolding s by (simp add: add_ac)
  finally have "int ?s' mod 65535 = int ?s mod 65535" .
  then have "int (?s' mod 65535) = int (?s mod 65535)" by (simp only: of_nat_mod of_nat_numeral)
  then have "?s' mod 65535 = ?s mod 65535" by (simp only: of_nat_eq_iff)
  moreover have "65535 dvd ?s" using assms(2) by (simp only: udp_checksum_ok_def ones_sum_valid)
  ultimately have d: "65535 dvd ?s'" by (simp only: dvd_eq_mod_eq_0)
  have "\<exists>w \<in> set (?p @ [17, 56] @ words_at (stamped buf t ?c) (frame_udp buf) 28). w \<noteq> 0" by simp
  with d show ?thesis
    unfolding udp_checksum_ok_def stamped_frame(1,2) [OF st] stamped_udp_words(1) [OF st(2) l3] ones_sum_valid by blast
qed

subsection \<open>The transmit path\<close>

definition timestamp_units :: "clock_ntp_timestamp \<Rightarrow> int" where
  "timestamp_units t = 2 ^ 32 * uint (ct_seconds t) + uint (ct_fraction t)"

text \<open>98941 ns are 424948 units of 2 to the power of -32 seconds, and the carry reaches the seconds.\<close>

lemma predicted_units: "timestamp_units (predicted_tx_timestamp t) = (timestamp_units t + 424948) mod 2 ^ 64"
proof -
  have d: "(push_bit 32 ETH_NTP_TX_COMPENSATION_NS + 500000000) div 1000000000 = (424948 :: u64)"
    by (simp add: ETH_NTP_TX_COMPENSATION_NS_def)
  define f where "f = uint (ct_fraction t)"
  have f: "0 \<le> f" "f < 2 ^ 32" using unsigned_less [of "ct_fraction t", where ?'a = int] by (simp_all add: f_def)
  let ?s = "ucast (ct_fraction t) + 424948 :: u64"
  have s: "uint ?s = f + 424948"
    using f by (simp add: uint_word_ariths unsigned_ucast_eq take_bit_eq_mod f_def)
  have lo: "uint (ucast ?s :: u32) = (f + 424948) mod 2 ^ 32"
    using s by (simp add: unsigned_ucast_eq take_bit_eq_mod)
  have "unat (drop_bit 32 ?s) = drop_bit 32 (unat ?s)" by (rule unat_drop_bit_eq)
  then have "unat (drop_bit 32 ?s) = unat ?s div 2 ^ 32" by (simp only: drop_bit_eq_div [of 32 "unat ?s"])
  then have "int (unat (drop_bit 32 ?s)) = int (unat ?s) div int (2 ^ 32)" by (simp only: of_nat_div)
  then have "uint (drop_bit 32 ?s) = (f + 424948) div 2 ^ 32" using s by simp
  then have hi: "uint (ucast (drop_bit 32 ?s) :: u32) = (f + 424948) div 2 ^ 32"
    using f by (simp add: unsigned_ucast_eq take_bit_eq_mod)
  let ?q = "(f + 424948) div 2 ^ 32"
  have "uint (ct_seconds t + ucast (drop_bit 32 ?s)) = (uint (ct_seconds t) + ?q) mod 2 ^ 32"
    by (simp only: uint_word_ariths hi) simp
  then have u: "timestamp_units (predicted_tx_timestamp t) = 2 ^ 32 * ((uint (ct_seconds t) + ?q) mod 2 ^ 32) + (f + 424948) mod 2 ^ 32"
    using lo by (simp add: timestamp_units_def predicted_tx_timestamp_def d Let_def)
  have e: "timestamp_units t + 424948 = 2 ^ 32 * (uint (ct_seconds t) + ?q) + (f + 424948) mod 2 ^ 32"
    by (simp add: timestamp_units_def f_def [symmetric] algebra_simps)
  have m: "(2 ^ 32 * a + b mod 2 ^ 32) mod 2 ^ 64 = 2 ^ 32 * (a mod 2 ^ 32) + b mod 2 ^ 32" for a b :: int
    using zmod_zmult2_eq [of "2 ^ 32" "2 ^ 32 * a + b mod 2 ^ 32" "2 ^ 32"] by simp
  show ?thesis unfolding u e by (rule m [symmetric])
qed

definition tx_outcome :: "clock_ntp_timestamp option \<Rightarrow> bytes \<Rightarrow> bytes \<Rightarrow> bool" where
  "tx_outcome late buf out \<longleftrightarrow>
     (case late of
        Some t \<Rightarrow>
          if stampable buf then
            length out = length buf \<and>
            (\<forall>i < length buf. i < frame_udp buf + 6 \<or> frame_udp buf + 8 \<le> i \<and> i < frame_udp buf + 48 \<or> frame_udp buf + 56 \<le> i \<longrightarrow>
               out ! i = buf ! i) \<and>
            (\<exists>x. eth_frame_get_ntp_response_xmt out = Some (Some (ct_seconds x, ct_fraction x)) \<and>
               timestamp_units x = (timestamp_units t + 424948) mod 2 ^ 64) \<and>
            (udp_checksum_ok buf \<longrightarrow> udp_checksum_ok out)
          else out = buf
      | None \<Rightarrow> out = buf)"

lemma stamped_outcome:
  assumes "stampable buf"
  shows "tx_outcome (Some t) buf (stamped buf (predicted_tx_timestamp t) (stamp_checksum buf (predicted_tx_timestamp t)))"
proof -
  let ?p = "predicted_tx_timestamp t"
  let ?o = "stamped buf ?p (stamp_checksum buf ?p)"
  have st: "eth_frame_udp_port 0 buf = Some True" "frame_udp buf + 56 \<le> length buf" using assms by (simp_all add: stampable_def)
  note fr = stamped_frame [OF st, of ?p "stamp_checksum buf ?p"]
  have "eth_frame_get_ntp_response_xmt ?o = Some (Some (ct_seconds ?p, ct_fraction ?p))"
    using get_xmt_value [OF fr(3)] fr(2) st(2) stamped_fields(6,7) [OF st(2), of ?p] by simp
  moreover have "\<forall>i < length buf. i < frame_udp buf + 6 \<or> frame_udp buf + 8 \<le> i \<and> i < frame_udp buf + 48 \<or> frame_udp buf + 56 \<le> i \<longrightarrow>
      ?o ! i = buf ! i"
    using st(2) by (auto intro!: stamped_nth)
  ultimately show ?thesis
    using assms st(2) stamped_checksum_ok [OF assms, of ?p] predicted_units [of t] unfolding tx_outcome_def by auto
qed

lemma transmit_outcome:
  "\<exists>e out s'. eth_ntp_tx_probe_transmit stock ctrl late buf s = Some (e, out, s') \<and> tx_outcome late buf out"
proof -
  obtain b where b: "eth_frame_udp_port 0 buf = Some b" using udp_port_returns [of 0 buf] by auto
  show ?thesis
  proof (cases "b \<and> stampable buf \<and> late \<noteq> None")
    case True
    then obtain t where t: "late = Some t" by auto
    let ?o = "stamped buf (predicted_tx_timestamp t) (stamp_checksum buf (predicted_tx_timestamp t))"
    have st: "frame_udp buf + 56 \<le> length buf" using True by (simp add: stampable_def)
    obtain x where "eth_frame_get_ntp_response_xmt ?o = Some x" using get_xmt_returns by blast
    then show ?thesis
      using True b t stamped_outcome [of buf t] apply_value [OF st]
      by (simp add: eth_ntp_tx_probe_transmit_def eth_frame_is_ipv4_udp_ntp_response_def prepare_value case_prod_beta Let_def)
  next
    case False
    obtain x where x: "eth_frame_get_ntp_response_xmt buf = Some x" using get_xmt_returns by blast
    have "tx_outcome late buf buf" using False b by (auto simp: tx_outcome_def stampable_def split: option.split)
    then show ?thesis
      using False b x
      by (cases b) (auto simp: eth_ntp_tx_probe_transmit_def eth_frame_is_ipv4_udp_ntp_response_def prepare_value case_prod_beta
          Let_def split: option.split)
  qed
qed

text \<open>
  C27: whatever frame the stack hands over, the transmit path returns within it; a qualifying NTP response goes
  out with the clock reading moved by the 98941 ns of the transmit path (424948 units) as its transmit timestamp,
  a UDP checksum that is valid if it was, and not another octet changed; any other frame goes out as it is.
\<close>
theorem tx_late_stamp:
  "\<exists>e out s'. eth_ntp_tx_probe_transmit stock ctrl late buf s = Some (e, out, s') \<and> tx_outcome late buf out"
  by (rule transmit_outcome)

end
