(* ===== verification/Eth_Theory.thy ===== *)
theory Eth_Theory
  imports Eth_Frame_Theory
begin

text \<open>
  The queue of receive timestamps implements a bounded list in order of arrival, the mapping of a
  receive instant to UTC is accurate to the bracket of its reading, and the estimate of the rate is
  exact until its product leaves 64 bits.
\<close>

subsection \<open>The queue of receive timestamps\<close>

text \<open>
  The specification: sixteen slots, the oldest first. An arrival drops the oldest slot; taking a
  client's timestamp empties its oldest slot.
\<close>

datatype rx_op = Arrive u32 u16 eth_mac_time | Take u32 u16

type_synonym rx_slots = "(u32 \<times> u16 \<times> eth_mac_time) option list"

definition slot_of :: "u32 \<Rightarrow> u16 \<Rightarrow> (u32 \<times> u16 \<times> eth_mac_time) option \<Rightarrow> bool" where
  "slot_of ipv4 port x \<longleftrightarrow> (case x of Some (i, p, _) \<Rightarrow> i = ipv4 \<and> p = port | None \<Rightarrow> False)"

fun take_oldest :: "u32 \<Rightarrow> u16 \<Rightarrow> rx_slots \<Rightarrow> eth_mac_time option \<times> rx_slots" where
  "take_oldest ipv4 port [] = (None, [])"
| "take_oldest ipv4 port (x # xs) =
    (if slot_of ipv4 port x then (Some (snd (snd (the x))), None # xs)
     else let (r, ys) = take_oldest ipv4 port xs in (r, x # ys))"

fun rx_spec :: "rx_op list \<Rightarrow> rx_slots \<Rightarrow> eth_mac_time option list" where
  "rx_spec [] v = []"
| "rx_spec (Arrive ipv4 port t # ops) v = rx_spec ops (tl v @ [Some (ipv4, port, t)])"
| "rx_spec (Take ipv4 port # ops) v = (let (r, v') = take_oldest ipv4 port v in r # rx_spec ops v')"

fun rx_run :: "rx_op list \<Rightarrow> eth_sys \<Rightarrow> eth_mac_time option list option" where
  "rx_run [] s = Some []"
| "rx_run (Arrive ipv4 port t # ops) s = Option.bind (enqueue_rx ipv4 port t s) (rx_run ops)"
| "rx_run (Take ipv4 port # ops) s = (let (r, s') = take_rx ipv4 port s in map_option (\<lambda>rs. r # rs) (rx_run ops s'))"

lemma take_oldest_none: "(\<forall>k < length v. \<not> slot_of ipv4 port (v ! k)) \<Longrightarrow> take_oldest ipv4 port v = (None, v)"
proof (induction v)
  case (Cons x xs)
  have "\<not> slot_of ipv4 port x" using Cons.prems [rule_format, of 0] by simp
  moreover have "\<forall>k < length xs. \<not> slot_of ipv4 port (xs ! k)" using Cons.prems by auto
  ultimately show ?case using Cons.IH by simp
qed simp

lemma take_oldest_first:
  "k < length v \<Longrightarrow> v ! k = Some (ipv4, port, t) \<Longrightarrow> (\<forall>j < k. \<not> slot_of ipv4 port (v ! j)) \<Longrightarrow>
   take_oldest ipv4 port v = (Some t, v[k := None])"
proof (induction v arbitrary: k)
  case (Cons x xs)
  show ?case
  proof (cases k)
    case 0
    then show ?thesis using Cons.prems by (simp add: slot_of_def)
  next
    case (Suc j)
    have "\<not> slot_of ipv4 port x" using Cons.prems(3) Suc by auto
    moreover have "\<forall>i < j. \<not> slot_of ipv4 port (xs ! i)" using Cons.prems(3) Suc by auto
    ultimately show ?thesis using Cons.IH [of j] Cons.prems(1,2) Suc by simp
  qed
qed simp

text \<open>The ring seen from its oldest slot.\<close>

definition entry_view :: "rx_queue_entry \<Rightarrow> (u32 \<times> u16 \<times> eth_mac_time) option" where
  "entry_view e = (if rq_valid e then Some (rq_client_ipv4 e, rq_client_port e, rq_ptp_time e) else None)"

definition ring_index :: "eth_sys \<Rightarrow> nat \<Rightarrow> nat" where
  "ring_index s k = (unat (es_queue_next s) + k) mod 16"

definition rx_view :: "eth_sys \<Rightarrow> rx_slots" where
  "rx_view s = map (\<lambda>k. entry_view (es_queue s ! ring_index s k)) [0..<16]"

definition rx_ring_ok :: "eth_sys \<Rightarrow> bool" where
  "rx_ring_ok s \<longleftrightarrow> length (es_queue s) = 16 \<and> unat (es_queue_next s) < 16 \<and> uint (es_queue_sequence s) < 2 ^ 32 - 1 \<and>
     (\<forall>k < 16. rq_valid (es_queue s ! ring_index s k) \<longrightarrow>
        uint (rq_sequence (es_queue s ! ring_index s k)) + 15 = uint (es_queue_sequence s) + int k)"

lemma ring_index_less [simp]: "ring_index s k < 16"
  by (simp add: ring_index_def)

lemma ring_index_inj:
  assumes "j < 16" "k < 16" "ring_index s j = ring_index s k"
  shows "j = k"
proof -
  define r where "r = unat (es_queue_next s) mod 16"
  have "r < 16" by (simp add: r_def)
  moreover have "(r + j) mod 16 = (r + k) mod 16" using assms(3) by (simp add: ring_index_def r_def mod_simps)
  ultimately show ?thesis using assms(1,2) by (simp add: mod_if split: if_splits)
qed

lemma ring_index_onto:
  assumes "i < 16" "unat (es_queue_next s) < 16"
  shows "\<exists>k < 16. ring_index s k = i"
proof (cases "unat (es_queue_next s) \<le> i")
  case True
  then show ?thesis using assms by (intro exI [of _ "i - unat (es_queue_next s)"]) (simp add: ring_index_def)
next
  case False
  then show ?thesis using assms by (intro exI [of _ "i + 16 - unat (es_queue_next s)"]) (simp add: ring_index_def)
qed

lemma next_wraps: "n < 16 \<Longrightarrow> unat ((w + 1) mod of_nat 16) = (unat w + 1) mod 16" if "unat w = n" for w :: u32
  using that by (simp add: unat_mod_distrib unat_word_ariths)

lemma arrive_view:
  assumes "rx_ring_ok s" "uint (es_queue_sequence s) < 2 ^ 32 - 2"
  shows "\<exists>s'. enqueue_rx ipv4 port t s = Some s' \<and> rx_ring_ok s' \<and> rx_view s' = tl (rx_view s) @ [Some (ipv4, port, t)] \<and>
    uint (es_queue_sequence s') = uint (es_queue_sequence s) + 1"
proof -
  let ?n = "unat (es_queue_next s)"
  let ?e = "\<lparr>rq_valid = True, rq_client_ipv4 = ipv4, rq_client_port = port, rq_sequence = es_queue_sequence s + 1, rq_ptp_time = t\<rparr>"
  have n: "?n < 16" "length (es_queue s) = 16" using assms(1) by (simp_all add: rx_ring_ok_def)
  obtain s' where s': "enqueue_rx ipv4 port t s = Some s'" "es_queue s' = (es_queue s)[?n := ?e]"
      "es_queue_next s' = (es_queue_next s + 1) mod of_nat 16" "es_queue_sequence s' = es_queue_sequence s + 1"
    using n by (simp add: enqueue_rx_def Let_def ETH_NTP_RX_QUEUE_SIZE_def)
  have nxt: "unat (es_queue_next s') = (?n + 1) mod 16" using next_wraps [OF refl n(1)] by (simp only: s'(3))
  have sq: "uint (es_queue_sequence s') = uint (es_queue_sequence s) + 1"
    using assms(2) by (simp add: s'(4) uint_word_ariths)
  have old: "ring_index s' k = ring_index s (k + 1)" for k
    by (simp add: ring_index_def nxt mod_simps add_ac)
  have other: "es_queue s' ! ring_index s' k = es_queue s ! ring_index s (k + 1)" if "k < 15" for k
  proof -
    have "ring_index s (k + 1) \<noteq> ring_index s 0" using that ring_index_inj [of "k + 1" 0 s] by auto
    then have "ring_index s (k + 1) \<noteq> ?n" using n(1) by (simp add: ring_index_def)
    then show ?thesis by (simp add: s'(2) old)
  qed
  have "ring_index s' 15 = ?n" unfolding old using n(1) by (simp add: ring_index_def)
  then have new: "es_queue s' ! ring_index s' 15 = ?e" using n by (simp add: s'(2))
  have "rx_ring_ok s'"
    unfolding rx_ring_ok_def
  proof (intro conjI allI impI)
    fix k :: nat assume k: "k < 16" "rq_valid (es_queue s' ! ring_index s' k)"
    show "uint (rq_sequence (es_queue s' ! ring_index s' k)) + 15 = uint (es_queue_sequence s') + int k"
    proof (cases "k < 15")
      case True
      then show ?thesis using k other [OF True] assms(1) sq by (auto simp: rx_ring_ok_def)
    next
      case False
      then have "k = 15" using k(1) by simp
      then show ?thesis using new s'(4) by simp
    qed
  qed (use n nxt sq assms(2) s'(2) in simp_all)
  moreover have "rx_view s' = tl (rx_view s) @ [Some (ipv4, port, t)]"
  proof (rule nth_equalityI)
    fix k assume "k < length (rx_view s')"
    then have k: "k < 16" by (simp add: rx_view_def)
    show "rx_view s' ! k = (tl (rx_view s) @ [Some (ipv4, port, t)]) ! k"
    proof (cases "k < 15")
      case True
      then show ?thesis using other [OF True] by (simp add: rx_view_def nth_append nth_tl)
    next
      case False
      then have "k = 15" using k by simp
      then show ?thesis using new by (simp add: rx_view_def nth_append entry_view_def)
    qed
  qed (simp add: rx_view_def)
  ultimately show ?thesis using s'(1) sq by blast
qed

text \<open>The scan finds a matching entry with the least sequence number.\<close>

definition entry_of :: "u32 \<Rightarrow> u16 \<Rightarrow> rx_queue_entry \<Rightarrow> bool" where
  "entry_of ipv4 port e \<longleftrightarrow> rq_valid e \<and> rq_client_ipv4 e = ipv4 \<and> rq_client_port e = port"

lemma oldest_match_spec:
  assumes "\<forall>k < length es. entry_of ipv4 port (es ! k) \<longrightarrow> rq_sequence (es ! k) < 0xFFFFFFFF"
  shows "case oldest_match ipv4 port i es best of
      None \<Rightarrow> best = None \<and> (\<forall>k < length es. \<not> entry_of ipv4 port (es ! k))
    | Some (j, q) \<Rightarrow> (best = Some (j, q) \<or> (\<exists>k < length es. j = i + k \<and> entry_of ipv4 port (es ! k) \<and> q = rq_sequence (es ! k))) \<and>
        (\<forall>k < length es. entry_of ipv4 port (es ! k) \<longrightarrow> q \<le> rq_sequence (es ! k)) \<and>
        (\<forall>j' q'. best = Some (j', q') \<longrightarrow> q \<le> q')"
  using assms
proof (induction es arbitrary: i best)
  case Nil
  then show ?case by (simp split: option.split)
next
  case (Cons e es)
  let ?limit = "case best of None \<Rightarrow> 0xFFFFFFFF | Some (_, q) \<Rightarrow> q"
  let ?best = "if entry_of ipv4 port e \<and> rq_sequence e < ?limit then Some (i, rq_sequence e) else best"
  have r: "oldest_match ipv4 port i (e # es) best = oldest_match ipv4 port (Suc i) es ?best"
    by (simp add: entry_of_def conj_assoc)
  have head: "entry_of ipv4 port e \<Longrightarrow> rq_sequence e < 0xFFFFFFFF" using Cons.prems [rule_format, of 0] by simp
  have "\<forall>k < length es. entry_of ipv4 port (es ! k) \<longrightarrow> rq_sequence (es ! k) < 0xFFFFFFFF" using Cons.prems by auto
  note ih = Cons.IH [OF this, where i = "Suc i" and best = ?best]
  show ?case
  proof (cases "oldest_match ipv4 port (Suc i) es ?best")
    case None
    with ih have n: "?best = None" "\<forall>k < length es. \<not> entry_of ipv4 port (es ! k)" by simp_all
    then have b: "best = None" "\<not> entry_of ipv4 port e" using head by (auto split: if_splits)
    then have "\<forall>k < length (e # es). \<not> entry_of ipv4 port ((e # es) ! k)" using n(2) by (auto simp: nth_Cons split: nat.split)
    then show ?thesis unfolding r None using b(1) by simp
  next
    case (Some x)
    obtain j q where x: "x = (j, q)" by (cases x)
    with ih Some have s: "?best = Some (j, q) \<or> (\<exists>k < length es. j = Suc i + k \<and> entry_of ipv4 port (es ! k) \<and> q = rq_sequence (es ! k))"
        "\<forall>k < length es. entry_of ipv4 port (es ! k) \<longrightarrow> q \<le> rq_sequence (es ! k)" "\<forall>j' q'. ?best = Some (j', q') \<longrightarrow> q \<le> q'"
      by simp_all
    have "best = Some (j, q) \<or> (\<exists>k < length (e # es). j = i + k \<and> entry_of ipv4 port ((e # es) ! k) \<and> q = rq_sequence ((e # es) ! k))"
      using s(1)
    proof
      assume "?best = Some (j, q)"
      then show ?thesis by (auto split: if_splits intro!: exI [of _ "0::nat"])
    next
      assume "\<exists>k < length es. j = Suc i + k \<and> entry_of ipv4 port (es ! k) \<and> q = rq_sequence (es ! k)"
      then obtain k where "k < length es" "j = Suc i + k" "entry_of ipv4 port (es ! k)" "q = rq_sequence (es ! k)" by blast
      then show ?thesis by (intro disjI2 exI [of _ "Suc k"]) simp
    qed
    moreover have "q \<le> rq_sequence e" if m: "entry_of ipv4 port e"
    proof (cases "rq_sequence e < ?limit")
      case True
      then show ?thesis using s(3) m by simp
    next
      case False
      then obtain j' q' where b: "best = Some (j', q')" "q' \<le> rq_sequence e"
        using head [OF m] by (cases best) auto
      then show ?thesis using s(3) False m by auto
    qed
    then have "\<forall>k < length (e # es). entry_of ipv4 port ((e # es) ! k) \<longrightarrow> q \<le> rq_sequence ((e # es) ! k)"
      using s(2) by (auto simp: nth_Cons split: nat.split)
    moreover have "\<forall>j' q'. best = Some (j', q') \<longrightarrow> q \<le> q'"
    proof (intro allI impI)
      fix j' q' assume b: "best = Some (j', q')"
      show "q \<le> q'" using s(3) b by (cases "entry_of ipv4 port e \<and> rq_sequence e < q'") auto
    qed
    ultimately show ?thesis unfolding r Some x by simp
  qed
qed

lemma take_view:
  assumes "rx_ring_ok s"
  shows "fst (take_rx ipv4 port s) = fst (take_oldest ipv4 port (rx_view s)) \<and>
    rx_view (snd (take_rx ipv4 port s)) = snd (take_oldest ipv4 port (rx_view s)) \<and>
    rx_ring_ok (snd (take_rx ipv4 port s)) \<and> es_queue_sequence (snd (take_rx ipv4 port s)) = es_queue_sequence s"
proof -
  have n: "unat (es_queue_next s) < 16" "length (es_queue s) = 16" and
    sq: "\<And>k. k < 16 \<Longrightarrow> rq_valid (es_queue s ! ring_index s k) \<Longrightarrow>
        uint (rq_sequence (es_queue s ! ring_index s k)) + 15 = uint (es_queue_sequence s) + int k"
    and small: "uint (es_queue_sequence s) < 2 ^ 32 - 1"
    using assms by (simp_all add: rx_ring_ok_def)
  have view: "rx_view s ! k = entry_view (es_queue s ! ring_index s k)" if "k < 16" for k using that by (simp add: rx_view_def)
  have slot: "slot_of ipv4 port (rx_view s ! k) \<longleftrightarrow> entry_of ipv4 port (es_queue s ! ring_index s k)" if "k < 16" for k
    using view [OF that] by (auto simp: slot_of_def entry_view_def entry_of_def)
  have limit: "\<forall>i < length (es_queue s). entry_of ipv4 port (es_queue s ! i) \<longrightarrow> rq_sequence (es_queue s ! i) < 0xFFFFFFFF"
  proof (intro allI impI)
    fix i assume i: "i < length (es_queue s)" "entry_of ipv4 port (es_queue s ! i)"
    obtain k where k: "k < 16" "ring_index s k = i" using ring_index_onto [OF _ n(1)] i(1) n(2) by auto
    have "uint (rq_sequence (es_queue s ! i)) < 2 ^ 32 - 1" using sq [OF k(1)] k i(2) small by (simp add: entry_of_def)
    then show "rq_sequence (es_queue s ! i) < 0xFFFFFFFF" by (simp add: word_less_def)
  qed
  note spec = oldest_match_spec [OF limit, where i = 0 and best = None]
  show ?thesis
  proof (cases "oldest_match ipv4 port 0 (es_queue s) None")
    case None
    have "\<forall>k < length (rx_view s). \<not> slot_of ipv4 port (rx_view s ! k)"
      using spec None slot n(2) by (simp add: rx_view_def [of s])
    then have "take_oldest ipv4 port (rx_view s) = (None, rx_view s)" by (rule take_oldest_none)
    then show ?thesis using None assms by (simp add: take_rx_def rx_view_def rx_ring_ok_def ring_index_def)
  next
    case (Some x)
    obtain i q where x: "x = (i, q)" by (cases x)
    have i: "i < 16" "entry_of ipv4 port (es_queue s ! i)" "q = rq_sequence (es_queue s ! i)"
      and least: "\<And>j. j < 16 \<Longrightarrow> entry_of ipv4 port (es_queue s ! j) \<Longrightarrow> q \<le> rq_sequence (es_queue s ! j)"
      using spec Some x n(2) by auto
    obtain k where k: "k < 16" "ring_index s k = i" using ring_index_onto [OF i(1) n(1)] by blast
    let ?t = "rq_ptp_time (es_queue s ! i)"
    let ?s = "snd (take_rx ipv4 port s)"
    have taken: "fst (take_rx ipv4 port s) = Some ?t" "es_queue ?s = (es_queue s)[i := (es_queue s ! i)\<lparr>rq_valid := False\<rparr>]"
        "es_queue_next ?s = es_queue_next s" "es_queue_sequence ?s = es_queue_sequence s"
      using Some x by (simp_all add: take_rx_def)
    have ri: "ring_index ?s = ring_index s" by (simp add: ring_index_def taken(3) fun_eq_iff)
    have "\<not> slot_of ipv4 port (rx_view s ! j)" if j: "j < k" for j
    proof
      assume "slot_of ipv4 port (rx_view s ! j)"
      then have e: "entry_of ipv4 port (es_queue s ! ring_index s j)" using slot j k(1) by simp
      then have "q \<le> rq_sequence (es_queue s ! ring_index s j)" using least by simp
      moreover have "uint (rq_sequence (es_queue s ! ring_index s j)) + 15 = uint (es_queue_sequence s) + int j"
        using sq [of j] e j k(1) by (simp add: entry_of_def)
      moreover have "uint q + 15 = uint (es_queue_sequence s) + int k" using sq [OF k(1)] k(2) i(2,3) by (simp add: entry_of_def)
      ultimately show False using j by (simp add: word_le_def)
    qed
    moreover have "rx_view s ! k = Some (ipv4, port, ?t)" using view [OF k(1)] k(2) i(2) by (simp add: entry_view_def entry_of_def)
    ultimately have spec_taken: "take_oldest ipv4 port (rx_view s) = (Some ?t, (rx_view s)[k := None])"
      using k(1) by (intro take_oldest_first) (auto simp: rx_view_def)
    have "rx_view ?s = (rx_view s)[k := None]"
    proof (rule nth_equalityI)
      fix j assume "j < length (rx_view ?s)"
      then have j: "j < 16" by (simp add: rx_view_def)
      show "rx_view ?s ! j = (rx_view s)[k := None] ! j"
      proof (cases "j = k")
        case True
        then show ?thesis using j k n i by (simp add: rx_view_def ri taken(2) entry_view_def)
      next
        case False
        then have "ring_index s j \<noteq> i" using ring_index_inj [OF j k(1)] k(2) by auto
        then show ?thesis using False j by (simp add: rx_view_def ri taken(2))
      qed
    qed (simp add: rx_view_def)
    moreover have "rx_ring_ok ?s"
      unfolding rx_ring_ok_def ri taken
    proof (intro conjI allI impI)
      fix j :: nat assume j: "j < 16" "rq_valid ((es_queue s)[i := (es_queue s ! i)\<lparr>rq_valid := False\<rparr>] ! ring_index s j)"
      show "uint (rq_sequence ((es_queue s)[i := (es_queue s ! i)\<lparr>rq_valid := False\<rparr>] ! ring_index s j)) + 15 =
          uint (es_queue_sequence s) + int j"
        using j sq [OF j(1)] n by (cases "ring_index s j = i") auto
    qed (use n small in simp_all)
    ultimately show ?thesis using taken spec_taken by simp
  qed
qed

lemma rx_run_refines:
  "rx_ring_ok s \<Longrightarrow> uint (es_queue_sequence s) + int (length ops) < 2 ^ 32 - 1 \<Longrightarrow> rx_run ops s = Some (rx_spec ops (rx_view s))"
proof (induction ops arbitrary: s)
  case (Cons op ops)
  show ?case
  proof (cases op)
    case (Arrive ipv4 port t)
    obtain s' where s': "enqueue_rx ipv4 port t s = Some s'" "rx_ring_ok s'" "rx_view s' = tl (rx_view s) @ [Some (ipv4, port, t)]"
        "uint (es_queue_sequence s') = uint (es_queue_sequence s) + 1"
      using arrive_view [OF Cons.prems(1), of ipv4 port t] Cons.prems(2) by auto
    have "rx_run ops s' = Some (rx_spec ops (rx_view s'))" using Cons.IH [OF s'(2)] s'(4) Cons.prems(2) by simp
    then show ?thesis using Arrive s'(1,3) by simp
  next
    case (Take ipv4 port)
    let ?s = "snd (take_rx ipv4 port s)"
    have t: "fst (take_rx ipv4 port s) = fst (take_oldest ipv4 port (rx_view s))" "rx_view ?s = snd (take_oldest ipv4 port (rx_view s))"
        "rx_ring_ok ?s" "es_queue_sequence ?s = es_queue_sequence s"
      using take_view [OF Cons.prems(1)] by blast+
    have "rx_run ops ?s = Some (rx_spec ops (rx_view ?s))" using Cons.IH [OF t(3)] t(4) Cons.prems(2) by simp
    then show ?thesis using Take t(1,2) by (simp add: case_prod_beta)
  qed
qed simp

text \<open>
  A request's own timestamp: after the arrival of its frame, operations that concern other clients, fewer than sixteen
  arrivals among them, leave it in its slot, which moves towards the oldest.
\<close>

fun rx_after :: "rx_op list \<Rightarrow> eth_sys \<Rightarrow> eth_sys option" where
  "rx_after [] s = Some s"
| "rx_after (Arrive ipv4 port t # ops) s = Option.bind (enqueue_rx ipv4 port t s) (rx_after ops)"
| "rx_after (Take ipv4 port # ops) s = rx_after ops (snd (take_rx ipv4 port s))"

definition of_other :: "u32 \<Rightarrow> u16 \<Rightarrow> rx_op \<Rightarrow> bool" where
  "of_other ipv4 port op \<longleftrightarrow> (case op of Arrive i p _ \<Rightarrow> i \<noteq> ipv4 \<or> p \<noteq> port | Take i p \<Rightarrow> i \<noteq> ipv4 \<or> p \<noteq> port)"

fun arrivals :: "rx_op list \<Rightarrow> nat" where
  "arrivals [] = 0"
| "arrivals (Arrive _ _ _ # ops) = Suc (arrivals ops)"
| "arrivals (Take _ _ # ops) = arrivals ops"

definition only_slot :: "u32 \<Rightarrow> u16 \<Rightarrow> eth_mac_time \<Rightarrow> nat \<Rightarrow> rx_slots \<Rightarrow> bool" where
  "only_slot ipv4 port t k v \<longleftrightarrow> length v = 16 \<and> k < 16 \<and> v ! k = Some (ipv4, port, t) \<and>
     (\<forall>j < 16. j \<noteq> k \<longrightarrow> \<not> slot_of ipv4 port (v ! j))"

lemma rx_view_length [simp]: "length (rx_view s) = 16"
  by (simp add: rx_view_def)

lemma only_slot_arrives:
  assumes "only_slot ipv4 port t (Suc k) v" "i \<noteq> ipv4 \<or> p \<noteq> port"
  shows "only_slot ipv4 port t k (tl v @ [Some (i, p, t')])"
proof -
  have v: "length v = 16" "Suc k < 16" "v ! Suc k = Some (ipv4, port, t)" "\<And>j. j < 16 \<Longrightarrow> j \<noteq> Suc k \<Longrightarrow> \<not> slot_of ipv4 port (v ! j)"
    using assms(1) by (auto simp: only_slot_def)
  have "\<not> slot_of ipv4 port ((tl v @ [Some (i, p, t')]) ! j)" if "j < 16" "j \<noteq> k" for j
  proof (cases "j < 15")
    case True
    then show ?thesis using v(1,4) that by (simp add: nth_append nth_tl)
  next
    case False
    then have "j = 15" using that by simp
    then show ?thesis using v(1) assms(2) by (simp add: nth_append slot_of_def)
  qed
  then show ?thesis using v(1-3) by (simp add: only_slot_def nth_append nth_tl)
qed

lemma take_oldest_other:
  assumes "i \<noteq> ipv4 \<or> p \<noteq> port"
  shows "length (snd (take_oldest i p v)) = length v"
    "k < length v \<Longrightarrow> slot_of ipv4 port (snd (take_oldest i p v) ! k) = slot_of ipv4 port (v ! k)"
    "k < length v \<Longrightarrow> slot_of ipv4 port (v ! k) \<Longrightarrow> snd (take_oldest i p v) ! k = v ! k"
proof -
  show l: "length (snd (take_oldest i p v)) = length v"
    by (induction v) (simp_all add: case_prod_unfold Let_def)
  show "k < length v \<Longrightarrow> slot_of ipv4 port (snd (take_oldest i p v) ! k) = slot_of ipv4 port (v ! k)"
    using assms by (induction v arbitrary: k)
      (auto simp: nth_Cons slot_of_def case_prod_unfold Let_def split: nat.splits option.splits prod.splits)
  show "k < length v \<Longrightarrow> slot_of ipv4 port (v ! k) \<Longrightarrow> snd (take_oldest i p v) ! k = v ! k"
    using assms by (induction v arbitrary: k)
      (auto simp: nth_Cons slot_of_def case_prod_unfold Let_def split: nat.splits option.splits prod.splits)
qed

lemma only_slot_kept:
  assumes "rx_ring_ok s" "uint (es_queue_sequence s) + int (length ops) < 2 ^ 32 - 1" "list_all (of_other ipv4 port) ops"
    and "only_slot ipv4 port t k (rx_view s)" "arrivals ops \<le> k" "rx_after ops s = Some s'"
  shows "rx_ring_ok s' \<and> only_slot ipv4 port t (k - arrivals ops) (rx_view s')"
  using assms
proof (induction ops arbitrary: s k)
  case (Cons op ops)
  show ?case
  proof (cases op)
    case (Arrive i p t')
    obtain s1 where s1: "enqueue_rx i p t' s = Some s1" "rx_ring_ok s1" "rx_view s1 = tl (rx_view s) @ [Some (i, p, t')]"
        "uint (es_queue_sequence s1) = uint (es_queue_sequence s) + 1"
      using arrive_view [OF Cons.prems(1), of i p t'] Cons.prems(2) by auto
    obtain k' where k: "k = Suc k'" "arrivals ops \<le> k'" using Cons.prems(5) Arrive by (cases k) simp_all
    have "only_slot ipv4 port t k' (rx_view s1)"
      unfolding s1(3) by (rule only_slot_arrives) (use Cons.prems(3,4) Arrive k(1) in \<open>simp_all add: of_other_def\<close>)
    then show ?thesis using Cons.IH [OF s1(2) _ _ _ k(2)] Cons.prems(2,3,6) s1(1,4) Arrive k(1) by simp
  next
    case (Take i p)
    let ?s = "snd (take_rx i p s)"
    have r: "rx_view ?s = snd (take_oldest i p (rx_view s))" "rx_ring_ok ?s" "es_queue_sequence ?s = es_queue_sequence s"
      using take_view [OF Cons.prems(1)] by blast+
    have o1: "i \<noteq> ipv4 \<or> p \<noteq> port" using Cons.prems(3) Take by (simp add: of_other_def)
    have "only_slot ipv4 port t k (rx_view ?s)"
      using Cons.prems(4) take_oldest_other [OF o1, where v = "rx_view s"] unfolding only_slot_def r(1) by (simp add: slot_of_def)
    then show ?thesis using Cons.IH [OF r(2), of k] Cons.prems r(3) Take by simp
  qed
qed simp

text \<open>A frame arrives and no earlier one of its client is in the queue: the client's take returns its timestamp.\<close>

definition no_entry_of :: "u32 \<Rightarrow> u16 \<Rightarrow> eth_sys \<Rightarrow> bool" where
  "no_entry_of ipv4 port s \<longleftrightarrow> list_all (\<lambda>x. \<not> slot_of ipv4 port x) (rx_view s)"

definition same_queue :: "eth_sys \<Rightarrow> eth_sys \<Rightarrow> bool" where
  "same_queue s s' \<longleftrightarrow> es_queue s = es_queue s' \<and> es_queue_next s = es_queue_next s' \<and> es_queue_sequence s = es_queue_sequence s'"

lemma same_queue_view: "same_queue s s' \<Longrightarrow> rx_view s = rx_view s' \<and> (rx_ring_ok s \<longleftrightarrow> rx_ring_ok s')"
  by (simp add: same_queue_def rx_view_def rx_ring_ok_def ring_index_def)

lemma own_timestamp:
  assumes "rx_ring_ok s0" "no_entry_of ipv4 port s0" "uint (es_queue_sequence s0) + int (length ops) < 2 ^ 32 - 2"
    and "rx_after (Arrive ipv4 port t # ops) s0 = Some s1" "list_all (of_other ipv4 port) ops" "arrivals ops < 16" "same_queue s s1"
  shows "fst (take_rx ipv4 port s) = Some t"
proof -
  obtain s' where s': "enqueue_rx ipv4 port t s0 = Some s'" "rx_ring_ok s'" "rx_view s' = tl (rx_view s0) @ [Some (ipv4, port, t)]"
      "uint (es_queue_sequence s') = uint (es_queue_sequence s0) + 1"
    using arrive_view [OF assms(1), of ipv4 port t] assms(3) by auto
  have "only_slot ipv4 port t 15 (rx_view s')"
    using assms(2) by (auto simp: s'(3) only_slot_def nth_append nth_tl no_entry_of_def list_all_length)
  then have "rx_ring_ok s1 \<and> only_slot ipv4 port t (15 - arrivals ops) (rx_view s1)"
    by (intro only_slot_kept [OF s'(2)]) (use assms(3-6) s'(1,4) in simp_all)
  then have "rx_ring_ok s" "only_slot ipv4 port t (15 - arrivals ops) (rx_view s)" using same_queue_view [OF assms(7)] by simp_all
  then show ?thesis using take_view [of s ipv4 port] take_oldest_first [of "15 - arrivals ops" "rx_view s" ipv4 port t]
    by (simp add: only_slot_def)
qed

lemma boot_ring: "rx_ring_ok (eth_boot app)" "rx_view (eth_boot app) = replicate 16 None"
proof -
  have e: "es_queue (eth_boot app) ! ring_index (eth_boot app) k = zero_rx_entry" for k
  proof -
    have "es_queue (eth_boot app) = replicate 16 zero_rx_entry" by (simp only: eth_boot_def eth_sys.simps ETH_NTP_RX_QUEUE_SIZE_def)
    then show ?thesis by (simp only: nth_replicate ring_index_less)
  qed
  show "rx_ring_ok (eth_boot app)"
    unfolding rx_ring_ok_def e by (simp add: eth_boot_def ETH_NTP_RX_QUEUE_SIZE_def zero_rx_entry_def)
  show "rx_view (eth_boot app) = replicate 16 None"
    unfolding rx_view_def e by (simp add: entry_view_def zero_rx_entry_def map_replicate_const)
qed

text \<open>
  C28: the ring of sixteen entries with its sequence numbers implements, over any run of fewer than 2^32 - 1 arrivals and
  takes, the list of the last sixteen arrivals: a take returns the oldest timestamp of that client that is still there, and
  removes it. Its age plays no part: a frame that never reached the socket leaves its timestamp to the client's next request.
\<close>
theorem rx_queue_refines:
  assumes "int (length ops) < 2 ^ 32 - 1"
  shows "rx_run ops (eth_boot app) = Some (rx_spec ops (replicate 16 None))"
  using rx_run_refines [OF boot_ring(1), of app ops] assms by (simp only: boot_ring(2)) (simp add: eth_boot_def)

text \<open>The first of two frames was dropped before the socket: the one request served gets the other's timestamp.\<close>

lemma rx_queue_refines_witness:
  "rx_run [Arrive 1 123 \<lparr>mt_seconds = 100, mt_nanoseconds = 0\<rparr>, Arrive 1 123 \<lparr>mt_seconds = 164, mt_nanoseconds = 0\<rparr>, Take 1 123]
     (eth_boot app_state_init) = Some [Some \<lparr>mt_seconds = 100, mt_nanoseconds = 0\<rparr>]"
  by (subst rx_queue_refines) (simp_all add: slot_of_def numeral_eq_Suc)

subsection \<open>Nanoseconds\<close>

definition clock_ns :: "clock_ntp_timestamp \<Rightarrow> int" where
  "clock_ns t = uint (ct_seconds t) * 1000000000 + (uint (ct_fraction t) * 1000000000 + 2 ^ 31) div 2 ^ 32"

definition ptp_ns :: "eth_mac_time \<Rightarrow> int" where
  "ptp_ns t = uint (mt_seconds t) * 1000000000 + uint (mt_nanoseconds t)"

lemma u32_range: "0 \<le> uint x" "uint x < 2 ^ 32" for x :: u32
  using unsigned_less [of x, where ?'a = int] by simp_all

lemma uint_widen: "uint (ucast x :: u64) = uint x" for x :: u32
  using u32_range [of x] by (simp add: unsigned_ucast_eq take_bit_eq_mod)

lemma u64_small: "0 \<le> a \<Longrightarrow> a < 2 ^ 64 \<Longrightarrow> uint (word_of_int a :: u64) = a"
  by (simp add: uint_word_of_int)

lemma clock_ns_range: "0 \<le> clock_ns t" "clock_ns t \<le> 4294967296000000000"
proof -
  have f: "0 \<le> (uint (ct_fraction t) * 1000000000 + 2 ^ 31) div 2 ^ 32" "(uint (ct_fraction t) * 1000000000 + 2 ^ 31) div 2 ^ 32 \<le> 1000000000"
    using u32_range [of "ct_fraction t"] by (simp_all add: pos_imp_zdiv_nonneg_iff)
  with u32_range [of "ct_seconds t"] show "0 \<le> clock_ns t" "clock_ns t \<le> 4294967296000000000"
    by (simp_all add: clock_ns_def)
qed

lemma clock_timestamp_value: "uint (clock_timestamp_to_ns t) = clock_ns t"
proof -
  let ?f = "(ucast (ct_fraction t) * 1000000000) + 0x80000000 :: u64"
  have "uint ?f = uint (ct_fraction t) * 1000000000 + 2 ^ 31"
    using u32_range [of "ct_fraction t"] by (simp add: uint_word_ariths uint_widen)
  moreover have "unat (drop_bit 32 ?f) = drop_bit 32 (unat ?f)" by (rule unat_drop_bit_eq)
  then have "unat (drop_bit 32 ?f) = unat ?f div 2 ^ 32" by (simp only: drop_bit_eq_div [of 32 "unat ?f"])
  then have "int (unat (drop_bit 32 ?f)) = int (unat ?f) div int (2 ^ 32)" by (simp only: of_nat_div)
  ultimately have "uint (drop_bit 32 ?f) = (uint (ct_fraction t) * 1000000000 + 2 ^ 31) div 2 ^ 32" by simp
  then show ?thesis
    using u32_range [of "ct_seconds t"] clock_ns_range [of t]
    by (simp add: clock_timestamp_to_ns_def Let_def clock_ns_def uint_word_ariths uint_widen)
qed

lemma ptp_ns_range: "0 \<le> ptp_ns t" "ptp_ns t < 4294967300000000000"
  using u32_range [of "mt_seconds t"] u32_range [of "mt_nanoseconds t"] by (simp_all add: ptp_ns_def)

lemma ptp_timestamp_value: "uint (ptp_timestamp_to_ns t) = ptp_ns t"
  using u32_range [of "mt_seconds t"] u32_range [of "mt_nanoseconds t"]
  by (simp add: ptp_timestamp_to_ns_def ptp_ns_def uint_word_ariths uint_widen)

lemma uint_sub_le: "uint b \<le> uint a \<Longrightarrow> uint (a - b) = uint a - uint b" for a b :: u64
  by (simp only: uint_sub_lem)

lemma u64_mult: "uint a * 1000000000 < 2 ^ 64 \<Longrightarrow> uint (a * 1000000000) = uint a * 1000000000" for a :: u64
  by (simp add: uint_word_ariths)

lemma u64_add: "uint a + uint b < 2 ^ 64 \<Longrightarrow> uint (a + b) = uint a + uint b" for a b :: u64
  by (simp add: uint_word_ariths)

lemma uint_div_u64: "uint (a div b) = uint a div uint b" "uint (a mod b) = uint a mod uint b" for a b :: u64
  by (simp_all add: uint_div_distrib uint_mod_distrib)

text \<open>The middle of the two clock readings.\<close>

definition clock_mid :: "clock_ntp_timestamp \<Rightarrow> clock_ntp_timestamp \<Rightarrow> int" where
  "clock_mid b a = clock_ns b + (clock_ns a - clock_ns b) div 2"

lemma mid_value:
  assumes "clock_ns b \<le> clock_ns a"
  shows "uint (clock_timestamp_to_ns b + (clock_timestamp_to_ns a - clock_timestamp_to_ns b) div 2) = clock_mid b a"
    "uint (clock_timestamp_to_ns a - clock_timestamp_to_ns b) = clock_ns a - clock_ns b"
proof -
  show d: "uint (clock_timestamp_to_ns a - clock_timestamp_to_ns b) = clock_ns a - clock_ns b"
    using assms by (simp add: uint_sub_le clock_timestamp_value)
  have h: "uint ((clock_timestamp_to_ns a - clock_timestamp_to_ns b) div 2) = (clock_ns a - clock_ns b) div 2"
    by (simp add: uint_div_u64 d)
  show "uint (clock_timestamp_to_ns b + (clock_timestamp_to_ns a - clock_timestamp_to_ns b) div 2) = clock_mid b a"
    using clock_ns_range [of a] clock_ns_range [of b] assms
    by (simp add: uint_word_ariths h clock_timestamp_value clock_mid_def)
qed

subsection \<open>The mapping of an instant\<close>

text \<open>The division in two steps rounds the quotient to the nearest integer.\<close>

lemma split_division:
  fixes n d k h :: int
  assumes "0 < d"
  shows "(n div d) * k + ((n mod d) * k + h) div d = (n * k + h) div d"
proof -
  define q r where "q = n div d" and "r = n mod d"
  have "n = q * d + r" by (simp add: q_def r_def)
  then have "n * k + h = (r * k + h) + (q * k) * d" by (simp add: algebra_simps)
  then have "(n * k + h) div d = ((r * k + h) + (q * k) * d) div d" by (rule arg_cong)
  also have "\<dots> = q * k + (r * k + h) div d" using assms by simp
  finally show ?thesis by (simp add: q_def r_def)
qed

lemma div_below: "0 < d \<Longrightarrow> x < c * d \<Longrightarrow> x div d < c" for x c d :: int
proof (rule ccontr)
  assume d: "0 < d" "x < c * d" "\<not> x div d < c"
  then have "c * d \<le> x div d * d" by (intro mult_right_mono) simp_all
  moreover have "x = x div d * d + x mod d" "0 \<le> x mod d" using d(1) by simp_all
  ultimately show False using d(2) by linarith
qed

lemma map_value:
  assumes "map_ptp_event r event s = Some (u, br, age)" "\<bar>et_ptp_utc_estimated_rate_ppb (es_status s)\<bar> \<le> 500000000"
    and "pr_utc_before r = Some b" "pr_utc_after r = Some a" "pr_ptp_now r = Some now"
  defines "d \<equiv> 1000000000 + et_ptp_utc_estimated_rate_ppb (es_status s)"
  shows "clock_ns b \<le> clock_ns a" "clock_ns a - clock_ns b \<le> 250000" "uint age = ptp_ns now - ptp_ns event"
    "uint u = clock_mid b a - ((ptp_ns now - ptp_ns event) * 1000000000 + d div 2) div d"
proof -
  let ?b = "clock_timestamp_to_ns b" and ?a = "clock_timestamp_to_ns a" and ?n = "ptp_timestamp_to_ns now" and ?e = "ptp_timestamp_to_ns event"
  have d: "500000000 \<le> d" "d \<le> 1500000000" using assms(2) by (simp_all add: d_def abs_le_iff)
  let ?d = "word_of_int d :: u64"
  have wd: "uint ?d = d" "sint ?d = d"
    using d by (simp_all add: uint_word_of_int sint_sbintrunc' signed_take_bit_int_eq_self)
  have o: "\<not> ?a < ?b" "\<not> ?n < ?e"
    using assms(1,3,4,5) by (auto simp: map_ptp_event_def split: if_splits)
  then show le: "clock_ns b \<le> clock_ns a" by (simp add: word_less_def clock_timestamp_value)
  have le': "ptp_ns event \<le> ptp_ns now" using o(2) by (simp add: word_less_def ptp_timestamp_value)
  let ?age = "?n - ?e" and ?mid = "?b + (?a - ?b) div 2"
  let ?q = "(?age div ?d) * 1000000000 + ((?age mod ?d) * 1000000000 + ?d div 2) div ?d"
  have m: "br = ?a - ?b" "age = ?age" "u = ?mid - ?q" "\<not> ?q > ?mid" "\<not> br > ETH_PTP_LOCAL_MAP_MAX_BRACKET_NS"
    using assms(1,3,4,5) o wd(2) by (auto simp: map_ptp_event_def Let_def d_def split: if_splits)
  show "clock_ns a - clock_ns b \<le> 250000"
    using m(5) mid_value(2) [OF le] by (simp add: m(1) word_less_def ETH_PTP_LOCAL_MAP_MAX_BRACKET_NS_def)
  have age: "uint ?age = ptp_ns now - ptp_ns event" using le' by (simp add: uint_sub_le ptp_timestamp_value)
  then show "uint age = ptp_ns now - ptp_ns event" by (simp add: m(2))
  define n where "n = ptp_ns now - ptp_ns event"
  have n: "0 \<le> n" "n < 4294967300000000000" using le' ptp_ns_range [of now] ptp_ns_range [of event] by (simp_all add: n_def)
  have q1: "0 \<le> n div d" "n div d \<le> 8589934600" and q2: "0 \<le> n mod d" "n mod d < d"
  proof -
    show "0 \<le> n div d" "0 \<le> n mod d" "n mod d < d" using n d by (simp_all add: pos_imp_zdiv_nonneg_iff)
    have "n div d \<le> n div 500000000" using n d by (intro zdiv_mono2) simp_all
    then show "n div d \<le> 8589934600" using n by simp
  qed
  have w: "uint (?age div ?d) = n div d" "uint (?age mod ?d) = n mod d" "uint (?d div 2) = d div 2"
    by (simp_all only: uint_div_u64 age n_def [symmetric] wd(1)) simp
  have x1: "uint ((?age div ?d) * 1000000000) = (n div d) * 1000000000"
    using q1 by (subst u64_mult) (simp_all add: w)
  have md: "n mod d \<le> 1500000000" "0 \<le> n mod d" using q2 d by linarith+
  have "uint ((?age mod ?d) * 1000000000) = (n mod d) * 1000000000"
    using md by (subst u64_mult) (simp_all add: w)
  then have x2: "uint ((?age mod ?d) * 1000000000 + ?d div 2) = (n mod d) * 1000000000 + d div 2"
    using md d w by (subst u64_add) simp_all
  have x3: "((n mod d) * 1000000000 + d div 2) div d < 1000000001" "0 \<le> ((n mod d) * 1000000000 + d div 2) div d"
  proof -
    have "n mod d * 1000000000 + d div 2 < 1000000001 * d" using q2 d by linarith
    then show "((n mod d) * 1000000000 + d div 2) div d < 1000000001" using d by (intro div_below) simp_all
    show "0 \<le> ((n mod d) * 1000000000 + d div 2) div d" using md d by (simp add: pos_imp_zdiv_nonneg_iff)
  qed
  have x4: "uint (((?age mod ?d) * 1000000000 + ?d div 2) div ?d) = ((n mod d) * 1000000000 + d div 2) div d"
    by (simp only: uint_div_u64 x2 wd(1))
  have "uint ?q = (n div d) * 1000000000 + ((n mod d) * 1000000000 + d div 2) div d"
    using x1 x4 x3 q1 by (subst u64_add) simp_all
  then have q: "uint ?q = (n * 1000000000 + d div 2) div d" using split_division [of d n 1000000000 "d div 2"] d by simp
  have "uint ?q \<le> uint ?mid" using m(4) by (simp add: word_less_def not_less)
  then have "uint u = uint ?mid - uint ?q" unfolding m(3) by (rule uint_sub_le)
  then show "uint u = clock_mid b a - ((ptp_ns now - ptp_ns event) * 1000000000 + d div 2) div d"
    using q mid_value(1) [OF le] by (simp add: n_def)
qed

subsection \<open>The accuracy of a receive timestamp\<close>

definition hw_ns :: "hw_rx_timestamp \<Rightarrow> rat" where
  "hw_ns h = of_int (2 ^ 32 * uint (hw_seconds h) + uint (hw_fraction h)) * 1000000000 / 2 ^ 32"

definition rounded_quotient :: "int \<Rightarrow> int \<Rightarrow> int" where
  "rounded_quotient x d = (x + d div 2) div d"

lemma rounded_quotient_error: "\<bar>of_int (rounded_quotient x d) - of_int x / of_int d\<bar> \<le> (1 / 2 :: rat)" if "0 < d"
proof -
  let ?q = "rounded_quotient x d"
  have b: "?q * d \<le> x + d div 2" "x + d div 2 < ?q * d + d"
  proof -
    have "x + d div 2 = ?q * d + (x + d div 2) mod d" by (simp add: rounded_quotient_def)
    moreover have "0 \<le> (x + d div 2) mod d" "(x + d div 2) mod d < d" using that by simp_all
    ultimately show "?q * d \<le> x + d div 2" "x + d div 2 < ?q * d + d" by linarith+
  qed
  have "2 * (d div 2) \<le> d" "d \<le> 2 * (d div 2) + 1" by linarith+
  with b have i: "2 * (?q * d) \<le> 2 * x + d" "2 * x - d \<le> 2 * (?q * d)" by linarith+
  have "of_int (2 * (?q * d)) \<le> (of_int (2 * x + d) :: rat)" "of_int (2 * x - d) \<le> (of_int (2 * (?q * d)) :: rat)"
    using i by (simp_all only: of_int_le_iff)
  then have r: "2 * of_int ?q * of_int d \<le> 2 * of_int x + (of_int d :: rat)" "2 * of_int x - of_int d \<le> 2 * of_int ?q * (of_int d :: rat)"
    by simp_all
  have pd: "0 < (of_int d :: rat)" using that by simp
  have e: "(of_int ?q - of_int x / of_int d) * of_int d = of_int ?q * of_int d - (of_int x :: rat)"
    using pd by (simp add: left_diff_distrib)
  have "\<bar>of_int ?q - of_int x / of_int d\<bar> * of_int d = \<bar>of_int ?q * of_int d - (of_int x :: rat)\<bar>"
    using pd by (simp only: e [symmetric] abs_mult abs_of_pos)
  also have "... \<le> 1 / 2 * of_int d" using r by (intro abs_leI) linarith+
  finally show ?thesis using pd by (simp only: mult_le_cancel_right_pos)
qed

lemma fraction_rounding:
  assumes "uint m < 2 ^ 32 * 1000000000"
  defines "f \<equiv> (push_bit 32 (m mod 1000000000) + 500000000) div 1000000000 :: u64"
  shows "\<not> m div 1000000000 > 0xFFFFFFFF"
    "2 ^ 32 * uint (ucast (m div 1000000000) :: u32) + uint (ucast f :: u32) = rounded_quotient (2 ^ 32 * uint m) 1000000000"
proof -
  define q r where "q = uint m div 1000000000" and "r = uint m mod 1000000000"
  have m: "uint m = 1000000000 * q + r" "0 \<le> r" "r < 1000000000" by (simp_all add: q_def r_def)
  have "0 \<le> uint m" by simp
  then have q: "0 \<le> q" "q < 2 ^ 32" using assms(1) m by linarith+
  have qd: "uint (m div 1000000000) = q" "uint (m mod 1000000000) = r" by (simp_all add: uint_div_u64 q_def r_def)
  then show "\<not> m div 1000000000 > 0xFFFFFFFF" using q by (simp add: word_less_def)
  have "uint (push_bit 32 (m mod 1000000000)) = 2 ^ 32 * r"
    using m by (simp add: push_bit_eq_mult uint_word_ariths qd mult.commute)
  then have "uint (push_bit 32 (m mod 1000000000) + 500000000) = 2 ^ 32 * r + 500000000"
    using m by (subst u64_add) simp_all
  then have f: "uint f = (2 ^ 32 * r + 500000000) div 1000000000" by (simp add: f_def uint_div_u64)
  have "(2 ^ 32 * r + 500000000) div 1000000000 < 2 ^ 32" using m by (intro div_below) simp_all
  then have "uint (ucast f :: u32) = (2 ^ 32 * r + 500000000) div 1000000000"
    using f m by (simp add: unsigned_ucast_eq take_bit_eq_mod pos_imp_zdiv_nonneg_iff)
  moreover have "uint (ucast (m div 1000000000) :: u32) = q" using qd q by (simp add: unsigned_ucast_eq take_bit_eq_mod)
  moreover have "rounded_quotient (2 ^ 32 * uint m) 1000000000 = ((2 ^ 32 * r + 500000000) + 2 ^ 32 * q * 1000000000) div 1000000000"
    by (simp add: rounded_quotient_def m(1) algebra_simps)
  then have "rounded_quotient (2 ^ 32 * uint m) 1000000000 = 2 ^ 32 * q + (2 ^ 32 * r + 500000000) div 1000000000"
    by (simp only: div_mult_self1 zero_neq_numeral [symmetric] not_False_eq_True)
  ultimately show "2 ^ 32 * uint (ucast (m div 1000000000) :: u32) + uint (ucast f :: u32) = rounded_quotient (2 ^ 32 * uint m) 1000000000"
    by simp
qed

lemma hw_ns_error:
  assumes "uint m < 2 ^ 32 * 1000000000"
  shows "\<bar>of_int (2 ^ 32 * uint (ucast (m div 1000000000) :: u32) +
      uint (ucast ((push_bit 32 (m mod 1000000000) + 500000000) div 1000000000 :: u64) :: u32)) * 1000000000 / 2 ^ 32
      - of_int (uint m)\<bar> \<le> (1 / 8 :: rat)"
proof -
  let ?x = "of_int (rounded_quotient (2 ^ 32 * uint m) 1000000000) :: rat"
  have "\<bar>?x - of_int (2 ^ 32 * uint m) / of_int 1000000000\<bar> \<le> 1 / 2" by (rule rounded_quotient_error) simp
  then have "\<bar>?x * 1000000000 / 2 ^ 32 - of_int (uint m)\<bar> \<le> (1 / 8 :: rat)"
    unfolding abs_le_iff by simp
  then show ?thesis by (simp only: fraction_rounding(2) [OF assms])
qed

lemma div_succ: "0 < c \<Longrightarrow> m < (m div c + 1) * c" for m c :: int
proof -
  assume "0 < c"
  then have "m = m div c * c + m mod c" "m mod c < c" by simp_all
  then show ?thesis unfolding distrib_right by linarith
qed

lemma below_div: "m div 1000000000 \<le> 0xFFFFFFFF \<Longrightarrow> m < 2 ^ 32 * 1000000000" for m :: int
proof -
  assume d: "m div 1000000000 \<le> 0xFFFFFFFF"
  have "m < (m div 1000000000 + 1) * 1000000000" by (rule div_succ) simp
  also have "\<dots> \<le> 2 ^ 32 * 1000000000" using d by simp
  finally show ?thesis .
qed

lemma take_inverse:
  assumes "eth_service_take_ntp_rx_timestamp r ip port s = (Some h, s')"
  obtains event s1 u br age where "take_rx ip port s = (Some event, s1)" "map_ptp_event r event s1 = Some (u, br, age)"
    "\<not> u div 1000000000 > 0xFFFFFFFF" "hw_seconds h = ucast (u div 1000000000)"
    "hw_fraction h = ucast ((push_bit 32 (u mod 1000000000) + 500000000) div 1000000000)"
  using assms by (auto simp: eth_service_take_ntp_rx_timestamp_def Let_def split: if_splits prod.splits option.splits)

lemma take_rx_rate: "take_rx ip port s = (x, s1) \<Longrightarrow> et_ptp_utc_estimated_rate_ppb (es_status s1) = et_ptp_utc_estimated_rate_ppb (es_status s)"
  by (auto simp: take_rx_def split: option.splits)

lemma take_accurate:
  assumes "eth_service_take_ntp_rx_timestamp r ip port s = (Some h, s')"
    and "\<bar>et_ptp_utc_estimated_rate_ppb (es_status s)\<bar> \<le> 500000000"
    and "pr_utc_before r = Some b" "pr_utc_after r = Some a" "pr_ptp_now r = Some now"
    and "of_int (clock_ns b) \<le> U" "U \<le> of_int (clock_ns a)"
  shows "\<exists>event s1. take_rx ip port s = (Some event, s1) \<and>
    \<bar>hw_ns h - (U - of_int (ptp_ns now - ptp_ns event) * 1000000000 / of_int (1000000000 + et_ptp_utc_estimated_rate_ppb (es_status s)))\<bar>
      \<le> 125001"
proof -
  obtain event s1 u br age where t: "take_rx ip port s = (Some event, s1)" "map_ptp_event r event s1 = Some (u, br, age)"
    "\<not> u div 1000000000 > 0xFFFFFFFF" "hw_seconds h = ucast (u div 1000000000)"
    "hw_fraction h = ucast ((push_bit 32 (u mod 1000000000) + 500000000) div 1000000000)"
    using take_inverse [OF assms(1)] .
  define d where "d = 1000000000 + et_ptp_utc_estimated_rate_ppb (es_status s)"
  have d: "0 < d" using assms(2) by (simp add: d_def abs_le_iff)
  define x where "x = (ptp_ns now - ptp_ns event) * 1000000000"
  note rate = take_rx_rate [OF t(1)]
  note mv = map_value [OF t(2) _ assms(3-5), unfolded rate, OF assms(2), folded d_def]
  have u: "uint u = clock_mid b a - rounded_quotient x d" using mv(4) by (simp only: rounded_quotient_def x_def)
  have "uint u div 1000000000 \<le> 0xFFFFFFFF" using t(3) by (simp add: word_less_def uint_div_u64 not_less)
  then have "uint u < 2 ^ 32 * 1000000000" by (rule below_div)
  from hw_ns_error [OF this] have e1: "\<bar>hw_ns h - of_int (uint u)\<bar> \<le> 1 / 8" by (simp only: hw_ns_def t(4,5))
  have e2: "\<bar>of_int (rounded_quotient x d) - of_int x / of_int d\<bar> \<le> (1 / 2 :: rat)" using d by (rule rounded_quotient_error)
  have "clock_mid b a \<le> clock_ns b + 125000" "clock_ns a \<le> clock_mid b a + 125000"
    using mv(1,2) unfolding clock_mid_def by linarith+
  then have "of_int (clock_mid b a) \<le> (of_int (clock_ns b + 125000) :: rat)" "of_int (clock_ns a) \<le> (of_int (clock_mid b a + 125000) :: rat)"
    by (simp_all only: of_int_le_iff)
  then have e3: "\<bar>of_int (clock_mid b a) - U\<bar> \<le> 125000" using assms(6,7) by (simp add: abs_le_iff)
  have "\<bar>hw_ns h - (U - of_int x / of_int d)\<bar> \<le> 125001"
    using e1 e2 e3 unfolding u abs_le_iff by simp
  then show ?thesis using t(1) by (auto simp: x_def d_def)
qed

text \<open>
  C29: the UTC time given to a request is that of the instant its own frame reached the MAC, if no earlier frame of the same
  address and port was in the queue when it arrived and fewer than sixteen frames of others came before it was asked for:
  when the disciplined clock is right around the reading of the PTP clock (the true time \<open>U\<close> of that reading lies between the
  two readings of UTC) and the estimated rate is at most half (5*10^8 ppb), the answer differs from that instant, counted
  back from \<open>U\<close> at the estimated rate, by at most 125.001 microseconds, half the widest bracket: the integer arithmetic costs
  less than a nanosecond.
\<close>
theorem rx_timestamp_accurate:
  assumes "rx_ring_ok s0" "no_entry_of ip port s0" "uint (es_queue_sequence s0) + int (length ops) < 2 ^ 32 - 2"
    and "rx_after (Arrive ip port arrived # ops) s0 = Some s1" "list_all (of_other ip port) ops" "arrivals ops < 16" "same_queue s s1"
    and "eth_service_take_ntp_rx_timestamp r ip port s = (Some h, s')"
    and "\<bar>et_ptp_utc_estimated_rate_ppb (es_status s)\<bar> \<le> 500000000"
    and "pr_utc_before r = Some b" "pr_utc_after r = Some a" "pr_ptp_now r = Some now"
    and "of_int (clock_ns b) \<le> U" "U \<le> of_int (clock_ns a)"
  shows "\<bar>hw_ns h - (U - of_int (ptp_ns now - ptp_ns arrived) * 1000000000 / of_int (1000000000 + et_ptp_utc_estimated_rate_ppb (es_status s)))\<bar>
      \<le> 125001"
  using take_accurate [OF assms(8-14)] own_timestamp [OF assms(1-7)] by force

text \<open>A frame stamped half a second before the reading, one of another client after it, and the PTP clock 40 ppm fast.\<close>

definition sample_event :: eth_mac_time where
  "sample_event = \<lparr>mt_seconds = 1000, mt_nanoseconds = 0\<rparr>"

definition sample_ops :: "rx_op list" where
  "sample_ops = [Arrive 8 123 \<lparr>mt_seconds = 1000, mt_nanoseconds = 5\<rparr>]"

definition sample_queue :: eth_sys where
  "sample_queue = the (rx_after (Arrive 7 123 sample_event # sample_ops) (eth_boot app_state_init))"

definition sample_eth :: eth_sys where
  "sample_eth = sample_queue\<lparr> es_has_mac := True, es_last_monotonic_us := 5,
     es_status := zero_eth_status\<lparr>et_ptp_correlation_valid := True, et_ptp_correlation_samples := 2, et_ptp_utc_estimated_rate_ppb := 40000\<rparr> \<rparr>"

definition sample_readings :: ptp_readings where
  "sample_readings = \<lparr> pr_utc_before = Some \<lparr>ct_seconds = 3900000000, ct_fraction = 0\<rparr>,
     pr_ptp_now = Some \<lparr>mt_seconds = 1000, mt_nanoseconds = 500020000\<rparr>,
     pr_utc_after = Some \<lparr>ct_seconds = 3900000000, ct_fraction = 429497\<rparr>, pr_now_us = 6 \<rparr>"

definition sample_stamp :: hw_rx_timestamp where
  "sample_stamp = \<lparr>hw_seconds = 3899999999, hw_fraction = 2147698396, hw_mapping_bracket_ns = 100000, hw_mapping_age_us = 500020\<rparr>"

lemma sample_take: "eth_service_take_ntp_rx_timestamp sample_readings 7 123 sample_eth =
    (Some sample_stamp, snd (eth_service_take_ntp_rx_timestamp sample_readings 7 123 sample_eth))"
  by code_simp

lemma rx_timestamp_accurate_witness:
  "\<bar>hw_ns sample_stamp - (3900000000000000000 - of_int (ptp_ns \<lparr>mt_seconds = 1000, mt_nanoseconds = 500020000\<rparr> - ptp_ns sample_event) *
      1000000000 / of_int (1000000000 + et_ptp_utc_estimated_rate_ppb (es_status sample_eth)))\<bar> \<le> 125001"
proof (rule rx_timestamp_accurate [OF boot_ring(1) _ _ _ _ _ _ sample_take, where b = "\<lparr>ct_seconds = 3900000000, ct_fraction = 0\<rparr>"
        and a = "\<lparr>ct_seconds = 3900000000, ct_fraction = 429497\<rparr>" and ops = sample_ops])
  show "no_entry_of 7 123 (eth_boot app_state_init)" by (simp add: no_entry_of_def boot_ring(2) slot_of_def list_all_iff)
  show "rx_after (Arrive 7 123 sample_event # sample_ops) (eth_boot app_state_init) = Some sample_queue"
    by (simp add: sample_queue_def sample_ops_def enqueue_rx_def eth_boot_def Let_def ETH_NTP_RX_QUEUE_SIZE_def)
  show "same_queue sample_eth sample_queue" by (simp add: same_queue_def sample_eth_def)
qed (simp_all add: sample_eth_def sample_readings_def clock_ns_def sample_ops_def of_other_def eth_boot_def)

subsection \<open>Where the rate of the PTP clock is defined\<close>

lemma sint_small: "sint w = uint w" if "uint w < 2 ^ 63" for w :: u64
proof -
  have "sint w = signed_take_bit 63 (uint w)" by (simp add: sint_uint)
  also have "\<dots> = uint w" using that uint_ge_0 [of w] by (intro signed_take_bit_int_eq_self) linarith+
  finally show ?thesis .
qed

lemma product_range: "in_int64 (c * 1000000000) \<longleftrightarrow> \<bar>c\<bar> \<le> 9223372036"
  unfolding in_int64_def by (simp add: abs_le_iff) linarith

lemma rate_defined:
  assumes "es_has_mac s" "pr_utc_before r = Some b" "pr_utc_after r = Some a" "pr_ptp_now r = Some now"
    and "clock_ns b \<le> clock_ns a" "es_baseline_valid s" "\<bar>es_baseline_offset_ns s\<bar> \<le> 2 ^ 62"
  shows "eth_ptp_correlation_sample r s = None \<longleftrightarrow>
    uint (es_baseline_utc_ns s) \<noteq> clock_mid b a \<and> 9223372036 < \<bar>ptp_ns now - clock_mid b a - es_baseline_offset_ns s\<bar>"
proof -
  let ?mid = "clock_timestamp_to_ns b + (clock_timestamp_to_ns a - clock_timestamp_to_ns b) div 2"
  note mid = mid_value(1) [OF assms(5)]
  have r: "0 \<le> clock_mid b a" "clock_mid b a \<le> 4294967296000000000"
    using clock_ns_range [of a] clock_ns_range [of b] assms(5) unfolding clock_mid_def by linarith+
  have m: "sint ?mid = clock_mid b a" using sint_small [of ?mid] mid r by simp
  have p: "sint (ptp_timestamp_to_ns now) = ptp_ns now"
    using sint_small [of "ptp_timestamp_to_ns now"] ptp_ns_range [of now] by (simp add: ptp_timestamp_value)
  have o: "\<not> clock_timestamp_to_ns a < clock_timestamp_to_ns b" using assms(5) by (simp add: word_less_def clock_timestamp_value)
  define c where "c = ptp_ns now - clock_mid b a - es_baseline_offset_ns s"
  have c: "in_int64 c" using r ptp_ns_range [of now] assms(7) by (simp add: c_def in_int64_def abs_le_iff)
  have e: "?mid - es_baseline_utc_ns s > 0 \<longleftrightarrow> uint (es_baseline_utc_ns s) \<noteq> clock_mid b a"
    by (simp only: mid [symmetric] word_uint_eq_iff [symmetric] word_neq_0_conv [symmetric] right_minus_eq) (rule neq_commute)
  show ?thesis
    by (simp add: eth_ptp_correlation_sample_def assms o m p c_def [symmetric] c e product_range not_le Let_def del: word_less_def)
qed

text \<open>
  C30: a further sample of the correlation computes its rate within the signed 64-bit range exactly while the free-running
  PTP clock stays within 9.223372036 seconds of where the first sample put it: the baseline is never renewed, so once the
  difference has grown past that, the product by 10^9 overflows at every sample.
\<close>
theorem ptp_rate_defined:
  assumes "es_has_mac s" "pr_utc_before r = Some b" "pr_utc_after r = Some a" "pr_ptp_now r = Some now"
    and "clock_ns b \<le> clock_ns a" "es_baseline_valid s" "\<bar>es_baseline_offset_ns s\<bar> \<le> 2 ^ 62"
  shows "eth_ptp_correlation_sample r s = None \<longleftrightarrow>
    uint (es_baseline_utc_ns s) \<noteq> clock_mid b a \<and> 9223372036 < \<bar>ptp_ns now - clock_mid b a - es_baseline_offset_ns s\<bar>"
  using assms by (rule rate_defined)

text \<open>Ten seconds of drift after the first sample.\<close>

lemma ptp_rate_defined_witness:
  "eth_ptp_correlation_sample sample_readings
     (sample_eth\<lparr>es_baseline_valid := True, es_baseline_offset_ns := -3899998989499980000, es_baseline_utc_ns := 1\<rparr>) = None"
  by (subst ptp_rate_defined [where b = "\<lparr>ct_seconds = 3900000000, ct_fraction = 0\<rparr>"
        and a = "\<lparr>ct_seconds = 3900000000, ct_fraction = 429497\<rparr>" and now = "\<lparr>mt_seconds = 1000, mt_nanoseconds = 500020000\<rparr>"])
     (simp_all add: sample_eth_def sample_readings_def clock_ns_def clock_mid_def ptp_ns_def)

end
