(* ===== verification/Device_Config.thy ===== *)
theory Device_Config
  imports App_State
begin

text \<open>
  \<open>src/main/device_config.c\<close>: the configuration kept in non-volatile storage (host name, DNS credentials,
  peers to watch), with its validation, its migrations and its operations.

  NVS is the record \<open>cfg_nvs\<close> over an abstract state: what each call answers, and the state after those
  that write. A C string is the list of its octets before the NUL, so \<open>strlen\<close> is \<open>length\<close>; character
  classes are those of the C locale. The mutex is taken with \<open>portMAX_DELAY\<close>, so it is got wherever it exists.
\<close>

subsection \<open>Characters\<close>

definition isdigit_c :: "u8 \<Rightarrow> bool" where "isdigit_c c \<longleftrightarrow> 0x30 \<le> c \<and> c \<le> 0x39"
definition isupper_c :: "u8 \<Rightarrow> bool" where "isupper_c c \<longleftrightarrow> 0x41 \<le> c \<and> c \<le> 0x5A"
definition islower_c :: "u8 \<Rightarrow> bool" where "islower_c c \<longleftrightarrow> 0x61 \<le> c \<and> c \<le> 0x7A"
definition isalnum_c :: "u8 \<Rightarrow> bool" where "isalnum_c c \<longleftrightarrow> isdigit_c c \<or> isupper_c c \<or> islower_c c"
definition isxdigit_c :: "u8 \<Rightarrow> bool" where
  "isxdigit_c c \<longleftrightarrow> isdigit_c c \<or> 0x41 \<le> c \<and> c \<le> 0x46 \<or> 0x61 \<le> c \<and> c \<le> 0x66"
definition tolower_c :: "u8 \<Rightarrow> u8" where "tolower_c c = (if isupper_c c then c + 0x20 else c)"

abbreviation hyphen :: u8 where "hyphen \<equiv> 0x2D"
abbreviation dot :: u8 where "dot \<equiv> 0x2E"

subsection \<open>Data\<close>

definition APP_DEVICE_CONFIG_SCHEMA_VERSION :: u32 where "APP_DEVICE_CONFIG_SCHEMA_VERSION = 3"
definition APP_CLOUDFLARE_ZONE_NAME_MAX_LENGTH :: nat where "APP_CLOUDFLARE_ZONE_NAME_MAX_LENGTH = 253"
definition APP_CLOUDFLARE_ZONE_ID_LENGTH :: nat where "APP_CLOUDFLARE_ZONE_ID_LENGTH = 32"
definition APP_CLOUDFLARE_API_TOKEN_MAX_LENGTH :: nat where "APP_CLOUDFLARE_API_TOKEN_MAX_LENGTH = 512"
definition APP_NTP_PEER_MAX_COUNT :: nat where "APP_NTP_PEER_MAX_COUNT = 4"
definition APP_NTP_PEER_SERVER_MAX_LENGTH :: nat where "APP_NTP_PEER_SERVER_MAX_LENGTH = 253"
definition APP_NTP_PEER_POLL_MIN_SECONDS :: u32 where "APP_NTP_PEER_POLL_MIN_SECONDS = 4"
definition APP_NTP_PEER_POLL_MAX_SECONDS :: u32 where "APP_NTP_PEER_POLL_MAX_SECONDS = 3600"
definition APP_NTP_PEER_POLL_DEFAULT_SECONDS :: u32 where "APP_NTP_PEER_POLL_DEFAULT_SECONDS = 16"
definition APP_NTP_PEER_TIMEOUT_MIN_MS :: u32 where "APP_NTP_PEER_TIMEOUT_MIN_MS = 250"
definition APP_NTP_PEER_TIMEOUT_MAX_MS :: u32 where "APP_NTP_PEER_TIMEOUT_MAX_MS = 10000"
definition APP_NTP_PEER_TIMEOUT_DEFAULT_MS :: u32 where "APP_NTP_PEER_TIMEOUT_DEFAULT_MS = 2000"

definition APP_DEVICE_HOSTNAME_DEFAULT :: bytes where
  "APP_DEVICE_HOSTNAME_DEFAULT = map of_char ''esp32p4-ntp''"

record device_config_ntp_peer =
  np_enabled :: bool
  np_server :: bytes

record device_config_snapshot =
  dc_schema_version :: u32
  dc_generation :: u32
  dc_hostname :: bytes
  dc_cloudflare_configured :: bool
  dc_cloudflare_zone_name :: bytes
  dc_cloudflare_zone_id :: bytes
  dc_ntp_peer_monitor_enabled :: bool
  dc_ntp_peer_poll_interval_seconds :: u32
  dc_ntp_peer_response_timeout_ms :: u32
  dc_ntp_peers :: "device_config_ntp_peer list"

record stored_config = device_config_snapshot +
  sc_cloudflare_api_token :: bytes

definition no_peer :: device_config_ntp_peer where
  "no_peer = \<lparr>np_enabled = False, np_server = []\<rparr>"

definition zero_config :: stored_config where
  "zero_config = \<lparr> dc_schema_version = 0, dc_generation = 0, dc_hostname = [], dc_cloudflare_configured = False,
     dc_cloudflare_zone_name = [], dc_cloudflare_zone_id = [], dc_ntp_peer_monitor_enabled = False,
     dc_ntp_peer_poll_interval_seconds = 0, dc_ntp_peer_response_timeout_ms = 0,
     dc_ntp_peers = replicate APP_NTP_PEER_MAX_COUNT no_peer, sc_cloudflare_api_token = [] \<rparr>"

subsection \<open>Validation\<close>

definition device_config_hostname_is_valid :: "bytes \<Rightarrow> bool" where
  "device_config_hostname_is_valid hostname =
    (if length hostname = 0 \<or> length hostname > APP_DEVICE_HOSTNAME_MAX_LENGTH then False
     else if \<not> isalnum_c (hostname ! 0) \<or> \<not> isalnum_c (hostname ! (length hostname - 1)) then False
     else list_all (\<lambda>c. isalnum_c c \<or> c = hyphen) hostname)"

text \<open>The loop over a zone name, with the length of the label, whether it is at its start, and the octet before.\<close>

fun zone_labels :: "bytes \<Rightarrow> nat \<Rightarrow> bool \<Rightarrow> u8 \<Rightarrow> bool" where
  "zone_labels [] label_len label_first previous \<longleftrightarrow> label_len > 0 \<and> previous \<noteq> hyphen"
| "zone_labels (c # cs) label_len label_first previous =
    (if c = dot then
       if label_len = 0 \<or> previous = hyphen then False else zone_labels cs 0 True dot
     else if \<not> isalnum_c c \<and> c \<noteq> hyphen then False
     else if label_first \<and> c = hyphen then False
     else if label_len + 1 > 63 then False
     else zone_labels cs (label_len + 1) False c)"

definition device_config_cloudflare_zone_is_valid :: "bytes \<Rightarrow> bool" where
  "device_config_cloudflare_zone_is_valid zone =
    (if length zone = 0 \<or> length zone > APP_CLOUDFLARE_ZONE_NAME_MAX_LENGTH then False
     else if zone ! 0 = dot \<or> zone ! (length zone - 1) = dot then False
     else zone_labels zone 0 True 0)"

definition device_config_ntp_peer_server_is_valid :: "bytes \<Rightarrow> bool" where
  "device_config_ntp_peer_server_is_valid server =
    (if length server = 0 \<or> length server > APP_NTP_PEER_SERVER_MAX_LENGTH then False
     else if server ! 0 = dot \<or> server ! (length server - 1) = dot then False
     else list_all (\<lambda>c. isalnum_c c \<or> c = hyphen \<or> c = dot) server)"

definition api_token_is_valid :: "bytes \<Rightarrow> bool" where
  "api_token_is_valid token =
    (if length token < 20 \<or> length token > APP_CLOUDFLARE_API_TOKEN_MAX_LENGTH then False
     else list_all (\<lambda>c. \<not> (c \<le> 0x20 \<or> c \<ge> 0x7F)) token)"

definition zone_id_is_valid :: "bytes \<Rightarrow> bool" where
  "zone_id_is_valid zone_id =
    (if length zone_id \<noteq> APP_CLOUDFLARE_ZONE_ID_LENGTH then False else list_all isxdigit_c zone_id)"

definition lowercase :: "bytes \<Rightarrow> bytes" where
  "lowercase value = map tolower_c value"

definition make_default_config :: stored_config where
  "make_default_config = zero_config\<lparr>
     dc_schema_version := APP_DEVICE_CONFIG_SCHEMA_VERSION, dc_generation := 1,
     dc_hostname := lowercase (take APP_DEVICE_HOSTNAME_MAX_LENGTH APP_DEVICE_HOSTNAME_DEFAULT),
     dc_ntp_peer_monitor_enabled := False, dc_ntp_peer_poll_interval_seconds := APP_NTP_PEER_POLL_DEFAULT_SECONDS,
     dc_ntp_peer_response_timeout_ms := APP_NTP_PEER_TIMEOUT_DEFAULT_MS \<rparr>"

subsection \<open>Storage\<close>

definition KEY_HOSTNAME :: string where "KEY_HOSTNAME = ''hostname''"
definition KEY_SCHEMA :: string where "KEY_SCHEMA = ''schema''"
definition KEY_GENERATION :: string where "KEY_GENERATION = ''generation''"
definition KEY_CF_ZONE_NAME :: string where "KEY_CF_ZONE_NAME = ''cf_zone''"
definition KEY_CF_ZONE_ID :: string where "KEY_CF_ZONE_ID = ''cf_zone_id''"
definition KEY_CF_API_TOKEN :: string where "KEY_CF_API_TOKEN = ''cf_token''"
definition KEY_PEER_ENABLED :: string where "KEY_PEER_ENABLED = ''peer_en''"
definition KEY_PEER_POLL :: string where "KEY_PEER_POLL = ''peer_poll''"
definition KEY_PEER_TIMEOUT :: string where "KEY_PEER_TIMEOUT = ''peer_to''"
definition peer_keys :: "string list" where "peer_keys = [''peer0'', ''peer1'', ''peer2'', ''peer3'']"

datatype nvs_value = NvU8 u8 | NvU32 u32 | NvStr bytes

text \<open>
  The namespace of the configuration; \<open>cn_open True\<close> opens it for writing. \<open>cn_get_str\<close> gets the buffer's size. What a
  reading call answers beside an error is not used.
\<close>

record 'n cfg_nvs =
  cn_open :: "bool \<Rightarrow> 'n \<Rightarrow> esp_err \<times> 'n"
  cn_set :: "string \<Rightarrow> nvs_value \<Rightarrow> 'n \<Rightarrow> esp_err \<times> 'n"
  cn_erase_key :: "string \<Rightarrow> 'n \<Rightarrow> esp_err \<times> 'n"
  cn_commit :: "'n \<Rightarrow> esp_err \<times> 'n"
  cn_get_u8 :: "string \<Rightarrow> 'n \<Rightarrow> esp_err \<times> u8"
  cn_get_u32 :: "string \<Rightarrow> 'n \<Rightarrow> esp_err \<times> u32"
  cn_get_str :: "string \<Rightarrow> nat \<Rightarrow> 'n \<Rightarrow> esp_err \<times> bytes"

text \<open>\<open>if (err == ESP_OK) err = call\<close>, and an erasure, which runs whatever the error before it.\<close>

definition if_ok :: "('n \<Rightarrow> esp_err \<times> 'n) \<Rightarrow> esp_err \<times> 'n \<Rightarrow> esp_err \<times> 'n" where
  "if_ok call = (\<lambda>(err, n). if err = ESP_OK then call n else (err, n))"

definition and_erase :: "'n cfg_nvs \<Rightarrow> string \<Rightarrow> esp_err \<times> 'n \<Rightarrow> esp_err \<times> 'n" where
  "and_erase api key = (\<lambda>(err, n).
    let (erase_err, n1) = cn_erase_key api key n
    in (if err = ESP_OK \<and> erase_err \<noteq> ESP_OK \<and> erase_err \<noteq> ESP_ERR_NVS_NOT_FOUND then erase_err else err, n1))"

definition persist_cloudflare :: "'n cfg_nvs \<Rightarrow> stored_config \<Rightarrow> esp_err \<times> 'n \<Rightarrow> esp_err \<times> 'n" where
  "persist_cloudflare api config r =
    (if fst r = ESP_OK \<and> dc_cloudflare_configured config then
       if_ok (cn_set api KEY_CF_API_TOKEN (NvStr (sc_cloudflare_api_token config)))
         (if_ok (cn_set api KEY_CF_ZONE_ID (NvStr (dc_cloudflare_zone_id config)))
           (cn_set api KEY_CF_ZONE_NAME (NvStr (dc_cloudflare_zone_name config)) (snd r)))
     else if fst r = ESP_OK then
       and_erase api KEY_CF_API_TOKEN (and_erase api KEY_CF_ZONE_ID (and_erase api KEY_CF_ZONE_NAME r))
     else r)"

definition persist_peer :: "'n cfg_nvs \<Rightarrow> string \<times> device_config_ntp_peer \<Rightarrow> esp_err \<times> 'n \<Rightarrow> esp_err \<times> 'n" where
  "persist_peer api = (\<lambda>(key, peer) (err, n).
    if err \<noteq> ESP_OK then (err, n)
    else if np_enabled peer \<and> np_server peer \<noteq> [] then cn_set api key (NvStr (np_server peer)) n
    else and_erase api key (err, n))"

definition persist_config :: "'n cfg_nvs \<Rightarrow> stored_config \<Rightarrow> 'n \<Rightarrow> esp_err \<times> 'n" where
  "persist_config api config n =
    (let (err, n1) = cn_open api True n in
     if err \<noteq> ESP_OK then (err, n1)
     else
       let r = cn_set api KEY_SCHEMA (NvU32 (dc_schema_version config)) n1;
           r = if_ok (cn_set api KEY_GENERATION (NvU32 (dc_generation config))) r;
           r = if_ok (cn_set api KEY_HOSTNAME (NvStr (dc_hostname config))) r;
           r = persist_cloudflare api config r;
           r = if_ok (cn_set api KEY_PEER_ENABLED (NvU8 (if dc_ntp_peer_monitor_enabled config then 1 else 0))) r;
           r = if_ok (cn_set api KEY_PEER_POLL (NvU32 (dc_ntp_peer_poll_interval_seconds config))) r;
           r = if_ok (cn_set api KEY_PEER_TIMEOUT (NvU32 (dc_ntp_peer_response_timeout_ms config))) r;
           r = fold (persist_peer api) (zip peer_keys (dc_ntp_peers config)) r
       in if_ok (cn_commit api) r)"

definition ok_or :: "'a \<Rightarrow> esp_err \<times> 'a \<Rightarrow> 'a" where
  "ok_or d r = (if fst r = ESP_OK then snd r else d)"

text \<open>The defaults of the peer monitor, put into a configuration read from storage.\<close>

definition peer_defaults :: "u32 \<Rightarrow> bytes \<Rightarrow> stored_config" where
  "peer_defaults generation hostname = zero_config\<lparr> dc_schema_version := APP_DEVICE_CONFIG_SCHEMA_VERSION,
     dc_generation := generation, dc_hostname := lowercase hostname, dc_ntp_peer_monitor_enabled := False,
     dc_ntp_peer_poll_interval_seconds := APP_NTP_PEER_POLL_DEFAULT_SECONDS,
     dc_ntp_peer_response_timeout_ms := APP_NTP_PEER_TIMEOUT_DEFAULT_MS \<rparr>"

definition load_cloudflare :: "'n cfg_nvs \<Rightarrow> 'n \<Rightarrow> stored_config \<Rightarrow> stored_config" where
  "load_cloudflare api n config =
    (let (zone_err, zone) = cn_get_str api KEY_CF_ZONE_NAME (APP_CLOUDFLARE_ZONE_NAME_MAX_LENGTH + 1) n;
         (id_err, zone_id) = cn_get_str api KEY_CF_ZONE_ID (APP_CLOUDFLARE_ZONE_ID_LENGTH + 1) n;
         (token_err, token) = cn_get_str api KEY_CF_API_TOKEN (APP_CLOUDFLARE_API_TOKEN_MAX_LENGTH + 1) n
     in if zone_err = ESP_OK \<and> id_err = ESP_OK \<and> token_err = ESP_OK \<and>
           device_config_cloudflare_zone_is_valid zone \<and> zone_id_is_valid zone_id \<and> api_token_is_valid token
        then config\<lparr> dc_cloudflare_configured := True, dc_cloudflare_zone_name := lowercase zone,
               dc_cloudflare_zone_id := zone_id, sc_cloudflare_api_token := token \<rparr>
        else config)"

definition load_peer :: "'n cfg_nvs \<Rightarrow> 'n \<Rightarrow> string \<Rightarrow> device_config_ntp_peer" where
  "load_peer api n key =
    (let (err, server) = cn_get_str api key (APP_NTP_PEER_SERVER_MAX_LENGTH + 1) n
     in if err = ESP_OK \<and> device_config_ntp_peer_server_is_valid server
        then \<lparr>np_enabled = True, np_server = lowercase server\<rparr> else no_peer)"

definition load_peers :: "'n cfg_nvs \<Rightarrow> 'n \<Rightarrow> stored_config \<Rightarrow> stored_config \<times> 'n" where
  "load_peers api n config =
    (let (open_err, n1) = cn_open api False n;
         opened = (open_err = ESP_OK);
         peer_enabled = (if opened then ok_or 0 (cn_get_u8 api KEY_PEER_ENABLED n1) else 0);
         peer_poll = (if opened then ok_or APP_NTP_PEER_POLL_DEFAULT_SECONDS (cn_get_u32 api KEY_PEER_POLL n1)
                      else APP_NTP_PEER_POLL_DEFAULT_SECONDS);
         peer_timeout = (if opened then ok_or APP_NTP_PEER_TIMEOUT_DEFAULT_MS (cn_get_u32 api KEY_PEER_TIMEOUT n1)
                         else APP_NTP_PEER_TIMEOUT_DEFAULT_MS);
         config = (if opened then config\<lparr>dc_ntp_peers := map (load_peer api n1) peer_keys\<rparr> else config);
         config = config\<lparr>dc_ntp_peer_monitor_enabled := peer_enabled \<noteq> 0\<rparr>;
         config = (if peer_poll \<ge> APP_NTP_PEER_POLL_MIN_SECONDS \<and> peer_poll \<le> APP_NTP_PEER_POLL_MAX_SECONDS
                   then config\<lparr>dc_ntp_peer_poll_interval_seconds := peer_poll\<rparr> else config);
         config = (if peer_timeout \<ge> APP_NTP_PEER_TIMEOUT_MIN_MS \<and> peer_timeout \<le> APP_NTP_PEER_TIMEOUT_MAX_MS
                   then config\<lparr>dc_ntp_peer_response_timeout_ms := peer_timeout\<rparr> else config)
     in (config, n1))"

text \<open>The end of a migration: the configuration as it is now is written back.\<close>

definition migrate :: "'n cfg_nvs \<Rightarrow> stored_config \<Rightarrow> 'n \<Rightarrow> (esp_err + stored_config option) \<times> 'n" where
  "migrate api config n =
    (let (err, n1) = persist_config api config n in (if err = ESP_OK then Inr (Some config) else Inl err, n1))"

text \<open>\<open>Inr None\<close> asks for the defaults.\<close>

definition load_config :: "'n cfg_nvs \<Rightarrow> 'n \<Rightarrow> (esp_err + stored_config option) \<times> 'n" where
  "load_config api n =
    (let (err, n1) = cn_open api False n in
     if err = ESP_ERR_NVS_NOT_FOUND then (Inr None, n1)
     else if err \<noteq> ESP_OK then (Inl err, n1)
     else
       let (err, schema) = cn_get_u32 api KEY_SCHEMA n1;
           (hostname_err, hostname) = cn_get_str api KEY_HOSTNAME (APP_DEVICE_HOSTNAME_MAX_LENGTH + 1) n1;
           (generation_err, generation) = cn_get_u32 api KEY_GENERATION n1
       in if err = ESP_ERR_NVS_NOT_FOUND then
            (if hostname_err \<noteq> ESP_OK \<or> \<not> device_config_hostname_is_valid hostname then (Inr None, n1)
             else migrate api (peer_defaults 1 hostname) n1)
          else if err \<noteq> ESP_OK then (Inl err, n1)
          else if schema \<noteq> 1 \<and> schema \<noteq> 2 \<and> schema \<noteq> APP_DEVICE_CONFIG_SCHEMA_VERSION then (Inl ESP_ERR_INVALID_VERSION, n1)
          else if generation_err \<noteq> ESP_OK \<or> hostname_err \<noteq> ESP_OK \<or> generation = 0 \<or>
                  \<not> device_config_hostname_is_valid hostname then (Inr None, n1)
          else
            let config = peer_defaults generation hostname in
            if schema = 1 then migrate api config n1
            else
              let config = load_cloudflare api n1 config in
              if schema = 2 then migrate api config n1
              else (let (config, n2) = load_peers api n1 config in (Inr (Some config), n2)))"

subsection \<open>The service\<close>

record 'n config_sys =
  cs_lock :: bool
  cs_initialized :: bool
  cs_config :: stored_config
  cs_nvs :: 'n
  cs_app :: app_state

definition config_boot :: "'n \<Rightarrow> app_state \<Rightarrow> 'n config_sys" where
  "config_boot n app = \<lparr>cs_lock = False, cs_initialized = False, cs_config = zero_config, cs_nvs = n, cs_app = app\<rparr>"

text \<open>\<open>mutex\<close> says that the mutex could be created.\<close>

definition device_config_init :: "'n cfg_nvs \<Rightarrow> bool \<Rightarrow> 'n config_sys \<Rightarrow> esp_err \<times> 'n config_sys" where
  "device_config_init api mutex s =
    (if cs_initialized s then (ESP_OK, s)
     else if \<not> device_config_hostname_is_valid APP_DEVICE_HOSTNAME_DEFAULT then (ESP_ERR_INVALID_ARG, s)
     else if \<not> mutex then (ESP_ERR_NO_MEM, s\<lparr>cs_lock := False\<rparr>)
     else
       let (loaded, n1) = load_config api (cs_nvs s);
           ready = (\<lambda>config n. (ESP_OK, s\<lparr> cs_lock := True, cs_config := config, cs_initialized := True, cs_nvs := n,
             cs_app := app_state_set_device_hostname (Some (dc_hostname config)) (cs_app s) \<rparr>));
           fail = (\<lambda>err n. (err, s\<lparr>cs_lock := False, cs_nvs := n\<rparr>))
       in case loaded of
            Inl err \<Rightarrow> fail err n1
          | Inr (Some config) \<Rightarrow> ready config n1
          | Inr None \<Rightarrow>
              let (err, n2) = persist_config api make_default_config n1
              in if err \<noteq> ESP_OK then fail err n2 else ready make_default_config n2)"

definition device_config_get_snapshot :: "'n config_sys \<Rightarrow> esp_err + device_config_snapshot" where
  "device_config_get_snapshot s =
    (if \<not> cs_initialized s \<or> \<not> cs_lock s then Inl ESP_ERR_INVALID_STATE
     else Inr (device_config_snapshot.truncate (cs_config s)))"

text \<open>The host name with its NUL must fit the buffer; \<open>None\<close> is the NULL buffer.\<close>

definition device_config_get_hostname :: "nat option \<Rightarrow> 'n config_sys \<Rightarrow> esp_err + bytes" where
  "device_config_get_hostname buffer_size s =
    (case buffer_size of None \<Rightarrow> Inl ESP_ERR_INVALID_ARG
     | Some n \<Rightarrow>
         if n = 0 then Inl ESP_ERR_INVALID_ARG
         else case device_config_get_snapshot s of
                Inl err \<Rightarrow> Inl err
              | Inr snapshot \<Rightarrow> if n < length (dc_hostname snapshot) + 1 then Inl ESP_ERR_INVALID_SIZE else Inr (dc_hostname snapshot))"

record cloudflare_credentials =
  cc_api_token :: bytes
  cc_zone_name :: bytes
  cc_zone_id :: bytes

definition device_config_get_cloudflare_credentials :: "'n config_sys \<Rightarrow> esp_err \<times> cloudflare_credentials" where
  "device_config_get_cloudflare_credentials s =
    (let zero = \<lparr>cc_api_token = [], cc_zone_name = [], cc_zone_id = []\<rparr> in
     if \<not> cs_initialized s \<or> \<not> cs_lock s then (ESP_ERR_INVALID_STATE, zero)
     else if \<not> dc_cloudflare_configured (cs_config s) then (ESP_ERR_NOT_FOUND, zero)
     else (ESP_OK, \<lparr> cc_api_token = take APP_CLOUDFLARE_API_TOKEN_MAX_LENGTH (sc_cloudflare_api_token (cs_config s)),
             cc_zone_name = take APP_CLOUDFLARE_ZONE_NAME_MAX_LENGTH (dc_cloudflare_zone_name (cs_config s)),
             cc_zone_id = take APP_CLOUDFLARE_ZONE_ID_LENGTH (dc_cloudflare_zone_id (cs_config s)) \<rparr>))"

definition next_generation :: "u32 \<Rightarrow> u32" where
  "next_generation generation = (let g = generation + 1 in if g = 0 then 1 else g)"

text \<open>A candidate is taken over once it is in storage.\<close>

definition commit_candidate :: "'n cfg_nvs \<Rightarrow> stored_config \<Rightarrow> 'n config_sys \<Rightarrow> esp_err \<times> 'n config_sys" where
  "commit_candidate api candidate s =
    (let candidate = candidate\<lparr>dc_generation := next_generation (dc_generation candidate)\<rparr>;
         (err, n1) = persist_config api candidate (cs_nvs s); s1 = s\<lparr>cs_nvs := n1\<rparr>
     in (err, if err = ESP_OK then s1\<lparr>cs_config := candidate\<rparr> else s1))"

definition device_config_set_hostname :: "'n cfg_nvs \<Rightarrow> bytes \<Rightarrow> 'n config_sys \<Rightarrow> esp_err \<times> 'n config_sys" where
  "device_config_set_hostname api hostname s =
    (if \<not> cs_initialized s \<or> \<not> cs_lock s then (ESP_ERR_INVALID_STATE, s)
     else if \<not> device_config_hostname_is_valid hostname then (ESP_ERR_INVALID_ARG, s)
     else
       let normalized = lowercase (take APP_DEVICE_HOSTNAME_MAX_LENGTH hostname) in
       if normalized = dc_hostname (cs_config s) then (ESP_OK, s)
       else
         let (err, s1) = commit_candidate api
               ((cs_config s)\<lparr>dc_hostname := take APP_DEVICE_HOSTNAME_MAX_LENGTH normalized\<rparr>) s
         in if err \<noteq> ESP_OK then (err, s1)
            else (ESP_OK, s1\<lparr>cs_app := app_state_set_device_hostname (Some (dc_hostname (cs_config s1))) (cs_app s1)\<rparr>))"

definition device_config_set_cloudflare ::
    "'n cfg_nvs \<Rightarrow> bytes \<Rightarrow> bytes \<Rightarrow> bytes \<Rightarrow> 'n config_sys \<Rightarrow> esp_err \<times> 'n config_sys" where
  "device_config_set_cloudflare api api_token zone_name zone_id s =
    (if \<not> cs_initialized s \<or> \<not> cs_lock s then (ESP_ERR_INVALID_STATE, s)
     else if \<not> api_token_is_valid api_token \<or> \<not> device_config_cloudflare_zone_is_valid zone_name \<or>
             \<not> zone_id_is_valid zone_id then (ESP_ERR_INVALID_ARG, s)
     else
       let normalized_zone = lowercase (take APP_CLOUDFLARE_ZONE_NAME_MAX_LENGTH zone_name)
       in commit_candidate api
            ((cs_config s)\<lparr> dc_cloudflare_configured := True,
               dc_cloudflare_zone_name := take APP_CLOUDFLARE_ZONE_NAME_MAX_LENGTH normalized_zone,
               dc_cloudflare_zone_id := take APP_CLOUDFLARE_ZONE_ID_LENGTH zone_id,
               sc_cloudflare_api_token := take APP_CLOUDFLARE_API_TOKEN_MAX_LENGTH api_token \<rparr>) s)"

definition device_config_clear_cloudflare :: "'n cfg_nvs \<Rightarrow> 'n config_sys \<Rightarrow> esp_err \<times> 'n config_sys" where
  "device_config_clear_cloudflare api s =
    (if \<not> cs_initialized s \<or> \<not> cs_lock s then (ESP_ERR_INVALID_STATE, s)
     else if \<not> dc_cloudflare_configured (cs_config s) then (ESP_OK, s)
     else commit_candidate api
            ((cs_config s)\<lparr> dc_cloudflare_configured := False, dc_cloudflare_zone_name := [],
               dc_cloudflare_zone_id := [], sc_cloudflare_api_token := [] \<rparr>) s)"

text \<open>The caller's array has the four slots; the loops end there.\<close>

definition device_config_set_ntp_peer_monitor ::
    "'n cfg_nvs \<Rightarrow> bool \<Rightarrow> u32 \<Rightarrow> u32 \<Rightarrow> device_config_ntp_peer list \<Rightarrow> 'n config_sys \<Rightarrow> esp_err \<times> 'n config_sys" where
  "device_config_set_ntp_peer_monitor api enabled poll_interval_seconds response_timeout_ms peers s =
    (if \<not> cs_initialized s \<or> \<not> cs_lock s then (ESP_ERR_INVALID_STATE, s)
     else if poll_interval_seconds < APP_NTP_PEER_POLL_MIN_SECONDS \<or> poll_interval_seconds > APP_NTP_PEER_POLL_MAX_SECONDS \<or>
             response_timeout_ms < APP_NTP_PEER_TIMEOUT_MIN_MS \<or> response_timeout_ms > APP_NTP_PEER_TIMEOUT_MAX_MS
     then (ESP_ERR_INVALID_ARG, s)
     else if \<exists>p \<in> set (take APP_NTP_PEER_MAX_COUNT peers). np_enabled p \<and> \<not> device_config_ntp_peer_server_is_valid (np_server p)
     then (ESP_ERR_INVALID_ARG, s)
     else commit_candidate api
            ((cs_config s)\<lparr> dc_ntp_peer_monitor_enabled := enabled,
               dc_ntp_peer_poll_interval_seconds := poll_interval_seconds,
               dc_ntp_peer_response_timeout_ms := response_timeout_ms,
               dc_ntp_peers := map (\<lambda>p. if np_enabled p
                   then \<lparr>np_enabled = True, np_server = lowercase (take APP_NTP_PEER_SERVER_MAX_LENGTH (np_server p))\<rparr>
                   else no_peer) (take APP_NTP_PEER_MAX_COUNT peers) \<rparr>) s)"

end
