(* ===== verification/Device_Config_Theory.thy ===== *)
theory Device_Config_Theory
  imports Device_Config
begin

text \<open>
  What the configuration promises. Zone names are exactly the dotted names of a grammar. Whatever NVS answers, the
  configuration in memory is well formed, and the host name published is its host name. On storage that keeps its
  documented promises, a configuration whose changes were all confirmed is the one a restart loads.
\<close>

subsection \<open>Characters and case\<close>

lemma tolower_c_value: "uint (tolower_c c) = (if isupper_c c then uint c + 32 else uint c)"
proof -
  have "uint (c + 0x20) = uint c + 32" if "isupper_c c"
    using that by (simp add: isupper_c_def word_le_def uint_word_ariths)
  then show ?thesis by (simp add: tolower_c_def)
qed

lemma tolower_c_facts [simp]:
  "tolower_c (tolower_c c) = tolower_c c" "isalnum_c (tolower_c c) = isalnum_c c"
  "tolower_c c = hyphen \<longleftrightarrow> c = hyphen" "tolower_c c = dot \<longleftrightarrow> c = dot" "tolower_c dot = dot" "tolower_c hyphen = hyphen"
  by (auto simp: isalnum_c_def isupper_c_def islower_c_def isdigit_c_def word_le_def word_uint_eq_iff tolower_c_value)

lemma not_alnum [simp]: "\<not> isalnum_c dot" "\<not> isalnum_c hyphen" "\<not> isalnum_c 0"
  by (simp_all add: isalnum_c_def isupper_c_def islower_c_def isdigit_c_def)

lemma lowercase_simps [simp]:
  "length (lowercase s) = length s" "lowercase (lowercase s) = lowercase s" "lowercase s = [] \<longleftrightarrow> s = []"
  "lowercase [] = []"
  by (simp_all add: lowercase_def)

lemma hostname_valid_lowercase [simp]: "device_config_hostname_is_valid (lowercase s) = device_config_hostname_is_valid s"
  by (auto simp: device_config_hostname_is_valid_def lowercase_def list_all_iff)

lemma server_valid_lowercase [simp]:
  "device_config_ntp_peer_server_is_valid (lowercase s) = device_config_ntp_peer_server_is_valid s"
  by (auto simp: device_config_ntp_peer_server_is_valid_def lowercase_def list_all_iff)

lemma zone_labels_lowercase: "zone_labels (map tolower_c s) n f (tolower_c p) = zone_labels s n f p"
proof (induction s arbitrary: n f p)
  case (Cons c s)
  have "zone_labels (map tolower_c s) 0 True dot = zone_labels s 0 True dot" using Cons.IH [of 0 True dot] by simp
  moreover have "zone_labels (map tolower_c s) m b hyphen = zone_labels s m b hyphen" for m b using Cons.IH [of m b hyphen] by simp
  ultimately show ?case by (auto simp: Cons.IH)
qed simp

lemma zone_valid_lowercase [simp]:
  "device_config_cloudflare_zone_is_valid (lowercase s) = device_config_cloudflare_zone_is_valid s"
proof -
  have "tolower_c 0 = 0" by (simp add: tolower_c_def isupper_c_def)
  then show ?thesis using zone_labels_lowercase [of s 0 True 0]
    by (auto simp: device_config_cloudflare_zone_is_valid_def lowercase_def)
qed

lemma valid_lengths:
  "device_config_hostname_is_valid h \<Longrightarrow> 0 < length h \<and> length h \<le> APP_DEVICE_HOSTNAME_MAX_LENGTH"
  "device_config_cloudflare_zone_is_valid z \<Longrightarrow> length z \<le> APP_CLOUDFLARE_ZONE_NAME_MAX_LENGTH"
  "device_config_ntp_peer_server_is_valid v \<Longrightarrow> v \<noteq> [] \<and> length v \<le> APP_NTP_PEER_SERVER_MAX_LENGTH"
  "api_token_is_valid t \<Longrightarrow> length t \<le> APP_CLOUDFLARE_API_TOKEN_MAX_LENGTH"
  "zone_id_is_valid i \<Longrightarrow> length i = APP_CLOUDFLARE_ZONE_ID_LENGTH"
  by (auto simp: device_config_hostname_is_valid_def device_config_cloudflare_zone_is_valid_def
      device_config_ntp_peer_server_is_valid_def api_token_is_valid_def zone_id_is_valid_def split: if_splits)

subsection \<open>The grammar of zone names\<close>

definition label_char :: "u8 \<Rightarrow> bool" where
  "label_char c \<longleftrightarrow> isalnum_c c \<or> c = hyphen"

definition label_ok :: "bytes \<Rightarrow> bool" where
  "label_ok l \<longleftrightarrow> l \<noteq> [] \<and> length l \<le> 63 \<and> list_all label_char l \<and> hd l \<noteq> hyphen \<and> last l \<noteq> hyphen"

fun dotted :: "bytes list \<Rightarrow> bytes" where
  "dotted [] = []"
| "dotted [l] = l"
| "dotted (l # ls) = l @ dot # dotted ls"

lemma label_char_dot [simp]: "\<not> label_char dot"
  by (simp add: label_char_def)

lemma label_no_dot: "label_ok l \<Longrightarrow> dot \<notin> set l"
  by (auto simp: label_ok_def list_all_iff)

lemma dotted_Cons: "dotted (l # ls) = l @ (if ls = [] then [] else dot # dotted ls)"
  by (cases ls) simp_all

definition zone_name :: "bytes \<Rightarrow> bool" where
  "zone_name z \<longleftrightarrow> (\<exists>ls. ls \<noteq> [] \<and> list_all label_ok ls \<and> z = dotted ls)"

lemma dotless_prefix: "q @ r = l @ t \<Longrightarrow> dot \<notin> set q \<Longrightarrow> t = [] \<or> hd t = dot \<Longrightarrow> \<exists>s. l = q @ s"
  by (auto simp: append_eq_append_conv2 Cons_eq_append_conv) (metis hd_append2 list.set_sel(1) append.right_neutral hd_in_set)

lemma zone_name_prefix:
  assumes "zone_name (q @ r)" "dot \<notin> set q"
  shows "list_all label_char q" "length q \<le> 63" "q \<noteq> [] \<Longrightarrow> hd q \<noteq> hyphen"
proof -
  obtain l ls where z: "label_ok l" "q @ r = dotted (l # ls)"
    using assms(1) by (auto simp: zone_name_def neq_Nil_conv)
  obtain s where "l = q @ s" using dotless_prefix [OF z(2) [unfolded dotted_Cons] assms(2)] by (cases "ls = []") auto
  then show "list_all label_char q" "length q \<le> 63" "q \<noteq> [] \<Longrightarrow> hd q \<noteq> hyphen"
    using z(1) by (auto simp: label_ok_def)
qed

lemma zone_name_last: "dot \<notin> set q \<Longrightarrow> zone_name q \<longleftrightarrow> label_ok q"
proof
  assume q: "dot \<notin> set q" and "zone_name q"
  then obtain l ls where "label_ok l" "q = dotted (l # ls)" by (auto simp: zone_name_def neq_Nil_conv)
  then show "label_ok q" using q by (auto simp: dotted_Cons split: if_splits)
next
  assume "label_ok q"
  then show "zone_name q" unfolding zone_name_def by (intro exI [of _ "[q]"]) simp
qed

lemma first_separator: "d \<notin> set q \<Longrightarrow> d \<notin> set l \<Longrightarrow> q @ d # r = l @ d # t \<longleftrightarrow> q = l \<and> r = t"
proof (induction q arbitrary: l)
  case Nil
  then show ?case by (cases l) auto
next
  case (Cons x q)
  then show ?case by (cases l) auto
qed

lemma zone_name_dot: "dot \<notin> set q \<Longrightarrow> zone_name (q @ dot # r) \<longleftrightarrow> label_ok q \<and> zone_name r"
proof
  assume q: "dot \<notin> set q" and "zone_name (q @ dot # r)"
  then obtain l ls where z: "label_ok l" "list_all label_ok ls" "q @ dot # r = dotted (l # ls)"
    by (auto simp: zone_name_def neq_Nil_conv)
  have l: "dot \<notin> set l" using z(1) by (rule label_no_dot)
  have "ls \<noteq> []" using z(3) l by auto
  then have "q @ dot # r = l @ dot # dotted ls" using z(3) by (simp add: dotted_Cons)
  then have "q = l" "r = dotted ls" using first_separator [of dot q l] q l by auto
  then show "label_ok q \<and> zone_name r" using z \<open>ls \<noteq> []\<close> by (auto simp: zone_name_def)
next
  assume "label_ok q \<and> zone_name r"
  then obtain ls where ls: "ls \<noteq> []" "list_all label_ok (q # ls)" "r = dotted ls" by (auto simp: zone_name_def)
  then show "zone_name (q @ dot # r)" unfolding zone_name_def by (intro exI [of _ "q # ls"]) (simp add: dotted_Cons)
qed

text \<open>The loop inside a label: \<open>q\<close> is the part of it already read.\<close>

lemma zone_labels_grammar:
  assumes "list_all label_char q" "length q \<le> 63" "q \<noteq> [] \<Longrightarrow> hd q \<noteq> hyphen"
    and "p = (if q = [] then p else last q)" "q = [] \<Longrightarrow> p \<noteq> hyphen"
  shows "zone_labels cs (length q) (q = []) p \<longleftrightarrow> zone_name (q @ cs)"
  using assms
proof (induction cs arbitrary: q p)
  case Nil
  have "dot \<notin> set q" using Nil.prems(1) by (auto simp: list_all_iff)
  then show ?case using Nil.prems by (auto simp: zone_name_last label_ok_def)
next
  case (Cons c cs)
  have q: "dot \<notin> set q" using Cons.prems(1) by (auto simp: list_all_iff)
  show ?case
  proof (cases "c = dot")
    case True
    have "zone_labels cs 0 True dot \<longleftrightarrow> zone_name cs" using Cons.IH [of "[]" dot] by simp
    moreover have "label_ok q \<longleftrightarrow> \<not> (length q = 0 \<or> p = hyphen)" using Cons.prems by (auto simp: label_ok_def)
    ultimately show ?thesis using True by (simp add: zone_name_dot [OF q])
  next
    case False
    let ?q = "q @ [c]"
    have q': "dot \<notin> set ?q" using q False by simp
    note pre = zone_name_prefix [of ?q cs, OF _ q']
    show ?thesis
    proof (cases "label_char c \<and> \<not> (q = [] \<and> c = hyphen) \<and> length q + 1 \<le> 63")
      case ok: True
      have "zone_labels cs (length ?q) (?q = []) c \<longleftrightarrow> zone_name (?q @ cs)"
        using Cons.prems ok by (intro Cons.IH) (auto simp: hd_append)
      then show ?thesis using False ok by (auto simp: label_char_def)
    next
      case bad: False
      then have "\<not> zone_labels (c # cs) (length q) (q = []) p" using False by (auto simp: label_char_def)
      moreover have "\<not> zone_name (q @ c # cs)" using pre bad by (auto simp: hd_append split: if_splits)
      ultimately show ?thesis by blast
    qed
  qed
qed

lemma zone_valid_grammar:
  "device_config_cloudflare_zone_is_valid z \<longleftrightarrow> length z \<le> 253 \<and> (\<exists>ls. ls \<noteq> [] \<and> list_all label_ok ls \<and> z = dotted ls)"
proof -
  have g: "zone_labels z 0 True 0 \<longleftrightarrow> zone_name z" using zone_labels_grammar [of "[]" 0 z] by simp
  have ends: "z \<noteq> [] \<and> z ! 0 \<noteq> dot \<and> z ! (length z - 1) \<noteq> dot" if "zone_name z"
  proof -
    have "z \<noteq> []" using that zone_name_last [of "[]"] by (auto simp: label_ok_def)
    moreover have "hd z \<noteq> dot" using that zone_name_dot [of "[]" "tl z"] \<open>z \<noteq> []\<close> by (auto simp: label_ok_def neq_Nil_conv)
    moreover have "last z \<noteq> dot"
    proof
      assume "last z = dot"
      have "\<not> zone_labels w n f p" if "w \<noteq> []" "last w = dot" for w n f p
        using that by (induction w n f p rule: zone_labels.induct) (auto split: if_splits)
      then show False using g \<open>zone_name z\<close> \<open>z \<noteq> []\<close> \<open>last z = dot\<close> by blast
    qed
    ultimately show ?thesis by (simp add: hd_conv_nth last_conv_nth)
  qed
  show ?thesis unfolding zone_name_def [symmetric]
    using g ends by (auto simp: device_config_cloudflare_zone_is_valid_def APP_CLOUDFLARE_ZONE_NAME_MAX_LENGTH_def)
qed

text \<open>
  A zone name is accepted exactly when it is a list of labels joined by dots, of at most 253 octets in all, each label
  of one to 63 letters, digits and hyphens that neither begins nor ends with a hyphen.
\<close>
theorem zone_grammar:
  "device_config_cloudflare_zone_is_valid z \<longleftrightarrow> length z \<le> 253 \<and> (\<exists>ls. ls \<noteq> [] \<and> list_all label_ok ls \<and> z = dotted ls)"
  by (rule zone_valid_grammar)

subsection \<open>Well-formed configurations\<close>

definition peer_ok :: "device_config_ntp_peer \<Rightarrow> bool" where
  "peer_ok p \<longleftrightarrow> (if np_enabled p then device_config_ntp_peer_server_is_valid (np_server p) \<and> lowercase (np_server p) = np_server p
                  else np_server p = [])"

definition cloudflare_ok :: "stored_config \<Rightarrow> bool" where
  "cloudflare_ok c \<longleftrightarrow>
    (if dc_cloudflare_configured c then
       device_config_cloudflare_zone_is_valid (dc_cloudflare_zone_name c) \<and>
       lowercase (dc_cloudflare_zone_name c) = dc_cloudflare_zone_name c \<and> zone_id_is_valid (dc_cloudflare_zone_id c) \<and>
       api_token_is_valid (sc_cloudflare_api_token c)
     else dc_cloudflare_zone_name c = [] \<and> dc_cloudflare_zone_id c = [] \<and> sc_cloudflare_api_token c = [])"

definition config_ok :: "stored_config \<Rightarrow> bool" where
  "config_ok c \<longleftrightarrow> dc_schema_version c = APP_DEVICE_CONFIG_SCHEMA_VERSION \<and> dc_generation c \<noteq> 0 \<and>
     device_config_hostname_is_valid (dc_hostname c) \<and> lowercase (dc_hostname c) = dc_hostname c \<and> cloudflare_ok c \<and>
     APP_NTP_PEER_POLL_MIN_SECONDS \<le> dc_ntp_peer_poll_interval_seconds c \<and>
     dc_ntp_peer_poll_interval_seconds c \<le> APP_NTP_PEER_POLL_MAX_SECONDS \<and>
     APP_NTP_PEER_TIMEOUT_MIN_MS \<le> dc_ntp_peer_response_timeout_ms c \<and>
     dc_ntp_peer_response_timeout_ms c \<le> APP_NTP_PEER_TIMEOUT_MAX_MS \<and>
     length (dc_ntp_peers c) = APP_NTP_PEER_MAX_COUNT \<and> list_all peer_ok (dc_ntp_peers c)"

lemmas peer_limits = APP_NTP_PEER_POLL_MIN_SECONDS_def APP_NTP_PEER_POLL_MAX_SECONDS_def APP_NTP_PEER_POLL_DEFAULT_SECONDS_def
  APP_NTP_PEER_TIMEOUT_MIN_MS_def APP_NTP_PEER_TIMEOUT_MAX_MS_def APP_NTP_PEER_TIMEOUT_DEFAULT_MS_def

lemma peer_defaults_ok: "g \<noteq> 0 \<Longrightarrow> device_config_hostname_is_valid h \<Longrightarrow> config_ok (peer_defaults g h)"
  by (simp add: config_ok_def peer_defaults_def zero_config_def peer_limits cloudflare_ok_def no_peer_def peer_ok_def list_all_iff)

lemma default_is_peer_default: "make_default_config = peer_defaults 1 (take APP_DEVICE_HOSTNAME_MAX_LENGTH APP_DEVICE_HOSTNAME_DEFAULT)"
  by (simp add: make_default_config_def peer_defaults_def)

lemma default_hostname_valid: "device_config_hostname_is_valid APP_DEVICE_HOSTNAME_DEFAULT"
  "take APP_DEVICE_HOSTNAME_MAX_LENGTH APP_DEVICE_HOSTNAME_DEFAULT = APP_DEVICE_HOSTNAME_DEFAULT"
  by code_simp+

lemma default_ok: "config_ok make_default_config"
  unfolding default_is_peer_default default_hostname_valid(2) by (rule peer_defaults_ok) (simp_all add: default_hostname_valid)

lemma load_cloudflare_ok: "config_ok c \<Longrightarrow> config_ok (load_cloudflare api n c)"
  by (auto simp: load_cloudflare_def Let_def config_ok_def cloudflare_ok_def split: prod.splits)

lemma load_peer_ok: "peer_ok (load_peer api n k)"
  by (auto simp: load_peer_def Let_def peer_ok_def no_peer_def split: prod.splits)

lemma load_peers_ok: "config_ok c \<Longrightarrow> config_ok (fst (load_peers api n c))"
  by (auto simp: load_peers_def Let_def config_ok_def cloudflare_ok_def load_peer_ok list_all_iff peer_keys_def
      APP_NTP_PEER_MAX_COUNT_def split: prod.splits)

lemma load_peers_ok': "load_peers api n c = (c', n') \<Longrightarrow> config_ok c \<Longrightarrow> config_ok c'"
  using load_peers_ok [of c api n] by simp

lemma load_config_ok: "load_config api n = (Inr (Some c), n') \<Longrightarrow> config_ok c"
  by (auto simp: load_config_def migrate_def Let_def peer_defaults_ok load_cloudflare_ok
      dest: load_peers_ok' split: if_splits sum.splits prod.splits)

subsection \<open>Operations\<close>

datatype config_op = SetHostname bytes | SetCloudflare bytes bytes bytes | ClearCloudflare
  | SetPeers bool u32 u32 "device_config_ntp_peer list"

fun config_do :: "'n cfg_nvs \<Rightarrow> config_op \<Rightarrow> 'n config_sys \<Rightarrow> esp_err \<times> 'n config_sys" where
  "config_do api (SetHostname h) s = device_config_set_hostname api h s"
| "config_do api (SetCloudflare t z i) s = device_config_set_cloudflare api t z i s"
| "config_do api ClearCloudflare s = device_config_clear_cloudflare api s"
| "config_do api (SetPeers e p t ps) s = device_config_set_ntp_peer_monitor api e p t ps s"

fun config_run :: "'n cfg_nvs \<Rightarrow> config_op list \<Rightarrow> 'n config_sys \<Rightarrow> esp_err list \<times> 'n config_sys" where
  "config_run api [] s = ([], s)"
| "config_run api (op # ops) s =
    (let (e, s1) = config_do api op s; (es, s2) = config_run api ops s1 in (e # es, s2))"

definition op_ok :: "config_op \<Rightarrow> bool" where
  "op_ok op = (case op of SetPeers _ _ _ ps \<Rightarrow> length ps = APP_NTP_PEER_MAX_COUNT | _ \<Rightarrow> True)"

definition sys_ok :: "'n config_sys \<Rightarrow> bool" where
  "sys_ok s \<longleftrightarrow> cs_initialized s \<and> cs_lock s \<and> config_ok (cs_config s) \<and> as_device_hostname (cs_app s) = dc_hostname (cs_config s)"

lemma published_hostname:
  "device_config_hostname_is_valid h \<Longrightarrow> as_device_hostname (app_state_set_device_hostname (Some h) app) = h"
proof -
  assume h: "device_config_hostname_is_valid h"
  then have "0 \<notin> set h" by (auto simp: device_config_hostname_is_valid_def list_all_iff split: if_splits)
  then have "c_string h = h" by (auto simp: c_string_def takeWhile_eq_all_conv)
  then show ?thesis using valid_lengths(1) [OF h] by (simp add: app_state_set_device_hostname_def)
qed

lemma next_generation_nonzero [simp]: "next_generation g \<noteq> 0"
  by (simp add: next_generation_def Let_def)

text \<open>What an operation does: nothing, or a new well-formed configuration is written, and taken over if that succeeded.\<close>

definition effect :: "'n cfg_nvs \<Rightarrow> 'n config_sys \<Rightarrow> esp_err \<times> 'n config_sys \<Rightarrow> bool" where
  "effect api s r \<longleftrightarrow> snd r = s \<or>
    (\<exists>c n. config_ok c \<and> persist_config api c (cs_nvs s) = (fst r, n) \<and> cs_nvs (snd r) = n \<and>
       cs_config (snd r) = (if fst r = ESP_OK then c else cs_config s) \<and>
       (fst r \<noteq> ESP_OK \<longrightarrow> cs_app (snd r) = cs_app s) \<and> sys_ok (snd r))"

lemma commit_effect:
  assumes "sys_ok s" "config_ok (cand\<lparr>dc_generation := next_generation (dc_generation cand)\<rparr>)"
    and "dc_hostname cand = dc_hostname (cs_config s)"
  shows "effect api s (commit_candidate api cand s)"
  using assms by (auto simp: effect_def commit_candidate_def Let_def sys_ok_def split: prod.splits)

lemma set_hostname_effect: "sys_ok s \<Longrightarrow> effect api s (device_config_set_hostname api h s)"
proof (cases "device_config_hostname_is_valid h \<and> lowercase h \<noteq> dc_hostname (cs_config s)")
  case True
  assume s: "sys_ok s"
  define c where "c = (cs_config s)\<lparr> dc_hostname := lowercase h,
      dc_generation := next_generation (dc_generation (cs_config s)) \<rparr>"
  obtain err n where p: "persist_config api c (cs_nvs s) = (err, n)" by fastforce
  have l: "take APP_DEVICE_HOSTNAME_MAX_LENGTH h = h" "length h \<le> APP_DEVICE_HOSTNAME_MAX_LENGTH"
    using valid_lengths(1) [of h] True by simp_all
  have "config_ok c" using s True by (simp add: c_def sys_ok_def config_ok_def cloudflare_ok_def)
  moreover have "as_device_hostname (app_state_set_device_hostname (Some (lowercase h)) (cs_app s)) = lowercase h"
    using True by (intro published_hostname) simp
  ultimately show ?thesis using s True l p
    by (auto simp: effect_def device_config_set_hostname_def commit_candidate_def Let_def sys_ok_def c_def)
next
  case False
  assume s: "sys_ok s"
  then show ?thesis using False valid_lengths(1) [of h] by (auto simp: effect_def device_config_set_hostname_def Let_def)
qed

lemma config_do_effect:
  assumes "sys_ok s" "op_ok op"
  shows "effect api s (config_do api op s)"
proof (cases op)
  case (SetHostname h)
  then show ?thesis using set_hostname_effect [OF assms(1)] by simp
next
  case (SetCloudflare t z i)
  then show ?thesis using assms valid_lengths
    by (auto simp: device_config_set_cloudflare_def Let_def effect_def [of _ _ "(_, s)"] intro!: commit_effect)
       (auto simp: sys_ok_def config_ok_def cloudflare_ok_def)
next
  case ClearCloudflare
  then show ?thesis using assms
    by (auto simp: device_config_clear_cloudflare_def effect_def [of _ _ "(_, s)"] intro!: commit_effect)
       (auto simp: sys_ok_def config_ok_def cloudflare_ok_def)
next
  case (SetPeers e p t ps)
  then show ?thesis using assms valid_lengths(3)
    by (auto simp: device_config_set_ntp_peer_monitor_def effect_def [of _ _ "(_, s)"] intro!: commit_effect)
       (auto simp: sys_ok_def config_ok_def cloudflare_ok_def op_ok_def list_all_iff peer_ok_def no_peer_def not_less)
qed

lemma effect_sys_ok: "effect api s r \<Longrightarrow> sys_ok s \<Longrightarrow> sys_ok (snd r)"
  by (auto simp: effect_def)

lemma load_error [simp]: "load_config api n \<noteq> (Inl ESP_OK, n')"
  by (auto simp: load_config_def migrate_def Let_def split: if_splits prod.splits)

lemma config_init_sys_ok:
  assumes "device_config_init api mutex (config_boot n app) = (ESP_OK, s)"
  shows "sys_ok s"
proof -
  have h: "config_ok c \<Longrightarrow> as_device_hostname (app_state_set_device_hostname (Some (dc_hostname c)) app) = dc_hostname c" for c
    by (intro published_hostname) (simp add: config_ok_def)
  show ?thesis using assms
    by (auto simp: device_config_init_def config_boot_def Let_def sys_ok_def default_ok h
        dest: load_config_ok split: if_splits prod.splits sum.splits option.splits)
qed

lemma config_run_ok: "sys_ok s \<Longrightarrow> list_all op_ok ops \<Longrightarrow> sys_ok (snd (config_run api ops s))"
proof (induction ops arbitrary: s)
  case (Cons op ops)
  then have "sys_ok (snd (config_do api op s))" by (auto intro: effect_sys_ok config_do_effect)
  then show ?case using Cons by (simp add: case_prod_beta Let_def)
qed simp

text \<open>
  C36: whatever the storage answers, at start-up and at every change, the configuration in memory stays well formed: a valid
  lower-case host name, complete and valid DNS credentials or none, intervals within their bounds, four peers each valid or
  empty, and a generation other than zero; and the host name the device publishes is the configured one.
\<close>
theorem config_invariant:
  assumes "device_config_init api mutex (config_boot n app) = (ESP_OK, s)" and "list_all op_ok ops"
  shows "sys_ok (snd (config_run api ops s))"
  using config_run_ok [OF config_init_sys_ok [OF assms(1)] assms(2)] .

subsection \<open>Storage that keeps its promises\<close>

type_synonym nvs_view = "string \<Rightarrow> nvs_value option"

text \<open>
  The documented behaviour of NVS, on the keys and values seen by \<open>view\<close>: opening and committing change none, a call that
  reports success did its work, and an erasure that reports \<open>ESP_ERR_NVS_NOT_FOUND\<close> had nothing to do.
\<close>

definition writes_lawful :: "'n cfg_nvs \<Rightarrow> ('n \<Rightarrow> nvs_view) \<Rightarrow> bool" where
  "writes_lawful api view \<longleftrightarrow>
     (\<forall>rw n. view (snd (cn_open api rw n)) = view n) \<and>
     (\<forall>k v n n'. cn_set api k v n = (ESP_OK, n') \<longrightarrow> view n' = (view n)(k \<mapsto> v)) \<and>
     (\<forall>k n n'. cn_erase_key api k n = (ESP_OK, n') \<or> cn_erase_key api k n = (ESP_ERR_NVS_NOT_FOUND, n') \<longrightarrow>
        view n' = (view n)(k := None)) \<and>
     (\<forall>n n'. cn_commit api n = (ESP_OK, n') \<longrightarrow> view n' = view n)"

text \<open>
  A namespace that holds a key can be opened; reading returns what is there if it has the type and fits, fails where there
  is nothing, and depends on what is there only.
\<close>

definition reads_lawful :: "'n cfg_nvs \<Rightarrow> ('n \<Rightarrow> nvs_view) \<Rightarrow> bool" where
  "reads_lawful api view \<longleftrightarrow>
     (\<forall>n. (\<exists>k. view n k \<noteq> None) \<longrightarrow> fst (cn_open api False n) = ESP_OK) \<and>
     (\<forall>k x n. view n k = Some (NvU8 x) \<longrightarrow> cn_get_u8 api k n = (ESP_OK, x)) \<and>
     (\<forall>k x n. view n k = Some (NvU32 x) \<longrightarrow> cn_get_u32 api k n = (ESP_OK, x)) \<and>
     (\<forall>k x n m. view n k = Some (NvStr x) \<and> length x < m \<longrightarrow> cn_get_str api k m n = (ESP_OK, x)) \<and>
     (\<forall>k m n. view n k = None \<longrightarrow> fst (cn_get_u32 api k n) \<noteq> ESP_OK \<and> fst (cn_get_str api k m n) \<noteq> ESP_OK) \<and>
     (\<forall>n n'. view n = view n' \<longrightarrow> (\<forall>k. cn_get_u8 api k n = cn_get_u8 api k n' \<and> cn_get_u32 api k n = cn_get_u32 api k n' \<and>
        (\<forall>m. cn_get_str api k m n = cn_get_str api k m n')))"

lemma writesD:
  assumes "writes_lawful api view"
  shows "view (snd (cn_open api rw n)) = view n"
    "cn_set api k v n = (ESP_OK, n') \<Longrightarrow> view n' = (view n)(k \<mapsto> v)"
    "cn_erase_key api k n = (ESP_OK, n') \<Longrightarrow> view n' = (view n)(k := None)"
    "cn_erase_key api k n = (ESP_ERR_NVS_NOT_FOUND, n') \<Longrightarrow> view n' = (view n)(k := None)"
    "cn_commit api n = (ESP_OK, n') \<Longrightarrow> view n' = view n"
  using assms by (auto simp: writes_lawful_def)

text \<open>The keys of a configuration.\<close>

definition peer_view :: "device_config_ntp_peer \<Rightarrow> nvs_value option" where
  "peer_view p = (if np_enabled p \<and> np_server p \<noteq> [] then Some (NvStr (np_server p)) else None)"

definition represents :: "nvs_view \<Rightarrow> stored_config \<Rightarrow> bool" where
  "represents v c \<longleftrightarrow>
     v KEY_SCHEMA = Some (NvU32 (dc_schema_version c)) \<and> v KEY_GENERATION = Some (NvU32 (dc_generation c)) \<and>
     v KEY_HOSTNAME = Some (NvStr (dc_hostname c)) \<and>
     v KEY_CF_ZONE_NAME = (if dc_cloudflare_configured c then Some (NvStr (dc_cloudflare_zone_name c)) else None) \<and>
     v KEY_CF_ZONE_ID = (if dc_cloudflare_configured c then Some (NvStr (dc_cloudflare_zone_id c)) else None) \<and>
     v KEY_CF_API_TOKEN = (if dc_cloudflare_configured c then Some (NvStr (sc_cloudflare_api_token c)) else None) \<and>
     v KEY_PEER_ENABLED = Some (NvU8 (if dc_ntp_peer_monitor_enabled c then 1 else 0)) \<and>
     v KEY_PEER_POLL = Some (NvU32 (dc_ntp_peer_poll_interval_seconds c)) \<and>
     v KEY_PEER_TIMEOUT = Some (NvU32 (dc_ntp_peer_response_timeout_ms c)) \<and>
     map v peer_keys = map peer_view (dc_ntp_peers c)"

lemmas config_keys = KEY_SCHEMA_def KEY_GENERATION_def KEY_HOSTNAME_def KEY_CF_ZONE_NAME_def KEY_CF_ZONE_ID_def
  KEY_CF_API_TOKEN_def KEY_PEER_ENABLED_def KEY_PEER_POLL_def KEY_PEER_TIMEOUT_def peer_keys_def

text \<open>Each step of writing: what must have succeeded before it, and what it leaves.\<close>

lemma if_ok_set:
  assumes "if_ok (cn_set api k v) r = (ESP_OK, n')" "writes_lawful api view"
  obtains m where "r = (ESP_OK, m)" "view n' = (view m)(k \<mapsto> v)"
  using assms by (cases r) (auto simp: if_ok_def split: if_splits dest: writesD(2))

lemma and_erase_ok:
  assumes "and_erase api k r = (ESP_OK, n')" "writes_lawful api view"
  obtains m where "r = (ESP_OK, m)" "view n' = (view m)(k := None)"
proof (cases r)
  case (Pair e m)
  obtain ee n1 where c: "cn_erase_key api k m = (ee, n1)" by fastforce
  then have "e = ESP_OK" "ee = ESP_OK \<or> ee = ESP_ERR_NVS_NOT_FOUND" "n1 = n'"
    using assms(1) Pair by (auto simp: and_erase_def split: if_splits)
  then show ?thesis using that [of m] c Pair writesD(3,4) [OF assms(2)] by auto
qed

lemma persist_peer_ok:
  assumes "persist_peer api (k, p) r = (ESP_OK, n')" "writes_lawful api view"
  obtains m where "r = (ESP_OK, m)" "view n' = (view m)(k := peer_view p)"
proof (cases "np_enabled p \<and> np_server p \<noteq> []")
  case True
  then have "if_ok (cn_set api k (NvStr (np_server p))) r = (ESP_OK, n')"
    using assms(1) by (auto simp: persist_peer_def if_ok_def split: prod.splits if_splits)
  then show ?thesis using that True by (auto elim: if_ok_set [OF _ assms(2)] simp: peer_view_def)
next
  case False
  then have "and_erase api k r = (ESP_OK, n')"
    using assms(1) by (auto simp: persist_peer_def split: prod.splits if_splits)
  then show ?thesis using that False by (auto elim: and_erase_ok [OF _ assms(2)] simp: peer_view_def)
qed

definition put_peer :: "string \<times> device_config_ntp_peer \<Rightarrow> nvs_view \<Rightarrow> nvs_view" where
  "put_peer kp v = v(fst kp := peer_view (snd kp))"

lemma persist_peers_ok:
  assumes "fold (persist_peer api) kps r = (ESP_OK, n')" "writes_lawful api view"
  shows "\<exists>m. r = (ESP_OK, m) \<and> view n' = fold put_peer kps (view m)"
  using assms(1)
proof (induction kps arbitrary: r)
  case (Cons kp kps)
  obtain k p where kp: "kp = (k, p)" by fastforce
  obtain m where m: "persist_peer api kp r = (ESP_OK, m)" "view n' = fold put_peer kps (view m)"
    using Cons.IH [of "persist_peer api kp r"] Cons.prems by auto
  obtain m0 where "r = (ESP_OK, m0)" "view m = (view m0)(k := peer_view p)"
    using persist_peer_ok [OF m(1) [unfolded kp] assms(2)] .
  moreover from this have "put_peer kp (view m0) = view m" by (simp only: put_peer_def kp fst_conv snd_conv)
  ultimately show ?case using m(2) by simp
qed simp

lemma persist_cloudflare_ok:
  assumes "persist_cloudflare api c r = (ESP_OK, n')" "writes_lawful api view"
  obtains m where "r = (ESP_OK, m)" "view n' = (view m)(
      KEY_CF_ZONE_NAME := if dc_cloudflare_configured c then Some (NvStr (dc_cloudflare_zone_name c)) else None,
      KEY_CF_ZONE_ID := if dc_cloudflare_configured c then Some (NvStr (dc_cloudflare_zone_id c)) else None,
      KEY_CF_API_TOKEN := if dc_cloudflare_configured c then Some (NvStr (sc_cloudflare_api_token c)) else None)"
proof (cases "fst r = ESP_OK")
  case True
  then obtain m where r: "r = (ESP_OK, m)" by (cases r) simp
  show ?thesis
  proof (cases "dc_cloudflare_configured c")
    case True
    then have "if_ok (cn_set api KEY_CF_API_TOKEN (NvStr (sc_cloudflare_api_token c)))
         (if_ok (cn_set api KEY_CF_ZONE_ID (NvStr (dc_cloudflare_zone_id c)))
           (cn_set api KEY_CF_ZONE_NAME (NvStr (dc_cloudflare_zone_name c)) m)) = (ESP_OK, n')"
      using assms(1) r by (simp add: persist_cloudflare_def)
    then show ?thesis using that [OF r] True
      by (auto elim!: if_ok_set [OF _ assms(2)] dest: writesD(2) [OF assms(2)])
  next
    case False
    then have "and_erase api KEY_CF_API_TOKEN (and_erase api KEY_CF_ZONE_ID (and_erase api KEY_CF_ZONE_NAME r)) = (ESP_OK, n')"
      using assms(1) r by (simp add: persist_cloudflare_def)
    then show ?thesis using that [OF r] False r by (auto elim!: and_erase_ok [OF _ assms(2)])
  qed
next
  case False
  then show ?thesis using assms(1) by (auto simp: persist_cloudflare_def)
qed

lemma persist_represents:
  assumes "persist_config api c n = (ESP_OK, n')" "writes_lawful api view" "length (dc_ntp_peers c) = APP_NTP_PEER_MAX_COUNT"
  shows "represents (view n') c"
proof -
  obtain p0 p1 p2 p3 where p: "dc_ntp_peers c = [p0, p1, p2, p3]"
    using assms(3) by (auto simp: APP_NTP_PEER_MAX_COUNT_def length_Suc_conv numeral_eq_Suc)
  obtain r1 where r1: "if_ok (cn_commit api) (fold (persist_peer api) (zip peer_keys (dc_ntp_peers c)) r1) = (ESP_OK, n')"
    and r1': "r1 = if_ok (cn_set api KEY_PEER_TIMEOUT (NvU32 (dc_ntp_peer_response_timeout_ms c)))
       (if_ok (cn_set api KEY_PEER_POLL (NvU32 (dc_ntp_peer_poll_interval_seconds c)))
         (if_ok (cn_set api KEY_PEER_ENABLED (NvU8 (if dc_ntp_peer_monitor_enabled c then 1 else 0)))
           (persist_cloudflare api c
             (if_ok (cn_set api KEY_HOSTNAME (NvStr (dc_hostname c)))
               (if_ok (cn_set api KEY_GENERATION (NvU32 (dc_generation c)))
                 (cn_set api KEY_SCHEMA (NvU32 (dc_schema_version c)) (snd (cn_open api True n))))))))"
    using assms(1) by (auto simp: persist_config_def Let_def split: prod.splits if_splits)
  obtain n1 where n1: "fold (persist_peer api) (zip peer_keys (dc_ntp_peers c)) r1 = (ESP_OK, n1)" "view n' = view n1"
    using r1 writesD(5) [OF assms(2)] by (auto simp: if_ok_def split: prod.splits if_splits)
  obtain n2 where n2: "r1 = (ESP_OK, n2)" "view n1 = fold put_peer (zip peer_keys (dc_ntp_peers c)) (view n2)"
    using persist_peers_ok [OF n1(1) assms(2)] by blast
  note c = r1' [symmetric, unfolded n2(1)]
  obtain n4 where n4: "persist_cloudflare api c
             (if_ok (cn_set api KEY_HOSTNAME (NvStr (dc_hostname c)))
               (if_ok (cn_set api KEY_GENERATION (NvU32 (dc_generation c)))
                 (cn_set api KEY_SCHEMA (NvU32 (dc_schema_version c)) (snd (cn_open api True n))))) = (ESP_OK, n4)"
    "view n2 = (view n4)(KEY_PEER_ENABLED \<mapsto> NvU8 (if dc_ntp_peer_monitor_enabled c then 1 else 0),
       KEY_PEER_POLL \<mapsto> NvU32 (dc_ntp_peer_poll_interval_seconds c),
       KEY_PEER_TIMEOUT \<mapsto> NvU32 (dc_ntp_peer_response_timeout_ms c))"
    using c by (elim if_ok_set [OF _ assms(2)]) simp
  obtain n5 where n5: "if_ok (cn_set api KEY_HOSTNAME (NvStr (dc_hostname c)))
               (if_ok (cn_set api KEY_GENERATION (NvU32 (dc_generation c)))
                 (cn_set api KEY_SCHEMA (NvU32 (dc_schema_version c)) (snd (cn_open api True n)))) = (ESP_OK, n5)"
    "view n4 = (view n5)(
      KEY_CF_ZONE_NAME := if dc_cloudflare_configured c then Some (NvStr (dc_cloudflare_zone_name c)) else None,
      KEY_CF_ZONE_ID := if dc_cloudflare_configured c then Some (NvStr (dc_cloudflare_zone_id c)) else None,
      KEY_CF_API_TOKEN := if dc_cloudflare_configured c then Some (NvStr (sc_cloudflare_api_token c)) else None)"
    using n4(1) by (rule persist_cloudflare_ok [OF _ assms(2)])
  obtain n6 where n6: "view n5 = (view n6)(KEY_SCHEMA \<mapsto> NvU32 (dc_schema_version c),
      KEY_GENERATION \<mapsto> NvU32 (dc_generation c), KEY_HOSTNAME \<mapsto> NvStr (dc_hostname c))"
    using n5(1) by (elim if_ok_set [OF _ assms(2)]) (auto dest: writesD(2) [OF assms(2)])
  show ?thesis
    unfolding represents_def n1(2) n2(2) n4(2) n5(2) n6 p put_peer_def by (simp add: config_keys)
qed

subsection \<open>Loading what was written\<close>

lemma readsD:
  assumes "reads_lawful api view"
  shows "view n k = Some x \<Longrightarrow> fst (cn_open api False n) = ESP_OK"
    "view n k = Some (NvU8 b) \<Longrightarrow> cn_get_u8 api k n = (ESP_OK, b)"
    "view n k = Some (NvU32 w) \<Longrightarrow> cn_get_u32 api k n = (ESP_OK, w)"
    "view n k = Some (NvStr t) \<Longrightarrow> length t < m \<Longrightarrow> cn_get_str api k m n = (ESP_OK, t)"
    "view n k = None \<Longrightarrow> fst (cn_get_str api k m n) \<noteq> ESP_OK" "view n k = None \<Longrightarrow> fst (cn_get_u32 api k n) \<noteq> ESP_OK"
    "view n = view n' \<Longrightarrow> cn_get_u8 api k n = cn_get_u8 api k n'" "view n = view n' \<Longrightarrow> cn_get_u32 api k n = cn_get_u32 api k n'"
    "view n = view n' \<Longrightarrow> cn_get_str api k m n = cn_get_str api k m n'"
proof -
  note a = assms [unfolded reads_lawful_def]
  show "view n k = Some x \<Longrightarrow> fst (cn_open api False n) = ESP_OK" using conjunct1 [OF a] by auto
  note a1 = conjunct2 [OF a] note a2 = conjunct2 [OF a1] note a3 = conjunct2 [OF a2] note a4 = conjunct2 [OF a3]
  show "view n k = Some (NvU8 b) \<Longrightarrow> cn_get_u8 api k n = (ESP_OK, b)" using conjunct1 [OF a1] by simp
  show "view n k = Some (NvU32 w) \<Longrightarrow> cn_get_u32 api k n = (ESP_OK, w)" using conjunct1 [OF a2] by simp
  show "view n k = Some (NvStr t) \<Longrightarrow> length t < m \<Longrightarrow> cn_get_str api k m n = (ESP_OK, t)" using conjunct1 [OF a3] by simp
  show "view n k = None \<Longrightarrow> fst (cn_get_str api k m n) \<noteq> ESP_OK" "view n k = None \<Longrightarrow> fst (cn_get_u32 api k n) \<noteq> ESP_OK"
    using conjunct1 [OF a4] by simp_all
  note c = conjunct2 [OF a4, rule_format]
  show "view n = view n' \<Longrightarrow> cn_get_u8 api k n = cn_get_u8 api k n'" "view n = view n' \<Longrightarrow> cn_get_u32 api k n = cn_get_u32 api k n'"
    "view n = view n' \<Longrightarrow> cn_get_str api k m n = cn_get_str api k m n'"
    by (blast dest: c)+
qed

lemma load_peer_represents:
  assumes "reads_lawful api view" "view n k = peer_view p" "peer_ok p"
  shows "load_peer api n k = p"
proof (cases "np_enabled p")
  case True
  then have v: "device_config_ntp_peer_server_is_valid (np_server p)" "lowercase (np_server p) = np_server p"
    using assms(3) by (simp_all add: peer_ok_def)
  have "cn_get_str api k (APP_NTP_PEER_SERVER_MAX_LENGTH + 1) n = (ESP_OK, np_server p)"
    using assms(2) True valid_lengths(3) [OF v(1)] by (intro readsD(4) [OF assms(1)]) (simp_all add: peer_view_def)
  then show ?thesis using True v by (simp add: load_peer_def)
next
  case False
  then have "p = no_peer" using assms(3) by (cases p) (simp add: peer_ok_def no_peer_def)
  moreover have "fst (cn_get_str api k (APP_NTP_PEER_SERVER_MAX_LENGTH + 1) n) \<noteq> ESP_OK"
    using assms(2) False by (intro readsD(5) [OF assms(1)]) (simp add: peer_view_def)
  ultimately show ?thesis by (simp add: load_peer_def case_prod_beta)
qed

lemma load_cloudflare_represents:
  assumes "reads_lawful api view" "represents (view n) c" "config_ok c" "dc_generation d = dc_generation c"
  shows "load_cloudflare api n (peer_defaults g h) = (peer_defaults g h)\<lparr>
    dc_cloudflare_configured := dc_cloudflare_configured c, dc_cloudflare_zone_name := dc_cloudflare_zone_name c,
    dc_cloudflare_zone_id := dc_cloudflare_zone_id c, sc_cloudflare_api_token := sc_cloudflare_api_token c\<rparr>"
proof (cases "dc_cloudflare_configured c")
  case True
  then have v: "device_config_cloudflare_zone_is_valid (dc_cloudflare_zone_name c)" "zone_id_is_valid (dc_cloudflare_zone_id c)"
      "api_token_is_valid (sc_cloudflare_api_token c)" "lowercase (dc_cloudflare_zone_name c) = dc_cloudflare_zone_name c"
    using assms(3) by (simp_all add: config_ok_def cloudflare_ok_def)
  have "cn_get_str api KEY_CF_ZONE_NAME (APP_CLOUDFLARE_ZONE_NAME_MAX_LENGTH + 1) n = (ESP_OK, dc_cloudflare_zone_name c)"
    "cn_get_str api KEY_CF_ZONE_ID (APP_CLOUDFLARE_ZONE_ID_LENGTH + 1) n = (ESP_OK, dc_cloudflare_zone_id c)"
    "cn_get_str api KEY_CF_API_TOKEN (APP_CLOUDFLARE_API_TOKEN_MAX_LENGTH + 1) n = (ESP_OK, sc_cloudflare_api_token c)"
    using assms(2) True valid_lengths(2) [OF v(1)] valid_lengths(5) [OF v(2)] valid_lengths(4) [OF v(3)]
    by (auto intro!: readsD(4) [OF assms(1)] simp: represents_def)
  then show ?thesis using True v by (simp add: load_cloudflare_def)
next
  case False
  then have e: "dc_cloudflare_zone_name c = []" "dc_cloudflare_zone_id c = []" "sc_cloudflare_api_token c = []"
    using assms(3) by (simp_all add: config_ok_def cloudflare_ok_def)
  have "fst (cn_get_str api KEY_CF_ZONE_NAME (APP_CLOUDFLARE_ZONE_NAME_MAX_LENGTH + 1) n) \<noteq> ESP_OK"
    using assms(2) False by (intro readsD(5) [OF assms(1)]) (simp add: represents_def)
  then show ?thesis using False e by (simp add: load_cloudflare_def case_prod_beta peer_defaults_def zero_config_def)
qed

lemma load_represents:
  assumes "writes_lawful api view" "reads_lawful api view" "represents (view n) c" "config_ok c"
  shows "fst (load_config api n) = Inr (Some c)"
proof -
  obtain n1 where n1: "cn_open api False n = (ESP_OK, n1)" "view n1 = view n"
    using readsD(1) [OF assms(2), of n KEY_SCHEMA] writesD(1) [OF assms(1), of False n] assms(3)
    by (cases "cn_open api False n") (simp add: represents_def)
  obtain n2 where n2: "cn_open api False n1 = (ESP_OK, n2)" "view n2 = view n"
    using readsD(1) [OF assms(2), of n1 KEY_SCHEMA] writesD(1) [OF assms(1), of False n1] assms(3) n1(2)
    by (cases "cn_open api False n1") (simp add: represents_def)
  note r = assms(3) [unfolded represents_def] and ok = assms(4) [unfolded config_ok_def]
  have g: "cn_get_u32 api KEY_SCHEMA n1 = (ESP_OK, 3)" "cn_get_u32 api KEY_GENERATION n1 = (ESP_OK, dc_generation c)"
    "cn_get_str api KEY_HOSTNAME (APP_DEVICE_HOSTNAME_MAX_LENGTH + 1) n1 = (ESP_OK, dc_hostname c)"
    using r ok valid_lengths(1) [of "dc_hostname c"]
    by (auto intro!: readsD(3,4) [OF assms(2)] simp: n1(2) APP_DEVICE_CONFIG_SCHEMA_VERSION_def)
  have p: "cn_get_u8 api KEY_PEER_ENABLED n2 = (ESP_OK, if dc_ntp_peer_monitor_enabled c then 1 else 0)"
    "cn_get_u32 api KEY_PEER_POLL n2 = (ESP_OK, dc_ntp_peer_poll_interval_seconds c)"
    "cn_get_u32 api KEY_PEER_TIMEOUT n2 = (ESP_OK, dc_ntp_peer_response_timeout_ms c)"
    using r by (auto intro!: readsD(2,3) [OF assms(2)] simp: n2(2))
  have peers: "map (load_peer api n2) peer_keys = dc_ntp_peers c"
  proof -
    have "map (view n2) peer_keys = map peer_view (dc_ntp_peers c)" using r n2(2) by simp
    moreover have "list_all peer_ok (dc_ntp_peers c)" using ok by simp
    moreover have "length peer_keys = length (dc_ntp_peers c)" using calculation(1) by (metis length_map)
    ultimately show ?thesis
      by (auto simp: list_eq_iff_nth_eq list_all_length intro!: load_peer_represents [OF assms(2)])
  qed
  have cf: "load_cloudflare api n1 (peer_defaults (dc_generation c) (dc_hostname c)) = (peer_defaults (dc_generation c) (dc_hostname c))\<lparr>
    dc_cloudflare_configured := dc_cloudflare_configured c, dc_cloudflare_zone_name := dc_cloudflare_zone_name c,
    dc_cloudflare_zone_id := dc_cloudflare_zone_id c, sc_cloudflare_api_token := sc_cloudflare_api_token c\<rparr>"
    using assms(3,4) n1(2) by (intro load_cloudflare_represents [OF assms(2), where d = c]) simp_all
  have "load_config api n = (let (config, n2) = load_peers api n1
      (load_cloudflare api n1 (peer_defaults (dc_generation c) (dc_hostname c))) in (Inr (Some config), n2))"
    using ok by (simp add: load_config_def n1(1) g [simplified] APP_DEVICE_CONFIG_SCHEMA_VERSION_def)
  also have "\<dots> = (Inr (Some c), n2)"
    using ok unfolding cf load_peers_def n2(1)
    by (cases c) (simp add: p ok_or_def peers peer_defaults_def zero_config_def)
  finally show ?thesis by simp
qed

text \<open>Loading again what was loaded.\<close>

lemma load_parts_cong:
  assumes "reads_lawful api view" "view n = view m" "cn_open api False n = (ESP_OK, n1)" "cn_open api False m = (ESP_OK, m1)"
    and "view n1 = view n" "view m1 = view m"
  shows "load_cloudflare api n c = load_cloudflare api m c" "fst (load_peers api n c) = fst (load_peers api m c)"
proof -
  show "load_cloudflare api n c = load_cloudflare api m c" by (simp only: load_cloudflare_def readsD(9) [OF assms(1,2)])
  have v: "view n1 = view m1" using assms by simp
  have "load_peer api n1 k = load_peer api m1 k" for k by (simp only: load_peer_def readsD(9) [OF assms(1) v])
  then have "map (load_peer api n1) peer_keys = map (load_peer api m1) peer_keys" by simp
  then show "fst (load_peers api n c) = fst (load_peers api m c)"
    by (simp add: load_peers_def assms(3,4) readsD(7,8) [OF assms(1) v] Let_def)
qed

lemma load_again:
  assumes "writes_lawful api view" "reads_lawful api view" "load_config api n = (Inr (Some c), n')"
  shows "fst (load_config api n') = Inr (Some c)"
proof -
  have ok: "config_ok c" using assms(3) by (rule load_config_ok)
  obtain n1 where n1: "cn_open api False n = (ESP_OK, n1)" "view n1 = view n"
    using assms(3) writesD(1) [OF assms(1), of False n]
    by (cases "cn_open api False n") (auto simp: load_config_def split: if_splits)
  show ?thesis
  proof (cases "\<exists>d. migrate api d n1 = (Inr (Some c), n')")
    case True
    then have "persist_config api c n1 = (ESP_OK, n')"
      by (auto simp: migrate_def case_prod_beta prod_eq_iff split: if_splits)
    then show ?thesis using ok
      by (intro load_represents [OF assms(1,2)] persist_represents [OF _ assms(1)]) (simp_all add: config_ok_def)
  next
    case False
    obtain schema hostname generation where g: "cn_get_u32 api KEY_SCHEMA n1 = (ESP_OK, schema)" "schema = 3"
        "cn_get_str api KEY_HOSTNAME (APP_DEVICE_HOSTNAME_MAX_LENGTH + 1) n1 = (ESP_OK, hostname)"
        "cn_get_u32 api KEY_GENERATION n1 = (ESP_OK, generation)" "generation \<noteq> 0" "device_config_hostname_is_valid hostname"
        "load_peers api n1 (load_cloudflare api n1 (peer_defaults generation hostname)) = (c, n')"
      using assms(3) False n1(1)
      by (auto simp: load_config_def Let_def APP_DEVICE_CONFIG_SCHEMA_VERSION_def split: if_splits prod.splits)
    have s: "view n1 KEY_SCHEMA \<noteq> None" using g(1) readsD(6) [OF assms(2), of n1 KEY_SCHEMA] by auto
    obtain n2 where n2: "cn_open api False n1 = (ESP_OK, n2)" "view n2 = view n1"
      using s readsD(1) [OF assms(2), of n1 KEY_SCHEMA] writesD(1) [OF assms(1), of False n1]
      by (cases "cn_open api False n1") auto
    have n': "n' = n2" using g(7) n2(1) by (simp add: load_peers_def Let_def)
    obtain n3 where n3: "cn_open api False n' = (ESP_OK, n3)" "view n3 = view n1"
      using s readsD(1) [OF assms(2), of n2 KEY_SCHEMA] writesD(1) [OF assms(1), of False n2] n2(2) n'
      by (cases "cn_open api False n2") auto
    obtain n4 where n4: "cn_open api False n3 = (ESP_OK, n4)" "view n4 = view n3"
      using s readsD(1) [OF assms(2), of n3 KEY_SCHEMA] writesD(1) [OF assms(1), of False n3] n3(2)
      by (cases "cn_open api False n3") auto
    note cong = load_parts_cong [OF assms(2) n3(2) n4(1) n2(1) n4(2) n2(2)]
    have "fst (load_config api n') = Inr (Some (fst (load_peers api n3 (load_cloudflare api n3 (peer_defaults generation hostname)))))"
      using g(2,5,6) by (simp add: load_config_def n3(1) readsD(8,9) [OF assms(2) n3(2)] g(1,4) g(3) [simplified]
          APP_DEVICE_CONFIG_SCHEMA_VERSION_def case_prod_beta Let_def)
    then show ?thesis using g(7) by (simp add: cong)
  qed
qed

subsection \<open>Restarts\<close>

definition synced :: "'n cfg_nvs \<Rightarrow> 'n config_sys \<Rightarrow> bool" where
  "synced api s \<longleftrightarrow> fst (load_config api (cs_nvs s)) = Inr (Some (cs_config s))"

lemma config_ok_peers: "config_ok c \<Longrightarrow> length (dc_ntp_peers c) = APP_NTP_PEER_MAX_COUNT"
  by (simp add: config_ok_def)

lemma persist_synced:
  assumes "writes_lawful api view" "reads_lawful api view" "config_ok c" "persist_config api c n = (ESP_OK, n')"
  shows "fst (load_config api n') = Inr (Some c)"
  using assms by (intro load_represents persist_represents config_ok_peers)

lemma init_synced:
  assumes "writes_lawful api view" "reads_lawful api view" "device_config_init api mutex (config_boot n app) = (ESP_OK, s)"
  shows "synced api s"
  using assms(3) load_again [OF assms(1,2)] persist_synced [OF assms(1,2) default_ok]
  by (auto simp: device_config_init_def config_boot_def Let_def synced_def split: if_splits prod.splits sum.splits option.splits)

lemma config_do_synced:
  assumes "writes_lawful api view" "reads_lawful api view" "sys_ok s" "op_ok op" "synced api s" "fst (config_do api op s) = ESP_OK"
  shows "synced api (snd (config_do api op s))"
  using config_do_effect [OF assms(3,4), of api] assms(5,6) persist_synced [OF assms(1,2)]
  by (auto simp: effect_def synced_def)

lemma config_run_synced:
  assumes "writes_lawful api view" "reads_lawful api view"
  shows "sys_ok s \<Longrightarrow> synced api s \<Longrightarrow> list_all op_ok ops \<Longrightarrow> list_all (\<lambda>e. e = ESP_OK) (fst (config_run api ops s)) \<Longrightarrow>
    synced api (snd (config_run api ops s))"
proof (induction ops arbitrary: s)
  case (Cons op ops)
  let ?r = "config_do api op s"
  have "fst ?r = ESP_OK" "list_all (\<lambda>e. e = ESP_OK) (fst (config_run api ops (snd ?r)))"
    using Cons.prems(4) by (simp_all add: case_prod_beta Let_def)
  moreover have "sys_ok (snd ?r)" using Cons.prems by (auto intro: effect_sys_ok config_do_effect)
  moreover have "synced api (snd ?r)" using Cons.prems \<open>fst ?r = ESP_OK\<close> by (intro config_do_synced [OF assms]) simp_all
  ultimately have "synced api (snd (config_run api ops (snd ?r)))" using Cons.prems(3) by (intro Cons.IH) simp_all
  then show ?case by (simp add: case_prod_beta Let_def)
qed simp

lemma restart_value:
  assumes "synced api s"
  shows "\<exists>s'. device_config_init api True (config_boot (cs_nvs s) app) = (ESP_OK, s') \<and> cs_config s' = cs_config s"
  using assms by (cases "load_config api (cs_nvs s)")
    (auto simp: device_config_init_def synced_def config_boot_def default_hostname_valid)

text \<open>
  C35: no confirmed change is lost. On storage that keeps its promises, after a start-up and any sequence of changes that were
  all answered with success, a restart loads exactly the configuration in memory, whatever schema the storage held at first.
\<close>
theorem config_survives_restart:
  assumes "writes_lawful api view" and "reads_lawful api view"
    and "device_config_init api mutex (config_boot n app) = (ESP_OK, s)" and "list_all op_ok ops"
    and "list_all (\<lambda>e. e = ESP_OK) (fst (config_run api ops s))"
  shows "\<exists>s'. device_config_init api True (config_boot (cs_nvs (snd (config_run api ops s))) app') = (ESP_OK, s') \<and>
    cs_config s' = cs_config (snd (config_run api ops s))"
  by (intro restart_value config_run_synced [OF assms(1,2) _ _ assms(4,5)] config_init_sys_ok [OF assms(3)]
      init_synced [OF assms(1-3)])

text \<open>A store in memory that keeps the promises.\<close>

definition map_nvs :: "nvs_view cfg_nvs" where
  "map_nvs = \<lparr> cn_open = (\<lambda>rw n. (ESP_OK, n)), cn_set = (\<lambda>k v n. (ESP_OK, n(k \<mapsto> v))),
     cn_erase_key = (\<lambda>k n. (if n k = None then ESP_ERR_NVS_NOT_FOUND else ESP_OK, n(k := None))), cn_commit = (\<lambda>n. (ESP_OK, n)),
     cn_get_u8 = (\<lambda>k n. case n k of Some (NvU8 x) \<Rightarrow> (ESP_OK, x) | _ \<Rightarrow> (ESP_ERR_NVS_NOT_FOUND, 0)),
     cn_get_u32 = (\<lambda>k n. case n k of Some (NvU32 x) \<Rightarrow> (ESP_OK, x) | _ \<Rightarrow> (ESP_ERR_NVS_NOT_FOUND, 0)),
     cn_get_str = (\<lambda>k m n. case n k of Some (NvStr x) \<Rightarrow> if length x < m then (ESP_OK, x) else (ESP_ERR_INVALID_SIZE, [])
        | _ \<Rightarrow> (ESP_ERR_NVS_NOT_FOUND, [])) \<rparr>"

lemma map_nvs_lawful: "writes_lawful map_nvs (\<lambda>n. n)" "reads_lawful map_nvs (\<lambda>n. n)"
  by (auto simp: writes_lawful_def reads_lawful_def map_nvs_def fun_upd_idem)

definition sample_config_sys :: "nvs_view config_sys" where
  "sample_config_sys = snd (device_config_init map_nvs True (config_boot Map.empty app_state_init))"

definition sample_ops :: "config_op list" where
  "sample_ops = [SetHostname (map of_char ''Time-1''), SetCloudflare (replicate 20 0x41) (map of_char ''Example.org'') (replicate 32 0x30),
     SetPeers True 64 500 [\<lparr>np_enabled = True, np_server = map of_char ''NTP.example.org''\<rparr>, no_peer, no_peer, no_peer]]"

lemma sample_init: "device_config_init map_nvs True (config_boot Map.empty app_state_init) = (ESP_OK, sample_config_sys)"
proof -
  have "fst (device_config_init map_nvs True (config_boot Map.empty app_state_init)) = ESP_OK" by code_simp
  then show ?thesis unfolding sample_config_sys_def by (metis prod.collapse)
qed

lemma sample_ops_ok: "list_all op_ok sample_ops" "fst (config_run map_nvs sample_ops sample_config_sys) = [ESP_OK, ESP_OK, ESP_OK]"
  by code_simp+

lemma config_survives_restart_witness:
  "\<exists>s'. device_config_init map_nvs True (config_boot (cs_nvs (snd (config_run map_nvs sample_ops sample_config_sys))) app_state_init) =
      (ESP_OK, s') \<and> cs_config s' = cs_config (snd (config_run map_nvs sample_ops sample_config_sys))"
  by (rule config_survives_restart [OF map_nvs_lawful sample_init sample_ops_ok(1)]) (simp add: sample_ops_ok(2))

lemma config_invariant_witness: "sys_ok (snd (config_run map_nvs sample_ops sample_config_sys))"
  by (rule config_invariant [OF sample_init sample_ops_ok(1)])

subsection \<open>A failed reading\<close>

lemma failed_reading_wipes:
  assumes "writes_lawful api view" and "cn_open api False n = (ESP_OK, n1)" and "cn_get_u32 api KEY_SCHEMA n1 = (ESP_OK, 3)"
    and "fst (cn_get_u32 api KEY_GENERATION n1) \<noteq> ESP_OK \<or>
         fst (cn_get_str api KEY_HOSTNAME (APP_DEVICE_HOSTNAME_MAX_LENGTH + 1) n1) \<noteq> ESP_OK"
    and "device_config_init api mutex (config_boot n app) = (ESP_OK, s)"
  shows "cs_config s = make_default_config \<and> view (cs_nvs s) KEY_CF_API_TOKEN = None \<and> map (view (cs_nvs s)) peer_keys = [None, None, None, None]"
proof -
  have l: "load_config api n = (Inr None, n1)"
    using assms(2,3,4) by (auto simp: load_config_def APP_DEVICE_CONFIG_SCHEMA_VERSION_def case_prod_beta Let_def)
  have "cs_config s = make_default_config \<and> persist_config api make_default_config n1 = (ESP_OK, cs_nvs s)"
    using assms(5) l by (auto simp: device_config_init_def config_boot_def Let_def split: if_splits prod.splits)
  moreover from this have "represents (view (cs_nvs s)) make_default_config"
    using persist_represents [OF _ assms(1) config_ok_peers [OF default_ok]] by blast
  moreover have "\<not> dc_cloudflare_configured make_default_config" "map peer_view (dc_ntp_peers make_default_config) = [None, None, None, None]"
    by code_simp+
  ultimately show ?thesis by (simp add: represents_def)
qed

text \<open>
  C37: a storage of the current schema whose generation or host name cannot be read at start-up, for whatever reason, is
  overwritten with the defaults: the start-up succeeds, and the DNS credentials and the peers are erased for good.
\<close>
theorem config_failed_reading_wipes:
  assumes "writes_lawful api view" and "cn_open api False n = (ESP_OK, n1)" and "cn_get_u32 api KEY_SCHEMA n1 = (ESP_OK, 3)"
    and "fst (cn_get_u32 api KEY_GENERATION n1) \<noteq> ESP_OK \<or>
         fst (cn_get_str api KEY_HOSTNAME (APP_DEVICE_HOSTNAME_MAX_LENGTH + 1) n1) \<noteq> ESP_OK"
    and "device_config_init api mutex (config_boot n app) = (ESP_OK, s)"
  shows "cs_config s = make_default_config \<and> view (cs_nvs s) KEY_CF_API_TOKEN = None \<and> map (view (cs_nvs s)) peer_keys = [None, None, None, None]"
  using assms by (rule failed_reading_wipes)

text \<open>The store after the changes above, on a start-up where the host name cannot be read.\<close>

definition failing_nvs :: "nvs_view cfg_nvs" where
  "failing_nvs = map_nvs\<lparr>cn_get_str := (\<lambda>k m n. if k = KEY_HOSTNAME then (ESP_FAIL, []) else cn_get_str map_nvs k m n)\<rparr>"

definition sample_store :: nvs_view where
  "sample_store = cs_nvs (snd (config_run map_nvs sample_ops sample_config_sys))"

lemma sample_store_facts:
  "sample_store KEY_CF_API_TOKEN = Some (NvStr (replicate 20 0x41))" "cn_open failing_nvs False sample_store = (ESP_OK, sample_store)"
  "cn_get_u32 failing_nvs KEY_SCHEMA sample_store = (ESP_OK, 3)"
  "fst (device_config_init failing_nvs True (config_boot sample_store app_state_init)) = ESP_OK"
  subgoal by code_simp
  subgoal by (simp add: failing_nvs_def map_nvs_def)
  subgoal by code_simp
  subgoal by code_simp
  done

lemma config_failed_reading_wipes_witness:
  "cs_nvs (snd (device_config_init failing_nvs True (config_boot sample_store app_state_init))) KEY_CF_API_TOKEN = None"
proof -
  let ?s = "snd (device_config_init failing_nvs True (config_boot sample_store app_state_init))"
  have w: "writes_lawful failing_nvs (\<lambda>n. n)" using map_nvs_lawful(1) by (simp add: writes_lawful_def failing_nvs_def)
  have i: "device_config_init failing_nvs True (config_boot sample_store app_state_init) = (ESP_OK, ?s)"
    using sample_store_facts(4) by (metis prod.collapse)
  show ?thesis using config_failed_reading_wipes [OF w sample_store_facts(2,3) _ i] by (simp add: failing_nvs_def)
qed

end
