(* ===== verification/Peer_Monitor.thy ===== *)
theory Peer_Monitor
  imports Device_Config Clock
begin

text \<open>
  \<open>src/main/ntp_peer_monitor.c\<close>: an SNTP client that polls up to four configured servers with the time of the disciplined
  clock and keeps statistics of what they say. It has no influence on the clock.

  What the network and the timer answer are arguments: \<open>poll_start\<close> for the start of a poll, \<open>arrival\<close> for a socket that
  \<open>select\<close> reports, \<open>select_round\<close> for a pass of the waiting loop. The outer \<open>option\<close> is \<open>None\<close> where a signed 64-bit
  operation overflows. The mutex is taken with \<open>portMAX_DELAY\<close>, so it is got wherever it exists.
\<close>

subsection \<open>Constants and data\<close>

definition NTP_PORT :: u16 where "NTP_PORT = 123"
definition NTP_PACKET_SIZE_peer :: nat where "NTP_PACKET_SIZE_peer = 48"
definition NTP_VERSION :: u8 where "NTP_VERSION = 4"
definition NTP_MODE_CLIENT_peer :: u8 where "NTP_MODE_CLIENT_peer = 3"
definition NTP_MODE_SERVER_peer :: u8 where "NTP_MODE_SERVER_peer = 4"
definition NTP_PEER_DIVERGENT_NS :: int where "NTP_PEER_DIVERGENT_NS = 10000000"
definition NTP_PEER_DEGRADED_DELAY_NS :: int where "NTP_PEER_DEGRADED_DELAY_NS = 100000000"
definition NTP_PEER_DEGRADED_JITTER_NS :: int where "NTP_PEER_DEGRADED_JITTER_NS = 5000000"
definition NTP_PEER_UNREACHABLE_FAILURES :: u32 where "NTP_PEER_UNREACHABLE_FAILURES = 3"
definition NTP_PEER_ROLLING_WINDOW :: u32 where "NTP_PEER_ROLLING_WINDOW = 16"
definition NTP_PEER_CONFIG_CHECK_MS :: u32 where "NTP_PEER_CONFIG_CHECK_MS = 1000"

datatype ntp_peer_health =
    NTP_PEER_HEALTH_DISABLED | NTP_PEER_HEALTH_UNKNOWN | NTP_PEER_HEALTH_HEALTHY | NTP_PEER_HEALTH_DEGRADED
  | NTP_PEER_HEALTH_UNREACHABLE | NTP_PEER_HEALTH_DIVERGENT | NTP_PEER_HEALTH_KOD | NTP_PEER_HEALTH_INVALID

definition ntp_peer_monitor_health_name :: "ntp_peer_health \<Rightarrow> string" where
  "ntp_peer_monitor_health_name health =
    (case health of NTP_PEER_HEALTH_DISABLED \<Rightarrow> ''DISABLED'' | NTP_PEER_HEALTH_UNKNOWN \<Rightarrow> ''UNKNOWN''
     | NTP_PEER_HEALTH_HEALTHY \<Rightarrow> ''HEALTHY'' | NTP_PEER_HEALTH_DEGRADED \<Rightarrow> ''DEGRADED''
     | NTP_PEER_HEALTH_UNREACHABLE \<Rightarrow> ''UNREACHABLE'' | NTP_PEER_HEALTH_DIVERGENT \<Rightarrow> ''DIVERGENT''
     | NTP_PEER_HEALTH_KOD \<Rightarrow> ''KOD'' | NTP_PEER_HEALTH_INVALID \<Rightarrow> ''INVALID'')"

record poll_context =
  pc_sock :: bool
  pc_active :: bool
  pc_completed :: bool
  pc_address :: "u32 \<times> u16"
  pc_t1 :: clock_ntp_timestamp
  pc_deadline_us :: int

definition zero_poll_context :: poll_context where
  "zero_poll_context = \<lparr> pc_sock = False, pc_active = False, pc_completed = False, pc_address = (0, 0),
     pc_t1 = \<lparr>ct_seconds = 0, ct_fraction = 0\<rparr>, pc_deadline_us = 0 \<rparr>"

record peer_runtime =
  rt_offset :: "int list"
  rt_delay :: "int list"
  rt_count :: u32
  rt_next :: u32
  rt_last_server_t3 :: u64
  rt_last_server_t3_valid :: bool
  rt_last_success_us :: int
  rt_config_valid :: bool
  rt_enabled :: bool
  rt_server :: bytes

definition zero_runtime :: peer_runtime where
  "zero_runtime = \<lparr> rt_offset = replicate 16 0, rt_delay = replicate 16 0, rt_count = 0, rt_next = 0, rt_last_server_t3 = 0,
     rt_last_server_t3_valid = False, rt_last_success_us = 0, rt_config_valid = False, rt_enabled = False, rt_server = [] \<rparr>"

record ntp_peer_status =
  ps_configured :: bool
  ps_server :: bytes
  ps_health :: ntp_peer_health
  ps_reachability :: u8
  ps_stratum :: u8
  ps_leap :: u8
  ps_reference_id :: bytes
  ps_offset_ns :: int
  ps_delay_ns :: int
  ps_jitter_ns :: int
  ps_min_offset_ns :: int
  ps_max_offset_ns :: int
  ps_mean_offset_ns :: int
  ps_rms_offset_ns :: int
  ps_min_delay_ns :: int
  ps_mean_delay_ns :: int
  ps_root_delay_16_16 :: int
  ps_root_dispersion_16_16 :: u32
  ps_successful_polls :: u32
  ps_failed_polls :: u32
  ps_rejected_responses :: u32
  ps_duplicate_responses :: u32
  ps_consecutive_failures :: u32
  ps_kod_responses :: u32
  ps_dns_failures :: u32
  ps_timeout_failures :: u32
  ps_samples :: u32
  ps_rolling_samples :: u32
  ps_last_success_age_seconds :: u32

definition zero_peer_status :: ntp_peer_status where
  "zero_peer_status = \<lparr> ps_configured = False, ps_server = [], ps_health = NTP_PEER_HEALTH_DISABLED, ps_reachability = 0,
     ps_stratum = 0, ps_leap = 0, ps_reference_id = [], ps_offset_ns = 0, ps_delay_ns = 0, ps_jitter_ns = 0,
     ps_min_offset_ns = 0, ps_max_offset_ns = 0, ps_mean_offset_ns = 0, ps_rms_offset_ns = 0, ps_min_delay_ns = 0,
     ps_mean_delay_ns = 0, ps_root_delay_16_16 = 0, ps_root_dispersion_16_16 = 0, ps_successful_polls = 0,
     ps_failed_polls = 0, ps_rejected_responses = 0, ps_duplicate_responses = 0, ps_consecutive_failures = 0,
     ps_kod_responses = 0, ps_dns_failures = 0, ps_timeout_failures = 0, ps_samples = 0, ps_rolling_samples = 0,
     ps_last_success_age_seconds = 0 \<rparr>"

record ntp_peer_monitor_status =
  pm_status_initialized :: bool
  pm_status_running :: bool
  pm_enabled :: bool
  pm_poll_interval_seconds :: u32
  pm_response_timeout_ms :: u32
  pm_poll_cycles :: u32
  pm_configured_peers :: u32
  pm_healthy_peers :: u32
  pm_cross_peer_spread_valid :: bool
  pm_cross_peer_spread_ns :: int
  pm_best_observed_peer_valid :: bool
  pm_best_observed_peer_index :: u32
  pm_peers :: "ntp_peer_status list"

definition zero_monitor_status :: ntp_peer_monitor_status where
  "zero_monitor_status = \<lparr> pm_status_initialized = False, pm_status_running = False, pm_enabled = False,
     pm_poll_interval_seconds = 0, pm_response_timeout_ms = 0, pm_poll_cycles = 0, pm_configured_peers = 0,
     pm_healthy_peers = 0, pm_cross_peer_spread_valid = False, pm_cross_peer_spread_ns = 0,
     pm_best_observed_peer_valid = False, pm_best_observed_peer_index = 0,
     pm_peers = replicate APP_NTP_PEER_MAX_COUNT zero_peer_status \<rparr>"

record peer_sys =
  px_lock :: bool
  px_initialized :: bool
  px_running :: bool
  px_status :: ntp_peer_monitor_status
  px_runtime :: "peer_runtime list"

definition peer_boot :: peer_sys where
  "peer_boot = \<lparr> px_lock = False, px_initialized = False, px_running = False, px_status = zero_monitor_status,
     px_runtime = replicate APP_NTP_PEER_MAX_COUNT zero_runtime \<rparr>"

text \<open>An update of one peer's status under the mutex, and of one peer's runtime.\<close>

definition on_peer :: "nat \<Rightarrow> (ntp_peer_status \<Rightarrow> ntp_peer_status) \<Rightarrow> peer_sys \<Rightarrow> peer_sys" where
  "on_peer i f s =
    (if px_lock s
     then s\<lparr>px_status := (px_status s)\<lparr>pm_peers := (pm_peers (px_status s))[i := f (pm_peers (px_status s) ! i)]\<rparr>\<rparr>
     else s)"

definition on_runtime :: "nat \<Rightarrow> (peer_runtime \<Rightarrow> peer_runtime) \<Rightarrow> peer_sys \<Rightarrow> peer_sys" where
  "on_runtime i f s = s\<lparr>px_runtime := (px_runtime s)[i := f (px_runtime s ! i)]\<rparr>"

subsection \<open>Arithmetic\<close>

definition timestamp_to_fixed :: "clock_ntp_timestamp \<Rightarrow> u64" where
  "timestamp_to_fixed t = push_bit 32 (ucast (ct_seconds t)) OR ucast (ct_fraction t)"

definition fixed_delta_ns :: "u64 \<Rightarrow> u64 \<Rightarrow> int" where
  "fixed_delta_ns a b =
    (let delta = sint (a - b); whole_seconds = quot delta 4294967296; fractional = crem delta 4294967296
     in whole_seconds * 1000000000 + quot (fractional * 1000000000) 4294967296)"

definition abs_i64 :: "int \<Rightarrow> int" where
  "abs_i64 v = (if v = - (2 ^ 63) then 2 ^ 63 - 1 else if v < 0 then - v else v)"

lemma drop_bit_less: "w \<noteq> 0 \<Longrightarrow> unat (drop_bit 2 w) < unat w" for w :: u64
proof -
  assume "w \<noteq> 0"
  then have "0 < unat w" by (simp add: unat_gt_0)
  moreover have "unat (drop_bit 2 w) = drop_bit 2 (unat w)" by (rule unat_drop_bit_eq)
  then have "unat (drop_bit 2 w) = unat w div 2 ^ 2" by (simp only: drop_bit_eq_div [of 2 "unat w"])
  ultimately show ?thesis by simp
qed

function isqrt_top :: "u64 \<Rightarrow> u64 \<Rightarrow> u64" where
  "isqrt_top v bt = (if bt > v then isqrt_top v (drop_bit 2 bt) else bt)"
  by pat_completeness auto
termination
proof (relation "measure (\<lambda>(v, bt). unat bt)")
  fix v bt :: u64
  assume "bt > v"
  then have "bt \<noteq> 0" by auto
  then show "((v, drop_bit 2 bt), (v, bt)) \<in> measure (\<lambda>(v, bt). unat bt)" by (simp add: drop_bit_less)
qed simp

function isqrt_loop :: "u64 \<Rightarrow> u64 \<Rightarrow> u64 \<Rightarrow> u64" where
  "isqrt_loop v result bt =
    (if bt = 0 then result
     else if v \<ge> result + bt then isqrt_loop (v - (result + bt)) (drop_bit 1 result + bt) (drop_bit 2 bt)
     else isqrt_loop v (drop_bit 1 result) (drop_bit 2 bt))"
  by pat_completeness auto
termination
  by (relation "measure (\<lambda>(v, result, bt). unat bt)") (simp_all add: drop_bit_less)

definition isqrt_u64 :: "u64 \<Rightarrow> u64" where
  "isqrt_u64 v = isqrt_loop v 0 (isqrt_top v (push_bit 62 1))"

definition div_round_i64 :: "int \<Rightarrow> int \<Rightarrow> int option" where
  "div_round_i64 numerator denominator =
    (if denominator \<le> 0 then Some 0
     else if numerator \<ge> 0 then
       (if in_int64 (numerator + quot denominator 2) then Some (quot (numerator + quot denominator 2) denominator) else None)
     else if in_int64 (- numerator + quot denominator 2) then Some (- quot (- numerator + quot denominator 2) denominator)
     else None)"

text \<open>Squares and sums that stop at the largest 64-bit number.\<close>

definition sat_square :: "int \<Rightarrow> u64" where
  "sat_square v =
    (let a = (word_of_int (abs_i64 v) :: u64) in if a \<noteq> 0 \<and> a > 0xFFFFFFFFFFFFFFFF div a then 0xFFFFFFFFFFFFFFFF else a * a)"

definition sat_add :: "u64 \<Rightarrow> u64 \<Rightarrow> u64" where
  "sat_add x y = (if 0xFFFFFFFFFFFFFFFF - x < y then 0xFFFFFFFFFFFFFFFF else x + y)"

subsection \<open>Text\<close>

definition hex_digit :: "u32 \<Rightarrow> u8" where
  "hex_digit d = (if d < 10 then 0x30 + ucast d else 0x37 + ucast d)"

definition reference_id_to_text :: "bytes \<Rightarrow> u8 \<Rightarrow> bytes" where
  "reference_id_to_text packet strat =
    (if strat \<le> 1 then map (\<lambda>c. if c \<ge> 0x20 \<and> c \<le> 0x7E then c else 0x2E) (bslice packet 12 4)
     else map (\<lambda>i. hex_digit (drop_bit (4 * i) (de_be32 (drop 12 packet)) AND 0xF)) [7, 6, 5, 4, 3, 2, 1, 0])"

subsection \<open>Configuration\<close>

definition reset_peer_slot :: "nat \<Rightarrow> bool \<Rightarrow> bytes \<Rightarrow> peer_sys \<Rightarrow> peer_sys" where
  "reset_peer_slot i configured server s =
    on_peer i (\<lambda>_. zero_peer_status\<lparr> ps_configured := configured,
        ps_health := (if configured then NTP_PEER_HEALTH_UNKNOWN else NTP_PEER_HEALTH_DISABLED),
        ps_server := take APP_NTP_PEER_SERVER_MAX_LENGTH server \<rparr>)
      (on_runtime i (\<lambda>_. zero_runtime\<lparr> rt_config_valid := True, rt_enabled := configured,
        rt_server := take APP_NTP_PEER_SERVER_MAX_LENGTH server \<rparr>) s)"

text \<open>The loop of \<open>sync_config\<close> over the slots, with the number configured and whether something changed.\<close>

definition sync_slot :: "device_config_snapshot \<Rightarrow> nat \<Rightarrow> u32 \<times> bool \<times> peer_sys \<Rightarrow> u32 \<times> bool \<times> peer_sys" where
  "sync_slot config i = (\<lambda>(n, changed, s).
    let p = dc_ntp_peers config ! i; rt = px_runtime s ! i; configured = (np_enabled p \<and> np_server p \<noteq> []);
        n = (if configured then n + 1 else n)
    in if \<not> rt_config_valid rt \<or> rt_enabled rt \<noteq> configured \<or> rt_server rt \<noteq> np_server p
       then (n, True, reset_peer_slot i configured (np_server p) s)
       else (n, changed, s))"

definition sync_config :: "device_config_snapshot \<Rightarrow> peer_sys \<Rightarrow> bool \<times> peer_sys" where
  "sync_config config s =
    (let (n, changed, s) = fold (sync_slot config) [0..<APP_NTP_PEER_MAX_COUNT] (0, False, s); st = px_status s
     in if px_lock s then
          (changed \<or> pm_enabled st \<noteq> dc_ntp_peer_monitor_enabled config \<or>
             pm_poll_interval_seconds st \<noteq> dc_ntp_peer_poll_interval_seconds config \<or>
             pm_response_timeout_ms st \<noteq> dc_ntp_peer_response_timeout_ms config,
           s\<lparr>px_status := st\<lparr> pm_enabled := dc_ntp_peer_monitor_enabled config,
               pm_poll_interval_seconds := dc_ntp_peer_poll_interval_seconds config,
               pm_response_timeout_ms := dc_ntp_peer_response_timeout_ms config, pm_configured_peers := n\<rparr>\<rparr>)
        else (changed, s))"

subsection \<open>The outcome of a poll\<close>

text \<open>The five flags of the code, in its order: what is asked for, time-out, DNS, rejected, duplicate.\<close>

definition update_failure :: "nat \<Rightarrow> ntp_peer_health \<Rightarrow> bool \<Rightarrow> bool \<Rightarrow> bool \<Rightarrow> bool \<Rightarrow> peer_sys \<Rightarrow> peer_sys" where
  "update_failure i requested timeout dns rejected duplicate =
    on_peer i (\<lambda>p.
      let p = p\<lparr> ps_reachability := push_bit 1 (ps_reachability p), ps_failed_polls := ps_failed_polls p + 1,
              ps_consecutive_failures := ps_consecutive_failures p + 1 \<rparr>;
          p = (if timeout then p\<lparr>ps_timeout_failures := ps_timeout_failures p + 1\<rparr> else p);
          p = (if dns then p\<lparr>ps_dns_failures := ps_dns_failures p + 1\<rparr> else p);
          p = (if rejected then p\<lparr>ps_rejected_responses := ps_rejected_responses p + 1\<rparr> else p);
          p = (if duplicate then p\<lparr>ps_duplicate_responses := ps_duplicate_responses p + 1\<rparr> else p)
      in p\<lparr>ps_health :=
           (if requested = NTP_PEER_HEALTH_KOD \<or> requested = NTP_PEER_HEALTH_INVALID then requested
            else if ps_consecutive_failures p \<ge> NTP_PEER_UNREACHABLE_FAILURES then NTP_PEER_HEALTH_UNREACHABLE
            else NTP_PEER_HEALTH_DEGRADED)\<rparr>)"

text \<open>The sums of the rolling statistics over the samples from the oldest on.\<close>

record rolling =
  ro_min_offset :: int
  ro_max_offset :: int
  ro_min_delay :: int
  ro_offset_sum :: int
  ro_delay_sum :: int
  ro_offset_sq_sum :: u64
  ro_diff_sq_sum :: u64

fun rolling_scan :: "(int \<times> int) list \<Rightarrow> int option \<Rightarrow> rolling \<Rightarrow> rolling option" where
  "rolling_scan [] previous r = Some r"
| "rolling_scan ((o_ns, d_ns) # xs) previous r =
    (let offset_sum = ro_offset_sum r + o_ns; delay_sum = ro_delay_sum r + d_ns
     in if \<not> in_int64 offset_sum \<or> \<not> in_int64 delay_sum then None
        else
          let r = r\<lparr> ro_offset_sum := offset_sum, ro_delay_sum := delay_sum,
                ro_min_offset := (if o_ns < ro_min_offset r then o_ns else ro_min_offset r),
                ro_max_offset := (if o_ns > ro_max_offset r then o_ns else ro_max_offset r),
                ro_min_delay := (if d_ns < ro_min_delay r then d_ns else ro_min_delay r),
                ro_offset_sq_sum := sat_add (ro_offset_sq_sum r) (sat_square o_ns) \<rparr>
          in case previous of
               None \<Rightarrow> rolling_scan xs (Some o_ns) r
             | Some p \<Rightarrow>
                 if \<not> in_int64 (o_ns - p) then None
                 else rolling_scan xs (Some o_ns) (r\<lparr>ro_diff_sq_sum := sat_add (ro_diff_sq_sum r) (sat_square (o_ns - p))\<rparr>))"

definition compute_rolling_stats :: "peer_runtime \<Rightarrow> ntp_peer_status \<Rightarrow> ntp_peer_status option" where
  "compute_rolling_stats rt peer =
    (if rt_count rt = 0 then Some peer
     else
       let k = unat (rt_count rt); n = uint (rt_count rt);
           r = \<lparr> ro_min_offset = rt_offset rt ! 0, ro_max_offset = rt_offset rt ! 0, ro_min_delay = rt_delay rt ! 0,
                 ro_offset_sum = 0, ro_delay_sum = 0, ro_offset_sq_sum = 0, ro_diff_sq_sum = 0 \<rparr>
       in Option.bind (rolling_scan (zip (take k (rt_offset rt)) (take k (rt_delay rt))) None r) (\<lambda>r.
          Option.bind (div_round_i64 (ro_offset_sum r) n) (\<lambda>mean_offset.
          Option.bind (div_round_i64 (ro_delay_sum r) n) (\<lambda>mean_delay.
            Some (peer\<lparr> ps_rolling_samples := rt_count rt, ps_min_offset_ns := ro_min_offset r, ps_max_offset_ns := ro_max_offset r,
              ps_mean_offset_ns := mean_offset,
              ps_rms_offset_ns := sint (isqrt_u64 (ro_offset_sq_sum r div ucast (rt_count rt))),
              ps_min_delay_ns := ro_min_delay r, ps_mean_delay_ns := mean_delay,
              ps_jitter_ns := (if rt_count rt > 1
                then sint (isqrt_u64 (ro_diff_sq_sum r div ucast (rt_count rt - 1))) else 0) \<rparr>)))))"

text \<open>A sample put into the arrays, which are brought back into the order of time after a wrap.\<close>

definition push_sample :: "int \<Rightarrow> int \<Rightarrow> peer_runtime \<Rightarrow> peer_runtime" where
  "push_sample offset_ns delay_ns rt =
    (let rt = rt\<lparr> rt_offset := (rt_offset rt)[unat (rt_next rt) := offset_ns], rt_delay := (rt_delay rt)[unat (rt_next rt) := delay_ns],
           rt_next := (rt_next rt + 1) mod NTP_PEER_ROLLING_WINDOW \<rparr>;
         rt = (if rt_count rt < NTP_PEER_ROLLING_WINDOW then rt\<lparr>rt_count := rt_count rt + 1\<rparr> else rt)
     in if rt_count rt = NTP_PEER_ROLLING_WINDOW \<and> rt_next rt \<noteq> 0 then
          let order = map (\<lambda>i. (unat (rt_next rt) + i) mod 16) [0..<16]
          in rt\<lparr>rt_offset := map (\<lambda>i. rt_offset rt ! i) order, rt_delay := map (\<lambda>i. rt_delay rt ! i) order, rt_next := 0\<rparr>
        else rt)"

definition update_success :: "nat \<Rightarrow> bytes \<Rightarrow> u64 \<Rightarrow> int \<Rightarrow> int \<Rightarrow> int \<Rightarrow> peer_sys \<Rightarrow> peer_sys option" where
  "update_success i packet server_t3 offset_ns delay_ns now_us s =
    (let s = on_runtime i (\<lambda>rt. (push_sample offset_ns delay_ns rt)\<lparr> rt_last_server_t3 := server_t3, rt_last_server_t3_valid := True,
               rt_last_success_us := now_us \<rparr>) s
     in if \<not> px_lock s then Some s
        else
          let p = pm_peers (px_status s) ! i; strat = packet ! 1;
              p = p\<lparr> ps_reachability := push_bit 1 (ps_reachability p) OR 1, ps_successful_polls := ps_successful_polls p + 1,
                ps_consecutive_failures := 0, ps_samples := ps_samples p + 1, ps_stratum := strat,
                ps_leap := drop_bit 6 (packet ! 0), ps_root_delay_16_16 := sint (de_be32 (drop 4 packet)),
                ps_root_dispersion_16_16 := de_be32 (drop 8 packet), ps_reference_id := reference_id_to_text packet strat,
                ps_offset_ns := offset_ns, ps_delay_ns := delay_ns, ps_last_success_age_seconds := 0 \<rparr>
          in map_option (\<lambda>p. on_peer i (\<lambda>_. p\<lparr>ps_health :=
                 (if delay_ns > NTP_PEER_DEGRADED_DELAY_NS \<or> ps_jitter_ns p > NTP_PEER_DEGRADED_JITTER_NS
                  then NTP_PEER_HEALTH_DEGRADED else NTP_PEER_HEALTH_HEALTHY)\<rparr>) s)
               (compute_rolling_stats (px_runtime s ! i) p))"

subsection \<open>A poll\<close>

text \<open>The resolved address, whether the socket opens, the clock, whether 48 octets were sent, and the timer.\<close>

record poll_start =
  st_resolved :: "u32 option"
  st_socket :: bool
  st_t1 :: "clock_ntp_timestamp option"
  st_sent :: bool
  st_now_us :: int

definition poll_request :: "clock_ntp_timestamp \<Rightarrow> bytes" where
  "poll_request t1 =
    poke (poke (poke (replicate NTP_PACKET_SIZE_peer 0) 0 [push_bit 3 NTP_VERSION OR NTP_MODE_CLIENT_peer]) 40 (be32 (ct_seconds t1)))
      44 (be32 (ct_fraction t1))"

definition begin_poll :: "nat \<Rightarrow> u32 \<Rightarrow> poll_start \<Rightarrow> peer_sys \<Rightarrow> bool \<times> poll_context \<times> peer_sys" where
  "begin_poll i timeout_ms b s =
    (let failed = (\<lambda>ctx dns. (False, ctx, update_failure i NTP_PEER_HEALTH_DEGRADED False dns False False s)) in
     case st_resolved b of
       None \<Rightarrow> failed zero_poll_context True
     | Some addr \<Rightarrow>
         let ctx = zero_poll_context\<lparr>pc_address := (addr, NTP_PORT)\<rparr> in
         if \<not> st_socket b then failed ctx False
         else case st_t1 b of
                None \<Rightarrow> failed ctx False
              | Some t1 \<Rightarrow>
                  if \<not> st_sent b then failed (ctx\<lparr>pc_t1 := t1\<rparr>) False
                  else (True, ctx\<lparr> pc_sock := True, pc_t1 := t1, pc_active := True,
                          pc_deadline_us := st_now_us b + uint timeout_ms * 1000 \<rparr>, s))"

definition finish_context :: "poll_context \<Rightarrow> poll_context" where
  "finish_context ctx = ctx\<lparr>pc_sock := False, pc_active := False, pc_completed := True\<rparr>"

text \<open>What \<open>recvfrom\<close> gives: \<open>Inl True\<close> for \<open>EAGAIN\<close> or \<open>EWOULDBLOCK\<close>; then the clock and the timer.\<close>

record arrival =
  ar_received :: "bool + bytes \<times> u32 \<times> u16"
  ar_t4 :: "clock_ntp_timestamp option"
  ar_now_us :: int

definition well_formed_response :: "bytes \<Rightarrow> clock_ntp_timestamp \<Rightarrow> bool" where
  "well_formed_response response t1 \<longleftrightarrow>
     \<not> (drop_bit 3 (response ! 0) AND 7 < 3 \<or> response ! 0 AND 7 \<noteq> NTP_MODE_SERVER_peer \<or> drop_bit 6 (response ! 0) = 3 \<or>
        response ! 1 > 15 \<or> de_be32 (drop 24 response) \<noteq> ct_seconds t1 \<or> de_be32 (drop 28 response) \<noteq> ct_fraction t1 \<or>
        (de_be32 (drop 32 response) = 0 \<and> de_be32 (drop 36 response) = 0) \<or>
        (de_be32 (drop 40 response) = 0 \<and> de_be32 (drop 44 response) = 0))"

definition fixed_at :: "bytes \<Rightarrow> nat \<Rightarrow> u64" where
  "fixed_at response off = push_bit 32 (ucast (de_be32 (drop off response))) OR ucast (de_be32 (drop (off + 4) response))"

definition offset_of :: "u64 \<Rightarrow> u64 \<Rightarrow> u64 \<Rightarrow> u64 \<Rightarrow> int" where
  "offset_of f1 f2 f3 f4 =
    (let a = fixed_delta_ns f2 f1; b = fixed_delta_ns f3 f4 in quot a 2 + quot b 2 + quot (crem a 2 + crem b 2) 2)"

definition delay_of :: "u64 \<Rightarrow> u64 \<Rightarrow> u64 \<Rightarrow> u64 \<Rightarrow> int" where
  "delay_of f1 f2 f3 f4 = fixed_delta_ns f4 f1 - fixed_delta_ns f3 f2"

definition process_response :: "nat \<Rightarrow> arrival \<Rightarrow> poll_context \<Rightarrow> peer_sys \<Rightarrow> (poll_context \<times> peer_sys) option" where
  "process_response i ar ctx s =
    (let rejected = (\<lambda>requested duplicate s. Some (finish_context ctx, update_failure i requested False False True duplicate s)) in
     case ar_received ar of
       Inl again \<Rightarrow>
         if again then Some (ctx, s)
         else Some (finish_context ctx, update_failure i NTP_PEER_HEALTH_DEGRADED False False False False s)
     | Inr (response, source) \<Rightarrow>
         (case ar_t4 ar of
            None \<Rightarrow> rejected NTP_PEER_HEALTH_INVALID False s
          | Some t4 \<Rightarrow>
              if length response < NTP_PACKET_SIZE_peer \<or> source \<noteq> pc_address ctx then rejected NTP_PEER_HEALTH_INVALID False s
              else if response ! 1 = 0 then
                rejected NTP_PEER_HEALTH_KOD False
                  (on_peer i (\<lambda>p. p\<lparr>ps_kod_responses := ps_kod_responses p + 1, ps_reference_id := reference_id_to_text response 0\<rparr>) s)
              else if \<not> well_formed_response response (pc_t1 ctx) then rejected NTP_PEER_HEALTH_INVALID False s
              else
                let f1 = timestamp_to_fixed (pc_t1 ctx); f2 = fixed_at response 32; f3 = fixed_at response 40;
                    f4 = timestamp_to_fixed t4; rt = px_runtime s ! i
                in if rt_last_server_t3_valid rt \<and> rt_last_server_t3 rt = f3 then rejected NTP_PEER_HEALTH_INVALID True s
                   else if delay_of f1 f2 f3 f4 < 0 then rejected NTP_PEER_HEALTH_INVALID False s
                   else map_option (Pair (finish_context ctx))
                          (update_success i response f3 (offset_of f1 f2 f3 f4) (delay_of f1 f2 f3 f4) (ar_now_us ar) s)))"

subsection \<open>All peers\<close>

text \<open>The polls in progress: the contexts, and how many are pending.\<close>

record polls =
  po_contexts :: "poll_context list"
  po_pending :: u32
  po_sys :: peer_sys

definition begin_one :: "device_config_snapshot \<Rightarrow> (nat \<Rightarrow> poll_start) \<Rightarrow> nat \<Rightarrow> polls \<Rightarrow> polls" where
  "begin_one config starts i st =
    (let p = dc_ntp_peers config ! i in
     if np_enabled p \<and> np_server p \<noteq> [] then
       let (started, ctx, s) = begin_poll i (dc_ntp_peer_response_timeout_ms config) (starts i) (po_sys st)
       in st\<lparr> po_contexts := (po_contexts st)[i := ctx], po_sys := s, po_pending := (if started then po_pending st + 1 else po_pending st)\<rparr>
     else st)"

definition begin_all :: "device_config_snapshot \<Rightarrow> (nat \<Rightarrow> poll_start) \<Rightarrow> peer_sys \<Rightarrow> polls" where
  "begin_all config starts s =
    fold (begin_one config starts) [0..<APP_NTP_PEER_MAX_COUNT]
      \<lparr>po_contexts = replicate APP_NTP_PEER_MAX_COUNT zero_poll_context, po_pending = 0, po_sys = s\<rparr>"

text \<open>The first loop of a pass: contexts past their deadline end.\<close>

definition fail_context :: "bool \<Rightarrow> nat \<Rightarrow> polls \<Rightarrow> polls" where
  "fail_context timeout i st =
    st\<lparr> po_sys := update_failure i NTP_PEER_HEALTH_DEGRADED timeout False False False (po_sys st),
       po_contexts := (po_contexts st)[i := finish_context (po_contexts st ! i)], po_pending := po_pending st - 1 \<rparr>"

definition expire_one :: "int \<Rightarrow> nat \<Rightarrow> polls \<Rightarrow> polls" where
  "expire_one now_us i st =
    (if \<not> pc_active (po_contexts st ! i) then st
     else if now_us \<ge> pc_deadline_us (po_contexts st ! i) then fail_context True i st
     else st)"

text \<open>What \<open>select\<close> gives: interrupted, another error, or what arrives at the sockets that are ready.\<close>

datatype select_result = Interrupted | Select_Error | Ready "nat \<Rightarrow> arrival option"

record select_round =
  sr_now_us :: int
  sr_select :: select_result

definition receive_one :: "(nat \<Rightarrow> arrival option) \<Rightarrow> nat \<Rightarrow> polls \<Rightarrow> polls option" where
  "receive_one ready i st =
    (case (pc_active (po_contexts st ! i), ready i) of
       (True, Some ar) \<Rightarrow>
         map_option (\<lambda>(ctx, s). st\<lparr> po_contexts := (po_contexts st)[i := ctx], po_sys := s,
             po_pending := (if pc_completed ctx then po_pending st - 1 else po_pending st) \<rparr>)
           (process_response i ar (po_contexts st ! i) (po_sys st))
     | _ \<Rightarrow> Some st)"

fun receive_from :: "(nat \<Rightarrow> arrival option) \<Rightarrow> nat list \<Rightarrow> polls \<Rightarrow> polls option" where
  "receive_from ready [] st = Some st"
| "receive_from ready (i # is) st = Option.bind (receive_one ready i st) (receive_from ready is)"

text \<open>A pass of the loop; the flag is its \<open>break\<close>.\<close>

definition poll_round :: "select_round \<Rightarrow> polls \<Rightarrow> (bool \<times> polls) option" where
  "poll_round r st =
    (let st = fold (expire_one (sr_now_us r)) [0..<APP_NTP_PEER_MAX_COUNT] st;
         some_socket = (\<exists>i \<in> set [0..<APP_NTP_PEER_MAX_COUNT]. pc_active (po_contexts st ! i))
     in if po_pending st = 0 \<or> \<not> some_socket then Some (True, st)
        else case sr_select r of
               Interrupted \<Rightarrow> Some (False, st)
             | Select_Error \<Rightarrow>
                 Some (True, fold (\<lambda>i st. if pc_active (po_contexts st ! i) then fail_context False i st else st)
                   [0..<APP_NTP_PEER_MAX_COUNT] st)
             | Ready ready \<Rightarrow> map_option (Pair False) (receive_from ready [0..<APP_NTP_PEER_MAX_COUNT] st))"

text \<open>The loop over the passes the list holds; the flag says that it has ended.\<close>

fun wait_loop :: "select_round list \<Rightarrow> polls \<Rightarrow> (bool \<times> polls) option" where
  "wait_loop [] st = Some (po_pending st = 0, st)"
| "wait_loop (r # rs) st =
    (if po_pending st = 0 then Some (True, st)
     else Option.bind (poll_round r st) (\<lambda>(stop, st). if stop then Some (True, st) else wait_loop rs st))"

definition poll_all_peers ::
    "device_config_snapshot \<Rightarrow> (nat \<Rightarrow> poll_start) \<Rightarrow> select_round list \<Rightarrow> peer_sys \<Rightarrow> (bool \<times> peer_sys) option" where
  "poll_all_peers config starts rounds s =
    map_option (\<lambda>(ended, st). (ended, po_sys st)) (wait_loop rounds (begin_all config starts s))"

subsection \<open>The aggregate\<close>

definition observed :: "ntp_peer_status \<Rightarrow> bool" where
  "observed p \<longleftrightarrow> ps_samples p \<noteq> 0 \<and> ps_health p \<noteq> NTP_PEER_HEALTH_UNREACHABLE \<and> ps_health p \<noteq> NTP_PEER_HEALTH_KOD \<and>
     ps_health p \<noteq> NTP_PEER_HEALTH_INVALID"

definition int64_max :: int where "int64_max = 2 ^ 63 - 1"

definition score_of :: "ntp_peer_status \<Rightarrow> int" where
  "score_of p =
    (let jitter_score = abs_i64 (ps_jitter_ns p); delay_score = (if ps_delay_ns p > 0 then quot (ps_delay_ns p) 4 else 0);
         score = abs_i64 (ps_offset_ns p);
         score = (if score > int64_max - jitter_score then int64_max else score + jitter_score)
     in if score > int64_max - delay_score then int64_max else score + delay_score)"

text \<open>The extreme offsets, the number of peers seen and the best of them with its score.\<close>

record aggregate =
  ag_range :: "(int \<times> int) option"
  ag_sampled :: u32
  ag_best :: "(nat \<times> int) option"

definition aggregate_peer :: "nat \<times> ntp_peer_status \<Rightarrow> aggregate \<Rightarrow> aggregate" where
  "aggregate_peer = (\<lambda>(i, p) g.
    if \<not> ps_configured p \<or> \<not> observed p then g
    else
      g\<lparr> ag_sampled := ag_sampled g + 1,
         ag_range := (case ag_range g of None \<Rightarrow> Some (ps_offset_ns p, ps_offset_ns p)
            | Some (lo, hi) \<Rightarrow> Some (if ps_offset_ns p < lo then ps_offset_ns p else lo, if ps_offset_ns p > hi then ps_offset_ns p else hi)),
         ag_best := (case ag_best g of None \<Rightarrow> Some (i, score_of p)
            | Some (j, best) \<Rightarrow> if score_of p < best then Some (i, score_of p) else Some (j, best)) \<rparr>)"

definition set_age :: "int \<Rightarrow> peer_runtime \<times> ntp_peer_status \<Rightarrow> ntp_peer_status" where
  "set_age now_us = (\<lambda>(rt, p).
    if ps_configured p \<and> rt_last_success_us rt > 0 then
      let age_us = now_us - rt_last_success_us rt
      in p\<lparr>ps_last_success_age_seconds := (if age_us > 0 then word_of_int (quot age_us 1000000) else 0)\<rparr>
    else p)"

definition refresh_aggregate_health :: "int \<Rightarrow> peer_sys \<Rightarrow> peer_sys option" where
  "refresh_aggregate_health now_us s =
    (if \<not> px_lock s then Some s
     else
       let peers = map (set_age now_us) (zip (px_runtime s) (pm_peers (px_status s)));
           g = fold aggregate_peer (zip [0..<APP_NTP_PEER_MAX_COUNT] peers) \<lparr>ag_range = None, ag_sampled = 0, ag_best = None\<rparr>;
           spread_valid = (ag_sampled g \<ge> 2);
           (lo, hi) = (case ag_range g of None \<Rightarrow> (0, 0) | Some lh \<Rightarrow> lh);
           spread = (if spread_valid then hi - lo else 0)
       in if \<not> in_int64 spread then None
          else
            let divergent = (spread_valid \<and> spread > NTP_PEER_DIVERGENT_NS);
                peers = (if divergent
                  then map (\<lambda>p. if ps_configured p \<and> observed p then p\<lparr>ps_health := NTP_PEER_HEALTH_DIVERGENT\<rparr> else p) peers else peers)
            in Some (s\<lparr>px_status := (px_status s)\<lparr> pm_peers := peers,
                 pm_best_observed_peer_valid := (ag_best g \<noteq> None),
                 pm_best_observed_peer_index := (case ag_best g of None \<Rightarrow> 0 | Some (i, _) \<Rightarrow> of_nat i),
                 pm_cross_peer_spread_valid := spread_valid, pm_cross_peer_spread_ns := spread,
                 pm_healthy_peers := of_nat (length (filter (\<lambda>p. ps_health p = NTP_PEER_HEALTH_HEALTHY) peers)) \<rparr>\<rparr>))"

subsection \<open>The task\<close>

text \<open>What a round of the task sees: the configuration, the polls, the timer, and the configuration after each wait.\<close>

record monitor_env =
  me_config :: "esp_err + device_config_snapshot"
  me_starts :: "nat \<Rightarrow> poll_start"
  me_rounds :: "select_round list"
  me_now_us :: int
  me_latest :: "(esp_err + device_config_snapshot) list"

fun wait_slices :: "u32 \<Rightarrow> u32 \<Rightarrow> (esp_err + device_config_snapshot) list \<Rightarrow> peer_sys \<Rightarrow> peer_sys" where
  "wait_slices target_ms waited_ms [] s = s"
| "wait_slices target_ms waited_ms (latest # ls) s =
    (if waited_ms < target_ms then
       let slice = (if target_ms - waited_ms > NTP_PEER_CONFIG_CHECK_MS then NTP_PEER_CONFIG_CHECK_MS else target_ms - waited_ms);
           (changed, s1) = (case latest of Inr c \<Rightarrow> sync_config c s | Inl _ \<Rightarrow> (False, s))
       in if changed then s1 else wait_slices target_ms (waited_ms + slice) ls s1
     else s)"

text \<open>The flag is False where the passes given do not end the polls.\<close>

definition monitor_task :: "monitor_env \<Rightarrow> peer_sys \<Rightarrow> (bool \<times> peer_sys) option" where
  "monitor_task e s =
    (case me_config e of
       Inl _ \<Rightarrow> Some (True, s)
     | Inr config \<Rightarrow>
         let s = snd (sync_config config s); enabled = dc_ntp_peer_monitor_enabled config;
             interval = (if dc_ntp_peer_poll_interval_seconds config \<ge> APP_NTP_PEER_POLL_MIN_SECONDS
                         then dc_ntp_peer_poll_interval_seconds config else APP_NTP_PEER_POLL_DEFAULT_SECONDS);
             target_ms = (if enabled then interval * 1000 else NTP_PEER_CONFIG_CHECK_MS)
         in Option.bind (if enabled then poll_all_peers config (me_starts e) (me_rounds e) s else Some (True, s)) (\<lambda>(ended, s).
            if \<not> ended then Some (False, s)
            else
              let s = (if enabled \<and> px_lock s
                       then s\<lparr>px_status := (px_status s)\<lparr>pm_poll_cycles := pm_poll_cycles (px_status s) + 1\<rparr>\<rparr> else s)
              in map_option (\<lambda>s. (True, wait_slices target_ms 0 (me_latest e) s)) (refresh_aggregate_health (me_now_us e) s)))"

text \<open>Whether the mutex and the task could be created.\<close>

definition ntp_peer_monitor_start :: "bool \<Rightarrow> bool \<Rightarrow> peer_sys \<Rightarrow> esp_err \<times> peer_sys" where
  "ntp_peer_monitor_start mutex task s =
    (if px_running s then (ESP_OK, s)
     else if \<not> px_initialized s \<and> \<not> mutex then (ESP_ERR_NO_MEM, s\<lparr>px_lock := False\<rparr>)
     else
       let s = (if px_initialized s then s
                else s\<lparr> px_lock := True, px_status := zero_monitor_status\<lparr>pm_status_initialized := True\<rparr>,
                       px_runtime := replicate APP_NTP_PEER_MAX_COUNT zero_runtime, px_initialized := True \<rparr>)
       in if \<not> task then (ESP_ERR_NO_MEM, s)
          else
            let s = s\<lparr>px_running := True\<rparr>
            in (ESP_OK, if px_lock s then s\<lparr>px_status := (px_status s)\<lparr>pm_status_running := True\<rparr>\<rparr> else s))"

definition ntp_peer_monitor_is_running :: "peer_sys \<Rightarrow> bool" where
  "ntp_peer_monitor_is_running s = px_running s"

text \<open>False is the NULL argument.\<close>

definition ntp_peer_monitor_get_status :: "bool \<Rightarrow> peer_sys \<Rightarrow> ntp_peer_monitor_status option" where
  "ntp_peer_monitor_get_status has_out s =
    (if \<not> has_out \<or> \<not> px_initialized s \<or> \<not> px_lock s then None else Some (px_status s))"

declare isqrt_top.simps [simp del] isqrt_loop.simps [simp del]

end
