(* ===== verification/Peer_Arith.thy ===== *)
theory Peer_Arith
  imports Peer_Monitor
begin

text \<open>
  The arithmetic of the peer monitor: the integer square root, the differences of NTP timestamps in nanoseconds, and what
  the offset and the delay computed from an exchange say about the two clocks.
\<close>

subsection \<open>The square root\<close>

lemma unat_shift: "unat (drop_bit n w) = unat w div 2 ^ n" for w :: u64
proof -
  have "unat (drop_bit n w) = drop_bit n (unat w)" by (rule unat_drop_bit_eq)
  then show ?thesis by (simp only: drop_bit_eq_div [of n "unat w"])
qed

lemma unat_add_u64: "unat a + unat b < 2 ^ 64 \<Longrightarrow> unat (a + b) = unat a + unat b" for a b :: u64
  by (simp add: unat_word_ariths)

lemma partial_root_bound: "s * p * 2 + p * p < 2 ^ 64" if "s + 2 * p \<le> 2 ^ 32" "0 < p" for s p :: nat
proof -
  have "s * p * 2 + p * p \<le> (s + p) * (s + p)" by (simp add: algebra_simps)
  also have "\<dots> < 2 ^ 32 * 2 ^ 32" using that by (intro mult_strict_mono) linarith+
  finally show ?thesis by simp
qed

text \<open>
  The step at bit \<open>p * p\<close>: \<open>s\<close> is the root so far, the word \<open>v\<close> holds \<open>N - s * s\<close> and \<open>res\<close> holds \<open>2 * s * p\<close>.
\<close>

lemma isqrt_loop_root:
  assumes "unat bt = 2 ^ k * 2 ^ k" "unat res = s * 2 ^ k * 2" "s * s \<le> N" "unat v = N - s * s"
    and "N < (s + 2 * 2 ^ k) * (s + 2 * 2 ^ k)" "s + 2 * 2 ^ k \<le> 2 ^ 32"
  shows "unat (isqrt_loop v res bt) * unat (isqrt_loop v res bt) \<le> N \<and>
    N < (unat (isqrt_loop v res bt) + 1) * (unat (isqrt_loop v res bt) + 1)"
  using assms
proof (induction k arbitrary: bt res s v)
  case 0
  have bt: "bt \<noteq> 0" "drop_bit 2 bt = 0" using 0(1) unat_shift [of 2 bt] by (auto simp: unat_eq_0 [symmetric] simp del: unat_eq_0)
  have b: "unat (res + bt) = s * 2 + 1" using 0 by (subst unat_add_u64) simp_all
  have h: "unat (drop_bit 1 res) = s" using 0(2) unat_shift [of 1 res] by simp
  have e: "(s + 1) * (s + 1) = s * s + (s * 2 + 1)" by (simp add: algebra_simps)
  show ?case
  proof (cases "res + bt \<le> v")
    case True
    then have "s * 2 + 1 \<le> N - s * s" using b 0(4) by (simp add: word_le_nat_alt)
    then have "(s + 1) * (s + 1) \<le> N" using e 0(3) by linarith
    moreover have "unat (drop_bit 1 res + bt) = s + 1" using h 0 by (subst unat_add_u64) simp_all
    moreover have "N < (s + 1 + 1) * (s + 1 + 1)" using 0(5) by (simp add: algebra_simps)
    ultimately show ?thesis using True bt by (simp add: isqrt_loop.simps [of v res bt] isqrt_loop.simps [of _ _ 0])
  next
    case False
    then have "N - s * s < s * 2 + 1" using b 0(4) by (simp add: word_le_nat_alt)
    then have "N < (s + 1) * (s + 1)" using e by linarith
    then show ?thesis using False bt h 0(3) by (simp add: isqrt_loop.simps [of v res bt] isqrt_loop.simps [of _ _ 0])
  qed
next
  case (Suc k)
  define q :: nat where "q = 2 ^ k"
  define p :: nat where "p = 2 * q"
  have pos: "0 < q" "0 < p" by (simp_all add: q_def p_def)
  have a: "unat bt = p * p" "unat res = s * p * 2" "N < (s + 2 * p) * (s + 2 * p)" "s + 2 * p \<le> 2 ^ 32"
    using Suc.prems(1,2,5,6) by (simp_all add: p_def q_def)
  have bt: "bt \<noteq> 0" "unat (drop_bit 2 bt) = q * q"
    using a(1) pos unat_shift [of 2 bt] by (auto simp: unat_eq_0 [symmetric] p_def simp del: unat_eq_0)
  have h: "unat (drop_bit 1 res) = s * p" using a(2) unat_shift [of 1 res] by simp
  have lim: "s * p * 2 + p * p < 2 ^ 64" using a(4) pos(2) by (rule partial_root_bound)
  have b: "unat (res + bt) = s * p * 2 + p * p" using a lim by (subst unat_add_u64) simp_all
  have e: "(s + p) * (s + p) = s * s + (s * p * 2 + p * p)" by (simp add: algebra_simps)
  show ?case
  proof (cases "res + bt \<le> v")
    case True
    then have le: "s * p * 2 + p * p \<le> N - s * s" using b Suc.prems(4) by (simp add: word_le_nat_alt)
    then have sq: "(s + p) * (s + p) \<le> N" using e Suc.prems(3) by linarith
    have "unat (v - (res + bt)) = N - (s + p) * (s + p)"
      using True b Suc.prems(4) e by (simp add: unat_sub)
    moreover have "unat (drop_bit 1 res + bt) = (s + p) * 2 ^ k * 2"
      using h a(1) lim by (subst unat_add_u64) (simp_all add: p_def q_def algebra_simps)
    ultimately show ?thesis
      using Suc.IH [of "drop_bit 2 bt" "drop_bit 1 res + bt" "s + p" "v - (res + bt)"] True bt sq a(3,4)
      by (simp add: isqrt_loop.simps [of v res bt] p_def q_def algebra_simps)
  next
    case False
    then have "N - s * s < s * p * 2 + p * p" using b Suc.prems(4) by (simp add: word_le_nat_alt)
    then have "N < (s + p) * (s + p)" using e by linarith
    then show ?thesis
      using Suc.IH [of "drop_bit 2 bt" "drop_bit 1 res" s v] False bt h a(4) Suc.prems(3,4)
      by (simp add: isqrt_loop.simps [of v res bt] p_def q_def)
  qed
qed

text \<open>The first loop finds the highest power of four within the number.\<close>

lemma isqrt_top_power:
  assumes "unat bt = 2 ^ k * 2 ^ k" "unat v < 4 * (2 ^ k * 2 ^ k)" "v \<noteq> 0"
  shows "\<exists>j \<le> k. unat (isqrt_top v bt) = 2 ^ j * 2 ^ j \<and> unat v < 4 * (2 ^ j * 2 ^ j)"
  using assms
proof (induction k arbitrary: bt)
  case 0
  then have "\<not> bt > v" using unat_gt_0 [of v] by (auto simp: word_less_nat_alt)
  then show ?case using 0 by (simp add: isqrt_top.simps [of v bt])
next
  case (Suc k)
  show ?case
  proof (cases "bt > v")
    case True
    have d: "unat (drop_bit 2 bt) = 2 ^ k * 2 ^ k" using Suc.prems(1) unat_shift [of 2 bt] by simp
    moreover have "unat v < 4 * (2 ^ k * 2 ^ k)" using True Suc.prems(1) by (simp add: word_less_nat_alt)
    ultimately show ?thesis using Suc.IH [of "drop_bit 2 bt"] Suc.prems(3) True
      by (auto simp: isqrt_top.simps [of v bt] intro: le_SucI)
  next
    case False
    then show ?thesis using Suc.prems by (intro exI [of _ "Suc k"]) (simp add: isqrt_top.simps [of v bt])
  qed
qed

lemma isqrt_root:
  "unat (isqrt_u64 v) * unat (isqrt_u64 v) \<le> unat v \<and> unat v < (unat (isqrt_u64 v) + 1) * (unat (isqrt_u64 v) + 1)"
proof (cases "v = 0")
  case True
  have "unat (isqrt_u64 0) = 0" by code_simp
  then show ?thesis using True by simp
next
  case False
  have "unat (push_bit 62 1 :: u64) = 2 ^ 31 * 2 ^ 31" by simp
  moreover have "unat v < 4 * (2 ^ 31 * 2 ^ 31)" using unsigned_less [of v, where ?'a = nat] by simp
  ultimately obtain j where j: "j \<le> 31" "unat (isqrt_top v (push_bit 62 1)) = 2 ^ j * 2 ^ j" "unat v < 4 * (2 ^ j * 2 ^ j)"
    using isqrt_top_power [OF _ _ False] by blast
  have "2 ^ j \<le> (2 ^ 31 :: nat)" using j(1) by (intro power_increasing) simp_all
  then have "0 + 2 * 2 ^ j \<le> (2 ^ 32 :: nat)" by simp
  then show ?thesis unfolding isqrt_u64_def using j by (intro isqrt_loop_root [where k = j and s = 0]) simp_all
qed

text \<open>
  The shift-and-subtract routine computes the integer square root of every 64-bit number: the largest number whose
  square does not exceed it. Both of its loops end.
\<close>
theorem isqrt_exact:
  "unat (isqrt_u64 v) * unat (isqrt_u64 v) \<le> unat v \<and> unat v < (unat (isqrt_u64 v) + 1) * (unat (isqrt_u64 v) + 1)"
  by (rule isqrt_root)

subsection \<open>Nanoseconds\<close>

lemma quot_crem: "a = b * quot a b + crem a b"
  by (simp add: crem_def)

text \<open>Division toward zero, over the rationals.\<close>

lemma quot_error: "0 < d \<Longrightarrow> \<bar>of_int (quot x d) - of_int x / of_int d\<bar> < (1 :: rat)"
proof -
  assume d: "0 < d"
  let ?y = "\<bar>x\<bar>"
  have m: "?y = ?y div d * d + ?y mod d" "0 \<le> ?y mod d" "?y mod d < d" using d by simp_all
  then have "?y div d * d \<le> ?y" "?y < ?y div d * d + d" by linarith+
  then have "of_int (?y div d * d) \<le> (of_int ?y :: rat)" "(of_int ?y :: rat) < of_int (?y div d * d + d)"
    by (simp_all only: of_int_le_iff of_int_less_iff)
  then have r: "of_int (?y div d) * of_int d \<le> (of_int ?y :: rat)" "(of_int ?y :: rat) < (of_int (?y div d) + 1) * of_int d"
    by (simp_all add: algebra_simps)
  have p: "0 < (of_int d :: rat)" using d by simp
  then have b: "of_int (?y div d) \<le> (of_int ?y / of_int d :: rat)" "(of_int ?y / of_int d :: rat) < of_int (?y div d) + 1"
    using r by (simp_all add: pos_le_divide_eq pos_divide_less_eq)
  have "quot x d = sgn x * (?y div d)" using d by (simp add: quot_def)
  then have "of_int (quot x d) - of_int x / of_int d = (of_int (sgn x) :: rat) * (of_int (?y div d) - of_int ?y / of_int d)"
    by (simp add: right_diff_distrib sgn_if)
  also have "\<bar>\<dots>\<bar> \<le> \<bar>of_int (?y div d) - of_int ?y / of_int d\<bar>" by (simp add: sgn_if abs_mult)
  also have "\<dots> < 1" using b by (simp add: abs_less_iff)
  finally show ?thesis .
qed

definition ns_of :: "int \<Rightarrow> rat" where
  "ns_of delta = of_int delta * 1000000000 / 4294967296"

lemma fixed_delta_error: "\<bar>of_int (fixed_delta_ns a b) - ns_of (sint (a - b))\<bar> < 1"
proof -
  let ?d = "sint (a - b)"
  let ?w = "quot ?d 4294967296" and ?f = "crem ?d 4294967296"
  have "ns_of ?d = ns_of (4294967296 * ?w + ?f)" by (simp only: quot_crem [symmetric])
  also have "\<dots> = of_int ?w * 1000000000 + of_int (?f * 1000000000) / of_int 4294967296"
    by (simp add: ns_of_def field_simps)
  finally have "of_int (fixed_delta_ns a b) - ns_of ?d =
      of_int (quot (?f * 1000000000) 4294967296) - of_int (?f * 1000000000) / of_int 4294967296"
    by (simp add: fixed_delta_ns_def Let_def)
  then show ?thesis using quot_error [of 4294967296 "?f * 1000000000"] by simp
qed

lemma half_error: "\<bar>of_int (quot a 2 + quot b 2 + quot (crem a 2 + crem b 2) 2) - (of_int a + of_int b) / 2\<bar> \<le> (1 / 2 :: rat)"
proof -
  let ?ra = "crem a 2" and ?rb = "crem b 2"
  have r: "\<bar>crem x 2\<bar> \<le> 1" for x by (simp add: crem_def quot_def abs_if sgn_if) linarith
  then have "- 2 \<le> ?ra + ?rb" "?ra + ?rb \<le> 2" using r [of a] r [of b] by linarith+
  then have "?ra + ?rb \<in> {- 2, - 1, 0, 1, 2}" by auto
  then have q: "\<bar>2 * quot (?ra + ?rb) 2 - (?ra + ?rb)\<bar> \<le> 1" by (auto simp: quot_def)
  let ?o = "quot a 2 + quot b 2 + quot (?ra + ?rb) 2"
  have "2 * ?o - (a + b) = 2 * quot (?ra + ?rb) 2 - (?ra + ?rb)" by (simp add: crem_def algebra_simps)
  then have "\<bar>2 * ?o - (a + b)\<bar> \<le> 1" using q by (simp only:)
  then have "\<bar>of_int (2 * ?o - (a + b))\<bar> \<le> (1 :: rat)" by (simp only: of_int_1_le_iff of_int_abs [symmetric] of_int_le_1_iff)
  then show ?thesis by (simp add: abs_le_iff field_simps)
qed

text \<open>
  An exchange: the server's clock is ahead by \<open>theta\<close>, the request takes \<open>d1\<close>, the response \<open>d2\<close>, in seconds; the four
  instants lie within 2^29 seconds of each other.
\<close>

definition exchange :: "u64 \<Rightarrow> u64 \<Rightarrow> u64 \<Rightarrow> u64 \<Rightarrow> rat \<Rightarrow> rat \<Rightarrow> rat \<Rightarrow> bool" where
  "exchange f1 f2 f3 f4 theta d1 d2 \<longleftrightarrow> 0 \<le> d1 \<and> 0 \<le> d2 \<and>
     of_int (sint (f2 - f1)) / 4294967296 = theta + d1 \<and> of_int (sint (f3 - f4)) / 4294967296 = theta - d2 \<and>
     \<bar>sint (f2 - f1)\<bar> < 2 ^ 61 \<and> \<bar>sint (f3 - f4)\<bar> < 2 ^ 61 \<and> \<bar>sint (f4 - f1)\<bar> < 2 ^ 61 \<and> \<bar>sint (f3 - f2)\<bar> < 2 ^ 61"

lemma sint_round_trip:
  fixes f1 f2 f3 f4 :: u64
  assumes "\<bar>sint (f2 - f1)\<bar> < 2 ^ 61" "\<bar>sint (f3 - f4)\<bar> < 2 ^ 61" "\<bar>sint (f4 - f1)\<bar> < 2 ^ 61" "\<bar>sint (f3 - f2)\<bar> < 2 ^ 61"
  shows "sint (f4 - f1) - sint (f3 - f2) = sint (f2 - f1) - sint (f3 - f4)"
proof -
  let ?x = "sint (f4 - f1) - sint (f3 - f2)" and ?y = "sint (f2 - f1) - sint (f3 - f4)"
  have "(word_of_int ?x :: u64) = (f4 - f1) - (f3 - f2)" "(word_of_int ?y :: u64) = (f2 - f1) - (f3 - f4)"
    by simp_all
  then have "(word_of_int ?x :: u64) = word_of_int ?y" by (simp only:) (simp add: algebra_simps)
  then have "sint (word_of_int ?x :: u64) = sint (word_of_int ?y :: u64)" by (rule arg_cong)
  moreover have "sint (word_of_int z :: u64) = z" if "\<bar>z\<bar> < 2 ^ 62" for z
    using that by (simp add: sint_sbintrunc' abs_less_iff) (intro signed_take_bit_int_eq_self; simp)
  moreover have "\<bar>?x\<bar> < 2 ^ 62" "\<bar>?y\<bar> < 2 ^ 62" using assms by (simp_all add: abs_less_iff)
  ultimately show ?thesis by metis
qed

lemma combine_errors:
  fixes off fa fb fc fd t e1 e2 c d :: rat
  assumes "\<bar>off - (fa + fb) / 2\<bar> \<le> 1 / 2" "\<bar>fa - (t + e1)\<bar> < 1" "\<bar>fb - (t - e2)\<bar> < 1" "\<bar>fc - c\<bar> < 1" "\<bar>fd - d\<bar> < 1"
    and "c - d = e1 + e2" "0 \<le> e1" "0 \<le> e2"
  shows "\<bar>off - t\<bar> \<le> (fc - fd) / 2 + 3"
proof -
  note o = abs_le_D1 [OF assms(1)] abs_le_D2 [OF assms(1)]
    and b = assms(2-5) [unfolded abs_less_iff, THEN conjunct1] assms(2-5) [unfolded abs_less_iff, THEN conjunct2]
  have "2 * off \<le> fa + fb + 1" "fa + fb \<le> 2 * off + 1" using o by (simp_all add: field_simps)
  moreover have "fa < t + e1 + 1" "t + e1 < fa + 1" "fb < t - e2 + 1" "t - e2 < fb + 1" "c < fc + 1" "fd < d + 1"
    using b by (simp_all only: diff_less_eq minus_diff_eq add.commute)
  ultimately have "2 * (off - t) \<le> fc - fd + 6" "2 * - (off - t) \<le> fc - fd + 6" using assms(6-8) by simp_all
  then have "off - t \<le> (fc - fd) / 2 + 3" "- (off - t) \<le> (fc - fd) / 2 + 3" by (simp_all add: field_simps)
  then show ?thesis by (rule abs_leI)
qed

lemma exchange_accurate:
  assumes "exchange f1 f2 f3 f4 theta d1 d2"
  shows "\<bar>of_int (offset_of f1 f2 f3 f4) - theta * 1000000000\<bar> \<le> of_int (delay_of f1 f2 f3 f4) / 2 + 3"
proof -
  let ?A = "sint (f2 - f1)" and ?B = "sint (f3 - f4)" and ?C = "sint (f4 - f1)" and ?D = "sint (f3 - f2)"
  note x = assms [unfolded exchange_def]
  have CD: "?C - ?D = ?A - ?B" by (intro sint_round_trip) (use x in simp_all)
  have A: "ns_of ?A = (theta + d1) * 1000000000" and B: "ns_of ?B = (theta - d2) * 1000000000"
    using x by (simp_all add: ns_of_def field_simps)
  have "ns_of ?C - ns_of ?D = ns_of (?C - ?D)" by (simp add: ns_of_def field_simps)
  also have "\<dots> = ns_of ?A - ns_of ?B" unfolding CD by (simp add: ns_of_def field_simps)
  also have "\<dots> = (d1 + d2) * 1000000000" unfolding A B by (simp add: field_simps)
  finally have C: "ns_of ?C - ns_of ?D = (d1 + d2) * 1000000000" .
  have o: "\<bar>of_int (offset_of f1 f2 f3 f4) - (of_int (fixed_delta_ns f2 f1) + of_int (fixed_delta_ns f3 f4)) / 2\<bar> \<le> (1 / 2 :: rat)"
    unfolding offset_of_def Let_def by (rule half_error)
  have t: "(theta + d1) * 1000000000 = theta * 1000000000 + d1 * 1000000000" "(theta - d2) * 1000000000 = theta * 1000000000 - d2 * 1000000000"
    "(d1 + d2) * 1000000000 = d1 * 1000000000 + d2 * 1000000000" by (simp_all add: algebra_simps)
  have d: "0 \<le> d1 * 1000000000" "0 \<le> d2 * 1000000000" using x by simp_all
  show ?thesis
    using combine_errors [OF o fixed_delta_error [of f2 f1, unfolded A t] fixed_delta_error [of f3 f4, unfolded B t]
        fixed_delta_error [of f4 f1] fixed_delta_error [of f3 f2] C [unfolded t] d]
    by (simp add: delay_of_def)
qed

end
