(* ===== verification/Peer_Theory.thy ===== *)
theory Peer_Theory
  imports Peer_Arith
begin

text \<open>
  What the peer monitor promises of one response. A sample is taken only from a response to the request of this poll, and
  its offset is right up to half its delay; but a response of stratum 0 is believed without looking at what it echoes.
\<close>

abbreviation peer_of :: "peer_sys \<Rightarrow> nat \<Rightarrow> ntp_peer_status" where
  "peer_of s i \<equiv> pm_peers (px_status s) ! i"

abbreviation runtime_of :: "peer_sys \<Rightarrow> nat \<Rightarrow> peer_runtime" where
  "runtime_of s i \<equiv> px_runtime s ! i"

definition slots_ok :: "peer_sys \<Rightarrow> bool" where
  "slots_ok s \<longleftrightarrow> px_lock s \<and> length (pm_peers (px_status s)) = 4 \<and> length (px_runtime s) = 4"

lemma slots_ok_updates [simp]: "slots_ok (on_peer i f s) = slots_ok s" "slots_ok (on_runtime i g s) = slots_ok s"
  "slots_ok (update_failure i h a b c d s) = slots_ok s"
  by (auto simp: slots_ok_def on_peer_def on_runtime_def update_failure_def)

lemma peer_of_updates:
  "slots_ok s \<Longrightarrow> i < 4 \<Longrightarrow> peer_of (on_peer i f s) i = f (peer_of s i)"
  "j \<noteq> i \<Longrightarrow> peer_of (on_peer i f s) j = peer_of s j"
  "peer_of (on_runtime i g s) j = peer_of s j"
  "slots_ok s \<Longrightarrow> i < 4 \<Longrightarrow> runtime_of (on_runtime i g s) i = g (runtime_of s i)"
  "runtime_of (on_peer i f s) j = runtime_of s j"
  by (auto simp: slots_ok_def on_peer_def on_runtime_def)

text \<open>What the rolling statistics leave alone.\<close>

lemma rolling_keeps:
  "compute_rolling_stats rt p = Some p' \<Longrightarrow> \<exists>q :: ntp_peer_status. p' = p\<lparr> ps_rolling_samples := ps_rolling_samples q,
     ps_min_offset_ns := ps_min_offset_ns q, ps_max_offset_ns := ps_max_offset_ns q, ps_mean_offset_ns := ps_mean_offset_ns q,
     ps_rms_offset_ns := ps_rms_offset_ns q, ps_min_delay_ns := ps_min_delay_ns q, ps_mean_delay_ns := ps_mean_delay_ns q,
     ps_jitter_ns := ps_jitter_ns q \<rparr>"
  by (rule exI [of _ p']) (cases p, auto simp: compute_rolling_stats_def Let_def bind_eq_Some_conv split: if_splits)

lemma success_effect:
  assumes "update_success i packet t3 off del now s = Some s'" "slots_ok s" "i < 4"
  shows "slots_ok s'" "runtime_of s' i = (push_sample off del (runtime_of s i))\<lparr> rt_last_server_t3 := t3, rt_last_server_t3_valid := True,
      rt_last_success_us := now \<rparr>"
    "ps_offset_ns (peer_of s' i) = off" "ps_delay_ns (peer_of s' i) = del"
    "ps_reachability (peer_of s' i) = push_bit 1 (ps_reachability (peer_of s i)) OR 1"
    "ps_successful_polls (peer_of s' i) = ps_successful_polls (peer_of s i) + 1"
    "ps_failed_polls (peer_of s' i) = ps_failed_polls (peer_of s i)" "ps_consecutive_failures (peer_of s' i) = 0"
    "ps_health (peer_of s' i) = NTP_PEER_HEALTH_DEGRADED \<or> ps_health (peer_of s' i) = NTP_PEER_HEALTH_HEALTHY"
proof -
  let ?s = "on_runtime i (\<lambda>rt. (push_sample off del rt)\<lparr> rt_last_server_t3 := t3, rt_last_server_t3_valid := True,
               rt_last_success_us := now \<rparr>) s"
  let ?p = "(peer_of ?s i)\<lparr> ps_reachability := push_bit 1 (ps_reachability (peer_of ?s i)) OR 1,
        ps_successful_polls := ps_successful_polls (peer_of ?s i) + 1, ps_consecutive_failures := 0,
        ps_samples := ps_samples (peer_of ?s i) + 1, ps_stratum := packet ! 1, ps_leap := drop_bit 6 (packet ! 0),
        ps_root_delay_16_16 := sint (de_be32 (drop 4 packet)), ps_root_dispersion_16_16 := de_be32 (drop 8 packet),
        ps_reference_id := reference_id_to_text packet (packet ! 1), ps_offset_ns := off, ps_delay_ns := del,
        ps_last_success_age_seconds := 0 \<rparr>"
  have l: "px_lock ?s" using assms(2) by (simp add: slots_ok_def on_runtime_def)
  obtain p' h where p: "compute_rolling_stats (runtime_of ?s i) ?p = Some p'"
    and s': "s' = on_peer i (\<lambda>_. p'\<lparr>ps_health := h\<rparr>) ?s" and h: "h = NTP_PEER_HEALTH_DEGRADED \<or> h = NTP_PEER_HEALTH_HEALTHY"
    using assms(1) l by (auto simp: update_success_def Let_def)
  obtain q :: ntp_peer_status where q: "p' = ?p\<lparr> ps_rolling_samples := ps_rolling_samples q,
     ps_min_offset_ns := ps_min_offset_ns q, ps_max_offset_ns := ps_max_offset_ns q, ps_mean_offset_ns := ps_mean_offset_ns q,
     ps_rms_offset_ns := ps_rms_offset_ns q, ps_min_delay_ns := ps_min_delay_ns q, ps_mean_delay_ns := ps_mean_delay_ns q,
     ps_jitter_ns := ps_jitter_ns q \<rparr>"
    using rolling_keeps [OF p] by blast
  show "slots_ok s'" using assms(2) by (simp add: s')
  show "runtime_of s' i = (push_sample off del (runtime_of s i))\<lparr> rt_last_server_t3 := t3, rt_last_server_t3_valid := True,
      rt_last_success_us := now \<rparr>" using assms(2,3) by (simp add: s' peer_of_updates)
  have "peer_of s' i = p'\<lparr>ps_health := h\<rparr>" using assms(2,3) by (simp add: s' peer_of_updates)
  then show "ps_offset_ns (peer_of s' i) = off" "ps_delay_ns (peer_of s' i) = del"
    "ps_reachability (peer_of s' i) = push_bit 1 (ps_reachability (peer_of s i)) OR 1"
    "ps_successful_polls (peer_of s' i) = ps_successful_polls (peer_of s i) + 1"
    "ps_failed_polls (peer_of s' i) = ps_failed_polls (peer_of s i)" "ps_consecutive_failures (peer_of s' i) = 0"
    "ps_health (peer_of s' i) = NTP_PEER_HEALTH_DEGRADED \<or> ps_health (peer_of s' i) = NTP_PEER_HEALTH_HEALTHY"
    using h unfolding q by (simp_all add: peer_of_updates)
qed

lemma failure_effect:
  assumes "slots_ok s" "i < 4"
  shows "runtime_of (update_failure i h a b c d s) j = runtime_of s j"
    "ps_reachability (peer_of (update_failure i h a b c d s) i) = push_bit 1 (ps_reachability (peer_of s i))"
    "ps_successful_polls (peer_of (update_failure i h a b c d s) i) = ps_successful_polls (peer_of s i)"
    "ps_failed_polls (peer_of (update_failure i h a b c d s) i) = ps_failed_polls (peer_of s i) + 1"
    "ps_consecutive_failures (peer_of (update_failure i h a b c d s) i) = ps_consecutive_failures (peer_of s i) + 1"
    "h = NTP_PEER_HEALTH_KOD \<or> h = NTP_PEER_HEALTH_INVALID \<Longrightarrow> ps_health (peer_of (update_failure i h a b c d s) i) = h"
  using assms by (auto simp: update_failure_def peer_of_updates Let_def)

subsection \<open>What is taken as a sample\<close>

text \<open>A response that answers the request sent with \<open>t1\<close> to the address of the context.\<close>

definition answers_request :: "bytes \<Rightarrow> u32 \<times> u16 \<Rightarrow> poll_context \<Rightarrow> peer_runtime \<Rightarrow> bool" where
  "answers_request response source ctx rt \<longleftrightarrow> 48 \<le> length response \<and> source = pc_address ctx \<and>
     response ! 0 AND 7 = 4 \<and> 3 \<le> drop_bit 3 (response ! 0) AND 7 \<and> drop_bit 6 (response ! 0) \<noteq> 3 \<and>
     response ! 1 \<noteq> 0 \<and> response ! 1 \<le> 15 \<and>
     de_be32 (drop 24 response) = ct_seconds (pc_t1 ctx) \<and> de_be32 (drop 28 response) = ct_fraction (pc_t1 ctx) \<and>
     (rt_last_server_t3_valid rt \<longrightarrow> rt_last_server_t3 rt \<noteq> fixed_at response 40)"

lemma response_cases:
  assumes "process_response i ar ctx s = Some (ctx', s')" "slots_ok s" "i < 4"
    and "ps_successful_polls (peer_of s' i) \<noteq> ps_successful_polls (peer_of s i)"
  obtains response source t4 where "ar_received ar = Inr (response, source)" "ar_t4 ar = Some t4"
    "answers_request response source ctx (runtime_of s i)"
    "0 \<le> delay_of (timestamp_to_fixed (pc_t1 ctx)) (fixed_at response 32) (fixed_at response 40) (timestamp_to_fixed t4)"
    "update_success i response (fixed_at response 40)
       (offset_of (timestamp_to_fixed (pc_t1 ctx)) (fixed_at response 32) (fixed_at response 40) (timestamp_to_fixed t4))
       (delay_of (timestamp_to_fixed (pc_t1 ctx)) (fixed_at response 32) (fixed_at response 40) (timestamp_to_fixed t4))
       (ar_now_us ar) s = Some s'"
proof -
  have f: "ps_successful_polls (peer_of (update_failure i h a b c d x) i) = ps_successful_polls (peer_of x i)" if "slots_ok x" for h a b c d x
    using that assms(3) by (rule failure_effect(3))
  have k: "ps_successful_polls (peer_of (on_peer i (\<lambda>p. p\<lparr>ps_kod_responses := ps_kod_responses p + 1,
      ps_reference_id := r\<rparr>) s) i) = ps_successful_polls (peer_of s i)" for r
    using assms(2,3) by (simp add: peer_of_updates)
  show ?thesis
    using assms(1,2,4) that
    by (auto simp: process_response_def Let_def f k answers_request_def well_formed_response_def NTP_PACKET_SIZE_peer_def
        NTP_MODE_SERVER_peer_def not_less split: sum.splits option.splits if_splits prod.splits)
qed

text \<open>
  C31: a poll counts as successful only for a response of at least 48 octets from the address and port asked, in server mode,
  version 3 or later, from a synchronised server of stratum 1 to 15, that echoes the transmit timestamp of this request and
  was not already seen; anything else leaves the samples as they were.
\<close>
theorem peer_sample_genuine:
  assumes "process_response i ar ctx s = Some (ctx', s')" and "slots_ok s" and "i < 4"
    and "ps_successful_polls (peer_of s' i) \<noteq> ps_successful_polls (peer_of s i)"
  shows "\<exists>response source. ar_received ar = Inr (response, source) \<and> answers_request response source ctx (runtime_of s i)"
  using response_cases [OF assms] by metis

text \<open>
  C32: the offset recorded is right up to half the delay recorded. If the peer's clock is ahead of the disciplined clock by
  \<open>theta\<close> seconds during an exchange, whatever the times of transit of the request and of the response, the offset differs
  from \<open>theta\<close> by at most half the delay and three nanoseconds of rounding.
\<close>
theorem peer_offset_accurate:
  assumes "process_response i ar ctx s = Some (ctx', s')" and "slots_ok s" and "i < 4"
    and "ps_successful_polls (peer_of s' i) \<noteq> ps_successful_polls (peer_of s i)"
    and "ar_received ar = Inr (response, source)" and "ar_t4 ar = Some t4"
    and "exchange (timestamp_to_fixed (pc_t1 ctx)) (fixed_at response 32) (fixed_at response 40) (timestamp_to_fixed t4) theta d1 d2"
  shows "\<bar>of_int (ps_offset_ns (peer_of s' i)) - theta * 1000000000\<bar> \<le> of_int (ps_delay_ns (peer_of s' i)) / 2 + 3"
proof -
  let ?f1 = "timestamp_to_fixed (pc_t1 ctx)" and ?f2 = "fixed_at response 32" and ?f3 = "fixed_at response 40"
    and ?f4 = "timestamp_to_fixed t4"
  have "update_success i response ?f3 (offset_of ?f1 ?f2 ?f3 ?f4) (delay_of ?f1 ?f2 ?f3 ?f4) (ar_now_us ar) s = Some s'"
    by (rule response_cases [OF assms(1-4)]) (use assms(5,6) in auto)
  from success_effect(3,4) [OF this assms(2,3)] show ?thesis using exchange_accurate [OF assms(7)] by simp
qed

text \<open>A server a quarter of a second ahead, with a quarter of a second of transit each way.\<close>

definition sample_sys :: peer_sys where
  "sample_sys = snd (ntp_peer_monitor_start True True peer_boot)"

definition sample_context :: poll_context where
  "sample_context = zero_poll_context\<lparr>pc_sock := True, pc_active := True, pc_address := (7, 123), pc_t1 := \<lparr>ct_seconds = 3900000000, ct_fraction = 0\<rparr>\<rparr>"

definition sample_response :: bytes where
  "sample_response = [0x24, 1] @ replicate 22 0 @ be32 3900000000 @ be32 0 @ be32 3900000000 @ be32 0x80000000 @ be32 3900000000 @ be32 0x90000000"

definition sample_arrival :: arrival where
  "sample_arrival = \<lparr>ar_received = Inr (sample_response, (7, 123)), ar_t4 = Some \<lparr>ct_seconds = 3900000000, ct_fraction = 0x90000000\<rparr>, ar_now_us = 9\<rparr>"

definition sample_after :: peer_sys where
  "sample_after = snd (the (process_response 0 sample_arrival sample_context sample_sys))"

lemma sample_facts:
  "process_response 0 sample_arrival sample_context sample_sys = Some (finish_context sample_context, sample_after)"
  "slots_ok sample_sys"
  "ps_successful_polls (peer_of sample_after 0) \<noteq> ps_successful_polls (peer_of sample_sys 0)"
proof -
  have "map_option fst (process_response 0 sample_arrival sample_context sample_sys) = Some (finish_context sample_context)" by code_simp
  then show "process_response 0 sample_arrival sample_context sample_sys = Some (finish_context sample_context, sample_after)"
    unfolding sample_after_def by auto
  show "slots_ok sample_sys" "ps_successful_polls (peer_of sample_after 0) \<noteq> ps_successful_polls (peer_of sample_sys 0)"
    by code_simp+
qed

lemma peer_sample_genuine_witness:
  "\<exists>response source. ar_received sample_arrival = Inr (response, source) \<and>
     answers_request response source sample_context (runtime_of sample_sys 0)"
  by (rule peer_sample_genuine [OF sample_facts(1,2) _ sample_facts(3)]) simp

lemma sample_exchange:
  "sint (fixed_at sample_response 32 - timestamp_to_fixed (pc_t1 sample_context)) = 2147483648"
  "sint (fixed_at sample_response 40 - timestamp_to_fixed \<lparr>ct_seconds = 3900000000, ct_fraction = 0x90000000\<rparr>) = 0"
  "sint (timestamp_to_fixed \<lparr>ct_seconds = 3900000000, ct_fraction = 0x90000000\<rparr> - timestamp_to_fixed (pc_t1 sample_context)) = 2415919104"
  "sint (fixed_at sample_response 40 - fixed_at sample_response 32) = 268435456"
  by code_simp+

lemma peer_offset_accurate_witness:
  "\<bar>of_int (ps_offset_ns (peer_of sample_after 0)) - 1 / 4 * 1000000000\<bar> \<le> (of_int (ps_delay_ns (peer_of sample_after 0)) / 2 + 3 :: rat)"
proof -
  have r: "ar_received sample_arrival = Inr (sample_response, (7, 123))"
    "ar_t4 sample_arrival = Some \<lparr>ct_seconds = 3900000000, ct_fraction = 0x90000000\<rparr>" by (simp_all add: sample_arrival_def)
  have "exchange (timestamp_to_fixed (pc_t1 sample_context)) (fixed_at sample_response 32) (fixed_at sample_response 40)
      (timestamp_to_fixed \<lparr>ct_seconds = 3900000000, ct_fraction = 0x90000000\<rparr>) (1 / 4) (1 / 4) (1 / 4)"
    by (simp add: exchange_def sample_exchange)
  from peer_offset_accurate [OF sample_facts(1,2) _ sample_facts(3) r this] show ?thesis by simp
qed

subsection \<open>Kiss-o'-death\<close>

text \<open>
  The origin timestamp of a response of stratum 0 is not looked at. Any 48 octets with a zero second octet that carry the
  address and port asked end the poll as a kiss-o'-death: the poll fails, and the server's own answer is no longer awaited.
\<close>
theorem peer_kod_unchecked:
  assumes "ar_received ar = Inr (response, pc_address ctx)" and "ar_t4 ar = Some t4" and "48 \<le> length response"
    and "response ! 1 = 0" and "slots_ok s" and "i < 4"
  shows "\<exists>s'. process_response i ar ctx s = Some (finish_context ctx, s') \<and> ps_health (peer_of s' i) = NTP_PEER_HEALTH_KOD \<and>
    ps_failed_polls (peer_of s' i) = ps_failed_polls (peer_of s i) + 1"
  using assms by (auto simp: process_response_def NTP_PACKET_SIZE_peer_def Let_def failure_effect peer_of_updates split: prod.splits)

lemma peer_kod_unchecked_witness:
  "\<exists>s'. process_response 0 (sample_arrival\<lparr>ar_received := Inr (replicate 48 0, (7, 123))\<rparr>) sample_context sample_sys =
      Some (finish_context sample_context, s') \<and> ps_health (peer_of s' 0) = NTP_PEER_HEALTH_KOD \<and>
      ps_failed_polls (peer_of s' 0) = ps_failed_polls (peer_of sample_sys 0) + 1"
  by (rule peer_kod_unchecked [where response = "replicate 48 0" and ?t4.0 = "\<lparr>ct_seconds = 3900000000, ct_fraction = 0x90000000\<rparr>"])
     (simp_all add: sample_arrival_def sample_context_def sample_facts(2))

end
