(* ===== verification/Peer_History.thy ===== *)
theory Peer_History
  imports Peer_Theory
begin

text \<open>
  The record kept of a peer, as a function of the outcomes of its polls: the arrays hold its last sixteen samples from the
  oldest on, the octet of reachability its last eight polls; and the end of the waiting loop.
\<close>

subsection \<open>The window of samples\<close>

definition last16 :: "'a list \<Rightarrow> 'a list" where
  "last16 h = drop (length h - 16) h"

lemma length_last16 [simp]: "length (last16 h) = min 16 (length h)"
  by (auto simp: last16_def)

lemma last16_snoc: "last16 (h @ [x]) = (if length h < 16 then h @ [x] else tl (last16 h) @ [x])"
proof (cases "length h < 16")
  case False
  then have "length h - 15 = Suc (length h - 16)" by linarith
  then show ?thesis using False by (simp add: last16_def drop_Suc drop_tl)
qed (simp add: last16_def)

lemma last16_short: "length h < 16 \<Longrightarrow> last16 h = h"
  by (simp add: last16_def)

definition window :: "peer_runtime \<Rightarrow> (int \<times> int) list \<Rightarrow> bool" where
  "window rt h \<longleftrightarrow> length (rt_offset rt) = 16 \<and> length (rt_delay rt) = 16 \<and> unat (rt_count rt) = length (last16 h) \<and>
     unat (rt_next rt) = length (last16 h) mod 16 \<and>
     take (length (last16 h)) (rt_offset rt) = map fst (last16 h) \<and> take (length (last16 h)) (rt_delay rt) = map snd (last16 h)"

lemma take_push: "k < length xs \<Longrightarrow> take (Suc k) (xs[k := x]) = take k xs @ [x]"
  by (simp add: take_Suc_conv_app_nth)

lemma rotate_window:
  assumes "length xs = 16"
  shows "map (\<lambda>i. xs[0 := x] ! ((1 + i) mod 16)) [0..<16] = tl xs @ [x]"
proof (rule nth_equalityI)
  show "length (map (\<lambda>i. xs[0 := x] ! ((1 + i) mod 16)) [0..<16]) = length (tl xs @ [x])" using assms by simp
  fix i assume "i < length (map (\<lambda>i. xs[0 := x] ! ((1 + i) mod 16)) [0..<16])"
  then have i: "i < 16" by simp
  show "map (\<lambda>i. xs[0 := x] ! ((1 + i) mod 16)) [0..<16] ! i = (tl xs @ [x]) ! i"
  proof (cases "i = 15")
    case True
    then show ?thesis using assms by (simp add: nth_append)
  next
    case False
    then show ?thesis using i assms by (simp add: nth_append nth_tl)
  qed
qed

lemma word16_next: "unat ((w + 1) mod 16) = (unat w + 1) mod 16" "unat w < 16 \<Longrightarrow> unat (w + 1) = unat w + 1"
  if "unat w \<le> 16" for w :: u32
proof -
  have "unat (w + 1) = unat w + 1" using that by (simp add: unat_word_ariths)
  then show "unat ((w + 1) mod 16) = (unat w + 1) mod 16" "unat w < 16 \<Longrightarrow> unat (w + 1) = unat w + 1" by (simp_all add: unat_mod)
qed

lemma push_window:
  assumes "window rt h"
  shows "window (push_sample o_ns d_ns rt) (h @ [(o_ns, d_ns)])"
proof (cases "length h < 16")
  case True
  note w = assms [unfolded window_def]
  have k: "unat (rt_count rt) = length h" "unat (rt_next rt) = length h" "take (length h) (rt_offset rt) = map fst h"
    "take (length h) (rt_delay rt) = map snd h" using w True by (simp_all add: last16_short)
  have n: "unat ((rt_next rt + 1) mod 16) = (length h + 1) mod 16" "unat (rt_count rt + 1) = length h + 1"
    using word16_next [of "rt_next rt"] word16_next(2) [of "rt_count rt"] k True by simp_all
  have c: "rt_count rt < 16" using k True by (simp add: word_less_nat_alt)
  have no: "\<not> (rt_count rt + 1 = 16 \<and> (rt_next rt + 1) mod 16 \<noteq> 0)"
  proof
    assume a: "rt_count rt + 1 = 16 \<and> (rt_next rt + 1) mod 16 \<noteq> 0"
    then have "length h + 1 = unat (16 :: u32)" using n(2) by metis
    then have "unat ((rt_next rt + 1) mod 16) = 0" using n(1) by simp
    then show False using a by (simp add: unat_eq_0)
  qed
  have p: "push_sample o_ns d_ns rt = rt\<lparr> rt_offset := (rt_offset rt)[length h := o_ns], rt_delay := (rt_delay rt)[length h := d_ns],
      rt_next := (rt_next rt + 1) mod 16, rt_count := rt_count rt + 1 \<rparr>"
  proof (cases "rt_count rt = 15")
    case True
    then have "(rt_next rt + 1) mod 16 = 0" using no by simp
    then show ?thesis using c True by (simp add: push_sample_def Let_def NTP_PEER_ROLLING_WINDOW_def k(2))
  next
    case False
    then have "rt_count rt + 1 \<noteq> 16" by simp
    then show ?thesis using c by (simp only: push_sample_def Let_def NTP_PEER_ROLLING_WINDOW_def k(2)) simp
  qed
  have l: "last16 (h @ [(o_ns, d_ns)]) = h @ [(o_ns, d_ns)]" using True by (simp add: last16_snoc)
  show ?thesis unfolding window_def p l using w n k True by (simp add: take_push)
next
  case False
  note w = assms [unfolded window_def]
  have whole: "take 16 xs = ys \<Longrightarrow> length xs = 16 \<Longrightarrow> xs = ys" for xs ys :: "int list" by simp
  have k: "unat (rt_count rt) = 16" "unat (rt_next rt) = 0" "take 16 (rt_offset rt) = map fst (last16 h)"
    "take 16 (rt_delay rt) = map snd (last16 h)" using w False by simp_all
  have k': "rt_offset rt = map fst (last16 h)" "rt_delay rt = map snd (last16 h)" using k w by (auto intro: whole)
  have c: "rt_count rt = 16" "rt_next rt = 0" using k(1,2) by (simp_all add: word_unat_eq_iff)
  have p: "push_sample o_ns d_ns rt = rt\<lparr> rt_offset := tl (rt_offset rt) @ [o_ns], rt_delay := tl (rt_delay rt) @ [d_ns], rt_next := 0 \<rparr>"
    using w rotate_window [of "rt_offset rt" o_ns] rotate_window [of "rt_delay rt" d_ns]
    by (simp add: push_sample_def Let_def NTP_PEER_ROLLING_WINDOW_def c comp_def)
  have l: "last16 (h @ [(o_ns, d_ns)]) = tl (last16 h) @ [(o_ns, d_ns)]" using False by (simp add: last16_snoc)
  show ?thesis unfolding window_def p l using w k k' False by (simp add: map_tl)
qed

subsection \<open>Outcomes\<close>

text \<open>The outcome of a poll with what the two updates of the code are given.\<close>

datatype outcome = Sample bytes u64 int int int | Failure ntp_peer_health bool bool bool bool

fun is_sample :: "outcome \<Rightarrow> bool" where
  "is_sample (Sample _ _ _ _ _) = True" | "is_sample (Failure _ _ _ _ _) = False"

fun samples_of :: "outcome list \<Rightarrow> (int \<times> int) list" where
  "samples_of [] = []"
| "samples_of (Sample _ _ o_ns d_ns _ # es) = (o_ns, d_ns) # samples_of es"
| "samples_of (Failure _ _ _ _ _ # es) = samples_of es"

fun outcomes :: "nat \<Rightarrow> outcome list \<Rightarrow> peer_sys \<Rightarrow> peer_sys option" where
  "outcomes i [] s = Some s"
| "outcomes i (Sample packet t3 o_ns d_ns now # es) s = Option.bind (update_success i packet t3 o_ns d_ns now s) (outcomes i es)"
| "outcomes i (Failure h a b c d # es) s = outcomes i es (update_failure i h a b c d s)"

text \<open>The record of a peer that a history of outcomes calls for.\<close>

definition record_of :: "nat \<Rightarrow> outcome list \<Rightarrow> peer_sys \<Rightarrow> bool" where
  "record_of i es s \<longleftrightarrow> window (runtime_of s i) (samples_of es) \<and>
     (\<forall>n < 8. bit (ps_reachability (peer_of s i)) n \<longleftrightarrow> n < length es \<and> is_sample (rev es ! n)) \<and>
     ps_successful_polls (peer_of s i) = of_nat (length (filter is_sample es)) \<and>
     ps_failed_polls (peer_of s i) = of_nat (length (filter (\<lambda>e. \<not> is_sample e) es)) \<and>
     ps_consecutive_failures (peer_of s i) = of_nat (length (takeWhile (\<lambda>e. \<not> is_sample e) (rev es)))"

lemma samples_of_append: "samples_of (es @ fs) = samples_of es @ samples_of fs"
  by (induction es rule: samples_of.induct) simp_all

lemma outcomes_append: "outcomes i (es @ fs) s = Option.bind (outcomes i es s) (outcomes i fs)"
proof (induction es arbitrary: s)
  case (Cons e es)
  then show ?case by (cases e) (auto split: Option.bind_splits)
qed simp

lemma bit_shift: "bit (push_bit 1 w) n \<longleftrightarrow> 0 < n \<and> n < 8 \<and> bit w (n - 1)" for w :: u8
  by (auto simp only: bit_push_bit_iff possible_bit_word) simp_all

lemma reach_step:
  fixes w :: u8
  assumes "\<And>n. n < 8 \<Longrightarrow> bit w n \<longleftrightarrow> n < length es \<and> is_sample (rev es ! n)" "n < 8"
  shows "bit (push_bit 1 w OR (if is_sample e then 1 else 0)) n \<longleftrightarrow> n < length (es @ [e]) \<and> is_sample (rev (es @ [e]) ! n)"
proof (cases n)
  case 0
  then show ?thesis by (simp only: bit_or_iff bit_shift) simp
next
  case (Suc m)
  then show ?thesis using assms by (simp only: bit_or_iff bit_shift) auto
qed

lemma window_cong: "window (rt\<lparr>rt_last_server_t3 := a, rt_last_server_t3_valid := b, rt_last_success_us := c\<rparr>) h = window rt h"
  by (simp add: window_def)

lemma record_step:
  assumes "record_of i es s" "slots_ok s" "i < 4" "outcomes i [e] s = Some s'"
  shows "record_of i (es @ [e]) s' \<and> slots_ok s'"
proof (cases e)
  case (Sample packet t3 o_ns d_ns now)
  then have u: "update_success i packet t3 o_ns d_ns now s = Some s'" using assms(4) by (simp split: Option.bind_splits)
  note f = success_effect [OF u assms(2,3)]
  have "ps_reachability (peer_of s' i) = push_bit 1 (ps_reachability (peer_of s i)) OR (if is_sample e then 1 else 0)"
    using f(5) Sample by simp
  moreover have "window (runtime_of s' i) (samples_of (es @ [e]))"
    using f(2) push_window assms(1) Sample by (simp add: record_of_def window_cong samples_of_append)
  ultimately show ?thesis using assms(1) f Sample reach_step [of "ps_reachability (peer_of s i)" es _ e]
    by (simp add: record_of_def del: is_sample.simps) simp
next
  case (Failure h a b c d)
  then have s': "s' = update_failure i h a b c d s" using assms(4) by simp
  note f = failure_effect [OF assms(2,3)]
  have "ps_reachability (peer_of s' i) = push_bit 1 (ps_reachability (peer_of s i)) OR (if is_sample e then 1 else 0)"
    using f(2) Failure s' by simp
  then show ?thesis using assms(1,2) f s' Failure reach_step [of "ps_reachability (peer_of s i)" es _ e]
    by (simp add: record_of_def samples_of_append del: is_sample.simps) simp
qed

lemma record_all:
  assumes "record_of i [] s" "slots_ok s" "i < 4"
  shows "outcomes i es s = Some s' \<Longrightarrow> record_of i es s' \<and> slots_ok s'"
proof (induction es arbitrary: s' rule: rev_induct)
  case Nil
  then show ?case using assms by simp
next
  case (snoc e es)
  then obtain t where t: "outcomes i es s = Some t" "outcomes i [e] t = Some s'"
    by (auto simp: outcomes_append split: Option.bind_splits)
  then show ?case using snoc.IH [OF t(1)] record_step [OF _ _ assms(3) t(2)] by blast
qed

lemma fresh_record: "slots_ok s \<Longrightarrow> i < 4 \<Longrightarrow> record_of i [] (reset_peer_slot i c v s) \<and> slots_ok (reset_peer_slot i c v s)"
  by (simp add: record_of_def reset_peer_slot_def peer_of_updates window_def zero_runtime_def last16_def zero_peer_status_def)

text \<open>
  C33: the record of a peer is that of its history. After any outcomes of the polls since the slot was set up, the arrays hold
  the last sixteen samples in the order of time, bit n of the reachability says whether the n-th poll from the last
  succeeded, and the counters count the successes, the failures, and the failures since the last success.
\<close>
theorem peer_record:
  assumes "slots_ok s" and "i < 4" and "outcomes i es (reset_peer_slot i c v s) = Some s'"
  shows "record_of i es s'"
  using record_all [OF _ _ assms(2,3)] fresh_record [OF assms(1,2)] by blast

definition sample_outcomes :: "outcome list" where
  "sample_outcomes = [Failure NTP_PEER_HEALTH_DEGRADED True False False False, Sample sample_response 1 250000000 500000000 9]"

definition sample_slot :: peer_sys where
  "sample_slot = the (outcomes 0 sample_outcomes (reset_peer_slot 0 True [0x41] sample_sys))"

lemma peer_record_witness: "record_of 0 sample_outcomes sample_slot"
proof (rule peer_record [OF sample_facts(2), where c = True and v = "[0x41]"])
  have "\<not> Option.is_none (outcomes 0 sample_outcomes (reset_peer_slot 0 True [0x41] sample_sys))" by code_simp
  then show "outcomes 0 sample_outcomes (reset_peer_slot 0 True [0x41] sample_sys) = Some sample_slot"
    by (auto simp: sample_slot_def Option.is_none_def)
qed simp

subsection \<open>The end of a poll\<close>

text \<open>The open sockets are those of the active contexts, which are the pending ones, with deadlines up to \<open>D\<close>.\<close>

definition polls_ok :: "int \<Rightarrow> polls \<Rightarrow> bool" where
  "polls_ok D st \<longleftrightarrow> length (po_contexts st) = 4 \<and> unat (po_pending st) = length (filter pc_active (po_contexts st)) \<and>
     (\<forall>c \<in> set (po_contexts st). pc_sock c = pc_active c \<and> (pc_active c \<longrightarrow> pc_deadline_us c \<le> D \<and> \<not> pc_completed c))"

lemma filter_update:
  assumes "i < length xs"
  shows "length (filter P (xs[i := y])) + (if P (xs ! i) then 1 else 0) = length (filter P xs) + (if P y then 1 else 0)"
proof -
  have "xs = take i xs @ xs ! i # drop (Suc i) xs" using assms by (rule id_take_nth_drop)
  then have "length (filter P xs) = length (filter P (take i xs @ xs ! i # drop (Suc i) xs))" by simp
  then show ?thesis using assms by (simp add: upd_conv_take_nth_drop)
qed

lemma active_pending: "polls_ok D st \<Longrightarrow> i < 4 \<Longrightarrow> pc_active (po_contexts st ! i) \<Longrightarrow> unat (po_pending st - 1) = unat (po_pending st) - 1 \<and> 0 < unat (po_pending st)"
proof -
  assume a: "polls_ok D st" "i < 4" "pc_active (po_contexts st ! i)"
  then have "po_contexts st ! i \<in> set (filter pc_active (po_contexts st))" by (simp add: polls_ok_def)
  then have "0 < length (filter pc_active (po_contexts st))" by (rule length_pos_if_in_set)
  then have "0 < unat (po_pending st)" using a(1) by (simp add: polls_ok_def)
  then have "1 \<le> po_pending st" by (simp add: word_le_nat_alt)
  then show ?thesis using \<open>0 < unat (po_pending st)\<close> by (simp add: unat_sub)
qed

text \<open>A context that finishes.\<close>

lemma finish_polls_ok:
  assumes "polls_ok D st" "i < 4" "pc_active (po_contexts st ! i)"
    and "po_contexts st' = (po_contexts st)[i := finish_context (po_contexts st ! i)]" "po_pending st' = po_pending st - 1"
  shows "polls_ok D st'"
proof -
  have "length (filter pc_active ((po_contexts st)[i := finish_context (po_contexts st ! i)])) + 1 = length (filter pc_active (po_contexts st))"
    using filter_update [of i "po_contexts st" pc_active "finish_context (po_contexts st ! i)"] assms
    by (simp add: polls_ok_def finish_context_def)
  then show ?thesis using assms active_pending [OF assms(1-3)]
    by (auto simp: polls_ok_def finish_context_def dest!: set_update_subset_insert [THEN subsetD])
qed

lemma fail_context_ok: "polls_ok D st \<Longrightarrow> i < 4 \<Longrightarrow> pc_active (po_contexts st ! i) \<Longrightarrow> polls_ok D (fail_context t i st)"
  by (rule finish_polls_ok) (simp_all add: fail_context_def)

lemma fail_context_others: "j \<noteq> i \<Longrightarrow> po_contexts (fail_context t i st) ! j = po_contexts st ! j"
  "i < length (po_contexts st) \<Longrightarrow> \<not> pc_active (po_contexts (fail_context t i st) ! i)"
  "length (po_contexts (fail_context t i st)) = length (po_contexts st)"
  by (simp_all add: fail_context_def finish_context_def)

lemma expire_ok: "polls_ok D st \<Longrightarrow> \<forall>i \<in> set is. i < 4 \<Longrightarrow> polls_ok D (fold (expire_one now) is st)"
proof (induction "is" arbitrary: st)
  case (Cons i js)
  then have "polls_ok D (expire_one now i st)" by (auto simp: expire_one_def intro: fail_context_ok)
  then show ?case using Cons by simp
qed simp

lemma expire_all:
  assumes "polls_ok D st" "D \<le> now"
  shows "\<forall>i < 4. \<not> pc_active (po_contexts (fold (expire_one now) [0..<4] st) ! i)"
proof -
  have "polls_ok D (fold (expire_one now) [0..<n] st) \<and> (\<forall>i < n. \<not> pc_active (po_contexts (fold (expire_one now) [0..<n] st) ! i))" if "n \<le> 4" for n
    using that
  proof (induction n)
    case (Suc n)
    let ?t = "fold (expire_one now) [0..<n] st"
    have t: "polls_ok D ?t" "\<forall>i < n. \<not> pc_active (po_contexts ?t ! i)" "n < 4" using Suc by simp_all
    have d: "pc_active (po_contexts ?t ! n) \<Longrightarrow> pc_deadline_us (po_contexts ?t ! n) \<le> now"
      using t assms(2) by (auto simp: polls_ok_def intro: order_trans)
    have l: "n < length (po_contexts ?t)" using t by (simp add: polls_ok_def)
    have "polls_ok D (expire_one now n ?t)" using t by (auto simp: expire_one_def intro: fail_context_ok)
    moreover have "\<not> pc_active (po_contexts (expire_one now n ?t) ! i)" if "i < Suc n" for i
      using that t(2) d l by (cases "i = n") (auto simp: expire_one_def fail_context_others)
    ultimately show ?case by simp
  qed (use assms in simp)
  then show ?thesis by blast
qed

lemma process_context:
  "process_response i ar ctx s = Some (ctx', s') \<Longrightarrow> ctx' = ctx \<or> ctx' = finish_context ctx"
  by (auto simp: process_response_def Let_def split: sum.splits option.splits if_splits prod.splits)

lemma receive_one_ok:
  assumes "receive_one ready i st = Some st'" "polls_ok D st" "i < 4"
  shows "polls_ok D st'"
proof (cases "pc_active (po_contexts st ! i) \<and> ready i \<noteq> None")
  case False
  then show ?thesis using assms by (auto simp: receive_one_def split: option.splits bool.splits)
next
  case True
  then obtain ar ctx s where p: "process_response i ar (po_contexts st ! i) (po_sys st) = Some (ctx, s)"
    "st' = st\<lparr>po_contexts := (po_contexts st)[i := ctx], po_sys := s, po_pending := if pc_completed ctx then po_pending st - 1 else po_pending st\<rparr>"
    using assms(1) by (auto simp: receive_one_def)
  have nc: "\<not> pc_completed (po_contexts st ! i)" using assms True by (simp add: polls_ok_def)
  show ?thesis using process_context [OF p(1)]
  proof
    assume c: "ctx = po_contexts st ! i"
    then have "(po_contexts st)[i := ctx] = po_contexts st" by simp
    then show ?thesis using p(2) c nc assms(2) by (simp add: polls_ok_def)
  next
    assume c: "ctx = finish_context (po_contexts st ! i)"
    then show ?thesis using p(2) True by (intro finish_polls_ok [OF assms(2,3), of st']) (simp_all add: finish_context_def)
  qed
qed

lemma receive_from_ok: "receive_from ready is st = Some st' \<Longrightarrow> polls_ok D st \<Longrightarrow> \<forall>i \<in> set is. i < 4 \<Longrightarrow> polls_ok D st'"
proof (induction "is" arbitrary: st)
  case (Cons i js)
  then show ?case by (auto simp: bind_eq_Some_conv intro: receive_one_ok)
qed simp

lemma fail_rest_ok:
  assumes "polls_ok D st"
  shows "\<forall>i < 4. \<not> pc_active (po_contexts (fold (\<lambda>i st. if pc_active (po_contexts st ! i) then fail_context False i st else st) [0..<4] st) ! i)"
    "polls_ok D (fold (\<lambda>i st. if pc_active (po_contexts st ! i) then fail_context False i st else st) [0..<4] st)"
proof -
  let ?f = "\<lambda>i st. if pc_active (po_contexts st ! i) then fail_context False i st else st"
  have "polls_ok D (fold ?f [0..<n] st) \<and> (\<forall>i < n. \<not> pc_active (po_contexts (fold ?f [0..<n] st) ! i))" if "n \<le> 4" for n
    using that
  proof (induction n)
    case (Suc n)
    let ?t = "fold ?f [0..<n] st"
    have t: "polls_ok D ?t" "\<forall>i < n. \<not> pc_active (po_contexts ?t ! i)" "n < 4" using Suc by simp_all
    have l: "n < length (po_contexts ?t)" using t by (simp add: polls_ok_def)
    have "polls_ok D (?f n ?t)" using t by (auto intro: fail_context_ok)
    moreover have "\<not> pc_active (po_contexts (?f n ?t) ! i)" if "i < Suc n" for i
      using that t(2) l by (cases "i = n") (auto simp: fail_context_others)
    ultimately show ?case by simp
  qed (use assms in simp)
  from this [of 4] show "\<forall>i < 4. \<not> pc_active (po_contexts (fold ?f [0..<4] st) ! i)" "polls_ok D (fold ?f [0..<4] st)" by simp_all
qed

lemma no_active_no_socket:
  assumes "polls_ok D st" "\<forall>i < 4. \<not> pc_active (po_contexts st ! i)"
  shows "\<forall>c \<in> set (po_contexts st). \<not> pc_sock c"
proof
  have l: "length (po_contexts st) = 4" and k: "\<And>c. c \<in> set (po_contexts st) \<Longrightarrow> pc_sock c = pc_active c"
    using assms(1) unfolding polls_ok_def by blast+
  fix c assume c: "c \<in> set (po_contexts st)"
  then obtain i where i: "i < length (po_contexts st)" "po_contexts st ! i = c" unfolding in_set_conv_nth by blast
  then have "\<not> pc_active (po_contexts st ! i)" using assms(2) l by metis
  then show "\<not> pc_sock c" using k [OF c] i(2) by metis
qed

lemma poll_round_cases:
  assumes "poll_round r st = Some (stop, st')" "polls_ok D st"
  obtains (none) "stop" "st' = fold (expire_one (sr_now_us r)) [0..<4] st" "\<forall>i < 4. \<not> pc_active (po_contexts st' ! i)"
  | (failed) "stop" "polls_ok D st'" "\<forall>i < 4. \<not> pc_active (po_contexts st' ! i)"
  | (go) "\<not> stop" "polls_ok D st'" "\<exists>i < 4. pc_active (po_contexts (fold (expire_one (sr_now_us r)) [0..<4] st) ! i)"
proof -
  define e where "e = fold (expire_one (sr_now_us r)) [0..<4] st"
  define f where "f = fold (\<lambda>i st. if pc_active (po_contexts st ! i) then fail_context False i st else st) [0..<4] e"
  define js where "js = [0..<(4 :: nat)]"
  have js: "\<forall>i \<in> set js. i < 4" by (simp add: js_def)
  have e: "polls_ok D e" unfolding e_def using assms(2) by (rule expire_ok) simp
  have pend: "\<forall>i < 4. \<not> pc_active (po_contexts e ! i)" if "po_pending e = 0"
  proof -
    have "filter pc_active (po_contexts e) = []" using that e by (simp add: polls_ok_def)
    then show ?thesis using e by (auto simp: polls_ok_def filter_empty_conv)
  qed
  have r: "poll_round r st = (if po_pending e = 0 \<or> \<not> (\<exists>i \<in> set js. pc_active (po_contexts e ! i)) then Some (True, e)
        else case sr_select r of Interrupted \<Rightarrow> Some (False, e) | Select_Error \<Rightarrow> Some (True, f)
             | Ready ready \<Rightarrow> map_option (Pair False) (receive_from ready js e))"
    by (simp only: poll_round_def Let_def APP_NTP_PEER_MAX_COUNT_def e_def f_def js_def)
  note none' = none [folded e_def] and go' = go [folded e_def]
  show ?thesis
  proof (cases "po_pending e = 0 \<or> \<not> (\<exists>i \<in> set js. pc_active (po_contexts e ! i))")
    case True
    then have "stop" "st' = e" using assms(1) r by simp_all
    moreover have "\<forall>i < 4. \<not> pc_active (po_contexts e ! i)" using True pend unfolding js_def by fastforce
    ultimately show ?thesis using none' by blast
  next
    case False
    then have act: "\<exists>i < 4. pc_active (po_contexts e ! i)" using js by blast
    show ?thesis
    proof (cases "sr_select r")
      case Interrupted
      then have "\<not> stop" "st' = e" using False assms(1) r by simp_all
      then show ?thesis using e act go' by blast
    next
      case Select_Error
      then have "stop" "st' = f" using False assms(1) r by simp_all
      then show ?thesis using failed fail_rest_ok [OF e, folded f_def] by blast
    next
      case (Ready ready)
      then have "\<not> stop" "receive_from ready js e = Some st'" using False assms(1) r by auto
      moreover have "polls_ok D st'" using receive_from_ok [OF calculation(2) e js] .
      ultimately show ?thesis using act go' by blast
    qed
  qed
qed

lemma poll_round_ok:
  assumes "poll_round r st = Some (stop, st')" "polls_ok D st"
  shows "polls_ok D st'" "stop \<Longrightarrow> \<forall>c \<in> set (po_contexts st'). \<not> pc_sock c" "D \<le> sr_now_us r \<Longrightarrow> stop"
proof -
  have e: "polls_ok D (fold (expire_one (sr_now_us r)) [0..<4] st)" using assms(2) by (rule expire_ok) simp
  show ok: "polls_ok D st'" by (rule poll_round_cases [OF assms]) (use e in simp_all)
  show "stop \<Longrightarrow> \<forall>c \<in> set (po_contexts st'). \<not> pc_sock c"
    by (rule poll_round_cases [OF assms]) (use no_active_no_socket [OF ok] in simp_all)
  show "D \<le> sr_now_us r \<Longrightarrow> stop"
    by (rule poll_round_cases [OF assms]) (use expire_all [OF assms(2)] in blast)+
qed

lemma wait_loop_ends:
  assumes "wait_loop rounds st = Some (ended, st')" "polls_ok D st" "\<exists>r \<in> set rounds. D \<le> sr_now_us r"
  shows "ended \<and> (\<forall>c \<in> set (po_contexts st'). \<not> pc_sock c)"
  using assms
proof (induction rounds arbitrary: st)
  case (Cons r rs)
  show ?case
  proof (cases "po_pending st = 0")
    case True
    then have "filter pc_active (po_contexts st) = []" using Cons.prems(2) by (simp add: polls_ok_def)
    then show ?thesis using Cons.prems(1,2) True by (auto simp: polls_ok_def filter_empty_conv)
  next
    case False
    then obtain stop t where t: "poll_round r st = Some (stop, t)" "(if stop then Some (True, t) else wait_loop rs t) = Some (ended, st')"
      using Cons.prems(1) by (auto simp: bind_eq_Some_conv)
    note o = poll_round_ok [OF t(1) Cons.prems(2)]
    show ?thesis
    proof (cases stop)
      case True
      then show ?thesis using t(2) o(2) by simp
    next
      case False
      then have "\<exists>r \<in> set rs. D \<le> sr_now_us r" using o(3) Cons.prems(3) by auto
      then show ?thesis using False t(2) o(1) by (intro Cons.IH) simp_all
    qed
  qed
qed simp

lemma begin_poll_context:
  assumes "begin_poll i timeout b s = (started, ctx, s')"
  shows "pc_sock ctx = started" "pc_active ctx = started" "\<not> pc_completed ctx"
    "started \<Longrightarrow> pc_deadline_us ctx = st_now_us b + uint timeout * 1000"
  using assms by (auto simp: begin_poll_def Let_def zero_poll_context_def split: option.splits if_splits)

lemma begin_one_ok:
  assumes "polls_ok D st" "i < 4" "\<not> pc_active (po_contexts st ! i)"
    and "st_now_us (starts i) + uint (dc_ntp_peer_response_timeout_ms config) * 1000 \<le> D"
  shows "polls_ok D (begin_one config starts i st)"
proof (cases "np_enabled (dc_ntp_peers config ! i) \<and> np_server (dc_ntp_peers config ! i) \<noteq> []")
  case True
  obtain started ctx s where b: "begin_poll i (dc_ntp_peer_response_timeout_ms config) (starts i) (po_sys st) = (started, ctx, s)"
    by (metis prod_cases3)
  note c = begin_poll_context [OF b]
  have l: "i < length (po_contexts st)" using assms by (simp add: polls_ok_def)
  have n: "length (filter pc_active ((po_contexts st)[i := ctx])) = length (filter pc_active (po_contexts st)) + (if started then 1 else 0)"
    using filter_update [OF l, of pc_active ctx] assms(3) c(2) by simp
  have "unat (po_pending st) \<le> 4" using assms(1) length_filter_le [of pc_active "po_contexts st"] by (simp add: polls_ok_def)
  then have "unat (po_pending st + 1) = unat (po_pending st) + 1" by (simp add: unat_word_ariths)
  then show ?thesis using True b n c assms(1,4) unfolding polls_ok_def begin_one_def Let_def
    by (auto dest!: set_update_subset_insert [THEN subsetD])
next
  case False
  then show ?thesis using assms(1) by (simp only: begin_one_def Let_def if_False)
qed

lemma begin_one_others: "j \<noteq> i \<Longrightarrow> po_contexts (begin_one config starts i st) ! j = po_contexts st ! j"
  by (simp add: begin_one_def Let_def split: prod.splits)

lemma begin_all_ok:
  assumes "\<forall>i < 4. st_now_us (starts i) + uint (dc_ntp_peer_response_timeout_ms config) * 1000 \<le> D"
  shows "polls_ok D (begin_all config starts s)"
proof -
  let ?z = "\<lparr>po_contexts = replicate 4 zero_poll_context, po_pending = 0, po_sys = s\<rparr>"
  have "polls_ok D (fold (begin_one config starts) [0..<n] ?z) \<and>
      (\<forall>j. n \<le> j \<and> j < 4 \<longrightarrow> \<not> pc_active (po_contexts (fold (begin_one config starts) [0..<n] ?z) ! j))" if "n \<le> 4" for n
    using that
  proof (induction n)
    case 0
    show ?case by (simp add: polls_ok_def zero_poll_context_def)
  next
    case (Suc n)
    then show ?case using assms by (auto intro!: begin_one_ok simp: begin_one_others)
  qed
  from this [of 4] show ?thesis by (simp only: begin_all_def APP_NTP_PEER_MAX_COUNT_def)
qed

text \<open>
  C34: a poll ends. Whatever the sockets and \<open>select\<close> answer, a pass of the waiting loop whose time is at or after the
  deadlines of all peers ends it, and then every socket opened for it is closed.
\<close>
theorem peer_poll_ends:
  assumes "wait_loop rounds (begin_all config starts s) = Some (ended, st)"
    and "\<forall>i < 4. st_now_us (starts i) + uint (dc_ntp_peer_response_timeout_ms config) * 1000 \<le> D"
    and "\<exists>r \<in> set rounds. D \<le> sr_now_us r"
  shows "ended \<and> (\<forall>c \<in> set (po_contexts st). \<not> pc_sock c)"
  using wait_loop_ends [OF assms(1) begin_all_ok [OF assms(2)] assms(3)] .

text \<open>Two peers that do not answer within two seconds.\<close>

definition sample_config :: device_config_snapshot where
  "sample_config = device_config_snapshot.truncate (make_default_config\<lparr>dc_ntp_peers :=
     [\<lparr>np_enabled = True, np_server = [0x61]\<rparr>, \<lparr>np_enabled = True, np_server = [0x62]\<rparr>, no_peer, no_peer]\<rparr>)"

definition sample_starts :: "nat \<Rightarrow> poll_start" where
  "sample_starts i = \<lparr>st_resolved = Some 7, st_socket = True, st_t1 = Some \<lparr>ct_seconds = 3900000000, ct_fraction = 0\<rparr>,
     st_sent = True, st_now_us = 1000\<rparr>"

definition sample_rounds :: "select_round list" where
  "sample_rounds = [\<lparr>sr_now_us = 2000, sr_select = Interrupted\<rparr>, \<lparr>sr_now_us = 1500000, sr_select = Ready (\<lambda>i. None)\<rparr>,
     \<lparr>sr_now_us = 2001000, sr_select = Interrupted\<rparr>]"

definition sample_polls :: polls where
  "sample_polls = snd (the (wait_loop sample_rounds (begin_all sample_config sample_starts sample_sys)))"

lemma peer_poll_ends_witness: "list_all (\<lambda>c. \<not> pc_sock c) (po_contexts sample_polls)"
proof -
  have "map_option fst (wait_loop sample_rounds (begin_all sample_config sample_starts sample_sys)) = Some True" by code_simp
  then have r: "wait_loop sample_rounds (begin_all sample_config sample_starts sample_sys) = Some (True, sample_polls)"
    by (auto simp: sample_polls_def)
  have "dc_ntp_peer_response_timeout_ms sample_config = 2000" by code_simp
  then have "\<forall>i < 4. st_now_us (sample_starts i) + uint (dc_ntp_peer_response_timeout_ms sample_config) * 1000 \<le> 2001000"
    by (simp add: sample_starts_def)
  from peer_poll_ends [OF r this] show ?thesis by (simp add: sample_rounds_def list_all_iff)
qed

end
