(* ===== verification/Cert_Store.thy ===== *)
theory Cert_Store
  imports Device_Config
begin

text \<open>
  \<open>src/main/acme_storage.c\<close> and the storage half of \<open>src/main/acme_client.c\<close>: the encrypted partition \<open>nvs_certs\<close> with the
  ACME account, the two slots of the production certificate with the selector between them, and the switches and records
  kept beside them.

  The partition is the record \<open>cert_nvs\<close> over an abstract state. Opening for reading and reading leave the state alone, so
  the functions that only read are functions of it. A struct kept as a blob is a value of its own. X.509 parsing,
  elliptic-curve keys and SHA-256 are the record \<open>cert_crypto\<close>. The mutex is taken with \<open>portMAX_DELAY\<close>.
\<close>

subsection \<open>The partition\<close>

abbreviation ESP_ERR_NVS_KEYS_NOT_INITIALIZED :: esp_err where
  "ESP_ERR_NVS_KEYS_NOT_INITIALIZED \<equiv> ESP_ERR_OTHER 0x1116"

datatype transaction_stage =
    STAGE_NONE | STAGE_ACCOUNT | STAGE_ORDER | STAGE_DNS01_PREPARE | STAGE_CHALLENGE | STAGE_FINALIZE | STAGE_DNS01_CLEANUP
  | STAGE_COMPLETE

definition ACME_RENEWAL_ATTEMPT_RECORD_VERSION :: u32 where "ACME_RENEWAL_ATTEMPT_RECORD_VERSION = 1"
definition ACME_TLS_ACTIVATION_INTENT_RECORD_VERSION :: u32 where "ACME_TLS_ACTIVATION_INTENT_RECORD_VERSION = 1"

text \<open>The stage is \<open>None\<close> where the integer stored is none of the enumeration.\<close>

record renewal_attempt =
  ra_version :: u32
  ra_attempt_count :: u32
  ra_last_attempt_unix :: int
  ra_retry_not_before_unix :: int
  ra_attempt_was_in_progress :: bool
  ra_last_attempt_result_valid :: bool
  ra_last_attempt_result :: esp_err
  ra_last_transaction_stage :: "transaction_stage option"
  ra_last_transaction_completed :: bool
  ra_last_dns01_prepared :: bool
  ra_last_cleanup_attempted :: bool
  ra_last_cleanup_result :: esp_err

record activation_intent =
  ai_version :: u32
  ai_pending :: bool
  ai_boot_reconciled :: bool
  ai_created_unix :: int
  ai_previous_leaf_sha256 :: bytes
  ai_target_leaf_sha256 :: bytes

record activation_outcome =
  ao_version :: u32
  ao_result_valid :: bool
  ao_success :: bool
  ao_lkg_restored :: bool
  ao_completed_unix :: int
  ao_transition_result :: esp_err
  ao_target_leaf_sha256 :: bytes
  ao_running_leaf_sha256 :: bytes

record tls_handoff =
  th_version :: u32
  th_in_progress :: bool
  th_recovered_interrupted :: bool
  th_attempt_count :: u32
  th_started_unix :: int
  th_retry_not_before_unix :: int
  th_target_leaf_sha256 :: bytes

datatype cert_value =
    CvU8 u8 | CvStr bytes | CvBlob bytes
  | CvAttempt renewal_attempt | CvIntent activation_intent | CvOutcome activation_outcome | CvHandoff tls_handoff

text \<open>What the initialisation finds, apart from what it changes.\<close>

record acme_setup =
  su_flash_encrypted :: bool
  su_keys_found :: bool
  su_read_cfg :: esp_err
  su_generate_keys :: esp_err

text \<open>
  \<open>cv_blob_size\<close> and \<open>cv_str_size\<close> are the calls with a NULL buffer, the latter counts the NUL; \<open>cv_blob\<close> and \<open>cv_str\<close> get the
  buffer's size; \<open>cv_struct\<close> reads a struct, \<open>None\<close> where the length stored is not the struct's. \<open>cv_alloc\<close> is \<open>calloc\<close>.
\<close>

record 'n cert_nvs =
  cv_mutex :: "'n \<Rightarrow> bool"
  cv_setup :: "'n \<Rightarrow> acme_setup"
  cv_secure_init :: "'n \<Rightarrow> esp_err \<times> 'n"
  cv_open_write :: "'n \<Rightarrow> esp_err \<times> 'n"
  cv_open_read :: "'n \<Rightarrow> esp_err"
  cv_set :: "string \<Rightarrow> cert_value \<Rightarrow> 'n \<Rightarrow> esp_err \<times> 'n"
  cv_erase_key :: "string \<Rightarrow> 'n \<Rightarrow> esp_err \<times> 'n"
  cv_commit :: "'n \<Rightarrow> esp_err \<times> 'n"
  cv_u8 :: "string \<Rightarrow> 'n \<Rightarrow> esp_err \<times> u8"
  cv_blob_size :: "string \<Rightarrow> 'n \<Rightarrow> esp_err \<times> nat"
  cv_blob :: "string \<Rightarrow> nat \<Rightarrow> 'n \<Rightarrow> esp_err \<times> bytes"
  cv_str_size :: "string \<Rightarrow> 'n \<Rightarrow> esp_err \<times> nat"
  cv_str :: "string \<Rightarrow> nat \<Rightarrow> 'n \<Rightarrow> esp_err \<times> bytes"
  cv_struct :: "string \<Rightarrow> 'n \<Rightarrow> esp_err \<times> cert_value option"
  cv_alloc :: "nat \<Rightarrow> 'n \<Rightarrow> bool"

subsection \<open>The initialisation\<close>

record 'n acme_sys =
  as_lock :: bool
  as_initialized :: bool
  as_nvs :: 'n

definition ensure_lock :: "'n cert_nvs \<Rightarrow> 'n acme_sys \<Rightarrow> esp_err \<times> 'n acme_sys" where
  "ensure_lock api s =
    (if as_lock s then (ESP_OK, s)
     else if cv_mutex api (as_nvs s) then (ESP_OK, s\<lparr>as_lock := True\<rparr>) else (ESP_ERR_NO_MEM, s))"

definition init_locked :: "'n cert_nvs \<Rightarrow> 'n acme_sys \<Rightarrow> esp_err \<times> 'n acme_sys" where
  "init_locked api s =
    (let su = cv_setup api (as_nvs s) in
     if as_initialized s then (ESP_OK, s)
     else if \<not> su_flash_encrypted su then (ESP_ERR_INVALID_STATE, s)
     else if \<not> su_keys_found su then (ESP_ERR_NOT_FOUND, s)
     else
       let err = (if su_read_cfg su = ESP_ERR_NVS_KEYS_NOT_INITIALIZED then su_generate_keys su else su_read_cfg su)
       in if err \<noteq> ESP_OK then (err, s)
          else
            let (err, n) = cv_secure_init api (as_nvs s) in
            if err \<noteq> ESP_OK then (err, s\<lparr>as_nvs := n\<rparr>)
            else
              let (err, n) = cv_open_write api n in
              if err \<noteq> ESP_OK then (err, s\<lparr>as_nvs := n\<rparr>)
              else (ESP_OK, s\<lparr>as_nvs := n, as_initialized := True\<rparr>))"

definition acme_storage_init :: "'n cert_nvs \<Rightarrow> 'n acme_sys \<Rightarrow> esp_err \<times> 'n acme_sys" where
  "acme_storage_init api s = (let (err, s) = ensure_lock api s in if err \<noteq> ESP_OK then (err, s) else init_locked api s)"

text \<open>
  What every exported function begins with: the initialisation, whose error it returns beside the default \<open>d\<close>; then a
  body that works on the partition, and one that only reads it.
\<close>

definition on_storage :: "'n cert_nvs \<Rightarrow> 'a \<Rightarrow> ('n \<Rightarrow> (esp_err \<times> 'a) \<times> 'n) \<Rightarrow> 'n acme_sys \<Rightarrow> (esp_err \<times> 'a) \<times> 'n acme_sys" where
  "on_storage api d body s =
    (let (err, s) = acme_storage_init api s in
     if err \<noteq> ESP_OK then ((err, d), s) else (let (r, n) = body (as_nvs s) in (r, s\<lparr>as_nvs := n\<rparr>)))"

definition reading :: "'n cert_nvs \<Rightarrow> 'a \<Rightarrow> ('n \<Rightarrow> esp_err \<times> 'a) \<Rightarrow> 'n acme_sys \<Rightarrow> (esp_err \<times> 'a) \<times> 'n acme_sys" where
  "reading api d body =
    on_storage api d (\<lambda>n. (if cv_open_read api n \<noteq> ESP_OK then (cv_open_read api n, d) else body n, n))"

text \<open>Opening for writing, the sets one after the other while they succeed, and the commit.\<close>

definition write_values :: "'n cert_nvs \<Rightarrow> (string \<times> cert_value) list \<Rightarrow> 'n \<Rightarrow> esp_err \<times> 'n" where
  "write_values api kvs n =
    (let (err, n) = cv_open_write api n in
     if err \<noteq> ESP_OK then (err, n) else if_ok (cv_commit api) (fold (\<lambda>(k, v). if_ok (cv_set api k v)) kvs (ESP_OK, n)))"

definition writing :: "'n cert_nvs \<Rightarrow> (string \<times> cert_value) list \<Rightarrow> 'n acme_sys \<Rightarrow> esp_err \<times> 'n acme_sys" where
  "writing api kvs s =
    (let ((err, _), s) = on_storage api () (\<lambda>n. let (err, n) = write_values api kvs n in ((err, ()), n)) s in (err, s))"

subsection \<open>The ACME account\<close>

definition ACME_ACCOUNT_PRIVATE_KEY_LENGTH :: nat where "ACME_ACCOUNT_PRIVATE_KEY_LENGTH = 32"
definition ACME_ACCOUNT_URL_MAX_LENGTH :: nat where "ACME_ACCOUNT_URL_MAX_LENGTH = 384"
definition ACME_NVS_KEY_PRIV :: string where "ACME_NVS_KEY_PRIV = ''acct_key''"
definition ACME_NVS_KEY_KID :: string where "ACME_NVS_KEY_KID = ''acct_url''"
definition ACME_PROD_ACCOUNT_NVS_KEY :: string where "ACME_PROD_ACCOUNT_NVS_KEY = ''acct_prod''"

definition not_found :: "esp_err \<Rightarrow> esp_err" where
  "not_found err = (if err = ESP_ERR_NVS_NOT_FOUND then ESP_ERR_NOT_FOUND else err)"

text \<open>\<open>https://\<close>.\<close>

definition https_prefix :: bytes where "https_prefix = [0x68, 0x74, 0x74, 0x70, 0x73, 0x3A, 0x2F, 0x2F]"

definition is_https_url :: "bytes \<Rightarrow> bool" where
  "is_https_url url \<longleftrightarrow> take 8 url = https_prefix"

record acme_storage_status =
  ss_initialized :: bool
  ss_private_key_present :: bool
  ss_account_url_present :: bool
  ss_account_url :: bytes

definition acme_storage_get_status :: "'n cert_nvs \<Rightarrow> 'n acme_sys \<Rightarrow> (esp_err \<times> acme_storage_status) \<times> 'n acme_sys" where
  "acme_storage_get_status api =
    reading api \<lparr>ss_initialized = False, ss_private_key_present = False, ss_account_url_present = False, ss_account_url = []\<rparr>
      (\<lambda>n. let (key_err, key_size) = cv_blob_size api ACME_NVS_KEY_PRIV n;
               (url_err, url) = cv_str api ACME_NVS_KEY_KID ACME_ACCOUNT_URL_MAX_LENGTH n;
               url = (if url_err = ESP_OK then url else [])
           in (ESP_OK, \<lparr> ss_initialized = True,
                 ss_private_key_present = (key_err = ESP_OK \<and> key_size = ACME_ACCOUNT_PRIVATE_KEY_LENGTH),
                 ss_account_url_present = (url_err = ESP_OK \<and> url \<noteq> []), ss_account_url = url \<rparr>))"

text \<open>The key is empty where the function reports an error.\<close>

definition acme_storage_load_private_key :: "'n cert_nvs \<Rightarrow> 'n acme_sys \<Rightarrow> (esp_err \<times> bytes) \<times> 'n acme_sys" where
  "acme_storage_load_private_key api =
    reading api []
      (\<lambda>n. let (err, key) = cv_blob api ACME_NVS_KEY_PRIV ACME_ACCOUNT_PRIVATE_KEY_LENGTH n; err = not_found err
           in if err \<noteq> ESP_OK then (err, [])
              else if length key \<noteq> ACME_ACCOUNT_PRIVATE_KEY_LENGTH then (ESP_ERR_INVALID_SIZE, [])
              else (ESP_OK, key))"

definition acme_storage_store_private_key :: "'n cert_nvs \<Rightarrow> bytes \<Rightarrow> 'n acme_sys \<Rightarrow> esp_err \<times> 'n acme_sys" where
  "acme_storage_store_private_key api key = writing api [(ACME_NVS_KEY_PRIV, CvBlob key)]"

definition acme_storage_load_account_url :: "'n cert_nvs \<Rightarrow> nat \<Rightarrow> 'n acme_sys \<Rightarrow> (esp_err \<times> bytes) \<times> 'n acme_sys" where
  "acme_storage_load_account_url api account_url_size s =
    (if account_url_size < 2 then ((ESP_ERR_INVALID_ARG, []), s)
     else reading api []
       (\<lambda>n. let (err, url) = cv_str api ACME_NVS_KEY_KID account_url_size n
            in (not_found err, if err = ESP_OK then url else [])) s)"

definition acme_storage_store_account_url :: "'n cert_nvs \<Rightarrow> bytes \<Rightarrow> 'n acme_sys \<Rightarrow> esp_err \<times> 'n acme_sys" where
  "acme_storage_store_account_url api url s =
    (if \<not> is_https_url url \<or> length url \<ge> ACME_ACCOUNT_URL_MAX_LENGTH then (ESP_ERR_INVALID_ARG, s)
     else writing api [(ACME_NVS_KEY_KID, CvStr url)] s)"

definition load_production_account_url :: "'n cert_nvs \<Rightarrow> nat \<Rightarrow> 'n acme_sys \<Rightarrow> (esp_err \<times> bytes) \<times> 'n acme_sys" where
  "load_production_account_url api url_size s =
    (if url_size < 2 then ((ESP_ERR_INVALID_ARG, []), s)
     else reading api []
       (\<lambda>n. let (err, url) = cv_str api ACME_PROD_ACCOUNT_NVS_KEY url_size n
            in (not_found err, if err = ESP_OK then url else [])) s)"

definition store_production_account_url :: "'n cert_nvs \<Rightarrow> bytes \<Rightarrow> 'n acme_sys \<Rightarrow> esp_err \<times> 'n acme_sys" where
  "store_production_account_url api url s =
    (if \<not> is_https_url url then (ESP_ERR_INVALID_ARG, s)
     else writing api [(ACME_PROD_ACCOUNT_NVS_KEY, CvStr url)] s)"

end
