(* ===== verification/Cert_Slots.thy ===== *)
theory Cert_Slots
  imports Cert_Store
begin

text \<open>
  The production certificate of \<open>src/main/acme_client.c\<close>: its material (private key, PEM chain, host name) in two slots and
  a selector, the validation of a slot, the migration from the single slot of older versions, the update, and the
  inspection that reads it back.
\<close>

subsection \<open>Names\<close>

definition ACME_DNS_NAME_MAX_LENGTH :: nat where "ACME_DNS_NAME_MAX_LENGTH = 253"
definition ACME_CERT_PRIVATE_KEY_LENGTH :: nat where "ACME_CERT_PRIVATE_KEY_LENGTH = 32"
definition ACME_RESPONSE_MAX :: nat where "ACME_RESPONSE_MAX = 16384"
definition ACME_PROD_ACTIVE_SLOT_NVS_KEY :: string where "ACME_PROD_ACTIVE_SLOT_NVS_KEY = ''pslot''"
definition ACME_TLS_BOOT_NVS_KEY :: string where "ACME_TLS_BOOT_NVS_KEY = ''tls_prod''"

text \<open>The loop of \<open>dns_name_is_valid\<close>: the octets to come, the length of the label so far and the octet before.\<close>

fun dns_labels :: "bytes \<Rightarrow> nat \<Rightarrow> u8 \<Rightarrow> bool" where
  "dns_labels [] label_length previous = (label_length > 0 \<and> label_length \<le> 63 \<and> previous \<noteq> hyphen)"
| "dns_labels (c # cs) label_length previous =
    (if c = dot then
       (if label_length = 0 \<or> label_length > 63 \<or> previous = hyphen then False else dns_labels cs 0 c)
     else if \<not> (islower_c c \<or> isdigit_c c \<or> c = hyphen) \<or> (label_length = 0 \<and> c = hyphen) then False
     else dns_labels cs (label_length + 1) c)"

definition dns_name_is_valid :: "bytes \<Rightarrow> bool" where
  "dns_name_is_valid name \<longleftrightarrow>
     \<not> (length name = 0 \<or> length name > ACME_DNS_NAME_MAX_LENGTH \<or> hd name = dot \<or> last name = dot) \<and> dns_labels name 0 0"

subsection \<open>Certificate material\<close>

text \<open>
  What the library says of a PEM chain: the DER of its first certificate, its validity and the number of certificates. The
  public key is the one of a private key that can be imported.
\<close>

record x509_time =
  xt_year :: int
  xt_mon :: int
  xt_day :: int
  xt_hour :: int
  xt_min :: int
  xt_sec :: int

record x509 =
  x_raw :: bytes
  x_valid_from :: x509_time
  x_valid_to :: x509_time
  x_count :: u32

record cert_crypto =
  cc_x509_parse :: "bytes \<Rightarrow> x509 option"
  cc_import_key :: "bytes \<Rightarrow> bool"
  cc_public_key :: "bytes \<Rightarrow> bytes option"
  cc_sha256 :: "bytes \<Rightarrow> bytes option"

definition bytes_contain :: "bytes \<Rightarrow> bytes \<Rightarrow> bool" where
  "bytes_contain haystack needle \<longleftrightarrow>
     \<not> (length needle = 0 \<or> length haystack < length needle) \<and>
     (\<exists>i \<in> set [0..<length haystack - length needle + 1]. bslice haystack i (length needle) = needle)"

definition der_contains_dns_san :: "bytes \<Rightarrow> bytes \<Rightarrow> bool" where
  "der_contains_dns_san der hostname \<longleftrightarrow>
     (let host_len = length hostname in
      \<not> (host_len = 0 \<or> host_len > 127 \<or> length der < host_len + 2) \<and>
      (\<exists>i \<in> set [0..<length der - (host_len + 2) + 1].
         der ! i = 0x82 \<and> der ! (i + 1) = of_nat host_len \<and> bslice der (i + 2) host_len = hostname))"

text \<open>The 65 octets of an uncompressed point.\<close>

definition public_key_of :: "cert_crypto \<Rightarrow> bytes \<Rightarrow> bytes option" where
  "public_key_of C private_key =
    (case cc_public_key C private_key of
       None \<Rightarrow> None
     | Some public \<Rightarrow> if length public = 65 \<and> public ! 0 = 0x04 then Some public else None)"

text \<open>The library gets the PEM text with the NUL behind it.\<close>

definition validate_certificate_material :: "cert_crypto \<Rightarrow> bytes \<Rightarrow> bytes \<Rightarrow> bytes \<Rightarrow> esp_err" where
  "validate_certificate_material C hostname private_key pem =
    (if \<not> dns_name_is_valid hostname \<or> length pem < 64 then ESP_ERR_INVALID_ARG
     else case cc_x509_parse C (pem @ [0]) of
            None \<Rightarrow> ESP_ERR_INVALID_RESPONSE
          | Some chain \<Rightarrow>
              if x_raw chain = [] then ESP_ERR_INVALID_RESPONSE
              else if \<not> der_contains_dns_san (x_raw chain) hostname then ESP_ERR_INVALID_RESPONSE
              else if \<not> cc_import_key C private_key then ESP_FAIL
              else case public_key_of C private_key of
                     None \<Rightarrow> ESP_ERR_INVALID_RESPONSE
                   | Some public \<Rightarrow> if bytes_contain (x_raw chain) public then ESP_OK else ESP_ERR_INVALID_RESPONSE)"

subsection \<open>Slots\<close>

record production_slot_names =
  sn_key :: string
  sn_pem :: string
  sn_host :: string

definition s_prod_slots :: "u8 \<Rightarrow> production_slot_names" where
  "s_prod_slots slot =
    (if slot = 0 then \<lparr>sn_key = ''pkey_a'', sn_pem = ''ppem_a'', sn_host = ''phost_a''\<rparr>
     else \<lparr>sn_key = ''pkey_b'', sn_pem = ''ppem_b'', sn_host = ''phost_b''\<rparr>)"

definition legacy_names :: production_slot_names where
  "legacy_names = \<lparr>sn_key = ''pcert_key'', sn_pem = ''pcert_pem'', sn_host = ''pcert_host''\<rparr>"

definition staging_names :: production_slot_names where
  "staging_names = \<lparr>sn_key = ''cert_key'', sn_pem = ''cert_pem'', sn_host = ''cert_host''\<rparr>"

record material =
  mt_key :: bytes
  mt_pem :: bytes
  mt_host :: bytes

definition no_material :: material where "no_material = \<lparr>mt_key = [], mt_pem = [], mt_host = []\<rparr>"

text \<open>A blob read into a cleared buffer of \<open>n\<close> octets.\<close>

definition into_buffer :: "nat \<Rightarrow> bytes \<Rightarrow> bytes" where
  "into_buffer n bs = take n (bs @ replicate n 0)"

definition load_material_by_names :: "'n cert_nvs \<Rightarrow> production_slot_names \<Rightarrow> nat \<Rightarrow> 'n \<Rightarrow> esp_err \<times> material" where
  "load_material_by_names api names hostname_size n =
    (if hostname_size < 2 then (ESP_ERR_INVALID_ARG, no_material)
     else if cv_open_read api n \<noteq> ESP_OK then (cv_open_read api n, no_material)
     else
       let (ke, key_len) = cv_blob_size api (sn_key names) n;
           (pe, pem_len) = cv_blob_size api (sn_pem names) n;
           (he, host_len) = cv_str_size api (sn_host names) n
       in if ke = ESP_ERR_NVS_NOT_FOUND \<or> pe = ESP_ERR_NVS_NOT_FOUND \<or> he = ESP_ERR_NVS_NOT_FOUND
          then (ESP_ERR_NOT_FOUND, no_material)
          else if ke \<noteq> ESP_OK \<or> pe \<noteq> ESP_OK \<or> he \<noteq> ESP_OK \<or> key_len \<noteq> ACME_CERT_PRIVATE_KEY_LENGTH \<or>
                  pem_len < 64 \<or> pem_len > ACME_RESPONSE_MAX \<or> host_len < 2 \<or> host_len > hostname_size
          then (ESP_ERR_INVALID_SIZE, no_material)
          else if \<not> cv_alloc api (pem_len + 1) n then (ESP_ERR_NO_MEM, no_material)
          else
            let (ek, key) = cv_blob api (sn_key names) ACME_CERT_PRIVATE_KEY_LENGTH n;
                (ep, pem) = cv_blob api (sn_pem names) pem_len n;
                (eh, host) = cv_str api (sn_host names) hostname_size n;
                err = (if ek \<noteq> ESP_OK then ek else if ep \<noteq> ESP_OK then ep else eh)
            in if err \<noteq> ESP_OK then (err, no_material)
               else (ESP_OK, \<lparr> mt_key = into_buffer ACME_CERT_PRIVATE_KEY_LENGTH key, mt_pem = into_buffer pem_len pem, mt_host = host \<rparr>))"

text \<open>The PEM text without the NUL that may be stored with it.\<close>

definition pem_text :: "bytes \<Rightarrow> bytes" where
  "pem_text pem = (if pem \<noteq> [] \<and> last pem = 0 then butlast pem else pem)"

definition validate_production_slot :: "'n cert_nvs \<Rightarrow> cert_crypto \<Rightarrow> u8 \<Rightarrow> 'n \<Rightarrow> esp_err" where
  "validate_production_slot api C slot n =
    (if slot > 1 then ESP_ERR_INVALID_ARG
     else
       let (err, m) = load_material_by_names api (s_prod_slots slot) (ACME_DNS_NAME_MAX_LENGTH + 1) n
       in if err \<noteq> ESP_OK then err else validate_certificate_material C (mt_host m) (mt_key m) (pem_text (mt_pem m)))"

definition read_production_slot_selector :: "'n cert_nvs \<Rightarrow> 'n \<Rightarrow> esp_err \<times> u8 option" where
  "read_production_slot_selector api n =
    (if cv_open_read api n \<noteq> ESP_OK then (cv_open_read api n, None)
     else
       let (err, slot) = cv_u8 api ACME_PROD_ACTIVE_SLOT_NVS_KEY n
       in if err = ESP_ERR_NVS_NOT_FOUND then (ESP_OK, None)
          else if err \<noteq> ESP_OK then (err, None)
          else if slot > 1 then (ESP_ERR_INVALID_STATE, None)
          else (ESP_OK, Some slot))"

definition commit_production_slot_selector :: "'n cert_nvs \<Rightarrow> u8 \<Rightarrow> 'n \<Rightarrow> esp_err \<times> 'n" where
  "commit_production_slot_selector api slot n =
    (if slot > 1 then (ESP_ERR_INVALID_ARG, n) else write_values api [(ACME_PROD_ACTIVE_SLOT_NVS_KEY, CvU8 slot)] n)"

definition slot_values :: "production_slot_names \<Rightarrow> material \<Rightarrow> (string \<times> cert_value) list" where
  "slot_values names m = [(sn_key names, CvBlob (mt_key m)), (sn_pem names, CvBlob (mt_pem m)), (sn_host names, CvStr (mt_host m))]"

definition migrate_legacy_production_material :: "'n cert_nvs \<Rightarrow> cert_crypto \<Rightarrow> 'n \<Rightarrow> esp_err \<times> 'n" where
  "migrate_legacy_production_material api C n =
    (let (err, selector) = read_production_slot_selector api n in
     if err \<noteq> ESP_OK \<or> selector \<noteq> None then (err, n)
     else
       let (err, m) = load_material_by_names api legacy_names (ACME_DNS_NAME_MAX_LENGTH + 1) n in
       if err \<noteq> ESP_OK then (err, n)
       else
         let err = validate_certificate_material C (mt_host m) (mt_key m) (pem_text (mt_pem m));
             (err, n) = (if err = ESP_OK then write_values api (slot_values (s_prod_slots 0) m) n else (err, n));
             err = (if err = ESP_OK then validate_production_slot api C 0 n else err)
         in if err = ESP_OK then commit_production_slot_selector api 0 n else (err, n))"

text \<open>The three erasures, each run unless an earlier one failed; one that finds nothing does not count as failed.\<close>

definition erase_legacy :: "'n cert_nvs \<Rightarrow> 'n \<Rightarrow> esp_err \<times> 'n" where
  "erase_legacy api n =
    (let (err, n) = cv_open_write api n in
     if err \<noteq> ESP_OK then (err, n)
     else
       let ok = (\<lambda>err. err = ESP_OK \<or> err = ESP_ERR_NVS_NOT_FOUND);
           (err, n) = cv_erase_key api (sn_key legacy_names) n;
           (err, n) = (if ok err then cv_erase_key api (sn_pem legacy_names) n else (err, n));
           (err, n) = (if ok err then cv_erase_key api (sn_host legacy_names) n else (err, n))
       in if ok err then cv_commit api n else (err, n))"

definition retire_legacy_production_material_if_safe :: "'n cert_nvs \<Rightarrow> cert_crypto \<Rightarrow> 'n \<Rightarrow> esp_err \<times> 'n" where
  "retire_legacy_production_material_if_safe api C n =
    (if validate_production_slot api C 0 n \<noteq> ESP_OK \<or> validate_production_slot api C 1 n \<noteq> ESP_OK then (ESP_OK, n)
     else
       let (err, selected) = read_production_slot_selector api n in
       case selected of
         None \<Rightarrow> (err, n)
       | Some selected \<Rightarrow>
           if err \<noteq> ESP_OK then (err, n)
           else
             let effective = (if validate_production_slot api C selected n \<noteq> ESP_OK then selected XOR 1 else selected) in
             if validate_production_slot api C effective n \<noteq> ESP_OK then (ESP_OK, n)
             else
               let (err, legacy) = load_material_by_names api legacy_names (ACME_DNS_NAME_MAX_LENGTH + 1) n in
               if err = ESP_ERR_NVS_NOT_FOUND \<or> err = ESP_ERR_NOT_FOUND then (ESP_OK, n)
               else if err \<noteq> ESP_OK then (err, n)
               else
                 let err = validate_certificate_material C (mt_host legacy) (mt_key legacy) (pem_text (mt_pem legacy)) in
                 if err \<noteq> ESP_OK then (err, n)
                 else
                   let (err, active) = load_material_by_names api (s_prod_slots effective) (ACME_DNS_NAME_MAX_LENGTH + 1) n in
                   if err \<noteq> ESP_OK then (err, n)
                   else if mt_host legacy \<noteq> mt_host active \<or> mt_key legacy \<noteq> mt_key active \<or> mt_pem legacy \<noteq> mt_pem active
                   then (ESP_OK, n)
                   else erase_legacy api n)"

definition resolve_production_slot :: "'n cert_nvs \<Rightarrow> cert_crypto \<Rightarrow> 'n \<Rightarrow> (esp_err \<times> u8) \<times> 'n" where
  "resolve_production_slot api C n =
    (let (err, n) = migrate_legacy_production_material api C n in
     if err \<noteq> ESP_OK \<and> err \<noteq> ESP_ERR_NOT_FOUND then ((err, 0), n)
     else
       let (err, selected) = read_production_slot_selector api n in
       if err \<noteq> ESP_OK then ((err, 0), n)
       else case selected of
              None \<Rightarrow> ((ESP_ERR_NOT_FOUND, 0), n)
            | Some selected \<Rightarrow>
                if validate_production_slot api C selected n = ESP_OK then ((ESP_OK, selected), n)
                else if validate_production_slot api C (selected XOR 1) n = ESP_OK then ((ESP_OK, selected XOR 1), n)
                else ((ESP_ERR_INVALID_STATE, 0), n))"

text \<open>The body of the update for a production certificate, once the storage is initialised. The blob stored ends with the NUL.\<close>

definition update_production :: "'n cert_nvs \<Rightarrow> cert_crypto \<Rightarrow> material \<Rightarrow> 'n \<Rightarrow> esp_err \<times> 'n" where
  "update_production api C m n =
    (let ((err, active), n) = resolve_production_slot api C n in
     if err \<noteq> ESP_OK \<and> err \<noteq> ESP_ERR_NOT_FOUND then (err, n)
     else
       let active = (if err = ESP_ERR_NOT_FOUND then 1 else active); target = active XOR 1;
           (err, n) = write_values api (slot_values (s_prod_slots target) m) n
       in if err \<noteq> ESP_OK then (err, n)
          else
            let err = validate_production_slot api C target n in
            if err \<noteq> ESP_OK then (err, n) else commit_production_slot_selector api target n)"

definition store_certificate_material ::
    "'n cert_nvs \<Rightarrow> cert_crypto \<Rightarrow> bool \<Rightarrow> bytes \<Rightarrow> bytes \<Rightarrow> bytes \<Rightarrow> 'n acme_sys \<Rightarrow> esp_err \<times> 'n acme_sys" where
  "store_certificate_material api C production hostname private_key pem s =
    (let m = \<lparr>mt_key = private_key, mt_pem = pem @ [0], mt_host = hostname\<rparr>;
         err = validate_certificate_material C hostname private_key pem
     in if \<not> dns_name_is_valid hostname \<or> pem = [] then (ESP_ERR_INVALID_ARG, s)
        else if err \<noteq> ESP_OK then (err, s)
        else if \<not> production then writing api (slot_values staging_names m) s
        else
          let ((err, _), s) = on_storage api () (\<lambda>n. let (err, n) = update_production api C m n in ((err, ()), n)) s
          in (err, s))"

end
