(* ===== verification/Cert_Theory.thy ===== *)
theory Cert_Theory
  imports Cert_Access
begin

text \<open>
  What the certificate store promises. Its abstraction is \<open>credential\<close>: the material the selector, the slots and the old
  names stand for. Wherever the power is cut and whatever call fails, preparing the store leaves the credential as it was,
  and an update leaves the old credential or the new one as long as the selected slot can be read: the check of it is the one
  call whose failure the code mistakes for a damaged slot.
\<close>

subsection \<open>A partition that keeps its promises\<close>

type_synonym cert_view = "string \<Rightarrow> cert_value option"

text \<open>
  The documented behaviour of NVS. \<open>live\<close> is what the calls read; \<open>dur\<close> is what a restart would find if the power were cut
  now. A set or an erasure that reports success is done in \<open>live\<close>, one that fails may or may not be. In \<open>dur\<close> a change that is
  not committed may be there or not, key by key; after a commit that reports success all of \<open>live\<close> is there. The codes of
  NVS do not include \<open>ESP_ERR_NOT_FOUND\<close>.
\<close>

definition settles :: "('n \<Rightarrow> cert_view) \<Rightarrow> ('n \<Rightarrow> cert_view) \<Rightarrow> 'n \<Rightarrow> 'n \<Rightarrow> bool" where
  "settles live dur n n' \<longleftrightarrow> (\<forall>k. dur n' k = dur n k \<or> dur n' k = live n k \<or> dur n' k = live n' k)"

definition cert_writes :: "'n cert_nvs \<Rightarrow> ('n \<Rightarrow> cert_view) \<Rightarrow> ('n \<Rightarrow> cert_view) \<Rightarrow> bool" where
  "cert_writes api live dur \<longleftrightarrow>
     (\<forall>n e n'. cv_open_write api n = (e, n') \<longrightarrow> e \<noteq> ESP_ERR_NOT_FOUND \<and> live n' = live n \<and> settles live dur n n') \<and>
     (\<forall>k v n e n'. cv_set api k v n = (e, n') \<longrightarrow> e \<noteq> ESP_ERR_NOT_FOUND \<and> settles live dur n n' \<and>
        (live n' = (live n)(k \<mapsto> v) \<or> e \<noteq> ESP_OK \<and> live n' = live n)) \<and>
     (\<forall>k n e n'. cv_erase_key api k n = (e, n') \<longrightarrow> e \<noteq> ESP_ERR_NOT_FOUND \<and> settles live dur n n' \<and>
        (live n' = (live n)(k := None) \<or> e \<noteq> ESP_OK \<and> live n' = live n)) \<and>
     (\<forall>n e n'. cv_commit api n = (e, n') \<longrightarrow> e \<noteq> ESP_ERR_NOT_FOUND \<and> live n' = live n \<and> settles live dur n n' \<and>
        (e = ESP_OK \<longrightarrow> dur n' = live n'))"

text \<open>
  A call that reads tells the truth or fails: \<open>ESP_OK\<close> comes with what is there, \<open>ESP_ERR_NVS_NOT_FOUND\<close> is said only where
  nothing of the type is there, any other code may come at any time except \<open>ESP_ERR_NOT_FOUND\<close>, and there may be no memory.
  Reading leaves the partition's state alone, so two equal calls without a write between give the same answer.
\<close>

definition cert_truthful :: "'n cert_nvs \<Rightarrow> ('n \<Rightarrow> cert_view) \<Rightarrow> bool" where
  "cert_truthful api live \<longleftrightarrow>
     (\<forall>n. cv_open_read api n \<noteq> ESP_ERR_NOT_FOUND) \<and>
     (\<forall>k n e x. cv_u8 api k n = (e, x) \<longrightarrow> e \<noteq> ESP_ERR_NOT_FOUND \<and>
        (e = ESP_OK \<longrightarrow> live n k = Some (CvU8 x)) \<and> (e = ESP_ERR_NVS_NOT_FOUND \<longrightarrow> (\<forall>y. live n k \<noteq> Some (CvU8 y)))) \<and>
     (\<forall>k n e l. cv_blob_size api k n = (e, l) \<longrightarrow>
        (e = ESP_OK \<longrightarrow> (\<exists>b. live n k = Some (CvBlob b) \<and> length b = l)) \<and>
        (e = ESP_ERR_NVS_NOT_FOUND \<longrightarrow> (\<forall>b. live n k \<noteq> Some (CvBlob b)))) \<and>
     (\<forall>k m n e b. cv_blob api k m n = (e, b) \<longrightarrow> e \<noteq> ESP_ERR_NOT_FOUND \<and> (e = ESP_OK \<longrightarrow> live n k = Some (CvBlob b))) \<and>
     (\<forall>k n e l. cv_str_size api k n = (e, l) \<longrightarrow>
        (e = ESP_OK \<longrightarrow> (\<exists>b. live n k = Some (CvStr b) \<and> length b + 1 = l)) \<and>
        (e = ESP_ERR_NVS_NOT_FOUND \<longrightarrow> (\<forall>b. live n k \<noteq> Some (CvStr b)))) \<and>
     (\<forall>k m n e b. cv_str api k m n = (e, b) \<longrightarrow> e \<noteq> ESP_ERR_NOT_FOUND \<and> (e = ESP_OK \<longrightarrow> live n k = Some (CvStr b)))"

text \<open>The names of a slot can be read: no call fails and there is memory for the PEM text.\<close>

definition slot_readable :: "'n cert_nvs \<Rightarrow> production_slot_names \<Rightarrow> 'n \<Rightarrow> bool" where
  "slot_readable api names n \<longleftrightarrow>
     cv_open_read api n = ESP_OK \<and> fst (cv_blob_size api (sn_key names) n) = ESP_OK \<and>
     fst (cv_blob_size api (sn_pem names) n) = ESP_OK \<and> fst (cv_str_size api (sn_host names) n) = ESP_OK \<and>
     cv_alloc api (snd (cv_blob_size api (sn_pem names) n) + 1) n \<and> fst (cv_blob api (sn_key names) 32 n) = ESP_OK \<and>
     fst (cv_blob api (sn_pem names) (snd (cv_blob_size api (sn_pem names) n)) n) = ESP_OK \<and>
     fst (cv_str api (sn_host names) 254 n) = ESP_OK"

text \<open>
  Where everything can be read: reading gives what is there if it fits the buffer. The namespace can be opened, since the
  initialisation creates it, and there is memory.
\<close>

definition cert_reads :: "'n cert_nvs \<Rightarrow> ('n \<Rightarrow> cert_view) \<Rightarrow> bool" where
  "cert_reads api live \<longleftrightarrow>
     (\<forall>n. cv_open_read api n = ESP_OK \<and> (\<forall>len. cv_alloc api len n)) \<and>
     (\<forall>k n. case live n k of Some (CvU8 x) \<Rightarrow> cv_u8 api k n = (ESP_OK, x) | _ \<Rightarrow> fst (cv_u8 api k n) = ESP_ERR_NVS_NOT_FOUND) \<and>
     (\<forall>k n. case live n k of
        Some (CvBlob b) \<Rightarrow> cv_blob_size api k n = (ESP_OK, length b) \<and> (\<forall>m \<ge> length b. cv_blob api k m n = (ESP_OK, b))
      | _ \<Rightarrow> fst (cv_blob_size api k n) = ESP_ERR_NVS_NOT_FOUND) \<and>
     (\<forall>k n. case live n k of
        Some (CvStr b) \<Rightarrow> cv_str_size api k n = (ESP_OK, length b + 1) \<and> (\<forall>m > length b. cv_str api k m n = (ESP_OK, b))
      | _ \<Rightarrow> fst (cv_str_size api k n) = ESP_ERR_NVS_NOT_FOUND)"

subsection \<open>The credential\<close>

definition view_material :: "cert_view \<Rightarrow> production_slot_names \<Rightarrow> material option" where
  "view_material v names =
    (case (v (sn_key names), v (sn_pem names), v (sn_host names)) of
       (Some (CvBlob key), Some (CvBlob pem), Some (CvStr host)) \<Rightarrow>
         if length key = 32 \<and> 64 \<le> length pem \<and> length pem \<le> 16384 \<and> 1 \<le> length host \<and> length host \<le> 253
         then Some \<lparr>mt_key = key, mt_pem = pem, mt_host = host\<rparr> else None
     | _ \<Rightarrow> None)"

definition acceptable :: "cert_crypto \<Rightarrow> material \<Rightarrow> bool" where
  "acceptable C m \<longleftrightarrow> validate_certificate_material C (mt_host m) (mt_key m) (pem_text (mt_pem m)) = ESP_OK"

definition valid_material :: "cert_crypto \<Rightarrow> cert_view \<Rightarrow> production_slot_names \<Rightarrow> material option" where
  "valid_material C v names =
    (case view_material v names of None \<Rightarrow> None | Some m \<Rightarrow> if acceptable C m then Some m else None)"

text \<open>The selector, if it is one.\<close>

definition selector_of :: "cert_view \<Rightarrow> u8 option" where
  "selector_of v = (case v ACME_PROD_ACTIVE_SLOT_NVS_KEY of Some (CvU8 s) \<Rightarrow> Some s | _ \<Rightarrow> None)"

definition credential :: "cert_crypto \<Rightarrow> cert_view \<Rightarrow> material option" where
  "credential C v =
    (case selector_of v of
       None \<Rightarrow> valid_material C v legacy_names
     | Some s \<Rightarrow>
         if s > 1 then None
         else case valid_material C v (s_prod_slots s) of
                Some m \<Rightarrow> Some m
              | None \<Rightarrow> valid_material C v (s_prod_slots (s XOR 1)))"

text \<open>The selector points at a slot that validates, or there is none; then the credential of a view; and a slot selected.\<close>

definition selected_ok :: "cert_crypto \<Rightarrow> cert_view \<Rightarrow> bool" where
  "selected_ok C v \<longleftrightarrow> (case selector_of v of None \<Rightarrow> True | Some s \<Rightarrow> s \<le> 1 \<and> valid_material C v (s_prod_slots s) \<noteq> None)"

definition stands :: "cert_crypto \<Rightarrow> cert_view \<Rightarrow> material option \<Rightarrow> bool" where
  "stands C v c \<longleftrightarrow> selected_ok C v \<and> credential C v = c"

definition selects :: "cert_crypto \<Rightarrow> cert_view \<Rightarrow> u8 \<Rightarrow> material \<Rightarrow> bool" where
  "selects C v t m \<longleftrightarrow> t \<le> 1 \<and> selector_of v = Some t \<and> valid_material C v (s_prod_slots t) = Some m"

text \<open>The slot that is selected and valid can be read.\<close>

definition selected_readable :: "'n cert_nvs \<Rightarrow> cert_crypto \<Rightarrow> ('n \<Rightarrow> cert_view) \<Rightarrow> bool" where
  "selected_readable api C live \<longleftrightarrow> (\<forall>n s m. selects C (live n) s m \<longrightarrow> slot_readable api (s_prod_slots s) n)"

lemma selects_stands: "selects C v t m \<Longrightarrow> stands C v (Some m)"
  by (auto simp: selects_def stands_def selected_ok_def credential_def dest: leD)

lemma slot_cases: "s \<le> 1 \<Longrightarrow> s = 0 \<or> s = 1" for s :: u8
proof -
  assume "s \<le> 1"
  then have "unat s \<le> 1" by (simp add: word_le_nat_alt)
  then have "unat s = 0 \<or> unat s = 1" by linarith
  then show ?thesis by (simp add: word_unat_eq_iff)
qed

lemma slot_other [simp]: "(0 :: u8) XOR 1 = 1" "(1 :: u8) XOR 1 = 0"
  by simp_all

lemma slot_names [simp]:
  "sn_key (s_prod_slots 0) = ''pkey_a''" "sn_pem (s_prod_slots 0) = ''ppem_a''" "sn_host (s_prod_slots 0) = ''phost_a''"
  "sn_key (s_prod_slots 1) = ''pkey_b''" "sn_pem (s_prod_slots 1) = ''ppem_b''" "sn_host (s_prod_slots 1) = ''phost_b''"
  "sn_key legacy_names = ''pcert_key''" "sn_pem legacy_names = ''pcert_pem''" "sn_host legacy_names = ''pcert_host''"
  by (simp_all add: s_prod_slots_def legacy_names_def)

lemmas slot_keys = slot_names ACME_PROD_ACTIVE_SLOT_NVS_KEY_def

subsection \<open>Reading\<close>

lemma into_buffer_exact [simp]: "into_buffer (length bs) bs = bs"
  by (simp add: into_buffer_def)

lemma cert_readsD:
  assumes "cert_reads api live"
  shows "cv_open_read api n = ESP_OK" "cv_alloc api len n"
    "live n k = Some (CvU8 x) \<Longrightarrow> cv_u8 api k n = (ESP_OK, x)"
    "(\<And>x. live n k \<noteq> Some (CvU8 x)) \<Longrightarrow> fst (cv_u8 api k n) = ESP_ERR_NVS_NOT_FOUND"
    "live n k = Some (CvBlob b) \<Longrightarrow> cv_blob_size api k n = (ESP_OK, length b)"
    "live n k = Some (CvBlob b) \<Longrightarrow> length b \<le> m \<Longrightarrow> cv_blob api k m n = (ESP_OK, b)"
    "(\<And>b. live n k \<noteq> Some (CvBlob b)) \<Longrightarrow> fst (cv_blob_size api k n) = ESP_ERR_NVS_NOT_FOUND"
    "live n k = Some (CvStr b) \<Longrightarrow> cv_str_size api k n = (ESP_OK, length b + 1)"
    "live n k = Some (CvStr b) \<Longrightarrow> length b < m \<Longrightarrow> cv_str api k m n = (ESP_OK, b)"
    "(\<And>b. live n k \<noteq> Some (CvStr b)) \<Longrightarrow> fst (cv_str_size api k n) = ESP_ERR_NVS_NOT_FOUND"
proof -
  note laws = assms [unfolded cert_reads_def]
  show "cv_open_read api n = ESP_OK" "cv_alloc api len n" using laws by simp_all
  have u: "case live n k of Some (CvU8 x) \<Rightarrow> cv_u8 api k n = (ESP_OK, x) | _ \<Rightarrow> fst (cv_u8 api k n) = ESP_ERR_NVS_NOT_FOUND"
    using laws by blast
  show "live n k = Some (CvU8 x) \<Longrightarrow> cv_u8 api k n = (ESP_OK, x)" using u by simp
  show "(\<And>x. live n k \<noteq> Some (CvU8 x)) \<Longrightarrow> fst (cv_u8 api k n) = ESP_ERR_NVS_NOT_FOUND"
    using u by (auto split: option.splits cert_value.splits)
  have b: "case live n k of
        Some (CvBlob b) \<Rightarrow> cv_blob_size api k n = (ESP_OK, length b) \<and> (\<forall>m \<ge> length b. cv_blob api k m n = (ESP_OK, b))
      | _ \<Rightarrow> fst (cv_blob_size api k n) = ESP_ERR_NVS_NOT_FOUND"
    using laws by blast
  show "live n k = Some (CvBlob b) \<Longrightarrow> cv_blob_size api k n = (ESP_OK, length b)"
    "live n k = Some (CvBlob b) \<Longrightarrow> length b \<le> m \<Longrightarrow> cv_blob api k m n = (ESP_OK, b)" using b by simp_all
  show "(\<And>b. live n k \<noteq> Some (CvBlob b)) \<Longrightarrow> fst (cv_blob_size api k n) = ESP_ERR_NVS_NOT_FOUND"
    using b by (auto split: option.splits cert_value.splits)
  have s: "case live n k of
        Some (CvStr b) \<Rightarrow> cv_str_size api k n = (ESP_OK, length b + 1) \<and> (\<forall>m > length b. cv_str api k m n = (ESP_OK, b))
      | _ \<Rightarrow> fst (cv_str_size api k n) = ESP_ERR_NVS_NOT_FOUND"
    using laws by blast
  show "live n k = Some (CvStr b) \<Longrightarrow> cv_str_size api k n = (ESP_OK, length b + 1)"
    "live n k = Some (CvStr b) \<Longrightarrow> length b < m \<Longrightarrow> cv_str api k m n = (ESP_OK, b)" using s by simp_all
  show "(\<And>b. live n k \<noteq> Some (CvStr b)) \<Longrightarrow> fst (cv_str_size api k n) = ESP_ERR_NVS_NOT_FOUND"
    using s by (auto split: option.splits cert_value.splits)
qed

text \<open>Loading material is looking at the view; where it finds none, the error is one of two.\<close>

lemma load_material:
  assumes "cert_reads api live"
  shows "view_material (live n) names = Some m \<Longrightarrow> load_material_by_names api names 254 n = (ESP_OK, m)"
    "view_material (live n) names = None \<Longrightarrow>
       load_material_by_names api names 254 n \<in> {(ESP_ERR_NOT_FOUND, no_material), (ESP_ERR_INVALID_SIZE, no_material)}"
proof -
  show "load_material_by_names api names 254 n = (ESP_OK, m)" if some: "view_material (live n) names = Some m"
  proof -
    obtain key pem host where v: "live n (sn_key names) = Some (CvBlob key)" "live n (sn_pem names) = Some (CvBlob pem)"
      "live n (sn_host names) = Some (CvStr host)" "length key = 32" "64 \<le> length pem" "length pem \<le> 16384"
      "1 \<le> length host" "length host \<le> 253" "m = \<lparr>mt_key = key, mt_pem = pem, mt_host = host\<rparr>"
      using some by (auto simp: view_material_def split: option.splits cert_value.splits if_splits)
    have r: "cv_blob_size api (sn_key names) n = (ESP_OK, 32)" "cv_blob_size api (sn_pem names) n = (ESP_OK, length pem)"
      "cv_str_size api (sn_host names) n = (ESP_OK, length host + 1)" "cv_blob api (sn_key names) 32 n = (ESP_OK, key)"
      "cv_blob api (sn_pem names) (length pem) n = (ESP_OK, pem)" "cv_str api (sn_host names) 254 n = (ESP_OK, host)"
      using cert_readsD(5,6,8,9) [OF assms] v by simp_all
    have "into_buffer 32 key = key" using v(4) into_buffer_exact [of key] by simp
    then show ?thesis using v(4-9)
      by (auto simp: load_material_by_names_def cert_readsD(1,2) [OF assms] r ACME_CERT_PRIVATE_KEY_LENGTH_def ACME_RESPONSE_MAX_def)
  qed
  show "load_material_by_names api names 254 n \<in> {(ESP_ERR_NOT_FOUND, no_material), (ESP_ERR_INVALID_SIZE, no_material)}"
    if none: "view_material (live n) names = None"
  proof -
    obtain ke kl pe pl he hl where s: "cv_blob_size api (sn_key names) n = (ke, kl)" "cv_blob_size api (sn_pem names) n = (pe, pl)"
      "cv_str_size api (sn_host names) n = (he, hl)" by (metis surj_pair)
    show ?thesis
    proof (cases "ke = ESP_ERR_NVS_NOT_FOUND \<or> pe = ESP_ERR_NVS_NOT_FOUND \<or> he = ESP_ERR_NVS_NOT_FOUND")
      case True
      then show ?thesis by (simp add: load_material_by_names_def cert_readsD(1) [OF assms] s)
    next
      case False
      then obtain key pem host where v: "live n (sn_key names) = Some (CvBlob key)" "live n (sn_pem names) = Some (CvBlob pem)"
        "live n (sn_host names) = Some (CvStr host)"
        using cert_readsD(7,10) [OF assms] s by (metis fst_conv)
      then have "ke = ESP_OK" "pe = ESP_OK" "he = ESP_OK" "kl = length key" "pl = length pem" "hl = length host + 1"
        using cert_readsD(5,8) [OF assms] s by simp_all
      then show ?thesis using none v s
        by (auto simp: load_material_by_names_def cert_readsD(1) [OF assms] view_material_def ACME_CERT_PRIVATE_KEY_LENGTH_def
            ACME_RESPONSE_MAX_def not_less_eq_eq split: if_splits)
    qed
  qed
qed

lemma valid_slot:
  assumes "cert_reads api live" "s \<le> 1"
  shows "validate_production_slot api C s n = ESP_OK \<longleftrightarrow> valid_material C (live n) (s_prod_slots s) \<noteq> None"
proof (cases "view_material (live n) (s_prod_slots s)")
  case None
  then show ?thesis using load_material(2) [OF assms(1) None] assms(2)
    by (auto simp: validate_production_slot_def valid_material_def ACME_DNS_NAME_MAX_LENGTH_def)
next
  case (Some m)
  then show ?thesis using load_material(1) [OF assms(1) Some] assms(2)
    by (simp add: validate_production_slot_def valid_material_def ACME_DNS_NAME_MAX_LENGTH_def acceptable_def not_less)
qed

lemma read_selector:
  assumes "cert_reads api live"
  shows "read_production_slot_selector api n =
    (case selector_of (live n) of None \<Rightarrow> (ESP_OK, None) | Some s \<Rightarrow> if s > 1 then (ESP_ERR_INVALID_STATE, None) else (ESP_OK, Some s))"
proof (cases "\<exists>x. live n ACME_PROD_ACTIVE_SLOT_NVS_KEY = Some (CvU8 x)")
  case True
  then obtain x where x: "live n ACME_PROD_ACTIVE_SLOT_NVS_KEY = Some (CvU8 x)" by blast
  then show ?thesis using cert_readsD(3) [OF assms x]
    by (simp add: read_production_slot_selector_def cert_readsD(1) [OF assms] selector_of_def)
next
  case False
  then have n: "selector_of (live n) = None" by (simp add: selector_of_def split: option.splits cert_value.splits)
  obtain e x where "cv_u8 api ACME_PROD_ACTIVE_SLOT_NVS_KEY n = (e, x)" by fastforce
  then show ?thesis using False cert_readsD(4) [OF assms, of n ACME_PROD_ACTIVE_SLOT_NVS_KEY] n
    by (simp add: read_production_slot_selector_def cert_readsD(1) [OF assms])
qed


text \<open>The same where calls may fail: what is loaded is there.\<close>

lemma truthfulD:
  assumes "cert_truthful api live"
  shows "cv_open_read api n \<noteq> ESP_ERR_NOT_FOUND"
    "cv_u8 api k n = (e, x) \<Longrightarrow> e \<noteq> ESP_ERR_NOT_FOUND \<and>
       (e = ESP_OK \<longrightarrow> live n k = Some (CvU8 x)) \<and> (e = ESP_ERR_NVS_NOT_FOUND \<longrightarrow> live n k \<noteq> Some (CvU8 y))"
    "cv_blob_size api k n = (e, l) \<Longrightarrow> (e = ESP_OK \<longrightarrow> (\<exists>b. live n k = Some (CvBlob b) \<and> length b = l)) \<and>
       (e = ESP_ERR_NVS_NOT_FOUND \<longrightarrow> live n k \<noteq> Some (CvBlob b))"
    "cv_blob api k m n = (e, b) \<Longrightarrow> e \<noteq> ESP_ERR_NOT_FOUND \<and> (e = ESP_OK \<longrightarrow> live n k = Some (CvBlob b))"
    "cv_str_size api k n = (e, l) \<Longrightarrow> (e = ESP_OK \<longrightarrow> (\<exists>b. live n k = Some (CvStr b) \<and> length b + 1 = l)) \<and>
       (e = ESP_ERR_NVS_NOT_FOUND \<longrightarrow> live n k \<noteq> Some (CvStr b))"
    "cv_str api k m n = (e, b) \<Longrightarrow> e \<noteq> ESP_ERR_NOT_FOUND \<and> (e = ESP_OK \<longrightarrow> live n k = Some (CvStr b))"
  using assms unfolding cert_truthful_def by metis+

lemma truthful_load:
  assumes "cert_truthful api live"
  shows "load_material_by_names api names 254 n = (ESP_OK, m) \<Longrightarrow> view_material (live n) names = Some m"
    "load_material_by_names api names 254 n = (ESP_ERR_NOT_FOUND, m) \<Longrightarrow> view_material (live n) names = None"
    "view_material (live n) names = Some m \<Longrightarrow> slot_readable api names n \<Longrightarrow> load_material_by_names api names 254 n = (ESP_OK, m)"
proof -
  obtain ke kl pe pl he hl where s: "cv_blob_size api (sn_key names) n = (ke, kl)" "cv_blob_size api (sn_pem names) n = (pe, pl)"
    "cv_str_size api (sn_host names) n = (he, hl)" by (metis surj_pair)
  obtain ek key ep pem eh host where r: "cv_blob api (sn_key names) 32 n = (ek, key)" "cv_blob api (sn_pem names) pl n = (ep, pem)"
    "cv_str api (sn_host names) 254 n = (eh, host)" by (metis surj_pair)
  note laws = truthfulD [OF assms]
  have size: "ke = ESP_OK \<Longrightarrow> \<exists>b. live n (sn_key names) = Some (CvBlob b) \<and> length b = kl"
    "pe = ESP_OK \<Longrightarrow> \<exists>b. live n (sn_pem names) = Some (CvBlob b) \<and> length b = pl"
    "he = ESP_OK \<Longrightarrow> \<exists>b. live n (sn_host names) = Some (CvStr b) \<and> length b + 1 = hl"
    using laws(3) [OF s(1)] laws(3) [OF s(2)] laws(5) [OF s(3)] by simp_all
  have none: "ke = ESP_ERR_NVS_NOT_FOUND \<Longrightarrow> live n (sn_key names) \<noteq> Some (CvBlob b)"
    "pe = ESP_ERR_NVS_NOT_FOUND \<Longrightarrow> live n (sn_pem names) \<noteq> Some (CvBlob b)"
    "he = ESP_ERR_NVS_NOT_FOUND \<Longrightarrow> live n (sn_host names) \<noteq> Some (CvStr b)" for b
    using laws(3) [OF s(1), of b] laws(3) [OF s(2), of b] laws(5) [OF s(3), of b] by simp_all
  have content: "ek = ESP_OK \<Longrightarrow> live n (sn_key names) = Some (CvBlob key)" "ep = ESP_OK \<Longrightarrow> live n (sn_pem names) = Some (CvBlob pem)"
    "eh = ESP_OK \<Longrightarrow> live n (sn_host names) = Some (CvStr host)"
    using laws(4) [OF r(1)] laws(4) [OF r(2)] laws(6) [OF r(3)] by simp_all
  have codes: "cv_open_read api n \<noteq> ESP_ERR_NOT_FOUND" "ek \<noteq> ESP_ERR_NOT_FOUND" "ep \<noteq> ESP_ERR_NOT_FOUND" "eh \<noteq> ESP_ERR_NOT_FOUND"
    using laws(1) laws(4) [OF r(1)] laws(4) [OF r(2)] laws(6) [OF r(3)] by simp_all
  note unfold = load_material_by_names_def ACME_CERT_PRIVATE_KEY_LENGTH_def ACME_RESPONSE_MAX_def
  show "view_material (live n) names = Some m" if ok: "load_material_by_names api names 254 n = (ESP_OK, m)"
  proof -
    have e: "ke = ESP_OK" "pe = ESP_OK" "he = ESP_OK" "kl = 32" "64 \<le> pl" "pl \<le> 16384" "2 \<le> hl" "hl \<le> 254"
      "ek = ESP_OK" "ep = ESP_OK" "eh = ESP_OK" "m = \<lparr>mt_key = into_buffer 32 key, mt_pem = into_buffer pl pem, mt_host = host\<rparr>"
      using ok s r by (simp_all add: unfold split: if_splits)
    then have v: "live n (sn_key names) = Some (CvBlob key)" "live n (sn_pem names) = Some (CvBlob pem)"
      "live n (sn_host names) = Some (CvStr host)" "length key = 32" "length pem = pl" "length host + 1 = hl"
      using size content by auto
    then have "into_buffer 32 key = key" "into_buffer pl pem = pem" using into_buffer_exact [of key] into_buffer_exact [of pem] by simp_all
    then show ?thesis using v e by (simp add: view_material_def)
  qed
  show "view_material (live n) names = None" if "load_material_by_names api names 254 n = (ESP_ERR_NOT_FOUND, m)"
  proof -
    have "ke = ESP_ERR_NVS_NOT_FOUND \<or> pe = ESP_ERR_NVS_NOT_FOUND \<or> he = ESP_ERR_NVS_NOT_FOUND"
      using that s r codes by (simp add: unfold split: if_splits)
    then show ?thesis using none by (auto simp: view_material_def split: option.splits cert_value.splits)
  qed
  show "load_material_by_names api names 254 n = (ESP_OK, m)" if "view_material (live n) names = Some m" "slot_readable api names n"
  proof -
    have e: "cv_open_read api n = ESP_OK" "ke = ESP_OK" "pe = ESP_OK" "he = ESP_OK" "cv_alloc api (Suc pl) n" "ek = ESP_OK" "ep = ESP_OK"
      "eh = ESP_OK"
      using that(2) s r by (simp_all add: slot_readable_def)
    then have v: "live n (sn_key names) = Some (CvBlob key)" "live n (sn_pem names) = Some (CvBlob pem)"
      "live n (sn_host names) = Some (CvStr host)" "length key = kl" "length pem = pl" "length host + 1 = hl"
      using size content by auto
    then have "into_buffer kl key = key" "into_buffer pl pem = pem" using into_buffer_exact [of key] into_buffer_exact [of pem] by simp_all
    then show ?thesis using that(1) v e s r by (auto simp: unfold view_material_def split: if_splits)
  qed
qed

text \<open>
  What the functions above the partition need of reading; it holds where calls may fail and where none does. Then the
  checks of a slot: one that passes is right, and a valid slot that is selected passes.
\<close>

definition reads_sound :: "'n cert_nvs \<Rightarrow> ('n \<Rightarrow> cert_view) \<Rightarrow> bool" where
  "reads_sound api live \<longleftrightarrow>
     (\<forall>n names m. load_material_by_names api names 254 n = (ESP_OK, m) \<longrightarrow> view_material (live n) names = Some m) \<and>
     (\<forall>n names m. load_material_by_names api names 254 n = (ESP_ERR_NOT_FOUND, m) \<longrightarrow> view_material (live n) names = None) \<and>
     (\<forall>n e r. read_production_slot_selector api n = (e, r) \<longrightarrow> e \<noteq> ESP_ERR_NOT_FOUND \<and>
        (if e = ESP_OK then selector_of (live n) = r \<and> (\<forall>s. r = Some s \<longrightarrow> s \<le> 1) else r = None))"

definition selected_checks :: "'n cert_nvs \<Rightarrow> cert_crypto \<Rightarrow> ('n \<Rightarrow> cert_view) \<Rightarrow> bool" where
  "selected_checks api C live \<longleftrightarrow> (\<forall>n s m. selects C (live n) s m \<longrightarrow> validate_production_slot api C s n = ESP_OK)"

lemma truthful_selector:
  assumes "cert_truthful api live" "read_production_slot_selector api n = (e, r)"
  shows "e \<noteq> ESP_ERR_NOT_FOUND \<and> (if e = ESP_OK then selector_of (live n) = r \<and> (\<forall>s. r = Some s \<longrightarrow> s \<le> 1) else r = None)"
proof -
  obtain eu x where u: "cv_u8 api ACME_PROD_ACTIVE_SLOT_NVS_KEY n = (eu, x)" by fastforce
  note laws = truthfulD [OF assms(1)]
  have l: "cv_open_read api n \<noteq> ESP_ERR_NOT_FOUND" "eu \<noteq> ESP_ERR_NOT_FOUND"
    "eu = ESP_OK \<Longrightarrow> live n ACME_PROD_ACTIVE_SLOT_NVS_KEY = Some (CvU8 x)"
    "eu = ESP_ERR_NVS_NOT_FOUND \<Longrightarrow> live n ACME_PROD_ACTIVE_SLOT_NVS_KEY \<noteq> Some (CvU8 y)" for y
    using laws(1) laws(2) [OF u, of y] by simp_all
  have "selector_of (live n) = None" if "eu = ESP_ERR_NVS_NOT_FOUND"
    using l(4) [OF that] by (simp add: selector_of_def split: option.split cert_value.split)
  moreover have "selector_of (live n) = Some x" if "eu = ESP_OK" using l(3) [OF that] by (simp add: selector_of_def)
  ultimately show ?thesis using assms(2) u l(1,2)
    by (auto simp: read_production_slot_selector_def not_less split: if_splits)
qed

lemma truthful_sound: "cert_truthful api live \<Longrightarrow> reads_sound api live"
  using truthful_load(1,2) [of api live] truthful_selector [of api live] unfolding reads_sound_def by blast

lemma reads_imp_sound:
  assumes "cert_reads api live"
  shows "reads_sound api live"
proof -
  have load: "load_material_by_names api names 254 n = (ESP_OK, m) \<Longrightarrow> view_material (live n) names = Some m"
    "load_material_by_names api names 254 n = (ESP_ERR_NOT_FOUND, m) \<Longrightarrow> view_material (live n) names = None" for n names m
    using load_material [OF assms, of n names] by (cases "view_material (live n) names"; force)+
  have "e \<noteq> ESP_ERR_NOT_FOUND \<and> (if e = ESP_OK then selector_of (live n) = r \<and> (\<forall>s. r = Some s \<longrightarrow> s \<le> 1) else r = None)"
    if "read_production_slot_selector api n = (e, r)" for n e r
    using that read_selector [OF assms, of n] by (auto simp: not_less split: option.splits if_splits)
  then show ?thesis using load unfolding reads_sound_def by blast
qed

lemma readable_checks:
  assumes "cert_truthful api live" "selected_readable api C live"
  shows "selected_checks api C live"
proof (unfold selected_checks_def, intro allI impI)
  fix n s m
  assume s: "selects C (live n) s m"
  then have le: "s \<le> 1" and v: "view_material (live n) (s_prod_slots s) = Some m" "acceptable C m"
    by (auto simp: selects_def valid_material_def split: option.splits if_splits)
  have "load_material_by_names api (s_prod_slots s) 254 n = (ESP_OK, m)"
    using truthful_load(3) [OF assms(1) v(1)] assms(2) s unfolding selected_readable_def by blast
  then show "validate_production_slot api C s n = ESP_OK" using v(2) leD [OF le]
    by (simp add: validate_production_slot_def ACME_DNS_NAME_MAX_LENGTH_def acceptable_def)
qed

lemma reads_checks: "cert_reads api live \<Longrightarrow> selected_checks api C live"
  using valid_slot [of api live] unfolding selected_checks_def selects_def by blast

lemma slot_sound:
  assumes "reads_sound api live" "s \<le> 1"
  shows "validate_production_slot api C s n = ESP_OK \<Longrightarrow> valid_material C (live n) (s_prod_slots s) \<noteq> None"
    "validate_production_slot api C s n = ESP_ERR_NOT_FOUND \<Longrightarrow> valid_material C (live n) (s_prod_slots s) = None"
proof -
  obtain e m where l: "load_material_by_names api (s_prod_slots s) 254 n = (e, m)" by fastforce
  have v: "e = ESP_OK \<Longrightarrow> view_material (live n) (s_prod_slots s) = Some m"
    "e = ESP_ERR_NOT_FOUND \<Longrightarrow> view_material (live n) (s_prod_slots s) = None"
    using assms(1) l unfolding reads_sound_def by blast+
  show "validate_production_slot api C s n = ESP_OK \<Longrightarrow> valid_material C (live n) (s_prod_slots s) \<noteq> None"
    "validate_production_slot api C s n = ESP_ERR_NOT_FOUND \<Longrightarrow> valid_material C (live n) (s_prod_slots s) = None"
    using v l leD [OF assms(2)]
    by (auto simp: validate_production_slot_def ACME_DNS_NAME_MAX_LENGTH_def valid_material_def acceptable_def
        validate_certificate_material_def split: if_splits option.splits)
qed

subsection \<open>Writing\<close>

text \<open>A change not yet committed, and what a series of writes leaves alone.\<close>

definition kept :: "('n \<Rightarrow> cert_view) \<Rightarrow> ('n \<Rightarrow> cert_view) \<Rightarrow> string \<Rightarrow> 'n \<Rightarrow> 'n \<Rightarrow> bool" where
  "kept live dur k n n' \<longleftrightarrow> live n' k = live n k \<and> (dur n k = live n k \<longrightarrow> dur n' k = live n k)"

lemma certD:
  assumes "cert_writes api live dur"
  shows "cv_open_write api n = (e, n') \<Longrightarrow> e \<noteq> ESP_ERR_NOT_FOUND \<and> live n' = live n \<and> settles live dur n n'"
    "cv_set api k v n = (e, n') \<Longrightarrow> e \<noteq> ESP_ERR_NOT_FOUND \<and> settles live dur n n' \<and>
       (live n' = (live n)(k \<mapsto> v) \<or> e \<noteq> ESP_OK \<and> live n' = live n)"
    "cv_erase_key api k n = (e, n') \<Longrightarrow> e \<noteq> ESP_ERR_NOT_FOUND \<and> settles live dur n n' \<and>
       (live n' = (live n)(k := None) \<or> e \<noteq> ESP_OK \<and> live n' = live n)"
    "cv_commit api n = (e, n') \<Longrightarrow> e \<noteq> ESP_ERR_NOT_FOUND \<and> live n' = live n \<and> settles live dur n n' \<and>
       (e = ESP_OK \<longrightarrow> dur n' = live n')"
  using assms unfolding cert_writes_def by blast+

lemma kept_trans: "kept live dur k n n' \<Longrightarrow> kept live dur k n' n'' \<Longrightarrow> kept live dur k n n''"
  by (simp add: kept_def)

lemma kept_settles: "settles live dur n n' \<Longrightarrow> live n' k = live n k \<Longrightarrow> kept live dur k n n'"
  by (metis kept_def settles_def)

lemma kept_step:
  assumes "cert_writes api live dur"
  shows "kept live dur k n (snd (cv_open_write api n))" "kept live dur k n (snd (cv_commit api n))"
    "k \<noteq> k' \<Longrightarrow> kept live dur k n (snd (cv_set api k' v n))" "k \<noteq> k' \<Longrightarrow> kept live dur k n (snd (cv_erase_key api k' n))"
  using certD [OF assms] by (intro kept_settles; metis fun_upd_other prod.collapse)+

lemma kept_if_ok: "(\<And>m. kept live dur k m (snd (call m))) \<Longrightarrow> kept live dur k (snd r) (snd (if_ok call r))"
  by (cases r) (simp add: if_ok_def kept_def)

lemma kept_fold:
  assumes "cert_writes api live dur" "k \<notin> fst ` set kvs"
  shows "kept live dur k (snd r) (snd (fold (\<lambda>(k, v). if_ok (cv_set api k v)) kvs r))"
  using assms(2)
proof (induction kvs arbitrary: r)
  case (Cons kv kvs)
  obtain k' v where kv: "kv = (k', v)" by fastforce
  have "kept live dur k (snd r) (snd (if_ok (cv_set api k' v) r))"
    using kept_step(3) [OF assms(1)] Cons.prems kv by (intro kept_if_ok) auto
  then have "kept live dur k (snd r) (snd (fold (\<lambda>(k, v). if_ok (cv_set api k v)) kvs (if_ok (cv_set api k' v) r)))"
    by (rule kept_trans) (use Cons.prems in \<open>intro Cons.IH; simp\<close>)
  then show ?case using kv by simp
qed (simp add: kept_def)

lemma write_values_kept:
  assumes "cert_writes api live dur" "k \<notin> fst ` set kvs"
  shows "kept live dur k n (snd (write_values api kvs n))"
proof -
  obtain e n1 where o1: "cv_open_write api n = (e, n1)" by fastforce
  have k1: "kept live dur k n n1" using kept_step(1) [OF assms(1), of k n] o1 by simp
  let ?r = "fold (\<lambda>(k, v). if_ok (cv_set api k v)) kvs (ESP_OK, n1)"
  have "kept live dur k n1 (snd ?r)" using kept_fold [OF assms, of "(ESP_OK, n1)"] by simp
  moreover have "kept live dur k (snd ?r) (snd (if_ok (cv_commit api) ?r))" by (rule kept_if_ok) (rule kept_step(2) [OF assms(1)])
  ultimately show ?thesis using k1 o1 by (auto simp: write_values_def intro: kept_trans)
qed

lemma fold_sets_ok:
  assumes "cert_writes api live dur" "fold (\<lambda>(k, v). if_ok (cv_set api k v)) kvs (e, n) = (ESP_OK, n')"
  shows "e = ESP_OK \<and> live n' = live n ++ map_of (rev kvs)"
  using assms(2)
proof (induction kvs arbitrary: e n)
  case (Cons kv kvs)
  obtain k v where kv: "kv = (k, v)" by fastforce
  obtain e1 n1 where s: "if_ok (cv_set api k v) (e, n) = (e1, n1)" by fastforce
  have "fold (\<lambda>(k, v). if_ok (cv_set api k v)) kvs (e1, n1) = (ESP_OK, n')" using Cons.prems kv s by simp
  from Cons.IH [OF this] have i: "e1 = ESP_OK" "live n' = live n1 ++ map_of (rev kvs)" by simp_all
  then have e: "e = ESP_OK" "cv_set api k v n = (ESP_OK, n1)" using s by (auto simp: if_ok_def split: if_splits)
  then have "live n1 = (live n)(k \<mapsto> v)" using certD(2) [OF assms(1)] by blast
  then show ?case using i e kv by (simp add: map_add_upd_left [symmetric] fun_eq_iff map_add_def split: option.splits)
qed simp

lemma write_values_ok:
  assumes "cert_writes api live dur" "write_values api kvs n = (ESP_OK, n')"
  shows "live n' = live n ++ map_of (rev kvs)" "dur n' = live n'"
proof -
  obtain e n1 where o1: "cv_open_write api n = (e, n1)" by fastforce
  obtain e2 n2 where f: "fold (\<lambda>(k, v). if_ok (cv_set api k v)) kvs (ESP_OK, n1) = (e2, n2)" by fastforce
  have "e2 = ESP_OK" "cv_commit api n2 = (ESP_OK, n')" using assms(2) o1 f by (auto simp: write_values_def if_ok_def split: if_splits)
  moreover have "live n1 = live n" using assms(1) o1 by (auto simp: cert_writes_def)
  ultimately show "live n' = live n ++ map_of (rev kvs)" "dur n' = live n'"
    using fold_sets_ok [OF assms(1) f [unfolded \<open>e2 = ESP_OK\<close>]] assms(1) by (auto simp: cert_writes_def)
qed

lemma fold_sets_not_found:
  assumes "cert_writes api live dur" "e \<noteq> ESP_ERR_NOT_FOUND"
  shows "fst (fold (\<lambda>(k, v). if_ok (cv_set api k v)) kvs (e, n)) \<noteq> ESP_ERR_NOT_FOUND"
  using assms(2)
proof (induction kvs arbitrary: e n)
  case (Cons kv kvs)
  obtain k v where kv: "kv = (k, v)" by fastforce
  obtain e1 n1 where s: "if_ok (cv_set api k v) (e, n) = (e1, n1)" by fastforce
  have "e1 \<noteq> ESP_ERR_NOT_FOUND" using assms(1) s Cons.prems by (auto simp: cert_writes_def if_ok_def split: if_splits)
  then show ?case using Cons.IH kv s by simp
qed simp

lemma write_values_not_found:
  assumes "cert_writes api live dur"
  shows "fst (write_values api kvs n) \<noteq> ESP_ERR_NOT_FOUND"
proof -
  obtain e n1 where o1: "cv_open_write api n = (e, n1)" by fastforce
  obtain e2 n2 where f: "fold (\<lambda>(k, v). if_ok (cv_set api k v)) kvs (ESP_OK, n1) = (e2, n2)" by fastforce
  have "e \<noteq> ESP_ERR_NOT_FOUND" using assms o1 by (auto simp: cert_writes_def)
  moreover have "e2 \<noteq> ESP_ERR_NOT_FOUND" using fold_sets_not_found [OF assms, of ESP_OK kvs n1] f by simp
  moreover have "fst (cv_commit api n2) \<noteq> ESP_ERR_NOT_FOUND" using assms by (auto simp: cert_writes_def) (metis prod.collapse)
  ultimately show ?thesis using o1 f by (simp add: write_values_def if_ok_def)
qed

text \<open>The selector after a write of it that may have failed.\<close>

lemma write_selector:
  assumes "cert_writes api live dur" "dur n k = live n k"
  shows "dur (snd (write_values api [(k, v)] n)) k \<in> {live n k, Some v}"
proof -
  obtain e n1 where o1: "cv_open_write api n = (e, n1)" by fastforce
  obtain e2 n2 where s: "cv_set api k v n1 = (e2, n2)" by fastforce
  obtain e3 n3 where c: "cv_commit api n2 = (e3, n3)" by fastforce
  have 1: "live n1 k = live n k" "dur n1 k = live n k"
    using kept_step(1) [OF assms(1), of k n] o1 assms(2) by (auto simp: kept_def)
  have 2: "live n2 k \<in> {live n k, Some v}" "dur n2 k \<in> {live n k, Some v}"
    using assms(1) s 1 unfolding cert_writes_def settles_def by (metis fun_upd_same insertI1 insertI2 singletonI)+
  have "dur n3 k \<in> {live n k, Some v}"
    using assms(1) c 2 unfolding cert_writes_def settles_def by metis
  then show ?thesis using o1 s c 1 2 by (simp add: write_values_def if_ok_def)
qed


subsection \<open>Switching to a slot\<close>

text \<open>What the migration and the update end with: the slot is written, validated and selected.\<close>

definition switch_slot :: "'n cert_nvs \<Rightarrow> cert_crypto \<Rightarrow> u8 \<Rightarrow> material \<Rightarrow> 'n \<Rightarrow> esp_err \<times> 'n" where
  "switch_slot api C t m n =
    (let (err, n) = write_values api (slot_values (s_prod_slots t) m) n
     in if err \<noteq> ESP_OK then (err, n)
        else
          let err = validate_production_slot api C t n
          in if err \<noteq> ESP_OK then (err, n) else commit_production_slot_selector api t n)"

definition names_keys :: "production_slot_names \<Rightarrow> string set" where
  "names_keys names = {sn_key names, sn_pem names, sn_host names}"

lemma view_material_cong: "(\<And>k. k \<in> names_keys names \<Longrightarrow> v k = w k) \<Longrightarrow> view_material v names = view_material w names"
  by (simp add: view_material_def names_keys_def)

lemma valid_material_cong: "(\<And>k. k \<in> names_keys names \<Longrightarrow> v k = w k) \<Longrightarrow> valid_material C v names = valid_material C w names"
  using view_material_cong [of names v w] by (simp add: valid_material_def)

lemma slot_value_keys [simp]: "fst ` set (slot_values names m) = names_keys names"
  by (auto simp: slot_values_def names_keys_def)

lemma slot_written:
  assumes "s \<le> 1" "valid_material C (v ++ map_of (rev (slot_values (s_prod_slots s) m))) (s_prod_slots s) \<noteq> None"
  shows "valid_material C (v ++ map_of (rev (slot_values (s_prod_slots s) m))) (s_prod_slots s) = Some m"
  using slot_cases [OF assms(1)] assms(2)
  by (auto simp: valid_material_def view_material_def slot_values_def split: if_splits)

lemma selector_key [simp]: "ACME_PROD_ACTIVE_SLOT_NVS_KEY \<notin> names_keys (s_prod_slots s)"
  "ACME_PROD_ACTIVE_SLOT_NVS_KEY \<notin> names_keys legacy_names"
  by (simp_all add: names_keys_def slot_keys s_prod_slots_def)

lemma slot_key_selector: "k \<in> names_keys (s_prod_slots s) \<Longrightarrow> k \<noteq> ACME_PROD_ACTIVE_SLOT_NVS_KEY"
  using selector_key(1) by metis

text \<open>
  From a state in which nothing is pending, whose credential does not depend on slot \<open>t\<close>: at any time the credential is the
  old one or the new one.
\<close>

lemma switch_slot_safe:
  assumes "cert_writes api live dur" "reads_sound api live" "t \<le> 1" "dur n = live n"
    and old: "\<forall>v. (\<forall>k. k \<notin> names_keys (s_prod_slots t) \<longrightarrow> v k = live n k) \<longrightarrow> stands C v c"
    and run: "switch_slot api C t m n = (err, n')"
  shows "stands C (dur n') c \<or> selects C (dur n') t m"
    and "err = ESP_OK \<Longrightarrow> selects C (dur n') t m \<and> dur n' = live n'"
proof -
  obtain e1 n1 where w: "write_values api (slot_values (s_prod_slots t) m) n = (e1, n1)" by fastforce
  have k1: "kept live dur k n n1" if "k \<notin> names_keys (s_prod_slots t)" for k
    using write_values_kept [OF assms(1), of k "slot_values (s_prod_slots t) m" n] that w by simp
  have o1: "stands C (dur n1) c" by (rule old [rule_format]) (use k1 assms(4) in \<open>simp add: kept_def\<close>)
  let ?sel = "ACME_PROD_ACTIVE_SLOT_NVS_KEY"
  have "(stands C (dur n') c \<or> selects C (dur n') t m) \<and> (err = ESP_OK \<longrightarrow> selects C (dur n') t m \<and> dur n' = live n')"
  proof (cases "e1 = ESP_OK \<and> validate_production_slot api C t n1 = ESP_OK")
    case False
    then have "n' = n1" "err \<noteq> ESP_OK" using run w by (auto simp: switch_slot_def split: if_splits)
    then show ?thesis using o1 by simp
  next
    case True
    have v1: "live n1 = live n ++ map_of (rev (slot_values (s_prod_slots t) m))" "dur n1 = live n1"
      using write_values_ok [OF assms(1)] w True by simp_all
    have new: "valid_material C (live n1) (s_prod_slots t) = Some m"
      using slot_written [OF assms(3)] slot_sound(1) [OF assms(2,3)] True v1(1) by metis
    have c: "write_values api [(?sel, CvU8 t)] n1 = (err, n')"
      using run w True leD [OF assms(3)] by (simp add: switch_slot_def commit_production_slot_selector_def)
    have k2: "kept live dur k n1 n'" if "k \<noteq> ?sel" for k
      using write_values_kept [OF assms(1), of k "[(?sel, CvU8 t)]" n1] that c by simp
    have "valid_material C (dur n') (s_prod_slots t) = valid_material C (live n1) (s_prod_slots t)"
      by (rule valid_material_cong) (use k2 v1(2) slot_key_selector in \<open>simp add: kept_def\<close>)
    then have sel: "selects C (dur n') t m" if "dur n' ?sel = Some (CvU8 t)"
      using new that assms(3) by (simp add: selects_def selector_of_def)
    have "dur n' ?sel \<in> {live n1 ?sel, Some (CvU8 t)}" using write_selector [OF assms(1), of n1 ?sel "CvU8 t"] v1(2) c by simp
    then show ?thesis
    proof
      assume e: "dur n' ?sel = live n1 ?sel"
      have "stands C (dur n') c"
      proof (rule old [rule_format])
        fix k assume k: "k \<notin> names_keys (s_prod_slots t)"
        then have "live n1 k = live n k" using k1 by (simp add: kept_def)
        moreover have "dur n' k = live n1 k" using e k2 v1(2) by (cases "k = ?sel") (auto simp: kept_def)
        ultimately show "dur n' k = live n k" by simp
      qed
      moreover have "dur n' ?sel = Some (CvU8 t) \<and> dur n' = live n'" if "err = ESP_OK"
        using write_values_ok [OF assms(1), of "[(?sel, CvU8 t)]" n1 n'] c that by simp
      ultimately show ?thesis using sel by auto
    next
      assume "dur n' ?sel \<in> {Some (CvU8 t)}"
      then show ?thesis using sel write_values_ok(2) [OF assms(1), of "[(?sel, CvU8 t)]" n1 n'] c by auto
    qed
  qed
  then show "stands C (dur n') c \<or> selects C (dur n') t m" "err = ESP_OK \<Longrightarrow> selects C (dur n') t m \<and> dur n' = live n'" by blast+
qed

text \<open>The same from any state: what is left alone, and what success means.\<close>

lemma switch_slot_kept:
  assumes "cert_writes api live dur" "t \<le> 1" "k \<notin> names_keys (s_prod_slots t)" "switch_slot api C t m n = (err, n')"
  shows "k \<noteq> ACME_PROD_ACTIVE_SLOT_NVS_KEY \<Longrightarrow> kept live dur k n n'"
    "k = ACME_PROD_ACTIVE_SLOT_NVS_KEY \<Longrightarrow> dur n k = live n k \<Longrightarrow> dur n' k \<in> {live n k, Some (CvU8 t)}"
proof -
  obtain e1 n1 where w: "write_values api (slot_values (s_prod_slots t) m) n = (e1, n1)" by fastforce
  have k1: "kept live dur k n n1"
    using write_values_kept [OF assms(1), of k "slot_values (s_prod_slots t) m" n] assms(3) w by simp
  have cases: "n' = n1 \<or> write_values api [(ACME_PROD_ACTIVE_SLOT_NVS_KEY, CvU8 t)] n1 = (err, n')"
    using assms(4) w leD [OF assms(2)]
    by (auto simp: switch_slot_def commit_production_slot_selector_def Let_def split: if_splits)
  show "kept live dur k n n'" if "k \<noteq> ACME_PROD_ACTIVE_SLOT_NVS_KEY"
    using cases
  proof
    assume c: "write_values api [(ACME_PROD_ACTIVE_SLOT_NVS_KEY, CvU8 t)] n1 = (err, n')"
    have "kept live dur k n1 n'"
      using write_values_kept [OF assms(1), of k "[(ACME_PROD_ACTIVE_SLOT_NVS_KEY, CvU8 t)]" n1] that c by simp
    with k1 show ?thesis by (rule kept_trans)
  qed (use k1 in simp)
  show "dur n' k \<in> {live n k, Some (CvU8 t)}" if "k = ACME_PROD_ACTIVE_SLOT_NVS_KEY" "dur n k = live n k"
  proof -
    have n1: "live n1 k = live n k" "dur n1 k = live n k" using k1 that(2) by (simp_all add: kept_def)
    show ?thesis using cases
    proof
      assume "write_values api [(ACME_PROD_ACTIVE_SLOT_NVS_KEY, CvU8 t)] n1 = (err, n')"
      then show ?thesis using write_selector [OF assms(1), of n1 k "CvU8 t"] n1 that(1) by simp
    qed (use n1 in simp)
  qed
qed

lemma switch_slot_done:
  assumes "cert_writes api live dur" "reads_sound api live" "t \<le> 1" "switch_slot api C t m n = (ESP_OK, n')"
  shows "selects C (dur n') t m" "dur n' = live n'"
proof -
  let ?sel = "ACME_PROD_ACTIVE_SLOT_NVS_KEY"
  obtain e1 n1 where w: "write_values api (slot_values (s_prod_slots t) m) n = (e1, n1)" by fastforce
  have ok: "e1 = ESP_OK" "validate_production_slot api C t n1 = ESP_OK" "write_values api [(?sel, CvU8 t)] n1 = (ESP_OK, n')"
    using assms(4) w leD [OF assms(3)]
    by (auto simp: switch_slot_def commit_production_slot_selector_def Let_def split: if_splits)
  have v1: "live n1 = live n ++ map_of (rev (slot_values (s_prod_slots t) m))"
    using write_values_ok(1) [OF assms(1)] w ok(1) by simp
  have new: "valid_material C (live n1) (s_prod_slots t) = Some m"
    using slot_written [OF assms(3)] slot_sound(1) [OF assms(2,3) ok(2)] v1 by metis
  have v2: "live n' = (live n1)(?sel \<mapsto> CvU8 t)" "dur n' = live n'" using write_values_ok [OF assms(1) ok(3)] by simp_all
  have "valid_material C (live n') (s_prod_slots t) = valid_material C (live n1) (s_prod_slots t)"
    by (rule valid_material_cong) (use v2(1) slot_key_selector in simp)
  then show "selects C (dur n') t m" using new v2 assms(3) by (simp add: selects_def selector_of_def)
  show "dur n' = live n'" by (rule v2(2))
qed

lemma slots_le [simp]: "(0 :: u8) \<le> 1" by simp

lemma validate_not_found: "validate_certificate_material C h k p \<noteq> ESP_ERR_NOT_FOUND"
  by (simp add: validate_certificate_material_def split: option.splits)

lemma acceptable_written:
  assumes "view_material v names = Some m" "acceptable C m" "s \<le> 1"
  shows "valid_material C (w ++ map_of (rev (slot_values (s_prod_slots s) m))) (s_prod_slots s) = Some m"
  using slot_cases [OF assms(3)] assms(1,2)
  by (auto simp: valid_material_def view_material_def slot_values_def split: option.splits cert_value.splits if_splits)

lemma switch_slot_not_found:
  assumes "cert_writes api live dur" "reads_sound api live" "t \<le> 1" "view_material v names = Some m" "acceptable C m"
  shows "fst (switch_slot api C t m n) \<noteq> ESP_ERR_NOT_FOUND"
proof -
  obtain e1 n1 where w: "write_values api (slot_values (s_prod_slots t) m) n = (e1, n1)" by fastforce
  show ?thesis
  proof (cases "e1 = ESP_OK")
    case False
    then show ?thesis using w write_values_not_found [OF assms(1), of "slot_values (s_prod_slots t) m" n] by (simp add: switch_slot_def)
  next
    case True
    then have "validate_production_slot api C t n1 \<noteq> ESP_ERR_NOT_FOUND"
      using slot_sound(2) [OF assms(2,3)] acceptable_written [OF assms(4,5,3)] write_values_ok(1) [OF assms(1)] w by force
    then show ?thesis using w True leD [OF assms(3)] write_values_not_found [OF assms(1)]
      by (simp add: switch_slot_def commit_production_slot_selector_def Let_def)
  qed
qed

subsection \<open>Migration\<close>

lemma migrate_cases:
  assumes "cert_writes api live dur" "reads_sound api live" "migrate_legacy_production_material api C n = (err, n')"
  obtains (present) s where "selector_of (live n) = Some s" "s \<le> 1" "read_production_slot_selector api n = (ESP_OK, Some s)"
      "err = ESP_OK" "n' = n"
  | (failed) "err \<noteq> ESP_OK" "err \<noteq> ESP_ERR_NOT_FOUND" "n' = n"
  | (empty) "selector_of (live n) = None" "valid_material C (live n) legacy_names = None"
      "read_production_slot_selector api n = (ESP_OK, None)" "err = ESP_ERR_NOT_FOUND" "n' = n"
  | (legacy) m where "selector_of (live n) = None" "view_material (live n) legacy_names = Some m" "acceptable C m"
      "switch_slot api C 0 m n = (err, n')" "err \<noteq> ESP_ERR_NOT_FOUND"
proof -
  obtain er r where rd: "read_production_slot_selector api n = (er, r)" by fastforce
  obtain el m where ld: "load_material_by_names api legacy_names 254 n = (el, m)" by fastforce
  note sound = assms(2) [unfolded reads_sound_def]
  have r: "er \<noteq> ESP_ERR_NOT_FOUND" "er = ESP_OK \<Longrightarrow> selector_of (live n) = r \<and> (\<forall>s. r = Some s \<longrightarrow> s \<le> 1)"
    using sound rd by metis+
  have l: "el = ESP_OK \<Longrightarrow> view_material (live n) legacy_names = Some m" "el = ESP_ERR_NOT_FOUND \<Longrightarrow> view_material (live n) legacy_names = None"
    using sound ld by blast+
  note run = assms(3) [unfolded migrate_legacy_production_material_def ACME_DNS_NAME_MAX_LENGTH_def]
  consider (a) "er \<noteq> ESP_OK" | (b) s where "er = ESP_OK" "r = Some s" | (c) "er = ESP_OK" "r = None" "el = ESP_ERR_NOT_FOUND"
    | (d) "er = ESP_OK" "r = None" "el \<noteq> ESP_OK" "el \<noteq> ESP_ERR_NOT_FOUND" | (e) "er = ESP_OK" "r = None" "el = ESP_OK" "\<not> acceptable C m"
    | (f) "er = ESP_OK" "r = None" "el = ESP_OK" "acceptable C m" by blast
  then show ?thesis
  proof cases
    case a
    then show ?thesis using failed r(1) run rd by auto
  next
    case b
    then show ?thesis using present r(2) run rd by auto
  next
    case c
    then show ?thesis using empty r(2) l(2) run rd ld by (auto simp: valid_material_def)
  next
    case d
    then show ?thesis using failed run rd ld by auto
  next
    case e
    then show ?thesis using failed run rd ld validate_not_found by (auto simp: acceptable_def)
  next
    case f
    obtain e1 n1 where w: "write_values api (slot_values (s_prod_slots 0) m) n = (e1, n1)" by fastforce
    have "switch_slot api C 0 m n = (err, n')" using run rd ld f w
      by (auto simp: acceptable_def switch_slot_def Let_def split: if_splits)
    moreover from this have "err \<noteq> ESP_ERR_NOT_FOUND"
      using switch_slot_not_found [OF assms(1,2) slots_le l(1) f(4), of n] f(3) by simp
    ultimately show ?thesis using legacy r(2) l(1) f by blast
  qed
qed

text \<open>The credential without a selector, and with one.\<close>

lemma credential_legacy:
  assumes "selector_of v = None"
  shows "credential C v = valid_material C v legacy_names"
  using assms by (simp add: credential_def)

lemma legacy_independent:
  assumes "selector_of v = None" "\<And>k. k \<notin> names_keys (s_prod_slots t) \<Longrightarrow> w k = v k"
  shows "stands C w (valid_material C v legacy_names)"
proof -
  have "selector_of w = None" using assms(2) [OF selector_key(1)] assms(1) by (simp add: selector_of_def)
  moreover have "valid_material C w legacy_names = valid_material C v legacy_names"
    by (rule valid_material_cong) (rule assms(2), auto simp: names_keys_def slot_keys s_prod_slots_def)
  ultimately show ?thesis by (simp add: stands_def selected_ok_def credential_def)
qed

lemma selected_independent:
  assumes "selector_of v = Some s" "s \<le> 1" "valid_material C v (s_prod_slots s) = Some m"
    and "\<And>k. k \<notin> names_keys (s_prod_slots (s XOR 1)) \<Longrightarrow> w k = v k"
  shows "stands C w (Some m)"
proof -
  have "selector_of w = Some s" using assms(4) [OF selector_key(1)] assms(1) by (simp add: selector_of_def)
  moreover have "valid_material C w (s_prod_slots s) = valid_material C v (s_prod_slots s)"
    by (rule valid_material_cong) (rule assms(4), use slot_cases [OF assms(2)] in \<open>auto simp: names_keys_def slot_keys\<close>)
  ultimately show ?thesis using assms(2,3) by (intro selects_stands) (simp add: selects_def)
qed

lemma migrate_safe:
  assumes "cert_writes api live dur" "reads_sound api live" "dur n = live n" "migrate_legacy_production_material api C n = (err, n')"
  shows "n' = n \<or> stands C (dur n') (credential C (live n))"
    "err = ESP_OK \<or> err = ESP_ERR_NOT_FOUND \<Longrightarrow> n' = n \<or> dur n' = live n' \<and> (\<exists>m. selects C (live n') 0 m \<and> credential C (live n) = Some m)"
proof -
  have "(n' = n \<or> stands C (dur n') (credential C (live n))) \<and> (err = ESP_OK \<or> err = ESP_ERR_NOT_FOUND \<longrightarrow>
    n' = n \<or> dur n' = live n' \<and> (\<exists>m. selects C (live n') 0 m \<and> credential C (live n) = Some m))"
    using assms(1,2,4)
  proof (cases rule: migrate_cases)
    case (legacy m)
    have c: "credential C (live n) = Some m" using legacy(1-3) by (simp add: credential_def valid_material_def)
    then have "\<forall>v. (\<forall>k. k \<notin> names_keys (s_prod_slots 0) \<longrightarrow> v k = live n k) \<longrightarrow> stands C v (Some m)"
      using legacy_independent [OF legacy(1)] credential_legacy [OF legacy(1)] by metis
    note safe = switch_slot_safe [OF assms(1,2) slots_le assms(3) this legacy(4)]
    have "stands C (dur n') (Some m)" using safe(1) selects_stands by blast
    moreover have "dur n' = live n' \<and> selects C (live n') 0 m" if "err = ESP_OK" using safe(2) [OF that] by metis
    ultimately show ?thesis using c legacy(5) by auto
  qed auto
  then show "n' = n \<or> stands C (dur n') (credential C (live n))"
    "err = ESP_OK \<or> err = ESP_ERR_NOT_FOUND \<Longrightarrow> n' = n \<or> dur n' = live n' \<and> (\<exists>m. selects C (live n') 0 m \<and> credential C (live n) = Some m)"
    by blast+
qed

subsection \<open>The update\<close>

lemma update_production_switch:
  "update_production api C m n =
    (let ((err, active), n) = resolve_production_slot api C n in
     if err \<noteq> ESP_OK \<and> err \<noteq> ESP_ERR_NOT_FOUND then (err, n)
     else switch_slot api C ((if err = ESP_ERR_NOT_FOUND then 1 else active) XOR 1) m n)"
  by (simp add: update_production_def switch_slot_def Let_def split: prod.splits)

text \<open>
  What an update may leave: the old credential or the new one, if the slot selected was valid before; and in any case a
  credential, if there was one. Where the slot selected was not valid the other one stands in, and it is the selected one
  that is overwritten.
\<close>

definition updated :: "cert_crypto \<Rightarrow> cert_view \<Rightarrow> cert_view \<Rightarrow> material \<Rightarrow> bool" where
  "updated C v w m \<longleftrightarrow>
     (selected_ok C v \<longrightarrow> stands C w (credential C v) \<or> (\<exists>t. selects C w t m)) \<and>
     (credential C v \<noteq> None \<longrightarrow> credential C w \<noteq> None)"

lemma updated_old: "selected_ok C v \<Longrightarrow> stands C w (credential C v) \<Longrightarrow> updated C v w m"
  by (auto simp: updated_def stands_def)

lemma updated_new: "selects C w t m \<Longrightarrow> updated C v w m"
  using selects_stands by (auto simp: updated_def stands_def)

lemma updated_same: "updated C v v m"
  by (auto simp: updated_def stands_def)

lemma update_selected:
  assumes "cert_writes api live dur" "reads_sound api live" "dur n = live n" "selects C (live n) s c"
    and "switch_slot api C (s XOR 1) m n = (err, n')"
  shows "stands C (dur n') (Some c) \<or> (\<exists>t. selects C (dur n') t m)"
proof -
  have s: "s \<le> 1" "selector_of (live n) = Some s" "valid_material C (live n) (s_prod_slots s) = Some c"
    using assms(4) by (simp_all add: selects_def)
  have t: "s XOR 1 \<le> 1" using slot_cases [OF s(1)] by auto
  have "\<forall>v. (\<forall>k. k \<notin> names_keys (s_prod_slots (s XOR 1)) \<longrightarrow> v k = live n k) \<longrightarrow> stands C v (Some c)"
    using selected_independent [OF s(2,1,3)] by blast
  then show ?thesis using switch_slot_safe(1) [OF assms(1,2) t assms(3) _ assms(5)] by blast
qed

text \<open>The slot selected is not valid, the other one is, and the selected one is overwritten.\<close>

lemma update_fallback:
  assumes "cert_writes api live dur" "dur n = live n" "selector_of (live n) = Some s" "s \<le> 1"
    and "valid_material C (live n) (s_prod_slots (s XOR 1)) = Some c" "switch_slot api C s m n = (err, n')"
  shows "credential C (dur n') \<noteq> None"
proof -
  let ?sel = "ACME_PROD_ACTIVE_SLOT_NVS_KEY"
  have sel: "live n ?sel = Some (CvU8 s)" using assms(3) by (auto simp: selector_of_def split: option.splits cert_value.splits)
  have "dur n' ?sel \<in> {live n ?sel, Some (CvU8 s)}"
    by (rule switch_slot_kept(2) [OF assms(1,4) selector_key(1) assms(6)]) (use assms(2) in simp_all)
  then have "selector_of (dur n') = Some s" using sel by (simp add: selector_of_def)
  moreover have "valid_material C (dur n') (s_prod_slots (s XOR 1)) = valid_material C (live n) (s_prod_slots (s XOR 1))"
  proof (rule valid_material_cong)
    fix k assume k: "k \<in> names_keys (s_prod_slots (s XOR 1))"
    then have "k \<notin> names_keys (s_prod_slots s)" using slot_cases [OF assms(4)] by (auto simp: names_keys_def slot_keys)
    from switch_slot_kept(1) [OF assms(1,4) this assms(6) slot_key_selector [OF k]] show "dur n' k = live n k"
      using assms(2) by (simp add: kept_def)
  qed
  ultimately show ?thesis using assms(5) leD [OF assms(4)] by (simp add: credential_def split: option.split)
qed

text \<open>The update once the slot in use is known.\<close>

lemma update_resolved:
  assumes "cert_writes api live dur" "reads_sound api live" "selected_checks api C live"
    and "migrate_legacy_production_material api C n = (ESP_OK, n1)" "dur n1 = live n1" "selects C (live n1) s c"
    and "credential C (live n) = Some c" "update_production api C m n = (err, n')"
  shows "updated C (live n) (dur n') m"
proof -
  have s: "s \<le> 1" "selector_of (live n1) = Some s" "valid_material C (live n1) (s_prod_slots s) = Some c"
    using assms(6) by (simp_all add: selects_def)
  have keep: "updated C (live n) w m" if "stands C w (Some c)" for w using that assms(7) by (auto simp: updated_def stands_def)
  obtain er r where rd: "read_production_slot_selector api n1 = (er, r)" by fastforce
  have r: "er \<noteq> ESP_ERR_NOT_FOUND" "er = ESP_OK \<Longrightarrow> r = Some s"
    using assms(2) [unfolded reads_sound_def] rd s(2) by metis+
  show ?thesis
  proof (cases "er = ESP_OK")
    case False
    then have "n' = n1" using assms(4,8) rd r(1) by (simp add: update_production_switch resolve_production_slot_def)
    then show ?thesis using keep selects_stands [OF assms(6)] assms(5) by simp
  next
    case True
    have "validate_production_slot api C s n1 = ESP_OK" using assms(3,6) unfolding selected_checks_def by blast
    then have "switch_slot api C (s XOR 1) m n1 = (err, n')" using assms(4,8) rd r(2) True
      by (simp add: update_production_switch resolve_production_slot_def)
    from update_selected [OF assms(1,2,5,6) this] show ?thesis using keep updated_new by blast
  qed
qed

lemma update_safe:
  assumes "cert_writes api live dur" "reads_sound api live" "selected_checks api C live" "dur n = live n"
    and run: "update_production api C m n = (err, n')"
  shows "updated C (live n) (dur n') m"
proof -
  obtain e1 n1 where g: "migrate_legacy_production_material api C n = (e1, n1)" by fastforce
  note safe = migrate_safe [OF assms(1,2,4) g]
  from assms(1,2) g show ?thesis
  proof (cases rule: migrate_cases)
    case (present s)
    show ?thesis
    proof (cases "valid_material C (live n) (s_prod_slots s)")
      case (Some c)
      then have c: "selects C (live n) s c" using present by (simp add: selects_def)
      then have "credential C (live n) = Some c" using selects_stands by (auto simp: stands_def)
      then show ?thesis using update_resolved [OF assms(1-3) _ _ c _ run] g present assms(4) by simp
    next
      case None
      have v: "validate_production_slot api C s n \<noteq> ESP_OK" using slot_sound(1) [OF assms(2) present(2)] None by blast
      have bad: "\<not> selected_ok C (live n)" using present None by (simp add: selected_ok_def)
      show ?thesis
      proof (cases "validate_production_slot api C (s XOR 1) n = ESP_OK")
        case False
        then have "n' = n" using run g present v by (simp add: update_production_switch resolve_production_slot_def)
        then show ?thesis using assms(4) updated_same by simp
      next
        case True
        have o1: "s XOR 1 \<le> 1" "(s XOR 1) XOR 1 = s" using slot_cases [OF present(2)] by auto
        have "switch_slot api C s m n = (err, n')"
          using run g present v True o1(2) by (simp add: update_production_switch resolve_production_slot_def)
        moreover obtain c where "valid_material C (live n) (s_prod_slots (s XOR 1)) = Some c"
          using slot_sound(1) [OF assms(2) o1(1) True] by blast
        ultimately have "credential C (dur n') \<noteq> None" using update_fallback [OF assms(1,4) present(1,2)] by blast
        then show ?thesis using bad by (simp add: updated_def)
      qed
    qed
  next
    case failed
    then have "n' = n" using run g by (simp add: update_production_switch resolve_production_slot_def)
    then show ?thesis using assms(4) updated_same by simp
  next
    case empty
    have c: "credential C (live n) = None" using empty(1,2) by (simp add: credential_def)
    have r: "switch_slot api C 0 m n = (err, n')"
      using run g empty by (simp add: update_production_switch resolve_production_slot_def)
    have "\<forall>v. (\<forall>k. k \<notin> names_keys (s_prod_slots 0) \<longrightarrow> v k = live n k) \<longrightarrow> stands C v None"
      using legacy_independent [OF empty(1)] empty(2) by metis
    from switch_slot_safe(1) [OF assms(1,2) slots_le assms(4) this r] show ?thesis by (auto simp: updated_def c)
  next
    case (legacy m0)
    have c: "credential C (live n) = Some m0" "selected_ok C (live n)"
      using legacy(1-3) by (simp_all add: credential_def valid_material_def selected_ok_def)
    show ?thesis
    proof (cases "e1 = ESP_OK")
      case True
      from switch_slot_done [OF assms(1,2) slots_le legacy(4) [unfolded True]]
      have "dur n1 = live n1" "selects C (live n1) 0 m0" by metis+
      then show ?thesis using update_resolved [OF assms(1-3) g [unfolded True] _ _ c(1) run] by blast
    next
      case False
      then have "n' = n1" using run g legacy(5) by (simp add: update_production_switch resolve_production_slot_def)
      then show ?thesis using safe(1) updated_old [OF c(2)] updated_same assms(4) by auto
    qed
  qed
qed

lemma update_done:
  assumes "cert_writes api live dur" "reads_sound api live" "update_production api C m n = (ESP_OK, n')"
  shows "\<exists>t. selects C (dur n') t m" "dur n' = live n'"
proof -
  obtain e1 a n1 where g: "resolve_production_slot api C n = ((e1, a), n1)" by (metis surj_pair)
  have a: "a \<le> 1" if "e1 = ESP_OK"
  proof -
    obtain e0 n0 where m: "migrate_legacy_production_material api C n = (e0, n0)" by fastforce
    obtain er r where rd: "read_production_slot_selector api n0 = (er, r)" by fastforce
    have "er = ESP_OK \<Longrightarrow> r = Some s \<Longrightarrow> s \<le> 1" for s using assms(2) [unfolded reads_sound_def] rd by metis
    then show ?thesis using g m rd that slot_cases
      by (fastforce simp: resolve_production_slot_def split: if_splits option.splits)
  qed
  then have t: "(if e1 = ESP_ERR_NOT_FOUND then 1 else a) XOR 1 \<le> 1" if "e1 = ESP_OK \<or> e1 = ESP_ERR_NOT_FOUND"
    using that slot_cases by fastforce
  have "e1 = ESP_OK \<or> e1 = ESP_ERR_NOT_FOUND" "switch_slot api C ((if e1 = ESP_ERR_NOT_FOUND then 1 else a) XOR 1) m n1 = (ESP_OK, n')"
    using assms(3) g by (auto simp: update_production_switch split: if_splits)
  from switch_slot_done [OF assms(1,2) t [OF this(1)] this(2)] show "\<exists>t. selects C (dur n') t m" "dur n' = live n'" by blast+
qed

subsection \<open>Preparing the store\<close>

lemma erase_legacy_kept:
  assumes "cert_writes api live dur" "k \<notin> names_keys legacy_names"
  shows "kept live dur k n (snd (erase_legacy api n))"
proof -
  note step = kept_step [OF assms(1)]
  have k: "k \<noteq> sn_key legacy_names" "k \<noteq> sn_pem legacy_names" "k \<noteq> sn_host legacy_names" using assms(2) by (auto simp: names_keys_def)
  obtain e0 n0 e1 n1 e2 n2 e3 n3 where o1: "cv_open_write api n = (e0, n0)" "cv_erase_key api (sn_key legacy_names) n0 = (e1, n1)"
    "cv_erase_key api (sn_pem legacy_names) n1 = (e2, n2)" "cv_erase_key api (sn_host legacy_names) n2 = (e3, n3)"
    by (metis surj_pair)
  have s: "kept live dur k n n0" "kept live dur k n0 n1" "kept live dur k n1 n2" "kept live dur k n2 n3"
    using step(1) [of k n] step(4) [OF k(1), of n0] step(4) [OF k(2), of n1] step(4) [OF k(3), of n2] o1 by simp_all
  have 2: "kept live dur k n n1" by (rule kept_trans [OF s(1,2)])
  have 3: "kept live dur k n n2" by (rule kept_trans [OF 2 s(3)])
  have 4: "kept live dur k n n3" by (rule kept_trans [OF 3 s(4)])
  have c: "kept live dur k n (snd (cv_commit api m))" if "kept live dur k n m" for m by (rule kept_trans [OF that step(2)])
  show ?thesis using o1 s(1) 2 3 4 c [OF 2] c [OF 3] c [OF 4] by (simp add: erase_legacy_def Let_def)
qed

lemma credential_selected:
  assumes "selector_of v = Some s" "\<And>k. k \<notin> names_keys legacy_names \<Longrightarrow> w k = v k"
  shows "credential C w = credential C v"
proof -
  have "selector_of w = Some s" using assms(2) [OF selector_key(2)] assms(1) by (simp add: selector_of_def)
  moreover have "valid_material C w (s_prod_slots t) = valid_material C v (s_prod_slots t)" for t
    by (rule valid_material_cong) (rule assms(2), auto simp: names_keys_def slot_keys s_prod_slots_def split: if_splits)
  ultimately show ?thesis using assms(1) by (simp add: credential_def split: option.split)
qed

text \<open>The old names are erased only where both slots are valid and one of them holds what the old names do.\<close>

definition held_in_slots :: "cert_crypto \<Rightarrow> cert_view \<Rightarrow> material \<Rightarrow> bool" where
  "held_in_slots C v m \<longleftrightarrow> valid_material C v (s_prod_slots 0) \<noteq> None \<and> valid_material C v (s_prod_slots 1) \<noteq> None \<and>
     (\<exists>t. t \<le> 1 \<and> valid_material C v (s_prod_slots t) = Some m)"

lemma retire_cases:
  assumes "reads_sound api live" "retire_legacy_production_material_if_safe api C n = (err, n')" "n' \<noteq> n"
  obtains s m where "selector_of (live n) = Some s" "valid_material C (live n) legacy_names = Some m" "held_in_slots C (live n) m"
    "n' = snd (erase_legacy api n)"
proof -
  let ?v = "\<lambda>t. validate_production_slot api C t n"
  obtain er r where rd: "read_production_slot_selector api n = (er, r)" by fastforce
  obtain el m where ld: "load_material_by_names api legacy_names 254 n = (el, m)" by fastforce
  note sound = assms(1) [unfolded reads_sound_def]
  note run = assms(2,3) [unfolded retire_legacy_production_material_if_safe_def ACME_DNS_NAME_MAX_LENGTH_def]
  have both: "?v 0 = ESP_OK" "?v 1 = ESP_OK" using run by (simp_all split: if_splits)
  obtain s where s: "r = Some s" "er = ESP_OK" using run rd both by (auto split: option.splits if_splits)
  define t where "t = (if ?v s \<noteq> ESP_OK then s XOR 1 else s)"
  obtain ea active where la: "load_material_by_names api (s_prod_slots t) 254 n = (ea, active)" by fastforce
  have sel: "selector_of (live n) = Some s" "s \<le> 1" using sound rd s by metis+
  have t: "t \<le> 1" using slot_cases [OF sel(2)] by (auto simp: t_def)
  have e: "?v t = ESP_OK" "el = ESP_OK" "validate_certificate_material C (mt_host m) (mt_key m) (pem_text (mt_pem m)) = ESP_OK"
    "ea = ESP_OK" "mt_host m = mt_host active" "mt_key m = mt_key active" "mt_pem m = mt_pem active" "n' = snd (erase_legacy api n)"
    using run rd both s ld la by (auto simp: Let_def t_def [symmetric] split: if_splits)
  have eq: "active = m" using e(5-7) by simp
  have v: "valid_material C (live n) legacy_names = Some m" "valid_material C (live n) (s_prod_slots t) = Some m"
    using sound ld la e(2-4) eq by (simp_all add: valid_material_def acceptable_def)
  have "held_in_slots C (live n) m"
    unfolding held_in_slots_def using v(2) t slot_sound(1) [OF assms(1) _ both(1)] slot_sound(1) [OF assms(1) _ both(2)] by auto
  then show ?thesis using that sel(1) v(1) e(8) by blast
qed

lemma retire_safe:
  assumes "cert_writes api live dur" "reads_sound api live" "dur n = live n"
    and "retire_legacy_production_material_if_safe api C n = (err, n')"
  shows "\<And>k. k \<notin> names_keys legacy_names \<Longrightarrow> dur n' k = live n k"
    "n' = n \<or> (\<exists>s m. selector_of (live n) = Some s \<and> valid_material C (live n) legacy_names = Some m \<and> held_in_slots C (live n) m)"
proof -
  show "dur n' k = live n k" if "k \<notin> names_keys legacy_names" for k
  proof (cases "n' = n")
    case False
    from retire_cases [OF assms(2,4) False] have "n' = snd (erase_legacy api n)" by metis
    then show ?thesis using erase_legacy_kept [OF assms(1) that, of n] assms(3) by (simp add: kept_def)
  qed (use assms(3) in simp)
  show "n' = n \<or> (\<exists>s m. selector_of (live n) = Some s \<and> valid_material C (live n) legacy_names = Some m \<and> held_in_slots C (live n) m)"
    using retire_cases [OF assms(2,4)] by metis
qed

lemma resolve_safe:
  assumes "cert_writes api live dur" "reads_sound api live" "dur n = live n" "resolve_production_slot api C n = ((err, s), n')"
  shows "n' = n \<or> stands C (dur n') (credential C (live n))" "err = ESP_OK \<Longrightarrow> dur n' = live n'"
    "k \<in> names_keys legacy_names \<Longrightarrow> dur n' k = live n k \<and> live n' k = live n k"
proof -
  obtain e1 n1 where g: "migrate_legacy_production_material api C n = (e1, n1)" by fastforce
  have n1: "n' = n1" "err = ESP_OK \<Longrightarrow> e1 = ESP_OK \<or> e1 = ESP_ERR_NOT_FOUND"
    using assms(4) g by (auto simp: resolve_production_slot_def split: if_splits option.splits prod.splits)
  then show "n' = n \<or> stands C (dur n') (credential C (live n))" "err = ESP_OK \<Longrightarrow> dur n' = live n'"
    using migrate_safe [OF assms(1-3) g] assms(3) by auto
  show "dur n' k = live n k \<and> live n' k = live n k" if "k \<in> names_keys legacy_names"
    using assms(1,2) g
  proof (cases rule: migrate_cases)
    case (legacy m)
    have k: "k \<notin> names_keys (s_prod_slots 0)" "k \<noteq> ACME_PROD_ACTIVE_SLOT_NVS_KEY" using that by (auto simp: names_keys_def slot_keys)
    from switch_slot_kept(1) [OF assms(1) slots_le k(1) legacy(4) k(2)] show ?thesis using n1(1) assms(3) by (simp add: kept_def)
  qed (use n1(1) assms(3) in simp_all)
qed


subsection \<open>Any history\<close>

lemma storage_ready: "as_lock s \<Longrightarrow> as_initialized s \<Longrightarrow> acme_storage_init api s = (ESP_OK, s)"
  by (simp add: acme_storage_init_def ensure_lock_def init_locked_def)

text \<open>A running device, nothing pending.\<close>

definition at_rest :: "('n \<Rightarrow> cert_view) \<Rightarrow> ('n \<Rightarrow> cert_view) \<Rightarrow> 'n acme_sys \<Rightarrow> bool" where
  "at_rest live dur s \<longleftrightarrow> as_lock s \<and> as_initialized s \<and> dur (as_nvs s) = live (as_nvs s)"

text \<open>What an update stores.\<close>

definition stored :: "bytes \<Rightarrow> bytes \<Rightarrow> bytes \<Rightarrow> material" where
  "stored hostname private_key pem = \<lparr>mt_key = private_key, mt_pem = pem @ [0], mt_host = hostname\<rparr>"

lemma store_updates:
  assumes "cert_writes api live dur" "reads_sound api live" "at_rest live dur s"
    and run: "store_certificate_material api C True hostname private_key pem s = (err, s')"
  shows "selected_checks api C live \<Longrightarrow> updated C (live (as_nvs s)) (dur (as_nvs s')) (stored hostname private_key pem)"
    "err = ESP_OK \<Longrightarrow> (\<exists>t. selects C (dur (as_nvs s')) t (stored hostname private_key pem)) \<and> at_rest live dur s'"
proof -
  let ?m = "stored hostname private_key pem"
  have ready: "acme_storage_init api s = (ESP_OK, s)" and r: "dur (as_nvs s) = live (as_nvs s)"
    using assms(3) storage_ready by (auto simp: at_rest_def)
  have "(selected_checks api C live \<longrightarrow> updated C (live (as_nvs s)) (dur (as_nvs s')) ?m) \<and>
    (err = ESP_OK \<longrightarrow> (\<exists>t. selects C (dur (as_nvs s')) t ?m) \<and> at_rest live dur s')"
  proof (cases "dns_name_is_valid hostname \<and> pem \<noteq> [] \<and> validate_certificate_material C hostname private_key pem = ESP_OK")
    case False
    then have "err \<noteq> ESP_OK" "s' = s" using run by (auto simp: store_certificate_material_def Let_def split: if_splits)
    then show ?thesis using r updated_same by simp
  next
    case True
    obtain e n where u: "update_production api C ?m (as_nvs s) = (e, n)" by fastforce
    then have e: "err = e" "s' = s\<lparr>as_nvs := n\<rparr>"
      using run True ready by (auto simp: store_certificate_material_def on_storage_def stored_def Let_def)
    then show ?thesis using update_safe [OF assms(1,2) _ r u] u assms(3)
        update_done [OF assms(1,2), of C ?m "as_nvs s" n]
      by (auto simp: at_rest_def)
  qed
  then show "selected_checks api C live \<Longrightarrow> updated C (live (as_nvs s)) (dur (as_nvs s')) ?m"
    "err = ESP_OK \<Longrightarrow> (\<exists>t. selects C (dur (as_nvs s')) t ?m) \<and> at_rest live dur s'" by blast+
qed

lemma held_cong:
  assumes "\<And>k. k \<notin> names_keys legacy_names \<Longrightarrow> w k = v k"
  shows "held_in_slots C w m = held_in_slots C v m" "selected_ok C w = selected_ok C v" "selector_of w = selector_of v"
proof -
  have *: "valid_material C w (s_prod_slots t) = valid_material C v (s_prod_slots t)" for t
    by (rule valid_material_cong) (rule assms, auto simp: names_keys_def slot_keys s_prod_slots_def split: if_splits)
  show s: "selector_of w = selector_of v" using assms [OF selector_key(2)] by (simp add: selector_of_def)
  show "held_in_slots C w m = held_in_slots C v m" "selected_ok C w = selected_ok C v"
    by (simp_all add: * s held_in_slots_def selected_ok_def split: option.split)
qed

lemma prepare_keeps:
  assumes "cert_writes api live dur" "reads_sound api live" "at_rest live dur s"
    and run: "acme_client_prepare_production_storage api C s = (err, s')"
  defines "before \<equiv> live (as_nvs s)" and "after \<equiv> dur (as_nvs s')"
  shows "credential C after = credential C before" "selected_ok C before \<Longrightarrow> selected_ok C after"
    "(\<forall>k \<in> names_keys legacy_names. after k = before k) \<or>
     (\<exists>m. valid_material C before legacy_names = Some m \<and> held_in_slots C after m)"
proof -
  have ready: "acme_storage_init api s = (ESP_OK, s)" and r: "dur (as_nvs s) = live (as_nvs s)"
    using assms(3) storage_ready by (auto simp: at_rest_def)
  obtain e1 t n1 where g: "resolve_production_slot api C (as_nvs s) = ((e1, t), n1)" by (metis surj_pair)
  note safe = resolve_safe [OF assms(1,2) r g]
  have c: "credential C (dur n1) = credential C before" "selected_ok C before \<Longrightarrow> selected_ok C (dur n1)"
    using safe(1) r by (auto simp: stands_def before_def)
  have "credential C after = credential C before \<and> (selected_ok C before \<longrightarrow> selected_ok C after) \<and>
    ((\<forall>k \<in> names_keys legacy_names. after k = before k) \<or>
     (\<exists>m. valid_material C before legacy_names = Some m \<and> held_in_slots C after m))"
  proof (cases "e1 = ESP_OK")
    case False
    then have "s' = s\<lparr>as_nvs := n1\<rparr>" using run ready g by (auto simp: acme_client_prepare_production_storage_def on_storage_def)
    then show ?thesis using c safe(3) by (simp add: after_def before_def)
  next
    case True
    obtain e2 n2 where q: "retire_legacy_production_material_if_safe api C n1 = (e2, n2)" by fastforce
    have s': "s' = s\<lparr>as_nvs := n2\<rparr>" using run ready g q True by (simp add: acme_client_prepare_production_storage_def on_storage_def)
    note ret = retire_safe [OF assms(1,2) safe(2) [OF True] q]
    note same = held_cong [of "dur n2" "live n1", OF ret(1)]
    have old: "valid_material C (live n1) legacy_names = valid_material C before legacy_names"
      by (rule valid_material_cong) (use safe(3) in \<open>simp add: before_def\<close>)
    have d: "dur n1 = live n1" by (rule safe(2) [OF True])
    show ?thesis using ret(2)
    proof
      assume "n2 = n1"
      then show ?thesis using c safe(3) s' by (simp add: after_def before_def)
    next
      assume "\<exists>s m. selector_of (live n1) = Some s \<and> valid_material C (live n1) legacy_names = Some m \<and> held_in_slots C (live n1) m"
      then obtain sl m where sl: "selector_of (live n1) = Some sl" and m: "valid_material C (live n1) legacy_names = Some m"
        "held_in_slots C (live n1) m" by blast
      have "credential C (dur n2) = credential C (live n1)" by (rule credential_selected [OF sl ret(1)])
      then show ?thesis using c d m same old s' by (auto simp: after_def)
    qed
  qed
  then show "credential C after = credential C before" "selected_ok C before \<Longrightarrow> selected_ok C after"
    "(\<forall>k \<in> names_keys legacy_names. after k = before k) \<or>
     (\<exists>m. valid_material C before legacy_names = Some m \<and> held_in_slots C after m)" by blast+
qed

end
