(* ===== verification/Cert_Served.thy ===== *)
theory Cert_Served
  imports Cert_Theory Cert_Pem
begin

text \<open>
  From the store to the HTTPS server: what \<open>load_tls_credentials\<close> hands out is the credential, so an update that reported
  success is what the server presents after the next restart. Then the properties of the store.
\<close>

subsection \<open>What is served\<close>




lemma valid_materialD:
  assumes "valid_material C v names = Some m"
  shows "view_material v names = Some m" "acceptable C m"
  using assms by (auto simp: valid_material_def split: option.splits if_splits)

lemma view_materialD:
  assumes "view_material v names = Some m"
  shows "v (sn_key names) = Some (CvBlob (mt_key m))" "v (sn_pem names) = Some (CvBlob (mt_pem m))"
    "v (sn_host names) = Some (CvStr (mt_host m))" "length (mt_key m) = 32" "64 \<le> length (mt_pem m)" "length (mt_pem m) \<le> 16384"
    "1 \<le> length (mt_host m)" "length (mt_host m) \<le> 253"
  using assms by (auto simp: view_material_def split: option.splits cert_value.splits if_splits)



lemma resolve_selected:
  assumes "cert_reads api live" "selects C (live n) t m"
  shows "resolve_production_slot api C n = ((ESP_OK, t), n)"
proof -
  have s: "t \<le> 1" "selector_of (live n) = Some t" "valid_material C (live n) (s_prod_slots t) = Some m"
    using assms(2) by (simp_all add: selects_def)
  have r: "read_production_slot_selector api n = (ESP_OK, Some t)" using read_selector [OF assms(1), of n] s leD [OF s(1)] by simp
  have "validate_production_slot api C t n = ESP_OK" using valid_slot [OF assms(1) s(1)] s(3) by simp
  then show ?thesis using r by (simp add: resolve_production_slot_def migrate_legacy_production_material_def)
qed



subsection \<open>A partition that can lose its power\<close>

text \<open>For the witnesses: a map and the number of writes before the power goes; then a library for made-up certificates.\<close>

definition cut_read :: "(cert_value \<Rightarrow> 'a option) \<Rightarrow> 'a \<Rightarrow> string \<Rightarrow> cert_view \<times> nat \<Rightarrow> esp_err \<times> 'a" where
  "cut_read pick d k n =
    (case Option.bind (fst n k) pick of None \<Rightarrow> (ESP_ERR_NVS_NOT_FOUND, d) | Some x \<Rightarrow> (ESP_OK, x))"

definition pick_blob :: "cert_value \<Rightarrow> bytes option" where
  "pick_blob v = (case v of CvBlob b \<Rightarrow> Some b | _ \<Rightarrow> None)"

definition pick_str :: "cert_value \<Rightarrow> bytes option" where
  "pick_str v = (case v of CvStr b \<Rightarrow> Some b | _ \<Rightarrow> None)"

definition pick_u8 :: "cert_value \<Rightarrow> u8 option" where
  "pick_u8 v = (case v of CvU8 x \<Rightarrow> Some x | _ \<Rightarrow> None)"

definition cut_write :: "(cert_view \<Rightarrow> cert_view) \<Rightarrow> cert_view \<times> nat \<Rightarrow> esp_err \<times> cert_view \<times> nat" where
  "cut_write f n = (if snd n = 0 then (ESP_FAIL, n) else (ESP_OK, f (fst n), snd n - 1))"

definition cut_nvs :: "(cert_view \<times> nat) cert_nvs" where
  "cut_nvs = \<lparr> cv_mutex = (\<lambda>_. True),
     cv_setup = (\<lambda>_. \<lparr>su_flash_encrypted = True, su_keys_found = True, su_read_cfg = ESP_OK, su_generate_keys = ESP_OK\<rparr>),
     cv_secure_init = (\<lambda>n. (ESP_OK, n)), cv_open_write = (\<lambda>n. (ESP_OK, n)), cv_open_read = (\<lambda>_. ESP_OK),
     cv_set = (\<lambda>k v. cut_write (\<lambda>f. f(k \<mapsto> v))), cv_erase_key = (\<lambda>k. cut_write (\<lambda>f. f(k := None))),
     cv_commit = cut_write id, cv_u8 = cut_read pick_u8 0,
     cv_blob_size = (\<lambda>k n. let (e, b) = cut_read pick_blob [] k n in (e, length b)),
     cv_blob = (\<lambda>k _. cut_read pick_blob [] k),
     cv_str_size = (\<lambda>k n. let (e, b) = cut_read pick_str [] k n in (e, length b + 1)),
     cv_str = (\<lambda>k _. cut_read pick_str [] k),
     cv_struct = (\<lambda>k n. case fst n k of None \<Rightarrow> (ESP_ERR_NVS_NOT_FOUND, None) | Some v \<Rightarrow> (ESP_OK, Some v)), cv_alloc = (\<lambda>_ _. True) \<rparr>"

lemma cut_writes: "cert_writes cut_nvs fst fst"
  by (auto simp: cert_writes_def cut_nvs_def cut_write_def settles_def)

lemma cut_reads: "cert_reads cut_nvs fst"
  by (auto simp: cert_reads_def cut_nvs_def cut_read_def pick_blob_def pick_str_def pick_u8_def split: option.split cert_value.split)

lemma pick_Some: "pick_u8 v = Some x \<longleftrightarrow> v = CvU8 x" "pick_blob v = Some b \<longleftrightarrow> v = CvBlob b" "pick_str v = Some b \<longleftrightarrow> v = CvStr b"
  by (cases v; simp add: pick_u8_def pick_blob_def pick_str_def)+

lemma pick_None: "pick_u8 (CvU8 x) \<noteq> None" "pick_blob (CvBlob b) \<noteq> None" "pick_str (CvStr b) \<noteq> None"
  by (simp_all add: pick_u8_def pick_blob_def pick_str_def)

lemma cut_read_OK:
  "cut_read pick d k n = (e, x) \<Longrightarrow> e \<noteq> ESP_ERR_NOT_FOUND \<and> (e = ESP_OK \<longrightarrow> (\<exists>v. fst n k = Some v \<and> pick v = Some x)) \<and>
     (e = ESP_ERR_NVS_NOT_FOUND \<longrightarrow> (\<forall>v. fst n k = Some v \<longrightarrow> pick v = None))"
  by (auto simp: cut_read_def split: option.splits Option.bind_splits)

lemma cut_truthful: "cert_truthful cut_nvs fst"
  by (auto simp: cert_truthful_def cut_nvs_def pick_Some pick_None dest!: cut_read_OK split: prod.splits)

lemma cut_readable: "selected_readable cut_nvs C fst"
proof (unfold selected_readable_def, intro allI impI)
  fix n :: "cert_view \<times> nat" and s m
  assume "selects C (fst n) s m"
  then have "view_material (fst n) (s_prod_slots s) = Some m" by (auto simp: selects_def dest: valid_materialD(1))
  from view_materialD(1-3) [OF this] show "slot_readable cut_nvs (s_prod_slots s) n"
    by (simp add: slot_readable_def cut_nvs_def cut_read_def pick_blob_def pick_str_def)
qed

definition made_up_crypto :: cert_crypto where
  "made_up_crypto = \<lparr>
     cc_x509_parse = (\<lambda>pem. let t = \<lparr>xt_year = 2030, xt_mon = 1, xt_day = 2, xt_hour = 3, xt_min = 4, xt_sec = 5\<rparr> in
       Some \<lparr>x_raw = [0x82, 1, 0x61, 4] @ replicate 64 (hd pem), x_valid_from = t, x_valid_to = t, x_count = 1\<rparr>),
     cc_import_key = (\<lambda>_. True), cc_public_key = (\<lambda>key. Some (4 # replicate 64 (hd key))), cc_sha256 = (\<lambda>_. Some (replicate 32 7)) \<rparr>"

text \<open>The update to the certificate number \<open>x\<close> of the host \<open>a\<close>, with power for \<open>budget\<close> writes.\<close>

definition device :: "cert_view \<Rightarrow> nat \<Rightarrow> (cert_view \<times> nat) acme_sys" where
  "device v budget = \<lparr>as_lock = True, as_initialized = True, as_nvs = (v, budget)\<rparr>"

definition made_up :: "u8 \<Rightarrow> material" where
  "made_up x = stored [0x61] (replicate 32 x) (replicate 64 x)"

definition try_update :: "u8 \<Rightarrow> (cert_view \<times> nat) acme_sys \<Rightarrow> esp_err \<times> (cert_view \<times> nat) acme_sys" where
  "try_update x = store_certificate_material cut_nvs made_up_crypto True [0x61] (replicate 32 x) (replicate 64 x)"

text \<open>A partition that holds the first certificate, and what is left of the update to the second.\<close>

definition first_certificate :: cert_view where
  "first_certificate = fst (as_nvs (snd (try_update 1 (device (\<lambda>_. None) 9))))"

lemma device_at_rest: "at_rest fst fst (device v budget)"
  by (simp add: at_rest_def device_def)

lemma first_ok: "selected_ok made_up_crypto first_certificate" "credential made_up_crypto first_certificate = Some (made_up 1)"
  by code_simp+

lemma update_runs:
  "fst (try_update 2 (device first_certificate 2)) = ESP_FAIL" "fst (try_update 2 (device first_certificate 9)) = ESP_OK"
  by code_simp+

text \<open>A partition whose selected slot has lost its PEM text, so that the other one stands in.\<close>

definition damaged_slot :: cert_view where
  "damaged_slot = map_of (slot_values (s_prod_slots 0) (made_up 1) @
     [(''pkey_b'', CvBlob (replicate 32 3)), (ACME_PROD_ACTIVE_SLOT_NVS_KEY, CvU8 1)])"

lemma damaged_holds: "credential made_up_crypto damaged_slot = Some (made_up 1)"
  by code_simp

text \<open>
  With little memory the slot that is selected and valid cannot be checked, the other one stands in, and the update overwrites
  the slot selected: cut after its first write it leaves neither the certificate held before nor the new one, but the one
  before that.
\<close>

definition little_memory :: "(cert_view \<times> nat) cert_nvs" where
  "little_memory = cut_nvs\<lparr>cv_alloc := (\<lambda>len _. len \<le> 70)\<rparr>"

definition long_certificate :: cert_view where
  "long_certificate = map_of (slot_values (s_prod_slots 0) (made_up 1) @
     slot_values (s_prod_slots 1) (stored [0x61] (replicate 32 2) (replicate 80 2)) @ [(ACME_PROD_ACTIVE_SLOT_NVS_KEY, CvU8 1)])"

lemma little_memory_laws: "cert_writes little_memory fst fst" "cert_truthful little_memory fst"
  using cut_writes cut_truthful by (simp_all add: little_memory_def cert_writes_def cert_truthful_def)

lemma memory_shortage_loses_certificate:
  "stands made_up_crypto long_certificate (Some (stored [0x61] (replicate 32 2) (replicate 80 2)))"
  "credential made_up_crypto (fst (as_nvs (snd (store_certificate_material little_memory made_up_crypto True [0x61] (replicate 32 3)
     (replicate 64 3) (device long_certificate 1))))) = Some (made_up 1)"
  by code_simp code_simp

definition older_version :: cert_view where
  "older_version = map_of (slot_values legacy_names (made_up 3))"

lemma older_version_holds: "credential made_up_crypto older_version = Some (made_up 3)"
  by code_simp

lemma older_version_prepared:
  "fst (acme_client_prepare_production_storage cut_nvs made_up_crypto (device older_version 9)) = ESP_OK"
  by code_simp

text \<open>The same taken over into slot A, and then a later certificate in slot B, with the first one selected again.\<close>

definition both_valid :: cert_view where
  "both_valid = map_of (slot_values legacy_names (made_up 3) @ slot_values (s_prod_slots 0) (made_up 3) @
     slot_values (s_prod_slots 1) (made_up 4) @ [(ACME_PROD_ACTIVE_SLOT_NVS_KEY, CvU8 0)])"

lemma both_valid_holds:
  "valid_material made_up_crypto both_valid legacy_names = Some (made_up 3)"
  "valid_material made_up_crypto both_valid (s_prod_slots 0) = Some (made_up 3)"
  "valid_material made_up_crypto both_valid (s_prod_slots 1) = Some (made_up 4)" "selector_of both_valid = Some 0"
  "both_valid ''pcert_key'' \<noteq> None"
  by code_simp+

lemma both_valid_prepared:
  "fst (as_nvs (snd (acme_client_prepare_production_storage cut_nvs made_up_crypto (device both_valid 9)))) ''pcert_key'' = None"
proof -
  let ?n = "(both_valid, 9) :: cert_view \<times> nat"
  note v = both_valid_holds
  have sel: "selects made_up_crypto (fst ?n) 0 (made_up 3)" using v by (simp add: selects_def)
  have ok: "validate_production_slot cut_nvs made_up_crypto 0 ?n = ESP_OK" "validate_production_slot cut_nvs made_up_crypto 1 ?n = ESP_OK"
    using valid_slot [OF cut_reads, of 0 made_up_crypto ?n] valid_slot [OF cut_reads, of 1 made_up_crypto ?n] v by simp_all
  have rd: "read_production_slot_selector cut_nvs ?n = (ESP_OK, Some 0)" using read_selector [OF cut_reads, of ?n] v(4) by simp
  have ld: "load_material_by_names cut_nvs legacy_names 254 ?n = (ESP_OK, made_up 3)"
    "load_material_by_names cut_nvs (s_prod_slots 0) 254 ?n = (ESP_OK, made_up 3)"
    using load_material(1) [OF cut_reads, of ?n] valid_materialD(1) [OF v(1)] valid_materialD(1) [OF v(2)] by simp_all
  have a: "validate_certificate_material made_up_crypto (mt_host (made_up 3)) (mt_key (made_up 3)) (pem_text (mt_pem (made_up 3))) = ESP_OK"
    using valid_materialD(2) [OF v(1)] by (simp add: acceptable_def)
  have "retire_legacy_production_material_if_safe cut_nvs made_up_crypto ?n = erase_legacy cut_nvs ?n"
    using ok rd ld a by (simp add: retire_legacy_production_material_if_safe_def ACME_DNS_NAME_MAX_LENGTH_def)
  moreover have "fst (snd (erase_legacy cut_nvs ?n)) ''pcert_key'' = None"
    by (simp add: erase_legacy_def cut_nvs_def cut_write_def)
  ultimately show ?thesis using resolve_selected [OF cut_reads sel]
    by (simp add: acme_client_prepare_production_storage_def on_storage_def storage_ready device_def case_prod_unfold Let_def)
qed

subsection \<open>Properties\<close>

text \<open>C38: An update of the production certificate, whatever write, read or allocation fails and wherever the power is cut,
  as long as the slot that is selected and valid can be read and there is memory for its PEM text: if the slot selected was
  valid before (so it is on an empty partition, and this property and C40 keep it so), a restart finds the old credential or
  the new one, selected and valid; in any case a device that had a credential, be it the one of the slot that stands in, has
  one afterwards; and the update reports success only when the new one is selected and written for good.\<close>
theorem cert_update_power_safe:
  assumes "cert_writes api live dur" "cert_truthful api live" "selected_readable api C live" "at_rest live dur s"
    and "store_certificate_material api C True hostname private_key pem s = (err, s')"
  shows "(selected_ok C (live (as_nvs s)) \<longrightarrow>
            stands C (dur (as_nvs s')) (credential C (live (as_nvs s))) \<or>
            (\<exists>t. selects C (dur (as_nvs s')) t (stored hostname private_key pem))) \<and>
         (credential C (live (as_nvs s)) \<noteq> None \<longrightarrow> credential C (dur (as_nvs s')) \<noteq> None) \<and>
         (err = ESP_OK \<longrightarrow> (\<exists>t. selects C (dur (as_nvs s')) t (stored hostname private_key pem)))"
  using store_updates [OF assms(1) truthful_sound [OF assms(2)] assms(4,5)] readable_checks [OF assms(2,3)]
  by (simp add: updated_def)

text \<open>
  An update that is cut leaves the old certificate or the new one, an update that is not leaves the new one; and a partition
  whose selected slot is damaged keeps the certificate that stands in for it.
\<close>

theorem cert_update_power_safe_witness:
  "fst (try_update 2 (device first_certificate 2)) = ESP_FAIL \<and>
   (stands made_up_crypto (fst (as_nvs (snd (try_update 2 (device first_certificate 2))))) (Some (made_up 1)) \<or>
    (\<exists>t. selects made_up_crypto (fst (as_nvs (snd (try_update 2 (device first_certificate 2))))) t (made_up 2))) \<and>
   (\<exists>t. selects made_up_crypto (fst (as_nvs (snd (try_update 2 (device first_certificate 9))))) t (made_up 2)) \<and>
   credential made_up_crypto (fst (as_nvs (snd (try_update 2 (device damaged_slot 1))))) \<noteq> None"
proof -
  have p: "(selected_ok made_up_crypto v \<longrightarrow>
      stands made_up_crypto (fst (as_nvs (snd (try_update 2 (device v b))))) (credential made_up_crypto v) \<or>
      (\<exists>t. selects made_up_crypto (fst (as_nvs (snd (try_update 2 (device v b))))) t (made_up 2))) \<and>
    (credential made_up_crypto v \<noteq> None \<longrightarrow> credential made_up_crypto (fst (as_nvs (snd (try_update 2 (device v b))))) \<noteq> None) \<and>
    (fst (try_update 2 (device v b)) = ESP_OK \<longrightarrow>
      (\<exists>t. selects made_up_crypto (fst (as_nvs (snd (try_update 2 (device v b))))) t (made_up 2)))" for v b
  proof -
    have run: "store_certificate_material cut_nvs made_up_crypto True [0x61] (replicate 32 2) (replicate 64 2) (device v b) =
        (fst (try_update 2 (device v b)), snd (try_update 2 (device v b)))"
      by (simp add: try_update_def)
    have v: "fst (as_nvs (device v b)) = v" by (simp add: device_def)
    from cert_update_power_safe [OF cut_writes cut_truthful cut_readable device_at_rest run] show ?thesis unfolding v made_up_def .
  qed
  show ?thesis using update_runs first_ok damaged_holds p [of first_certificate 2] p [of first_certificate 9] p [of damaged_slot 1]
    by simp
qed



text \<open>C40: Preparing the store at start-up (taking over the single slot of older versions, and erasing it once it is not
  needed), whatever write, read or allocation fails and wherever the power is cut: a restart finds the credential as it was,
  and a selected slot that was valid still is; and the old names are either all as they were, or what they held was valid
  and is held by one of two valid slots.\<close>
theorem cert_prepare_keeps:
  assumes "cert_writes api live dur" "cert_truthful api live" "at_rest live dur s"
    and "acme_client_prepare_production_storage api C s = (err, s')"
  shows "credential C (dur (as_nvs s')) = credential C (live (as_nvs s)) \<and>
         (selected_ok C (live (as_nvs s)) \<longrightarrow> selected_ok C (dur (as_nvs s'))) \<and>
         ((\<forall>k \<in> names_keys legacy_names. dur (as_nvs s') k = live (as_nvs s) k) \<or>
          (\<exists>m. valid_material C (live (as_nvs s)) legacy_names = Some m \<and> held_in_slots C (dur (as_nvs s')) m))"
  using prepare_keeps [OF assms(1) truthful_sound [OF assms(2)] assms(3,4)] by blast

text \<open>
  A partition of an older version, and the preparation with power for every number of writes up to five; then one whose
  slots are both valid and whose old names hold what slot A holds, prepared with power for all writes.
\<close>

theorem cert_prepare_keeps_witness:
  "list_all (\<lambda>budget. credential made_up_crypto (fst (as_nvs (snd
     (acme_client_prepare_production_storage cut_nvs made_up_crypto (device older_version budget))))) = Some (made_up 3)) [0, 1, 2, 3, 4, 5] \<and>
   fst (acme_client_prepare_production_storage cut_nvs made_up_crypto (device older_version 9)) = ESP_OK \<and>
   fst (as_nvs (snd (acme_client_prepare_production_storage cut_nvs made_up_crypto (device both_valid 9)))) ''pcert_key'' = None \<and>
   held_in_slots made_up_crypto (fst (as_nvs (snd (acme_client_prepare_production_storage cut_nvs made_up_crypto (device both_valid 9))))) (made_up 3)"
proof -
  have keeps: "credential made_up_crypto (fst (as_nvs (snd (acme_client_prepare_production_storage cut_nvs made_up_crypto (device v b))))) =
      credential made_up_crypto v \<and>
    (selected_ok made_up_crypto v \<longrightarrow> selected_ok made_up_crypto (fst (as_nvs (snd (acme_client_prepare_production_storage cut_nvs made_up_crypto (device v b)))))) \<and>
    ((\<forall>k \<in> names_keys legacy_names. fst (as_nvs (snd (acme_client_prepare_production_storage cut_nvs made_up_crypto (device v b)))) k = v k) \<or>
     (\<exists>m. valid_material made_up_crypto v legacy_names = Some m \<and>
       held_in_slots made_up_crypto (fst (as_nvs (snd (acme_client_prepare_production_storage cut_nvs made_up_crypto (device v b))))) m))" for v b
  proof -
    let ?r = "acme_client_prepare_production_storage cut_nvs made_up_crypto (device v b)"
    have run: "?r = (fst ?r, snd ?r)" by simp
    have v: "fst (as_nvs (device v b)) = v" by (simp add: device_def)
    from cert_prepare_keeps [OF cut_writes cut_truthful device_at_rest run] show ?thesis unfolding v .
  qed
  have k: "''pcert_key'' \<in> names_keys legacy_names" by (simp add: names_keys_def)
  show ?thesis using older_version_prepared older_version_holds both_valid_holds both_valid_prepared keeps [of older_version] keeps [of both_valid 9] k
    by auto
qed

end
