(* ===== verification/Spec2Isabelle.thy ===== *)
theory Spec2Isabelle
  imports Ntp_Packet Rate_Limit Clock_Theory Nts_Ntp_Auth_Theory Nts_Ke_Theory Ntp_Server_Theory Gnss_Time Eth_Frame_Theory Eth_Theory Device_Config_Theory Peer_History Cert_Served
begin

text \<open>
  The firmware of an ESP32-P4 time server: a GNSS receiver and its pulse per second discipline a clock, which is served over
  NTP, plain or authenticated with Network Time Security (RFC 8915). This library models the C code under
  \<open>src/main\<close> and proves what its components promise, alone and together.

  \<^bold>\<open>The program and the theories.\<close> Each component has a theory with the definitions, named as in the C code and in its order;
  where the proofs are long, a second one, \<open>.._Theory\<close>, states what the component guarantees.

  \<^item> \<open>Prelude\<close>: machine integers (unsigned C integers are words of their width, signed ones are \<open>int\<close> with the ranges written
    out, \<open>size_t\<close> is \<open>nat\<close> with the wrapping subtraction \<open>size_sub\<close>), the error codes of ESP-IDF, buffers of octets with checked
    access (\<open>None\<close> is an access out of bounds), big-endian integers, C's division of signed integers, traces.
  \<^item> \<open>Interfaces\<close>: the contracts between components as locales: \<open>credit_scheme\<close> (an operation granted only as credit accrues),
    \<open>aead\<close> and \<open>sealed_codec\<close> (authenticated encryption and records sealed with it), \<open>value_store\<close> (a store of one value).
    \<open>Binary64\<close> adds \<open>rounding\<close> (C's \<open>double\<close>: rationals, rounded to 53 bits after every operation), \<open>Gnss_Time\<close> adds
    \<open>gnss_invariant\<close> (an invariant kept by all handlers is kept by any bytes). Each is interpreted on the definitions of the
    component that provides it.
  \<^item> \<open>App_State\<close> (\<open>app_state.c\<close>): the snapshot the components publish to. \<open>Pps_Service\<close> (\<open>pps_service.c\<close>): the captures of
    the pulse, in the interrupt and by the readers.
  \<^item> \<open>Gnss_Status\<close>, \<open>Gnss_Service\<close>, \<open>Gnss_Service_Theory\<close>, \<open>Gnss_Time\<close> (\<open>gnss_service.c\<close>): the bytes of the receiver, framed as UBX
    messages and NMEA lines, dates, the start-up exchange, staleness. The parser is a fold of \<open>process_received_byte\<close>; it refines the
    fold of the handlers over a list of frames, lines and noise; the dates agree with a calendar counted month by month.
  \<^item> \<open>Binary64\<close>, \<open>Clock\<close>, \<open>Clock_Theory\<close> (\<open>clock_discipline.c\<close>): samples, filter, state machine, holdover, publication and the
    reading of the clock. \<open>clock_step\<close> are its operations in any interleaving, the initialisation as two of them (its task runs
    before it writes the snapshot) and \<open>enter_fail_closed\<close> of \<open>app_main.c\<close>, the other writer of the snapshot, as one more;
    \<open>clock_reachable\<close> is the inductive set of states they lead to, with the invariant by rule induction, and \<open>between_samples\<close> relates
    two states of a history in which no sample becomes the anchor. Accuracy, monotonicity and provenance of the times served follow.
  \<^item> \<open>Ntp_Packet\<close> (\<open>ntp_packet.c\<close>): parsing and building of the header. \<open>Rate_Limit\<close> (\<open>ntp_rate_limit.c\<close>): the token buckets,
    an instance of \<open>credit_scheme\<close>, which gives the bound on every window of time.
  \<^item> \<open>Aes_Siv\<close> (\<open>nts_aes_siv.c\<close>): AEAD_AES_SIV_CMAC_256 over the CMAC and CTR of a crypto provider, an instance of \<open>aead\<close>.
    \<open>Nts_Storage\<close> (\<open>nts_storage.c\<close>): the ring of master keys in flash, an instance of \<open>value_store\<close>, and its rotation.
    \<open>Nts_Cookie\<close> (\<open>nts_cookie.c\<close>): cookies, an instance of \<open>sealed_codec\<close> over the two.
  \<^item> \<open>Nts_Ntp_Auth\<close>, \<open>Nts_Ntp_Auth_Theory\<close> (\<open>nts_ntp_auth.c\<close>): extension fields of requests and responses. The walk over the
    octets refines a fold over a list of fields; only sealed requests verify; no octets lead out of a buffer.
  \<^item> \<open>Nts_Ke\<close>, \<open>Nts_Ke_Theory\<close> (\<open>nts_ke.c\<close>): key establishment on a TLS session: the record parser, equal to a grammar of requests;
    the reader, however TLS cuts the request; what is answered; the accept loop.
  \<^item> \<open>Ntp_Server\<close>, \<open>Ntp_Server_Theory\<close> (\<open>ntp_server.c\<close>): one datagram from reception to the booked answer, over all of the
    above; the invariant of its status over all reachable states (\<open>server_reach\<close>: the task may run before \<open>ntp_server_start\<close> returns).
  \<^item> \<open>Eth_Frame\<close>, \<open>Eth_Service\<close>, \<open>Eth_Frame_Theory\<close>, \<open>Eth_Theory\<close> (\<open>eth_service.c\<close>): recognition of NTP frames, the late transmit
    timestamp with its checksum, the queue of receive timestamps (a ring with sequence numbers that refines a bounded list)
    and their mapping to UTC through the PTP clock of the MAC; the code is that of a chip with \<open>SOC_EMAC_IEEE1588V2_SUPPORTED\<close>.
  \<^item> \<open>Device_Config\<close>, \<open>Device_Config_Theory\<close> (\<open>device_config.c\<close>): the stored configuration: validation, equal to a grammar, migrations,
    and the invariant and durability of its operations.
  \<^item> \<open>Peer_Monitor\<close>, \<open>Peer_Arith\<close>, \<open>Peer_Theory\<close>, \<open>Peer_History\<close> (\<open>ntp_peer_monitor.c\<close>): a client that watches other servers: which
    responses count, how exact the offset is, the statistics as a function of the history, the end of a poll.
  \<^item> \<open>Cert_Store\<close> (\<open>acme_storage.c\<close>), \<open>Cert_Slots\<close>, \<open>Cert_Access\<close>, \<open>Cert_Pem\<close>, \<open>Cert_Theory\<close>, \<open>Cert_Served\<close> (the storage half of
    \<open>acme_client.c\<close>): the encrypted partition with the ACME account and the production certificate in two slots and a selector. Its
    abstraction is the credential it stands for; an update changes it at once or not at all, whatever else fails and wherever the
    power is cut, as long as the slot selected can be read; what happens where it cannot is the lemma
    \<open>memory_shortage_loses_certificate\<close>.
  \<^item> This theory: the composition of key establishment, cookies and packet authentication.

  \<^bold>\<open>State and effects.\<close> The static variables of a file are a record (\<open>clock_sys\<close>, \<open>gnss_sys\<close>, \<open>eth_sys\<close> and so on), each function maps
  the record before to the record after, and its result is beside it. Functions that can fail return an \<open>esp_err\<close> or a sum.
  An outer \<open>option\<close> is \<open>None\<close> where C has no behaviour: an access outside a buffer, a division by zero, a signed overflow; that it
  does not happen, or exactly when it does, is a theorem. Readings of timers and clocks are arguments, one for each call in
  the code. An interleaving of tasks and interrupts is a sequence of operations: a critical section makes an operation atomic,
  one that creates a task and goes on is split where the task begins to run. Settings are those of the build: the defaults of
  \<open>Kconfig.projbuild\<close> where it has the setting, else the values of \<open>app_config.h\<close>;
  the limiter and the NTS components have constants of their own.

  \<^bold>\<open>Code outside the repository\<close> is a parameter: the crypto provider (\<open>psa\<close>), NVS (\<open>nvs_api\<close>, \<open>cfg_nvs\<close>, \<open>cert_nvs\<close>), X.509 and keys (\<open>cert_crypto\<close>), the TLS session
  (\<open>tls\<close>), the outcomes of sockets, \<open>select\<close>, DNS, drivers and of the creation of tasks, mutexes and timers. Where a
  property relies on them, a named hypothesis states the documented behaviour (\<open>psa_healthy\<close>, \<open>nvs_healthy\<close>, \<open>nvs_lawful\<close>,
  \<open>writes_lawful\<close>, \<open>reads_lawful\<close>, \<open>cert_writes\<close>, \<open>cert_truthful\<close> (reads tell the truth or fail), \<open>selected_readable\<close>, \<open>cert_reads\<close> (no read
  fails), \<open>session_ok\<close>), and the witness of the property has a concrete instance.

  \<^bold>\<open>Loops.\<close> Most loops are structural recursion over the data or the bytes received. The rotation of the master keys is a
  \<open>while_option\<close>, proved to end after at most as many steps as periods have passed. The reader of a TLS session takes the
  results of the calls as a list, and \<open>delivers\<close> says that it holds the whole request. The waiting loops of the receiver and of the
  peer monitor recurse over the readings of the timer; they are proved to end when a reading is past the deadline,
  so the lists need only be long enough to have one. The square root is a \<open>function\<close> with a measure.

  \<^bold>\<open>Not modelled.\<close> The web console (\<open>web_console.c\<close>: HTTP handlers, HTML and JSON text for the vendor's HTTP server), the requests of
  the ACME client (the other half of \<open>acme_client.c\<close>) and the DNS client they use (\<open>cloudflare_client.c\<close>): HTTPS requests, JSON
  and signatures of external libraries whose meaning the sources do not give. \<open>network_identity.c\<close> registers a name
  with the mDNS library, \<open>diagnostics.c\<close> prints the status records, \<open>health.c\<close> is not called, \<open>app_main.c\<close> starts the components in
  order (only what it writes to the snapshot when it gives up is modelled); the driver of the Ethernet PHY is third-party code. Logging is left out everywhere.
\<close>

text \<open>
  C18: A client that established keys gets authenticated time. A key establishment on a working
  session over healthy storage and crypto, with an orderly ring whose active key is current, is
  answered with eight cookies, and with each of them the client can, while that master key is
  active and for a day from the issue, send an NTP request sealed under the client-to-server key it
  exported from its own side of the TLS session: the request verifies, the answer is protected
  with the server-to-client key, has the length of the request, and opens to fresh cookies, one
  more than the placeholders sent.
\<close>
theorem nts_end_to_end:
  assumes "nvs_healthy api" and "psa_healthy P" and "ring_stored api s r" and "ring_ok r"
    and "uint (mk_not_before_ntp (slot_active r)) \<le> uint (ct_seconds t1)"
    and "uint (ct_seconds t1) \<le> uint (ct_seconds (ts 0))"
    and "\<forall>j. uint (ct_seconds (ts j)) \<le> uint (ct_seconds (ts (Suc j)))"
    and "\<forall>j. uint (ct_seconds (ts j)) < uint (mk_not_after_ntp (slot_active r))"
    and "session_ok ssl"
    and "ssl_export ssl NTS_EXPORTER_LABEL NTS_C2S_CONTEXT = (0, c2s)" and "length c2s = 32"
    and "ssl_export ssl NTS_EXPORTER_LABEL NTS_S2C_CONTEXT = (0, s2c)" and "length s2c = 32"
    and "ke_request_ok rs" and "delivers ssl 0 ds" and "delivered ds = rec_flat rs @ rec_bytes end_rec"
    and "length (delivered ds) \<le> 2048" and "length request = NTS_KE_REQUEST_MAX"
    and "uint (mk_not_before_ntp (slot_active r)) \<le> uint (ct_seconds u0)"
    and "uint (ct_seconds u0) < uint (mk_not_after_ntp (slot_active r))"
    and "uint (ct_seconds u0) \<le> uint (ct_seconds (us 0))"
    and "\<forall>j. uint (ct_seconds (us j)) \<le> uint (ct_seconds (us (Suc j)))"
    and "uint (ct_seconds t2) \<le> uint (ct_seconds u1)" and "uint (ct_seconds u1) < uint (ct_seconds t2) + 86400"
    and "length hdr = 48" and "length uid mod 4 = 0" and "32 \<le> length uid" and "length uid \<le> 256"
    and "length phs \<le> 7" and "\<forall>ph \<in> set phs. length ph = 128" and "length nonce = 16"
    and "response_len (length uid) (length phs) \<le> 1280" and "length packet = 1280"
  shows "\<exists>cs s'. handle_client api P ssl (Some t1) (Some t2) (\<lambda>j. Some (ts j)) request st s =
      Some (rec_flat (response_records cs), st\<lparr>ks_exchanges_completed := ks_exchanges_completed st + 1\<rparr>, s') \<and>
    length cs = 8 \<and>
    (\<forall>cookie \<in> set cs. \<exists>ct ctx ast1 s1 cookies nonce2 ct2 ast2 s2.
      siv_seal P c2s (client_ad hdr uid cookie phs) nonce [] = Some ct \<and>
      nts_ntp_auth_verify_request api P (Some u0) (Some u1) (client_request hdr uid cookie phs nonce ct) c0 ast s' =
        Some ((ESP_OK, ctx), ast1, s1) \<and>
      nts_ntp_auth_protect_response api P (\<lambda>j. Some (us j)) ctx packet 48 1280 48 ast1 s1 =
        Some ((ESP_OK, poke packet 48 (ext_bytes (NTS_EF_UNIQUE_IDENTIFIER, uid) @
          ext_bytes (NTS_EF_AUTHENTICATOR, be16 16 @ be16 (of_nat (length ct2)) @ nonce2 @ ct2)),
          length (client_request hdr uid cookie phs nonce ct)), ast2, s2) \<and>
      length cookies = 1 + length phs \<and>
      siv_open P s2c (take 48 packet @ ext_bytes (NTS_EF_UNIQUE_IDENTIFIER, uid)) nonce2 ct2 =
        Some (ext_flat (cookie_fields cookies)))"
proof -
  have now: "uint (ct_seconds t1) < uint (mk_not_after_ntp (slot_active r))" using assms(6,8) by (meson le_less_trans)
  obtain cs i s' where k: "handle_client api P ssl (Some t1) (Some t2) (\<lambda>j. Some (ts j)) request st s =
      Some (rec_flat (response_records cs), st\<lparr>ks_exchanges_completed := ks_exchanges_completed st + 1\<rparr>, s')" "length cs = 8"
    and r: "ring_stored api s' r" "\<forall>c \<in> set cs. fresh_cookie_in r P (session_keys c2s s2c i (ucast (ct_seconds t2))) c"
    using ke_exchange_ring [where ?t2.0 = t2 and ts = ts and st = st, OF assms(1-7) assms(9-18)] now assms(8)
    by (elim exE conjE) blast
  let ?keys = "session_keys c2s s2c i (ucast (ct_seconds t2))"
  let ?keys1 = "?keys\<lparr>nk_master_key_id := mk_key_id (slot_active r)\<rparr>"
  have l: "length (nk_c2s_key ?keys) = 32" "length (nk_s2c_key ?keys) = 32" using assms(11,13) by (simp_all add: session_keys_def)
  have life: "uint (nk_issued_ntp_seconds ?keys) \<le> uint (ct_seconds u1)" "uint (ct_seconds u1) < uint (nk_expires_ntp_seconds ?keys)"
    using assms(23,24) by (simp_all add: session_keys_def uint_ucast_widen expiry_no_wrap)
  have l1: "length (nk_c2s_key ?keys1) = 32" "length (nk_s2c_key ?keys1) = 32" and c2s: "nk_c2s_key ?keys1 = c2s"
    and s2c: "nk_s2c_key ?keys1 = s2c" using assms(11,13) by (simp_all add: session_keys_def)
  show ?thesis
  proof (intro exI [of _ cs] exI [of _ s'] conjI ballI k)
    fix cookie assume "cookie \<in> set cs"
    then obtain s1 where u: "nts_cookie_unpack api P (Some u0) (Some u1) cookie s' = Some (Inr ?keys1, s1)"
      using fresh_cookie_opens [OF assms(1,2) r(1) assms(4,20) _ l life] r(2) by blast
    obtain ct where ct: "siv_seal P c2s (client_ad hdr uid cookie phs) nonce [] = Some ct"
      using siv.seal_total [OF assms(2,11)] by blast
    have ct1: "siv_seal P (nk_c2s_key ?keys1) (client_ad hdr uid cookie phs) nonce [] = Some ct" unfolding c2s by (rule ct)
    note ex = exchange_ok [where ts = us and st = ast and ?c0.0 = c0, OF assms(1,2) r(1) assms(4,19,21,22) u l1
      assms(25-31) ct1 assms(32,33), unfolded s2c]
    then show "\<exists>ct ctx ast1 s1 cookies nonce2 ct2 ast2 s2.
      siv_seal P c2s (client_ad hdr uid cookie phs) nonce [] = Some ct \<and>
      nts_ntp_auth_verify_request api P (Some u0) (Some u1) (client_request hdr uid cookie phs nonce ct) c0 ast s' =
        Some ((ESP_OK, ctx), ast1, s1) \<and>
      nts_ntp_auth_protect_response api P (\<lambda>j. Some (us j)) ctx packet 48 1280 48 ast1 s1 =
        Some ((ESP_OK, poke packet 48 (ext_bytes (NTS_EF_UNIQUE_IDENTIFIER, uid) @
          ext_bytes (NTS_EF_AUTHENTICATOR, be16 16 @ be16 (of_nat (length ct2)) @ nonce2 @ ct2)),
          length (client_request hdr uid cookie phs nonce ct)), ast2, s2) \<and>
      length cookies = 1 + length phs \<and>
      siv_open P s2c (take 48 packet @ ext_bytes (NTS_EF_UNIQUE_IDENTIFIER, uid)) nonce2 ct2 =
        Some (ext_flat (cookie_fields cookies))"
      using ct by (elim exE conjE) (intro exI conjI; assumption)
  qed
qed

theorem nts_end_to_end_witness:
  "\<exists>cs s' cookie ct (ctx :: auth_context) ast1 s1.
     handle_client toy_nvs psa_toy (tls_toy (rec_flat toy_request @ rec_bytes end_rec))
       (Some \<lparr>ct_seconds = 2000, ct_fraction = 0\<rparr>) (Some \<lparr>ct_seconds = 2000, ct_fraction = 0\<rparr>)
       (\<lambda>j. Some \<lparr>ct_seconds = 2000, ct_fraction = 0\<rparr>) (replicate 2048 0)
       \<lparr>ks_running = True, ks_tls_handshake_failures = 0, ks_alpn_rejections = 0, ks_exchanges_completed = 7,
          ks_exchange_failures = 0\<rparr> (toy_storage (Some toy_ring)) =
       Some (rec_flat (response_records cs), \<lparr>ks_running = True, ks_tls_handshake_failures = 0, ks_alpn_rejections = 0,
         ks_exchanges_completed = 8, ks_exchange_failures = 0\<rparr>, s') \<and>
     cookie \<in> set cs \<and>
     nts_ntp_auth_verify_request toy_nvs psa_toy (Some \<lparr>ct_seconds = 3000, ct_fraction = 0\<rparr>)
       (Some \<lparr>ct_seconds = 3000, ct_fraction = 0\<rparr>)
       (client_request (replicate 48 0) (replicate 32 7) cookie [] (replicate 16 5) ct) undefined undefined s' =
       Some ((ESP_OK, ctx), ast1, s1)"
proof -
  let ?t = "\<lparr>ct_seconds = 2000, ct_fraction = 0\<rparr>" and ?u = "\<lparr>ct_seconds = 3000, ct_fraction = 0\<rparr>"
  let ?st = "\<lparr>ks_running = True, ks_tls_handshake_failures = 0, ks_alpn_rejections = 0, ks_exchanges_completed = 7,
          ks_exchange_failures = 0\<rparr>"
  have t: "uint (mk_not_before_ntp (slot_active toy_ring)) \<le> uint (ct_seconds ?t)"
    "uint (mk_not_before_ntp (slot_active toy_ring)) \<le> uint (ct_seconds ?u)"
    "\<forall>j :: nat. uint (ct_seconds ?t) < uint (mk_not_after_ntp (slot_active toy_ring))"
    "uint (ct_seconds ?u) < uint (mk_not_after_ntp (slot_active toy_ring))" by (simp_all add: toy_ring_def)
  have le: "uint (ct_seconds v) \<le> uint (ct_seconds v)" "\<forall>j :: nat. uint (ct_seconds v) \<le> uint (ct_seconds v)"
    for v :: clock_ntp_timestamp by simp_all
  have life: "uint (ct_seconds ?t) \<le> uint (ct_seconds ?u)" "uint (ct_seconds ?u) < uint (ct_seconds ?t) + 86400" by simp_all
  have len: "length (replicate 32 b) = 32" for b :: u8 by simp
  have side: "length (replicate 48 (0 :: u8)) = 48" "length (replicate 32 (7 :: u8)) mod 4 = 0"
    "32 \<le> length (replicate 32 (7 :: u8))" "length (replicate 32 (7 :: u8)) \<le> 256" "length ([] :: bytes list) \<le> 7"
    "\<forall>ph \<in> set ([] :: bytes list). length ph = 128" "length (replicate 16 (5 :: u8)) = 16"
    "response_len (length (replicate 32 (7 :: u8))) (length ([] :: bytes list)) \<le> 1280"
    "length (replicate 1280 (0 :: u8)) = 1280" by (simp_all add: response_len_def)
  obtain cs s' where k: "handle_client toy_nvs psa_toy (tls_toy (rec_flat toy_request @ rec_bytes end_rec)) (Some ?t) (Some ?t)
      (\<lambda>j. Some ?t) (replicate 2048 0) ?st (toy_storage (Some toy_ring)) =
      Some (rec_flat (response_records cs), ?st\<lparr>ks_exchanges_completed := ks_exchanges_completed ?st + 1\<rparr>, s')" "length cs = 8"
    and v: "\<forall>cookie \<in> set cs. \<exists>ct (ctx :: auth_context) ast1 s1. nts_ntp_auth_verify_request toy_nvs psa_toy (Some ?u) (Some ?u)
      (client_request (replicate 48 0) (replicate 32 7) cookie [] (replicate 16 5) ct) undefined undefined s' =
      Some ((ESP_OK, ctx), ast1, s1)"
    using nts_end_to_end [where ?t2.0 = ?t and ts = "\<lambda>j. ?t" and us = "\<lambda>j. ?u" and st = ?st and ast = undefined
        and ?c0.0 = undefined, OF toy_nvs_healthy psa_toy_healthy toy_ring_stored toy_ring_ok t(1) le t(3) tls_toy_ok
        tls_toy_keys(1) len tls_toy_keys(2) len toy_request_ok toy_session [OF refl] t(2,4) le life side]
    by blast
  have "hd cs \<in> set cs" using k(2) by (cases cs) auto
  then obtain ct ctx ast1 s1 where "nts_ntp_auth_verify_request toy_nvs psa_toy (Some ?u) (Some ?u)
      (client_request (replicate 48 0) (replicate 32 7) (hd cs) [] (replicate 16 5) ct) undefined undefined s' =
      Some ((ESP_OK, ctx :: auth_context), ast1, s1)" using v by blast
  moreover have "?st\<lparr>ks_exchanges_completed := ks_exchanges_completed ?st + 1\<rparr> = \<lparr>ks_running = True,
      ks_tls_handshake_failures = 0, ks_alpn_rejections = 0, ks_exchanges_completed = 8, ks_exchange_failures = 0\<rparr>" by simp
  ultimately show ?thesis using k(1) \<open>hd cs \<in> set cs\<close> by metis
qed

end
